(* ===== verification/Prelude.thy ===== *)
theory Prelude
  imports Main "HOL-Library.Word" "HOL-Library.Product_Lexorder"
begin

text \<open>
  The shared prelude: the machine-integer and byte-string types of the services, the result
  combinator behind Rust's \<^verbatim>\<open>?\<close> operator, the ASCII helpers of the Rust standard library that
  the sources use, big-endian byte strings, keyed tables (how the relational tables of the
  SQLite stores are held) and the named collections that the component proofs share.
\<close>

section \<open>Machine types\<close>

type_synonym u8 = "8 word"
type_synonym u32 = "32 word"
type_synonym u64 = "64 word"
type_synonym u256 = "256 word"
type_synonym bytes = "8 word list"

text \<open>
  A 32-byte identifier (\<^verbatim>\<open>B256\<close>, a Miden note ID, nullifier, \<^verbatim>\<open>Word\<close> or account ID in its
  serialized form) is the 256-bit number its bytes spell big-endian. SQLite compares two
  \<^verbatim>\<open>BLOB\<close>s of one length byte by byte, which is the unsigned order of these numbers.
\<close>

type_synonym b256 = "256 word"
type_synonym note_id = "256 word"
type_synonym nullifier = "256 word"
type_synonym account_id = "256 word"
type_synonym address = "160 word"

text \<open>Block numbers are \<^verbatim>\<open>u32\<close> in the sources; the model keeps them as natural numbers.\<close>

type_synonym block_number = nat

named_theorems outcome_simps \<open>equations that open the results of fallible operations\<close>
named_theorems frame_simps \<open>what an operation leaves unchanged\<close>

section \<open>Fallible results\<close>

text \<open>\<open>Inl\<close> is Rust's \<^verbatim>\<open>Err\<close>, \<open>Inr\<close> is \<^verbatim>\<open>Ok\<close>; \<open>and_then\<close> is what \<^verbatim>\<open>?\<close> does to a result.\<close>

definition and_then :: "'e + 'a \<Rightarrow> ('a \<Rightarrow> 'e + 'b) \<Rightarrow> 'e + 'b" where
  "and_then r f = (case r of Inl e \<Rightarrow> Inl e | Inr x \<Rightarrow> f x)"

definition ok_or :: "'a option \<Rightarrow> 'e \<Rightarrow> 'e + 'a" where
  "ok_or x e = (case x of None \<Rightarrow> Inl e | Some v \<Rightarrow> Inr v)"

definition ensure_that :: "bool \<Rightarrow> 'e \<Rightarrow> 'e + unit" where
  "ensure_that b e = (if b then Inr () else Inl e)"

lemma and_then_simps [simp]:
  "and_then (Inl e) f = Inl e" "and_then (Inr x) f = f x"
  by (simp_all add: and_then_def)

lemma and_then_Inr_iff [outcome_simps]:
  "and_then r f = Inr y \<longleftrightarrow> (\<exists>x. r = Inr x \<and> f x = Inr y)"
  by (cases r) auto

lemma and_then_Inl_iff [outcome_simps]:
  "and_then r f = Inl e \<longleftrightarrow> r = Inl e \<or> (\<exists>x. r = Inr x \<and> f x = Inl e)"
  by (cases r) auto

lemma ok_or_Inr_iff [outcome_simps]: "ok_or x e = Inr v \<longleftrightarrow> x = Some v"
  by (auto simp: ok_or_def split: option.splits)

lemma ok_or_Inl_iff [outcome_simps]: "ok_or x e = Inl e' \<longleftrightarrow> x = None \<and> e' = e"
  by (auto simp: ok_or_def split: option.splits)

lemma ok_or_simps [simp]: "ok_or (Some v) e = Inr v" "ok_or None e = Inl e"
  by (simp_all add: ok_or_def)

lemma ensure_that_Inr_iff [outcome_simps]: "ensure_that b e = Inr u \<longleftrightarrow> b"
  by (auto simp: ensure_that_def)

lemma ensure_that_Inl_iff [outcome_simps]: "ensure_that b e = Inl e' \<longleftrightarrow> \<not> b \<and> e' = e"
  by (auto simp: ensure_that_def)

lemma ensure_that_simps [simp]: "ensure_that True e = Inr ()" "ensure_that False e = Inl e"
  by (simp_all add: ensure_that_def)

text \<open>\<open>collect_all\<close> is \<^verbatim>\<open>iter().map(f).collect::<Result<Vec<_>, _>>()\<close>: the first error wins.\<close>

fun collect_all :: "('a \<Rightarrow> 'e + 'b) \<Rightarrow> 'a list \<Rightarrow> 'e + 'b list" where
  "collect_all f [] = Inr []"
| "collect_all f (x # xs) =
     and_then (f x) (\<lambda>y. and_then (collect_all f xs) (\<lambda>ys. Inr (y # ys)))"

lemma collect_all_Inr_iff:
  "collect_all f xs = Inr ys \<longleftrightarrow> list_all2 (\<lambda>x y. f x = Inr y) xs ys"
  by (induction xs arbitrary: ys) (auto simp: outcome_simps list_all2_Cons1)

lemma collect_all_total:
  "(\<And>x. x \<in> set xs \<Longrightarrow> \<exists>y. f x = Inr y) \<Longrightarrow> \<exists>ys. collect_all f xs = Inr ys"
  by (induction xs) (simp, fastforce)

lemma collect_all_cong_map:
  "(\<And>x. x \<in> set xs \<Longrightarrow> f x = Inr (g x)) \<Longrightarrow> collect_all f xs = Inr (map g xs)"
  by (induction xs) auto

section \<open>Fallible steps on a state\<close>

text \<open>
  A method with \<^verbatim>\<open>&mut self\<close> that returns a result: it maps a state to the result and the state
  it leaves, also when it fails. \<open>bind_run\<close> is \<^verbatim>\<open>?\<close> on such a call, \<open>map_err\<close> converts its error.
\<close>

type_synonym ('s, 'e, 'a) run = "'s \<Rightarrow> ('e + 'a) \<times> 's"

definition ret :: "'a \<Rightarrow> ('s, 'e, 'a) run" where
  "ret v s = (Inr v, s)"

definition raise :: "'e \<Rightarrow> ('s, 'e, 'a) run" where
  "raise e s = (Inl e, s)"

definition bind_run :: "('s, 'e, 'a) run \<Rightarrow> ('a \<Rightarrow> ('s, 'e, 'b) run) \<Rightarrow> ('s, 'e, 'b) run" where
  "bind_run m f s = (case m s of (Inl e, t) \<Rightarrow> (Inl e, t) | (Inr v, t) \<Rightarrow> f v t)"

definition map_err :: "('e \<Rightarrow> 'f) \<Rightarrow> ('s, 'e, 'a) run \<Rightarrow> ('s, 'f, 'a) run" where
  "map_err g m s = (case m s of (Inl e, t) \<Rightarrow> (Inl (g e), t) | (Inr v, t) \<Rightarrow> (Inr v, t))"

lemma ret_simps [simp]: "ret v s = (Inr v, s)" "raise e s = (Inl e, s)"
  by (simp_all add: ret_def raise_def)

lemma bind_run_ret [simp]: "bind_run (ret v) f = f v" "bind_run (raise e) f = raise e"
  by (simp_all add: bind_run_def fun_eq_iff)

lemma bind_run_Inr:
  "bind_run m f r = (Inr v, r') \<longleftrightarrow> (\<exists>u s. m r = (Inr u, s) \<and> f u s = (Inr v, r'))"
  by (auto simp: bind_run_def split: prod.split sum.split)

text \<open>
  What a call does to the state, whatever it returns: \<open>moves R m\<close> says that every run of \<open>m\<close> moves
  the state along \<open>R\<close>. For a reflexive and transitive \<open>R\<close> it is closed under sequencing.
\<close>

definition moves :: "('s \<Rightarrow> 's \<Rightarrow> bool) \<Rightarrow> ('s, 'e, 'a) run \<Rightarrow> bool" where
  "moves R m \<longleftrightarrow> (\<forall>s. R s (snd (m s)))"

lemma moves_run: "moves R m \<Longrightarrow> m r = (v, r') \<Longrightarrow> R r r'"
  unfolding moves_def by (metis snd_conv)

lemma moves_snd: "moves R m \<Longrightarrow> R r (snd (m r))"
  by (simp add: moves_def)

locale run_order =
  fixes R :: "'s \<Rightarrow> 's \<Rightarrow> bool"
  assumes order_refl: "R s s" and order_trans: "R s t \<Longrightarrow> R t u \<Longrightarrow> R s u"
begin

lemma moves_ret: "moves R (ret v)" "moves R (raise e)"
  by (simp_all add: moves_def order_refl)

lemma moves_bind: "moves R m \<Longrightarrow> (\<And>v. moves R (f v)) \<Longrightarrow> moves R (bind_run m f)"
  unfolding moves_def bind_run_def
  by (auto split: prod.split sum.split) (metis order_trans snd_conv)+

lemma moves_unless: "moves R m \<Longrightarrow> moves R (\<lambda>s. if P s then (v, s) else m s)"
  by (simp add: moves_def order_refl)

lemma moves_after: "(\<And>s. R s (g s)) \<Longrightarrow> moves R m \<Longrightarrow> moves R (\<lambda>s. m (g s))"
  unfolding moves_def using order_trans by blast

lemma moves_case:
  assumes "moves R m" and "\<And>e. moves R (f e)" and "\<And>v. moves R (g v)"
  shows "moves R (\<lambda>s. case m s of (Inl e, t) \<Rightarrow> f e t | (Inr v, t) \<Rightarrow> g v t)"
  unfolding moves_def
proof
  fix s
  obtain r t where r: "m s = (r, t)" by fastforce
  then have "R s t" using assms(1) moves_run by metis
  then show "R s (snd (case m s of (Inl e, t) \<Rightarrow> f e t | (Inr v, t) \<Rightarrow> g v t))"
    using r assms(2,3) order_trans by (cases r) (auto simp: moves_def)
qed

lemma moves_map_err: "moves R m \<Longrightarrow> moves R (map_err g m)"
  unfolding moves_def map_err_def by (auto split: prod.split sum.split) (metis snd_conv)+

end

section \<open>ASCII text\<close>

definition is_ascii_digit :: "char \<Rightarrow> bool" where
  "is_ascii_digit c \<longleftrightarrow> of_char c \<in> {48..57 :: nat}"

definition is_ascii_hexdigit :: "char \<Rightarrow> bool" where
  "is_ascii_hexdigit c \<longleftrightarrow>
     of_char c \<in> {48..57 :: nat} \<or> of_char c \<in> {65..70 :: nat} \<or> of_char c \<in> {97..102 :: nat}"

definition to_ascii_lowercase :: "char \<Rightarrow> char" where
  "to_ascii_lowercase c =
     (let n = of_char c :: nat in if n \<in> {65..90} then char_of (n + 32) else c)"

definition eq_ignore_ascii_case :: "string \<Rightarrow> string \<Rightarrow> bool" where
  "eq_ignore_ascii_case a b \<longleftrightarrow> map to_ascii_lowercase a = map to_ascii_lowercase b"

text \<open>The white-space characters of the ASCII range, which \<^verbatim>\<open>trim\<close> removes at both ends.\<close>

definition is_ascii_space :: "char \<Rightarrow> bool" where
  "is_ascii_space c \<longleftrightarrow> of_char c \<in> {9..13 :: nat} \<or> of_char c = (32 :: nat)"

definition trim :: "string \<Rightarrow> string" where
  "trim s = rev (dropWhile is_ascii_space (rev (dropWhile is_ascii_space s)))"

text \<open>\<^verbatim>\<open>split_whitespace\<close>, with the characters of the current word in reverse.\<close>

fun split_whitespace_from :: "string \<Rightarrow> string \<Rightarrow> string list" where
  "split_whitespace_from acc [] = (if acc = [] then [] else [rev acc])"
| "split_whitespace_from acc (c # cs) =
     (if is_ascii_space c
      then (if acc = [] then split_whitespace_from [] cs else rev acc # split_whitespace_from [] cs)
      else split_whitespace_from (c # acc) cs)"

text \<open>Evaluation compares character codes as binary numbers.\<close>

lemma of_char_int: "int (of_char c) = of_char c"
  by (cases c) (simp add: of_char_def)

lemma of_char_between: "of_char c \<in> {m..n :: nat} \<longleftrightarrow> int m \<le> of_char c \<and> of_char c \<le> int n"
  using of_char_int [of c] by auto

lemma is_ascii_digit_code [code]: "is_ascii_digit c \<longleftrightarrow> (let n = of_char c :: int in 48 \<le> n \<and> n \<le> 57)"
  unfolding is_ascii_digit_def of_char_between by (simp add: Let_def)

lemma is_ascii_hexdigit_code [code]:
  "is_ascii_hexdigit c \<longleftrightarrow>
     (let n = of_char c :: int in 48 \<le> n \<and> n \<le> 57 \<or> 65 \<le> n \<and> n \<le> 70 \<or> 97 \<le> n \<and> n \<le> 102)"
  unfolding is_ascii_hexdigit_def of_char_between by (simp add: Let_def)

lemma eq_ignore_ascii_case_refl [simp]: "eq_ignore_ascii_case a a"
  by (simp add: eq_ignore_ascii_case_def)

lemma eq_ignore_ascii_case_length: "eq_ignore_ascii_case a b \<Longrightarrow> length a = length b"
  unfolding eq_ignore_ascii_case_def by (metis length_map)

section \<open>Decimal text\<close>

text \<open>Printing as Rust's \<^verbatim>\<open>to_string\<close> does it.\<close>

definition digit_char :: "nat \<Rightarrow> char" where "digit_char d = char_of (48 + d)"

fun show_nat :: "nat \<Rightarrow> string" where
  "show_nat n = (if n < 10 then [digit_char n] else show_nat (n div 10) @ [digit_char (n mod 10)])"

declare show_nat.simps [simp del]

lemma show_nat_step:
  "n < 10 \<Longrightarrow> show_nat n = [digit_char n]"
  "\<not> n < 10 \<Longrightarrow> show_nat n = show_nat (n div 10) @ [digit_char (n mod 10)]"
  by (simp_all add: show_nat.simps [of n])

lemma of_char_digit: "d < 10 \<Longrightarrow> of_char (digit_char d) = 48 + d"
  by (simp add: digit_char_def)

lemma show_nat_digits: "\<forall>c \<in> set (show_nat n). is_ascii_digit c"
proof (induction n rule: show_nat.induct)
  case (1 n)
  then show ?case
    by (subst show_nat.simps) (auto simp: is_ascii_digit_def of_char_digit)
qed

lemma show_nat_nonempty [simp]: "show_nat n \<noteq> []"
  by (subst show_nat.simps) simp

text \<open>
  \<^verbatim>\<open>str::parse\<close> for an unsigned integer type below \<open>bound\<close>: an optional plus sign, then at least one
  digit, and no overflow.
\<close>

fun digits_value :: "nat \<Rightarrow> string \<Rightarrow> nat option" where
  "digits_value acc [] = Some acc"
| "digits_value acc (c # cs) =
     (if is_ascii_digit c then digits_value (10 * acc + (of_char c - 48)) cs else None)"

definition parse_unsigned :: "int \<Rightarrow> string \<Rightarrow> nat option" where
  "parse_unsigned bound s =
     (let ds = (case s of c # cs \<Rightarrow> if c = CHR ''+'' then cs else s | [] \<Rightarrow> []) in
      if ds = [] then None
      else case digits_value 0 ds of
          None \<Rightarrow> None
        | Some n \<Rightarrow> if int n < bound then Some n else None)"

section \<open>Big-endian byte strings\<close>

definition byte_at :: "'a::len word \<Rightarrow> nat \<Rightarrow> u8" where
  "byte_at w i = ucast (drop_bit (8 * i) w)"

definition be_bytes :: "nat \<Rightarrow> 'a::len word \<Rightarrow> bytes" where
  "be_bytes n w = map (byte_at w) (rev [0..<n])"

lemma length_be_bytes [simp]: "length (be_bytes n w) = n"
  by (simp add: be_bytes_def)

lemma bit_byte_at:
  "bit (byte_at w i) j \<longleftrightarrow> j < 8 \<and> bit w (8 * i + j)" for w :: "'a::len word"
  by (auto simp: byte_at_def bit_simps ac_simps dest: bit_imp_le_length)

lemma be_bytes_inj:
  assumes "be_bytes n v = be_bytes n w" and "LENGTH('a) \<le> 8 * n"
  shows "v = (w :: 'a::len word)"
proof (rule bit_word_eqI)
  fix k assume k: "k < LENGTH('a)"
  then have i: "k div 8 < n" using assms(2) by linarith
  from assms(1) have "\<forall>i \<in> set (rev [0..<n]). byte_at v i = byte_at w i"
    unfolding be_bytes_def by (simp only: map_eq_conv)
  with i have eq: "byte_at v (k div 8) = byte_at w (k div 8)" by simp
  have "bit u k = bit (byte_at u (k div 8)) (k mod 8)" for u :: "'a word"
    by (simp add: bit_byte_at)
  then show "bit v k = bit w k" by (simp add: eq)
qed

lemma be_bytes_eq_iff [simp]:
  "LENGTH('a) \<le> 8 * n \<Longrightarrow> be_bytes n v = be_bytes n w \<longleftrightarrow> v = (w :: 'a::len word)"
  using be_bytes_inj by blast

section \<open>Keyed tables\<close>

text \<open>
  A table is the list of its rows; \<open>key\<close> reads a row's primary key. \<open>lookup_by\<close> is
  \<^verbatim>\<open>SELECT\<close> by key, \<open>update_by\<close> is \<^verbatim>\<open>UPDATE ... WHERE key = ?\<close>, \<open>delete_by\<close> is
  \<^verbatim>\<open>DELETE\<close>; a row is inserted at the end, after the uniqueness check of the caller.
\<close>

definition lookup_by :: "('r \<Rightarrow> 'k) \<Rightarrow> 'k \<Rightarrow> 'r list \<Rightarrow> 'r option" where
  "lookup_by key k t = find (\<lambda>r. key r = k) t"

definition update_by :: "('r \<Rightarrow> 'k) \<Rightarrow> 'k \<Rightarrow> ('r \<Rightarrow> 'r) \<Rightarrow> 'r list \<Rightarrow> 'r list" where
  "update_by key k f t = map (\<lambda>r. if key r = k then f r else r) t"

definition delete_by :: "('r \<Rightarrow> 'k) \<Rightarrow> 'k \<Rightarrow> 'r list \<Rightarrow> 'r list" where
  "delete_by key k t = filter (\<lambda>r. key r \<noteq> k) t"

definition insert_row :: "'r \<Rightarrow> 'r list \<Rightarrow> 'r list" where
  "insert_row r t = t @ [r]"

text \<open>The interface the store components rely on: a table with unique keys is a finite map.\<close>

locale keyed_table =
  fixes key :: "'r \<Rightarrow> 'k"
    and select :: "'k \<Rightarrow> 'r list \<Rightarrow> 'r option"
    and insert :: "'r \<Rightarrow> 'r list \<Rightarrow> 'r list"
    and update :: "'k \<Rightarrow> ('r \<Rightarrow> 'r) \<Rightarrow> 'r list \<Rightarrow> 'r list"
    and delete :: "'k \<Rightarrow> 'r list \<Rightarrow> 'r list"
    and keyed :: "('r \<Rightarrow> 'r) \<Rightarrow> bool"
  assumes select_key: "select k t = Some r \<Longrightarrow> key r = k \<and> r \<in> set t"
    and select_mem: "distinct (map key t) \<Longrightarrow> r \<in> set t \<Longrightarrow> select (key r) t = Some r"
    and set_insert: "set (insert r t) = set t \<union> {r}"
    and keys_insert: "map key (insert r t) = map key t @ [key r]"
    and keyed_keeps: "keyed f \<Longrightarrow> key (f r) = key r"
    and select_update: "keyed f \<Longrightarrow>
          select k' (update k f t) = (if k' = k then map_option f (select k t) else select k' t)"
    and keys_update: "keyed f \<Longrightarrow> map key (update k f t) = map key t"
    and select_delete: "select k' (delete k t) = (if k' = k then None else select k' t)"
    and set_delete: "set (delete k t) = {r \<in> set t. key r \<noteq> k}"
    and distinct_delete: "distinct (map key t) \<Longrightarrow> distinct (map key (delete k t))"
begin

lemma select_None: "distinct (map key t) \<Longrightarrow> select k t = None \<longleftrightarrow> k \<notin> key ` set t"
  by (cases "select k t") (auto dest: select_key select_mem)

lemma select_insert:
  assumes "distinct (map key t)" and "key r \<notin> key ` set t"
  shows "select k (insert r t) = (if k = key r then Some r else select k t)"
proof -
  have d: "distinct (map key (insert r t))"
    using assms by (simp add: keys_insert)
  show ?thesis
  proof (cases "k = key r")
    case True
    then show ?thesis using select_mem [OF d, of r] set_insert by auto
  next
    case False
    show ?thesis
    proof (cases "select k t")
      case None
      then have "k \<notin> key ` set (insert r t)"
        using False assms(1) by (auto simp: select_None set_insert)
      then have "select k (insert r t) = None" using d by (simp add: select_None)
      with None False show ?thesis by simp
    next
      case (Some r')
      then have "key r' = k" "r' \<in> set (insert r t)"
        using select_key [OF Some] by (auto simp: set_insert)
      then have "select k (insert r t) = Some r'" using select_mem [OF d, of r'] by simp
      with Some False show ?thesis by simp
    qed
  qed
qed

lemma update_preserves_distinct:
  "keyed f \<Longrightarrow> distinct (map key t) \<Longrightarrow> distinct (map key (update k f t))"
  by (simp only: keys_update)

lemma key_update_idem: "keyed f \<Longrightarrow> select k t = Some r \<Longrightarrow> select k (update k f t) = Some (f r)"
  by (simp add: select_update)

end

lemma find_Some_mem: "find P xs = Some x \<Longrightarrow> x \<in> set xs \<and> P x"
  by (auto simp: find_Some_iff)

lemma lookup_by_Cons:
  "lookup_by key k (r # t) = (if key r = k then Some r else lookup_by key k t)"
  by (simp add: lookup_by_def)

lemma lookup_by_Nil: "lookup_by key k [] = None"
  by (simp add: lookup_by_def)

lemma lookup_by_mem:
  "distinct (map key t) \<Longrightarrow> r \<in> set t \<Longrightarrow> lookup_by key (key r) t = Some r"
  by (induction t) (auto simp: lookup_by_Cons rev_image_eqI)

lemma lookup_by_key: "lookup_by key k t = Some r \<Longrightarrow> key r = k \<and> r \<in> set t"
  unfolding lookup_by_def by (drule find_Some_mem) simp

lemma lookup_by_update:
  assumes "\<And>r. key (f r) = key r"
  shows "lookup_by key k' (update_by key k f t) =
           (if k' = k then map_option f (lookup_by key k t) else lookup_by key k' t)"
  by (induction t) (auto simp: lookup_by_Cons lookup_by_Nil update_by_def assms)

lemma keys_update_by: "(\<And>r. key (f r) = key r) \<Longrightarrow> map key (update_by key k f t) = map key t"
  by (simp add: update_by_def)

lemma lookup_by_delete:
  "lookup_by key k' (delete_by key k t) = (if k' = k then None else lookup_by key k' t)"
  by (induction t) (auto simp: lookup_by_Cons lookup_by_Nil delete_by_def)

lemma set_delete_by: "set (delete_by key k t) = {r \<in> set t. key r \<noteq> k}"
  by (auto simp: delete_by_def)

lemma distinct_delete_by: "distinct (map key t) \<Longrightarrow> distinct (map key (delete_by key k t))"
  unfolding delete_by_def by (rule distinct_map_filter)

interpretation rows: keyed_table key "lookup_by key" insert_row "update_by key" "delete_by key"
    "\<lambda>f. \<forall>r. key (f r) = key r"
  for key :: "'r \<Rightarrow> 'k"
proof unfold_locales
  show "lookup_by key k t = Some r \<Longrightarrow> key r = k \<and> r \<in> set t" for k t r
    by (rule lookup_by_key)
qed (auto simp: lookup_by_mem insert_row_def lookup_by_update keys_update_by lookup_by_delete
    set_delete_by distinct_delete_by)

section \<open>State machines\<close>

text \<open>
  The contract between a component's step relation and its clients: the initial states satisfy the
  invariant, every step keeps it. A component with a history also promises that a step only
  appends to it.
\<close>

locale invariant_machine =
  fixes init :: "'s \<Rightarrow> bool" and step :: "'s \<Rightarrow> 's \<Rightarrow> bool" and inv :: "'s \<Rightarrow> bool"
  assumes init_inv: "init s \<Longrightarrow> inv s"
    and step_inv: "step s t \<Longrightarrow> inv s \<Longrightarrow> inv t"
begin

lemma steps_inv: "rtranclp step s t \<Longrightarrow> inv s \<Longrightarrow> inv t"
  by (induction rule: rtranclp_induct) (auto intro: step_inv)

lemma reachable_inv: "init i \<Longrightarrow> rtranclp step i t \<Longrightarrow> inv t"
  using init_inv steps_inv by blast

end

locale logged_machine = invariant_machine init step inv
  for init :: "'s \<Rightarrow> bool" and step :: "'s \<Rightarrow> 's \<Rightarrow> bool" and inv :: "'s \<Rightarrow> bool" +
  fixes log :: "'s \<Rightarrow> 'e list" and stamped :: "'s \<Rightarrow> 'e \<Rightarrow> bool"
  assumes step_log: "step s t \<Longrightarrow> inv s \<Longrightarrow> \<exists>es. log t = log s @ es \<and> (\<forall>e \<in> set es. stamped s e)"
    and stamped_back: "step s t \<Longrightarrow> inv s \<Longrightarrow> stamped t e \<Longrightarrow> stamped s e"
begin

lemma steps_stamped: "rtranclp step s t \<Longrightarrow> inv s \<Longrightarrow> stamped t e \<Longrightarrow> stamped s e"
  by (induction rule: rtranclp_induct) (auto dest: steps_inv stamped_back)

lemma steps_log:
  assumes "rtranclp step s t" and "inv s"
  shows "\<exists>es. log t = log s @ es \<and> (\<forall>e \<in> set es. stamped s e)"
  using assms
proof (induction rule: rtranclp_induct)
  case (step t u)
  then obtain es where es: "log t = log s @ es" "\<forall>e \<in> set es. stamped s e" by blast
  from step have "inv t" using steps_inv by blast
  then obtain fs where "log u = log t @ fs" "\<forall>e \<in> set fs. stamped t e" using step_log step.hyps(2) by blast
  with es step show ?case by (intro exI [of _ "es @ fs"]) (auto dest: steps_stamped)
qed simp

end

end
