(* ===== verification/Wire.thy ===== *)
theory Wire
  imports Prelude
begin

text \<open>
  The data that crosses the boundaries of the light attester
  (\<^verbatim>\<open>crates/xusdc-light-attester/src\<close>): Circle's JSON structures of \<^verbatim>\<open>circle.rs\<close>, the EIP-712 and
  ABI structures that \<^verbatim>\<open>verify.rs\<close> declares for \<^verbatim>\<open>alloy\<close>, and the Miden notes and blocks, each
  seen through the accessors the sources call. Code that is not in the repository (\<^verbatim>\<open>serde_json\<close>,
  \<^verbatim>\<open>alloy\<close>, \<^verbatim>\<open>miden-protocol\<close>, \<^verbatim>\<open>miden-standards\<close>, \<^verbatim>\<open>miden-usdcx\<close>) is a field of the record \<open>ext\<close>,
  which every definition that uses it takes as an argument.
\<close>

section \<open>Miden notes and blocks\<close>

record attachment =
  att_scheme :: nat
  att_content :: bytes

record asset =
  as_fungible :: bool
  as_faucet :: account_id
  as_amount :: u64
  as_elements :: "u64 list"

record miden_note =
  nt_id :: note_id
  nt_nullifier :: nullifier
  nt_script_root :: b256
  nt_attachments :: "attachment list"
  nt_assets :: "asset list"
  nt_storage :: "u64 list"
  nt_sender :: account_id

datatype output_note = Public miden_note | Private note_id

record header =
  hd_block_num :: block_number
  hd_commitment :: b256
  hd_timestamp :: nat

record tx_header =
  tx_account :: account_id
  tx_inputs :: "nullifier list"

record signed_block =
  bk_header :: header
  bk_output_batches :: "output_note list list"
  bk_transactions :: "tx_header list"

text \<open>The withdrawal payload of a burn note (\<^verbatim>\<open>XReserveBurnItems\<close>).\<close>

record burn_items =
  dest_domain :: u32
  dest_recipient :: b256

section \<open>Circle's JSON structures\<close>

datatype json = JNull | JBool bool | JNumber string | JString string
  | JArray "json list" | JObject "(string \<times> json) list"

record structured_hook_data =
  sh_remote_domain :: u32
  sh_remote_depositor :: string
  sh_remote_token :: string
  sh_forwarding_contract_address :: string
  sh_forwarding_calldata :: string

record raw_transfer_spec =
  rs_version :: u32
  rs_source_domain :: u32
  rs_destination_domain :: u32
  rs_source_contract :: string
  rs_destination_contract :: string
  rs_source_token :: string
  rs_destination_token :: string
  rs_source_depositor :: string
  rs_destination_recipient :: string
  rs_source_signer :: string
  rs_destination_caller :: string
  rs_value :: string
  rs_salt :: string
  rs_hook_data :: structured_hook_data

record raw_burn_intent =
  ri_max_block_height :: string
  ri_max_fee :: string
  ri_spec :: raw_transfer_spec

record prepare_batch_reply =
  pb_burn_intents :: "raw_burn_intent list"
  pb_encoded :: string
  pb_message_hash_to_sign :: string

record prepare_response =
  pr_batches :: "prepare_batch_reply list"

record withdrawal_response =
  wr_withdrawal_id :: string
  wr_burn_note_id :: string
  wr_status :: string
  wr_transfer_spec_hashes :: "string list"
  wr_failure_reason :: "string option"

record withdrawal_conflict =
  wc_withdrawal_id :: "string option"
  wc_burn_note_id :: "string option"

section \<open>EIP-712 and ABI structures\<close>

record transfer_spec =
  ts_version :: u32
  ts_sourceDomain :: u32
  ts_destinationDomain :: u32
  ts_sourceContract :: b256
  ts_destinationContract :: b256
  ts_sourceToken :: b256
  ts_destinationToken :: b256
  ts_sourceDepositor :: b256
  ts_destinationRecipient :: b256
  ts_sourceSigner :: b256
  ts_destinationCaller :: b256
  ts_value :: u256
  ts_salt :: b256
  ts_hookData :: bytes

record burn_intent =
  bi_maxBlockHeight :: u256
  bi_maxFee :: u256
  bi_spec :: transfer_spec

record cctp_call =
  cc_amount :: u256
  cc_destinationDomain :: u32
  cc_mintRecipient :: b256
  cc_burnToken :: address
  cc_destinationCaller :: b256
  cc_maxFee :: u256
  cc_minFinalityThreshold :: u32
  cc_hookData :: bytes

record redeposit_call =
  rc_value :: u256
  rc_remoteDomain :: u32
  rc_remoteRecipient :: b256
  rc_localToken :: address
  rc_maxFee :: u256
  rc_hookData :: bytes

section \<open>Saved requests (\<^verbatim>\<open>submission.rs\<close>)\<close>

datatype submission_status = Submitting | Submitted | Finalized | Expired | Failed | Held

datatype hold_reason = HttpRejected

datatype submission_attempt = First | Recovery

record saved_submission =
  sv_note_id :: note_id
  sv_endpoint :: string
  sv_body :: bytes
  sv_transfer_spec_hash :: b256
  sv_status :: submission_status
  sv_withdrawal_id :: "string option"
  sv_hold_reason :: "hold_reason option"
  sv_last_http_status :: "nat option"
  sv_last_response :: "bytes option"
  sv_last_error :: "string option"

section \<open>Code outside the repository\<close>

text \<open>
  \<^item> \<open>x_burn_script_root\<close>, \<open>x_target_scheme\<close>, \<open>x_withdrawal_scheme\<close>, \<open>x_network_target\<close>,
    \<open>x_burn_items\<close>: \<^verbatim>\<open>miden-usdcx\<close> and \<^verbatim>\<open>miden-standards\<close> note formats;
  \<^item> \<open>x_note_to_bytes\<close>, \<open>x_note_from_bytes\<close>, \<open>x_block_validate\<close>, \<open>x_note_hex\<close>:
    \<^verbatim>\<open>miden-protocol\<close> serialization and block validation;
  \<^item> \<open>x_eth_bytes32\<close>, \<open>x_miden_domain\<close>: the account mapping and Circle domain of Miden;
  \<^item> \<open>x_parse_*\<close>, \<open>x_u256_radix10\<close>, \<open>x_keccak256\<close>, \<open>x_signing_hash\<close>, \<open>x_cctp_*\<close>,
    \<open>x_redeposit_*\<close>: \<^verbatim>\<open>alloy\<close> parsing, hashing and ABI coding;
  \<^item> \<open>x_json_value\<close>, \<open>x_json_to_vec\<close>, \<open>x_de_*\<close>: \<^verbatim>\<open>serde_json\<close> on Circle's structures;
  \<^item> \<open>x_url_*\<close>: the accessors of \<^verbatim>\<open>reqwest::Url\<close>, with URLs held as text (\<open>x_url_push\<close> drops an
    empty last path segment and appends another); \<open>x_status_display\<close> prints an HTTP status and
    \<open>x_hex_encode\<close> is \<^verbatim>\<open>hex::encode\<close>.
\<close>

record ext =
  x_burn_script_root :: b256
  x_target_scheme :: nat
  x_withdrawal_scheme :: nat
  x_network_target :: "attachment \<Rightarrow> account_id option"
  x_burn_items :: "attachment \<Rightarrow> burn_items option"
  x_note_to_bytes :: "miden_note \<Rightarrow> bytes"
  x_note_from_bytes :: "bytes \<Rightarrow> miden_note option"
  x_block_validate :: "signed_block \<Rightarrow> header option \<Rightarrow> bool"
  x_note_hex :: "note_id \<Rightarrow> string"
  x_eth_bytes32 :: "account_id \<Rightarrow> b256"
  x_miden_domain :: u32
  x_parse_b256 :: "string \<Rightarrow> b256 option"
  x_parse_address :: "string \<Rightarrow> address option"
  x_parse_bytes :: "string \<Rightarrow> bytes option"
  x_u256_radix10 :: "string \<Rightarrow> u256 option"
  x_keccak256 :: "bytes \<Rightarrow> b256"
  x_signing_hash :: "burn_intent \<Rightarrow> b256"
  x_cctp_decode :: "bytes \<Rightarrow> cctp_call option"
  x_cctp_encode :: "cctp_call \<Rightarrow> bytes"
  x_redeposit_decode :: "bytes \<Rightarrow> redeposit_call option"
  x_redeposit_encode :: "redeposit_call \<Rightarrow> bytes"
  x_json_value :: "bytes \<Rightarrow> json option"
  x_json_to_vec :: "json \<Rightarrow> bytes option"
  x_de_withdrawal :: "bytes \<Rightarrow> withdrawal_response option"
  x_de_withdrawals :: "bytes \<Rightarrow> withdrawal_response list option"
  x_de_conflict :: "bytes \<Rightarrow> withdrawal_conflict option option"
  x_de_prepare :: "bytes \<Rightarrow> prepare_response option"
  x_de_saved_request :: "bytes \<Rightarrow> string option"
  x_url_scheme :: "string \<Rightarrow> string"
  x_url_has_host :: "string \<Rightarrow> bool"
  x_url_path :: "string \<Rightarrow> string"
  x_url_join :: "string \<Rightarrow> string \<Rightarrow> string option"
  x_url_push :: "string \<Rightarrow> string \<Rightarrow> string option"
  x_status_display :: "nat \<Rightarrow> string"
  x_hex_encode :: "bytes \<Rightarrow> string"

section \<open>Reading JSON values\<close>

text \<open>\<^verbatim>\<open>Value::get\<close> with a key and with index 0, \<^verbatim>\<open>Value\<close> indexing and \<^verbatim>\<open>as_str\<close>.\<close>

fun json_get :: "string \<Rightarrow> json \<Rightarrow> json option" where
  "json_get k (JObject fs) = map_of fs k"
| "json_get k _ = None"

fun json_get0 :: "json \<Rightarrow> json option" where
  "json_get0 (JArray (v # _)) = Some v"
| "json_get0 _ = None"

definition json_index :: "json \<Rightarrow> string \<Rightarrow> json" where
  "json_index v k = (case json_get k v of None \<Rightarrow> JNull | Some x \<Rightarrow> x)"

fun json_as_str :: "json \<Rightarrow> string option" where
  "json_as_str (JString s) = Some s"
| "json_as_str _ = None"

text \<open>A field of an object as \<^verbatim>\<open>serde\<close> derives its reading: a repeated field is an error (the outer
  \<open>None\<close>), unknown fields are ignored.\<close>

definition json_field :: "(string \<times> json) list \<Rightarrow> string \<Rightarrow> json option option" where
  "json_field fs k =
     (case filter (\<lambda>(k', v). k' = k) fs of [] \<Rightarrow> Some None | [(_, v)] \<Rightarrow> Some (Some v) | _ \<Rightarrow> None)"

section \<open>Reading structures\<close>

text \<open>
  What a derived \<^verbatim>\<open>Deserialize\<close> accepts for a structure whose last field is required: an object, or
  an array with all fields in order. A required field must be there and must not be null unless its
  own reading takes null.
\<close>

fun struct_fields :: "string list \<Rightarrow> json \<Rightarrow> json option list option" where
  "struct_fields names (JObject fs) = those (map (json_field fs) names)"
| "struct_fields names (JArray vs) = (if length vs = length names then Some (map Some vs) else None)"
| "struct_fields names _ = None"

definition required :: "(json \<Rightarrow> 'a option) \<Rightarrow> json option \<Rightarrow> 'a option" where
  "required read v = Option.bind v read"

fun json_as_bool :: "json \<Rightarrow> bool option" where
  "json_as_bool (JBool b) = Some b"
| "json_as_bool _ = None"

fun json_as_list :: "(json \<Rightarrow> 'a option) \<Rightarrow> json \<Rightarrow> 'a list option" where
  "json_as_list read (JArray vs) = those (map read vs)"
| "json_as_list read _ = None"

text \<open>
  The fields of a structure that all have a default: an object, or an array of at most that many
  values, each possibly left out.
\<close>

fun default_fields :: "string list \<Rightarrow> json \<Rightarrow> json option list option" where
  "default_fields names (JObject fs) = those (map (json_field fs) names)"
| "default_fields names (JArray vs) =
     (if length vs \<le> length names then Some (map Some vs @ replicate (length names - length vs) None) else None)"
| "default_fields names _ = None"

definition or_default :: "'a \<Rightarrow> (json \<Rightarrow> 'a option) \<Rightarrow> json option \<Rightarrow> 'a option" where
  "or_default d read v = (case v of None \<Rightarrow> Some d | Some j \<Rightarrow> read j)"

fun nullable :: "(json \<Rightarrow> 'a option) \<Rightarrow> json \<Rightarrow> 'a option option" where
  "nullable read JNull = Some None"
| "nullable read j = map_option Some (read j)"

end
