(* ===== verification/Burn.thy ===== *)
theory Burn
  imports Wire
begin

text \<open>
  \<^verbatim>\<open>crates/xusdc-light-attester/src/burn.rs\<close>: which public notes count as an xUSDC burn that the
  configured faucet can consume, and the evidence kept for a note the faucet has consumed.
\<close>

record burn_candidate =
  bc_note :: miden_note
  bc_creation_block :: block_number
  bc_items :: burn_items
  bc_amount :: u64

record discovered_burn =
  db_note :: miden_note
  db_creation_block :: block_number
  db_consumption_block :: block_number
  db_items :: burn_items
  db_amount :: u64

text \<open>The message of \<^verbatim>\<open>InvalidBurnCandidate\<close>.\<close>

type_synonym invalid_burn_candidate = string

definition find_attachment :: "nat \<Rightarrow> attachment list \<Rightarrow> attachment option" where
  "find_attachment scheme atts = find (\<lambda>a. att_scheme a = scheme) atts"

definition single_asset :: "asset list \<Rightarrow> asset option" where
  "single_asset as = (case as of [a] \<Rightarrow> Some a | _ \<Rightarrow> None)"

definition burn_candidate_new ::
    "ext \<Rightarrow> miden_note \<Rightarrow> block_number \<Rightarrow> account_id \<Rightarrow> invalid_burn_candidate + burn_candidate" where
  "burn_candidate_new x note creation_block faucet =
     (if nt_script_root note \<noteq> x_burn_script_root x then Inl ''script root is not the burn script''
      else if length (nt_attachments note) \<noteq> 2 then Inl ''expected exactly two attachments''
      else and_then (ok_or (find_attachment (x_target_scheme x) (nt_attachments note))
               ''routing attachment is missing'') (\<lambda>routing.
           and_then (ok_or (find_attachment (x_withdrawal_scheme x) (nt_attachments note))
               ''withdrawal attachment is missing'') (\<lambda>withdrawal.
           and_then (ok_or (x_network_target x routing)
               ''routing attachment is malformed'') (\<lambda>target.
           if target \<noteq> faucet then Inl ''routing target is not the faucet''
           else and_then (ok_or (x_burn_items x withdrawal)
               ''withdrawal attachment is malformed'') (\<lambda>items.
           and_then (ok_or (single_asset (nt_assets note)) ''expected exactly one asset'') (\<lambda>asset.
           if \<not> as_fungible asset \<or> as_faucet asset \<noteq> faucet \<or> nt_storage note \<noteq> as_elements asset
           then Inl ''asset or storage is not one fungible amount of the faucet's token''
           else Inr \<lparr>bc_note = note, bc_creation_block = creation_block, bc_items = items,
                     bc_amount = as_amount asset\<rparr>))))))"

definition bc_note_id :: "burn_candidate \<Rightarrow> note_id" where
  "bc_note_id c = nt_id (bc_note c)"

definition bc_nullifier :: "burn_candidate \<Rightarrow> nullifier" where
  "bc_nullifier c = nt_nullifier (bc_note c)"

definition into_discovered :: "burn_candidate \<Rightarrow> block_number \<Rightarrow> discovered_burn" where
  "into_discovered c consumption_block =
     \<lparr>db_note = bc_note c, db_creation_block = bc_creation_block c,
      db_consumption_block = consumption_block, db_items = bc_items c, db_amount = bc_amount c\<rparr>"

definition discovered_burn_new ::
    "ext \<Rightarrow> miden_note \<Rightarrow> block_number \<Rightarrow> block_number \<Rightarrow> account_id
     \<Rightarrow> invalid_burn_candidate + discovered_burn" where
  "discovered_burn_new x note creation_block consumption_block faucet =
     and_then (burn_candidate_new x note creation_block faucet)
       (\<lambda>c. Inr (into_discovered c consumption_block))"

definition db_note_id :: "discovered_burn \<Rightarrow> note_id" where
  "db_note_id b = nt_id (db_note b)"

definition db_nullifier :: "discovered_burn \<Rightarrow> nullifier" where
  "db_nullifier b = nt_nullifier (db_note b)"

section \<open>What a candidate guarantees\<close>

text \<open>The structural predicate that \<^verbatim>\<open>BurnCandidate::new\<close> decides, stated without its error order.\<close>

definition consumable_burn :: "ext \<Rightarrow> account_id \<Rightarrow> miden_note \<Rightarrow> burn_items \<Rightarrow> u64 \<Rightarrow> bool" where
  "consumable_burn x faucet n items amount \<longleftrightarrow>
     nt_script_root n = x_burn_script_root x \<and> length (nt_attachments n) = 2 \<and>
     (\<exists>r w. find_attachment (x_target_scheme x) (nt_attachments n) = Some r \<and>
            find_attachment (x_withdrawal_scheme x) (nt_attachments n) = Some w \<and>
            x_network_target x r = Some faucet \<and> x_burn_items x w = Some items) \<and>
     (\<exists>a. nt_assets n = [a] \<and> as_fungible a \<and> as_faucet a = faucet \<and>
          nt_storage n = as_elements a \<and> as_amount a = amount)"

lemma single_asset_Some: "single_asset as = Some a \<longleftrightarrow> as = [a]"
  by (auto simp: single_asset_def split: list.splits)

lemma burn_candidate_new_Inr:
  "burn_candidate_new x n cb f = Inr c \<longleftrightarrow>
     bc_note c = n \<and> bc_creation_block c = cb \<and> consumable_burn x f n (bc_items c) (bc_amount c)"
  by (cases c)
     (auto simp: burn_candidate_new_def consumable_burn_def outcome_simps single_asset_Some
       split: if_splits)

lemma discovered_burn_new_Inr:
  "discovered_burn_new x n cb db f = Inr b \<longleftrightarrow>
     db_note b = n \<and> db_creation_block b = cb \<and> db_consumption_block b = db \<and>
     consumable_burn x f n (db_items b) (db_amount b)"
proof
  assume "discovered_burn_new x n cb db f = Inr b"
  then show "db_note b = n \<and> db_creation_block b = cb \<and> db_consumption_block b = db \<and>
     consumable_burn x f n (db_items b) (db_amount b)"
    by (auto simp: discovered_burn_new_def outcome_simps burn_candidate_new_Inr into_discovered_def)
next
  assume b: "db_note b = n \<and> db_creation_block b = cb \<and> db_consumption_block b = db \<and>
     consumable_burn x f n (db_items b) (db_amount b)"
  let ?c = "\<lparr>bc_note = n, bc_creation_block = cb, bc_items = db_items b, bc_amount = db_amount b\<rparr>"
  have "burn_candidate_new x n cb f = Inr ?c"
    using b by (simp add: burn_candidate_new_Inr)
  with b show "discovered_burn_new x n cb db f = Inr b"
    by (cases b) (simp add: discovered_burn_new_def into_discovered_def)
qed

lemma into_discovered_simps [simp]:
  "db_note_id (into_discovered c h) = bc_note_id c"
  "db_nullifier (into_discovered c h) = bc_nullifier c"
  "db_note (into_discovered c h) = bc_note c"
  "db_creation_block (into_discovered c h) = bc_creation_block c"
  "db_consumption_block (into_discovered c h) = h"
  by (simp_all add: into_discovered_def db_note_id_def bc_note_id_def db_nullifier_def bc_nullifier_def)

text \<open>The payload and the amount are functions of the note: no second reading is possible.\<close>

lemma consumable_burn_unique:
  "consumable_burn x f n i a \<Longrightarrow> consumable_burn x f n i' a' \<Longrightarrow> i' = i \<and> a' = a"
  by (auto simp: consumable_burn_def)

end
