(* ===== verification/Attester_Config.thy ===== *)
theory Attester_Config
  imports Wire
begin

text \<open>
  \<^verbatim>\<open>crates/xusdc-light-attester/src/config.rs\<close>: the validated deployment settings of the light
  attester, the fee cap of a destination, and the retry deadline of a withdrawal-limit wait.
  Durations and the system clock are counted in nanoseconds, the clock from the Unix epoch.
\<close>

definition FIRST_REMOTE_DOMAIN :: u32 where "FIRST_REMOTE_DOMAIN = 10000"
definition STACKS_DOMAIN :: u32 where "STACKS_DOMAIN = 10003"
definition CARDANO_DOMAIN :: u32 where "CARDANO_DOMAIN = 10004"
definition MOVEMENT_DOMAIN :: u32 where "MOVEMENT_DOMAIN = 10005"

record cctp_forwarding =
  cf_max_fee :: u64
  cf_forwarder :: address
  cf_token_messenger :: address

record withdrawal_limit =
  wl_message_prefix :: string
  wl_retry_interval :: nat

record kms_config =
  km_region :: string
  km_first_arn :: string
  km_second_arn :: string
  km_operation_timeout :: nat

record config =
  cg_admin :: "string option"
  cg_kms :: kms_config
  cg_miden_rpc_url :: string
  cg_circle_request_timeout :: nat
  cg_faucet_account_id :: account_id
  cg_circle_api_base_url :: string
  cg_max_withdrawal_fee :: u64
  cg_max_withdrawal_fee_bps :: u64
  cg_cctp_forwarding :: cctp_forwarding
  cg_xreserve_deposit_max_fee :: "u64 option"
  cg_poll_interval :: nat
  cg_withdrawal_limit :: "withdrawal_limit option"
  cg_trusted_anchor_block :: block_number
  cg_trusted_anchor_commitment :: b256
  cg_minimum_finality_depth_blocks :: nat
  cg_expected_signing_public_keys :: "string list"
  cg_store_path :: string

record cli =
  cl_admin_socket :: "string option"
  cl_aws_kms_region :: string
  cl_aws_kms_key_arn :: "string list"
  cl_aws_kms_operation_timeout :: nat
  cl_miden_rpc_url :: string
  cl_circle_url :: string
  cl_request_timeout :: nat
  cl_faucet_account_id :: string
  cl_max_withdrawal_fee :: u64
  cl_max_withdrawal_fee_bps :: u64
  cl_cctp_forwarding_max_fee :: u64
  cl_xreserve_deposit_max_fee :: "u64 option"
  cl_cctp_forwarder_address :: address
  cl_cctp_token_messenger_address :: address
  cl_poll_interval :: nat
  cl_withdrawal_limit_message_prefix :: "string option"
  cl_withdrawal_limit_retry_interval :: "nat option"
  cl_faucet_deployment_block :: block_number
  cl_trusted_anchor_block :: block_number
  cl_trusted_anchor_commitment :: string
  cl_expected_signing_public_key :: "string list"
  cl_minimum_finality_depth_blocks :: nat
  cl_store_path :: string

text \<open>
  What the conversion asks of code outside the repository and of the file system: the range
  check of \<^verbatim>\<open>AssetAmount\<close>, hex parsing and printing of account IDs and words, the Miden
  endpoint parser, the URL parser, and the metadata of the store's parent directory
  (\<open>None\<close>: not accessible; \<open>Some b\<close>: whether it is a directory).
\<close>

record config_ext =
  ce_asset_amount :: "u64 \<Rightarrow> u64 option"
  ce_account_from_hex :: "string \<Rightarrow> account_id option"
  ce_account_to_hex :: "account_id \<Rightarrow> string"
  ce_word_parse :: "string \<Rightarrow> b256 option"
  ce_word_to_hex :: "b256 \<Rightarrow> string"
  ce_endpoint :: "string \<Rightarrow> string option"
  ce_url_parse :: "string \<Rightarrow> string option"
  ce_url_scheme :: "string \<Rightarrow> string"
  ce_url_has_host :: "string \<Rightarrow> bool"
  ce_parent_is_dir :: "string \<Rightarrow> bool option"

text \<open>The errors are the messages of the source.\<close>

type_synonym config_error = string

section \<open>Known xReserve deployments (\<^verbatim>\<open>verify.rs\<close>)\<close>

definition xreserve_mainnet :: address where
  "xreserve_mainnet = 0x8888888199b2df864bf678259607d6d5ebb4e3ce"
definition xreserve_testnet :: address where
  "xreserve_testnet = 0x008888878f94c0d87defdf0b07f46b93c1934442"

text \<open>USDC on Ethereum, the GatewayWallet and the GatewayMinter of a deployment.\<close>

definition xreserve_deployment :: "address \<Rightarrow> (address \<times> address \<times> address) option" where
  "xreserve_deployment xreserve =
     (if xreserve = xreserve_mainnet then
        Some (0xa0b86991c6218b36c1d19d4a2e9eb0ce3606eb48,
              0x77777777dcc4d5a8b6e418fd04d8997ef11000ee,
              0x2222222d7164433c4c09b0b0d809a9b52c04c205)
      else if xreserve = xreserve_testnet then
        Some (0x1c7d4b196cb0c7b01d743fbc6116a902379c7238,
              0x0077777d7eba4688bdef3e311b846f25870a19b9,
              0x0022222abe238cc2c7bb1f21003f0a260052475b)
      else None)"

section \<open>Operations\<close>

definition kms_from_cli :: "cli \<Rightarrow> config_error + kms_config" where
  "kms_from_cli c =
     (case cl_aws_kms_key_arn c of
        [first, second] \<Rightarrow>
          and_then (ensure_that (first \<noteq> second) ''the two KMS key ARNs must differ'') (\<lambda>_.
          and_then (ensure_that (cl_aws_kms_operation_timeout c \<noteq> 0)
              ''AWS KMS operation timeout must be greater than zero'') (\<lambda>_.
          Inr \<lparr>km_region = cl_aws_kms_region c, km_first_arn = first, km_second_arn = second,
               km_operation_timeout = cl_aws_kms_operation_timeout c\<rparr>))
      | _ \<Rightarrow> Inl ''exactly two KMS key ARNs are required'')"

definition withdrawal_limit_from_cli :: "cli \<Rightarrow> config_error + withdrawal_limit option" where
  "withdrawal_limit_from_cli c =
     (case (cl_withdrawal_limit_message_prefix c, cl_withdrawal_limit_retry_interval c) of
        (Some prefix, Some interval) \<Rightarrow>
          and_then (ensure_that (trim prefix \<noteq> [])
              ''withdrawal limit message prefix must not be blank'') (\<lambda>_.
          and_then (ensure_that (interval \<noteq> 0)
              ''withdrawal limit retry interval must be greater than zero'') (\<lambda>_.
          Inr (Some \<lparr>wl_message_prefix = prefix, wl_retry_interval = interval\<rparr>)))
      | _ \<Rightarrow> Inr None)"

definition parse_faucet_account_id :: "config_ext \<Rightarrow> string \<Rightarrow> config_error + account_id" where
  "parse_faucet_account_id x value =
     and_then (ok_or (ce_account_from_hex x value) ''faucet account id is invalid'') (\<lambda>account.
     if ce_account_to_hex x account \<noteq> value
     then Inl ''faucet account id must use canonical 0x-prefixed lowercase hex''
     else Inr account)"

definition parse_trusted_anchor_commitment :: "config_ext \<Rightarrow> string \<Rightarrow> config_error + b256" where
  "parse_trusted_anchor_commitment x value =
     and_then (ok_or (ce_word_parse x value) ''trusted anchor commitment is invalid'') (\<lambda>commitment.
     if ce_word_to_hex x commitment \<noteq> value
     then Inl ''trusted anchor commitment must use canonical 0x-prefixed lowercase 32-byte hex''
     else Inr commitment)"

definition starts_with :: "string \<Rightarrow> string \<Rightarrow> bool" where
  "starts_with s p \<longleftrightarrow> take (length p) s = p"

definition xreserve_fee_from_cli :: "config_ext \<Rightarrow> cli \<Rightarrow> config_error + u64 option" where
  "xreserve_fee_from_cli x c =
     (case cl_xreserve_deposit_max_fee c of
        None \<Rightarrow> Inr None
      | Some fee \<Rightarrow> and_then (ok_or (ce_asset_amount x fee) ''maximum xreserve deposit fee is invalid'')
                      (\<lambda>amount. Inr (Some amount)))"

definition config_try_from :: "config_ext \<Rightarrow> cli \<Rightarrow> config_error + config" where
  "config_try_from x c =
     and_then (kms_from_cli c) (\<lambda>kms.
     and_then (withdrawal_limit_from_cli c) (\<lambda>limit.
     and_then (ok_or (ce_asset_amount x (cl_max_withdrawal_fee c))
         ''maximum withdrawal fee is invalid'') (\<lambda>max_fee.
     and_then (xreserve_fee_from_cli x c) (\<lambda>xreserve_fee.
     let forwarding = \<lparr>cf_max_fee = cl_cctp_forwarding_max_fee c,
                       cf_forwarder = cl_cctp_forwarder_address c,
                       cf_token_messenger = cl_cctp_token_messenger_address c\<rparr> in
     and_then (ensure_that (cf_max_fee forwarding \<noteq> 0)
         ''cctp forwarding max fee must be above zero'') (\<lambda>_.
     and_then (ensure_that (cf_forwarder forwarding \<noteq> 0)
         ''cctp forwarder address must not be zero'') (\<lambda>_.
     and_then (ensure_that (cf_token_messenger forwarding \<noteq> 0)
         ''cctp token messenger address must not be zero'') (\<lambda>_.
     and_then (ensure_that (cf_forwarder forwarding \<noteq> cf_token_messenger forwarding)
         ''cctp forwarder and token messenger addresses must differ'') (\<lambda>_.
     and_then (ensure_that (xreserve_fee = None \<or>
           xreserve_deployment (cf_forwarder forwarding) \<noteq> None)
         ''xreserve deposit max fee requires a known xreserve deployment as cctp forwarder address'') (\<lambda>_.
     if cl_request_timeout c = 0 then Inl ''circle request timeout must be greater than zero''
     else if cl_poll_interval c = 0 then Inl ''poll interval must be greater than zero''
     else if cl_minimum_finality_depth_blocks c = 0
       then Inl ''minimum finality depth must be greater than zero''
     else if length (cl_expected_signing_public_key c) \<noteq> 2
       then Inl ''exactly two expected signing public keys are required''
     else
     and_then (ensure_that (cl_trusted_anchor_block c \<le> cl_faucet_deployment_block c)
         ''trusted anchor must not be after the faucet deployment block'') (\<lambda>_.
     and_then (parse_faucet_account_id x (cl_faucet_account_id c)) (\<lambda>faucet.
     and_then (parse_trusted_anchor_commitment x (cl_trusted_anchor_commitment c)) (\<lambda>commitment.
     if \<not> starts_with (cl_miden_rpc_url c) ''https://'' \<and> \<not> starts_with (cl_miden_rpc_url c) ''http://''
       then Inl ''Miden RPC URL must start with https:// or http://''
     else
     and_then (ok_or (ce_endpoint x (cl_miden_rpc_url c)) ''Miden RPC URL is invalid'') (\<lambda>rpc.
     and_then (ok_or (ce_url_parse x (cl_circle_url c)) ''Circle API base URL is invalid'') (\<lambda>circle.
     if ce_url_scheme x circle \<noteq> ''https'' \<or> \<not> ce_url_has_host x circle
       then Inl ''Circle API base URL must be an absolute HTTPS URL''
     else if cl_store_path c = [] then Inl ''store path must not be empty''
     else
     and_then (ok_or (ce_parent_is_dir x (cl_store_path c))
         ''store path parent is not accessible'') (\<lambda>is_dir.
     if \<not> is_dir then Inl ''store path parent must be a directory''
     else Inr \<lparr>cg_admin = cl_admin_socket c, cg_kms = kms, cg_miden_rpc_url = rpc,
               cg_circle_request_timeout = cl_request_timeout c, cg_faucet_account_id = faucet,
               cg_circle_api_base_url = circle, cg_max_withdrawal_fee = max_fee,
               cg_max_withdrawal_fee_bps = cl_max_withdrawal_fee_bps c,
               cg_cctp_forwarding = forwarding, cg_xreserve_deposit_max_fee = xreserve_fee,
               cg_poll_interval = cl_poll_interval c, cg_withdrawal_limit = limit,
               cg_trusted_anchor_block = cl_trusted_anchor_block c,
               cg_trusted_anchor_commitment = commitment,
               cg_minimum_finality_depth_blocks = cl_minimum_finality_depth_blocks c,
               cg_expected_signing_public_keys = cl_expected_signing_public_key c,
               cg_store_path = cl_store_path c\<rparr>)))))))))))))))"

text \<open>Remote destinations need explicit support; native-USDC routes keep their CCTP cap.\<close>

definition forwarding_max_fee :: "config \<Rightarrow> u32 \<Rightarrow> u64 option" where
  "forwarding_max_fee cfg destination =
     (if destination = STACKS_DOMAIN \<or> destination = CARDANO_DOMAIN \<or> destination = MOVEMENT_DOMAIN
      then cg_xreserve_deposit_max_fee cfg
      else if FIRST_REMOTE_DOMAIN \<le> destination then None
      else Some (cf_max_fee (cg_cctp_forwarding cfg)))"

definition nanos_per_sec :: nat where "nanos_per_sec = 1000000000"
definition duration_max :: nat where
  "duration_max = (2 ^ 64 - 1) * nanos_per_sec + (nanos_per_sec - 1)"

datatype retry_error = ClockBeforeEpoch | DeadlineOverflow | DeadlineOutOfRange

text \<open>\<^verbatim>\<open>SystemTime::duration_since(UNIX_EPOCH)\<close>.\<close>

definition since_epoch :: "int \<Rightarrow> nat option" where
  "since_epoch now = (if now < 0 then None else Some (nat now))"

definition retry_at :: "withdrawal_limit \<Rightarrow> int \<Rightarrow> retry_error + int" where
  "retry_at policy now =
     and_then (ok_or (since_epoch now) ClockBeforeEpoch) (\<lambda>since.
     let deadline = since + wl_retry_interval policy in
     if duration_max < deadline then Inl DeadlineOverflow
     else let seconds = deadline div nanos_per_sec
                        + (if deadline mod nanos_per_sec \<noteq> 0 then 1 else 0) in
     if 2 ^ 64 \<le> seconds then Inl DeadlineOverflow
     else if 2 ^ 63 \<le> seconds then Inl DeadlineOutOfRange
     else Inr (int seconds))"

text \<open>
  \<^verbatim>\<open>parse_note_ids\<close>: each \<^verbatim>\<open>--note-id\<close>, then the first word of every non-blank line of the file;
  \<open>file\<close> is the list of the file's lines, each already split at white space, or \<open>None\<close> for a
  file that cannot be read.
\<close>

datatype note_ids_error = NoteFileUnreadable | NoNoteIds | InvalidNoteId string

definition first_words :: "string list list \<Rightarrow> string list" where
  "first_words ls = map hd (filter (\<lambda>l. l \<noteq> []) ls)"

definition parse_note_ids ::
    "(string \<Rightarrow> note_id option) \<Rightarrow> string list \<Rightarrow> (string list list option) option
     \<Rightarrow> note_ids_error + note_id list" where
  "parse_note_ids try_from_hex note_ids file =
     and_then (case file of
         None \<Rightarrow> Inr note_ids
       | Some None \<Rightarrow> Inl NoteFileUnreadable
       | Some (Some ls) \<Rightarrow> Inr (note_ids @ first_words ls)) (\<lambda>ws.
     if ws = [] then Inl NoNoteIds
     else collect_all (\<lambda>w. ok_or (try_from_hex w) (InvalidNoteId w)) ws)"

section \<open>What a validated configuration guarantees\<close>

lemma kms_from_cli_Inr:
  assumes "kms_from_cli c = Inr k"
  shows "km_first_arn k \<noteq> km_second_arn k \<and> km_operation_timeout k \<noteq> 0"
  using assms by (auto simp: kms_from_cli_def outcome_simps split: list.splits)

lemma withdrawal_limit_from_cli_Inr:
  assumes "withdrawal_limit_from_cli c = Inr (Some l)"
  shows "trim (wl_message_prefix l) \<noteq> [] \<and> 0 < wl_retry_interval l"
  using assms by (auto simp: withdrawal_limit_from_cli_def outcome_simps split: option.splits)

definition config_ok :: "config \<Rightarrow> bool" where
  "config_ok cfg \<longleftrightarrow>
     (let f = cg_cctp_forwarding cfg in
      cf_max_fee f \<noteq> 0 \<and> cf_forwarder f \<noteq> 0 \<and> cf_token_messenger f \<noteq> 0 \<and>
      cf_forwarder f \<noteq> cf_token_messenger f \<and>
      (cg_xreserve_deposit_max_fee cfg \<noteq> None \<longrightarrow> xreserve_deployment (cf_forwarder f) \<noteq> None) \<and>
      0 < cg_circle_request_timeout cfg \<and> 0 < cg_poll_interval cfg \<and>
      0 < cg_minimum_finality_depth_blocks cfg \<and> length (cg_expected_signing_public_keys cfg) = 2 \<and>
      km_first_arn (cg_kms cfg) \<noteq> km_second_arn (cg_kms cfg) \<and>
      km_operation_timeout (cg_kms cfg) \<noteq> 0 \<and>
      (\<forall>l. cg_withdrawal_limit cfg = Some l \<longrightarrow>
         trim (wl_message_prefix l) \<noteq> [] \<and> 0 < wl_retry_interval l))"


definition sample_config_ext :: config_ext where
  "sample_config_ext = \<lparr>ce_asset_amount = Some, ce_account_from_hex = (\<lambda>s. if s = ''0x01'' then Some 1 else None),
     ce_account_to_hex = (\<lambda>_. ''0x01''), ce_word_parse = (\<lambda>s. if s = ''0x02'' then Some 2 else None),
     ce_word_to_hex = (\<lambda>_. ''0x02''), ce_endpoint = Some, ce_url_parse = Some,
     ce_url_scheme = (\<lambda>_. ''https''), ce_url_has_host = (\<lambda>_. True),
     ce_parent_is_dir = (\<lambda>_. Some True)\<rparr>"

definition sample_cli :: cli where
  "sample_cli = \<lparr>cl_admin_socket = None, cl_aws_kms_region = ''us'', cl_aws_kms_key_arn = [''a'', ''b''],
     cl_aws_kms_operation_timeout = 10, cl_miden_rpc_url = ''https://rpc'', cl_circle_url = ''https://c'',
     cl_request_timeout = 10, cl_faucet_account_id = ''0x01'', cl_max_withdrawal_fee = 2000000,
     cl_max_withdrawal_fee_bps = 3, cl_cctp_forwarding_max_fee = 500000,
     cl_xreserve_deposit_max_fee = Some 100, cl_cctp_forwarder_address = xreserve_mainnet,
     cl_cctp_token_messenger_address = 7, cl_poll_interval = 1000000000,
     cl_withdrawal_limit_message_prefix = Some ''limit'',
     cl_withdrawal_limit_retry_interval = Some 300000000000, cl_faucet_deployment_block = 20,
     cl_trusted_anchor_block = 10, cl_trusted_anchor_commitment = ''0x02'',
     cl_expected_signing_public_key = [''k1'', ''k2''], cl_minimum_finality_depth_blocks = 5,
     cl_store_path = ''db''\<rparr>"

definition sample_config :: config where
  "sample_config = \<lparr>cg_admin = None,
     cg_kms = \<lparr>km_region = ''us'', km_first_arn = ''a'', km_second_arn = ''b'', km_operation_timeout = 10\<rparr>,
     cg_miden_rpc_url = ''https://rpc'', cg_circle_request_timeout = 10, cg_faucet_account_id = 1,
     cg_circle_api_base_url = ''https://c'', cg_max_withdrawal_fee = 2000000,
     cg_max_withdrawal_fee_bps = 3,
     cg_cctp_forwarding = \<lparr>cf_max_fee = 500000, cf_forwarder = xreserve_mainnet, cf_token_messenger = 7\<rparr>,
     cg_xreserve_deposit_max_fee = Some 100, cg_poll_interval = 1000000000,
     cg_withdrawal_limit = Some \<lparr>wl_message_prefix = ''limit'', wl_retry_interval = 300000000000\<rparr>,
     cg_trusted_anchor_block = 10, cg_trusted_anchor_commitment = 2,
     cg_minimum_finality_depth_blocks = 5, cg_expected_signing_public_keys = [''k1'', ''k2''],
     cg_store_path = ''db''\<rparr>"

lemma sample_config_from_cli: "config_try_from sample_config_ext sample_cli = Inr sample_config"
  by (simp add: config_try_from_def sample_config_ext_def sample_cli_def sample_config_def
      kms_from_cli_def withdrawal_limit_from_cli_def parse_faucet_account_id_def
      parse_trusted_anchor_commitment_def xreserve_fee_from_cli_def starts_with_def trim_def
      is_ascii_space_def xreserve_deployment_def xreserve_mainnet_def Let_def)


text \<open>The sample passes its own validation, so it can serve as a concrete configuration.\<close>

section \<open>The retry deadline\<close>

lemma round_up_seconds:
  fixes d :: nat
  defines "q \<equiv> d div 1000000000 + (if d mod 1000000000 \<noteq> 0 then 1 else 0)"
  shows "d \<le> q * 1000000000" and "q * 1000000000 < d + 1000000000"
    and "d \<le> m * 1000000000 \<Longrightarrow> q \<le> m"
proof -
  obtain a b where d: "d = a * 1000000000 + b" "b < 1000000000"
    by (metis div_mult_mod_eq mod_less_divisor zero_less_numeral)
  then have q: "q = a + (if b \<noteq> 0 then 1 else 0)" by (simp add: q_def)
  show "d \<le> q * 1000000000" "q * 1000000000 < d + 1000000000" using d q by auto
  show "d \<le> m * 1000000000 \<Longrightarrow> q \<le> m" using d q by (auto split: if_splits)
qed

text \<open>
  the retry deadline of a withdrawal-limit rejection is the first whole second at or after
  the clock plus the configured interval: never earlier, less than one second later, and it
  fits the store's signed column.
\<close>

theorem retry_at_bounds:
  assumes "retry_at policy now = Inr r"
  shows "now + int (wl_retry_interval policy) \<le> r * 1000000000 \<and>
         r * 1000000000 < now + int (wl_retry_interval policy) + 1000000000 \<and>
         0 \<le> r \<and> r < 2 ^ 63"
proof -
  let ?d = "nat now + wl_retry_interval policy"
  from assms have now: "0 \<le> now"
    and r: "r = int (?d div nanos_per_sec + (if ?d mod nanos_per_sec \<noteq> 0 then 1 else 0))"
    and lt: "r < 2 ^ 63"
    by (auto simp: retry_at_def since_epoch_def Let_def outcome_simps split: if_splits)
  define q where "q = ?d div nanos_per_sec + (if ?d mod nanos_per_sec \<noteq> 0 then 1 else 0)"
  have q: "?d \<le> q * 1000000000" "q * 1000000000 < ?d + 1000000000"
    unfolding q_def nanos_per_sec_def by (rule round_up_seconds)+
  have "r = int q" using r by (simp only: q_def)
  moreover have "now + int (wl_retry_interval policy) = int ?d" using now by simp
  ultimately show ?thesis using q lt by (intro conjI) linarith+
qed

theorem retry_at_bounds_witness:
  "retry_at \<lparr>wl_message_prefix = ''limit'', wl_retry_interval = 300000000000\<rparr> 1500000000 = Inr 302 \<and>
   (1500000000 :: int) + 300000000000 \<le> 302 * 1000000000"
proof -
  have h: "retry_at \<lparr>wl_message_prefix = ''limit'', wl_retry_interval = 300000000000\<rparr> 1500000000 = Inr 302"
    by (simp add: retry_at_def since_epoch_def Let_def nanos_per_sec_def duration_max_def)
  show ?thesis using retry_at_bounds [OF h] h by simp
qed

lemma retry_at_total:
  assumes "0 \<le> now" and "nat now + wl_retry_interval policy \<le> (2 ^ 63 - 1) * nanos_per_sec"
  shows "\<exists>r. retry_at policy now = Inr r"
proof -
  let ?d = "nat now + wl_retry_interval policy"
  from assms(2) have "?d div nanos_per_sec + (if ?d mod nanos_per_sec \<noteq> 0 then 1 else 0) \<le> 2 ^ 63 - 1"
    unfolding nanos_per_sec_def by (rule round_up_seconds(3))
  moreover have "?d \<le> duration_max"
    using assms(2) by (simp add: duration_max_def nanos_per_sec_def)
  ultimately show ?thesis
    using assms(1) by (auto simp: retry_at_def since_epoch_def Let_def)
qed

section \<open>Fee caps\<close>

lemma forwarding_max_fee_native:
  "destination < FIRST_REMOTE_DOMAIN \<Longrightarrow>
     forwarding_max_fee cfg destination = Some (cf_max_fee (cg_cctp_forwarding cfg))"
  by (auto simp: forwarding_max_fee_def FIRST_REMOTE_DOMAIN_def STACKS_DOMAIN_def CARDANO_DOMAIN_def
      MOVEMENT_DOMAIN_def)

lemma forwarding_max_fee_remote:
  assumes "FIRST_REMOTE_DOMAIN \<le> destination" and "forwarding_max_fee cfg destination = Some fee"
  shows "destination \<in> {STACKS_DOMAIN, CARDANO_DOMAIN, MOVEMENT_DOMAIN} \<and>
         cg_xreserve_deposit_max_fee cfg = Some fee"
  using assms by (auto simp: forwarding_max_fee_def split: if_splits)

end
