(* ===== verification/Telemetry.thy ===== *)
theory Telemetry
  imports Prelude
begin

text \<open>
  The failure classes of \<^verbatim>\<open>crates/usdcx-telemetry/src/lib.rs\<close>: how loudly a failure is alerted
  on, with its kind. Span export itself is input and output and is not modelled; what is
  recorded on a span is the class that the operations below return.
\<close>

datatype failure_class = Integrity string | Actionable string | Transient string

fun kind :: "failure_class \<Rightarrow> string" where
  "kind (Integrity k) = k"
| "kind (Actionable k) = k"
| "kind (Transient k) = k"

text \<open>\<^verbatim>\<open>strum::IntoStaticStr\<close> with \<^verbatim>\<open>snake_case\<close>: the exported \<^verbatim>\<open>failure.class\<close>.\<close>

fun class_name :: "failure_class \<Rightarrow> string" where
  "class_name (Integrity _) = ''integrity''"
| "class_name (Actionable _) = ''actionable''"
| "class_name (Transient _) = ''transient''"

text \<open>An error with the class its span is marked with; the error is whatever the caller wraps.\<close>

record 'e failure =
  fl_class :: failure_class
  fl_error :: 'e

text \<open>\<^verbatim>\<open>Classify::classify\<close> and \<^verbatim>\<open>classify_with\<close> on a result.\<close>

definition classify :: "failure_class \<Rightarrow> 'e + 'a \<Rightarrow> 'e failure + 'a" where
  "classify c r = (case r of Inl e \<Rightarrow> Inl \<lparr>fl_class = c, fl_error = e\<rparr> | Inr x \<Rightarrow> Inr x)"

definition classify_with :: "('e \<Rightarrow> failure_class) \<Rightarrow> 'e + 'a \<Rightarrow> 'e failure + 'a" where
  "classify_with c r = (case r of Inl e \<Rightarrow> Inl \<lparr>fl_class = c e, fl_error = e\<rparr> | Inr x \<Rightarrow> Inr x)"

lemma classify_Inr_iff [outcome_simps]: "classify c r = Inr x \<longleftrightarrow> r = Inr x"
  by (cases r) (auto simp: classify_def)

lemma classify_with_const: "classify_with (\<lambda>_. c) r = classify c r"
  by (cases r) (auto simp: classify_with_def classify_def)

text \<open>The class name and the kind together identify the class.\<close>

lemma class_name_kind_inj:
  "class_name a = class_name b \<Longrightarrow> kind a = kind b \<Longrightarrow> a = b"
  by (cases a; cases b) auto

end
