(* ===== verification/Circle.thy ===== *)
theory Circle
  imports Burn Attester_Config Telemetry
begin

text \<open>
  \<^verbatim>\<open>crates/xusdc-light-attester/src/circle.rs\<close>: the requests to Circle's xReserve API, how a reply
  is read, and the pacing of requests. HTTP itself is the environment: a reply arrives as a
  status and a sequence of body chunks.
\<close>

section \<open>Errors and replies\<close>

datatype circle_error =
    Unavailable
  | Transport
  | UnexpectedStatus nat
  | UnexpectedPrepareStatus nat bytes
  | InvalidResponse
  | BodyTooLarge
  | InvalidUrl
  | RateLimited "bytes option" "circle_error option"

abbreviation HTTP_OK :: nat where "HTTP_OK \<equiv> 200"
abbreviation HTTP_CREATED :: nat where "HTTP_CREATED \<equiv> 201"
abbreviation HTTP_BAD_REQUEST :: nat where "HTTP_BAD_REQUEST \<equiv> 400"
abbreviation HTTP_CONFLICT :: nat where "HTTP_CONFLICT \<equiv> 409"
abbreviation HTTP_TOO_MANY_REQUESTS :: nat where "HTTP_TOO_MANY_REQUESTS \<equiv> 429"

text \<open>\<^verbatim>\<open>StatusCode::from_u16\<close> accepts the three-digit codes.\<close>

definition valid_status :: "nat \<Rightarrow> bool" where
  "valid_status code \<longleftrightarrow> 100 \<le> code \<and> code < 1000"

fun circle_failure :: "circle_error \<Rightarrow> failure_class" where
  "circle_failure InvalidUrl = Actionable ''invalid_url''"
| "circle_failure (RateLimited _ _) = Transient ''rate_limited''"
| "circle_failure Unavailable = Transient ''circle_unavailable''"
| "circle_failure Transport = Transient ''circle_unavailable''"
| "circle_failure (UnexpectedStatus _) = Transient ''unexpected_status''"
| "circle_failure (UnexpectedPrepareStatus _ _) = Transient ''unexpected_status''"
| "circle_failure InvalidResponse = Transient ''invalid_response''"
| "circle_failure BodyTooLarge = Transient ''invalid_response''"

fun circle_error_text :: "ext \<Rightarrow> circle_error \<Rightarrow> string" where
  "circle_error_text x Unavailable = ''Circle API is unavailable''"
| "circle_error_text x Transport = ''Circle request failed''"
| "circle_error_text x (UnexpectedStatus s) = ''Circle returned HTTP '' @ x_status_display x s"
| "circle_error_text x (UnexpectedPrepareStatus s _) =
     ''Circle prepare returned HTTP '' @ x_status_display x s"
| "circle_error_text x InvalidResponse = ''Circle prepare response is malformed''"
| "circle_error_text x BodyTooLarge = ''Circle response body exceeds 1048576 bytes''"
| "circle_error_text x InvalidUrl = ''Circle request URL is invalid''"
| "circle_error_text x (RateLimited _ _) = ''Circle returned HTTP 429 Too Many Requests''"

fun is_rate_limited :: "circle_error \<Rightarrow> bool" where
  "is_rate_limited (RateLimited _ _) = True"
| "is_rate_limited _ = False"

record raw_response =
  rr_status :: nat
  rr_body :: bytes

definition message_of :: "ext \<Rightarrow> bytes \<Rightarrow> string option" where
  "message_of x body =
     (case x_json_value x body of
        None \<Rightarrow> None
      | Some reply \<Rightarrow> json_as_str (json_index reply ''message''))"

definition is_withdrawal_limit :: "ext \<Rightarrow> nat \<Rightarrow> bytes \<Rightarrow> string \<Rightarrow> bool" where
  "is_withdrawal_limit x status body prefix \<longleftrightarrow>
     status = HTTP_BAD_REQUEST \<and>
     (case message_of x body of None \<Rightarrow> False | Some m \<Rightarrow> starts_with m prefix)"

definition MAX_LOGGED_MESSAGE_CHARS :: nat where "MAX_LOGGED_MESSAGE_CHARS = 200"

definition circle_message :: "ext \<Rightarrow> bytes \<Rightarrow> string option" where
  "circle_message x body = map_option (take MAX_LOGGED_MESSAGE_CHARS) (message_of x body)"

section \<open>Reading a reply\<close>

definition MAX_RESPONSE_BODY_BYTES :: nat where "MAX_RESPONSE_BODY_BYTES = 2 ^ 20"

text \<open>The chunks of a body as the HTTP client yields them; \<open>None\<close> is a failed read.\<close>

fun read_chunks :: "bytes \<Rightarrow> bytes option list \<Rightarrow> circle_error + bytes" where
  "read_chunks body [] = Inr body"
| "read_chunks body (None # _) = Inl Transport"
| "read_chunks body (Some chunk # rest) =
     (if MAX_RESPONSE_BODY_BYTES < length body + length chunk then Inl BodyTooLarge
      else read_chunks (body @ chunk) rest)"

definition read_reply :: "nat \<Rightarrow> bytes option list \<Rightarrow> circle_error + raw_response" where
  "read_reply status chunks =
     (case read_chunks [] chunks of
        Inr body \<Rightarrow> if status = HTTP_TOO_MANY_REQUESTS then Inl (RateLimited (Some body) None)
                    else Inr \<lparr>rr_status = status, rr_body = body\<rparr>
      | Inl e \<Rightarrow> if status = HTTP_TOO_MANY_REQUESTS then Inl (RateLimited None (Some e))
                 else Inl e)"

definition read_info :: "raw_response \<Rightarrow> circle_error + unit" where
  "read_info r = (if rr_status r = HTTP_OK then Inr () else Inl (UnexpectedStatus (rr_status r)))"

definition read_prepared :: "ext \<Rightarrow> raw_response \<Rightarrow> circle_error + prepare_response" where
  "read_prepared x r =
     (if rr_status r \<noteq> HTTP_OK then Inl (UnexpectedPrepareStatus (rr_status r) (rr_body r))
      else ok_or (x_de_prepare x (rr_body r)) InvalidResponse)"

section \<open>Requests\<close>

datatype http_method = GET | POST

record http_request =
  rq_method :: http_method
  rq_url :: string
  rq_body :: "bytes option"
  rq_timeout :: nat

definition submission_endpoint :: "ext \<Rightarrow> string \<Rightarrow> circle_error + string" where
  "submission_endpoint x base_url = ok_or (x_url_join x base_url ''/v1/withdraw'') InvalidUrl"

definition info_request :: "ext \<Rightarrow> config \<Rightarrow> circle_error + http_request" where
  "info_request x cfg =
     and_then (ok_or (x_url_join x (cg_circle_api_base_url cfg) ''/v1/info'') InvalidUrl) (\<lambda>url.
     Inr \<lparr>rq_method = GET, rq_url = url, rq_body = None,
          rq_timeout = cg_circle_request_timeout cfg\<rparr>)"

definition submission_request :: "config \<Rightarrow> saved_submission \<Rightarrow> circle_error + http_request" where
  "submission_request cfg saved =
     Inr \<lparr>rq_method = POST, rq_url = sv_endpoint saved, rq_body = Some (sv_body saved),
          rq_timeout = cg_circle_request_timeout cfg\<rparr>"

definition status_request :: "ext \<Rightarrow> config \<Rightarrow> saved_submission \<Rightarrow> string \<Rightarrow> circle_error + http_request" where
  "status_request x cfg saved wid =
     and_then (ok_or (x_url_join x (sv_endpoint saved) ''/v1/withdrawal/'') InvalidUrl) (\<lambda>base.
     and_then (ok_or (x_url_push x base wid) Unavailable) (\<lambda>url.
     Inr \<lparr>rq_method = GET, rq_url = url, rq_body = None,
          rq_timeout = cg_circle_request_timeout cfg\<rparr>))"

text \<open>Decimal printing zero-padded to a width, as Rust's \<^verbatim>\<open>format!\<close> does it.\<close>

definition zero_pad :: "nat \<Rightarrow> string \<Rightarrow> string" where
  "zero_pad width s = replicate (width - length s) (CHR ''0'') @ s"

text \<open>\<^verbatim>\<open>UsdcDecimals::from\<close>; \<open>decimals\<close> is \<^verbatim>\<open>USDCX_DECIMALS\<close> of \<^verbatim>\<open>miden-usdcx\<close>.\<close>

definition usdc_decimals :: "nat \<Rightarrow> u64 \<Rightarrow> string" where
  "usdc_decimals decimals units =
     (let units_per_usdc = 10 ^ decimals in
      show_nat (unat units div units_per_usdc) @ ''.'' @
      zero_pad decimals (show_nat (unat units mod units_per_usdc)))"

record prepare_batch =
  pp_token :: string
  pp_remote_domain :: u32
  pp_remote_depositor :: string
  pp_final_destination_domain :: u32
  pp_final_destination_recipient :: string
  pp_value_including_fees :: string
  pp_salt :: string
  pp_use_circle_forwarding :: bool
  pp_max_fee :: string
  pp_uses_fast_finality :: bool

definition prepare_batch_from_burn :: "ext \<Rightarrow> nat \<Rightarrow> discovered_burn \<Rightarrow> u64 \<Rightarrow> prepare_batch" where
  "prepare_batch_from_burn x decimals burn fee =
     \<lparr>pp_token = ''USDC'', pp_remote_domain = x_miden_domain x,
      pp_remote_depositor =
        ''0x'' @ x_hex_encode x (be_bytes 32 (x_eth_bytes32 x (nt_sender (db_note burn)))),
      pp_final_destination_domain = dest_domain (db_items burn),
      pp_final_destination_recipient =
        ''0x'' @ x_hex_encode x (be_bytes 32 (dest_recipient (db_items burn))),
      pp_value_including_fees = usdc_decimals decimals (db_amount burn),
      pp_salt = x_note_hex x (db_note_id burn), pp_use_circle_forwarding = True,
      pp_max_fee = usdc_decimals decimals fee, pp_uses_fast_finality = True\<rparr>"

section \<open>Pacing\<close>

text \<open>
  Requests go out one at a time. A request that arrives at \<open>at\<close> is sent at the later of \<open>at\<close>
  and \<open>nxt\<close>, the earliest time the next request may go out; the gap is counted from the end of
  the attempt, or from its start for a caller that stops waiting for the answer. Times are in
  milliseconds.
\<close>

definition REQUEST_GAP :: nat where "REQUEST_GAP = 250"

datatype attempt_end = Answered nat | Abandoned

record send_slot =
  sl_arrival :: nat
  sl_end :: attempt_end

fun send :: "nat \<Rightarrow> send_slot \<Rightarrow> nat \<times> nat" where
  "send nxt slot =
     (let start = max nxt (sl_arrival slot) in
      (start, case sl_end slot of
                Answered took \<Rightarrow> start + took + REQUEST_GAP
              | Abandoned \<Rightarrow> start + REQUEST_GAP))"

fun send_all :: "nat \<Rightarrow> send_slot list \<Rightarrow> nat list" where
  "send_all nxt [] = []"
| "send_all nxt (slot # rest) = (let (start, next') = send nxt slot in start # send_all next' rest)"

section \<open>Lemmas\<close>

lemma read_chunks_Inr:
  "length body \<le> MAX_RESPONSE_BODY_BYTES \<Longrightarrow> read_chunks body cs = Inr out \<Longrightarrow>
     length out \<le> MAX_RESPONSE_BODY_BYTES \<and> None \<notin> set cs \<and> out = body @ concat (map the cs)"
proof (induction body cs rule: read_chunks.induct)
  case (3 body chunk rest)
  then show ?case by (auto split: if_splits)
qed auto

lemma send_all_lower_bound: "t \<in> set (send_all nxt slots) \<Longrightarrow> nxt \<le> t"
proof (induction slots arbitrary: nxt)
  case (Cons s rest)
  show ?case
  proof (cases "t = fst (send nxt s)")
    case True
    then show ?thesis by (simp add: Let_def)
  next
    case False
    with Cons.prems have "t \<in> set (send_all (snd (send nxt s)) rest)"
      by (simp add: case_prod_unfold Let_def)
    from Cons.IH [OF this] show ?thesis
      by (auto simp: Let_def split: attempt_end.splits)
  qed
qed simp

lemma send_next_gap: "fst (send nxt s) + REQUEST_GAP \<le> snd (send nxt s)"
  by (auto simp: Let_def split: attempt_end.splits)

text \<open>
  whatever the arrival times and the durations of the attempts, finished or abandoned, any two
  requests to Circle are sent at least the 250 ms gap apart, in the order they took their turns.
\<close>

theorem requests_are_paced:
  "sorted_wrt (\<lambda>a b. a + REQUEST_GAP \<le> b) (send_all nxt slots)"
proof (induction slots arbitrary: nxt)
  case (Cons s rest)
  have "fst (send nxt s) + REQUEST_GAP \<le> t" if "t \<in> set (send_all (snd (send nxt s)) rest)" for t
    using send_all_lower_bound [OF that] send_next_gap [of nxt s] by linarith
  with Cons.IH show ?case by (auto simp: case_prod_unfold Let_def)
qed simp

text \<open>
  a reply that is accepted carries the whole body, its chunks in order, of at most 1 MiB, and
  is not a 429: Circle's rate limit always comes back as its own error.
\<close>

theorem read_reply_bounded:
  assumes "read_reply status chunks = Inr r"
  shows "rr_status r = status \<and> status \<noteq> 429 \<and> None \<notin> set chunks \<and>
         rr_body r = concat (map the chunks) \<and> length (rr_body r) \<le> 2 ^ 20"
  using assms read_chunks_Inr [of "[]" chunks "rr_body r"]
  by (auto simp: read_reply_def MAX_RESPONSE_BODY_BYTES_def split: sum.splits if_splits)

theorem read_reply_bounded_witness:
  "read_reply 200 [Some [1, 2], Some [3]] = Inr \<lparr>rr_status = 200, rr_body = [1, 2, 3]\<rparr> \<and>
   length [1 :: u8, 2, 3] \<le> 2 ^ 20"
proof -
  have h: "read_reply 200 [Some [1, 2], Some [3]] = Inr \<lparr>rr_status = 200, rr_body = [1, 2, 3]\<rparr>"
    by (simp add: read_reply_def MAX_RESPONSE_BODY_BYTES_def)
  show ?thesis using read_reply_bounded [OF h] h by simp
qed

subsection \<open>Amounts as Circle reads them\<close>

fun dec_value :: "nat \<Rightarrow> string \<Rightarrow> nat" where
  "dec_value acc [] = acc"
| "dec_value acc (c # cs) = dec_value (acc * 10 + (of_char c - 48)) cs"

lemma dec_value_append: "dec_value acc (s @ t) = dec_value (dec_value acc s) t"
  by (induction acc s rule: dec_value.induct) auto

lemma dec_value_show_nat: "dec_value 0 (show_nat n) = n"
proof (induction n rule: show_nat.induct)
  case (1 n)
  then show ?case
    by (subst show_nat.simps) (auto simp: dec_value_append of_char_digit)
qed

lemma length_show_nat: "0 < k \<Longrightarrow> n < 10 ^ k \<Longrightarrow> length (show_nat n) \<le> k"
proof (induction n arbitrary: k rule: show_nat.induct)
  case (1 n)
  show ?case
  proof (cases "n < 10")
    case False
    then obtain k' where k: "k = Suc k'" using 1(2) by (cases k) auto
    have "0 < k'" using 1(3) False k by (cases k') auto
    have "n div 10 < 10 ^ k'" using 1(3) k by auto
    then have "length (show_nat (n div 10)) \<le> k'" using 1(1) False \<open>0 < k'\<close> by blast
    then show ?thesis using False k by (subst show_nat.simps) simp
  qed (use 1 in \<open>subst show_nat.simps, simp\<close>)
qed

lemma dec_value_zeros: "dec_value 0 (replicate k (CHR ''0'') @ s) = dec_value 0 s"
  by (induction k) auto

lemma is_digit_not_dot: "is_ascii_digit c \<Longrightarrow> c \<noteq> CHR ''.''"
  by (auto simp: is_ascii_digit_def)

definition whole_part :: "string \<Rightarrow> string" where
  "whole_part s = takeWhile (\<lambda>c. c \<noteq> CHR ''.'') s"

definition frac_part :: "string \<Rightarrow> string" where
  "frac_part s = tl (dropWhile (\<lambda>c. c \<noteq> CHR ''.'') s)"

lemma split_at_dot:
  assumes "\<forall>c \<in> set a. is_ascii_digit c"
  shows "whole_part (a @ ''.'' @ b) = a" and "frac_part (a @ ''.'' @ b) = b"
  using assms by (induction a) (auto simp: whole_part_def frac_part_def dest: is_digit_not_dot)

text \<open>
  the decimal text of an amount keeps all its fractional digits, exactly \<open>decimals\<close> of them,
  and reading the whole and the fractional part back gives the amount: an amount is never
  rounded or rescaled on its way to Circle.
\<close>

theorem usdc_decimals_roundtrip:
  assumes "0 < decimals"
  shows "length (frac_part (usdc_decimals decimals units)) = decimals \<and>
         dec_value 0 (whole_part (usdc_decimals decimals units)) * 10 ^ decimals
           + dec_value 0 (frac_part (usdc_decimals decimals units)) = unat units"
proof -
  let ?m = "unat units mod 10 ^ decimals" and ?s = "usdc_decimals decimals units"
  have w: "whole_part ?s = show_nat (unat units div 10 ^ decimals)"
    and f: "frac_part ?s = zero_pad decimals (show_nat ?m)"
    unfolding usdc_decimals_def Let_def by (simp_all only: split_at_dot [OF show_nat_digits])
  have "length (show_nat ?m) \<le> decimals"
    using assms by (rule length_show_nat) simp
  moreover have "unat units div 10 ^ decimals * 10 ^ decimals + ?m = unat units"
    by (rule div_mult_mod_eq)
  ultimately show ?thesis
    by (simp add: w f zero_pad_def dec_value_zeros dec_value_show_nat)
qed

theorem usdc_decimals_roundtrip_witness:
  "usdc_decimals 6 1000001 = ''1.000001'' \<and>
   dec_value 0 ''1'' * 10 ^ 6 + dec_value 0 ''000001'' = unat (1000001 :: u64)"
proof -
  have one: "char_of (49 :: nat) = CHR ''1''" by code_simp
  have five: "replicate 5 (CHR ''0'') = ''00000''" by code_simp
  have h: "usdc_decimals 6 1000001 = ''1.000001''"
    using one five by (simp add: usdc_decimals_def show_nat_step zero_pad_def digit_char_def Let_def)
  show ?thesis using usdc_decimals_roundtrip [of 6 1000001] h
    by (simp add: whole_part_def frac_part_def)
qed

end
