(* ===== verification/Verify.thy ===== *)
theory Verify
  imports Circle
begin

text \<open>
  \<^verbatim>\<open>crates/xusdc-light-attester/src/verify.rs\<close>: the gate that every fresh withdrawal passes before
  it is signed. Circle's prepared reply is parsed, every field that binds the payout to the burn
  is checked, the encoded bytes and the signing hash are rebuilt and compared, and only then is
  the digest handed to the signers. Hashing, ABI coding and text parsing are \<^verbatim>\<open>alloy\<close>'s and come
  from \<open>ext\<close>.
\<close>

section \<open>Constants and errors\<close>

definition BURN_INTENT_MAGIC :: bytes where "BURN_INTENT_MAGIC = be_bytes 4 (0x070afbc2 :: u32)"
definition TRANSFER_SPEC_MAGIC :: bytes where "TRANSFER_SPEC_MAGIC = be_bytes 4 (0xca85def7 :: u32)"
definition WITHDRAW_HOOK_DATA_MAGIC :: bytes where
  "WITHDRAW_HOOK_DATA_MAGIC = be_bytes 4 (0x6b20f62a :: u32)"
definition WITHDRAW_HOOK_DATA_VERSION :: u32 where "WITHDRAW_HOOK_DATA_VERSION = 1"
definition CCTP_FORWARD_MARKER :: bytes where
  "CCTP_FORWARD_MARKER = map of_char ''cctp-forward'' @ replicate 20 0"
definition CCTP_FAST_FINALITY :: u32 where "CCTP_FAST_FINALITY = 1000"
definition ARC_DOMAIN :: u32 where "ARC_DOMAIN = 26"
definition ARC_USDC :: address where "ARC_USDC = 0x3600000000000000000000000000000000000000"

datatype verify_error =
    WrongCount
  | UnsupportedDestination
  | UnknownSalt
  | WrongBurnField string
  | BadAmount
  | FeeTooHigh
  | WrongSigner
  | WrongSourceToken
  | WrongSourceDomain
  | CallerRestricted
  | ForwardedField string
  | TooSmallToForward
  | PayoutTooSmallToForward
  | DigestMismatch
  | EncodedMismatch
  | MalformedField string

fun verify_failure :: "verify_error \<Rightarrow> failure_class" where
  "verify_failure UnsupportedDestination = Actionable ''unsupported_destination''"
| "verify_failure FeeTooHigh = Actionable ''fee_too_high''"
| "verify_failure TooSmallToForward = Actionable ''too_small_to_forward''"
| "verify_failure PayoutTooSmallToForward = Actionable ''payout_too_small_to_forward''"
| "verify_failure WrongCount = Integrity ''wrong_count''"
| "verify_failure UnknownSalt = Integrity ''unknown_salt''"
| "verify_failure (WrongBurnField _) = Integrity ''wrong_burn_field''"
| "verify_failure BadAmount = Integrity ''bad_amount''"
| "verify_failure WrongSigner = Integrity ''wrong_signer''"
| "verify_failure WrongSourceToken = Integrity ''wrong_source_token''"
| "verify_failure WrongSourceDomain = Integrity ''wrong_source_domain''"
| "verify_failure CallerRestricted = Integrity ''caller_restricted''"
| "verify_failure (ForwardedField _) = Integrity ''forwarded_field''"
| "verify_failure DigestMismatch = Integrity ''digest_mismatch''"
| "verify_failure EncodedMismatch = Integrity ''encoded_mismatch''"
| "verify_failure (MalformedField _) = Integrity ''malformed_field''"

text \<open>\<^verbatim>\<open>Address::into_word\<close>: the 20 bytes left-padded to 32.\<close>

definition into_word :: "address \<Rightarrow> b256" where
  "into_word a = ucast a"

section \<open>Encoding\<close>

record hook_data =
  hk_remote_domain :: u32
  hk_remote_token :: b256
  hk_remote_depositor :: b256
  hk_forwarding_contract :: address
  hk_forwarding_calldata :: bytes

definition append_with_length :: "bytes \<Rightarrow> bytes \<Rightarrow> verify_error + bytes" where
  "append_with_length out bs =
     (if length bs < 2 ^ 32 then Inr (out @ be_bytes 4 (of_nat (length bs) :: u32) @ bs)
      else Inl (MalformedField ''encoded length''))"

definition hook_encode :: "hook_data \<Rightarrow> verify_error + bytes" where
  "hook_encode h =
     append_with_length
       (WITHDRAW_HOOK_DATA_MAGIC @ be_bytes 4 WITHDRAW_HOOK_DATA_VERSION @
        be_bytes 4 (hk_remote_domain h) @ be_bytes 32 (hk_remote_token h) @
        be_bytes 32 (hk_remote_depositor h) @ be_bytes 32 (into_word (hk_forwarding_contract h)))
       (hk_forwarding_calldata h)"

definition spec_encode :: "transfer_spec \<Rightarrow> verify_error + bytes" where
  "spec_encode s =
     append_with_length
       (TRANSFER_SPEC_MAGIC @ be_bytes 4 (ts_version s) @ be_bytes 4 (ts_sourceDomain s) @
        be_bytes 4 (ts_destinationDomain s) @
        concat (map (be_bytes 32) [ts_sourceContract s, ts_destinationContract s, ts_sourceToken s,
          ts_destinationToken s, ts_sourceDepositor s, ts_destinationRecipient s,
          ts_sourceSigner s, ts_destinationCaller s]) @
        be_bytes 32 (ts_value s) @ be_bytes 32 (ts_salt s))
       (ts_hookData s)"

definition spec_hash :: "ext \<Rightarrow> transfer_spec \<Rightarrow> verify_error + b256" where
  "spec_hash x s = and_then (spec_encode s) (\<lambda>b. Inr (x_keccak256 x b))"

definition intent_encode :: "burn_intent \<Rightarrow> verify_error + bytes" where
  "intent_encode i =
     and_then (spec_encode (bi_spec i)) (\<lambda>spec.
     append_with_length
       (BURN_INTENT_MAGIC @ be_bytes 32 (bi_maxBlockHeight i) @ be_bytes 32 (bi_maxFee i)) spec)"

section \<open>Parsing\<close>

definition parse_field :: "(string \<Rightarrow> 'a option) \<Rightarrow> string \<Rightarrow> string \<Rightarrow> verify_error + 'a" where
  "parse_field p text field = ok_or (p text) (MalformedField field)"

definition decimal :: "ext \<Rightarrow> string \<Rightarrow> string \<Rightarrow> verify_error + u256" where
  "decimal x text field =
     (if text = [] \<or> \<not> list_all is_ascii_digit text then Inl (MalformedField field)
      else ok_or (x_u256_radix10 x text) (MalformedField field))"

definition hook_parse :: "ext \<Rightarrow> structured_hook_data \<Rightarrow> verify_error + hook_data" where
  "hook_parse x raw =
     and_then (parse_field (x_parse_b256 x) (sh_remote_token raw) ''remoteToken'') (\<lambda>token.
     and_then (parse_field (x_parse_b256 x) (sh_remote_depositor raw) ''remoteDepositor'') (\<lambda>depositor.
     and_then (parse_field (x_parse_address x) (sh_forwarding_contract_address raw)
         ''forwardingContractAddress'') (\<lambda>contract.
     and_then (parse_field (x_parse_bytes x) (sh_forwarding_calldata raw)
         ''forwardingCalldata'') (\<lambda>calldata.
     Inr \<lparr>hk_remote_domain = sh_remote_domain raw, hk_remote_token = token,
          hk_remote_depositor = depositor, hk_forwarding_contract = contract,
          hk_forwarding_calldata = calldata\<rparr>))))"

definition parse_intent :: "ext \<Rightarrow> raw_burn_intent \<Rightarrow> verify_error + (burn_intent \<times> hook_data)" where
  "parse_intent x raw =
     (let spec = ri_spec raw; b256 = parse_field (x_parse_b256 x) in
     and_then (hook_parse x (rs_hook_data spec)) (\<lambda>hook.
     and_then (decimal x (ri_max_block_height raw) ''maxBlockHeight'') (\<lambda>height.
     and_then (decimal x (ri_max_fee raw) ''maxFee'') (\<lambda>fee.
     and_then (b256 (rs_source_contract spec) ''sourceContract'') (\<lambda>source_contract.
     and_then (b256 (rs_destination_contract spec) ''destinationContract'') (\<lambda>destination_contract.
     and_then (b256 (rs_source_token spec) ''sourceToken'') (\<lambda>source_token.
     and_then (b256 (rs_destination_token spec) ''destinationToken'') (\<lambda>destination_token.
     and_then (b256 (rs_source_depositor spec) ''sourceDepositor'') (\<lambda>source_depositor.
     and_then (b256 (rs_destination_recipient spec) ''destinationRecipient'') (\<lambda>recipient.
     and_then (b256 (rs_source_signer spec) ''sourceSigner'') (\<lambda>signer.
     and_then (b256 (rs_destination_caller spec) ''destinationCaller'') (\<lambda>caller.
     and_then (decimal x (rs_value spec) ''value'') (\<lambda>value.
     and_then (b256 (rs_salt spec) ''salt'') (\<lambda>salt.
     and_then (hook_encode hook) (\<lambda>encoded_hook.
     Inr (\<lparr>bi_maxBlockHeight = height, bi_maxFee = fee,
           bi_spec = \<lparr>ts_version = rs_version spec, ts_sourceDomain = rs_source_domain spec,
             ts_destinationDomain = rs_destination_domain spec, ts_sourceContract = source_contract,
             ts_destinationContract = destination_contract, ts_sourceToken = source_token,
             ts_destinationToken = destination_token, ts_sourceDepositor = source_depositor,
             ts_destinationRecipient = recipient, ts_sourceSigner = signer,
             ts_destinationCaller = caller, ts_value = value, ts_salt = salt,
             ts_hookData = encoded_hook\<rparr>\<rparr>, hook))))))))))))))))"

section \<open>The secondary legs\<close>

text \<open>The loops over \<^verbatim>\<open>(matches, field)\<close> pairs: the first mismatch is the error.\<close>

fun first_mismatch :: "(bool \<times> string) list \<Rightarrow> verify_error + unit" where
  "first_mismatch [] = Inr ()"
| "first_mismatch ((matches, field) # rest) =
     (if \<not> matches then Inl (ForwardedField field) else first_mismatch rest)"

definition verify_forwarded_leg ::
    "ext \<Rightarrow> burn_intent \<Rightarrow> hook_data \<Rightarrow> discovered_burn \<Rightarrow> cctp_forwarding \<Rightarrow> verify_error + unit" where
  "verify_forwarded_leg x intent hook burn fw =
     (let spec = bi_spec intent; forwarder = into_word (cf_forwarder fw) in
      if hk_forwarding_contract hook \<noteq> cf_token_messenger fw
        then Inl (ForwardedField ''forwardingContractAddress'')
      else if ts_destinationRecipient spec \<noteq> forwarder then Inl (ForwardedField ''destinationRecipient'')
      else if ts_destinationCaller spec \<noteq> forwarder then Inl (ForwardedField ''destinationCaller'')
      else if ts_destinationDomain spec \<noteq> ARC_DOMAIN then Inl (ForwardedField ''destinationDomain'')
      else if ts_destinationToken spec \<noteq> into_word ARC_USDC then Inl (ForwardedField ''destinationToken'')
      else and_then (ok_or (x_cctp_decode x (hk_forwarding_calldata hook))
          (ForwardedField ''forwardingCalldata'')) (\<lambda>call.
      if x_cctp_encode x call \<noteq> hk_forwarding_calldata hook then Inl (ForwardedField ''forwardingCalldata'')
      else if cc_amount call \<noteq> ts_value spec then Inl (ForwardedField ''calldata amount'')
      else if cc_destinationDomain call \<noteq> dest_domain (db_items burn)
        then Inl (ForwardedField ''calldata destinationDomain'')
      else if cc_mintRecipient call \<noteq> dest_recipient (db_items burn)
        then Inl (ForwardedField ''calldata mintRecipient'')
      else if into_word (cc_burnToken call) \<noteq> ts_destinationToken spec
        then Inl (ForwardedField ''calldata burnToken'')
      else if cc_destinationCaller call \<noteq> 0 then Inl (ForwardedField ''calldata destinationCaller'')
      else if cc_maxFee call \<noteq> ucast (cf_max_fee fw) then Inl (ForwardedField ''calldata maxFee'')
      else if cc_minFinalityThreshold call \<noteq> CCTP_FAST_FINALITY
        then Inl (ForwardedField ''calldata minFinalityThreshold'')
      else if cc_hookData call \<noteq> CCTP_FORWARD_MARKER then Inl (ForwardedField ''calldata hookData'')
      else Inr ()))"

definition redeposit_token :: "address \<Rightarrow> u32 \<Rightarrow> verify_error + address" where
  "redeposit_token ethereum_token domain =
     (if domain = 0 then Inr ethereum_token
      else if domain = ARC_DOMAIN then Inr ARC_USDC
      else Inl (ForwardedField ''destinationDomain''))"

definition verify_redeposit_leg ::
    "ext \<Rightarrow> burn_intent \<Rightarrow> hook_data \<Rightarrow> discovered_burn \<Rightarrow> address \<Rightarrow> u64 \<Rightarrow> verify_error + unit" where
  "verify_redeposit_leg x intent hook burn forwarder max_fee =
     and_then (ok_or (xreserve_deployment forwarder) (ForwardedField ''xreserve deployment''))
       (\<lambda>(ethereum_token, wallet, minter).
     let spec = bi_spec intent in
     and_then (redeposit_token ethereum_token (ts_destinationDomain spec)) (\<lambda>token.
     and_then (first_mismatch [
         (hk_forwarding_contract hook = forwarder, ''forwardingContractAddress''),
         (ts_destinationRecipient spec = into_word forwarder, ''destinationRecipient''),
         (ts_destinationCaller spec = into_word forwarder, ''destinationCaller''),
         (ts_destinationToken spec = into_word token, ''destinationToken''),
         (ts_sourceContract spec = into_word wallet, ''sourceContract''),
         (ts_destinationContract spec = into_word minter, ''destinationContract'')]) (\<lambda>_.
     and_then (ok_or (x_redeposit_decode x (hk_forwarding_calldata hook))
         (ForwardedField ''forwardingCalldata'')) (\<lambda>call.
     if x_redeposit_encode x call \<noteq> hk_forwarding_calldata hook
       then Inl (ForwardedField ''forwardingCalldata'')
     else first_mismatch [
         (rc_value call = ts_value spec, ''calldata value''),
         (rc_remoteDomain call = dest_domain (db_items burn), ''calldata remoteDomain''),
         (rc_remoteRecipient call = dest_recipient (db_items burn), ''calldata remoteRecipient''),
         (rc_localToken call = token, ''calldata localToken''),
         (rc_maxFee call = ucast max_fee, ''calldata maxFee''),
         (rc_hookData call = [], ''calldata hookData'')]))))"

section \<open>The gate\<close>

record verified_batch =
  vb_note_id :: note_id
  vb_intent :: raw_burn_intent
  vb_digest :: b256
  vb_transfer_spec_hash :: b256

definition checked_add_u256 :: "u256 \<Rightarrow> u256 \<Rightarrow> u256 option" where
  "checked_add_u256 a b = (if unat a + unat b < 2 ^ 256 then Some (a + b) else None)"

definition saturating_add_u256 :: "u256 \<Rightarrow> u256 \<Rightarrow> u256" where
  "saturating_add_u256 a b = (if unat a + unat b < 2 ^ 256 then a + b else - 1)"

definition fee_ceiling :: "config \<Rightarrow> u256 \<Rightarrow> u256" where
  "fee_ceiling cfg burned =
     ucast (cg_max_withdrawal_fee cfg) + burned * ucast (cg_max_withdrawal_fee_bps cfg) div 10000"

definition single :: "'a list \<Rightarrow> 'a option" where
  "single xs = (case xs of [a] \<Rightarrow> Some a | _ \<Rightarrow> None)"

definition forwarded_route :: "hook_data \<Rightarrow> bool" where
  "forwarded_route hook \<longleftrightarrow> hk_forwarding_contract hook \<noteq> 0 \<or> hk_forwarding_calldata hook \<noteq> []"

text \<open>The route check of \<^verbatim>\<open>verify\<close>: it returns the secondary fee that the route authorizes.\<close>

definition check_route ::
    "ext \<Rightarrow> config \<Rightarrow> discovered_burn \<Rightarrow> burn_intent \<Rightarrow> hook_data \<Rightarrow> u64 \<Rightarrow> verify_error + u256" where
  "check_route x cfg burn intent hook forwarding_fee =
     (let spec = bi_spec intent; destination = dest_domain (db_items burn) in
      if FIRST_REMOTE_DOMAIN \<le> destination then
        and_then (verify_redeposit_leg x intent hook burn
            (cf_forwarder (cg_cctp_forwarding cfg)) forwarding_fee) (\<lambda>_. Inr (ucast forwarding_fee))
      else if forwarded_route hook then
        and_then (verify_forwarded_leg x intent hook burn (cg_cctp_forwarding cfg))
          (\<lambda>_. Inr (ucast forwarding_fee))
      else if ts_destinationDomain spec \<noteq> destination
        then Inl (WrongBurnField ''destinationDomain'')
      else if ts_destinationRecipient spec \<noteq> dest_recipient (db_items burn)
        then Inl (WrongBurnField ''destinationRecipient'')
      else if ts_destinationCaller spec \<noteq> 0 then Inl CallerRestricted
      else Inr 0)"

definition verify :: "ext \<Rightarrow> config \<Rightarrow> discovered_burn \<Rightarrow> prepare_response \<Rightarrow> verify_error + verified_batch" where
  "verify x cfg burn response =
     and_then (ok_or (single (pr_batches response)) WrongCount) (\<lambda>batch.
     and_then (ok_or (single (pb_burn_intents batch)) WrongCount) (\<lambda>raw.
     and_then (parse_intent x raw) (\<lambda>(intent, hook).
     let spec = bi_spec intent; destination = dest_domain (db_items burn);
         burned_amount = ucast (db_amount burn) in
     if db_note_id burn \<noteq> ts_salt spec then Inl UnknownSalt
     else
     and_then (ok_or (forwarding_max_fee cfg destination) UnsupportedDestination) (\<lambda>forwarding_fee.
     and_then (check_route x cfg burn intent hook forwarding_fee) (\<lambda>secondary_fee.
     if hk_remote_domain hook \<noteq> x_miden_domain x then Inl (WrongBurnField ''remoteDomain'')
     else if hk_remote_depositor hook \<noteq> x_eth_bytes32 x (nt_sender (db_note burn))
       then Inl (WrongBurnField ''remoteDepositor'')
     else if hk_remote_token hook \<noteq> x_eth_bytes32 x (cg_faucet_account_id cfg)
       then Inl (WrongBurnField ''remoteToken'')
     else if ts_value spec = 0 \<or>
             checked_add_u256 (ts_value spec) (bi_maxFee intent) \<noteq> Some burned_amount
       then Inl BadAmount
     else if fee_ceiling cfg burned_amount < saturating_add_u256 (bi_maxFee intent) secondary_fee
       then Inl FeeTooHigh
     else if ts_sourceSigner spec \<noteq> ts_sourceDepositor spec then Inl WrongSigner
     else if ts_sourceToken spec \<noteq> into_word ARC_USDC then Inl WrongSourceToken
     else if ts_sourceDomain spec \<noteq> ARC_DOMAIN then Inl WrongSourceDomain
     else
     and_then (parse_field (x_parse_bytes x) (pb_encoded batch) ''encoded'') (\<lambda>supplied.
     and_then (intent_encode intent) (\<lambda>encoded.
     if supplied \<noteq> encoded then Inl EncodedMismatch
     else let digest = x_signing_hash x intent in
     and_then (parse_field (x_parse_b256 x) (pb_message_hash_to_sign batch) ''messageHashToSign'') (\<lambda>hash.
     if digest \<noteq> hash then Inl DigestMismatch
     else if (forwarded_route hook \<or> FIRST_REMOTE_DOMAIN \<le> destination) \<and>
             ts_value spec \<le> secondary_fee
       then (if burned_amount \<le> secondary_fee then Inl TooSmallToForward
             else Inl PayoutTooSmallToForward)
     else and_then (spec_hash x spec) (\<lambda>hash.
     Inr \<lparr>vb_note_id = db_note_id burn, vb_intent = raw, vb_digest = digest,
          vb_transfer_spec_hash = hash\<rparr>)))))))))"

section \<open>Signing and the saved request\<close>

text \<open>
  \<^verbatim>\<open>VerifiedWithdrawal::sign\<close> asks the two signers in their order and keeps both signatures or
  none; a signer is the function from a digest to its result. \<^verbatim>\<open>SignedWithdrawal::submission\<close>
  builds the exact bytes of the Circle request.
\<close>

record signed_withdrawal =
  sw_batch :: verified_batch
  sw_signatures :: "string \<times> string"

definition sign :: "(b256 \<Rightarrow> 'e + string) \<times> (b256 \<Rightarrow> 'e + string) \<Rightarrow> verified_batch \<Rightarrow> 'e + signed_withdrawal" where
  "sign signers batch =
     and_then (fst signers (vb_digest batch)) (\<lambda>first.
     and_then (snd signers (vb_digest batch)) (\<lambda>second.
     Inr \<lparr>sw_batch = batch, sw_signatures = (first, second)\<rparr>))"

text \<open>The \<^verbatim>\<open>serde\<close> image of the parts of the request (field names as in \<^verbatim>\<open>circle.rs\<close>).\<close>

definition json_u32 :: "u32 \<Rightarrow> json" where "json_u32 w = JNumber (show_nat (unat w))"

definition hook_json :: "structured_hook_data \<Rightarrow> json" where
  "hook_json h = JObject [(''remoteDomain'', json_u32 (sh_remote_domain h)),
     (''remoteDepositor'', JString (sh_remote_depositor h)), (''remoteToken'', JString (sh_remote_token h)),
     (''forwardingContractAddress'', JString (sh_forwarding_contract_address h)),
     (''forwardingCalldata'', JString (sh_forwarding_calldata h))]"

definition spec_json :: "raw_transfer_spec \<Rightarrow> json" where
  "spec_json s = JObject [(''version'', json_u32 (rs_version s)),
     (''sourceDomain'', json_u32 (rs_source_domain s)),
     (''destinationDomain'', json_u32 (rs_destination_domain s)),
     (''sourceContract'', JString (rs_source_contract s)),
     (''destinationContract'', JString (rs_destination_contract s)),
     (''sourceToken'', JString (rs_source_token s)),
     (''destinationToken'', JString (rs_destination_token s)),
     (''sourceDepositor'', JString (rs_source_depositor s)),
     (''destinationRecipient'', JString (rs_destination_recipient s)),
     (''sourceSigner'', JString (rs_source_signer s)),
     (''destinationCaller'', JString (rs_destination_caller s)),
     (''value'', JString (rs_value s)), (''salt'', JString (rs_salt s)),
     (''hookData'', hook_json (rs_hook_data s))]"

definition intent_json :: "raw_burn_intent \<Rightarrow> json" where
  "intent_json i = JObject [(''maxBlockHeight'', JString (ri_max_block_height i)),
     (''maxFee'', JString (ri_max_fee i)), (''spec'', spec_json (ri_spec i))]"

definition submission_json :: "ext \<Rightarrow> signed_withdrawal \<Rightarrow> json" where
  "submission_json x w = JObject [(''batches'', JArray [JObject [
     (''burnIntents'', JArray [intent_json (vb_intent (sw_batch w))]),
     (''burnSignatures'', JArray [JString (fst (sw_signatures w)), JString (snd (sw_signatures w))]),
     (''burnTxId'', JString (x_note_hex x (vb_note_id (sw_batch w)))),
     (''useCircleForwarding'', JBool True)]])]"

definition submission :: "ext \<Rightarrow> signed_withdrawal \<Rightarrow> string \<Rightarrow> saved_submission option" where
  "submission x w endpoint =
     map_option (\<lambda>body. \<lparr>sv_note_id = vb_note_id (sw_batch w), sv_endpoint = endpoint, sv_body = body,
         sv_transfer_spec_hash = vb_transfer_spec_hash (sw_batch w), sv_status = Submitting,
         sv_withdrawal_id = None, sv_hold_reason = None, sv_last_http_status = None,
         sv_last_response = None, sv_last_error = None\<rparr>)
       (x_json_to_vec x (submission_json x w))"

definition validate_saved_request :: "ext \<Rightarrow> saved_submission \<Rightarrow> bool" where
  "validate_saved_request x saved \<longleftrightarrow>
     x_de_saved_request x (sv_body saved) = Some (x_note_hex x (sv_note_id saved))"

section \<open>What a verified withdrawal guarantees\<close>

text \<open>
  The specification of the gate, route by route: a direct payout names the burn's own recipient
  and domain; a CCTP-forwarded payout goes to the configured xReserve, whose calldata re-encodes
  exactly and sends the whole payout to the burn's recipient and domain; a redeposit goes to a
  known xReserve deployment, whose calldata deposits the whole payout for the burn's recipient.
\<close>

definition direct_route :: "burn_intent \<Rightarrow> hook_data \<Rightarrow> discovered_burn \<Rightarrow> bool" where
  "direct_route i h b \<longleftrightarrow>
     \<not> forwarded_route h \<and> ts_destinationDomain (bi_spec i) = dest_domain (db_items b) \<and>
     ts_destinationRecipient (bi_spec i) = dest_recipient (db_items b) \<and>
     ts_destinationCaller (bi_spec i) = 0"

definition cctp_route :: "ext \<Rightarrow> cctp_forwarding \<Rightarrow> burn_intent \<Rightarrow> hook_data \<Rightarrow> discovered_burn \<Rightarrow> bool" where
  "cctp_route x fw i h b \<longleftrightarrow>
     ts_destinationRecipient (bi_spec i) = into_word (cf_forwarder fw) \<and>
     ts_destinationCaller (bi_spec i) = into_word (cf_forwarder fw) \<and>
     ts_destinationDomain (bi_spec i) = ARC_DOMAIN \<and>
     ts_destinationToken (bi_spec i) = into_word ARC_USDC \<and>
     hk_forwarding_contract h = cf_token_messenger fw \<and>
     (\<exists>call. x_cctp_decode x (hk_forwarding_calldata h) = Some call \<and>
        x_cctp_encode x call = hk_forwarding_calldata h \<and>
        cc_amount call = ts_value (bi_spec i) \<and>
        cc_destinationDomain call = dest_domain (db_items b) \<and>
        cc_mintRecipient call = dest_recipient (db_items b) \<and>
        into_word (cc_burnToken call) = into_word ARC_USDC \<and> cc_destinationCaller call = 0 \<and>
        cc_maxFee call = ucast (cf_max_fee fw) \<and>
        cc_minFinalityThreshold call = CCTP_FAST_FINALITY \<and> cc_hookData call = CCTP_FORWARD_MARKER)"

definition redeposit_route ::
    "ext \<Rightarrow> address \<Rightarrow> u64 \<Rightarrow> burn_intent \<Rightarrow> hook_data \<Rightarrow> discovered_burn \<Rightarrow> bool" where
  "redeposit_route x forwarder fee i h b \<longleftrightarrow>
     (\<exists>eth wallet minter token call.
        xreserve_deployment forwarder = Some (eth, wallet, minter) \<and>
        (ts_destinationDomain (bi_spec i), token) \<in> {(0, eth), (ARC_DOMAIN, ARC_USDC)} \<and>
        hk_forwarding_contract h = forwarder \<and>
        ts_destinationRecipient (bi_spec i) = into_word forwarder \<and>
        ts_destinationCaller (bi_spec i) = into_word forwarder \<and>
        ts_destinationToken (bi_spec i) = into_word token \<and>
        ts_sourceContract (bi_spec i) = into_word wallet \<and>
        ts_destinationContract (bi_spec i) = into_word minter \<and>
        x_redeposit_decode x (hk_forwarding_calldata h) = Some call \<and>
        x_redeposit_encode x call = hk_forwarding_calldata h \<and>
        rc_value call = ts_value (bi_spec i) \<and> rc_remoteDomain call = dest_domain (db_items b) \<and>
        rc_remoteRecipient call = dest_recipient (db_items b) \<and> rc_localToken call = token \<and>
        rc_maxFee call = ucast fee \<and> rc_hookData call = [])"

lemma first_mismatch_Inr [outcome_simps]:
  "first_mismatch cs = Inr u \<longleftrightarrow> (\<forall>c \<in> set cs. fst c)"
  by (induction cs rule: first_mismatch.induct) auto

lemma redeposit_token_Inr [outcome_simps]:
  "redeposit_token eth d = Inr t \<longleftrightarrow> (d, t) \<in> {(0, eth), (ARC_DOMAIN, ARC_USDC)}"
  by (auto simp: redeposit_token_def ARC_DOMAIN_def)

lemma verify_forwarded_leg_Inr:
  "verify_forwarded_leg x i h b fw = Inr u \<longleftrightarrow> cctp_route x fw i h b"
  by (auto simp: verify_forwarded_leg_def cctp_route_def Let_def outcome_simps)

lemma verify_redeposit_leg_Inr:
  "verify_redeposit_leg x i h b forwarder fee = Inr u \<longleftrightarrow> redeposit_route x forwarder fee i h b"
proof (cases "xreserve_deployment forwarder")
  case None
  then show ?thesis by (simp add: verify_redeposit_leg_def redeposit_route_def)
next
  case (Some d)
  obtain eth wallet minter where d: "d = (eth, wallet, minter)" by (cases d) auto
  show ?thesis
    unfolding verify_redeposit_leg_def redeposit_route_def Some d ok_or_simps and_then_simps
      Let_def prod.case
    by (auto simp: and_then_Inr_iff ok_or_Inr_iff first_mismatch_Inr redeposit_token_Inr split: if_splits)
qed

definition route_ok ::
    "ext \<Rightarrow> config \<Rightarrow> discovered_burn \<Rightarrow> burn_intent \<Rightarrow> hook_data \<Rightarrow> u64 \<Rightarrow> u256 \<Rightarrow> bool" where
  "route_ok x cfg b i h fee secondary \<longleftrightarrow>
     (if FIRST_REMOTE_DOMAIN \<le> dest_domain (db_items b)
        then redeposit_route x (cf_forwarder (cg_cctp_forwarding cfg)) fee i h b \<and> secondary = ucast fee
      else if forwarded_route h
        then cctp_route x (cg_cctp_forwarding cfg) i h b \<and> secondary = ucast fee
      else direct_route i h b \<and> secondary = 0)"

lemma check_route_Inr [outcome_simps]:
  "check_route x cfg b i h fee = Inr secondary \<longleftrightarrow> route_ok x cfg b i h fee secondary"
  by (auto simp: check_route_def route_ok_def Let_def direct_route_def and_then_Inr_iff
      verify_forwarded_leg_Inr verify_redeposit_leg_Inr)

text \<open>The whole contract, with the amounts read as natural numbers.\<close>

definition amounts_ok :: "config \<Rightarrow> discovered_burn \<Rightarrow> burn_intent \<Rightarrow> u256 \<Rightarrow> bool" where
  "amounts_ok cfg b i secondary \<longleftrightarrow>
     0 < unat (ts_value (bi_spec i)) \<and>
     unat (ts_value (bi_spec i)) + unat (bi_maxFee i) = unat (db_amount b) \<and>
     unat (bi_maxFee i) + unat secondary
       \<le> unat (cg_max_withdrawal_fee cfg)
          + unat (db_amount b) * unat (cg_max_withdrawal_fee_bps cfg) div 10000"

definition authorizes ::
    "ext \<Rightarrow> config \<Rightarrow> discovered_burn \<Rightarrow> prepare_batch_reply \<Rightarrow> burn_intent \<Rightarrow> hook_data \<Rightarrow> bool" where
  "authorizes x cfg b batch i h \<longleftrightarrow>
     ts_salt (bi_spec i) = db_note_id b \<and>
     hk_remote_domain h = x_miden_domain x \<and>
     hk_remote_depositor h = x_eth_bytes32 x (nt_sender (db_note b)) \<and>
     hk_remote_token h = x_eth_bytes32 x (cg_faucet_account_id cfg) \<and>
     ts_sourceSigner (bi_spec i) = ts_sourceDepositor (bi_spec i) \<and>
     ts_sourceToken (bi_spec i) = into_word ARC_USDC \<and> ts_sourceDomain (bi_spec i) = ARC_DOMAIN \<and>
     (\<exists>e. x_parse_bytes x (pb_encoded batch) = Some e \<and> intent_encode i = Inr e) \<and>
     x_parse_b256 x (pb_message_hash_to_sign batch) = Some (x_signing_hash x i) \<and>
     (\<exists>fee secondary. forwarding_max_fee cfg (dest_domain (db_items b)) = Some fee \<and>
        route_ok x cfg b i h fee secondary \<and> amounts_ok cfg b i secondary \<and>
        secondary < ts_value (bi_spec i))"

lemma unat_ucast_u64: "unat (ucast (a :: u64) :: u256) = unat a"
proof -
  have "unat a < 2 ^ 64" using unsigned_less [of a, where ?'a = nat] by simp
  then show ?thesis by (simp add: unsigned_ucast_eq take_bit_nat_eq_self)
qed

lemma checked_add_Some:
  "checked_add_u256 a b = Some (ucast (n :: u64)) \<longleftrightarrow> unat a + unat b = unat n"
proof -
  have n: "unat n < 2 ^ 64" using unsigned_less [of n, where ?'a = nat] by simp
  show ?thesis
  proof
    assume "checked_add_u256 a b = Some (ucast n)"
    then have lt: "unat a + unat b < 2 ^ 256" and e: "a + b = ucast n"
      by (auto simp: checked_add_u256_def split: if_splits)
    from lt have "unat (a + b) = unat a + unat b" by (intro unat_add_lem[THEN iffD1]) simp
    with e show "unat a + unat b = unat n" by (simp add: unat_ucast_u64)
  next
    assume e: "unat a + unat b = unat n"
    with n have lt: "unat a + unat b < 2 ^ 256" by simp
    then have "unat (a + b) = unat (ucast n :: u256)"
      using e by (simp add: unat_ucast_u64 unat_add_lem[THEN iffD1])
    then have "a + b = ucast n" by (simp add: word_eq_iff_unsigned [where ?'a = nat])
    with lt show "checked_add_u256 a b = Some (ucast n)" by (simp add: checked_add_u256_def)
  qed
qed


lemma unat_add_fits: "unat a + unat b < 2 ^ 256 \<Longrightarrow> unat (a + b) = unat a + unat b"
  for a b :: u256
  using unat_add_lem [of a b] by simp

lemma unat_fee_ceiling:
  "unat (fee_ceiling cfg (ucast (n :: u64))) =
     unat (cg_max_withdrawal_fee cfg) + unat n * unat (cg_max_withdrawal_fee_bps cfg) div 10000"
proof -
  let ?m = "cg_max_withdrawal_fee cfg" and ?b = "cg_max_withdrawal_fee_bps cfg"
  have lt: "unat n < 2 ^ 64" "unat ?m < 2 ^ 64" "unat ?b < 2 ^ 64"
    using unsigned_less [of n, where ?'a = nat] unsigned_less [of ?m, where ?'a = nat]
      unsigned_less [of ?b, where ?'a = nat] by simp_all
  have "unat n * unat ?b < 2 ^ 64 * 2 ^ 64" by (rule mult_strict_mono) (use lt in auto)
  then have prod: "unat n * unat ?b < 2 ^ 128" by simp
  have mul: "unat ((ucast n :: u256) * ucast ?b) = unat n * unat ?b"
    using prod unat_mult_lem [of "ucast n :: u256" "ucast ?b"] by (simp add: unat_ucast_u64)
  then have d: "unat ((ucast n :: u256) * ucast ?b div 10000) = unat n * unat ?b div 10000"
    by (simp add: unat_div)
  have "unat n * unat ?b div 10000 < 2 ^ 128" using prod by simp
  then have "unat (ucast ?m :: u256) + unat ((ucast n :: u256) * ucast ?b div 10000) < 2 ^ 256"
    using lt(2) by (simp add: d unat_ucast_u64)
  then have "unat (ucast ?m + (ucast n :: u256) * ucast ?b div 10000) =
      unat (ucast ?m :: u256) + unat ((ucast n :: u256) * ucast ?b div 10000)"
    by (rule unat_add_fits)
  then show ?thesis by (simp add: fee_ceiling_def d unat_ucast_u64)
qed

lemma unat_saturating_add:
  "unat (saturating_add_u256 a b) = min (unat a + unat b) (2 ^ 256 - 1)"
proof (cases "unat a + unat b < 2 ^ 256")
  case True
  then show ?thesis by (simp add: saturating_add_u256_def unat_add_fits)
next
  case False
  then show ?thesis by (simp add: saturating_add_u256_def unsigned_minus_1_eq_mask mask_eq_exp_minus_1)
qed

lemma fee_within_ceiling:
  "\<not> fee_ceiling cfg (ucast (n :: u64)) < saturating_add_u256 a b \<longleftrightarrow>
     unat a + unat b \<le> unat (cg_max_withdrawal_fee cfg)
        + unat n * unat (cg_max_withdrawal_fee_bps cfg) div 10000"
proof -
  let ?c = "unat (fee_ceiling cfg (ucast n))"
  have "unat n * unat (cg_max_withdrawal_fee_bps cfg) \<le> 2 ^ 64 * 2 ^ 64"
    using unsigned_less [of n, where ?'a = nat]
      unsigned_less [of "cg_max_withdrawal_fee_bps cfg", where ?'a = nat]
    by (intro mult_mono) simp_all
  then have "?c < 2 ^ 256 - 1"
    using unsigned_less [of "cg_max_withdrawal_fee cfg", where ?'a = nat]
    by (simp add: unat_fee_ceiling)
  then show ?thesis
    unfolding word_less_nat_alt unat_saturating_add by (simp add: unat_fee_ceiling [symmetric] not_less)
qed


lemma single_Some [outcome_simps]: "single xs = Some a \<longleftrightarrow> xs = [a]"
  by (auto simp: single_def split: list.splits)

lemma amounts_ok_words:
  "amounts_ok cfg b i secondary \<longleftrightarrow>
     ts_value (bi_spec i) \<noteq> 0 \<and>
     checked_add_u256 (ts_value (bi_spec i)) (bi_maxFee i) = Some (ucast (db_amount b)) \<and>
     \<not> fee_ceiling cfg (ucast (db_amount b)) < saturating_add_u256 (bi_maxFee i) secondary"
  unfolding amounts_ok_def checked_add_Some fee_within_ceiling by (simp add: unat_gt_0)

lemma parse_field_Inr [outcome_simps]: "parse_field p t f = Inr v \<longleftrightarrow> p t = Some v"
  by (simp add: parse_field_def outcome_simps)

lemma route_direct_fee:
  "route_ok x cfg b i h fee secondary \<Longrightarrow>
   \<not> (forwarded_route h \<or> FIRST_REMOTE_DOMAIN \<le> dest_domain (db_items b)) \<Longrightarrow> secondary = 0"
  by (auto simp: route_ok_def)

lemma if_Inl_Inr_iff [outcome_simps]: "(if c then Inl e else r) = Inr v \<longleftrightarrow> \<not> c \<and> r = Inr v"
  by simp

lemma payout_above_fee:
  "value \<noteq> 0 \<Longrightarrow> route_ok x cfg b i h fee secondary \<Longrightarrow>
   \<not> ((forwarded_route h \<or> FIRST_REMOTE_DOMAIN \<le> dest_domain (db_items b)) \<and> value \<le> secondary)
   \<longleftrightarrow> secondary < value"
  by (auto simp: word_gt_0 not_le dest: route_direct_fee)

lemma if_if_Inl: "(if c then if d then Inl e else Inl e' else r) = Inr v \<longleftrightarrow> \<not> c \<and> r = Inr v"
  by simp

lemma verify_parsed:
  assumes "pr_batches response = [batch]" and "pb_burn_intents batch = [raw]"
    and "parse_intent x raw = Inr (i, h)"
  shows "verify x cfg burn response = Inr v \<longleftrightarrow>
     authorizes x cfg burn batch i h \<and> (\<exists>hash. spec_hash x (bi_spec i) = Inr hash \<and>
        v = \<lparr>vb_note_id = db_note_id burn, vb_intent = raw, vb_digest = x_signing_hash x i,
             vb_transfer_spec_hash = hash\<rparr>)"
proof -
  have gate: "verify x cfg burn response = Inr v \<longleftrightarrow>
     db_note_id burn = ts_salt (bi_spec i) \<and>
     (\<exists>fee secondary. forwarding_max_fee cfg (dest_domain (db_items burn)) = Some fee \<and>
        route_ok x cfg burn i h fee secondary \<and>
        hk_remote_domain h = x_miden_domain x \<and>
        hk_remote_depositor h = x_eth_bytes32 x (nt_sender (db_note burn)) \<and>
        hk_remote_token h = x_eth_bytes32 x (cg_faucet_account_id cfg) \<and>
        amounts_ok cfg burn i secondary \<and>
        ts_sourceSigner (bi_spec i) = ts_sourceDepositor (bi_spec i) \<and>
        ts_sourceToken (bi_spec i) = into_word ARC_USDC \<and> ts_sourceDomain (bi_spec i) = ARC_DOMAIN \<and>
        (\<exists>e. x_parse_bytes x (pb_encoded batch) = Some e \<and> intent_encode i = Inr e) \<and>
        x_parse_b256 x (pb_message_hash_to_sign batch) = Some (x_signing_hash x i) \<and>
        \<not> ((forwarded_route h \<or> FIRST_REMOTE_DOMAIN \<le> dest_domain (db_items burn)) \<and>
            ts_value (bi_spec i) \<le> secondary) \<and>
        (\<exists>hash. spec_hash x (bi_spec i) = Inr hash \<and>
        v = \<lparr>vb_note_id = db_note_id burn, vb_intent = raw, vb_digest = x_signing_hash x i,
             vb_transfer_spec_hash = hash\<rparr>))"
    unfolding verify_def assms single_def list.case ok_or_simps and_then_simps prod.case Let_def
      and_then_Inr_iff ok_or_Inr_iff if_Inl_Inr_iff if_if_Inl check_route_Inr parse_field_Inr amounts_ok_words
      sum.inject
    by (auto simp del: de_Morgan_disj)
  have above: "\<not> ((forwarded_route h \<or> FIRST_REMOTE_DOMAIN \<le> dest_domain (db_items burn)) \<and>
      ts_value (bi_spec i) \<le> secondary) \<longleftrightarrow> secondary < ts_value (bi_spec i)"
    if "route_ok x cfg burn i h fee secondary" "amounts_ok cfg burn i secondary" for fee secondary
    using that payout_above_fee by (auto simp: amounts_ok_words)
  show ?thesis
    unfolding gate authorizes_def using above by (auto; blast)
qed

lemma verify_iff:
  "verify x cfg burn response = Inr v \<longleftrightarrow>
     (\<exists>batch raw i h hash. pr_batches response = [batch] \<and> pb_burn_intents batch = [raw] \<and>
        parse_intent x raw = Inr (i, h) \<and> authorizes x cfg burn batch i h \<and>
        spec_hash x (bi_spec i) = Inr hash \<and>
        v = \<lparr>vb_note_id = db_note_id burn, vb_intent = raw, vb_digest = x_signing_hash x i,
             vb_transfer_spec_hash = hash\<rparr>)"
proof
  assume "verify x cfg burn response = Inr v"
  moreover from this obtain batch raw i h where "pr_batches response = [batch]"
    "pb_burn_intents batch = [raw]" "parse_intent x raw = Inr (i, h)"
    by (auto simp: verify_def outcome_simps)
  ultimately show "\<exists>batch raw i h hash. pr_batches response = [batch] \<and> pb_burn_intents batch = [raw] \<and>
        parse_intent x raw = Inr (i, h) \<and> authorizes x cfg burn batch i h \<and>
        spec_hash x (bi_spec i) = Inr hash \<and>
        v = \<lparr>vb_note_id = db_note_id burn, vb_intent = raw, vb_digest = x_signing_hash x i,
             vb_transfer_spec_hash = hash\<rparr>"
    by (auto simp: verify_parsed)
qed (auto simp: verify_parsed)

text \<open>
  C2: \<^verbatim>\<open>verify\<close> accepts exactly the replies that authorize the burn: one batch with one intent,
  whose salt is the burn's note ID, whose route pays the burn's recipient on the burn's domain,
  whose payout plus fee is the burned amount (as numbers, without wrap-around) with the total fee
  under the ceiling and the payout above the secondary fee, and whose encoded bytes and signing
  hash are the ones rebuilt from the checked fields. The result carries that note, that intent,
  that digest and the hash of that spec.
\<close>

theorem verify_exact:
  "verify x cfg burn response = Inr v \<longleftrightarrow>
     (\<exists>batch raw i h hash. pr_batches response = [batch] \<and> pb_burn_intents batch = [raw] \<and>
        parse_intent x raw = Inr (i, h) \<and> authorizes x cfg burn batch i h \<and>
        spec_hash x (bi_spec i) = Inr hash \<and>
        v = \<lparr>vb_note_id = db_note_id burn, vb_intent = raw, vb_digest = x_signing_hash x i,
             vb_transfer_spec_hash = hash\<rparr>)"
  by (rule verify_iff)

section \<open>The encodings lose nothing\<close>

text \<open>
  What a comparison of encoded bytes relies on: an encoder that maps two values to the same bytes
  maps no two different values there.
\<close>

locale lossless_encoder =
  fixes encode :: "'a \<Rightarrow> verify_error + bytes"
  assumes encode_inj: "encode a = Inr e \<Longrightarrow> encode b = Inr e \<Longrightarrow> a = b"
begin

lemma encode_inj_on: "inj_on encode {a. \<exists>e. encode a = Inr e}"
  by (auto intro!: inj_onI dest: encode_inj)

lemma supplied_bytes_identify:
  assumes "parsed = Some e" and "encode a = Inr e" and "parsed = Some e'" and "encode b = Inr e'"
  shows "a = b"
  using assms encode_inj by auto

end

lemma append_with_length_inj:
  assumes "append_with_length out bs = Inr e" and "append_with_length out' bs' = Inr e"
    and "length out = length out'"
  shows "out = out' \<and> bs = bs'"
  using assms by (auto simp: append_with_length_def split: if_splits)

lemma into_word_inj [simp]: "into_word a = into_word b \<longleftrightarrow> a = b"
proof
  assume h: "into_word a = into_word b"
  show "a = b"
  proof (rule bit_word_eqI)
    fix n assume "n < LENGTH(160)"
    then show "bit a n = bit b n"
      using arg_cong [OF h, of "\<lambda>w. bit w n"] by (simp add: into_word_def bit_ucast_iff)
  qed
qed simp

interpretation hook: lossless_encoder hook_encode
proof
  fix a b e assume h: "hook_encode a = Inr e" "hook_encode b = Inr e"
  show "a = b"
    using append_with_length_inj [OF h [unfolded hook_encode_def]] by (cases a, cases b) simp
qed

interpretation spec: lossless_encoder spec_encode
proof
  fix a b e assume h: "spec_encode a = Inr e" "spec_encode b = Inr e"
  show "a = b"
    using append_with_length_inj [OF h [unfolded spec_encode_def]] by (cases a, cases b) simp
qed

interpretation intent: lossless_encoder intent_encode
proof
  fix a b e assume "intent_encode a = Inr e" "intent_encode b = Inr e"
  then obtain s t where st: "spec_encode (bi_spec a) = Inr s" "spec_encode (bi_spec b) = Inr t"
    and h: "append_with_length (BURN_INTENT_MAGIC @ be_bytes 32 (bi_maxBlockHeight a) @ be_bytes 32 (bi_maxFee a)) s = Inr e"
    "append_with_length (BURN_INTENT_MAGIC @ be_bytes 32 (bi_maxBlockHeight b) @ be_bytes 32 (bi_maxFee b)) t = Inr e"
    by (auto simp: intent_encode_def and_then_Inr_iff)
  have eq: "bi_maxBlockHeight a = bi_maxBlockHeight b" "bi_maxFee a = bi_maxFee b" "s = t"
    using append_with_length_inj [OF h] by simp_all
  with st have "bi_spec a = bi_spec b" by (auto intro: spec.encode_inj)
  with eq show "a = b" by (cases a, cases b) simp
qed

text \<open>
  C35: Circle's encoded bytes say everything that is signed: on intents that encode at all,
  the encoding is injective, so two replies with the same accepted bytes carry the same intent,
  down to every field of its spec and hook data.
\<close>

theorem intent_encoding_lossless:
  "inj_on intent_encode {i. \<exists>e. intent_encode i = Inr e} \<and>
   inj_on hook_encode {h. \<exists>e. hook_encode h = Inr e}"
  using intent.encode_inj_on hook.encode_inj_on by blast

text \<open>
  C23: one prepared reply never authorizes two burns, and replies with the same encoded text that
  pass the gate get the same digest, whatever burns they were checked against.
\<close>

theorem verify_binds_one_burn:
  assumes "verify x cfg burn r = Inr v" and "verify x cfg' burn' r' = Inr v'"
    and "map pb_encoded (pr_batches r) = map pb_encoded (pr_batches r')"
  shows "db_note_id burn = db_note_id burn' \<and> vb_digest v = vb_digest v' \<and>
         vb_transfer_spec_hash v = vb_transfer_spec_hash v'"
proof -
  obtain b w i h k where r: "pr_batches r = [b]" "authorizes x cfg burn b i h"
    "spec_hash x (bi_spec i) = Inr k" "vb_digest v = x_signing_hash x i" "vb_transfer_spec_hash v = k"
    using iffD1 [OF verify_iff assms(1)] by auto
  obtain b' w' i' h' k' where r': "pr_batches r' = [b']" "authorizes x cfg' burn' b' i' h'"
    "spec_hash x (bi_spec i') = Inr k'" "vb_digest v' = x_signing_hash x i'" "vb_transfer_spec_hash v' = k'"
    using iffD1 [OF verify_iff assms(2)] by auto
  have "pb_encoded b = pb_encoded b'" using assms(3) r r' by simp
  then have i: "i = i'"
    using r(2) r'(2) unfolding authorizes_def by (auto intro: intent.supplied_bytes_identify)
  with r r' show ?thesis by (auto simp: authorizes_def)
qed

text \<open>
  A concrete burn with a reply that passes the gate, for the witnesses: a direct payout of 99 base
  units with a fee of 1 for a burn of 100, under toy instances of the third-party functions.
\<close>

definition sample_note :: miden_note where
  "sample_note = \<lparr>nt_id = 5, nt_nullifier = 6, nt_script_root = 9,
     nt_attachments = [\<lparr>att_scheme = 1, att_content = []\<rparr>, \<lparr>att_scheme = 2, att_content = []\<rparr>],
     nt_assets = [\<lparr>as_fungible = True, as_faucet = 1, as_amount = 100, as_elements = [1, 100]\<rparr>],
     nt_storage = [1, 100], nt_sender = 3\<rparr>"

definition sample_items :: burn_items where
  "sample_items = \<lparr>dest_domain = 0, dest_recipient = 77\<rparr>"

definition sample_burn :: discovered_burn where
  "sample_burn = \<lparr>db_note = sample_note, db_creation_block = 11, db_consumption_block = 12,
     db_items = sample_items, db_amount = 100\<rparr>"

definition sample_hook :: hook_data where
  "sample_hook = \<lparr>hk_remote_domain = 10006, hk_remote_token = 1, hk_remote_depositor = 3,
     hk_forwarding_contract = 0, hk_forwarding_calldata = []\<rparr>"

definition sample_hook_bytes :: bytes where
  "sample_hook_bytes = (case hook_encode sample_hook of Inl _ \<Rightarrow> [] | Inr b \<Rightarrow> b)"

definition sample_spec :: transfer_spec where
  "sample_spec = \<lparr>ts_version = 1, ts_sourceDomain = 26, ts_destinationDomain = 0,
     ts_sourceContract = 0, ts_destinationContract = 0, ts_sourceToken = into_word ARC_USDC,
     ts_destinationToken = 0, ts_sourceDepositor = 0, ts_destinationRecipient = 77,
     ts_sourceSigner = 0, ts_destinationCaller = 0, ts_value = 99, ts_salt = 5,
     ts_hookData = sample_hook_bytes\<rparr>"

definition sample_intent :: burn_intent where
  "sample_intent = \<lparr>bi_maxBlockHeight = 0, bi_maxFee = 1, bi_spec = sample_spec\<rparr>"

definition sample_encoded :: bytes where
  "sample_encoded = (case intent_encode sample_intent of Inl _ \<Rightarrow> [] | Inr b \<Rightarrow> b)"

definition sample_ext :: ext where
  "sample_ext = \<lparr>x_burn_script_root = 9, x_target_scheme = 1, x_withdrawal_scheme = 2,
     x_network_target = (\<lambda>_. Some 1), x_burn_items = (\<lambda>_. Some sample_items),
     x_note_to_bytes = (\<lambda>n. be_bytes 32 (nt_id n)),
     x_note_from_bytes = (\<lambda>b. if b = be_bytes 32 (5 :: u256) then Some sample_note else None),
     x_block_validate = (\<lambda>_ _. True), x_note_hex = (\<lambda>_. ''0x05''), x_eth_bytes32 = (\<lambda>a. a),
     x_miden_domain = 10006,
     x_parse_b256 = (\<lambda>s. if s = ''usdc'' then Some (into_word ARC_USDC) else if s = ''5'' then Some 5
        else if s = ''3'' then Some 3 else if s = ''1'' then Some 1 else if s = ''77'' then Some 77
        else if s = ''42'' then Some 42 else if s = ''8'' then Some 8 else Some 0),
     x_parse_address = (\<lambda>_. Some 0),
     x_parse_bytes = (\<lambda>s. if s = ''encoded'' then Some sample_encoded else Some []),
     x_u256_radix10 = (\<lambda>s. if s = ''99'' then Some 99 else if s = ''1'' then Some 1 else Some 0),
     x_keccak256 = (\<lambda>_. 8), x_signing_hash = (\<lambda>_. 42),
     x_cctp_decode = (\<lambda>_. None), x_cctp_encode = (\<lambda>_. []),
     x_redeposit_decode = (\<lambda>_. None), x_redeposit_encode = (\<lambda>_. []),
     x_json_value = (\<lambda>_. None), x_json_to_vec = (\<lambda>_. Some [7]),
     x_de_withdrawal = (\<lambda>b. if b = [1] then Some \<lparr>wr_withdrawal_id = ''00000000-0000-4000-8000-000000000001'',
        wr_burn_note_id = ''0x05'', wr_status = ''confirmed'', wr_transfer_spec_hashes = [''8''],
        wr_failure_reason = None\<rparr> else None),
     x_de_withdrawals = (\<lambda>b. if b = [1] then Some [\<lparr>wr_withdrawal_id = ''00000000-0000-4000-8000-000000000001'',
        wr_burn_note_id = ''0x05'', wr_status = ''confirmed'', wr_transfer_spec_hashes = [''8''],
        wr_failure_reason = None\<rparr>] else None),
     x_de_conflict = (\<lambda>_. None), x_de_prepare = (\<lambda>_. None),
     x_de_saved_request = (\<lambda>b. if b = [7] then Some ''0x05'' else None),
     x_url_scheme = (\<lambda>_. ''https''), x_url_has_host = (\<lambda>_. True), x_url_path = (\<lambda>_. ''/v1/withdraw''),
     x_url_join = (\<lambda>b p. Some (b @ p)), x_url_push = (\<lambda>b p. Some (b @ p)),
     x_status_display = (\<lambda>n. show_nat n), x_hex_encode = (\<lambda>_. [])\<rparr>"

definition sample_raw :: raw_burn_intent where
  "sample_raw = \<lparr>ri_max_block_height = ''0'', ri_max_fee = ''1'',
     ri_spec = \<lparr>rs_version = 1, rs_source_domain = 26, rs_destination_domain = 0,
       rs_source_contract = ''0'', rs_destination_contract = ''0'', rs_source_token = ''usdc'',
       rs_destination_token = ''0'', rs_source_depositor = ''0'', rs_destination_recipient = ''77'',
       rs_source_signer = ''0'', rs_destination_caller = ''0'', rs_value = ''99'', rs_salt = ''5'',
       rs_hook_data = \<lparr>sh_remote_domain = 10006, sh_remote_depositor = ''3'', sh_remote_token = ''1'',
         sh_forwarding_contract_address = ''0'', sh_forwarding_calldata = []\<rparr>\<rparr>\<rparr>"

definition sample_reply :: prepare_response where
  "sample_reply = \<lparr>pr_batches = [\<lparr>pb_burn_intents = [sample_raw], pb_encoded = ''encoded'',
     pb_message_hash_to_sign = ''42''\<rparr>]\<rparr>"

definition sample_batch :: verified_batch where
  "sample_batch = \<lparr>vb_note_id = 5, vb_intent = sample_raw, vb_digest = 42, vb_transfer_spec_hash = 8\<rparr>"

lemma sample_hook_encodes: "hook_encode sample_hook = Inr sample_hook_bytes"
  by (simp add: sample_hook_bytes_def hook_encode_def append_with_length_def sample_hook_def)

lemma length_sample_hook_bytes: "length sample_hook_bytes = 112"
  by (simp add: sample_hook_bytes_def hook_encode_def append_with_length_def sample_hook_def
      WITHDRAW_HOOK_DATA_MAGIC_def)

lemma sample_intent_encodes: "\<exists>s. intent_encode sample_intent = Inr sample_encoded \<and> spec_encode sample_spec = Inr s"
proof -
  obtain s where s: "spec_encode sample_spec = Inr s" "length s = 452"
    by (simp add: spec_encode_def append_with_length_def sample_spec_def length_sample_hook_bytes
        TRANSFER_SPEC_MAGIC_def)
  then have "intent_encode sample_intent = Inr sample_encoded"
    by (simp add: sample_encoded_def intent_encode_def sample_intent_def append_with_length_def)
  with s show ?thesis by blast
qed

lemma sample_parses: "parse_intent sample_ext sample_raw = Inr (sample_intent, sample_hook)"
  by (simp add: parse_intent_def sample_raw_def hook_parse_def parse_field_def decimal_def
      is_ascii_digit_def Let_def sample_ext_def sample_intent_def sample_spec_def
      sample_hook_encodes [unfolded sample_hook_def] sample_hook_def)

lemma sample_intent_fields:
  "bi_spec sample_intent = sample_spec" "bi_maxFee sample_intent = 1"
  by (simp_all add: sample_intent_def)

lemma sample_authorizes:
  "authorizes sample_ext sample_config sample_burn (hd (pr_batches sample_reply)) sample_intent sample_hook"
  using sample_intent_encodes
  by (auto simp: authorizes_def sample_reply_def sample_intent_fields sample_spec_def sample_burn_def
      sample_note_def db_note_id_def sample_hook_def sample_ext_def sample_config_def ARC_DOMAIN_def
      forwarding_max_fee_def sample_items_def STACKS_DOMAIN_def CARDANO_DOMAIN_def MOVEMENT_DOMAIN_def
      FIRST_REMOTE_DOMAIN_def route_ok_def direct_route_def forwarded_route_def amounts_ok_def)

lemma sample_verifies: "verify sample_ext sample_config sample_burn sample_reply = Inr sample_batch"
proof -
  obtain s where "spec_encode sample_spec = Inr s" using sample_intent_encodes by blast
  then have "spec_hash sample_ext (bi_spec sample_intent) = Inr 8"
    by (simp add: spec_hash_def sample_intent_fields sample_ext_def)
  then show ?thesis
    using sample_authorizes sample_parses
    by (simp add: verify_parsed [of _ "hd (pr_batches sample_reply)" sample_raw] sample_reply_def
        sample_batch_def sample_burn_def sample_note_def db_note_id_def)
      (simp add: sample_ext_def)
qed

theorem verify_binds_one_burn_witness:
  "verify sample_ext sample_config sample_burn sample_reply = Inr sample_batch \<and>
   db_note_id sample_burn = 5 \<and> vb_digest sample_batch = vb_digest sample_batch"
  using verify_binds_one_burn [OF sample_verifies sample_verifies refl] sample_verifies
  by (simp add: db_note_id_def sample_burn_def sample_note_def)

text \<open>A remote burn that cannot pay its secondary fee is never authorized.\<close>

lemma remote_needs_fee:
  assumes "authorizes x cfg b batch i h" and "FIRST_REMOTE_DOMAIN \<le> dest_domain (db_items b)"
  shows "\<exists>fee. cg_xreserve_deposit_max_fee cfg = Some fee \<and> fee < db_amount b"
proof -
  obtain fee s where f: "forwarding_max_fee cfg (dest_domain (db_items b)) = Some fee"
    and "route_ok x cfg b i h fee s" and a: "amounts_ok cfg b i s" and lt: "s < ts_value (bi_spec i)"
    using assms(1) by (auto simp: authorizes_def)
  then have "s = ucast fee" using assms(2) by (simp add: route_ok_def)
  with a lt have "unat fee < unat (db_amount b)"
    by (simp add: amounts_ok_def word_less_nat_alt unat_ucast_u64)
  then show ?thesis using forwarding_max_fee_remote [OF assms(2) f] by (simp add: word_less_nat_alt)
qed

end
