(* ===== verification/Signer.thy ===== *)
theory Signer
  imports Verify
begin

text \<open>
  \<^verbatim>\<open>crates/xusdc-light-attester/src/signer.rs\<close> and \<^verbatim>\<open>signer/kms.rs\<close>: the two signers, the order in
  which their signatures go to Circle, the comparison with the configured keys, and what is
  checked before an AWS KMS answer becomes a signature. Curve arithmetic, DER and hex decoding
  belong to \<^verbatim>\<open>k256\<close>, \<^verbatim>\<open>alloy\<close> and \<^verbatim>\<open>hex\<close>: they are the fields of the record \<open>secp\<close>.
\<close>

section \<open>Keys\<close>

record ecdsa =
  sig_r :: u256
  sig_s :: u256

record recovery_id =
  rec_y_odd :: bool
  rec_x_reduced :: bool

text \<open>A public key is its compressed SEC1 encoding (33 bytes).\<close>

type_synonym signing_public_key = bytes
type_synonym signer_error = string

record secp =
  sp_hex_decode :: "nat \<Rightarrow> string \<Rightarrow> bytes option"
  sp_valid_point :: "bytes \<Rightarrow> bool"
  sp_address :: "bytes \<Rightarrow> address"
  sp_public_key_der :: "bytes \<Rightarrow> bytes option"
  sp_signature_der :: "bytes \<Rightarrow> ecdsa option"
  sp_normalize_s :: "ecdsa \<Rightarrow> ecdsa option"
  sp_verify_prehash :: "bytes \<Rightarrow> b256 \<Rightarrow> ecdsa \<Rightarrow> bool"
  sp_trial_recovery :: "bytes \<Rightarrow> b256 \<Rightarrow> ecdsa \<Rightarrow> recovery_id option"
  sp_signature_text :: "ecdsa \<Rightarrow> bool \<Rightarrow> string"

definition strip_0x :: "string \<Rightarrow> string" where
  "strip_0x s = (if take 2 s = ''0x'' then drop 2 s else s)"

definition decode_hex :: "secp \<Rightarrow> nat \<Rightarrow> string \<Rightarrow> bytes option" where
  "decode_hex k n value = sp_hex_decode k n (strip_0x value)"

definition from_compressed :: "secp \<Rightarrow> bytes \<Rightarrow> signer_error + signing_public_key" where
  "from_compressed k b =
     (if sp_valid_point k b then Inr b else Inl ''public key is not a valid secp256k1 point'')"

definition from_hex :: "secp \<Rightarrow> string \<Rightarrow> signer_error + signing_public_key" where
  "from_hex k value =
     and_then (ok_or (decode_hex k 33 value) ''public key is not 33 bytes of hex'') (from_compressed k)"

definition key_address :: "secp \<Rightarrow> signing_public_key \<Rightarrow> signer_error + address" where
  "key_address k b =
     (if sp_valid_point k b then Inr (sp_address k b)
      else Inl ''signer public key is not a valid secp256k1 point'')"

section \<open>The pair of signers\<close>

record signer =
  sg_public_key :: "signer_error + signing_public_key"
  sg_sign_digest :: "b256 \<Rightarrow> signer_error + string"

record signer_pair =
  sp_signers :: "signer \<times> signer"
  sp_public_keys :: "signing_public_key \<times> signing_public_key"

definition read_key :: "signer \<Rightarrow> signer_error + signing_public_key" where
  "read_key s = (case sg_public_key s of
       Inl _ \<Rightarrow> Inl ''could not read a signing provider's public key''
     | Inr key \<Rightarrow> Inr key)"

definition signer_pair_new :: "secp \<Rightarrow> signer \<times> signer \<Rightarrow> signer_error + signer_pair" where
  "signer_pair_new k = (\<lambda>(s0, s1).
     and_then (read_key s0) (\<lambda>k0.
     and_then (read_key s1) (\<lambda>k1.
     if k0 = k1 then Inl ''the two signing providers hold the same key''
     else and_then (key_address k k1) (\<lambda>a1.
          and_then (key_address k k0) (\<lambda>a0.
          if a1 < a0 then Inr \<lparr>sp_signers = (s1, s0), sp_public_keys = (k1, k0)\<rparr>
          else Inr \<lparr>sp_signers = (s0, s1), sp_public_keys = (k0, k1)\<rparr>)))))"

definition check_expected :: "secp \<Rightarrow> signer_pair \<Rightarrow> string list \<Rightarrow> signer_error + unit" where
  "check_expected k p expected_hex = (case expected_hex of
       [first, second] \<Rightarrow>
         and_then (case from_hex k first of Inl _ \<Rightarrow> Inl ''configured signing public key is invalid'' | Inr e \<Rightarrow> Inr e) (\<lambda>e0.
         and_then (case from_hex k second of Inl _ \<Rightarrow> Inl ''configured signing public key is invalid'' | Inr e \<Rightarrow> Inr e) (\<lambda>e1.
         if e0 = e1 then Inl ''the two configured signing public keys must differ''
         else if \<not> (fst (sp_public_keys p) \<in> {e0, e1} \<and> snd (sp_public_keys p) \<in> {e0, e1})
           then Inl ''loaded signing public keys do not match configuration''
         else Inr ()))
     | _ \<Rightarrow> Inl ''exactly two signing public keys must be configured'')"

definition pair_signing :: "signer_pair \<Rightarrow> (b256 \<Rightarrow> signer_error + string) \<times> (b256 \<Rightarrow> signer_error + string)" where
  "pair_signing p = (sg_sign_digest (fst (sp_signers p)), sg_sign_digest (snd (sp_signers p)))"

section \<open>AWS KMS answers\<close>

datatype key_state = KeyEnabled | OtherKeyState
datatype key_spec = EccSecgP256K1 | OtherKeySpec
datatype key_usage = SignVerify | OtherKeyUsage
datatype signing_algorithm = EcdsaSha256 | OtherAlgorithm

record key_metadata =
  md_arn :: "string option"
  md_enabled :: bool
  md_key_state :: "key_state option"
  md_key_spec :: "key_spec option"
  md_key_usage :: "key_usage option"

record get_public_key_output =
  gp_key_id :: "string option"
  gp_key_spec :: "key_spec option"
  gp_key_usage :: "key_usage option"
  gp_signing_algorithms :: "signing_algorithm list"
  gp_public_key :: "bytes option"

record sign_output =
  so_key_id :: "string option"
  so_signing_algorithm :: "signing_algorithm option"
  so_signature :: "bytes option"

definition check_key_metadata :: "key_metadata option \<Rightarrow> string \<Rightarrow> signer_error + unit" where
  "check_key_metadata metadata key_arn =
     and_then (ok_or metadata ''AWS KMS described the key without its metadata'') (\<lambda>m.
     if md_arn m \<noteq> Some key_arn \<or> \<not> md_enabled m \<or> md_key_state m \<noteq> Some KeyEnabled \<or>
        md_key_spec m \<noteq> Some EccSecgP256K1 \<or> md_key_usage m \<noteq> Some SignVerify
     then Inl ''AWS KMS key is not the enabled secp256k1 signing key with this ARN''
     else Inr ())"

definition public_key_from_response :: "secp \<Rightarrow> get_public_key_output \<Rightarrow> string \<Rightarrow> signer_error + bytes" where
  "public_key_from_response k r key_arn =
     (if gp_key_id r \<noteq> Some key_arn \<or> gp_key_spec r \<noteq> Some EccSecgP256K1 \<or>
         gp_key_usage r \<noteq> Some SignVerify \<or> EcdsaSha256 \<notin> set (gp_signing_algorithms r)
      then Inl ''AWS KMS public key is not the secp256k1 signing key with this ARN''
      else and_then (ok_or (gp_public_key r) ''AWS KMS returned no public key'') (\<lambda>spki.
           ok_or (sp_public_key_der k spki) ''AWS KMS public key is not a secp256k1 key''))"

definition signature_from_der :: "secp \<Rightarrow> b256 \<Rightarrow> bytes \<Rightarrow> bytes \<Rightarrow> signer_error + (ecdsa \<times> bool)" where
  "signature_from_der k digest der key =
     and_then (ok_or (sp_signature_der k der) ''AWS KMS signature is not DER'') (\<lambda>raw.
     let signature = (case sp_normalize_s k raw of None \<Rightarrow> raw | Some s \<Rightarrow> s) in
     if \<not> sp_verify_prehash k key digest signature
       then Inl ''AWS KMS signature does not verify with its key''
     else and_then (ok_or (sp_trial_recovery k key digest signature)
         ''AWS KMS signature has no recovery ID'') (\<lambda>recovery.
     if rec_x_reduced recovery then Inl ''signature has an x-reduced recovery ID''
     else Inr (signature, rec_y_odd recovery)))"

definition signature_from_response ::
    "secp \<Rightarrow> sign_output \<Rightarrow> string \<Rightarrow> b256 \<Rightarrow> bytes \<Rightarrow> signer_error + (ecdsa \<times> bool)" where
  "signature_from_response k r key_arn digest key =
     (if so_key_id r \<noteq> Some key_arn \<or> so_signing_algorithm r \<noteq> Some EcdsaSha256
      then Inl ''AWS KMS signed with another key or algorithm''
      else and_then (ok_or (so_signature r) ''AWS KMS returned no signature'') (\<lambda>der.
           signature_from_der k digest der key))"

section \<open>Properties\<close>

lemma key_address_Inr [outcome_simps]:
  "key_address k b = Inr a \<longleftrightarrow> sp_valid_point k b \<and> a = sp_address k b"
  by (auto simp: key_address_def)

lemma from_hex_Inr [outcome_simps]:
  "from_hex k t = Inr b \<longleftrightarrow> decode_hex k 33 t = Some b \<and> sp_valid_point k b"
  by (auto simp: from_hex_def from_compressed_def outcome_simps)

lemma signer_pair_new_Inr:
  assumes "signer_pair_new k (s0, s1) = Inr p"
  shows "fst (sp_public_keys p) \<noteq> snd (sp_public_keys p)"
    and "sp_address k (fst (sp_public_keys p)) \<le> sp_address k (snd (sp_public_keys p))"
    and "sp_signers p \<in> {(s0, s1), (s1, s0)}"
    and "sg_public_key (fst (sp_signers p)) = Inr (fst (sp_public_keys p))"
    and "sg_public_key (snd (sp_signers p)) = Inr (snd (sp_public_keys p))"
  using assms
  by (auto simp: signer_pair_new_def outcome_simps read_key_def split: if_splits sum.splits)

text \<open>
  a pair that the attester starts with holds two different keys, in ascending order of signer
  address, each next to the signer that reported it, and exactly the two configured keys: no
  configured key is missing and no other key signs.
\<close>

theorem signer_pair_checked:
  assumes "signer_pair_new k (s0, s1) = Inr p" and "check_expected k p expected = Inr ()"
  shows "sp_address k (fst (sp_public_keys p)) \<le> sp_address k (snd (sp_public_keys p)) \<and>
         fst (sp_public_keys p) \<noteq> snd (sp_public_keys p) \<and>
         sg_public_key (fst (sp_signers p)) = Inr (fst (sp_public_keys p)) \<and>
         sg_public_key (snd (sp_signers p)) = Inr (snd (sp_public_keys p)) \<and>
         {fst (sp_public_keys p), snd (sp_public_keys p)} = {b. \<exists>t \<in> set expected. from_hex k t = Inr b}"
proof -
  obtain t0 t1 e0 e1 where e: "expected = [t0, t1]" "from_hex k t0 = Inr e0" "from_hex k t1 = Inr e1"
    "e0 \<noteq> e1" "fst (sp_public_keys p) \<in> {e0, e1}" "snd (sp_public_keys p) \<in> {e0, e1}"
    using assms(2)
    by (auto simp: check_expected_def and_then_Inr_iff split: list.splits sum.splits if_splits)
  have ne: "fst (sp_public_keys p) \<noteq> snd (sp_public_keys p)" by (rule signer_pair_new_Inr [OF assms(1)])
  have "{b. \<exists>t \<in> set expected. from_hex k t = Inr b} = {e0, e1}" using e by auto
  also have "\<dots> = {fst (sp_public_keys p), snd (sp_public_keys p)}" using e ne by auto
  finally show ?thesis using signer_pair_new_Inr [OF assms(1)] by simp
qed

definition sample_secp :: secp where
  "sample_secp = \<lparr>sp_hex_decode = (\<lambda>_ s. Some (map of_char s)), sp_valid_point = (\<lambda>_. True),
     sp_address = (\<lambda>b. if b = [97] then 2 else 1), sp_public_key_der = Some,
     sp_signature_der = (\<lambda>_. Some \<lparr>sig_r = 1, sig_s = 1\<rparr>), sp_normalize_s = (\<lambda>_. None),
     sp_verify_prehash = (\<lambda>_ _ _. True),
     sp_trial_recovery = (\<lambda>_ _ _. Some \<lparr>rec_y_odd = False, rec_x_reduced = False\<rparr>),
     sp_signature_text = (\<lambda>_ _. ''sig'')\<rparr>"

definition sample_signer :: "char \<Rightarrow> signer" where
  "sample_signer c = \<lparr>sg_public_key = Inr [of_char c], sg_sign_digest = (\<lambda>_. Inr [c])\<rparr>"

definition sample_pair :: signer_pair where
  "sample_pair = \<lparr>sp_signers = (sample_signer (CHR ''b''), sample_signer (CHR ''a'')),
     sp_public_keys = ([98], [97])\<rparr>"

theorem signer_pair_checked_witness:
  "signer_pair_new sample_secp (sample_signer (CHR ''a''), sample_signer (CHR ''b'')) = Inr sample_pair \<and>
   sp_address sample_secp (fst (sp_public_keys sample_pair)) \<le> sp_address sample_secp (snd (sp_public_keys sample_pair))"
proof -
  have n: "signer_pair_new sample_secp (sample_signer (CHR ''a''), sample_signer (CHR ''b'')) = Inr sample_pair"
    by (simp add: signer_pair_new_def sample_secp_def sample_signer_def read_key_def key_address_def
        sample_pair_def)
  have c: "check_expected sample_secp sample_pair [''0xa'', ''b''] = Inr ()"
    by (simp add: check_expected_def from_hex_def decode_hex_def strip_0x_def from_compressed_def
        sample_secp_def sample_pair_def)
  show ?thesis using signer_pair_checked [OF n c] n by blast
qed

text \<open>
  C37: a KMS answer becomes a signature only when KMS names the pinned key and ECDSA over SHA-256,
  the signature verifies over the very digest that was requested under the pinned key, it is in
  normal form (a second normalization changes nothing, for a normalizer that is idempotent), and
  its recovery ID can be written as a parity bit.
\<close>

theorem kms_signature_checked:
  assumes "signature_from_response k r key_arn digest key = Inr (s, parity)"
    and "\<forall>a b. sp_normalize_s k a = Some b \<longrightarrow> sp_normalize_s k b = None"
  shows "so_key_id r = Some key_arn \<and> so_signing_algorithm r = Some EcdsaSha256 \<and>
         sp_verify_prehash k key digest s \<and> sp_normalize_s k s = None \<and>
         sp_trial_recovery k key digest s = Some \<lparr>rec_y_odd = parity, rec_x_reduced = False\<rparr>"
proof -
  obtain der raw rec where "so_key_id r = Some key_arn" "so_signing_algorithm r = Some EcdsaSha256"
    and raw: "sp_signature_der k der = Some raw" "s = (case sp_normalize_s k raw of None \<Rightarrow> raw | Some t \<Rightarrow> t)"
    and "sp_verify_prehash k key digest s" "sp_trial_recovery k key digest s = Some rec"
    "\<not> rec_x_reduced rec" "parity = rec_y_odd rec"
    using assms(1)
    by (auto simp: signature_from_response_def signature_from_der_def and_then_Inr_iff ok_or_Inr_iff
        Let_def split: if_splits)
  moreover have "sp_normalize_s k s = None" using raw(2) assms(2) by (auto split: option.splits)
  ultimately show ?thesis by (cases rec) auto
qed

theorem kms_signature_checked_witness:
  "signature_from_response sample_secp \<lparr>so_key_id = Some ''arn'', so_signing_algorithm = Some EcdsaSha256,
     so_signature = Some []\<rparr> ''arn'' 42 [97] = Inr (\<lparr>sig_r = 1, sig_s = 1\<rparr>, False) \<and>
   sp_normalize_s sample_secp \<lparr>sig_r = 1, sig_s = 1\<rparr> = None"
proof -
  have n: "signature_from_response sample_secp \<lparr>so_key_id = Some ''arn'',
      so_signing_algorithm = Some EcdsaSha256, so_signature = Some []\<rparr> ''arn'' 42 [97] =
      Inr (\<lparr>sig_r = 1, sig_s = 1\<rparr>, False)"
    by (simp add: signature_from_response_def signature_from_der_def sample_secp_def)
  have i: "\<forall>a b. sp_normalize_s sample_secp a = Some b \<longrightarrow> sp_normalize_s sample_secp b = None"
    by (simp add: sample_secp_def)
  show ?thesis using kms_signature_checked [OF n i] n by blast
qed

text \<open>Signing keeps the batch and the pair's order, and never yields a partial result.\<close>

lemma sign_Inr [outcome_simps]:
  "sign signers batch = Inr w \<longleftrightarrow>
     sw_batch w = batch \<and> fst signers (vb_digest batch) = Inr (fst (sw_signatures w)) \<and>
     snd signers (vb_digest batch) = Inr (snd (sw_signatures w))"
  by (cases w) (auto simp: sign_def and_then_Inr_iff)

lemma submission_fields:
  assumes "submission x w endpoint = Some saved"
  shows "sv_note_id saved = vb_note_id (sw_batch w) \<and> sv_status saved = Submitting \<and>
         sv_transfer_spec_hash saved = vb_transfer_spec_hash (sw_batch w) \<and>
         sv_withdrawal_id saved = None \<and> sv_hold_reason saved = None \<and> sv_endpoint saved = endpoint"
  using assms by (auto simp: submission_def)

end
