(* ===== verification/Submission.thy ===== *)
theory Submission
  imports Signer Telemetry
begin

text \<open>
  \<^verbatim>\<open>crates/xusdc-light-attester/src/submission.rs\<close>, the part that reads Circle's answers: how a
  saved request changes when Circle answers, conflicts, holds or expires it. The network and the
  store are in \<open>Attester\<close>.
\<close>

section \<open>Errors of a withdrawal attempt\<close>

text \<open>
  What the store's \<^verbatim>\<open>anyhow::Error\<close> says: the two fixed messages \<^verbatim>\<open>INVALID\<close> and \<^verbatim>\<open>CONFLICT\<close>, a
  failed or locked query, or a retry deadline that cannot be computed.
\<close>

datatype store_error =
    StoreInvalid
  | StoreConflict
  | StoreQueryFailed
  | StoreRetry retry_error
  | StoreNoLimitPolicy

datatype submit_error =
    InvalidRequest circle_error
  | StoreError store_error
  | Encoding
  | Prepare circle_error
  | Verification verify_error
  | Signing signer_error

fun is_fatal :: "submit_error \<Rightarrow> bool" where
  "is_fatal (StoreError _) = True"
| "is_fatal _ = False"

fun submit_failure :: "submit_error \<Rightarrow> failure_class" where
  "submit_failure (InvalidRequest _) = Actionable ''invalid_request''"
| "submit_failure (StoreError _) = Actionable ''store''"
| "submit_failure Encoding = Actionable ''encoding''"
| "submit_failure (Prepare e) = (case e of
       UnexpectedPrepareStatus status body \<Rightarrow>
         if status = HTTP_BAD_REQUEST then Actionable ''prepare_rejected'' else circle_failure e
     | _ \<Rightarrow> circle_failure e)"
| "submit_failure (Verification e) = verify_failure e"
| "submit_failure (Signing _) = Actionable ''signing''"

section \<open>Circle's withdrawal IDs\<close>

definition is_well_formed_id :: "string \<Rightarrow> bool" where
  "is_well_formed_id s \<longleftrightarrow> length s = 36 \<and>
     list_all (\<lambda>(index, byte). if index \<in> {8, 13, 18, 23} then byte = CHR ''-'' else is_ascii_hexdigit byte)
       (enumerate 0 s)"

definition matches_note :: "ext \<Rightarrow> saved_submission \<Rightarrow> string \<Rightarrow> bool" where
  "matches_note x saved s \<longleftrightarrow> eq_ignore_ascii_case s (x_note_hex x (sv_note_id saved))"

section \<open>Reading Circle's answers\<close>

definition hold :: "hold_reason \<Rightarrow> string \<Rightarrow> saved_submission \<Rightarrow> saved_submission" where
  "hold reason message saved =
     saved\<lparr>sv_status := Held, sv_hold_reason := Some reason, sv_last_error := Some message\<rparr>"

definition set_error :: "string \<Rightarrow> saved_submission \<Rightarrow> saved_submission" where
  "set_error message saved = saved\<lparr>sv_last_error := Some message\<rparr>"

text \<open>The result pairs the failure, if any, with the request as the reply left it.\<close>

definition no_conflict_id :: "saved_submission \<Rightarrow> failure_class option \<times> saved_submission" where
  "no_conflict_id saved =
     (Some (Transient ''conflict_without_id''), set_error ''conflict has no withdrawal ID yet'' saved)"

definition read_conflict :: "ext \<Rightarrow> saved_submission \<Rightarrow> failure_class option \<times> saved_submission" where
  "read_conflict x saved =
     (case Option.bind (Option.bind (sv_last_response saved) (x_de_conflict x)) (\<lambda>c. c) of
        None \<Rightarrow> no_conflict_id saved
      | Some conflict \<Rightarrow>
          if (case wc_burn_note_id conflict of None \<Rightarrow> False | Some i \<Rightarrow> \<not> matches_note x saved i)
          then (Some (Integrity ''wrong_burn''), set_error ''conflict names another burn note'' saved)
          else (case wc_withdrawal_id conflict of
              None \<Rightarrow> no_conflict_id saved
            | Some i \<Rightarrow>
                if trim i = [] then no_conflict_id saved
                else if \<not> is_well_formed_id i
                then (Some (Integrity ''malformed_withdrawal_id''),
                      set_error ''conflict names a malformed withdrawal ID'' saved)
                else (None, saved\<lparr>sv_withdrawal_id := Some i\<rparr>)))"

definition identifies_saved :: "ext \<Rightarrow> saved_submission \<Rightarrow> withdrawal_response \<Rightarrow> bool" where
  "identifies_saved x saved w \<longleftrightarrow>
     \<not> (\<not> is_well_formed_id (wr_withdrawal_id w) \<or> \<not> matches_note x saved (wr_burn_note_id w) \<or>
        length (wr_transfer_spec_hashes w) \<noteq> 1 \<or>
        x_parse_b256 x (hd (wr_transfer_spec_hashes w)) \<noteq> Some (sv_transfer_spec_hash saved) \<or>
        (case sv_withdrawal_id saved of None \<Rightarrow> False | Some i \<Rightarrow> i \<noteq> wr_withdrawal_id w))"

definition apply_status :: "withdrawal_response \<Rightarrow> saved_submission \<Rightarrow> failure_class option \<times> saved_submission" where
  "apply_status w saved =
     (let st = wr_status w in
      if st = ''created'' \<or> st = ''verified'' \<or> st = ''confirmed'' then (None, saved\<lparr>sv_status := Submitted\<rparr>)
      else if st = ''finalized'' then (None, saved\<lparr>sv_status := Finalized\<rparr>)
      else if st = ''expired'' then (None, saved\<lparr>sv_status := Expired\<rparr>)
      else if st = ''failed''
        then (Some (Actionable ''withdrawal_failed''),
              saved\<lparr>sv_last_error := wr_failure_reason w, sv_status := Failed\<rparr>)
      else (Some (Transient ''unknown_status''),
            set_error ''Circle returned an unknown withdrawal status'' saved))"

definition parse_withdrawal ::
    "ext \<Rightarrow> bool \<Rightarrow> bytes \<Rightarrow> withdrawal_response option option" where
  "parse_withdrawal x lookup body =
     (if lookup then Some (x_de_withdrawal x body)
      else (case x_de_withdrawals x body of
          None \<Rightarrow> Some None
        | Some [] \<Rightarrow> Some None
        | Some [w] \<Rightarrow> Some (Some w)
        | Some _ \<Rightarrow> None))"

definition read_response :: "ext \<Rightarrow> raw_response \<Rightarrow> saved_submission \<Rightarrow> failure_class option \<times> saved_submission" where
  "read_response x response saved =
     (let lookup = (sv_withdrawal_id saved \<noteq> None);
          expected_status = (if lookup then HTTP_OK else HTTP_CREATED) in
      if rr_status response \<noteq> expected_status then
        if \<not> lookup \<and> rr_status response = HTTP_BAD_REQUEST
        then (Some (Actionable ''withdrawal_held''),
              hold HttpRejected ''HTTP response needs operator review'' saved)
        else let saved = set_error (''Circle returned HTTP '' @ x_status_display x (rr_status response)) saved in
          if rr_status response = HTTP_TOO_MANY_REQUESTS then (Some (Transient ''rate_limited''), saved)
          else (Some (Transient ''unexpected_status''), saved)
      else (case parse_withdrawal x lookup (rr_body response) of
          None \<Rightarrow> (Some (Integrity ''extra_withdrawals''),
                   set_error ''response contains extra withdrawals'' saved)
        | Some None \<Rightarrow> (Some (Transient ''invalid_response''),
                   set_error ''Circle returned an incomplete or malformed response'' saved)
        | Some (Some w) \<Rightarrow>
            if \<not> identifies_saved x saved w
            then (Some (Integrity ''wrong_withdrawal''),
                  set_error ''response does not identify the saved withdrawal'' saved)
            else apply_status w (saved\<lparr>sv_withdrawal_id := Some (wr_withdrawal_id w)\<rparr>)))"

section \<open>Properties\<close>

lemma set_error_simps [simp]:
  "sv_note_id (set_error m s) = sv_note_id s" "sv_endpoint (set_error m s) = sv_endpoint s"
  "sv_body (set_error m s) = sv_body s" "sv_transfer_spec_hash (set_error m s) = sv_transfer_spec_hash s"
  "sv_status (set_error m s) = sv_status s" "sv_withdrawal_id (set_error m s) = sv_withdrawal_id s"
  "sv_hold_reason (set_error m s) = sv_hold_reason s"
  "sv_last_http_status (set_error m s) = sv_last_http_status s"
  "sv_last_response (set_error m s) = sv_last_response s"
  by (simp_all add: set_error_def)

lemma hold_simps [simp]:
  "sv_note_id (hold r m s) = sv_note_id s" "sv_endpoint (hold r m s) = sv_endpoint s"
  "sv_body (hold r m s) = sv_body s" "sv_transfer_spec_hash (hold r m s) = sv_transfer_spec_hash s"
  "sv_status (hold r m s) = Held" "sv_withdrawal_id (hold r m s) = sv_withdrawal_id s"
  "sv_hold_reason (hold r m s) = Some r" "sv_last_http_status (hold r m s) = sv_last_http_status s"
  "sv_last_response (hold r m s) = sv_last_response s"
  by (simp_all add: hold_def)

text \<open>The signed request itself: what no answer of Circle may change.\<close>

definition same_request :: "saved_submission \<Rightarrow> saved_submission \<Rightarrow> bool" where
  "same_request s t \<longleftrightarrow> sv_note_id s = sv_note_id t \<and> sv_endpoint s = sv_endpoint t \<and>
     sv_body s = sv_body t \<and> sv_transfer_spec_hash s = sv_transfer_spec_hash t"

lemma same_request_refl [simp]: "same_request s s"
  by (simp add: same_request_def)

lemma same_request_trans: "same_request a b \<Longrightarrow> same_request b c \<Longrightarrow> same_request a c"
  by (simp add: same_request_def)

lemma apply_status_facts:
  "same_request (snd (apply_status w s)) s \<and>
   sv_withdrawal_id (snd (apply_status w s)) = sv_withdrawal_id s \<and>
   sv_hold_reason (snd (apply_status w s)) = sv_hold_reason s \<and>
   sv_last_http_status (snd (apply_status w s)) = sv_last_http_status s \<and>
   sv_status (snd (apply_status w s)) \<in> {sv_status s, Submitted, Finalized, Expired, Failed}"
  by (simp add: apply_status_def Let_def same_request_def)

lemma identifies_saved_id:
  assumes "identifies_saved x s w"
  shows "is_well_formed_id (wr_withdrawal_id w)"
    and "sv_withdrawal_id s = None \<or> sv_withdrawal_id s = Some (wr_withdrawal_id w)"
  using assms by (auto simp: identifies_saved_def split: option.splits)

lemmas read_simps = read_response_def read_conflict_def no_conflict_id_def Let_def

lemma read_response_request [simp]: "same_request (snd (read_response x r s)) s"
proof -
  have "same_request (snd (apply_status w (s\<lparr>sv_withdrawal_id := i\<rparr>))) s" for w i
    using apply_status_facts [of w "s\<lparr>sv_withdrawal_id := i\<rparr>"] by (simp add: same_request_def)
  moreover have "same_request (set_error m s) s" "same_request (hold k m s) s" for m k
    by (simp_all add: same_request_def)
  ultimately show ?thesis
    unfolding read_response_def Let_def by (simp split: option.split)
qed

lemma read_conflict_request [simp]: "same_request (snd (read_conflict x s)) s"
  by (auto simp: read_conflict_def no_conflict_id_def same_request_def split: option.split)


definition sample_id :: string where
  "sample_id = ''00000000-0000-4000-8000-000000000001''"

definition sample_saved :: saved_submission where
  "sample_saved = \<lparr>sv_note_id = 5, sv_endpoint = ''https://c/v1/withdraw'', sv_body = [7],
     sv_transfer_spec_hash = 8, sv_status = Submitting, sv_withdrawal_id = None,
     sv_hold_reason = None, sv_last_http_status = None, sv_last_response = None,
     sv_last_error = None\<rparr>"

lemma sample_id_ok: "is_well_formed_id sample_id"
  by code_simp

lemma sample_saved_accepted:
  "read_response sample_ext \<lparr>rr_status = 201, rr_body = [1]\<rparr> sample_saved =
     (None, sample_saved\<lparr>sv_withdrawal_id := Some sample_id, sv_status := Submitted\<rparr>)"
  using sample_id_ok
  by (simp add: read_response_def sample_saved_def parse_withdrawal_def sample_ext_def
      identifies_saved_def matches_note_def apply_status_def sample_id_def)


end
