(* ===== verification/Store.thy ===== *)
theory Store
  imports Submission
begin

text \<open>
  \<^verbatim>\<open>crates/xusdc-light-attester/src/store.rs\<close>: the attester's durable state. The SQLite tables are
  lists of rows (\<open>Prelude\<close>); every operation is one transaction, so it maps a store to an error,
  with the store left as it was, or to a result and the new store. A statement that fails in
  SQLite itself is added by the caller (\<open>Attester\<close>). Text columns that hold an enumeration are
  the enumeration, the checkpoint column is the header it decodes to, and \<^verbatim>\<open>recorded_at\<close>, which
  nothing reads, is left out. Blob columns in note order are in the order of the 256-bit numbers.
\<close>

section \<open>Rows\<close>

datatype burn_hold_reason = HoldPrepareRejected | HoldTooSmallToForward

fun hold_code :: "burn_hold_reason \<Rightarrow> int" where
  "hold_code HoldPrepareRejected = 1"
| "hold_code HoldTooSmallToForward = 2"

definition from_code :: "int \<Rightarrow> burn_hold_reason option" where
  "from_code c = find (\<lambda>r. hold_code r = c) [HoldPrepareRejected, HoldTooSmallToForward]"

fun hold_debug :: "burn_hold_reason \<Rightarrow> string" where
  "hold_debug HoldPrepareRejected = ''PrepareRejected''"
| "hold_debug HoldTooSmallToForward = ''TooSmallToForward''"

datatype event_kind = Authorized | Outcome | BurnHeld | BurnReleased | OperatorRelease | WithdrawalLimit

definition keeps_request :: "event_kind \<Rightarrow> bool" where
  "keeps_request k \<longleftrightarrow> k = Authorized"

record burn_row =
  br_note_id :: note_id
  br_nullifier :: nullifier
  br_note :: bytes
  br_creation_block :: block_number
  br_consumption_block :: "block_number option"
  br_hold_reason :: "int option"
  br_retry_at :: "int option"

record event_row =
  ev_seq :: nat
  ev_note_id :: note_id
  ev_kind :: event_kind
  ev_status :: "submission_status option"
  ev_withdrawal_id :: "string option"
  ev_body :: "bytes option"
  ev_transfer_spec_hash :: "b256 option"
  ev_http_status :: "nat option"
  ev_response :: "bytes option"
  ev_error :: "string option"
  ev_endpoint :: "string option"
  ev_hold_reason :: "hold_reason option"
  ev_burn_hold_reason :: "int option"
  ev_circle_status :: "string option"

text \<open>\<open>st_next_seq\<close> is the number that \<^verbatim>\<open>AUTOINCREMENT\<close> gives the next history row.\<close>

record store =
  st_faucet :: account_id
  st_anchor_block :: block_number
  st_anchor_commitment :: b256
  st_checkpoint :: "header option"
  st_burns :: "burn_row list"
  st_submissions :: "saved_submission list"
  st_events :: "event_row list"
  st_next_seq :: nat

definition burn_of :: "store \<Rightarrow> note_id \<Rightarrow> burn_row option" where
  "burn_of s n = lookup_by br_note_id n (st_burns s)"

definition submission_of :: "store \<Rightarrow> note_id \<Rightarrow> saved_submission option" where
  "submission_of s n = lookup_by sv_note_id n (st_submissions s)"

definition set_burn :: "note_id \<Rightarrow> (burn_row \<Rightarrow> burn_row) \<Rightarrow> store \<Rightarrow> store" where
  "set_burn n f s = s\<lparr>st_burns := update_by br_note_id n f (st_burns s)\<rparr>"

definition set_submission :: "note_id \<Rightarrow> (saved_submission \<Rightarrow> saved_submission) \<Rightarrow> store \<Rightarrow> store" where
  "set_submission n f s = s\<lparr>st_submissions := update_by sv_note_id n f (st_submissions s)\<rparr>"

definition drop_submission :: "note_id \<Rightarrow> store \<Rightarrow> store" where
  "drop_submission n s = s\<lparr>st_submissions := delete_by sv_note_id n (st_submissions s)\<rparr>"

definition append_event :: "(nat \<Rightarrow> event_row) \<Rightarrow> store \<Rightarrow> store" where
  "append_event mk s = s\<lparr>st_events := st_events s @ [mk (st_next_seq s)], st_next_seq := Suc (st_next_seq s)\<rparr>"

section \<open>Validation\<close>

definition validate_submission_outcome :: "saved_submission \<Rightarrow> store_error + unit" where
  "validate_submission_outcome outcome =
     (if (sv_status outcome = Held) \<noteq> (sv_hold_reason outcome \<noteq> None)
         \<or> (case sv_withdrawal_id outcome of None \<Rightarrow> False | Some i \<Rightarrow> \<not> is_well_formed_id i)
         \<or> (sv_status outcome \<in> {Submitted, Finalized, Expired, Failed} \<and> sv_withdrawal_id outcome = None)
         \<or> (case sv_last_http_status outcome of None \<Rightarrow> False | Some code \<Rightarrow> \<not> valid_status code)
      then Inl StoreInvalid else Inr ())"

definition validate_submission :: "ext \<Rightarrow> saved_submission \<Rightarrow> store_error + unit" where
  "validate_submission x record =
     (if x_url_scheme x (sv_endpoint record) \<noteq> ''https'' \<or> \<not> x_url_has_host x (sv_endpoint record)
         \<or> x_url_path x (sv_endpoint record) \<noteq> ''/v1/withdraw'' \<or> \<not> validate_saved_request x record
      then Inl StoreInvalid else validate_submission_outcome record)"

definition validate_discovery_records ::
    "burn_candidate list \<Rightarrow> discovered_burn list \<Rightarrow> block_number \<Rightarrow> store_error + unit" where
  "validate_discovery_records candidates burns block =
     (if list_ex (\<lambda>c. block < bc_creation_block c) candidates
         \<or> list_ex (\<lambda>b. db_consumption_block b \<le> db_creation_block b \<or> block < db_consumption_block b) burns
      then Inl StoreConflict else Inr ())"

section \<open>Decoding rows\<close>

definition decode_note :: "ext \<Rightarrow> bytes \<Rightarrow> note_id \<Rightarrow> nullifier \<Rightarrow> store_error + miden_note" where
  "decode_note x note_bytes note_id nullifier =
     and_then (ok_or (x_note_from_bytes x note_bytes) StoreInvalid) (\<lambda>n.
     if x_note_to_bytes x n \<noteq> note_bytes then Inl StoreInvalid
     else if nt_id n \<noteq> note_id \<or> nt_nullifier n \<noteq> nullifier then Inl StoreInvalid
     else Inr n)"

definition invalid_row :: "'e + 'a \<Rightarrow> store_error + 'a" where
  "invalid_row r = (case r of Inl _ \<Rightarrow> Inl StoreInvalid | Inr v \<Rightarrow> Inr v)"

text \<open>\<^verbatim>\<open>ORDER BY creation_block, note_id\<close>.\<close>

definition withdrawal_key :: "burn_row \<Rightarrow> block_number \<times> note_id" where
  "withdrawal_key r = (br_creation_block r, br_note_id r)"

definition load_candidate :: "ext \<Rightarrow> account_id \<Rightarrow> burn_row \<Rightarrow> store_error + burn_candidate" where
  "load_candidate x faucet r =
     and_then (decode_note x (br_note r) (br_note_id r) (br_nullifier r)) (\<lambda>n.
     invalid_row (burn_candidate_new x n (br_creation_block r) faucet))"

definition load_candidates :: "ext \<Rightarrow> store \<Rightarrow> (burn_row \<Rightarrow> bool) \<Rightarrow> store_error + burn_candidate list" where
  "load_candidates x s sel =
     collect_all (load_candidate x (st_faucet s))
       (sort_key withdrawal_key (filter (\<lambda>r. br_consumption_block r = None \<and> sel r) (st_burns s)))"

definition load_burn :: "ext \<Rightarrow> account_id \<Rightarrow> burn_row \<times> block_number \<Rightarrow> store_error + discovered_burn" where
  "load_burn x faucet = (\<lambda>(r, consumption).
     and_then (decode_note x (br_note r) (br_note_id r) (br_nullifier r)) (\<lambda>n.
     invalid_row (discovered_burn_new x n (br_creation_block r) consumption faucet)))"

definition withdrawable :: "store \<Rightarrow> burn_row \<Rightarrow> bool" where
  "withdrawable s r \<longleftrightarrow>
     br_hold_reason r = None \<and>
     \<not> list_ex (\<lambda>sub. sv_note_id sub = br_note_id r \<and> sv_status sub \<noteq> Expired) (st_submissions s)"

definition load_burns :: "ext \<Rightarrow> store \<Rightarrow> bool \<Rightarrow> store_error + discovered_burn list" where
  "load_burns x s include_submitted =
     collect_all (load_burn x (st_faucet s))
       (List.map_filter (\<lambda>r. map_option (Pair r) (br_consumption_block r))
         (sort_key withdrawal_key
           (filter (\<lambda>r. br_consumption_block r \<noteq> None \<and> (include_submitted \<or> withdrawable s r))
             (st_burns s))))"

definition consumed :: "store \<Rightarrow> note_id \<Rightarrow> bool" where
  "consumed s n \<longleftrightarrow> list_ex (\<lambda>r. br_note_id r = n \<and> br_consumption_block r \<noteq> None) (st_burns s)"

definition load_submission :: "ext \<Rightarrow> store \<Rightarrow> saved_submission \<Rightarrow> store_error + saved_submission" where
  "load_submission x s record =
     and_then (validate_submission x record) (\<lambda>_.
     if \<not> consumed s (sv_note_id record) then Inl StoreInvalid else Inr record)"

definition select_submissions ::
    "ext \<Rightarrow> store \<Rightarrow> note_id option \<Rightarrow> submission_status option \<Rightarrow> store_error + saved_submission list" where
  "select_submissions x s n status =
     collect_all (load_submission x s)
       (sort_key sv_note_id
         (filter (\<lambda>r. (n = None \<or> n = Some (sv_note_id r)) \<and> (status = None \<or> status = Some (sv_status r)))
           (st_submissions s)))"

section \<open>Reads\<close>

definition note_known :: "store \<Rightarrow> note_id \<Rightarrow> bool" where
  "note_known s n \<longleftrightarrow> list_ex (\<lambda>r. br_note_id r = n) (st_burns s)"

definition candidate_by_nullifier :: "ext \<Rightarrow> store \<Rightarrow> nullifier \<Rightarrow> store_error + burn_candidate option" where
  "candidate_by_nullifier x s nf =
     and_then (load_candidates x s (\<lambda>r. br_nullifier r = nf)) (\<lambda>cs.
     Inr (if cs = [] then None else Some (last cs)))"

definition saved_submission_for :: "ext \<Rightarrow> store \<Rightarrow> note_id \<Rightarrow> store_error + saved_submission option" where
  "saved_submission_for x s n =
     and_then (select_submissions x s (Some n) None) (\<lambda>rs.
     Inr (if rs = [] then None else Some (last rs)))"

definition submissions_to_recover :: "ext \<Rightarrow> store \<Rightarrow> store_error + saved_submission list" where
  "submissions_to_recover x s = select_submissions x s None (Some Submitting)"

definition submissions_to_poll :: "ext \<Rightarrow> store \<Rightarrow> store_error + saved_submission list" where
  "submissions_to_poll x s = select_submissions x s None (Some Submitted)"

definition burn_creation_block :: "store \<Rightarrow> note_id \<Rightarrow> store_error + block_number" where
  "burn_creation_block s n = and_then (ok_or (burn_of s n) StoreQueryFailed) (\<lambda>r. Inr (br_creation_block r))"

record limit_wait =
  lw_note_id :: note_id
  lw_creation_block :: block_number
  lw_retry_at :: int

definition first_limit_wait :: "store \<Rightarrow> limit_wait option" where
  "first_limit_wait s =
     (case sort_key withdrawal_key (filter (\<lambda>r. br_retry_at r \<noteq> None) (st_burns s)) of
        [] \<Rightarrow> None
      | r # _ \<Rightarrow> Some \<lparr>lw_note_id = br_note_id r, lw_creation_block = br_creation_block r,
                       lw_retry_at = the (br_retry_at r)\<rparr>)"

definition burns_ready_for_withdrawal ::
    "ext \<Rightarrow> store \<Rightarrow> block_number \<Rightarrow> nat \<Rightarrow> store_error + discovered_burn list" where
  "burns_ready_for_withdrawal x s proof_lag_block minimum_depth_blocks =
     (case st_checkpoint s of
        None \<Rightarrow> Inr []
      | Some checkpoint \<Rightarrow>
          if hd_block_num checkpoint < minimum_depth_blocks then Inr []
          else let last_ready_block = min proof_lag_block (hd_block_num checkpoint - minimum_depth_blocks) in
            and_then (load_burns x s False) (\<lambda>burns.
            Inr (filter (\<lambda>b. db_consumption_block b \<le> last_ready_block) burns)))"

record progress =
  pg_burns_held :: nat
  pg_withdrawals_held :: nat
  pg_withdrawals_failed :: nat
  pg_withdrawals_pending :: nat
  pg_burns_unfinished :: nat
  pg_oldest_unfinished_burn :: "block_number option"
  pg_withdrawal_limit_waiting :: nat

definition count_rows :: "('r \<Rightarrow> bool) \<Rightarrow> 'r list \<Rightarrow> nat" where
  "count_rows p t = length (filter p t)"

definition unfinished :: "store \<Rightarrow> burn_row \<Rightarrow> bool" where
  "unfinished s r \<longleftrightarrow> br_consumption_block r \<noteq> None \<and> br_hold_reason r = None \<and>
     (case submission_of s (br_note_id r) of
        None \<Rightarrow> True
      | Some sub \<Rightarrow> sv_status sub \<notin> {Held, Failed, Finalized})"

definition store_progress :: "store \<Rightarrow> progress" where
  "store_progress s =
     (let blocks = List.map_filter br_consumption_block (filter (unfinished s) (st_burns s)) in
      \<lparr>pg_burns_held = count_rows (\<lambda>r. br_hold_reason r \<noteq> None) (st_burns s),
       pg_withdrawals_held = count_rows (\<lambda>r. sv_status r = Held) (st_submissions s),
       pg_withdrawals_failed = count_rows (\<lambda>r. sv_status r = Failed) (st_submissions s),
       pg_withdrawals_pending = count_rows (\<lambda>r. sv_status r \<in> {Submitting, Submitted}) (st_submissions s),
       pg_burns_unfinished = count_rows (unfinished s) (st_burns s),
       pg_oldest_unfinished_burn = (if blocks = [] then None else Some (Min (set blocks))),
       pg_withdrawal_limit_waiting = count_rows (\<lambda>r. br_retry_at r \<noteq> None) (st_burns s)\<rparr>)"

section \<open>History\<close>

definition circle_status :: "ext \<Rightarrow> bytes option \<Rightarrow> string option" where
  "circle_status x response =
     Option.bind (Option.bind response (x_json_value x)) (\<lambda>reply.
       let withdrawal = (case json_get0 reply of None \<Rightarrow> reply | Some w \<Rightarrow> w) in
       Option.bind (json_get ''status'' withdrawal) json_as_str)"

definition event_of :: "store \<Rightarrow> burn_row \<Rightarrow> event_kind \<Rightarrow> string option \<Rightarrow> nat \<Rightarrow> event_row" where
  "event_of s burn what circle seq =
     (let sub = submission_of s (br_note_id burn); kept = keeps_request what in
      \<lparr>ev_seq = seq, ev_note_id = br_note_id burn, ev_kind = what,
       ev_status = map_option sv_status sub,
       ev_withdrawal_id = Option.bind sub sv_withdrawal_id,
       ev_body = (if kept then map_option sv_body sub else None),
       ev_transfer_spec_hash = map_option sv_transfer_spec_hash sub,
       ev_http_status = Option.bind sub sv_last_http_status,
       ev_response = Option.bind sub sv_last_response,
       ev_error = Option.bind sub sv_last_error,
       ev_endpoint = (if kept then map_option sv_endpoint sub else None),
       ev_hold_reason = Option.bind sub sv_hold_reason,
       ev_burn_hold_reason = br_hold_reason burn, ev_circle_status = circle\<rparr>)"

definition record_event :: "note_id \<Rightarrow> event_kind \<Rightarrow> string option \<Rightarrow> store \<Rightarrow> store_error + store" where
  "record_event n what circle s =
     (case burn_of s n of
        None \<Rightarrow> Inl StoreConflict
      | Some burn \<Rightarrow> Inr (append_event (event_of s burn what circle) s))"

text \<open>A row that is inserted directly, without the join with the submission.\<close>

definition bare_event ::
    "note_id \<Rightarrow> event_kind \<Rightarrow> nat option \<Rightarrow> bytes option \<Rightarrow> int option \<Rightarrow> nat \<Rightarrow> event_row" where
  "bare_event n what http_status response burn_hold seq =
     \<lparr>ev_seq = seq, ev_note_id = n, ev_kind = what, ev_status = None, ev_withdrawal_id = None,
      ev_body = None, ev_transfer_spec_hash = None, ev_http_status = http_status,
      ev_response = response, ev_error = None, ev_endpoint = None, ev_hold_reason = None,
      ev_burn_hold_reason = burn_hold, ev_circle_status = None\<rparr>"

definition max_seq :: "(event_row \<Rightarrow> bool) \<Rightarrow> store \<Rightarrow> nat option" where
  "max_seq p s = (case map ev_seq (filter p (st_events s)) of [] \<Rightarrow> None | q # qs \<Rightarrow> Some (fold max qs q))"

definition repeats_latest_outcome :: "store \<Rightarrow> saved_submission \<Rightarrow> string option \<Rightarrow> bool" where
  "repeats_latest_outcome s outcome circle =
     (let n = sv_note_id outcome;
          authorized = (case max_seq (\<lambda>e. ev_note_id e = n \<and> ev_kind e = Authorized) s of
              None \<Rightarrow> 0 | Some q \<Rightarrow> q) in
      (case max_seq (\<lambda>e. ev_note_id e = n \<and> ev_kind e = Outcome \<and> authorized < ev_seq e) s of
         None \<Rightarrow> False
       | Some q \<Rightarrow> list_ex (\<lambda>e. ev_seq e = q \<and> ev_status e = Some (sv_status outcome) \<and>
             ev_withdrawal_id e = sv_withdrawal_id outcome \<and>
             ev_http_status e = sv_last_http_status outcome \<and> ev_error e = sv_last_error outcome \<and>
             ev_circle_status e = circle) (st_events s)))"

section \<open>Writes\<close>

definition save_submission :: "ext \<Rightarrow> saved_submission \<Rightarrow> store \<Rightarrow> store_error + store" where
  "save_submission x record s =
     and_then (validate_submission x record) (\<lambda>_.
     let fresh = record\<lparr>sv_status := Submitting, sv_withdrawal_id := None, sv_hold_reason := None,
           sv_last_http_status := None, sv_last_response := None, sv_last_error := None\<rparr> in
     and_then (case submission_of s (sv_note_id record) of
         None \<Rightarrow> Inr (s\<lparr>st_submissions := insert_row fresh (st_submissions s)\<rparr>)
       | Some old \<Rightarrow>
           if sv_status old = Expired \<and> sv_withdrawal_id old \<noteq> None
           then Inr (set_submission (sv_note_id record) (\<lambda>_. fresh) s)
           else Inl StoreConflict) (\<lambda>s1.
     record_event (sv_note_id record) Authorized None s1))"

datatype release_error =
    ReleaseInvalid
  | ReleaseConflict
  | NotHeld note_id
  | CircleCheck
  | ReleaseStore store_error

definition release_store :: "store_error + 'a \<Rightarrow> release_error + 'a" where
  "release_store r = (case r of Inl e \<Rightarrow> Inl (ReleaseStore e) | Inr v \<Rightarrow> Inr v)"

definition release_hold :: "note_id \<Rightarrow> bool \<Rightarrow> store \<Rightarrow> release_error + ((nat \<times> nat) \<times> store)" where
  "release_hold n circle_not_accepted s =
     (if list_ex (\<lambda>r. br_note_id r = n \<and> br_hold_reason r \<noteq> None) (st_burns s) then
        and_then (release_store (record_event n BurnReleased None s)) (\<lambda>s1.
        Inr ((count_rows (\<lambda>r. br_note_id r = n) (st_burns s1), 0),
             set_burn n (\<lambda>r. r\<lparr>br_hold_reason := None\<rparr>) s1))
      else if list_ex (\<lambda>r. sv_note_id r = n \<and> sv_status r = Held \<and> sv_hold_reason r = Some HttpRejected \<and>
                sv_withdrawal_id r = None) (st_submissions s) then
        if \<not> circle_not_accepted then Inl CircleCheck
        else and_then (release_store (record_event n OperatorRelease None s)) (\<lambda>s1.
          if count_rows (\<lambda>r. sv_note_id r = n) (st_submissions s1) \<noteq> 1
          then Inl (ReleaseStore StoreConflict)
          else Inr ((0, 1), drop_submission n s1))
      else Inl (NotHeld n))"

text \<open>
  The notes are visited in the order of a \<^verbatim>\<open>BTreeSet\<close> of note IDs, which \<open>order\<close> returns for the
  notes the caller named; one failure fails the whole transaction.
\<close>

fun release_each :: "note_id list \<Rightarrow> nat \<times> nat \<Rightarrow> store \<Rightarrow> release_error + ((nat \<times> nat) \<times> store)" where
  "release_each [] totals s = Inr (totals, s)"
| "release_each (n # ns) (burns, withdrawals) s =
     and_then (release_hold n True s) (\<lambda>((b, w), s1).
     release_each ns (burns + b, withdrawals + w) s1)"

definition release_holds ::
    "(note_id list \<Rightarrow> note_id list) \<Rightarrow> note_id list \<Rightarrow> store \<Rightarrow> release_error + ((nat \<times> nat) \<times> store)" where
  "release_holds order ids s = release_each (order ids) (0, 0) s"

record release_selection =
  rl_note_id :: note_id
  rl_expected_event_seq :: int
  rl_circle_not_accepted :: bool

definition release_checked :: "release_selection \<Rightarrow> store \<Rightarrow> release_error + ((nat \<times> nat) \<times> store)" where
  "release_checked sel s =
     (let n = rl_note_id sel in
      if rl_expected_event_seq sel \<le> 0 then Inl ReleaseInvalid
      else (case max_seq (\<lambda>e. ev_note_id e = n) s of
          None \<Rightarrow>
            if list_ex (\<lambda>r. br_note_id r = n \<and> br_hold_reason r \<noteq> None) (st_burns s)
               \<or> list_ex (\<lambda>r. sv_note_id r = n \<and> sv_status r = Held) (st_submissions s)
            then Inl (ReleaseStore StoreInvalid) else Inl (NotHeld n)
        | Some revision \<Rightarrow>
            if int revision \<noteq> rl_expected_event_seq sel then Inl ReleaseConflict
            else release_hold n (rl_circle_not_accepted sel) s))"

definition hold_burn ::
    "note_id \<Rightarrow> burn_hold_reason \<Rightarrow> (nat \<times> bytes) option \<Rightarrow> store \<Rightarrow> store_error + store" where
  "hold_burn n reason response s =
     (if count_rows (\<lambda>r. br_note_id r = n) (st_burns s) \<noteq> 1 then Inl StoreConflict
      else Inr (append_event
          (bare_event n BurnHeld (map_option fst response) (map_option snd response) (Some (hold_code reason)))
          (set_burn n (\<lambda>r. r\<lparr>br_hold_reason := Some (hold_code reason), br_retry_at := None\<rparr>) s)))"

definition update_submission_outcome :: "ext \<Rightarrow> saved_submission \<Rightarrow> store \<Rightarrow> store_error + store" where
  "update_submission_outcome x outcome s =
     and_then (validate_submission_outcome outcome) (\<lambda>_.
     let n = sv_note_id outcome in
     if count_rows (\<lambda>r. sv_note_id r = n) (st_submissions s) \<noteq> 1 then Inl StoreConflict
     else
     let s1 = set_submission n (\<lambda>r. r\<lparr>sv_status := sv_status outcome,
            sv_withdrawal_id := sv_withdrawal_id outcome, sv_hold_reason := sv_hold_reason outcome,
            sv_last_http_status := sv_last_http_status outcome,
            sv_last_response := sv_last_response outcome, sv_last_error := sv_last_error outcome\<rparr>) s;
         circle = circle_status x (sv_last_response outcome) in
     and_then (if repeats_latest_outcome s1 outcome circle then Inr s1
               else record_event n Outcome circle s1) (\<lambda>s2.
     Inr (if sv_status outcome \<in> {Submitted, Finalized, Failed, Held}
          then set_burn n (\<lambda>r. r\<lparr>br_retry_at := None\<rparr>) s2 else s2)))"

definition advance_limit_retry :: "note_id \<Rightarrow> int \<Rightarrow> store \<Rightarrow> store_error + store" where
  "advance_limit_retry n deadline s =
     (if deadline < 0 \<and> list_ex (\<lambda>r. br_note_id r = n \<and> br_retry_at r \<noteq> None) (st_burns s)
      then Inl StoreQueryFailed
      else if count_rows (\<lambda>r. br_note_id r = n \<and> br_retry_at r \<noteq> None) (st_burns s) \<noteq> 1 then Inl StoreConflict
      else Inr (set_burn n (\<lambda>r. if br_retry_at r \<noteq> None then r\<lparr>br_retry_at := Some deadline\<rparr> else r) s))"

definition same_attempt :: "note_id \<Rightarrow> saved_submission \<Rightarrow> saved_submission \<Rightarrow> bool" where
  "same_attempt n saved r \<longleftrightarrow> sv_note_id r = n \<and> sv_status r = Submitting \<and> sv_withdrawal_id r = None \<and>
     sv_endpoint r = sv_endpoint saved \<and> sv_body r = sv_body saved \<and>
     sv_transfer_spec_hash r = sv_transfer_spec_hash saved"

definition reject_submission ::
    "note_id \<Rightarrow> bytes \<Rightarrow> saved_submission \<Rightarrow> submission_attempt \<Rightarrow> store \<Rightarrow> store_error + store" where
  "reject_submission n response saved attempt s =
     (if sv_note_id saved \<noteq> n then Inl StoreConflict
      else if count_rows (same_attempt n saved) (st_submissions s) \<noteq> 1 then Inl StoreConflict
      else Inr (case attempt of
          First \<Rightarrow> s\<lparr>st_submissions := filter (\<lambda>r. \<not> same_attempt n saved r) (st_submissions s)\<rparr>
        | Recovery \<Rightarrow> s\<lparr>st_submissions := map (\<lambda>r. if same_attempt n saved r
              then r\<lparr>sv_last_http_status := Some 400, sv_last_response := Some response,
                     sv_last_error := Some ''Circle withdrawal limit''\<rparr> else r) (st_submissions s)\<rparr>))"

definition record_limit_rejection ::
    "note_id \<Rightarrow> int \<Rightarrow> bytes \<Rightarrow> (saved_submission \<times> submission_attempt) option \<Rightarrow> store \<Rightarrow> store_error + store" where
  "record_limit_rejection n deadline response sub s =
     (let waits = (\<lambda>r. br_note_id r = n \<and> br_consumption_block r \<noteq> None \<and> br_hold_reason r = None) in
      if deadline < 0 \<and> list_ex waits (st_burns s) then Inl StoreQueryFailed
      else if count_rows waits (st_burns s) \<noteq> 1 then Inl StoreConflict
      else
      let s1 = set_burn n (\<lambda>r. if waits r then r\<lparr>br_retry_at := Some deadline\<rparr> else r) s in
      and_then (case sub of
          None \<Rightarrow> Inr s1
        | Some (saved, attempt) \<Rightarrow> reject_submission n response saved attempt s1) (\<lambda>s2.
      Inr (append_event (bare_event n WithdrawalLimit (Some 400) (Some response) None) s2)))"

section \<open>Listing holds\<close>

fun join_words :: "string list \<Rightarrow> string" where
  "join_words [] = []"
| "join_words [w] = w"
| "join_words (w # ws) = w @ '' '' @ join_words ws"

definition one_line_circle_message :: "ext \<Rightarrow> bytes \<Rightarrow> string option" where
  "one_line_circle_message x response =
     map_option (\<lambda>m. join_words (split_whitespace_from [] m)) (circle_message x response)"

definition is_ascii_control :: "char \<Rightarrow> bool" where
  "is_ascii_control c \<longleftrightarrow> of_char c < (32 :: nat) \<or> of_char c = (127 :: nat)"

fun reason_debug :: "hold_reason option \<Rightarrow> string" where
  "reason_debug None = ''-''"
| "reason_debug (Some HttpRejected) = ''HttpRejected''"

record hold_entry =
  he_note_id :: string
  he_kind :: string
  he_reason :: string
  he_http_status :: "nat option"
  he_circle_message :: "string option"
  he_event_seq :: nat

text \<open>The latest \<^verbatim>\<open>BURN_HELD\<close> row of a note, unless it snapshots an old submission.\<close>

definition held_reply :: "store \<Rightarrow> note_id \<Rightarrow> nat option \<times> bytes option" where
  "held_reply s n =
     (case Option.bind (max_seq (\<lambda>e. ev_note_id e = n \<and> ev_kind e = BurnHeld) s)
             (\<lambda>q. find (\<lambda>e. ev_seq e = q) (st_events s)) of
        None \<Rightarrow> (None, None)
      | Some e \<Rightarrow> if ev_status e = None then (ev_http_status e, ev_response e) else (None, None))"

datatype held_row = HeldBurn burn_row | HeldWithdrawal saved_submission

fun held_note :: "held_row \<Rightarrow> note_id" where
  "held_note (HeldBurn r) = br_note_id r"
| "held_note (HeldWithdrawal r) = sv_note_id r"

definition held_rows :: "store \<Rightarrow> held_row list" where
  "held_rows s = map HeldBurn (filter (\<lambda>r. br_hold_reason r \<noteq> None) (st_burns s)) @
     map HeldWithdrawal (filter (\<lambda>r. sv_status r = Held) (st_submissions s))"

definition held_reason :: "held_row \<Rightarrow> store_error + string" where
  "held_reason row = (case row of
       HeldBurn r \<Rightarrow> and_then (ok_or (Option.bind (br_hold_reason r) from_code) StoreInvalid)
                       (\<lambda>reason. Inr (hold_debug reason))
     | HeldWithdrawal r \<Rightarrow> Inr (reason_debug (sv_hold_reason r)))"

definition held_answer :: "store \<Rightarrow> held_row \<Rightarrow> nat option \<times> bytes option" where
  "held_answer s row = (case row of
       HeldBurn r \<Rightarrow> held_reply s (br_note_id r)
     | HeldWithdrawal r \<Rightarrow> (sv_last_http_status r, sv_last_response r))"

fun held_kind :: "held_row \<Rightarrow> string" where
  "held_kind (HeldBurn _) = ''burn''"
| "held_kind (HeldWithdrawal _) = ''withdrawal''"

definition HOLDS_PAGE :: nat where "HOLDS_PAGE = 100"

definition hold_entry_of :: "ext \<Rightarrow> store \<Rightarrow> held_row \<Rightarrow> store_error + hold_entry" where
  "hold_entry_of x s row =
     and_then (held_reason row) (\<lambda>reason.
     and_then (ok_or (max_seq (\<lambda>e. ev_note_id e = held_note row) s) StoreInvalid) (\<lambda>seq.
     if seq = 0 then Inl StoreInvalid
     else Inr \<lparr>he_note_id = x_note_hex x (held_note row), he_kind = held_kind row, he_reason = reason,
               he_http_status = fst (held_answer s row),
               he_circle_message = map_option (filter (\<lambda>c. \<not> is_ascii_control c))
                  (Option.bind (snd (held_answer s row)) (one_line_circle_message x)),
               he_event_seq = seq\<rparr>))"

definition holds_page :: "ext \<Rightarrow> store \<Rightarrow> note_id option \<Rightarrow> store_error + hold_entry list" where
  "holds_page x s after =
     collect_all (hold_entry_of x s)
       (take (HOLDS_PAGE + 1)
         (sort_key held_note
           (filter (\<lambda>row. case after of None \<Rightarrow> True | Some a \<Rightarrow> a < held_note row) (held_rows s))))"

record hold_line =
  hl_note_id :: note_id
  hl_kind :: string
  hl_reason :: string
  hl_http_status :: "nat option"
  hl_circle_message :: "string option"

definition hold_line_of :: "ext \<Rightarrow> store \<Rightarrow> held_row \<Rightarrow> store_error + hold_line" where
  "hold_line_of x s row =
     and_then (held_reason row) (\<lambda>reason.
     Inr \<lparr>hl_note_id = held_note row, hl_kind = held_kind row, hl_reason = reason,
          hl_http_status = fst (held_answer s row),
          hl_circle_message = Option.bind (snd (held_answer s row)) (one_line_circle_message x)\<rparr>)"

definition holds :: "ext \<Rightarrow> store \<Rightarrow> store_error + hold_line list" where
  "holds x s =
     and_then (collect_all (hold_line_of x s)
       (map HeldBurn (sort_key br_note_id (filter (\<lambda>r. br_hold_reason r \<noteq> None) (st_burns s))))) (\<lambda>burns.
     and_then (select_submissions x s None (Some Held)) (\<lambda>held.
     and_then (collect_all (hold_line_of x s) (map HeldWithdrawal held)) (\<lambda>withdrawals.
     Inr (burns @ withdrawals))))"

section \<open>Saving a scanned block\<close>

definition clashes :: "note_id \<Rightarrow> nullifier \<Rightarrow> store \<Rightarrow> bool" where
  "clashes n nf s \<longleftrightarrow> list_ex (\<lambda>r. br_note_id r = n \<or> br_nullifier r = nf) (st_burns s)"

definition insert_candidate :: "ext \<Rightarrow> burn_candidate \<Rightarrow> store \<Rightarrow> store_error + store" where
  "insert_candidate x c s =
     (if clashes (bc_note_id c) (bc_nullifier c) s then Inl StoreConflict
      else Inr (s\<lparr>st_burns := insert_row
        \<lparr>br_note_id = bc_note_id c, br_nullifier = bc_nullifier c, br_note = x_note_to_bytes x (bc_note c),
         br_creation_block = bc_creation_block c, br_consumption_block = None,
         br_hold_reason = None, br_retry_at = None\<rparr> (st_burns s)\<rparr>))"

definition insert_burn :: "ext \<Rightarrow> discovered_burn \<Rightarrow> store \<Rightarrow> store_error + store" where
  "insert_burn x b s =
     (let n = db_note_id b; candidate = (\<lambda>r. br_note_id r = n \<and> br_consumption_block r = None) in
      if list_ex (\<lambda>r. candidate r \<and> db_consumption_block b \<le> br_creation_block r) (st_burns s)
        then Inl StoreQueryFailed
      else if count_rows candidate (st_burns s) = 1
        then Inr (set_burn n (\<lambda>r. if candidate r
            then r\<lparr>br_consumption_block := Some (db_consumption_block b)\<rparr> else r) s)
      else if clashes n (db_nullifier b) s then Inl StoreConflict
      else if db_consumption_block b \<le> db_creation_block b then Inl StoreQueryFailed
      else Inr (s\<lparr>st_burns := insert_row
        \<lparr>br_note_id = n, br_nullifier = db_nullifier b, br_note = x_note_to_bytes x (db_note b),
         br_creation_block = db_creation_block b, br_consumption_block = Some (db_consumption_block b),
         br_hold_reason = None, br_retry_at = None\<rparr> (st_burns s)\<rparr>))"

fun insert_all :: "('a \<Rightarrow> store \<Rightarrow> store_error + store) \<Rightarrow> 'a list \<Rightarrow> store \<Rightarrow> store_error + store" where
  "insert_all f [] s = Inr s"
| "insert_all f (a # as) s = and_then (f a s) (insert_all f as)"

definition save_scan_progress ::
    "ext \<Rightarrow> burn_candidate list \<Rightarrow> discovered_burn list \<Rightarrow> header \<Rightarrow> store \<Rightarrow> store_error + store" where
  "save_scan_progress x candidates burns checkpoint s =
     and_then (validate_discovery_records candidates burns (hd_block_num checkpoint)) (\<lambda>_.
     and_then (insert_all (insert_candidate x) candidates s) (\<lambda>s1.
     and_then (insert_all (insert_burn x) burns s1) (\<lambda>s2.
     Inr (s2\<lparr>st_checkpoint := Some checkpoint\<rparr>))))"

section \<open>Opening\<close>

record trusted_anchor =
  ta_block_num :: block_number
  ta_commitment :: b256

definition initialize_store :: "account_id \<Rightarrow> trusted_anchor \<Rightarrow> store" where
  "initialize_store faucet anchor =
     \<lparr>st_faucet = faucet, st_anchor_block = ta_block_num anchor,
      st_anchor_commitment = ta_commitment anchor, st_checkpoint = None, st_burns = [],
      st_submissions = [], st_events = [], st_next_seq = 1\<rparr>"

text \<open>The checks of \<^verbatim>\<open>validate_store\<close> on a store of the current layout.\<close>

definition limit_wait_ok :: "store \<Rightarrow> burn_row \<Rightarrow> bool" where
  "limit_wait_ok s r \<longleftrightarrow> \<not> (br_retry_at r \<noteq> None \<and>
     (br_consumption_block r = None \<or> br_hold_reason r \<noteq> None \<or>
      (case submission_of s (br_note_id r) of
         None \<Rightarrow> False | Some sub \<Rightarrow> sv_status sub \<notin> {Submitting, Expired})))"

datatype open_error = OpenStore store_error | AnchorDiffers

definition validate_store :: "ext \<Rightarrow> account_id \<Rightarrow> trusted_anchor \<Rightarrow> store \<Rightarrow> open_error + unit" where
  "validate_store x faucet anchor s =
     (let invalid = OpenStore StoreInvalid in
      if \<not> list_all (limit_wait_ok s) (st_burns s) then Inl invalid
      else if \<not> list_all (\<lambda>sub. case sv_withdrawal_id sub of None \<Rightarrow> True | Some i \<Rightarrow> is_well_formed_id i)
                (st_submissions s) then Inl invalid
      else if st_faucet s \<noteq> faucet then Inl invalid
      else if st_anchor_block s \<noteq> ta_block_num anchor \<or> st_anchor_commitment s \<noteq> ta_commitment anchor
        then Inl AnchorDiffers
      else and_then (case load_candidates x s (\<lambda>_. True) of Inl e \<Rightarrow> Inl (OpenStore e) | Inr _ \<Rightarrow> Inr ()) (\<lambda>_.
      and_then (case load_burns x s True of Inl e \<Rightarrow> Inl (OpenStore e) | Inr _ \<Rightarrow> Inr ()) (\<lambda>_.
      case st_checkpoint s of
        None \<Rightarrow> Inr ()
      | Some h \<Rightarrow> if hd_block_num h < ta_block_num anchor then Inl invalid else Inr ())))"

end
