(* ===== verification/Store_Effects.thy ===== *)
theory Store_Effects
  imports Store
begin

text \<open>
  What each transaction of \<open>Store\<close> does, read through the keys: \<open>burn_of\<close> and \<open>submission_of\<close>
  see the two tables as finite maps. The effect lemmas say, for every successful operation, which
  row it required, which single row it changed and which history row it appended; the invariant
  proofs of \<open>Store_Inv\<close> rest on them alone.
\<close>

section \<open>Tables with unique keys\<close>

definition keys_ok :: "store \<Rightarrow> bool" where
  "keys_ok s \<longleftrightarrow> distinct (map br_note_id (st_burns s)) \<and> distinct (map br_nullifier (st_burns s)) \<and>
     distinct (map sv_note_id (st_submissions s))"

lemma keys_okD:
  assumes "keys_ok s"
  shows "distinct (map br_note_id (st_burns s))" "distinct (map sv_note_id (st_submissions s))"
  using assms by (simp_all add: keys_ok_def)

lemma list_ex_key:
  assumes "distinct (map key t)"
  shows "list_ex (\<lambda>r. key r = k \<and> P r) t \<longleftrightarrow> (\<exists>r. lookup_by key k t = Some r \<and> P r)"
  using assms lookup_by_mem lookup_by_key by (fastforce simp: list_ex_iff)

lemma count_rows_key:
  assumes "distinct (map key t)"
  shows "count_rows (\<lambda>r. key r = k \<and> P r) t =
           (case lookup_by key k t of None \<Rightarrow> 0 | Some r \<Rightarrow> if P r then 1 else 0)"
  using assms
proof (induction t)
  case Nil
  then show ?case by (simp add: count_rows_def lookup_by_Nil)
next
  case (Cons a t)
  show ?case
  proof (cases "key a = k")
    case True
    then have "lookup_by key k t = None"
      using Cons.prems by (simp add: rows.select_None)
    with Cons True show ?thesis by (simp add: count_rows_def lookup_by_Cons)
  next
    case False
    then show ?thesis using Cons by (simp add: count_rows_def lookup_by_Cons)
  qed
qed

lemma count_rows_key1:
  assumes "distinct (map key t)"
  shows "count_rows (\<lambda>r. key r = k \<and> P r) t = 1 \<longleftrightarrow> (\<exists>r. lookup_by key k t = Some r \<and> P r)"
    and "count_rows (\<lambda>r. key r = k) t = 1 \<longleftrightarrow> (\<exists>r. lookup_by key k t = Some r)"
  using count_rows_key [OF assms, of k P] count_rows_key [OF assms, of k "\<lambda>_. True"]
  by (auto split: option.splits)

section \<open>The views\<close>

lemma burn_of_key: "burn_of s n = Some r \<Longrightarrow> br_note_id r = n \<and> r \<in> set (st_burns s)"
  unfolding burn_of_def by (rule lookup_by_key)

lemma submission_of_key: "submission_of s n = Some r \<Longrightarrow> sv_note_id r = n \<and> r \<in> set (st_submissions s)"
  unfolding submission_of_def by (rule lookup_by_key)

lemma burn_of_mem: "keys_ok s \<Longrightarrow> r \<in> set (st_burns s) \<Longrightarrow> burn_of s (br_note_id r) = Some r"
  unfolding burn_of_def by (rule lookup_by_mem) (auto dest: keys_okD)

lemma submission_of_mem:
  "keys_ok s \<Longrightarrow> r \<in> set (st_submissions s) \<Longrightarrow> submission_of s (sv_note_id r) = Some r"
  unfolding submission_of_def by (rule lookup_by_mem) (auto dest: keys_okD)

lemma consumed_iff:
  "keys_ok s \<Longrightarrow> consumed s n \<longleftrightarrow> (\<exists>r c. burn_of s n = Some r \<and> br_consumption_block r = Some c)"
  by (simp add: consumed_def burn_of_def list_ex_key keys_okD)

lemma note_known_iff: "keys_ok s \<Longrightarrow> note_known s n \<longleftrightarrow> burn_of s n \<noteq> None"
  using list_ex_key [of br_note_id "st_burns s" n "\<lambda>_. True"]
  by (auto simp: note_known_def burn_of_def keys_okD)

lemma burn_of_frame [simp]:
  "burn_of (append_event mk s) n = burn_of s n"
  "burn_of (set_submission m g s) n = burn_of s n"
  "burn_of (drop_submission m s) n = burn_of s n"
  "burn_of (s\<lparr>st_checkpoint := h\<rparr>) n = burn_of s n"
  "burn_of (s\<lparr>st_submissions := subs\<rparr>) n = burn_of s n"
  by (simp_all add: burn_of_def append_event_def set_submission_def drop_submission_def)

lemma submission_of_frame [simp]:
  "submission_of (append_event mk s) n = submission_of s n"
  "submission_of (set_burn m f s) n = submission_of s n"
  "submission_of (s\<lparr>st_checkpoint := h\<rparr>) n = submission_of s n"
  "submission_of (s\<lparr>st_burns := bs\<rparr>) n = submission_of s n"
  by (simp_all add: submission_of_def append_event_def set_burn_def)

lemma burn_of_set [simp]:
  assumes "\<And>r. br_note_id (f r) = br_note_id r"
  shows "burn_of (set_burn m f s) n = (if n = m then map_option f (burn_of s m) else burn_of s n)"
  by (simp add: burn_of_def set_burn_def lookup_by_update assms)

lemma submission_of_drop [simp]:
  "submission_of (drop_submission m s) n = (if n = m then None else submission_of s n)"
  by (simp add: submission_of_def drop_submission_def lookup_by_delete)

lemma submission_of_set:
  assumes "\<And>r. sv_note_id r = m \<Longrightarrow> sv_note_id (f r) = m"
  shows "submission_of (set_submission m f s) n =
           (if n = m then map_option f (submission_of s m) else submission_of s n)"
proof -
  have "lookup_by sv_note_id n (update_by sv_note_id m f t) =
      (if n = m then map_option f (lookup_by sv_note_id m t) else lookup_by sv_note_id n t)" for t
    by (induction t) (auto simp: lookup_by_Cons lookup_by_Nil update_by_def assms)
  then show ?thesis by (simp add: submission_of_def set_submission_def)
qed

lemma store_frame [simp, frame_simps]:
  "st_events (set_burn n f s) = st_events s" "st_next_seq (set_burn n f s) = st_next_seq s"
  "st_checkpoint (set_burn n f s) = st_checkpoint s" "st_faucet (set_burn n f s) = st_faucet s"
  "st_anchor_block (set_burn n f s) = st_anchor_block s"
  "st_anchor_commitment (set_burn n f s) = st_anchor_commitment s"
  "st_events (set_submission n g s) = st_events s" "st_next_seq (set_submission n g s) = st_next_seq s"
  "st_checkpoint (set_submission n g s) = st_checkpoint s" "st_faucet (set_submission n g s) = st_faucet s"
  "st_anchor_block (set_submission n g s) = st_anchor_block s"
  "st_anchor_commitment (set_submission n g s) = st_anchor_commitment s"
  "st_events (drop_submission n s) = st_events s" "st_next_seq (drop_submission n s) = st_next_seq s"
  "st_checkpoint (drop_submission n s) = st_checkpoint s" "st_faucet (drop_submission n s) = st_faucet s"
  "st_anchor_block (drop_submission n s) = st_anchor_block s"
  "st_anchor_commitment (drop_submission n s) = st_anchor_commitment s"
  "st_events (append_event mk s) = st_events s @ [mk (st_next_seq s)]"
  "st_next_seq (append_event mk s) = Suc (st_next_seq s)"
  "st_checkpoint (append_event mk s) = st_checkpoint s" "st_faucet (append_event mk s) = st_faucet s"
  "st_anchor_block (append_event mk s) = st_anchor_block s"
  "st_anchor_commitment (append_event mk s) = st_anchor_commitment s"
  by (simp_all add: set_burn_def set_submission_def drop_submission_def append_event_def)

lemma keys_ok_frame [simp]:
  "keys_ok (append_event mk s) = keys_ok s" "keys_ok (s\<lparr>st_checkpoint := h\<rparr>) = keys_ok s"
  by (simp_all add: keys_ok_def append_event_def)

lemma keys_ok_set_burn [simp]:
  assumes "\<And>r. br_note_id (f r) = br_note_id r" "\<And>r. br_nullifier (f r) = br_nullifier r"
  shows "keys_ok (set_burn n f s) = keys_ok s"
proof -
  have "map br_nullifier (update_by br_note_id n f t) = map br_nullifier t" for t
    by (simp add: update_by_def assms)
  then show ?thesis by (simp add: keys_ok_def set_burn_def keys_update_by assms)
qed

lemma keys_ok_drop: "keys_ok s \<Longrightarrow> keys_ok (drop_submission n s)"
  by (simp add: keys_ok_def drop_submission_def distinct_delete_by)

lemma keys_ok_set_submission:
  assumes "\<And>r. sv_note_id r = n \<Longrightarrow> sv_note_id (f r) = n"
  shows "keys_ok (set_submission n f s) = keys_ok s"
proof -
  have "map sv_note_id (update_by sv_note_id n f t) = map sv_note_id t" for t
    by (auto simp: update_by_def assms)
  then show ?thesis by (simp add: keys_ok_def set_submission_def)
qed

section \<open>Effects\<close>

definition logged :: "note_id \<Rightarrow> event_kind \<Rightarrow> event_row \<Rightarrow> store \<Rightarrow> store \<Rightarrow> bool" where
  "logged n k e s s' \<longleftrightarrow> st_events s' = st_events s @ [e] \<and> st_next_seq s' = Suc (st_next_seq s) \<and>
     ev_seq e = st_next_seq s \<and> ev_note_id e = n \<and> ev_kind e = k"

definition unlogged :: "store \<Rightarrow> store \<Rightarrow> bool" where
  "unlogged s s' \<longleftrightarrow> st_events s' = st_events s \<and> st_next_seq s' = st_next_seq s"

definition same_chain :: "store \<Rightarrow> store \<Rightarrow> bool" where
  "same_chain s s' \<longleftrightarrow> st_checkpoint s' = st_checkpoint s \<and> st_faucet s' = st_faucet s \<and>
     st_anchor_block s' = st_anchor_block s \<and> st_anchor_commitment s' = st_anchor_commitment s"

lemma same_chain_refl [simp]: "same_chain s s"
  by (simp add: same_chain_def)

lemma event_of_fields [simp]:
  "ev_seq (event_of s b k c q) = q" "ev_note_id (event_of s b k c q) = br_note_id b"
  "ev_kind (event_of s b k c q) = k"
  "ev_status (event_of s b k c q) = map_option sv_status (submission_of s (br_note_id b))"
  by (simp_all add: event_of_def Let_def)

lemma bare_event_fields [simp]:
  "ev_seq (bare_event n k h r b q) = q" "ev_note_id (bare_event n k h r b q) = n"
  "ev_kind (bare_event n k h r b q) = k"
  by (simp_all add: bare_event_def)

lemma record_event_Inr:
  "record_event n k c s = Inr s' \<longleftrightarrow>
     (\<exists>b. burn_of s n = Some b \<and> s' = append_event (event_of s b k c) s)"
  by (auto simp: record_event_def split: option.splits)

text \<open>The row that a fresh authorization writes.\<close>

definition fresh_row :: "saved_submission \<Rightarrow> saved_submission" where
  "fresh_row r = r\<lparr>sv_status := Submitting, sv_withdrawal_id := None, sv_hold_reason := None,
     sv_last_http_status := None, sv_last_response := None, sv_last_error := None\<rparr>"

lemma fresh_row_simps [simp]:
  "sv_note_id (fresh_row r) = sv_note_id r" "sv_status (fresh_row r) = Submitting"
  "sv_endpoint (fresh_row r) = sv_endpoint r" "sv_body (fresh_row r) = sv_body r"
  "sv_transfer_spec_hash (fresh_row r) = sv_transfer_spec_hash r"
  "sv_withdrawal_id (fresh_row r) = None" "sv_hold_reason (fresh_row r) = None"
  "sv_last_http_status (fresh_row r) = None"
  by (simp_all add: fresh_row_def)

lemma save_submission_effect:
  assumes "save_submission x r s = Inr s'" and k: "keys_ok s"
  shows "validate_submission x r = Inr ()"
    and "\<exists>b. burn_of s (sv_note_id r) = Some b"
    and "submission_of s (sv_note_id r) = None \<or>
         (\<exists>old. submission_of s (sv_note_id r) = Some old \<and> sv_status old = Expired)"
    and "burn_of s' = burn_of s"
    and "submission_of s' = (submission_of s)(sv_note_id r \<mapsto> fresh_row r)"
    and "\<exists>e. logged (sv_note_id r) Authorized e s s'"
    and "same_chain s s'" and "keys_ok s'"
proof -
  let ?n = "sv_note_id r"
  obtain s1 where v: "validate_submission x r = Inr ()" and e: "record_event ?n Authorized None s1 = Inr s'"
    and s1: "(submission_of s ?n = None \<and> s1 = s\<lparr>st_submissions := insert_row (fresh_row r) (st_submissions s)\<rparr>) \<or>
      (\<exists>old. submission_of s ?n = Some old \<and> sv_status old = Expired \<and> s1 = set_submission ?n (\<lambda>_. fresh_row r) s)"
    using assms(1)
    by (auto simp: save_submission_def and_then_Inr_iff fresh_row_def Let_def split: option.splits if_splits)
  have new: "?n \<notin> sv_note_id ` set (st_submissions s)" if "submission_of s ?n = None"
    using that k by (simp add: submission_of_def rows.select_None keys_okD)
  have sub: "submission_of s1 = (submission_of s)(?n \<mapsto> fresh_row r)"
  proof
    fix m show "submission_of s1 m = ((submission_of s)(?n \<mapsto> fresh_row r)) m"
      using s1
    proof
      assume h: "submission_of s ?n = None \<and> s1 = s\<lparr>st_submissions := insert_row (fresh_row r) (st_submissions s)\<rparr>"
      then show ?thesis
        using rows.select_insert [of sv_note_id "st_submissions s" "fresh_row r" m] new k
        by (simp add: submission_of_def keys_okD)
    qed (auto simp: submission_of_set)
  qed
  have "keys_ok (set_submission ?n (\<lambda>_. fresh_row r) s)"
    using k by (simp add: keys_ok_set_submission)
  moreover have "keys_ok (s\<lparr>st_submissions := insert_row (fresh_row r) (st_submissions s)\<rparr>)"
    if "submission_of s ?n = None"
    using new [OF that] k by (simp add: keys_ok_def insert_row_def)
  ultimately have ks: "keys_ok s1" using s1 by auto
  have "burn_of s1 = burn_of s" "st_events s1 = st_events s" "st_next_seq s1 = st_next_seq s" "same_chain s s1"
    using s1 by (auto simp: same_chain_def fun_eq_iff)
  moreover obtain b where "burn_of s1 ?n = Some b" "s' = append_event (event_of s1 b Authorized None) s1"
    using e by (auto simp: record_event_Inr)
  ultimately show "validate_submission x r = Inr ()" "\<exists>b. burn_of s ?n = Some b"
    "submission_of s ?n = None \<or> (\<exists>old. submission_of s ?n = Some old \<and> sv_status old = Expired)"
    "burn_of s' = burn_of s" "submission_of s' = (submission_of s)(?n \<mapsto> fresh_row r)"
    "\<exists>e. logged ?n Authorized e s s'" "same_chain s s'" "keys_ok s'"
    using v s1 sub ks burn_of_key [of s1 ?n b]
    by (auto simp: logged_def same_chain_def fun_eq_iff)
qed

lemma release_hold_effect:
  assumes "release_hold n c s = Inr (k, s')" and ok: "keys_ok s"
  shows "(\<exists>b e. burn_of s n = Some b \<and> br_hold_reason b \<noteq> None \<and> k = (1, 0) \<and>
           burn_of s' = (burn_of s)(n \<mapsto> b\<lparr>br_hold_reason := None\<rparr>) \<and>
           submission_of s' = submission_of s \<and> logged n BurnReleased e s s') \<or>
         (\<exists>sub e. submission_of s n = Some sub \<and> sv_status sub = Held \<and> c \<and> k = (0, 1) \<and>
           burn_of s' = burn_of s \<and> submission_of s' = (submission_of s)(n := None) \<and>
           burn_of s n \<noteq> None \<and> logged n OperatorRelease e s s')"
    and "same_chain s s'" and "keys_ok s'"
proof -
  have ex: "list_ex (\<lambda>r. br_note_id r = n \<and> br_hold_reason r \<noteq> None) (st_burns s) \<longleftrightarrow>
      (\<exists>r. burn_of s n = Some r \<and> br_hold_reason r \<noteq> None)"
    using ok by (simp add: burn_of_def list_ex_key keys_okD)
  have held: "list_ex (\<lambda>r. sv_note_id r = n \<and> sv_status r = Held \<and> sv_hold_reason r = Some HttpRejected \<and>
      sv_withdrawal_id r = None) (st_submissions s) \<longleftrightarrow> (\<exists>r. submission_of s n = Some r \<and> sv_status r = Held \<and>
      sv_hold_reason r = Some HttpRejected \<and> sv_withdrawal_id r = None)"
    using ok by (simp add: submission_of_def list_ex_key keys_okD)
  note opened = assms(1) [unfolded release_hold_def ex held]
  show "(\<exists>b e. burn_of s n = Some b \<and> br_hold_reason b \<noteq> None \<and> k = (1, 0) \<and>
           burn_of s' = (burn_of s)(n \<mapsto> b\<lparr>br_hold_reason := None\<rparr>) \<and>
           submission_of s' = submission_of s \<and> logged n BurnReleased e s s') \<or>
         (\<exists>sub e. submission_of s n = Some sub \<and> sv_status sub = Held \<and> c \<and> k = (0, 1) \<and>
           burn_of s' = burn_of s \<and> submission_of s' = (submission_of s)(n := None) \<and>
           burn_of s n \<noteq> None \<and> logged n OperatorRelease e s s')"
  proof (cases "\<exists>r. burn_of s n = Some r \<and> br_hold_reason r \<noteq> None")
    case True
    then obtain b where b: "burn_of s n = Some b" "br_hold_reason b \<noteq> None" by blast
    define s1 where "s1 = append_event (event_of s b BurnReleased None) s"
    have "s' = set_burn n (\<lambda>r. r\<lparr>br_hold_reason := None\<rparr>) s1"
      and "k = (count_rows (\<lambda>r. br_note_id r = n) (st_burns s1), 0)"
      using opened True b by (auto simp: release_store_def record_event_def s1_def)
    moreover have "count_rows (\<lambda>r. br_note_id r = n) (st_burns s1) = 1"
      using ok b(1) by (subst count_rows_key1(2)) (auto simp: s1_def append_event_def burn_of_def keys_okD)
    ultimately show ?thesis
      using b burn_of_key [OF b(1)] by (auto simp: s1_def logged_def fun_eq_iff)
  next
    case False
    then obtain sub b where "submission_of s n = Some sub" "sv_status sub = Held" "c" "k = (0, 1)"
      "burn_of s n = Some b" "s' = drop_submission n (append_event (event_of s b OperatorRelease None) s)"
      using opened by (auto simp: release_store_def record_event_def and_then_Inr_iff split: if_splits option.splits)
    then show ?thesis using burn_of_key [of s n b] by (auto simp: logged_def fun_eq_iff)
  qed
  show "same_chain s s'" "keys_ok s'"
    using opened ok
    by (auto simp: release_store_def record_event_def and_then_Inr_iff same_chain_def keys_ok_drop
        split: if_splits option.splits)
qed


lemma hold_burn_effect:
  assumes "hold_burn n reason resp s = Inr s'" and ok: "keys_ok s"
  shows "\<exists>b e. burn_of s n = Some b \<and> logged n BurnHeld e s s' \<and>
           burn_of s' = (burn_of s)(n \<mapsto> b\<lparr>br_hold_reason := Some (hold_code reason), br_retry_at := None\<rparr>)"
    and "submission_of s' = submission_of s" and "same_chain s s'" and "keys_ok s'"
proof -
  obtain b where b: "burn_of s n = Some b"
    using assms count_rows_key1(2) [OF keys_okD(1) [OF ok], of n]
    by (auto simp: hold_burn_def burn_of_def split: if_splits)
  with assms show "\<exists>b e. burn_of s n = Some b \<and> logged n BurnHeld e s s' \<and>
           burn_of s' = (burn_of s)(n \<mapsto> b\<lparr>br_hold_reason := Some (hold_code reason), br_retry_at := None\<rparr>)"
    "submission_of s' = submission_of s" "same_chain s s'" "keys_ok s'"
    by (auto simp: hold_burn_def logged_def same_chain_def fun_eq_iff split: if_splits)
qed

definition outcome_row :: "saved_submission \<Rightarrow> saved_submission \<Rightarrow> saved_submission" where
  "outcome_row outcome r = r\<lparr>sv_status := sv_status outcome,
     sv_withdrawal_id := sv_withdrawal_id outcome, sv_hold_reason := sv_hold_reason outcome,
     sv_last_http_status := sv_last_http_status outcome,
     sv_last_response := sv_last_response outcome, sv_last_error := sv_last_error outcome\<rparr>"

lemma outcome_row_simps [simp]:
  "sv_note_id (outcome_row k r) = sv_note_id r" "sv_endpoint (outcome_row k r) = sv_endpoint r"
  "sv_body (outcome_row k r) = sv_body r"
  "sv_transfer_spec_hash (outcome_row k r) = sv_transfer_spec_hash r"
  "sv_status (outcome_row k r) = sv_status k" "sv_withdrawal_id (outcome_row k r) = sv_withdrawal_id k"
  "sv_hold_reason (outcome_row k r) = sv_hold_reason k"
  "sv_last_http_status (outcome_row k r) = sv_last_http_status k"
  by (simp_all add: outcome_row_def)

lemma outcome_row_same: "same_request k r \<Longrightarrow> outcome_row k r = k"
  by (simp add: outcome_row_def same_request_def)

text \<open>The burn's wait for the withdrawal limit ends with every status that settles the attempt.\<close>

definition settles :: "submission_status \<Rightarrow> bool" where
  "settles st \<longleftrightarrow> st \<in> {Submitted, Finalized, Failed, Held}"

lemma fold_max: "fold max qs (q :: nat) \<in> insert q (set qs) \<and> (\<forall>p \<in> insert q (set qs). p \<le> fold max qs q)"
proof (induction qs arbitrary: q)
  case (Cons a qs)
  from Cons [of "max a q"] show ?case by (auto simp: max_def split: if_splits)
qed simp

lemma max_seq_Some:
  assumes "max_seq p s = Some q"
  shows "\<exists>e \<in> set (st_events s). p e \<and> ev_seq e = q" and "e \<in> set (st_events s) \<Longrightarrow> p e \<Longrightarrow> ev_seq e \<le> q"
proof -
  obtain a as where m: "map ev_seq (filter p (st_events s)) = a # as" "q = fold max as a"
    using assms by (auto simp: max_seq_def split: list.splits)
  then have "insert a (set as) = ev_seq ` {e \<in> set (st_events s). p e}"
    by (metis list.set_map list.simps(15) set_filter)
  then show "\<exists>e \<in> set (st_events s). p e \<and> ev_seq e = q"
    and "e \<in> set (st_events s) \<Longrightarrow> p e \<Longrightarrow> ev_seq e \<le> q"
    using fold_max [of as a] m(2) by auto
qed

lemma max_seq_None: "max_seq p s = None \<longleftrightarrow> (\<forall>e \<in> set (st_events s). \<not> p e)"
proof -
  have "max_seq p s = None \<longleftrightarrow> filter p (st_events s) = []"
    by (cases "filter p (st_events s)") (simp_all add: max_seq_def)
  then show ?thesis by (simp add: filter_empty_conv)
qed

lemma repeats_latest_outcome_event:
  assumes "repeats_latest_outcome s k c" and d: "distinct (map ev_seq (st_events s))"
  shows "\<exists>e \<in> set (st_events s). ev_note_id e = sv_note_id k \<and> ev_kind e = Outcome \<and>
     ev_status e = Some (sv_status k) \<and>
     (\<forall>a \<in> set (st_events s). ev_note_id a = sv_note_id k \<longrightarrow> ev_kind a = Authorized \<longrightarrow> ev_seq a < ev_seq e)"
proof -
  let ?auth = "\<lambda>e. ev_note_id e = sv_note_id k \<and> ev_kind e = Authorized"
  define a0 where "a0 = (case max_seq ?auth s of None \<Rightarrow> 0 | Some q \<Rightarrow> q)"
  let ?out = "\<lambda>e. ev_note_id e = sv_note_id k \<and> ev_kind e = Outcome \<and> a0 < ev_seq e"
  obtain q e where q: "max_seq ?out s = Some q" and e: "e \<in> set (st_events s)" "ev_seq e = q"
    "ev_status e = Some (sv_status k)"
    using assms(1) by (auto simp: repeats_latest_outcome_def Let_def a0_def list_ex_iff split: option.splits)
  obtain e' where e': "e' \<in> set (st_events s)" "?out e'" "ev_seq e' = q" using max_seq_Some(1) [OF q] by blast
  have "e' = e" using d e e' by (metis distinct_map inj_onD)
  moreover have "ev_seq a \<le> a0" if "a \<in> set (st_events s)" "?auth a" for a
    using that max_seq_Some(2) [of ?auth s _ a] max_seq_None [of ?auth s]
    by (auto simp: a0_def split: option.splits)
  ultimately show ?thesis using e e' by (intro bexI [of _ e]) (auto intro: le_less_trans)
qed

lemma update_submission_outcome_effect:
  assumes "update_submission_outcome x k s = Inr s'" and ok: "keys_ok s"
    and d: "distinct (map ev_seq (st_events s))"
  shows "validate_submission_outcome k = Inr ()"
    and "\<exists>r. submission_of s (sv_note_id k) = Some r \<and>
           submission_of s' = (submission_of s)(sv_note_id k \<mapsto> outcome_row k r)"
    and "burn_of s' = (if settles (sv_status k)
           then (burn_of s)(sv_note_id k := map_option (\<lambda>b. b\<lparr>br_retry_at := None\<rparr>) (burn_of s (sv_note_id k)))
           else burn_of s)"
    and "(\<exists>e. logged (sv_note_id k) Outcome e s s' \<and> ev_status e = Some (sv_status k) \<and>
            burn_of s (sv_note_id k) \<noteq> None) \<or>
         (unlogged s s' \<and> (\<exists>e \<in> set (st_events s). ev_note_id e = sv_note_id k \<and>
            ev_kind e = Outcome \<and> ev_status e = Some (sv_status k) \<and>
            (\<forall>a \<in> set (st_events s). ev_note_id a = sv_note_id k \<longrightarrow> ev_kind a = Authorized \<longrightarrow>
               ev_seq a < ev_seq e)))"
    and "same_chain s s'" and "keys_ok s'"
proof -
  let ?n = "sv_note_id k" and ?c = "circle_status x (sv_last_response k)"
  define s1 where "s1 = set_submission ?n (outcome_row k) s"
  obtain s2 where v: "validate_submission_outcome k = Inr ()"
    and cnt: "count_rows (\<lambda>r. sv_note_id r = ?n) (st_submissions s) = 1"
    and s2: "(repeats_latest_outcome s1 k ?c \<and> s2 = s1) \<or> record_event ?n Outcome ?c s1 = Inr s2"
    and s': "s' = (if settles (sv_status k) then set_burn ?n (\<lambda>r. r\<lparr>br_retry_at := None\<rparr>) s2 else s2)"
    using assms(1)
    unfolding update_submission_outcome_def Let_def settles_def s1_def outcome_row_def [abs_def]
    by (auto simp: and_then_Inr_iff split: if_splits)
  obtain r where r: "submission_of s ?n = Some r"
    using cnt count_rows_key1(2) [OF keys_okD(2) [OF ok]] by (auto simp: submission_of_def)
  have one: "submission_of s1 = (submission_of s)(?n \<mapsto> outcome_row k r)" "burn_of s1 = burn_of s"
    "st_events s1 = st_events s" "st_next_seq s1 = st_next_seq s" "same_chain s s1" "keys_ok s1"
    using r ok by (auto simp: s1_def fun_eq_iff submission_of_set same_chain_def keys_ok_set_submission)
  have two: "submission_of s2 = submission_of s1" "burn_of s2 = burn_of s1" "same_chain s1 s2" "keys_ok s2"
    using s2 one by (auto simp: record_event_Inr same_chain_def fun_eq_iff)
  show "validate_submission_outcome k = Inr ()" by (rule v)
  show "\<exists>r. submission_of s ?n = Some r \<and> submission_of s' = (submission_of s)(?n \<mapsto> outcome_row k r)"
    using r one two s' by (auto simp: fun_eq_iff)
  show "burn_of s' = (if settles (sv_status k)
      then (burn_of s)(?n := map_option (\<lambda>b. b\<lparr>br_retry_at := None\<rparr>) (burn_of s ?n)) else burn_of s)"
    using one two s' by (auto simp: fun_eq_iff)
  show "same_chain s s'" "keys_ok s'" using one two s' by (auto simp: same_chain_def)
  have ev: "st_events s' = st_events s2" "st_next_seq s' = st_next_seq s2" using s' by auto
  show "(\<exists>e. logged ?n Outcome e s s' \<and> ev_status e = Some (sv_status k) \<and> burn_of s ?n \<noteq> None) \<or>
      (unlogged s s' \<and> (\<exists>e \<in> set (st_events s). ev_note_id e = ?n \<and> ev_kind e = Outcome \<and>
         ev_status e = Some (sv_status k) \<and>
         (\<forall>a \<in> set (st_events s). ev_note_id a = ?n \<longrightarrow> ev_kind a = Authorized \<longrightarrow> ev_seq a < ev_seq e)))"
    using s2
  proof
    assume "repeats_latest_outcome s1 k ?c \<and> s2 = s1"
    then show ?thesis
      using repeats_latest_outcome_event [of s1 k ?c] d one ev by (auto simp: unlogged_def)
  next
    assume "record_event ?n Outcome ?c s1 = Inr s2"
    then obtain b where b: "burn_of s1 ?n = Some b" "s2 = append_event (event_of s1 b Outcome ?c) s1"
      by (auto simp: record_event_Inr)
    then have "logged ?n Outcome (event_of s1 b Outcome ?c (st_next_seq s)) s s'"
      and "ev_status (event_of s1 b Outcome ?c (st_next_seq s)) = Some (sv_status k)"
      using one ev burn_of_key [OF b(1)] by (auto simp: logged_def)
    then show ?thesis using b(1) one(2) by auto
  qed
qed

lemma advance_limit_retry_effect:
  assumes "advance_limit_retry n t s = Inr s'" and ok: "keys_ok s"
  shows "\<exists>b. burn_of s n = Some b \<and> br_retry_at b \<noteq> None \<and> 0 \<le> t \<and>
           burn_of s' = (burn_of s)(n \<mapsto> b\<lparr>br_retry_at := Some t\<rparr>)"
    and "submission_of s' = submission_of s" and "unlogged s s'" and "same_chain s s'" and "keys_ok s'"
proof -
  let ?f = "\<lambda>r. if br_retry_at r \<noteq> None then r\<lparr>br_retry_at := Some t\<rparr> else r"
  have cnt: "count_rows (\<lambda>r. br_note_id r = n \<and> br_retry_at r \<noteq> None) (st_burns s) = 1"
    and neg: "\<not> (t < 0 \<and> list_ex (\<lambda>r. br_note_id r = n \<and> br_retry_at r \<noteq> None) (st_burns s))"
    and s': "s' = set_burn n ?f s"
    using assms(1) by (auto simp: advance_limit_retry_def split: if_splits)
  obtain b where b: "burn_of s n = Some b" "br_retry_at b \<noteq> None"
    using cnt count_rows_key1(1) [OF keys_okD(1) [OF ok], where P = "\<lambda>r. br_retry_at r \<noteq> None"]
    by (auto simp: burn_of_def)
  moreover have "0 \<le> t"
    using neg b list_ex_key [OF keys_okD(1) [OF ok], of n "\<lambda>r. br_retry_at r \<noteq> None"]
    by (auto simp: burn_of_def)
  ultimately show "\<exists>b. burn_of s n = Some b \<and> br_retry_at b \<noteq> None \<and> 0 \<le> t \<and>
           burn_of s' = (burn_of s)(n \<mapsto> b\<lparr>br_retry_at := Some t\<rparr>)"
    by (auto simp: s' fun_eq_iff)
  show "submission_of s' = submission_of s" "unlogged s s'" "same_chain s s'" "keys_ok s'"
    using ok by (simp_all add: s' unlogged_def same_chain_def fun_eq_iff)
qed

text \<open>What a limit rejection leaves of the rejected request.\<close>

definition rejected_row :: "bytes \<Rightarrow> saved_submission \<Rightarrow> saved_submission" where
  "rejected_row response r = r\<lparr>sv_last_http_status := Some 400, sv_last_response := Some response,
     sv_last_error := Some ''Circle withdrawal limit''\<rparr>"

definition after_rejection ::
    "bytes \<Rightarrow> (saved_submission \<times> submission_attempt) option \<Rightarrow> saved_submission option \<Rightarrow> saved_submission option" where
  "after_rejection response sub old = (case sub of
       None \<Rightarrow> old
     | Some (_, First) \<Rightarrow> None
     | Some (_, Recovery) \<Rightarrow> map_option (rejected_row response) old)"

lemma reject_submission_effect:
  assumes "reject_submission n response saved attempt s = Inr s'" and ok: "keys_ok s"
  shows "\<exists>r. submission_of s n = Some r \<and> sv_status r = Submitting \<and> same_request r saved"
    and "submission_of s' = (submission_of s)(n := after_rejection response (Some (saved, attempt)) (submission_of s n))"
    and "burn_of s' = burn_of s" and "unlogged s s'" and "same_chain s s'" and "keys_ok s'"
proof -
  let ?P = "\<lambda>r. sv_status r = Submitting \<and> sv_withdrawal_id r = None \<and> sv_endpoint r = sv_endpoint saved \<and>
    sv_body r = sv_body saved \<and> sv_transfer_spec_hash r = sv_transfer_spec_hash saved"
  have same: "same_attempt n saved = (\<lambda>r. sv_note_id r = n \<and> ?P r)"
    by (simp add: same_attempt_def fun_eq_iff)
  have n: "sv_note_id saved = n" and cnt: "count_rows (same_attempt n saved) (st_submissions s) = 1"
    using assms(1) by (auto simp: reject_submission_def split: if_splits)
  obtain r where r: "submission_of s n = Some r" "?P r"
    using cnt count_rows_key1(1) [OF keys_okD(2) [OF ok], of n ?P] by (auto simp: same submission_of_def)
  then show "\<exists>r. submission_of s n = Some r \<and> sv_status r = Submitting \<and> same_request r saved"
    using n submission_of_key [OF r(1)] by (auto simp: same_request_def)
  have only: "same_attempt n saved q \<longleftrightarrow> sv_note_id q = n" if "q \<in> set (st_submissions s)" for q
    using that r submission_of_mem [OF ok that] by (auto simp: same)
  have s': "s' = (case attempt of First \<Rightarrow> drop_submission n s | Recovery \<Rightarrow> set_submission n (rejected_row response) s)"
    using assms(1) only
    by (auto simp: reject_submission_def drop_submission_def delete_by_def set_submission_def update_by_def
        rejected_row_def split: if_splits submission_attempt.splits cong: filter_cong)
  have nid: "sv_note_id (rejected_row response q) = sv_note_id q" for q by (simp add: rejected_row_def)
  show "submission_of s' = (submission_of s)(n := after_rejection response (Some (saved, attempt)) (submission_of s n))"
    by (auto simp: s' after_rejection_def submission_of_set nid fun_eq_iff split: submission_attempt.splits)
  show "burn_of s' = burn_of s" "unlogged s s'" "same_chain s s'" "keys_ok s'"
    using ok by (auto simp: s' unlogged_def same_chain_def fun_eq_iff keys_ok_drop keys_ok_set_submission nid
        split: submission_attempt.splits)
qed

lemma record_limit_rejection_effect:
  assumes "record_limit_rejection n t response sub s = Inr s'" and ok: "keys_ok s"
  shows "\<exists>b c. burn_of s n = Some b \<and> br_consumption_block b = Some c \<and> br_hold_reason b = None \<and> 0 \<le> t \<and>
           burn_of s' = (burn_of s)(n \<mapsto> b\<lparr>br_retry_at := Some t\<rparr>)"
    and "\<And>saved attempt. sub = Some (saved, attempt) \<Longrightarrow>
           \<exists>r. submission_of s n = Some r \<and> sv_status r = Submitting \<and> same_request r saved"
    and "submission_of s' = (submission_of s)(n := after_rejection response sub (submission_of s n))"
    and "\<exists>e. logged n WithdrawalLimit e s s'" and "same_chain s s'" and "keys_ok s'"
proof -
  let ?P = "\<lambda>r. br_consumption_block r \<noteq> None \<and> br_hold_reason r = None"
  let ?f = "\<lambda>r. if br_note_id r = n \<and> ?P r then r\<lparr>br_retry_at := Some t\<rparr> else r"
  define s1 where "s1 = set_burn n ?f s"
  obtain s2 where neg: "\<not> (t < 0 \<and> list_ex (\<lambda>r. br_note_id r = n \<and> ?P r) (st_burns s))"
    and cnt: "count_rows (\<lambda>r. br_note_id r = n \<and> ?P r) (st_burns s) = 1"
    and s2: "(case sub of None \<Rightarrow> Inr s1 | Some (saved, attempt) \<Rightarrow> reject_submission n response saved attempt s1) = Inr s2"
    and s': "s' = append_event (bare_event n WithdrawalLimit (Some 400) (Some response) None) s2"
    using assms(1)
    unfolding record_limit_rejection_def Let_def s1_def by (auto simp: and_then_Inr_iff split: if_splits)
  obtain b where b: "burn_of s n = Some b" "?P b"
    using cnt count_rows_key1(1) [OF keys_okD(1) [OF ok], of n ?P] by (auto simp: burn_of_def)
  have t: "0 \<le> t"
    using neg b list_ex_key [OF keys_okD(1) [OF ok], of n ?P] by (auto simp: burn_of_def)
  have one: "burn_of s1 = (burn_of s)(n \<mapsto> b\<lparr>br_retry_at := Some t\<rparr>)" "submission_of s1 = submission_of s"
    "unlogged s s1" "same_chain s s1" "keys_ok s1"
    using b ok burn_of_key [OF b(1)] by (auto simp: s1_def fun_eq_iff unlogged_def same_chain_def)
  have two: "burn_of s2 = burn_of s1 \<and> unlogged s1 s2 \<and> same_chain s1 s2 \<and> keys_ok s2 \<and>
      submission_of s2 = (submission_of s1)(n := after_rejection response sub (submission_of s1 n))"
  proof (cases sub)
    case None
    then show ?thesis using s2 one by (auto simp: unlogged_def same_chain_def after_rejection_def)
  next
    case (Some p)
    then show ?thesis using s2 reject_submission_effect [OF _ one(5)] by (cases p) auto
  qed
  show "\<exists>b c. burn_of s n = Some b \<and> br_consumption_block b = Some c \<and> br_hold_reason b = None \<and> 0 \<le> t \<and>
           burn_of s' = (burn_of s)(n \<mapsto> b\<lparr>br_retry_at := Some t\<rparr>)"
    using b t one two by (auto simp: s' fun_eq_iff)
  show "\<exists>r. submission_of s n = Some r \<and> sv_status r = Submitting \<and> same_request r saved"
    if "sub = Some (saved, attempt)" for saved attempt
    using that s2 reject_submission_effect(1) [OF _ one(5)] one(2) by auto
  show "submission_of s' = (submission_of s)(n := after_rejection response sub (submission_of s n))"
    using two one(2) by (auto simp: s' fun_eq_iff)
  show "\<exists>e. logged n WithdrawalLimit e s s'" "same_chain s s'" "keys_ok s'"
    using one two by (auto simp: s' logged_def unlogged_def same_chain_def)
qed

section \<open>Effects of a scanned block\<close>

definition new_row :: "ext \<Rightarrow> miden_note \<Rightarrow> block_number \<Rightarrow> block_number option \<Rightarrow> burn_row" where
  "new_row x n created consumption = \<lparr>br_note_id = nt_id n, br_nullifier = nt_nullifier n,
     br_note = x_note_to_bytes x n, br_creation_block = created, br_consumption_block = consumption,
     br_hold_reason = None, br_retry_at = None\<rparr>"

lemma new_row_simps [simp]:
  "br_note_id (new_row x n cb c) = nt_id n" "br_nullifier (new_row x n cb c) = nt_nullifier n"
  "br_creation_block (new_row x n cb c) = cb" "br_consumption_block (new_row x n cb c) = c"
  "br_hold_reason (new_row x n cb c) = None" "br_retry_at (new_row x n cb c) = None"
  "br_note (new_row x n cb c) = x_note_to_bytes x n"
  by (simp_all add: new_row_def)

lemma insert_row_effect:
  assumes "\<not> clashes (br_note_id r) (br_nullifier r) s" and ok: "keys_ok s"
  shows "burn_of s (br_note_id r) = None"
    and "burn_of (s\<lparr>st_burns := insert_row r (st_burns s)\<rparr>) = (burn_of s)(br_note_id r \<mapsto> r)"
    and "keys_ok (s\<lparr>st_burns := insert_row r (st_burns s)\<rparr>)"
proof -
  have fresh: "br_note_id r \<notin> br_note_id ` set (st_burns s)" "br_nullifier r \<notin> br_nullifier ` set (st_burns s)"
    using assms(1) by (auto simp: clashes_def list_ex_iff)
  then show "burn_of s (br_note_id r) = None"
    using ok by (simp add: burn_of_def rows.select_None keys_okD)
  show "burn_of (s\<lparr>st_burns := insert_row r (st_burns s)\<rparr>) = (burn_of s)(br_note_id r \<mapsto> r)"
    using rows.select_insert [OF keys_okD(1) [OF ok] fresh(1)] by (auto simp: burn_of_def fun_eq_iff)
  show "keys_ok (s\<lparr>st_burns := insert_row r (st_burns s)\<rparr>)"
    using ok fresh by (auto simp: keys_ok_def insert_row_def)
qed

lemma insert_candidate_effect:
  assumes "insert_candidate x c s = Inr s'" and ok: "keys_ok s"
  shows "burn_of s (bc_note_id c) = None"
    and "burn_of s' = (burn_of s)(bc_note_id c \<mapsto> new_row x (bc_note c) (bc_creation_block c) None)"
    and "submission_of s' = submission_of s" and "unlogged s s'" and "same_chain s s'" and "keys_ok s'"
proof -
  let ?r = "new_row x (bc_note c) (bc_creation_block c) None"
  have "\<not> clashes (br_note_id ?r) (br_nullifier ?r) s" and s': "s' = s\<lparr>st_burns := insert_row ?r (st_burns s)\<rparr>"
    using assms(1)
    by (auto simp: insert_candidate_def new_row_def bc_note_id_def bc_nullifier_def split: if_splits)
  from insert_row_effect [OF this(1) ok] s'
  show "burn_of s (bc_note_id c) = None"
    "burn_of s' = (burn_of s)(bc_note_id c \<mapsto> new_row x (bc_note c) (bc_creation_block c) None)"
    "submission_of s' = submission_of s" "unlogged s s'" "same_chain s s'" "keys_ok s'"
    by (simp_all add: bc_note_id_def unlogged_def same_chain_def fun_eq_iff)
qed

lemma insert_burn_effect:
  assumes "insert_burn x b s = Inr s'" and ok: "keys_ok s"
  shows "(\<exists>r. burn_of s (db_note_id b) = Some r \<and> br_consumption_block r = None \<and>
            br_creation_block r < db_consumption_block b \<and>
            burn_of s' = (burn_of s)(db_note_id b \<mapsto> r\<lparr>br_consumption_block := Some (db_consumption_block b)\<rparr>)) \<or>
         (burn_of s (db_note_id b) = None \<and> db_creation_block b < db_consumption_block b \<and>
            burn_of s' = (burn_of s)(db_note_id b \<mapsto>
              new_row x (db_note b) (db_creation_block b) (Some (db_consumption_block b))))"
    and "submission_of s' = submission_of s" and "unlogged s s'" and "same_chain s s'" and "keys_ok s'"
proof -
  let ?n = "db_note_id b" and ?c = "db_consumption_block b"
  let ?cand = "\<lambda>r. br_note_id r = ?n \<and> br_consumption_block r = None"
  let ?f = "\<lambda>r. if ?cand r then r\<lparr>br_consumption_block := Some ?c\<rparr> else r"
  let ?r = "new_row x (db_note b) (db_creation_block b) (Some ?c)"
  have one: "count_rows ?cand (st_burns s) = 1 \<longleftrightarrow> (\<exists>r. burn_of s ?n = Some r \<and> br_consumption_block r = None)"
    using count_rows_key1(1) [OF keys_okD(1) [OF ok]] by (simp add: burn_of_def)
  have late: "\<not> list_ex (\<lambda>r. ?cand r \<and> ?c \<le> br_creation_block r) (st_burns s)"
    using assms(1) by (auto simp: insert_burn_def Let_def split: if_splits)
  have "((\<exists>r. burn_of s ?n = Some r \<and> br_consumption_block r = None \<and> br_creation_block r < ?c \<and>
            burn_of s' = (burn_of s)(?n \<mapsto> r\<lparr>br_consumption_block := Some ?c\<rparr>)) \<or>
         (burn_of s ?n = None \<and> db_creation_block b < ?c \<and> burn_of s' = (burn_of s)(?n \<mapsto> ?r))) \<and>
     submission_of s' = submission_of s \<and> unlogged s s' \<and> same_chain s s' \<and> keys_ok s'"
  proof (cases "count_rows ?cand (st_burns s) = 1")
    case True
    then obtain r where r: "burn_of s ?n = Some r" "br_consumption_block r = None" using one by blast
    have s': "s' = set_burn ?n ?f s"
      using assms(1) late True by (simp add: insert_burn_def Let_def)
    have "br_creation_block r < ?c"
      using late r burn_of_key [OF r(1)] by (auto simp: list_ex_iff not_le)
    then show ?thesis
      using r ok burn_of_key [OF r(1)] by (auto simp: s' fun_eq_iff unlogged_def same_chain_def)
  next
    case False
    then have "\<not> clashes (br_note_id ?r) (br_nullifier ?r) s" and lt: "db_creation_block b < ?c"
      and s': "s' = s\<lparr>st_burns := insert_row ?r (st_burns s)\<rparr>"
      using assms(1) late
      by (auto simp: insert_burn_def Let_def new_row_def db_note_id_def db_nullifier_def split: if_splits)
    from insert_row_effect [OF this(1) ok] lt s' show ?thesis
      by (simp add: db_note_id_def unlogged_def same_chain_def fun_eq_iff)
  qed
  then show "(\<exists>r. burn_of s ?n = Some r \<and> br_consumption_block r = None \<and> br_creation_block r < ?c \<and>
            burn_of s' = (burn_of s)(?n \<mapsto> r\<lparr>br_consumption_block := Some ?c\<rparr>)) \<or>
         (burn_of s ?n = None \<and> db_creation_block b < ?c \<and> burn_of s' = (burn_of s)(?n \<mapsto> ?r))"
    "submission_of s' = submission_of s" "unlogged s s'" "same_chain s s'" "keys_ok s'" by blast+
qed

lemma insert_all_induct:
  assumes "insert_all f as s = Inr s'" and "P s"
    and "\<And>a s s'. a \<in> set as \<Longrightarrow> P s \<Longrightarrow> f a s = Inr s' \<Longrightarrow> P s'"
  shows "P s'"
  using assms by (induction as arbitrary: s) (auto simp: and_then_Inr_iff)

lemma save_scan_progress_Inr:
  "save_scan_progress x cs bs h s = Inr s' \<longleftrightarrow>
     (\<exists>s1 s2. (\<forall>c \<in> set cs. bc_creation_block c \<le> hd_block_num h) \<and>
        (\<forall>b \<in> set bs. db_creation_block b < db_consumption_block b \<and> db_consumption_block b \<le> hd_block_num h) \<and>
        insert_all (insert_candidate x) cs s = Inr s1 \<and> insert_all (insert_burn x) bs s1 = Inr s2 \<and>
        s' = s2\<lparr>st_checkpoint := Some h\<rparr>)"
  by (auto simp: save_scan_progress_def validate_discovery_records_def and_then_Inr_iff list_ex_iff
      not_le not_less)

end
