(* ===== verification/Store_Inv.thy ===== *)
theory Store_Inv
  imports Store_Effects
begin

text \<open>
  The invariant of the attester's store and its history, and the transactions as a step relation:
  every state that the store's operations reach, called the way the attester calls them, satisfies
  the invariant, and no burn is authorized twice without a recorded reason.
\<close>

section \<open>The tables\<close>

definition row_ok :: "ext \<Rightarrow> account_id \<Rightarrow> burn_row \<Rightarrow> bool" where
  "row_ok x faucet r \<longleftrightarrow>
     (\<exists>n items amount. decode_note x (br_note r) (br_note_id r) (br_nullifier r) = Inr n \<and>
        consumable_burn x faucet n items amount) \<and>
     (\<forall>c. br_consumption_block r = Some c \<longrightarrow> br_creation_block r < c) \<and>
     (\<forall>h. br_hold_reason r = Some h \<longrightarrow> from_code h \<noteq> None) \<and>
     (\<forall>t. br_retry_at r = Some t \<longrightarrow> 0 \<le> t)"

definition blocks_seen :: "header option \<Rightarrow> burn_row \<Rightarrow> bool" where
  "blocks_seen checkpoint r \<longleftrightarrow> (\<exists>h. checkpoint = Some h \<and> br_creation_block r \<le> hd_block_num h \<and>
     (\<forall>c. br_consumption_block r = Some c \<longrightarrow> c \<le> hd_block_num h))"

definition wait_ok :: "burn_row \<Rightarrow> saved_submission option \<Rightarrow> bool" where
  "wait_ok r sub \<longleftrightarrow> br_retry_at r = None \<or>
     (br_consumption_block r \<noteq> None \<and> br_hold_reason r = None \<and>
      (\<forall>q. sub = Some q \<longrightarrow> sv_status q \<in> {Submitting, Expired}))"

definition sub_ok :: "ext \<Rightarrow> burn_row option \<Rightarrow> saved_submission \<Rightarrow> bool" where
  "sub_ok x b q \<longleftrightarrow> validate_submission x q = Inr () \<and>
     (\<exists>r c. b = Some r \<and> br_consumption_block r = Some c)"

definition tables_ok :: "ext \<Rightarrow> store \<Rightarrow> bool" where
  "tables_ok x s \<longleftrightarrow> keys_ok s \<and>
     (\<forall>n r. burn_of s n = Some r \<longrightarrow> row_ok x (st_faucet s) r \<and> blocks_seen (st_checkpoint s) r \<and>
        wait_ok r (submission_of s n)) \<and>
     (\<forall>n q. submission_of s n = Some q \<longrightarrow> sub_ok x (burn_of s n) q) \<and>
     (\<forall>h. st_checkpoint s = Some h \<longrightarrow> st_anchor_block s \<le> hd_block_num h)"

lemma limit_wait_ok_iff: "limit_wait_ok s r \<longleftrightarrow> wait_ok r (submission_of s (br_note_id r))"
  by (auto simp: limit_wait_ok_def wait_ok_def split: option.splits)

lemma tables_okD:
  assumes "tables_ok x s"
  shows "keys_ok s"
    and "burn_of s n = Some r \<Longrightarrow> row_ok x (st_faucet s) r \<and> blocks_seen (st_checkpoint s) r \<and> wait_ok r (submission_of s n)"
    and "submission_of s n = Some q \<Longrightarrow> sub_ok x (burn_of s n) q"
  using assms by (auto simp: tables_ok_def)

text \<open>One row of each table changes: what the new rows must satisfy.\<close>

lemma tables_ok_write:
  assumes "tables_ok x s" and "keys_ok s'" and "same_chain s s'"
    and "burn_of s' = (burn_of s)(n \<mapsto> b)" and "submission_of s' = (submission_of s)(n := sub)"
    and "row_ok x (st_faucet s) b" and "blocks_seen (st_checkpoint s) b" and "wait_ok b sub"
    and "\<And>q. sub = Some q \<Longrightarrow> sub_ok x (Some b) q"
  shows "tables_ok x s'"
  using assms unfolding tables_ok_def by (auto simp: same_chain_def)

lemma tables_ok_write_burn:
  assumes "tables_ok x s" and "keys_ok s'" and "same_chain s s'"
    and "burn_of s n = Some b0" and "burn_of s' = (burn_of s)(n \<mapsto> b)" and "submission_of s' = submission_of s"
    and "br_consumption_block b = br_consumption_block b0" and "br_creation_block b = br_creation_block b0"
    and "row_ok x (st_faucet s) b" and "wait_ok b (submission_of s n)"
  shows "tables_ok x s'"
proof (rule tables_ok_write [where sub = "submission_of s n" and b = b and n = n and s = s])
  show "blocks_seen (st_checkpoint s) b"
    using tables_okD(2) [OF assms(1,4)] assms(7,8) by (simp add: blocks_seen_def)
  show "sub_ok x (Some b) q" if "submission_of s n = Some q" for q
    using tables_okD(3) [OF assms(1) that] assms(4,7) by (auto simp: sub_ok_def)
qed (use assms in auto)

lemma tables_ok_write_sub:
  assumes "tables_ok x s" and "keys_ok s'" and "same_chain s s'"
    and "burn_of s n = Some b" and "burn_of s' = burn_of s" and "submission_of s' = (submission_of s)(n := sub)"
    and "wait_ok b sub" and "\<And>q. sub = Some q \<Longrightarrow> sub_ok x (Some b) q"
  shows "tables_ok x s'"
proof (rule tables_ok_write [where sub = sub and b = b and n = n and s = s])
  show "burn_of s' = (burn_of s)(n \<mapsto> b)" using assms(4,5) by (simp add: fun_upd_idem)
qed (use assms tables_okD(2) [OF assms(1,4)] in auto)

section \<open>The history\<close>

definition history_ok :: "store \<Rightarrow> bool" where
  "history_ok s \<longleftrightarrow> sorted_wrt (<) (map ev_seq (st_events s)) \<and> 0 < st_next_seq s \<and>
     (\<forall>e \<in> set (st_events s). 0 < ev_seq e \<and> ev_seq e < st_next_seq s \<and> burn_of s (ev_note_id e) \<noteq> None)"

lemma history_ok_distinct: "history_ok s \<Longrightarrow> distinct (map ev_seq (st_events s))"
  unfolding history_ok_def using strict_sorted_iff by blast

lemma history_ok_logged:
  assumes "history_ok s" and "logged n k e s s'" and "burn_of s n \<noteq> None"
    and "\<And>m. burn_of s m \<noteq> None \<Longrightarrow> burn_of s' m \<noteq> None"
  shows "history_ok s'"
  using assms unfolding history_ok_def logged_def
  by (auto simp: sorted_wrt_append less_Suc_eq)

lemma history_ok_unlogged:
  assumes "history_ok s" and "unlogged s s'" and "\<And>m. burn_of s m \<noteq> None \<Longrightarrow> burn_of s' m \<noteq> None"
  shows "history_ok s'"
  using assms unfolding history_ok_def unlogged_def by auto

text \<open>
  An authorization stays open until the history shows why another may follow: Circle reported the
  withdrawal expired, an operator released the held request, or Circle rejected it for its
  withdrawal limit.
\<close>

definition auth_after :: "note_id \<Rightarrow> event_row \<Rightarrow> bool \<Rightarrow> bool" where
  "auth_after n e open =
     (if ev_note_id e \<noteq> n then open
      else (case ev_kind e of
          Authorized \<Rightarrow> True
        | Outcome \<Rightarrow> open \<and> ev_status e \<noteq> Some Expired
        | OperatorRelease \<Rightarrow> False
        | WithdrawalLimit \<Rightarrow> False
        | BurnHeld \<Rightarrow> open
        | BurnReleased \<Rightarrow> open))"

definition open_auth :: "note_id \<Rightarrow> event_row list \<Rightarrow> bool" where
  "open_auth n evs = fold (auth_after n) evs False"

definition single_authorization :: "event_row list \<Rightarrow> bool" where
  "single_authorization evs \<longleftrightarrow>
     (\<forall>i < length evs. ev_kind (evs ! i) = Authorized \<longrightarrow> \<not> open_auth (ev_note_id (evs ! i)) (take i evs))"

lemma open_auth_snoc [simp]: "open_auth n (evs @ [e]) = auth_after n e (open_auth n evs)"
  by (simp add: open_auth_def)

lemma single_authorization_snoc:
  "single_authorization (evs @ [e]) \<longleftrightarrow>
     single_authorization evs \<and> (ev_kind e = Authorized \<longrightarrow> \<not> open_auth (ev_note_id e) evs)"
  by (auto simp: single_authorization_def nth_append less_Suc_eq)

lemma open_auth_closed:
  assumes "sorted_wrt (<) (map ev_seq evs)" and "e \<in> set evs" and "ev_note_id e = n"
    and "ev_kind e = Outcome" and "ev_status e = Some Expired"
    and "\<forall>a \<in> set evs. ev_note_id a = n \<longrightarrow> ev_kind a = Authorized \<longrightarrow> ev_seq a < ev_seq e"
  shows "\<not> open_auth n evs"
  using assms
proof (induction evs rule: rev_induct)
  case (snoc l evs)
  have lt: "\<forall>a \<in> set evs. ev_seq a < ev_seq l" using snoc.prems(1) by (simp add: sorted_wrt_append)
  show ?case
  proof (cases "e = l")
    case True
    then show ?thesis using snoc.prems by (simp add: auth_after_def)
  next
    case False
    then have e: "e \<in> set evs" using snoc.prems(2) by simp
    then have "\<not> (ev_note_id l = n \<and> ev_kind l = Authorized)"
      using snoc.prems(6) lt by fastforce
    moreover have "\<not> open_auth n evs"
      using snoc.IH snoc.prems e by (simp add: sorted_wrt_append)
    ultimately show ?thesis by (auto simp: auth_after_def split: event_kind.splits)
  qed
qed simp

definition auth_ok :: "store \<Rightarrow> bool" where
  "auth_ok s \<longleftrightarrow> single_authorization (st_events s) \<and>
     (\<forall>n. open_auth n (st_events s) \<longrightarrow> (\<exists>q. submission_of s n = Some q \<and> sv_status q \<noteq> Expired))"

text \<open>A held burn and every saved request have a history row, so a release can name one.\<close>

definition holds_logged :: "store \<Rightarrow> bool" where
  "holds_logged s \<longleftrightarrow> (\<forall>n. (\<exists>r. burn_of s n = Some r \<and> br_hold_reason r \<noteq> None) \<or> submission_of s n \<noteq> None \<longrightarrow>
     (\<exists>e \<in> set (st_events s). ev_note_id e = n))"

definition store_inv :: "ext \<Rightarrow> store \<Rightarrow> bool" where
  "store_inv x s \<longleftrightarrow> tables_ok x s \<and> history_ok s \<and> auth_ok s \<and> holds_logged s"

lemma store_invD:
  assumes "store_inv x s"
  shows "tables_ok x s" "history_ok s" "auth_ok s" "holds_logged s" "keys_ok s"
    "distinct (map ev_seq (st_events s))"
  using assms by (auto simp: store_inv_def dest: tables_okD history_ok_distinct)

section \<open>Every transaction keeps the invariant\<close>

lemma validate_submission_Inr:
  "validate_submission x q = Inr () \<longleftrightarrow>
     x_url_scheme x (sv_endpoint q) = ''https'' \<and> x_url_has_host x (sv_endpoint q) \<and>
     x_url_path x (sv_endpoint q) = ''/v1/withdraw'' \<and> validate_saved_request x q \<and>
     validate_submission_outcome q = Inr ()"
  by (auto simp: validate_submission_def)

lemma validate_outcome_Inr:
  "validate_submission_outcome q = Inr () \<longleftrightarrow>
     (sv_status q = Held \<longleftrightarrow> sv_hold_reason q \<noteq> None) \<and>
     (\<forall>i. sv_withdrawal_id q = Some i \<longrightarrow> is_well_formed_id i) \<and>
     (sv_status q \<in> {Submitted, Finalized, Expired, Failed} \<longrightarrow> sv_withdrawal_id q \<noteq> None) \<and>
     (\<forall>c. sv_last_http_status q = Some c \<longrightarrow> valid_status c)"
  by (auto simp: validate_submission_outcome_def split: option.splits)

lemma validate_fresh_row: "validate_submission x r = Inr () \<Longrightarrow> validate_submission x (fresh_row r) = Inr ()"
  by (simp add: validate_submission_Inr validate_outcome_Inr validate_saved_request_def)

lemma validate_outcome_row:
  "validate_submission x r = Inr () \<Longrightarrow> validate_submission_outcome k = Inr () \<Longrightarrow>
   validate_submission x (outcome_row k r) = Inr ()"
  by (simp add: validate_submission_Inr validate_outcome_Inr validate_saved_request_def)

lemma validate_rejected_row:
  "validate_submission x r = Inr () \<Longrightarrow> validate_submission x (rejected_row response r) = Inr ()"
  by (simp add: validate_submission_Inr validate_outcome_Inr validate_saved_request_def rejected_row_def
      valid_status_def)

lemma logged_events:
  assumes "logged n k e s s'"
  shows "st_events s' = st_events s @ [e]" "ev_note_id e = n" "ev_kind e = k"
  using assms by (simp_all add: logged_def)

lemma save_submission_inv:
  assumes inv: "store_inv x s" and op: "save_submission x r s = Inr s'" and c: "consumed s (sv_note_id r)"
  shows "store_inv x s'"
proof -
  let ?n = "sv_note_id r"
  note ok = store_invD [OF inv] and eff = save_submission_effect [OF op store_invD(5) [OF inv]]
  obtain b c where b: "burn_of s ?n = Some b" "br_consumption_block b = Some c"
    using c ok(5) by (auto simp: consumed_iff)
  obtain e where e: "logged ?n Authorized e s s'" using eff(6) by blast
  have "wait_ok b (Some (fresh_row r))"
    using tables_okD(2) [OF ok(1) b(1)] by (auto simp: wait_ok_def)
  then have "tables_ok x s'"
    using b eff(1) by (intro tables_ok_write_sub [OF ok(1) eff(8,7) b(1) eff(4,5)])
      (auto simp: sub_ok_def validate_fresh_row)
  moreover have "history_ok s'"
    using history_ok_logged [OF ok(2) e] b eff(4) by simp
  moreover have "\<not> open_auth ?n (st_events s)" using ok(3) eff(3) by (auto simp: auth_ok_def)
  then have "auth_ok s'"
    using ok(3) logged_events [OF e] eff(5)
    by (auto simp: auth_ok_def single_authorization_snoc auth_after_def)
  moreover have "holds_logged s'"
    using ok(4) logged_events [OF e] eff(4,5) by (auto simp: holds_logged_def)
  ultimately show ?thesis by (simp add: store_inv_def)
qed

lemma release_hold_inv:
  assumes inv: "store_inv x s" and op: "release_hold n c s = Inr (k, s')"
  shows "store_inv x s'"
proof -
  note ok = store_invD [OF inv]
  note eff = release_hold_effect [OF op ok(5)]
  from eff(1) show ?thesis
  proof
    assume "\<exists>b e. burn_of s n = Some b \<and> br_hold_reason b \<noteq> None \<and> k = (1, 0) \<and>
      burn_of s' = (burn_of s)(n \<mapsto> b\<lparr>br_hold_reason := None\<rparr>) \<and> submission_of s' = submission_of s \<and>
      logged n BurnReleased e s s'"
    then obtain b e where b: "burn_of s n = Some b" "br_hold_reason b \<noteq> None"
      and b': "burn_of s' = (burn_of s)(n \<mapsto> b\<lparr>br_hold_reason := None\<rparr>)"
      and sub: "submission_of s' = submission_of s" and e: "logged n BurnReleased e s s'" by blast
    have "tables_ok x s'"
      using tables_okD(2) [OF ok(1) b(1)]
      by (intro tables_ok_write_burn [OF ok(1) eff(3,2) b(1) b' sub]) (auto simp: row_ok_def wait_ok_def)
    moreover have "history_ok s'" using history_ok_logged [OF ok(2) e] b b' by auto
    moreover have "auth_ok s'"
      using ok(3) logged_events [OF e] sub
      by (auto simp: auth_ok_def single_authorization_snoc auth_after_def split: if_splits)
    moreover have "holds_logged s'"
      using ok(4) logged_events [OF e] b' sub by (auto simp: holds_logged_def)
    ultimately show ?thesis by (simp add: store_inv_def)
  next
    assume "\<exists>sub e. submission_of s n = Some sub \<and> sv_status sub = Held \<and> c \<and> k = (0, 1) \<and>
      burn_of s' = burn_of s \<and> submission_of s' = (submission_of s)(n := None) \<and> burn_of s n \<noteq> None \<and>
      logged n OperatorRelease e s s'"
    then obtain b e where b: "burn_of s n = Some b" and b': "burn_of s' = burn_of s"
      and sub: "submission_of s' = (submission_of s)(n := None)" and e: "logged n OperatorRelease e s s'" by blast
    have "tables_ok x s'"
      using tables_okD(2) [OF ok(1) b]
      by (intro tables_ok_write_sub [OF ok(1) eff(3,2) b b' sub]) (auto simp: wait_ok_def)
    moreover have "history_ok s'" using history_ok_logged [OF ok(2) e] b b' by auto
    moreover have "auth_ok s'"
      using ok(3) logged_events [OF e] sub
      by (auto simp: auth_ok_def single_authorization_snoc auth_after_def split: if_splits)
    moreover have "holds_logged s'"
      using ok(4) logged_events [OF e] b' sub by (auto simp: holds_logged_def)
    ultimately show ?thesis by (simp add: store_inv_def)
  qed
qed

lemma from_code_hold_code [simp]: "from_code (hold_code r) = Some r"
  by (cases r) (simp_all add: from_code_def)

lemma hold_burn_inv:
  assumes inv: "store_inv x s" and op: "hold_burn n reason resp s = Inr s'"
  shows "store_inv x s'"
proof -
  note ok = store_invD [OF inv]
  note eff = hold_burn_effect [OF op ok(5)]
  obtain b e where b: "burn_of s n = Some b" and e: "logged n BurnHeld e s s'"
    and b': "burn_of s' = (burn_of s)(n \<mapsto> b\<lparr>br_hold_reason := Some (hold_code reason), br_retry_at := None\<rparr>)"
    using eff(1) by blast
  have "tables_ok x s'"
    using tables_okD(2) [OF ok(1) b]
    by (intro tables_ok_write_burn [OF ok(1) eff(4,3) b b' eff(2)]) (auto simp: row_ok_def wait_ok_def)
  moreover have "history_ok s'" using history_ok_logged [OF ok(2) e] b b' by auto
  moreover have "auth_ok s'"
    using ok(3) logged_events [OF e] eff(2)
    by (auto simp: auth_ok_def single_authorization_snoc auth_after_def split: if_splits)
  moreover have "holds_logged s'"
    using ok(4) logged_events [OF e] b' eff(2) by (auto simp: holds_logged_def)
  ultimately show ?thesis by (simp add: store_inv_def)
qed

lemma update_submission_outcome_inv:
  assumes inv: "store_inv x s" and op: "update_submission_outcome x k s = Inr s'"
  shows "store_inv x s'"
proof -
  let ?n = "sv_note_id k"
  note ok = store_invD [OF inv]
  note eff = update_submission_outcome_effect [OF op ok(5,6)]
  obtain r where r: "submission_of s ?n = Some r"
    and sub: "submission_of s' = (submission_of s)(?n \<mapsto> outcome_row k r)" using eff(2) by blast
  obtain b c where b: "burn_of s ?n = Some b" "br_consumption_block b = Some c"
    and v: "validate_submission x r = Inr ()"
    using tables_okD(3) [OF ok(1) r] by (auto simp: sub_ok_def)
  define b1 where "b1 = (if settles (sv_status k) then b\<lparr>br_retry_at := None\<rparr> else b)"
  have b': "burn_of s' = (burn_of s)(?n \<mapsto> b1)" using eff(3) b by (auto simp: b1_def fun_upd_idem)
  note t = tables_okD(2) [OF ok(1) b(1)]
  have rows: "row_ok x (st_faucet s) b1 \<and> blocks_seen (st_checkpoint s) b1 \<and> br_consumption_block b1 = Some c"
    using t b by (auto simp: b1_def row_ok_def blocks_seen_def)
  have "wait_ok b1 (Some (outcome_row k r))"
    using t b by (cases "sv_status k") (auto simp: b1_def wait_ok_def settles_def)
  then have "tables_ok x s'"
    using rows v eff(1)
    by (intro tables_ok_write [OF ok(1) eff(6,5) b' sub]) (auto simp: sub_ok_def validate_outcome_row)
  moreover have keep: "burn_of s m \<noteq> None \<Longrightarrow> burn_of s' m \<noteq> None" for m using b' by simp
  have "history_ok s' \<and> auth_ok s' \<and> holds_logged s'"
    using eff(4)
  proof
    assume "\<exists>e. logged ?n Outcome e s s' \<and> ev_status e = Some (sv_status k) \<and> burn_of s ?n \<noteq> None"
    then obtain e where e: "logged ?n Outcome e s s'" "ev_status e = Some (sv_status k)" by blast
    then show ?thesis
      using history_ok_logged [OF ok(2) e(1) _ keep] b ok(3,4) logged_events [OF e(1)] sub b'
      by (auto simp: auth_ok_def holds_logged_def single_authorization_snoc auth_after_def split: if_splits)
  next
    assume u: "unlogged s s' \<and> (\<exists>e \<in> set (st_events s). ev_note_id e = ?n \<and> ev_kind e = Outcome \<and>
      ev_status e = Some (sv_status k) \<and> (\<forall>a \<in> set (st_events s). ev_note_id a = ?n \<longrightarrow>
        ev_kind a = Authorized \<longrightarrow> ev_seq a < ev_seq e))"
    then have "\<not> open_auth ?n (st_events s)" if "sv_status k = Expired"
      using that ok(2) open_auth_closed [of "st_events s" _ ?n] by (auto simp: history_ok_def)
    then have "auth_ok s'" using ok(3) u sub by (auto simp: auth_ok_def unlogged_def)
    moreover have "holds_logged s'"
      using ok(4) u sub b' r b by (auto simp: holds_logged_def unlogged_def b1_def split: if_splits)
    ultimately show ?thesis using history_ok_unlogged [OF ok(2) _ keep] u by blast
  qed
  ultimately show ?thesis by (simp add: store_inv_def)
qed

lemma advance_limit_retry_inv:
  assumes inv: "store_inv x s" and op: "advance_limit_retry n t s = Inr s'"
  shows "store_inv x s'"
proof -
  note ok = store_invD [OF inv]
  note eff = advance_limit_retry_effect [OF op ok(5)]
  obtain b where b: "burn_of s n = Some b" "br_retry_at b \<noteq> None" "0 \<le> t"
    and b': "burn_of s' = (burn_of s)(n \<mapsto> b\<lparr>br_retry_at := Some t\<rparr>)" using eff(1) by blast
  have "tables_ok x s'"
    using tables_okD(2) [OF ok(1) b(1)] b
    by (intro tables_ok_write_burn [OF ok(1) eff(5,4) b(1) b' eff(2)]) (auto simp: row_ok_def wait_ok_def)
  moreover have "history_ok s'" using history_ok_unlogged [OF ok(2) eff(3)] b' by auto
  moreover have "auth_ok s'" using ok(3) eff(2,3) by (auto simp: auth_ok_def unlogged_def)
  moreover have "holds_logged s'"
    using ok(4) b b' eff(2,3) by (auto simp: holds_logged_def unlogged_def split: if_splits)
  ultimately show ?thesis by (simp add: store_inv_def)
qed

lemma record_limit_rejection_inv:
  assumes inv: "store_inv x s" and op: "record_limit_rejection n t response sub s = Inr s'"
    and guard: "sub = None \<Longrightarrow> \<forall>q. submission_of s n = Some q \<longrightarrow> sv_status q = Expired"
  shows "store_inv x s'"
proof -
  note ok = store_invD [OF inv]
  note eff = record_limit_rejection_effect [OF op ok(5)]
  obtain b c where b: "burn_of s n = Some b" "br_consumption_block b = Some c" "br_hold_reason b = None" "0 \<le> t"
    and b': "burn_of s' = (burn_of s)(n \<mapsto> b\<lparr>br_retry_at := Some t\<rparr>)" using eff(1) by blast
  obtain e where e: "logged n WithdrawalLimit e s s'" using eff(4) by blast
  note row = tables_okD(2) [OF ok(1) b(1)]
  have left: "sv_status q \<in> {Submitting, Expired} \<and> validate_submission x q = Inr ()"
    if q: "after_rejection response sub (submission_of s n) = Some q" for q
  proof (cases sub)
    case None
    then show ?thesis using q guard tables_okD(3) [OF ok(1)] by (auto simp: after_rejection_def sub_ok_def)
  next
    case (Some p)
    then obtain saved where p: "sub = Some (saved, Recovery)"
      using q by (cases p) (auto simp: after_rejection_def split: submission_attempt.splits)
    then obtain r where r: "submission_of s n = Some r" "sv_status r = Submitting" using eff(2) by blast
    then show ?thesis
      using q p tables_okD(3) [OF ok(1) r(1)]
      by (auto simp: after_rejection_def sub_ok_def validate_rejected_row) (simp add: rejected_row_def)
  qed
  have "tables_ok x s'"
    using row b left
    by (intro tables_ok_write [OF ok(1) eff(6,5) b' eff(3)]) (auto simp: row_ok_def wait_ok_def blocks_seen_def sub_ok_def)
  moreover have "history_ok s'" using history_ok_logged [OF ok(2) e] b b' by auto
  moreover have "auth_ok s'"
    using ok(3) logged_events [OF e] eff(3)
    by (auto simp: auth_ok_def single_authorization_snoc auth_after_def split: if_splits)
  moreover have "holds_logged s'"
    using ok(4) logged_events [OF e] b' b eff(3) by (auto simp: holds_logged_def split: if_splits)
  ultimately show ?thesis by (simp add: store_inv_def)
qed

text \<open>
  A scanned block is saved under its own header, so the rows inserted on the way are judged against
  the checkpoint that the transaction ends with. The note codec is \<^verbatim>\<open>miden-protocol\<close>'s: what it
  writes, it reads back.
\<close>

definition note_codec :: "ext \<Rightarrow> miden_note \<Rightarrow> bool" where
  "note_codec x n \<longleftrightarrow> x_note_from_bytes x (x_note_to_bytes x n) = Some n"

lemma store_inv_checkpoint:
  assumes inv: "store_inv x s" and "\<And>c. st_checkpoint s = Some c \<Longrightarrow> hd_block_num c \<le> hd_block_num h"
    and "st_anchor_block s \<le> hd_block_num h"
  shows "store_inv x (s\<lparr>st_checkpoint := Some h\<rparr>)"
proof -
  have "blocks_seen (Some h) r" if "burn_of s n = Some r" for n r
    using tables_okD(2) [OF store_invD(1) [OF inv] that] assms(2) by (fastforce simp: blocks_seen_def)
  then show ?thesis
    using inv assms(3)
    by (simp add: store_inv_def tables_ok_def history_ok_def auth_ok_def holds_logged_def)
qed

lemma new_row_ok:
  assumes "note_codec x n" and "consumable_burn x f n items amount"
    and "\<And>d. c = Some d \<Longrightarrow> cb < d"
  shows "row_ok x f (new_row x n cb c)"
  using assms by (auto simp: row_ok_def decode_note_def note_codec_def)

text \<open>Inserting or promoting one row of the burns table, with everything else unchanged.\<close>

lemma store_inv_burn_row:
  assumes inv: "store_inv x s" and "keys_ok s'" and "same_chain s s'" and "unlogged s s'"
    and sub: "submission_of s' = submission_of s" and b': "burn_of s' = (burn_of s)(n \<mapsto> b)"
    and "row_ok x (st_faucet s) b" and "blocks_seen (st_checkpoint s) b"
    and old: "burn_of s n = None \<and> br_hold_reason b = None \<and> br_retry_at b = None \<or>
      (\<exists>r c. burn_of s n = Some r \<and> br_consumption_block r = None \<and> b = r\<lparr>br_consumption_block := c\<rparr>)"
  shows "store_inv x s'"
proof -
  note ok = store_invD [OF inv]
  have none: "submission_of s n = None"
    using old tables_okD(3) [OF ok(1), of n] by (cases "submission_of s n") (auto simp: sub_ok_def)
  have "br_retry_at b = None"
    using old tables_okD(2) [OF ok(1), of n] by (auto simp: wait_ok_def)
  then have "tables_ok x s'"
    using assms(2-8) none
    by (intro tables_ok_write [OF ok(1), where n = n and b = b and sub = None]) (auto simp: wait_ok_def fun_upd_idem)
  moreover have "history_ok s'" using history_ok_unlogged [OF ok(2) assms(4)] b' by auto
  moreover have "auth_ok s'" using ok(3) assms(4) sub by (auto simp: auth_ok_def unlogged_def)
  moreover have "holds_logged s'"
    using ok(4) old b' assms(4) sub by (auto simp: holds_logged_def unlogged_def split: if_splits)
  ultimately show ?thesis by (simp add: store_inv_def)
qed

definition scan_guard :: "ext \<Rightarrow> burn_candidate list \<Rightarrow> discovered_burn list \<Rightarrow> header \<Rightarrow> store \<Rightarrow> bool" where
  "scan_guard x cs bs h s \<longleftrightarrow>
     (\<forall>c \<in> set cs. note_codec x (bc_note c) \<and>
        consumable_burn x (st_faucet s) (bc_note c) (bc_items c) (bc_amount c)) \<and>
     (\<forall>b \<in> set bs. note_codec x (db_note b) \<and>
        consumable_burn x (st_faucet s) (db_note b) (db_items b) (db_amount b)) \<and>
     st_anchor_block s \<le> hd_block_num h \<and>
     (\<forall>c. st_checkpoint s = Some c \<longrightarrow> hd_block_num c \<le> hd_block_num h)"

lemma save_scan_progress_inv:
  assumes inv: "store_inv x s" and op: "save_scan_progress x cs bs h s = Inr s'" and g: "scan_guard x cs bs h s"
  shows "store_inv x s'"
proof -
  let ?P = "\<lambda>t. store_inv x (t\<lparr>st_checkpoint := Some h\<rparr>) \<and> st_faucet t = st_faucet s"
  obtain s1 s2 where bc: "\<forall>c \<in> set cs. bc_creation_block c \<le> hd_block_num h"
    and bb: "\<forall>b \<in> set bs. db_creation_block b < db_consumption_block b \<and> db_consumption_block b \<le> hd_block_num h"
    and s1: "insert_all (insert_candidate x) cs s = Inr s1" and s2: "insert_all (insert_burn x) bs s1 = Inr s2"
    and s': "s' = s2\<lparr>st_checkpoint := Some h\<rparr>"
    using op by (auto simp: save_scan_progress_Inr)
  have P0: "?P s" using store_inv_checkpoint [OF inv] g by (auto simp: scan_guard_def)
  have P1: "?P s1" using s1 P0
  proof (rule insert_all_induct [where P = ?P])
    fix c t t' assume c: "c \<in> set cs" and t: "?P t" and i: "insert_candidate x c t = Inr t'"
    have k: "keys_ok t" using store_invD(5) [OF conjunct1 [OF t]] by simp
    note eff = insert_candidate_effect [OF i k]
    show "?P t'"
      using eff t c bc g new_row_ok [of x "bc_note c" "st_faucet s" _ _ None]
      by (intro conjI store_inv_burn_row [OF conjunct1 [OF t], where n = "bc_note_id c"])
        (auto simp: scan_guard_def same_chain_def unlogged_def blocks_seen_def fun_eq_iff)
  qed
  have P2: "?P s2" using s2 P1
  proof (rule insert_all_induct [where P = ?P])
    fix b t t' assume b: "b \<in> set bs" and t: "?P t" and i: "insert_burn x b t = Inr t'"
    let ?t = "t\<lparr>st_checkpoint := Some h\<rparr>" and ?t' = "t'\<lparr>st_checkpoint := Some h\<rparr>"
    have k: "keys_ok t" using store_invD(5) [OF conjunct1 [OF t]] by simp
    note eff = insert_burn_effect [OF i k]
    have frame: "keys_ok ?t'" "same_chain ?t ?t'" "unlogged ?t ?t'" "submission_of ?t' = submission_of ?t"
      using eff by (auto simp: same_chain_def unlogged_def fun_eq_iff)
    show "?P t'"
      using eff(1)
    proof
      assume "\<exists>r. burn_of t (db_note_id b) = Some r \<and> br_consumption_block r = None \<and>
        br_creation_block r < db_consumption_block b \<and>
        burn_of t' = (burn_of t)(db_note_id b \<mapsto> r\<lparr>br_consumption_block := Some (db_consumption_block b)\<rparr>)"
      then obtain r where r: "burn_of ?t (db_note_id b) = Some r" "br_consumption_block r = None"
        "br_creation_block r < db_consumption_block b"
        "burn_of ?t' = (burn_of ?t)(db_note_id b \<mapsto> r\<lparr>br_consumption_block := Some (db_consumption_block b)\<rparr>)"
        by (auto simp: fun_eq_iff)
      show ?thesis
        using r b bb t eff(4) tables_okD(2) [OF store_invD(1) [OF conjunct1 [OF t]] r(1)]
        by (intro conjI store_inv_burn_row [OF conjunct1 [OF t] frame r(4)])
          (auto simp: row_ok_def blocks_seen_def same_chain_def)
    next
      assume "burn_of t (db_note_id b) = None \<and> db_creation_block b < db_consumption_block b \<and>
        burn_of t' = (burn_of t)(db_note_id b \<mapsto>
          new_row x (db_note b) (db_creation_block b) (Some (db_consumption_block b)))"
      then have n: "burn_of ?t (db_note_id b) = None" "db_creation_block b < db_consumption_block b"
        and r: "burn_of ?t' = (burn_of ?t)(db_note_id b \<mapsto>
          new_row x (db_note b) (db_creation_block b) (Some (db_consumption_block b)))"
        by (auto simp: fun_eq_iff)
      show ?thesis
        using n b bb g t eff(4) new_row_ok [of x "db_note b" "st_faucet s" _ _ "Some (db_consumption_block b)"]
        by (intro conjI store_inv_burn_row [OF conjunct1 [OF t] frame r])
          (fastforce simp: scan_guard_def blocks_seen_def same_chain_def)+
    qed
  qed
  then show ?thesis by (simp add: s')
qed

section \<open>The store as a state machine\<close>

text \<open>
  One transaction, with what the attester guarantees when it calls it: a request is saved for a
  consumed burn, a prepare rejection is recorded for a burn without a live request, and a block is
  saved with structurally valid burns under a header that is not behind the checkpoint.
\<close>

inductive store_step :: "ext \<Rightarrow> store \<Rightarrow> store \<Rightarrow> bool" for x where
  step_save: "save_submission x r s = Inr s' \<Longrightarrow> consumed s (sv_note_id r) \<Longrightarrow> store_step x s s'"
| step_release: "release_hold n c s = Inr (k, s') \<Longrightarrow> store_step x s s'"
| step_hold: "hold_burn n reason resp s = Inr s' \<Longrightarrow> store_step x s s'"
| step_outcome: "update_submission_outcome x k s = Inr s' \<Longrightarrow> store_step x s s'"
| step_advance: "advance_limit_retry n t s = Inr s' \<Longrightarrow> store_step x s s'"
| step_reject: "record_limit_rejection n t response sub s = Inr s' \<Longrightarrow>
     (sub = None \<Longrightarrow> \<forall>q. submission_of s n = Some q \<longrightarrow> sv_status q = Expired) \<Longrightarrow> store_step x s s'"
| step_scan: "save_scan_progress x cs bs h s = Inr s' \<Longrightarrow> scan_guard x cs bs h s \<Longrightarrow> store_step x s s'"

inductive_cases store_stepE: "store_step x s s'"

definition store_steps :: "ext \<Rightarrow> store \<Rightarrow> store \<Rightarrow> bool" where
  "store_steps x = rtranclp (store_step x)"

lemma store_steps_refl [simp, intro]: "store_steps x s s"
  by (simp add: store_steps_def)

lemma store_steps_trans [trans]: "store_steps x a b \<Longrightarrow> store_steps x b c \<Longrightarrow> store_steps x a c"
  unfolding store_steps_def by (rule rtranclp_trans)

lemma store_steps_step: "store_step x a b \<Longrightarrow> store_steps x a b"
  unfolding store_steps_def by (rule r_into_rtranclp)

lemma store_step_inv: "store_step x s s' \<Longrightarrow> store_inv x s \<Longrightarrow> store_inv x s'"
  by (induction rule: store_step.induct)
    (auto intro: save_submission_inv release_hold_inv hold_burn_inv update_submission_outcome_inv
      advance_limit_retry_inv record_limit_rejection_inv save_scan_progress_inv)

lemma initialize_store_inv: "store_inv x (initialize_store faucet anchor)"
  by (auto simp: store_inv_def initialize_store_def tables_ok_def keys_ok_def history_ok_def auth_ok_def
      holds_logged_def burn_of_def submission_of_def lookup_by_def single_authorization_def open_auth_def)

lemma insert_all_unlogged:
  assumes "insert_all f as s = Inr s'" and "keys_ok s"
    and "\<And>a s s'. f a s = Inr s' \<Longrightarrow> keys_ok s \<Longrightarrow> unlogged s s' \<and> same_chain s s' \<and> keys_ok s'"
  shows "unlogged s s' \<and> same_chain s s' \<and> keys_ok s'"
  using assms(1,2)
proof (induction as arbitrary: s)
  case (Cons a as)
  then obtain t where t: "f a s = Inr t" "insert_all f as t = Inr s'" by (auto simp: and_then_Inr_iff)
  from assms(3) [OF t(1) Cons.prems(2)] Cons.IH [OF t(2)] show ?case
    by (auto simp: unlogged_def same_chain_def)
qed (simp add: unlogged_def)

lemma scan_frame:
  assumes "save_scan_progress x cs bs h s = Inr s'" and "keys_ok s"
  shows "unlogged s s' \<and> st_faucet s' = st_faucet s \<and> st_anchor_block s' = st_anchor_block s \<and>
         st_anchor_commitment s' = st_anchor_commitment s \<and> st_checkpoint s' = Some h"
proof -
  obtain s1 s2 where s1: "insert_all (insert_candidate x) cs s = Inr s1"
    and s2: "insert_all (insert_burn x) bs s1 = Inr s2" and s': "s' = s2\<lparr>st_checkpoint := Some h\<rparr>"
    using assms(1) by (auto simp: save_scan_progress_Inr)
  have one: "unlogged s s1 \<and> same_chain s s1 \<and> keys_ok s1"
    by (rule insert_all_unlogged [OF s1 assms(2)]) (auto dest: insert_candidate_effect(4-6))
  have "unlogged s1 s2 \<and> same_chain s1 s2 \<and> keys_ok s2"
    by (rule insert_all_unlogged [OF s2]) (auto simp: one dest: insert_burn_effect(3-5))
  with one s' show ?thesis by (auto simp: unlogged_def same_chain_def)
qed

lemma store_step_events:
  assumes "store_step x s s'" and "store_inv x s"
  shows "\<exists>es. st_events s' = st_events s @ es \<and> (\<forall>e \<in> set es. st_next_seq s \<le> ev_seq e) \<and>
           st_next_seq s \<le> st_next_seq s'"
proof -
  have "(\<exists>n k e. logged n k e s s') \<or> unlogged s s'"
    using assms(1)
  proof cases
    case step_scan
    then show ?thesis using scan_frame store_invD(5) [OF assms(2)] by blast
  qed (use store_invD [OF assms(2)] in \<open>blast dest: save_submission_effect(6) release_hold_effect(1)
    hold_burn_effect(1) update_submission_outcome_effect(4) advance_limit_retry_effect(3)
    record_limit_rejection_effect(4)\<close>)+
  then show ?thesis by (auto simp: logged_def unlogged_def)
qed

text \<open>The transactions keep the invariant and only append to the history.\<close>

interpretation store_machine: logged_machine "\<lambda>s. \<exists>faucet anchor. s = initialize_store faucet anchor"
    "store_step x" "store_inv x" st_events "\<lambda>s e. st_next_seq s \<le> ev_seq e"
  for x
proof
  show "store_inv x s" if "\<exists>faucet anchor. s = initialize_store faucet anchor" for s
    using that initialize_store_inv by blast
  show "store_inv x t" if "store_step x s t" "store_inv x s" for s t
    using that by (rule store_step_inv)
  show "\<exists>es. st_events t = st_events s @ es \<and> (\<forall>e \<in> set es. st_next_seq s \<le> ev_seq e)"
    if "store_step x s t" "store_inv x s" for s t
    using store_step_events [OF that] by blast
  show "st_next_seq s \<le> ev_seq e" if "store_step x s t" "store_inv x s" "st_next_seq t \<le> ev_seq e" for s t e
    using store_step_events [OF that(1,2)] that(3) by linarith
qed

lemma store_steps_inv: "store_steps x s s' \<Longrightarrow> store_inv x s \<Longrightarrow> store_inv x s'"
  unfolding store_steps_def by (rule store_machine.steps_inv)

lemma store_steps_events:
  "store_steps x s s' \<Longrightarrow> store_inv x s \<Longrightarrow>
   \<exists>es. st_events s' = st_events s @ es \<and> (\<forall>e \<in> set es. st_next_seq s \<le> ev_seq e)"
  unfolding store_steps_def by (rule store_machine.steps_log)

end
