(* ===== verification/Store_Props.thy ===== *)
theory Store_Props
  imports Store_Inv
begin

text \<open>
  The properties of the attester's store: a store it wrote is accepted when it is opened again, no
  burn is authorized twice without a recorded reason, the history only grows, a stale release is
  refused, and the lists the attester works from are exactly the rows that qualify.
\<close>

section \<open>Loading\<close>

lemma stored_note:
  assumes "tables_ok x s" and "r \<in> set (st_burns s)"
  shows "\<exists>n i a. decode_note x (br_note r) (br_note_id r) (br_nullifier r) = Inr n \<and>
           consumable_burn x (st_faucet s) n i a"
proof -
  have "burn_of s (br_note_id r) = Some r" using burn_of_mem assms tables_okD(1) by blast
  then have "row_ok x (st_faucet s) r" using tables_okD(2) [OF assms(1)] by blast
  then show ?thesis unfolding row_ok_def by blast
qed

lemma load_candidate_total:
  assumes "tables_ok x s" and "r \<in> set (st_burns s)"
  shows "\<exists>c. load_candidate x (st_faucet s) r = Inr c"
proof -
  obtain n i a where "decode_note x (br_note r) (br_note_id r) (br_nullifier r) = Inr n"
    and "consumable_burn x (st_faucet s) n i a"
    using stored_note [OF assms] by blast
  moreover from this(2) have "burn_candidate_new x n (br_creation_block r) (st_faucet s) =
      Inr \<lparr>bc_note = n, bc_creation_block = br_creation_block r, bc_items = i, bc_amount = a\<rparr>"
    by (simp add: burn_candidate_new_Inr)
  ultimately show ?thesis by (simp add: load_candidate_def invalid_row_def)
qed

lemma load_burn_Inr:
  "load_burn x f (r, c) = Inr b \<longleftrightarrow>
     decode_note x (br_note r) (br_note_id r) (br_nullifier r) = Inr (db_note b) \<and>
     db_creation_block b = br_creation_block r \<and> db_consumption_block b = c \<and>
     consumable_burn x f (db_note b) (db_items b) (db_amount b)"
proof -
  have "invalid_row k = Inr b \<longleftrightarrow> k = Inr b" for k :: "invalid_burn_candidate + discovered_burn"
    by (auto simp: invalid_row_def split: sum.splits)
  then show ?thesis
    by (auto simp: load_burn_def and_then_Inr_iff discovered_burn_new_Inr)
qed

lemma decode_note_id: "decode_note x bs n nf = Inr m \<Longrightarrow> nt_id m = n \<and> nt_nullifier m = nf"
  by (auto simp: decode_note_def and_then_Inr_iff split: if_splits)

lemma load_burn_total:
  assumes "tables_ok x s" and "r \<in> set (st_burns s)"
  shows "\<exists>b. load_burn x (st_faucet s) (r, c) = Inr b"
proof -
  obtain n i a where "decode_note x (br_note r) (br_note_id r) (br_nullifier r) = Inr n"
    and "consumable_burn x (st_faucet s) n i a"
    using stored_note [OF assms] by blast
  then show ?thesis
    by (intro exI [of _ "\<lparr>db_note = n, db_creation_block = br_creation_block r,
      db_consumption_block = c, db_items = i, db_amount = a\<rparr>"]) (simp add: load_burn_Inr)
qed

lemma map_filter_pairs: "set (List.map_filter (\<lambda>r. map_option (Pair r) (g r)) t) = {(r, c). r \<in> set t \<and> g r = Some c}"
  by (induction t) (auto simp: List.map_filter_simps split: option.splits)

lemma load_burns_total:
  assumes "tables_ok x s"
  shows "\<exists>bs. load_burns x s inc = Inr bs"
  unfolding load_burns_def
  by (rule collect_all_total) (auto simp: map_filter_pairs intro!: load_burn_total assms)

lemma select_submissions_total:
  assumes "tables_ok x s"
  shows "\<exists>qs. select_submissions x s n st = Inr qs"
  unfolding select_submissions_def
proof (rule collect_all_total)
  fix q assume "q \<in> set (sort_key sv_note_id (filter (\<lambda>r. (n = None \<or> n = Some (sv_note_id r)) \<and>
    (st = None \<or> st = Some (sv_status r))) (st_submissions s)))"
  then have "submission_of s (sv_note_id q) = Some q"
    using submission_of_mem tables_okD(1) [OF assms] by auto
  then show "\<exists>y. load_submission x s q = Inr y"
    using tables_okD(3) [OF assms] tables_okD(1) [OF assms] by (auto simp: load_submission_def sub_ok_def consumed_iff)
qed

section \<open>A store the attester wrote is accepted again\<close>

definition same_identity :: "store \<Rightarrow> store \<Rightarrow> bool" where
  "same_identity s t \<longleftrightarrow> st_faucet t = st_faucet s \<and> st_anchor_block t = st_anchor_block s \<and>
     st_anchor_commitment t = st_anchor_commitment s"

lemma store_step_identity:
  assumes "store_step x s t" and "store_inv x s"
  shows "same_identity s t"
  using assms(1)
proof cases
  case step_scan
  then show ?thesis using scan_frame store_invD(5) [OF assms(2)] by (auto simp: same_identity_def)
qed (use store_invD [OF assms(2)] in \<open>auto simp: same_identity_def same_chain_def
      dest: save_submission_effect(7) release_hold_effect(2) hold_burn_effect(3)
        update_submission_outcome_effect(5) advance_limit_retry_effect(4) record_limit_rejection_effect(5)\<close>)

lemma store_steps_identity:
  assumes "store_steps x s t" and "store_inv x s"
  shows "same_identity s t"
  using assms unfolding store_steps_def
proof (induction rule: rtranclp_induct)
  case (step t u)
  then show ?case
    using store_step_identity [OF step(2)] store_steps_inv [of x s t]
    by (auto simp: same_identity_def store_steps_def)
qed (simp add: same_identity_def)

text \<open>
  C20: whatever transactions have run since the store was created, opening it again with the same
  faucet and trusted anchor passes every check of \<^verbatim>\<open>validate_store\<close>: the rows decode, the waits and
  withdrawal IDs are well formed and the checkpoint is not behind the anchor. A restart never
  refuses the attester's own store.
\<close>

theorem reopen_accepts_own_store:
  assumes "store_steps x (initialize_store faucet anchor) s"
  shows "validate_store x faucet anchor s = Inr ()"
proof -
  have inv: "store_inv x s" using store_steps_inv [OF assms] initialize_store_inv by blast
  note t = store_invD(1) [OF inv] and k = store_invD(5) [OF inv]
  have waits: "list_all (limit_wait_ok s) (st_burns s)"
    using burn_of_mem [OF k] tables_okD(2) [OF t] by (auto simp: list_all_iff limit_wait_ok_iff)
  have ids: "list_all (\<lambda>q. case sv_withdrawal_id q of None \<Rightarrow> True | Some i \<Rightarrow> is_well_formed_id i) (st_submissions s)"
    using submission_of_mem [OF k] tables_okD(3) [OF t]
    by (fastforce simp: list_all_iff sub_ok_def validate_submission_Inr validate_outcome_Inr split: option.split)
  have id: "st_faucet s = faucet" "st_anchor_block s = ta_block_num anchor" "st_anchor_commitment s = ta_commitment anchor"
    using store_steps_identity [OF assms initialize_store_inv] by (auto simp: same_identity_def initialize_store_def)
  have "\<exists>cs. load_candidates x s (\<lambda>_. True) = Inr cs"
    unfolding load_candidates_def by (rule collect_all_total) (auto intro: load_candidate_total t)
  moreover have "\<exists>bs. load_burns x s True = Inr bs" by (rule load_burns_total [OF t])
  moreover have "ta_block_num anchor \<le> hd_block_num h" if "st_checkpoint s = Some h" for h
    using that t id by (auto simp: tables_ok_def)
  ultimately show ?thesis
    using waits ids id by (auto simp: validate_store_def not_less split: option.split)
qed

text \<open>A concrete run for the witnesses: one burn is found, consumed and authorized.\<close>

definition sample_anchor :: trusted_anchor where
  "sample_anchor = \<lparr>ta_block_num = 10, ta_commitment = 2\<rparr>"

definition sample_header :: "nat \<Rightarrow> header" where
  "sample_header n = \<lparr>hd_block_num = n, hd_commitment = 2, hd_timestamp = 0\<rparr>"

definition sample_candidate :: burn_candidate where
  "sample_candidate = \<lparr>bc_note = sample_note, bc_creation_block = 11, bc_items = sample_items, bc_amount = 100\<rparr>"

definition sample_row :: "block_number option \<Rightarrow> burn_row" where
  "sample_row c = \<lparr>br_note_id = 5, br_nullifier = 6, br_note = be_bytes 32 (5 :: u256), br_creation_block = 11,
     br_consumption_block = c, br_hold_reason = None, br_retry_at = None\<rparr>"

definition sample_store0 :: store where "sample_store0 = initialize_store 1 sample_anchor"

definition sample_store1 :: store where
  "sample_store1 = sample_store0\<lparr>st_burns := [sample_row None], st_checkpoint := Some (sample_header 11)\<rparr>"

definition sample_store2 :: store where
  "sample_store2 = sample_store0\<lparr>st_burns := [sample_row (Some 12)], st_checkpoint := Some (sample_header 12)\<rparr>"

definition sample_event :: event_row where
  "sample_event = \<lparr>ev_seq = 1, ev_note_id = 5, ev_kind = Authorized, ev_status = Some Submitting,
     ev_withdrawal_id = None, ev_body = Some [7], ev_transfer_spec_hash = Some 8, ev_http_status = None,
     ev_response = None, ev_error = None, ev_endpoint = Some ''https://c/v1/withdraw'',
     ev_hold_reason = None, ev_burn_hold_reason = None, ev_circle_status = None\<rparr>"

definition sample_store3 :: store where
  "sample_store3 = sample_store2\<lparr>st_submissions := [sample_saved], st_events := [sample_event], st_next_seq := 2\<rparr>"

lemmas sample_store_defs = sample_store0_def sample_store1_def sample_store2_def sample_store3_def
  sample_anchor_def initialize_store_def sample_header_def sample_row_def sample_event_def

lemma sample_note_consumable: "consumable_burn sample_ext 1 sample_note sample_items 100"
  by (simp add: consumable_burn_def sample_note_def sample_ext_def find_attachment_def)

lemma sample_note_codec: "note_codec sample_ext sample_note"
  by (simp add: note_codec_def sample_ext_def sample_note_def)

lemma sample_step1: "store_step sample_ext sample_store0 sample_store1"
proof (rule step_scan)
  show "save_scan_progress sample_ext [sample_candidate] [] (sample_header 11) sample_store0 = Inr sample_store1"
    by (simp add: save_scan_progress_def validate_discovery_records_def insert_candidate_def clashes_def
        sample_candidate_def bc_note_id_def bc_nullifier_def insert_row_def sample_store_defs)
      (simp add: sample_note_def sample_ext_def)
  show "scan_guard sample_ext [sample_candidate] [] (sample_header 11) sample_store0"
    using sample_note_consumable sample_note_codec
    by (simp add: scan_guard_def sample_candidate_def sample_store_defs)
qed

lemma sample_step2: "store_step sample_ext sample_store1 sample_store2"
proof (rule step_scan)
  show "save_scan_progress sample_ext [] [sample_burn] (sample_header 12) sample_store1 = Inr sample_store2"
    by (simp add: save_scan_progress_def validate_discovery_records_def insert_burn_def clashes_def
        sample_burn_def db_note_id_def db_nullifier_def set_burn_def update_by_def count_rows_def
        sample_store_defs sample_note_def)
  show "scan_guard sample_ext [] [sample_burn] (sample_header 12) sample_store1"
    using sample_note_consumable sample_note_codec
    by (simp add: scan_guard_def sample_burn_def sample_store_defs)
qed

lemma sample_validates: "validate_submission sample_ext sample_saved = Inr ()"
  by (simp add: validate_submission_Inr validate_outcome_Inr validate_saved_request_def sample_ext_def sample_saved_def)

lemma sample_save: "save_submission sample_ext sample_saved sample_store2 = Inr sample_store3"
  using sample_validates
  by (simp add: save_submission_def submission_of_def burn_of_def lookup_by_def record_event_def insert_row_def
      append_event_def event_of_def keeps_request_def sample_saved_def sample_store_defs)

lemma sample_step3: "store_step sample_ext sample_store2 sample_store3"
  using sample_save by (rule step_save) (simp add: consumed_def sample_saved_def sample_store_defs)

lemma sample_run: "store_steps sample_ext sample_store0 sample_store3"
  using sample_step1 sample_step2 sample_step3 store_steps_step store_steps_trans by meson

theorem reopen_accepts_own_store_witness:
  "store_steps sample_ext (initialize_store 1 sample_anchor) sample_store3 \<and>
   validate_store sample_ext 1 sample_anchor sample_store3 = Inr ()"
  using reopen_accepts_own_store [OF sample_run [unfolded sample_store0_def]] sample_run
  by (simp add: sample_store0_def)

section \<open>One authorization at a time\<close>

text \<open>The events after which a burn may be authorized again.\<close>

definition closes_auth :: "note_id \<Rightarrow> event_row \<Rightarrow> bool" where
  "closes_auth n e \<longleftrightarrow> ev_note_id e = n \<and>
     (ev_kind e = OperatorRelease \<or> ev_kind e = WithdrawalLimit \<or>
      (ev_kind e = Outcome \<and> ev_status e = Some Expired))"

lemma open_auth_stays:
  assumes "open_auth n evs" and "\<forall>e \<in> set fs. \<not> closes_auth n e"
  shows "open_auth n (evs @ fs)"
  using assms(2)
proof (induction fs rule: rev_induct)
  case Nil
  then show ?case using assms(1) by simp
next
  case (snoc f fs)
  then have "open_auth n (evs @ fs)" "\<not> closes_auth n f" by auto
  then show ?case
    using open_auth_snoc [of n "evs @ fs" f] by (auto simp: auth_after_def closes_auth_def split: event_kind.splits)
qed

lemma closed_between:
  assumes "single_authorization evs" and "i < j" and "j < length evs"
    and "ev_kind (evs ! i) = Authorized" "ev_kind (evs ! j) = Authorized"
    and "ev_note_id (evs ! i) = n" "ev_note_id (evs ! j) = n"
  shows "\<exists>k. i < k \<and> k < j \<and> closes_auth n (evs ! k)"
proof (rule ccontr)
  assume none: "\<not> ?thesis"
  let ?mid = "drop (Suc i) (take j evs)"
  have "open_auth n (take i evs @ [evs ! i])" using assms(4,6) by (simp add: auth_after_def)
  then have "open_auth n (take (Suc i) evs)" using assms(2,3) by (simp add: take_Suc_conv_app_nth)
  moreover have "\<not> closes_auth n e" if mem: "e \<in> set ?mid" for e
  proof -
    obtain k where "k < length ?mid" "e = ?mid ! k" using mem unfolding in_set_conv_nth by blast
    then have "e = evs ! (Suc i + k)" "Suc i + k < j" using assms(3) by auto
    moreover have "i < Suc i + k" by simp
    ultimately show ?thesis using none by blast
  qed
  ultimately have "open_auth n (take (Suc i) evs @ ?mid)" using open_auth_stays by blast
  moreover have "take (Suc i) evs @ ?mid = take j evs"
    using assms(2) append_take_drop_id [of "Suc i" "take j evs"] by (simp add: min_def)
  ultimately show False using assms unfolding single_authorization_def by auto
qed

text \<open>
  C3: no burn is signed twice on a guess. In every history the store can have, between two
  authorizations of the same burn there is a row of that burn that says why: Circle reported the
  withdrawal expired, Circle rejected the attempt for its withdrawal limit, or an operator
  released the held request.
\<close>

theorem reauthorized_only_for_cause:
  assumes "store_steps x (initialize_store faucet anchor) s"
    and "i < j" and "j < length (st_events s)"
    and "ev_kind (st_events s ! i) = Authorized" and "ev_kind (st_events s ! j) = Authorized"
    and "ev_note_id (st_events s ! i) = n" and "ev_note_id (st_events s ! j) = n"
  shows "\<exists>k. i < k \<and> k < j \<and> ev_note_id (st_events s ! k) = n \<and>
     (ev_kind (st_events s ! k) = OperatorRelease \<or> ev_kind (st_events s ! k) = WithdrawalLimit \<or>
      (ev_kind (st_events s ! k) = Outcome \<and> ev_status (st_events s ! k) = Some Expired))"
proof -
  have "single_authorization (st_events s)"
    using store_steps_inv [OF assms(1) initialize_store_inv] by (simp add: store_inv_def auth_ok_def)
  from closed_between [OF this assms(2-7)] show ?thesis by (simp add: closes_auth_def)
qed

text \<open>The run continues: Circle rejects the request, an operator releases it, the burn is signed again.\<close>

definition sample_held :: saved_submission where
  "sample_held = sample_saved\<lparr>sv_status := Held, sv_hold_reason := Some HttpRejected,
     sv_last_http_status := Some 400\<rparr>"

definition sample_event_of :: "nat \<Rightarrow> event_kind \<Rightarrow> event_row" where
  "sample_event_of q k = sample_event\<lparr>ev_seq := q, ev_kind := k, ev_status := Some Held, ev_body := None,
     ev_endpoint := None, ev_hold_reason := Some HttpRejected, ev_http_status := Some 400\<rparr>"

definition sample_store4 :: store where
  "sample_store4 = sample_store2\<lparr>st_submissions := [sample_held],
     st_events := [sample_event, sample_event_of 2 Outcome], st_next_seq := 3\<rparr>"

definition sample_store5 :: store where
  "sample_store5 = sample_store2\<lparr>
     st_events := [sample_event, sample_event_of 2 Outcome, sample_event_of 3 OperatorRelease], st_next_seq := 4\<rparr>"

definition sample_store6 :: store where
  "sample_store6 = sample_store2\<lparr>st_submissions := [sample_saved],
     st_events := [sample_event, sample_event_of 2 Outcome, sample_event_of 3 OperatorRelease,
       sample_event\<lparr>ev_seq := 4\<rparr>], st_next_seq := 5\<rparr>"

lemmas sample_store_more = sample_store4_def sample_store5_def sample_store6_def sample_event_of_def
  sample_held_def sample_saved_def sample_store_defs

lemma sample_step4: "store_step sample_ext sample_store3 sample_store4"
proof (rule step_outcome)
  have "circle_status sample_ext None = None" by (simp add: circle_status_def)
  then show "update_submission_outcome sample_ext sample_held sample_store3 = Inr sample_store4"
    by (simp add: update_submission_outcome_def validate_submission_outcome_def valid_status_def count_rows_def
        set_submission_def update_by_def repeats_latest_outcome_def max_seq_def record_event_def burn_of_def
        lookup_by_def append_event_def event_of_def submission_of_def keeps_request_def set_burn_def
        sample_store_more)
qed

lemma sample_step5: "store_step sample_ext sample_store4 sample_store5"
proof (rule step_release)
  show "release_hold 5 True sample_store4 = Inr ((0, 1), sample_store5)"
    by (simp add: release_hold_def release_store_def record_event_def burn_of_def lookup_by_def append_event_def
        event_of_def submission_of_def keeps_request_def count_rows_def drop_submission_def delete_by_def
        sample_store_more)
qed

lemma sample_step6: "store_step sample_ext sample_store5 sample_store6"
proof (rule step_save)
  show "save_submission sample_ext sample_saved sample_store5 = Inr sample_store6"
    using sample_validates
    by (simp add: save_submission_def submission_of_def burn_of_def lookup_by_def record_event_def insert_row_def
        append_event_def event_of_def keeps_request_def sample_store_more)
  show "consumed sample_store5 (sv_note_id sample_saved)"
    by (simp add: consumed_def sample_store_more)
qed

lemma sample_run6: "store_steps sample_ext (initialize_store 1 sample_anchor) sample_store6"
  using sample_run sample_step4 sample_step5 sample_step6 store_steps_step store_steps_trans
  unfolding sample_store0_def by meson

theorem reauthorized_only_for_cause_witness:
  "\<exists>k. 0 < k \<and> k < 3 \<and> ev_note_id (st_events sample_store6 ! k) = 5 \<and>
     (ev_kind (st_events sample_store6 ! k) = OperatorRelease \<or> ev_kind (st_events sample_store6 ! k) = WithdrawalLimit \<or>
      (ev_kind (st_events sample_store6 ! k) = Outcome \<and> ev_status (st_events sample_store6 ! k) = Some Expired))"
  by (rule reauthorized_only_for_cause [OF sample_run6]) (simp_all add: sample_store_more)

section \<open>The history only grows, and a stale release is refused\<close>

text \<open>
  the history of burns is never rewritten: what the store held at any moment is a prefix of
  what it holds later, the new rows carry larger sequence numbers, and all numbers strictly
  increase.
\<close>

theorem history_append_only:
  assumes "store_inv x s" and "store_steps x s t"
  shows "\<exists>es. st_events t = st_events s @ es \<and> sorted_wrt (<) (map ev_seq (st_events t)) \<and>
           (\<forall>e \<in> set (st_events s). \<forall>f \<in> set es. ev_seq e < ev_seq f)"
proof -
  obtain es where es: "st_events t = st_events s @ es" using store_steps_events [OF assms(2,1)] by blast
  have "sorted_wrt (<) (map ev_seq (st_events t))"
    using store_steps_inv [OF assms(2,1)] by (simp add: store_inv_def history_ok_def)
  with es show ?thesis by (auto simp: sorted_wrt_append)
qed

theorem history_append_only_witness:
  "store_inv sample_ext sample_store0 \<and> (\<exists>es. st_events sample_store3 = st_events sample_store0 @ es \<and>
     sorted_wrt (<) (map ev_seq (st_events sample_store3)))"
  using history_append_only [OF initialize_store_inv sample_run [unfolded sample_store0_def]]
    initialize_store_inv [of sample_ext 1 sample_anchor] unfolding sample_store0_def by blast

lemma max_seq_same:
  assumes "\<And>e. e \<in> set es \<Longrightarrow> \<not> p e" and "st_events t = st_events s @ es"
  shows "max_seq p t = max_seq p s"
  using assms by (simp add: max_seq_def filter_False)

lemma max_seq_grown:
  assumes "history_ok s" and "max_seq p s = Some q" and "st_events t = st_events s @ es"
    and "\<forall>e \<in> set es. st_next_seq s \<le> ev_seq e" and "e \<in> set es" and "p e"
  shows "\<exists>q'. max_seq p t = Some q' \<and> q < q'"
proof -
  obtain q' where q': "max_seq p t = Some q'"
    using assms(3,5,6) max_seq_None [of p t] by (cases "max_seq p t") auto
  obtain d where "d \<in> set (st_events s)" "ev_seq d = q" using max_seq_Some(1) [OF assms(2)] by blast
  then have "q < st_next_seq s" using assms(1) by (auto simp: history_ok_def)
  also have "\<dots> \<le> ev_seq e" using assms(4,5) by blast
  also have "\<dots> \<le> q'" using max_seq_Some(2) [OF q', of e] assms(3,5,6) by simp
  finally show ?thesis using q' by blast
qed

text \<open>
  an operator releases only what they saw. A release that names the sequence number from an
  earlier listing is refused as changed if the note's history has grown since, and otherwise does
  exactly what \<^verbatim>\<open>release_hold\<close> does.
\<close>

theorem stale_release_refused:
  assumes "store_inv x s" and "hold_entry_of x s row = Inr entry" and "store_steps x s t"
  shows "release_checked \<lparr>rl_note_id = held_note row, rl_expected_event_seq = int (he_event_seq entry),
           rl_circle_not_accepted = c\<rparr> t =
         (if \<exists>e \<in> set (drop (length (st_events s)) (st_events t)). ev_note_id e = held_note row
          then Inl ReleaseConflict else release_hold (held_note row) c t)"
proof -
  let ?p = "\<lambda>e. ev_note_id e = held_note row"
  have q: "max_seq ?p s = Some (he_event_seq entry)" "0 < he_event_seq entry"
    using assms(2) by (auto simp: hold_entry_of_def and_then_Inr_iff ok_or_Inr_iff split: if_splits)
  obtain es where es: "st_events t = st_events s @ es" "\<forall>e \<in> set es. st_next_seq s \<le> ev_seq e"
    using store_steps_events [OF assms(3,1)] by blast
  show ?thesis
  proof (cases "\<exists>e \<in> set es. ?p e")
    case True
    then obtain q' where "max_seq ?p t = Some q'" "he_event_seq entry < q'"
      using max_seq_grown [OF store_invD(2) [OF assms(1)] q(1) es] by blast
    then show ?thesis using True es q by (simp add: release_checked_def)
  next
    case False
    then have "max_seq ?p t = Some (he_event_seq entry)" using max_seq_same [of es ?p t s] es q by auto
    then show ?thesis using False es q by (simp add: release_checked_def)
  qed
qed

lemma sample_held_listed:
  "hold_entry_of sample_ext sample_store4 (HeldWithdrawal sample_held) =
     Inr \<lparr>he_note_id = ''0x05'', he_kind = ''withdrawal'', he_reason = ''HttpRejected'',
       he_http_status = Some 400, he_circle_message = None, he_event_seq = 2\<rparr>"
  by (simp add: hold_entry_of_def held_reason_def max_seq_def held_answer_def sample_store_more)
    (simp add: sample_ext_def)

theorem stale_release_refused_witness:
  "release_checked \<lparr>rl_note_id = 5, rl_expected_event_seq = 2, rl_circle_not_accepted = True\<rparr> sample_store5 =
     Inl ReleaseConflict"
proof -
  have run: "store_steps sample_ext (initialize_store 1 sample_anchor) sample_store4"
    using sample_run sample_step4 store_steps_step store_steps_trans unfolding sample_store0_def by meson
  have inv: "store_inv sample_ext sample_store4" by (rule store_steps_inv [OF run initialize_store_inv])
  show ?thesis
    using stale_release_refused [OF inv sample_held_listed store_steps_step [OF sample_step5], of True]
    by (simp add: sample_store_more)
qed

section \<open>What is ready to be withdrawn\<close>

lemma load_burns_rows:
  assumes "load_burns x s inc = Inr bs"
  shows "list_all2 (\<lambda>r b. db_note_id b = br_note_id r \<and> db_creation_block b = br_creation_block r \<and>
            br_consumption_block r = Some (db_consumption_block b) \<and>
            consumable_burn x (st_faucet s) (db_note b) (db_items b) (db_amount b))
     (sort_key withdrawal_key (filter (\<lambda>r. br_consumption_block r \<noteq> None \<and> (inc \<or> withdrawable s r)) (st_burns s))) bs"
proof -
  let ?rows = "sort_key withdrawal_key (filter (\<lambda>r. br_consumption_block r \<noteq> None \<and> (inc \<or> withdrawable s r)) (st_burns s))"
  have "List.map_filter (\<lambda>r. map_option (Pair r) (br_consumption_block r)) t =
      map (\<lambda>r. (r, the (br_consumption_block r))) t" if "\<forall>r \<in> set t. br_consumption_block r \<noteq> None" for t
    using that by (induction t) (auto simp: List.map_filter_simps split: option.splits)
  from this [of ?rows]
  have "list_all2 (\<lambda>p b. load_burn x (st_faucet s) p = Inr b) (map (\<lambda>r. (r, the (br_consumption_block r))) ?rows) bs"
    using assms unfolding load_burns_def collect_all_Inr_iff by auto
  then have "list_all2 (\<lambda>r b. load_burn x (st_faucet s) (r, the (br_consumption_block r)) = Inr b) ?rows bs"
    by (simp add: list_all2_map1)
  then show ?thesis
  proof (rule list.rel_mono_strong)
    fix r b assume r: "r \<in> set ?rows" and "load_burn x (st_faucet s) (r, the (br_consumption_block r)) = Inr b"
    then show "db_note_id b = br_note_id r \<and> db_creation_block b = br_creation_block r \<and>
        br_consumption_block r = Some (db_consumption_block b) \<and>
        consumable_burn x (st_faucet s) (db_note b) (db_items b) (db_amount b)"
      using decode_note_id by (fastforce simp: load_burn_Inr db_note_id_def)
  qed
qed

lemma sorted_keys_distinct:
  assumes "keys_ok s"
  shows "sorted_wrt (<) (map withdrawal_key (sort_key withdrawal_key (filter P (st_burns s))))"
proof -
  have "distinct (map br_note_id (filter P (st_burns s)))"
    using keys_okD(1) [OF assms] by (rule distinct_map_filter)
  then have "distinct (map withdrawal_key (filter P (st_burns s)))"
    by (auto simp: distinct_map inj_on_def withdrawal_key_def)
  then have "distinct (map withdrawal_key (sort_key withdrawal_key (filter P (st_burns s))))"
    by (simp add: distinct_map)
  then show ?thesis by (simp add: strict_sorted_iff)
qed

lemma burns_ready_spec:
  assumes "store_inv x s" and "burns_ready_for_withdrawal x s lag depth = Inr bs"
  shows "sorted_wrt (<) (map (\<lambda>b. (db_creation_block b, db_note_id b)) bs) \<and>
    {(db_note_id b, db_consumption_block b) |b. b \<in> set bs} =
    {(n, c). \<exists>r h. burn_of s n = Some r \<and> br_consumption_block r = Some c \<and> br_hold_reason r = None \<and>
       submission_of s n \<in> {None} \<union> {Some q |q. sv_status q = Expired} \<and>
       st_checkpoint s = Some h \<and> c + depth \<le> hd_block_num h \<and> c \<le> lag}"
proof (cases "\<exists>h. st_checkpoint s = Some h \<and> depth \<le> hd_block_num h")
  case False
  then have "bs = []" using assms(2)
    by (auto simp: burns_ready_for_withdrawal_def split: option.splits if_splits)
  moreover have "{(n, c). \<exists>r h. burn_of s n = Some r \<and> br_consumption_block r = Some c \<and> br_hold_reason r = None \<and>
       submission_of s n \<in> {None} \<union> {Some q |q. sv_status q = Expired} \<and>
       st_checkpoint s = Some h \<and> c + depth \<le> hd_block_num h \<and> c \<le> lag} = {}"
    using False by auto
  ultimately show ?thesis by simp
next
  case True
  then obtain h where h: "st_checkpoint s = Some h" "depth \<le> hd_block_num h" by blast
  let ?P = "\<lambda>r. br_consumption_block r \<noteq> None \<and> (False \<or> withdrawable s r)"
  let ?rows = "sort_key withdrawal_key (filter ?P (st_burns s))"
  let ?last = "min lag (hd_block_num h - depth)"
  obtain all where all: "load_burns x s False = Inr all" and bs: "bs = filter (\<lambda>b. db_consumption_block b \<le> ?last) all"
    using assms(2) h by (auto simp: burns_ready_for_withdrawal_def and_then_Inr_iff)
  note k = store_invD(5) [OF assms(1)] and rel = load_burns_rows [OF all]
  have "map (\<lambda>b. (db_creation_block b, db_note_id b)) all = map withdrawal_key ?rows"
    using rel by (induction rule: list_all2_induct) (auto simp: withdrawal_key_def)
  then have "sorted_wrt (<) (map (\<lambda>b. (db_creation_block b, db_note_id b)) all)"
    using sorted_keys_distinct [OF k] by metis
  then have sorted: "sorted_wrt (<) (map (\<lambda>b. (db_creation_block b, db_note_id b)) bs)"
    by (simp add: bs sorted_wrt_map sorted_wrt_filter)
  have "(\<lambda>b. (db_note_id b, db_consumption_block b)) ` set all =
      (\<lambda>r. (br_note_id r, the (br_consumption_block r))) ` set ?rows"
    using rel by (induction rule: list_all2_induct) auto
  also have "\<dots> = {(n, c). \<exists>r. burn_of s n = Some r \<and> br_consumption_block r = Some c \<and> withdrawable s r}"
    using burn_of_mem [OF k] burn_of_key by (fastforce simp: image_iff)
  also have "\<dots> = {(n, c). \<exists>r. burn_of s n = Some r \<and> br_consumption_block r = Some c \<and> br_hold_reason r = None \<and>
       submission_of s n \<in> {None} \<union> {Some q |q. sv_status q = Expired}}"
  proof -
    have "withdrawable s r \<longleftrightarrow> br_hold_reason r = None \<and>
        submission_of s n \<in> {None} \<union> {Some q |q. sv_status q = Expired}" if "burn_of s n = Some r" for n r
      using burn_of_key [OF that] list_ex_key [OF keys_okD(2) [OF k], of n "\<lambda>q. sv_status q \<noteq> Expired"]
      by (auto simp: withdrawable_def submission_of_def)
    then show ?thesis by blast
  qed
  finally have img: "(\<lambda>b. (db_note_id b, db_consumption_block b)) ` set all = \<dots>" .
  have "{(db_note_id b, db_consumption_block b) |b. b \<in> set bs} =
      {(n, c) \<in> (\<lambda>b. (db_note_id b, db_consumption_block b)) ` set all. c \<le> ?last}"
    by (auto simp: bs)
  also have "\<dots> = {(n, c). \<exists>r h. burn_of s n = Some r \<and> br_consumption_block r = Some c \<and> br_hold_reason r = None \<and>
       submission_of s n \<in> {None} \<union> {Some q |q. sv_status q = Expired} \<and>
       st_checkpoint s = Some h \<and> c + depth \<le> hd_block_num h \<and> c \<le> lag}"
    unfolding img using h by auto
  finally show ?thesis using sorted by blast
qed

text \<open>
  C22: the burns offered for withdrawal are exactly the ones that qualify, oldest first. Each was
  consumed at least the configured number of verified blocks below the saved checkpoint and not
  after the proof-lag block, is not held and has no request other than an expired one; every row
  that qualifies is offered, once, in the order of creation block and note ID.
\<close>

theorem ready_burns_exact:
  assumes "store_inv x s" and "burns_ready_for_withdrawal x s lag depth = Inr bs"
  shows "sorted_wrt (<) (map (\<lambda>b. (db_creation_block b, db_note_id b)) bs) \<and>
    {(db_note_id b, db_consumption_block b) |b. b \<in> set bs} =
    {(n, c). \<exists>r h. burn_of s n = Some r \<and> br_consumption_block r = Some c \<and> br_hold_reason r = None \<and>
       submission_of s n \<in> {None} \<union> {Some q |q. sv_status q = Expired} \<and>
       st_checkpoint s = Some h \<and> c + depth \<le> hd_block_num h \<and> c \<le> lag}"
  using assms by (rule burns_ready_spec)

definition sample_store_deep :: store where
  "sample_store_deep = sample_store2\<lparr>st_checkpoint := Some (sample_header 17)\<rparr>"

lemma sample_store_deep_inv: "store_inv sample_ext sample_store_deep"
proof -
  have "store_steps sample_ext (initialize_store 1 sample_anchor) sample_store2"
    using sample_step1 sample_step2 store_steps_step store_steps_trans unfolding sample_store0_def by meson
  then have "store_inv sample_ext sample_store2" by (rule store_steps_inv [OF _ initialize_store_inv])
  then show ?thesis unfolding sample_store_deep_def
    by (rule store_inv_checkpoint) (simp_all add: sample_store_defs)
qed

lemma sample_ready: "burns_ready_for_withdrawal sample_ext sample_store_deep 16 5 = Inr [sample_burn]"
proof -
  have "load_burn sample_ext 1 (sample_row (Some 12), 12) = Inr sample_burn"
    using sample_note_consumable
    by (simp add: load_burn_Inr decode_note_def sample_row_def sample_burn_def)
      (simp add: sample_ext_def sample_note_def)
  then have "load_burns sample_ext sample_store_deep False = Inr [sample_burn]"
    by (simp add: load_burns_def withdrawable_def sample_store_deep_def sample_store_defs List.map_filter_simps)
  then show ?thesis
    by (simp add: burns_ready_for_withdrawal_def sample_burn_def sample_store_deep_def sample_store_defs)
qed

theorem ready_burns_exact_witness:
  "burns_ready_for_withdrawal sample_ext sample_store_deep 16 5 = Inr [sample_burn] \<and>
   sorted_wrt (<) (map (\<lambda>b. (db_creation_block b, db_note_id b)) [sample_burn])"
  using ready_burns_exact [OF sample_store_deep_inv sample_ready] sample_ready by blast

section \<open>The head of the withdrawal-limit queue\<close>

lemma sort_key_hd:
  assumes "sort_key f t = r # rest"
  shows "r \<in> set t" and "q \<in> set t \<Longrightarrow> f r \<le> f q"
proof -
  have set: "set t = insert r (set rest)" using assms by (metis list.set(2) set_sort)
  then show "r \<in> set t" by simp
  have "sorted (map f (sort_key f t))" by simp
  then show "q \<in> set t \<Longrightarrow> f r \<le> f q" using assms set by auto
qed

lemma first_limit_wait_Some:
  assumes "keys_ok s" and "first_limit_wait s = Some w"
  shows "\<exists>r. burn_of s (lw_note_id w) = Some r \<and> br_creation_block r = lw_creation_block w \<and>
           br_retry_at r = Some (lw_retry_at w)"
    and "burn_of s n = Some q \<Longrightarrow> br_retry_at q \<noteq> None \<Longrightarrow>
           (lw_creation_block w, lw_note_id w) \<le> (br_creation_block q, n)"
proof -
  let ?t = "filter (\<lambda>r. br_retry_at r \<noteq> None) (st_burns s)"
  obtain r rest where r: "sort_key withdrawal_key ?t = r # rest"
    and w: "w = \<lparr>lw_note_id = br_note_id r, lw_creation_block = br_creation_block r, lw_retry_at = the (br_retry_at r)\<rparr>"
    using assms(2) by (auto simp: first_limit_wait_def split: list.splits)
  note hd = sort_key_hd [OF r]
  have "burn_of s (br_note_id r) = Some r" "br_retry_at r \<noteq> None" using hd(1) burn_of_mem [OF assms(1)] by auto
  then show "\<exists>r. burn_of s (lw_note_id w) = Some r \<and> br_creation_block r = lw_creation_block w \<and>
      br_retry_at r = Some (lw_retry_at w)" by (auto simp: w)
  show "(lw_creation_block w, lw_note_id w) \<le> (br_creation_block q, n)"
    if "burn_of s n = Some q" "br_retry_at q \<noteq> None"
    using hd(2) [of q] that burn_of_key [OF that(1)] by (auto simp: w withdrawal_key_def)
qed

lemma first_limit_wait_None:
  assumes "first_limit_wait s = None"
  shows "burn_of s n = Some q \<Longrightarrow> br_retry_at q = None"
proof -
  have "sort_key withdrawal_key (filter (\<lambda>r. br_retry_at r \<noteq> None) (st_burns s)) = []"
    using assms by (auto simp: first_limit_wait_def split: list.splits)
  then have "filter (\<lambda>r. br_retry_at r \<noteq> None) (st_burns s) = []" by (metis set_sort set_empty)
  then show "burn_of s n = Some q \<Longrightarrow> br_retry_at q = None"
    using burn_of_key by (auto simp: filter_empty_conv)
qed

end
