(* ===== verification/Attester.thy ===== *)
theory Attester
  imports Store_Props
begin

text \<open>
  \<^verbatim>\<open>crates/xusdc-light-attester/src/attester.rs\<close> and the \<^verbatim>\<open>Attester\<close> methods of \<^verbatim>\<open>submission.rs\<close>: the
  sequential cycle that scans the chain, recovers saved requests, withdraws new burns and polls
  Circle. Everything outside the process is the environment \<open>env\<close>: the Miden node, Circle, the
  two signers, the clock, the admin inbox, the shutdown token and whether a database statement
  fails. Each use of it is numbered by \<open>at_tick\<close>, so the environment may answer differently every
  time. \<open>at_trace\<close> records, for the theorems only, the Circle requests and admin answers in order.
  Log lines and telemetry spans are left out.
\<close>

section \<open>The environment\<close>

record scan_limits =
  sl_latest_committed_block :: block_number
  sl_proof_lag_block :: block_number

datatype operation = ListHolds "note_id option" | Release release_selection

record command =
  cm_operation :: operation
  cm_abandoned :: bool

datatype inbox = Empty | Disconnected | Received command

record env =
  en_ext :: ext
  en_config :: config
  en_signers :: "nat \<Rightarrow> (b256 \<Rightarrow> signer_error + string) \<times> (b256 \<Rightarrow> signer_error + string)"
  en_scan_limits :: "nat \<Rightarrow> scan_limits option"
  en_block :: "nat \<Rightarrow> block_number \<Rightarrow> signed_block option"
  en_prepare :: "nat \<Rightarrow> discovered_burn \<Rightarrow> u64 \<Rightarrow> circle_error + prepare_response"
  en_post :: "nat \<Rightarrow> saved_submission \<Rightarrow> circle_error + raw_response"
  en_get :: "nat \<Rightarrow> saved_submission \<Rightarrow> string \<Rightarrow> circle_error + raw_response"
  en_now :: "nat \<Rightarrow> int"
  en_inbox :: "nat \<Rightarrow> inbox"
  en_cancelled :: "nat \<Rightarrow> bool"
  en_sql_fails :: "nat \<Rightarrow> bool"
  en_pause_commands :: "nat \<Rightarrow> command option list"

record holds_page_reply =
  hp_faucet_account_id :: account_id
  hp_trusted_anchor_block :: block_number
  hp_trusted_anchor_commitment :: b256
  hp_holds :: "hold_entry list"
  hp_next_after :: "string option"

text \<open>
  A Circle request in the trace carries the row that the store held for the note when it was sent,
  and whether Circle answered 429.
\<close>

datatype action =
    SentPrepare note_id bool
  | SentPost saved_submission "saved_submission option" bool
  | SentGet saved_submission string bool
  | AnsweredList "release_error + holds_page_reply"
  | AnsweredRelease "release_error + nat \<times> nat"

record attester =
  at_store :: store
  at_node_tip :: "block_number option"
  at_admin :: bool
  at_rate_limited :: bool
  at_tick :: nat
  at_trace :: "action list"

type_synonym ('e, 'a) arun = "(attester, 'e, 'a) run"

definition tick :: "attester \<Rightarrow> attester" where
  "tick a = a\<lparr>at_tick := Suc (at_tick a)\<rparr>"

definition note_action :: "action \<Rightarrow> attester \<Rightarrow> attester" where
  "note_action x a = a\<lparr>at_trace := at_trace a @ [x]\<rparr>"

text \<open>A database call: it fails as a whole, or commits as a whole.\<close>

definition sql :: "env \<Rightarrow> (store \<Rightarrow> store_error + 'a \<times> store) \<Rightarrow> (store_error, 'a) arun" where
  "sql e op a =
     (if en_sql_fails e (at_tick a) then (Inl StoreQueryFailed, tick a)
      else case op (at_store a) of
          Inl err \<Rightarrow> (Inl err, tick a)
        | Inr (v, s) \<Rightarrow> (Inr v, (tick a)\<lparr>at_store := s\<rparr>))"

definition sql_read :: "env \<Rightarrow> (store \<Rightarrow> store_error + 'a) \<Rightarrow> (store_error, 'a) arun" where
  "sql_read e q = sql e (\<lambda>s. and_then (q s) (\<lambda>v. Inr (v, s)))"

definition sql_write :: "env \<Rightarrow> (store \<Rightarrow> store_error + store) \<Rightarrow> (store_error, unit) arun" where
  "sql_write e w = sql e (\<lambda>s. and_then (w s) (\<lambda>t. Inr ((), t)))"

definition read_clock :: "env \<Rightarrow> ('e, int) arun" where
  "read_clock e a = (Inr (en_now e (at_tick a)), tick a)"

section \<open>Admin commands\<close>

definition ADMIN_COMMANDS_PER_CHECKPOINT :: nat where "ADMIN_COMMANDS_PER_CHECKPOINT = 8"

definition holds_reply :: "config \<Rightarrow> hold_entry list \<Rightarrow> holds_page_reply" where
  "holds_reply cfg hs =
     (let shown = (if HOLDS_PAGE < length hs then take HOLDS_PAGE hs else hs) in
      \<lparr>hp_faucet_account_id = cg_faucet_account_id cfg,
       hp_trusted_anchor_block = cg_trusted_anchor_block cfg,
       hp_trusted_anchor_commitment = cg_trusted_anchor_commitment cfg,
       hp_holds = shown,
       hp_next_after = (if HOLDS_PAGE < length hs \<and> shown \<noteq> [] then Some (he_note_id (last shown)) else None)\<rparr>)"

text \<open>The release transaction with the release's own errors.\<close>

definition sql_release :: "env \<Rightarrow> release_selection \<Rightarrow> (release_error, nat \<times> nat) arun" where
  "sql_release e sel a =
     (if en_sql_fails e (at_tick a) then (Inl (ReleaseStore StoreQueryFailed), tick a)
      else case release_checked sel (at_store a) of
          Inl err \<Rightarrow> (Inl err, tick a)
        | Inr (counts, s) \<Rightarrow> (Inr counts, (tick a)\<lparr>at_store := s\<rparr>))"

definition handle_admin :: "env \<Rightarrow> command \<Rightarrow> attester \<Rightarrow> attester" where
  "handle_admin e c a =
     (if en_cancelled e (at_tick a) \<or> cm_abandoned c then tick a
      else case cm_operation c of
          ListHolds after \<Rightarrow>
            (case sql_read e (\<lambda>s. holds_page (en_ext e) s after) (tick a) of
               (Inl err, b) \<Rightarrow> note_action (AnsweredList (Inl (ReleaseStore err))) b
             | (Inr hs, b) \<Rightarrow> note_action (AnsweredList (Inr (holds_reply (en_config e) hs))) b)
        | Release sel \<Rightarrow>
            (case sql_release e sel (tick a) of (r, b) \<Rightarrow> note_action (AnsweredRelease r) b))"

fun admin_commands :: "env \<Rightarrow> nat \<Rightarrow> attester \<Rightarrow> attester" where
  "admin_commands e 0 a = a"
| "admin_commands e (Suc k) a =
     (if en_cancelled e (at_tick a) then tick a
      else case en_inbox e (at_tick a) of
          Empty \<Rightarrow> tick a
        | Disconnected \<Rightarrow> (tick a)\<lparr>at_admin := False\<rparr>
        | Received c \<Rightarrow> admin_commands e k (handle_admin e c (tick a)))"

definition admin_checkpoint :: "env \<Rightarrow> attester \<Rightarrow> attester" where
  "admin_checkpoint e a =
     (if \<not> at_admin a \<or> en_cancelled e (at_tick a) then tick a
      else admin_commands e ADMIN_COMMANDS_PER_CHECKPOINT (tick a))"

definition then_run :: "(attester \<Rightarrow> attester) \<Rightarrow> ('e, 'a) arun \<Rightarrow> ('e, 'a) arun" where
  "then_run f m a = m (f a)"

section \<open>Discovery\<close>

datatype discover_error = Chain | ChainDiverged | DiscoverStore store_error

fun discover_failure :: "discover_error \<Rightarrow> failure_class" where
  "discover_failure Chain = Transient ''chain_read''"
| "discover_failure ChainDiverged = Integrity ''chain_diverged''"
| "discover_failure (DiscoverStore _) = Actionable ''store''"

definition checkpoint :: "env \<Rightarrow> (store_error, header) arun" where
  "checkpoint e = sql_read e (\<lambda>s. ok_or (st_checkpoint s) StoreInvalid)"

definition block_by_number :: "env \<Rightarrow> block_number \<Rightarrow> (discover_error, signed_block) arun" where
  "block_by_number e n a = (ok_or (en_block e (at_tick a) n) Chain, tick a)"

definition read_scan_limits :: "env \<Rightarrow> (discover_error, scan_limits) arun" where
  "read_scan_limits e a = (ok_or (en_scan_limits e (at_tick a)) Chain, tick a)"

definition check_checkpoint :: "env \<Rightarrow> header \<Rightarrow> (discover_error, unit) arun" where
  "check_checkpoint e cp =
     bind_run (block_by_number e (hd_block_num cp)) (\<lambda>block.
     if hd_commitment (bk_header block) \<noteq> hd_commitment cp then raise ChainDiverged else ret ())"

fun find_candidates :: "env \<Rightarrow> block_number \<Rightarrow> output_note list \<Rightarrow> (store_error, burn_candidate list) arun" where
  "find_candidates e block_num [] = ret []"
| "find_candidates e block_num (Private _ # rest) = find_candidates e block_num rest"
| "find_candidates e block_num (Public n # rest) =
     (case burn_candidate_new (en_ext e) n block_num (cg_faucet_account_id (en_config e)) of
        Inl _ \<Rightarrow> find_candidates e block_num rest
      | Inr candidate \<Rightarrow>
          bind_run (sql_read e (\<lambda>s. Inr (note_known s (bc_note_id candidate)))) (\<lambda>known.
          bind_run (find_candidates e block_num rest) (\<lambda>found.
          ret (if known then found else candidate # found))))"

fun find_consumed :: "env \<Rightarrow> block_number \<Rightarrow> nullifier list \<Rightarrow> (store_error, discovered_burn list) arun" where
  "find_consumed e block_num [] = ret []"
| "find_consumed e block_num (nf # rest) =
     bind_run (sql_read e (\<lambda>s. candidate_by_nullifier (en_ext e) s nf)) (\<lambda>candidate.
     bind_run (find_consumed e block_num rest) (\<lambda>found.
     ret (case candidate of None \<Rightarrow> found | Some c \<Rightarrow> into_discovered c block_num # found)))"

definition faucet_inputs :: "env \<Rightarrow> signed_block \<Rightarrow> nullifier list" where
  "faucet_inputs e block =
     concat (map tx_inputs (filter (\<lambda>t. tx_account t = cg_faucet_account_id (en_config e)) (bk_transactions block)))"

definition find_burns_in_block ::
    "env \<Rightarrow> signed_block \<Rightarrow> (store_error, burn_candidate list \<times> discovered_burn list) arun" where
  "find_burns_in_block e block =
     (let block_num = hd_block_num (bk_header block) in
      bind_run (find_candidates e block_num (concat (bk_output_batches block))) (\<lambda>candidates.
      bind_run (find_consumed e block_num (faucet_inputs e block)) (\<lambda>burns.
      ret (candidates, burns))))"

definition save_block :: "env \<Rightarrow> signed_block \<Rightarrow> (discover_error, unit) arun" where
  "save_block e block =
     map_err DiscoverStore
       (bind_run (find_burns_in_block e block) (\<lambda>(candidates, burns).
        sql_write e (save_scan_progress (en_ext e) candidates burns (bk_header block))))"

definition fetch_and_verify_block :: "env \<Rightarrow> block_number \<Rightarrow> header \<Rightarrow> (discover_error, signed_block) arun" where
  "fetch_and_verify_block e block_num last_verified_header =
     bind_run (block_by_number e block_num) (\<lambda>block.
     if hd_block_num (bk_header block) \<noteq> block_num \<or>
        \<not> x_block_validate (en_ext e) block (Some last_verified_header)
     then raise ChainDiverged else ret block)"

fun scan_blocks :: "env \<Rightarrow> block_number list \<Rightarrow> header \<Rightarrow> (discover_error, unit) arun" where
  "scan_blocks e [] last_verified_header = ret ()"
| "scan_blocks e (block_num # rest) last_verified_header =
     then_run (admin_checkpoint e)
     (bind_run (fetch_and_verify_block e block_num last_verified_header) (\<lambda>block.
      bind_run (save_block e block) (\<lambda>_.
      scan_blocks e rest (bk_header block))))"

definition block_range :: "block_number \<Rightarrow> block_number \<Rightarrow> block_number list" where
  "block_range start end_block = [start..<Suc end_block]"

definition set_tip :: "block_number option \<Rightarrow> attester \<Rightarrow> attester" where
  "set_tip t a = a\<lparr>at_node_tip := t\<rparr>"

definition discover_burns :: "env \<Rightarrow> (discover_error, block_number) arun" where
  "discover_burns e =
     then_run (set_tip None)
     (bind_run (map_err DiscoverStore (checkpoint e)) (\<lambda>last_verified_header.
      bind_run (read_scan_limits e) (\<lambda>limits.
      let tip = sl_latest_committed_block limits; lag = sl_proof_lag_block limits in
      then_run (set_tip (Some tip))
      (if tip < hd_block_num last_verified_header then
         (if hd_block_num last_verified_header = cg_trusted_anchor_block (en_config e)
          then ret lag else raise ChainDiverged)
       else if tip = hd_block_num last_verified_header then
         bind_run (check_checkpoint e last_verified_header) (\<lambda>_. ret lag)
       else bind_run (scan_blocks e (block_range (Suc (hd_block_num last_verified_header)) tip)
              last_verified_header) (\<lambda>_. ret lag)))))"

section \<open>Circle's withdrawal limit\<close>

definition limit_allows :: "env \<Rightarrow> note_id \<Rightarrow> (store_error, bool) arun" where
  "limit_allows e n =
     bind_run (sql_read e (\<lambda>s. Inr (first_limit_wait s))) (\<lambda>wait.
     case wait of
       None \<Rightarrow> ret True
     | Some w \<Rightarrow>
         if lw_note_id w \<noteq> n then
           bind_run (sql_read e (\<lambda>s. burn_creation_block s n)) (\<lambda>block.
           ret ((block, n) < (lw_creation_block w, lw_note_id w)))
         else
           bind_run (read_clock e) (\<lambda>now.
           case since_epoch now of
             None \<Rightarrow> raise (StoreRetry ClockBeforeEpoch)
           | Some since \<Rightarrow>
               if lw_retry_at w < 0 then raise StoreInvalid
               else if int (since div nanos_per_sec) < lw_retry_at w then ret False
               else (case cg_withdrawal_limit (en_config e) of
                   None \<Rightarrow> raise StoreNoLimitPolicy
                 | Some policy \<Rightarrow>
                     (case retry_at policy now of
                        Inl err \<Rightarrow> raise (StoreRetry err)
                      | Inr deadline \<Rightarrow>
                          bind_run (sql_write e (advance_limit_retry n deadline)) (\<lambda>_. ret True)))))"

definition wait_for_withdrawal_limit ::
    "env \<Rightarrow> note_id \<Rightarrow> nat \<Rightarrow> bytes \<Rightarrow> (saved_submission \<times> submission_attempt) option \<Rightarrow> (submit_error, bool) arun" where
  "wait_for_withdrawal_limit e n status body sub =
     (case cg_withdrawal_limit (en_config e) of
        None \<Rightarrow> ret False
      | Some policy \<Rightarrow>
          if \<not> is_withdrawal_limit (en_ext e) status body (wl_message_prefix policy) then ret False
          else
          bind_run (read_clock e) (\<lambda>now.
          case retry_at policy now of
            Inl err \<Rightarrow> raise (StoreError (StoreRetry err))
          | Inr deadline \<Rightarrow>
              bind_run (map_err StoreError (sql_write e (record_limit_rejection n deadline body sub))) (\<lambda>_.
              ret True)))"

section \<open>Sending a saved request\<close>

definition limited_reply :: "circle_error + 'a \<Rightarrow> bool" where
  "limited_reply r = (case r of Inl err \<Rightarrow> is_rate_limited err | Inr _ \<Rightarrow> False)"

definition mark_limited :: "bool \<Rightarrow> attester \<Rightarrow> attester" where
  "mark_limited l a = a\<lparr>at_rate_limited := at_rate_limited a \<or> l\<rparr>"

definition call_circle :: "env \<Rightarrow> saved_submission \<Rightarrow> attester \<Rightarrow> (circle_error + raw_response) \<times> attester" where
  "call_circle e saved a =
     (case sv_withdrawal_id saved of
        Some i \<Rightarrow> (let r = en_get e (at_tick a) saved i in
          (r, note_action (SentGet saved i (limited_reply r)) (tick a)))
      | None \<Rightarrow> (let r = en_post e (at_tick a) saved in
          (r, note_action (SentPost saved (submission_of (at_store a) (sv_note_id saved)) (limited_reply r)) (tick a))))"

text \<open>
  \<^verbatim>\<open>send_saved_request\<close>: the reply as the caller sees it, or the failure class of a lost reply, with
  the request's last answer updated. A 429 with a body is kept like any other reply.
\<close>

definition got_reply :: "raw_response \<Rightarrow> saved_submission \<Rightarrow> saved_submission" where
  "got_reply r saved = saved\<lparr>sv_last_http_status := Some (rr_status r), sv_last_response := Some (rr_body r),
     sv_last_error := None\<rparr>"

definition lost_reply :: "string \<Rightarrow> saved_submission \<Rightarrow> saved_submission" where
  "lost_reply m saved = saved\<lparr>sv_last_http_status := None, sv_last_response := None, sv_last_error := Some m\<rparr>"

definition read_sent :: "ext \<Rightarrow> circle_error + raw_response \<Rightarrow> saved_submission \<Rightarrow>
    (failure_class + raw_response) \<times> saved_submission" where
  "read_sent x result saved = (case result of
       Inr r \<Rightarrow> (Inr r, got_reply r saved)
     | Inl (RateLimited (Some body) _) \<Rightarrow>
         (let r = \<lparr>rr_status = HTTP_TOO_MANY_REQUESTS, rr_body = body\<rparr> in (Inr r, got_reply r saved))
     | Inl err \<Rightarrow> (Inl (circle_failure err), lost_reply (circle_error_text x err) saved))"

definition send_saved_request ::
    "env \<Rightarrow> saved_submission \<Rightarrow> attester \<Rightarrow> ((failure_class + raw_response) \<times> saved_submission) \<times> attester" where
  "send_saved_request e saved a =
     (case call_circle e saved a of
        (result, b) \<Rightarrow> (read_sent (en_ext e) result saved, mark_limited (limited_reply result) b))"

definition save_outcome :: "env \<Rightarrow> saved_submission \<Rightarrow> (submit_error, unit) arun" where
  "save_outcome e saved = map_err StoreError (sql_write e (update_submission_outcome (en_ext e) saved))"

text \<open>The end of \<^verbatim>\<open>advance_submission\<close>: the reply is read and the outcome saved.\<close>

definition finish_submission ::
    "env \<Rightarrow> (failure_class + raw_response) \<times> saved_submission \<Rightarrow> (submit_error, unit) arun" where
  "finish_submission e = (\<lambda>(response, saved).
     save_outcome e (case response of
         Inr r \<Rightarrow> snd (read_response (en_ext e) r saved)
       | Inl _ \<Rightarrow> saved))"

definition resolve_conflict :: "env \<Rightarrow> saved_submission \<Rightarrow> (submit_error, unit) arun" where
  "resolve_conflict e saved =
     (case read_conflict (en_ext e) saved of
        (Some _, saved') \<Rightarrow> save_outcome e saved'
      | (None, saved') \<Rightarrow>
          bind_run (save_outcome e saved') (\<lambda>_ a.
            case send_saved_request e saved' a of (r, b) \<Rightarrow> finish_submission e r b))"

definition advance_submission ::
    "env \<Rightarrow> submission_attempt \<Rightarrow> saved_submission \<Rightarrow> (submit_error, unit) arun" where
  "advance_submission e attempt saved a =
     (if at_rate_limited a then (Inr (), a)
      else case send_saved_request e saved a of
        ((response, sent), b) \<Rightarrow>
          bind_run
            (case response of
               Inr r \<Rightarrow> if sv_withdrawal_id sent = None
                 then wait_for_withdrawal_limit e (sv_note_id sent) (rr_status r) (rr_body r) (Some (sent, attempt))
                 else ret False
             | Inl _ \<Rightarrow> ret False)
            (\<lambda>waits.
             if waits then ret ()
             else if sv_withdrawal_id sent = None \<and>
                     (case response of Inr r \<Rightarrow> rr_status r = HTTP_CONFLICT | Inl _ \<Rightarrow> False)
             then resolve_conflict e sent
             else finish_submission e (response, sent)) b)"

fun advance_submissions :: "env \<Rightarrow> saved_submission list \<Rightarrow> (submit_error, unit) arun" where
  "advance_submissions e [] = ret ()"
| "advance_submissions e (saved # rest) =
     then_run (admin_checkpoint e) (\<lambda>a.
       if at_rate_limited a then (Inr (), a)
       else bind_run
         (if sv_withdrawal_id saved = None
          then map_err StoreError (limit_allows e (sv_note_id saved)) else ret True)
         (\<lambda>allowed.
          if \<not> allowed then advance_submissions e rest
          else bind_run (advance_submission e Recovery saved) (\<lambda>_. advance_submissions e rest)) a)"

section \<open>Withdrawing a burn\<close>

definition submit_signed_withdrawal :: "env \<Rightarrow> signed_withdrawal \<Rightarrow> (submit_error, unit) arun" where
  "submit_signed_withdrawal e w =
     (case submission_endpoint (en_ext e) (cg_circle_api_base_url (en_config e)) of
        Inl err \<Rightarrow> raise (InvalidRequest err)
      | Inr endpoint \<Rightarrow>
          (case submission (en_ext e) w endpoint of
             None \<Rightarrow> raise Encoding
           | Some saved \<Rightarrow>
               bind_run (map_err StoreError (sql_read e (\<lambda>s. saved_submission_for (en_ext e) s (sv_note_id saved)))) (\<lambda>_.
               bind_run (map_err StoreError (sql_write e (save_submission (en_ext e) saved))) (\<lambda>_.
               advance_submission e First saved))))"

definition prepare_withdrawal :: "env \<Rightarrow> discovered_burn \<Rightarrow> u64 \<Rightarrow> (submit_error, prepare_response) arun" where
  "prepare_withdrawal e burn fee a =
     (let r = en_prepare e (at_tick a) burn fee in
      (case r of Inl err \<Rightarrow> Inl (Prepare err) | Inr p \<Rightarrow> Inr p,
       mark_limited (limited_reply r) (note_action (SentPrepare (db_note_id burn) (limited_reply r)) (tick a))))"

definition sign_withdrawal :: "env \<Rightarrow> verified_batch \<Rightarrow> (submit_error, signed_withdrawal) arun" where
  "sign_withdrawal e v a =
     (case sign (en_signers e (at_tick a)) v of Inl err \<Rightarrow> Inl (Signing err) | Inr w \<Rightarrow> Inr w, tick a)"

definition withdraw :: "env \<Rightarrow> discovered_burn \<Rightarrow> (submit_error, unit) arun" where
  "withdraw e burn =
     (case forwarding_max_fee (en_config e) (dest_domain (db_items burn)) of
        None \<Rightarrow> raise (Verification UnsupportedDestination)
      | Some fee \<Rightarrow>
          bind_run (prepare_withdrawal e burn fee) (\<lambda>prepared.
          case verify (en_ext e) (en_config e) burn prepared of
            Inl err \<Rightarrow> raise (Verification err)
          | Inr verified \<Rightarrow>
              bind_run (sign_withdrawal e verified) (submit_signed_withdrawal e)))"

text \<open>The hold that a failure puts on its burn, with its HTTP evidence.\<close>

fun burn_hold :: "submit_error \<Rightarrow> burn_hold_reason option \<times> (nat \<times> bytes) option" where
  "burn_hold (Prepare (UnexpectedPrepareStatus status body)) =
     (if status = HTTP_BAD_REQUEST then (Some HoldPrepareRejected, Some (status, body)) else (None, None))"
| "burn_hold (Verification TooSmallToForward) = (Some HoldTooSmallToForward, None)"
| "burn_hold _ = (None, None)"

fun prepare_refusal :: "submit_error \<Rightarrow> (nat \<times> bytes) option" where
  "prepare_refusal (Prepare (UnexpectedPrepareStatus status body)) = Some (status, body)"
| "prepare_refusal _ = None"

definition hold_failed_burn :: "env \<Rightarrow> note_id \<Rightarrow> submit_error \<Rightarrow> (submit_error, unit) arun" where
  "hold_failed_burn e n err =
     (case burn_hold err of
        (Some reason, response) \<Rightarrow>
          bind_run (map_err StoreError (sql_write e (hold_burn n reason response))) (\<lambda>_. raise err)
      | (None, _) \<Rightarrow> raise err)"

definition attempt_withdrawal :: "env \<Rightarrow> discovered_burn \<Rightarrow> (submit_error, unit) arun" where
  "attempt_withdrawal e burn a =
     (case withdraw e burn a of
        (Inr _, b) \<Rightarrow> (Inr (), b)
      | (Inl err, b) \<Rightarrow>
          if is_fatal err then (Inl err, b)
          else bind_run
            (case prepare_refusal err of
               Some (status, body) \<Rightarrow> wait_for_withdrawal_limit e (db_note_id burn) status body None
             | None \<Rightarrow> ret False)
            (\<lambda>waits. if waits then ret () else hold_failed_burn e (db_note_id burn) err) b)"

text \<open>The outer result stops the cycle, the inner one is the first error of a single burn.\<close>

fun submit_withdrawals ::
    "env \<Rightarrow> discovered_burn list \<Rightarrow> submit_error option \<Rightarrow> (submit_error, submit_error option) arun" where
  "submit_withdrawals e [] first_error = ret first_error"
| "submit_withdrawals e (burn # rest) first_error =
     then_run (admin_checkpoint e) (\<lambda>a.
       if at_rate_limited a then (Inr first_error, a)
       else bind_run (map_err StoreError (limit_allows e (db_note_id burn))) (\<lambda>allowed.
         if \<not> allowed then ret first_error
         else (\<lambda>b. case attempt_withdrawal e burn b of
             (Inr _, c) \<Rightarrow> submit_withdrawals e rest first_error c
           | (Inl err, c) \<Rightarrow>
               if is_fatal err then (Inl err, c)
               else submit_withdrawals e rest (case first_error of None \<Rightarrow> Some err | Some f \<Rightarrow> Some f) c)) a)"

section \<open>The cycle\<close>

record cycle_report =
  cy_discover :: "discover_error option"
  cy_submit :: "submit_error option"

datatype cycle_failure = DiscoveryStopped discover_error | StoreStopped submit_error

fun discovery_outcome :: "discover_error + block_number \<Rightarrow> cycle_failure + (block_number option \<times> discover_error option)" where
  "discovery_outcome (Inr proof_lag_block) = Inr (Some proof_lag_block, None)"
| "discovery_outcome (Inl Chain) = Inr (None, Some Chain)"
| "discovery_outcome (Inl (DiscoverStore e)) = Inl (DiscoveryStopped (DiscoverStore e))"
| "discovery_outcome (Inl ChainDiverged) = Inl (DiscoveryStopped ChainDiverged)"

definition snapshot_submissions :: "env \<Rightarrow> (store_error, saved_submission list \<times> saved_submission list) arun" where
  "snapshot_submissions e =
     bind_run (sql_read e (submissions_to_recover (en_ext e))) (\<lambda>to_recover.
     bind_run (sql_read e (submissions_to_poll (en_ext e))) (\<lambda>to_poll.
     ret (to_recover, to_poll)))"

definition ready_burns :: "env \<Rightarrow> block_number \<Rightarrow> (store_error, discovered_burn list) arun" where
  "ready_burns e lag =
     sql_read e (\<lambda>s. burns_ready_for_withdrawal (en_ext e) s lag
       (cg_minimum_finality_depth_blocks (en_config e)))"

definition store_stop :: "(store_error, 'a) arun \<Rightarrow> (cycle_failure, 'a) arun" where
  "store_stop m = map_err (\<lambda>err. StoreStopped (StoreError err)) m"

definition cycle :: "env \<Rightarrow> (cycle_failure, cycle_report) arun" where
  "cycle e a =
     (case discover_burns e a of (discovered, b) \<Rightarrow>
      (case discovery_outcome discovered of
         Inl stop \<Rightarrow> (Inl stop, b)
       | Inr (proof_lag_block, discover) \<Rightarrow>
           bind_run (store_stop (snapshot_submissions e)) (\<lambda>(to_recover, to_poll).
           bind_run (case proof_lag_block of
               Some block \<Rightarrow> store_stop (ready_burns e block)
             | None \<Rightarrow> ret []) (\<lambda>fresh_burns.
           bind_run (map_err StoreStopped (advance_submissions e to_recover)) (\<lambda>_.
           bind_run (map_err StoreStopped (submit_withdrawals e fresh_burns None)) (\<lambda>submit.
           bind_run (map_err StoreStopped (advance_submissions e to_poll)) (\<lambda>_.
           ret \<lparr>cy_discover = discover, cy_submit = submit\<rparr>))))) b))"

text \<open>What ends the run: only a diverged chain.\<close>

definition finish_cycle :: "cycle_failure + cycle_report \<Rightarrow> discover_error option" where
  "finish_cycle outcome = (case outcome of
       Inl (DiscoveryStopped ChainDiverged) \<Rightarrow> Some ChainDiverged
     | _ \<Rightarrow> None)"

text \<open>
  \<^verbatim>\<open>record_progress\<close>: the fields written on the span of each cycle. Ages and durations stop at zero.
\<close>

record cycle_progress =
  cp_block_number :: block_number
  cp_tip_number :: "block_number option"
  cp_stale_secs :: nat
  cp_store :: progress
  cp_oldest_age_blocks :: nat
  cp_limit :: "(note_id \<times> int) option"

definition record_progress :: "env \<Rightarrow> (store_error, cycle_progress) arun" where
  "record_progress e =
     bind_run (checkpoint e) (\<lambda>verified.
     bind_run (sql_read e (\<lambda>s. Inr (store_progress s))) (\<lambda>p.
     bind_run (read_clock e) (\<lambda>now.
     bind_run (sql_read e (\<lambda>s. Inr (first_limit_wait s))) (\<lambda>wait a.
     (Inr \<lparr>cp_block_number = hd_block_num verified, cp_tip_number = at_node_tip a,
        cp_stale_secs = (case since_epoch now of None \<Rightarrow> 0 | Some since \<Rightarrow> since div nanos_per_sec) - hd_timestamp verified,
        cp_store = p,
        cp_oldest_age_blocks = (case pg_oldest_unfinished_burn p of None \<Rightarrow> 0 | Some block \<Rightarrow> hd_block_num verified - block),
        cp_limit = map_option (\<lambda>w. (lw_note_id w, lw_retry_at w)) wait\<rparr>, a)))))"

section \<open>The run\<close>

definition MAX_RATE_LIMITED_PAUSE :: nat where "MAX_RATE_LIMITED_PAUSE = 60 * nanos_per_sec"

text \<open>Durations saturate at their largest value.\<close>

definition next_pause :: "config \<Rightarrow> bool \<Rightarrow> nat \<Rightarrow> nat" where
  "next_pause cfg rate_limited pause =
     (if rate_limited
      then max (cg_poll_interval cfg) (min MAX_RATE_LIMITED_PAUSE (min duration_max (pause * 2)))
      else cg_poll_interval cfg)"

text \<open>
  The commands that arrive before the pause ends or the service is shut down; \<open>None\<close> is the end
  of the inbox.
\<close>

fun pause_commands :: "env \<Rightarrow> command option list \<Rightarrow> attester \<Rightarrow> attester" where
  "pause_commands e [] a = a"
| "pause_commands e (c # cs) a =
     (if \<not> at_admin a then a
      else case c of
          Some command \<Rightarrow> pause_commands e cs (handle_admin e command a)
        | None \<Rightarrow> pause_commands e cs (a\<lparr>at_admin := False\<rparr>))"

definition clear_limited :: "attester \<Rightarrow> attester" where
  "clear_limited a = a\<lparr>at_rate_limited := False\<rparr>"

text \<open>
  \<^verbatim>\<open>run\<close> for at most \<open>fuel\<close> cycles: it ends with the divergence, or with the pauses it took. It
  stops early when the shutdown token is cancelled.
\<close>

fun run :: "env \<Rightarrow> nat \<Rightarrow> nat \<Rightarrow> (discover_error, nat list) arun" where
  "run e 0 pause a = (Inr [], a)"
| "run e (Suc fuel) pause a =
     (if en_cancelled e (at_tick a) then (Inr [], (tick a)\<lparr>at_admin := False\<rparr>)
      else case cycle e (clear_limited (admin_checkpoint e (tick a))) of
        (outcome, ended) \<Rightarrow>
          let b = snd (record_progress e ended) in
          (case finish_cycle outcome of
             Some err \<Rightarrow> (Inl err, b)
           | None \<Rightarrow>
               let pause' = next_pause (en_config e) (at_rate_limited b) pause;
                   c = pause_commands e (en_pause_commands e (at_tick b)) (tick b) in
               case run e fuel pause' c of
                 (Inl err, d) \<Rightarrow> (Inl err, d)
               | (Inr ps, d) \<Rightarrow> (Inr (pause' # ps), d)))"

definition attach_admin :: "attester \<Rightarrow> attester" where
  "attach_admin a = a\<lparr>at_admin := True\<rparr>"

text \<open>\<^verbatim>\<open>AttesterService::run\<close>: with the admin listener when one is configured.\<close>

definition service_run :: "env \<Rightarrow> nat \<Rightarrow> (discover_error, nat list) arun" where
  "service_run e fuel a = run e fuel (cg_poll_interval (en_config e))
     (if cg_admin (en_config e) = None then a else attach_admin a)"

section \<open>Startup\<close>

datatype start_error =
    StartChain
  | FaucetMissing
  | AnchorNotPinned
  | StartSigners signer_error
  | StartCircle
  | StartOpen open_error
  | WaitsWithoutPolicy
  | StartDiscover discover_error

text \<open>
  What startup asks besides the environment: whether the node and Circle answer, whether the faucet
  account exists (\<open>None\<close>: the read failed), the loaded signers, and the store file found at the
  path, if any. Database statements of startup are taken to succeed.
\<close>

record start_env =
  se_node_connects :: bool
  se_account_exists :: "account_id \<Rightarrow> bool option"
  se_secp :: secp
  se_signers :: signer_pair
  se_circle_connects :: bool
  se_store_file :: "store option"

definition open_or_create :: "ext \<Rightarrow> store option \<Rightarrow> account_id \<Rightarrow> trusted_anchor \<Rightarrow> open_error + store" where
  "open_or_create x file faucet anchor = (case file of
       Some s \<Rightarrow> and_then (validate_store x faucet anchor s) (\<lambda>_. Inr s)
     | None \<Rightarrow> Inr (initialize_store faucet anchor))"

definition config_anchor :: "config \<Rightarrow> trusted_anchor" where
  "config_anchor cfg = \<lparr>ta_block_num = cg_trusted_anchor_block cfg, ta_commitment = cg_trusted_anchor_commitment cfg\<rparr>"

definition anchor_pinned :: "ext \<Rightarrow> trusted_anchor \<Rightarrow> signed_block \<Rightarrow> bool" where
  "anchor_pinned x anchor block \<longleftrightarrow> hd_block_num (bk_header block) = ta_block_num anchor \<and>
     hd_commitment (bk_header block) = ta_commitment anchor \<and> x_block_validate x block None"

definition first_checkpoint :: "env \<Rightarrow> signed_block \<Rightarrow> attester \<Rightarrow> start_error + attester" where
  "first_checkpoint e block a =
     (case (case st_checkpoint (at_store a) of
          Some cp \<Rightarrow> check_checkpoint e cp a
        | None \<Rightarrow> save_block e block a) of
        (Inl err, _) \<Rightarrow> Inl (StartDiscover err)
      | (Inr _, b) \<Rightarrow> Inr b)"

definition start :: "env \<Rightarrow> start_env \<Rightarrow> start_error + attester" where
  "start e se =
     (let cfg = en_config e; anchor = config_anchor cfg in
      and_then (ensure_that (se_node_connects se) StartChain) (\<lambda>_.
      and_then (ok_or (se_account_exists se (cg_faucet_account_id cfg)) StartChain) (\<lambda>present.
      and_then (ensure_that present FaucetMissing) (\<lambda>_.
      and_then (ok_or (en_block e 0 (ta_block_num anchor)) StartChain) (\<lambda>block.
      and_then (ensure_that (anchor_pinned (en_ext e) anchor block) AnchorNotPinned) (\<lambda>_.
      and_then (case check_expected (se_secp se) (se_signers se) (cg_expected_signing_public_keys cfg) of Inl err \<Rightarrow> Inl (StartSigners err) | Inr u \<Rightarrow> Inr u) (\<lambda>_.
      and_then (ensure_that (se_circle_connects se) StartCircle) (\<lambda>_.
      and_then (case open_or_create (en_ext e) (se_store_file se) (cg_faucet_account_id cfg) anchor of
          Inl err \<Rightarrow> Inl (StartOpen err) | Inr s \<Rightarrow> Inr s) (\<lambda>s.
      and_then (ensure_that (cg_withdrawal_limit cfg \<noteq> None \<or> first_limit_wait s = None) WaitsWithoutPolicy) (\<lambda>_.
      first_checkpoint e block
        \<lparr>at_store = s, at_node_tip = None, at_admin = False, at_rate_limited = False, at_tick = 1,
         at_trace = []\<rparr>))))))))))"

section \<open>Offline maintenance\<close>

text \<open>The commands that work on the store of a stopped attester; \<open>None\<close> is a missing file.\<close>

datatype maintenance_error = NoStoreFile | OpenFailed open_error | HoldsFailed store_error | ReleaseFailed release_error

definition open_existing :: "ext \<Rightarrow> store option \<Rightarrow> account_id \<Rightarrow> trusted_anchor \<Rightarrow> maintenance_error + store" where
  "open_existing x file faucet anchor = (case file of
       None \<Rightarrow> Inl NoStoreFile
     | Some s \<Rightarrow> (case validate_store x faucet anchor s of Inl err \<Rightarrow> Inl (OpenFailed err) | Inr _ \<Rightarrow> Inr s))"

definition list_holds :: "ext \<Rightarrow> store option \<Rightarrow> account_id \<Rightarrow> trusted_anchor \<Rightarrow> maintenance_error + hold_line list" where
  "list_holds x file faucet anchor =
     and_then (open_existing x file faucet anchor) (\<lambda>s.
     case holds x s of Inl err \<Rightarrow> Inl (HoldsFailed err) | Inr hs \<Rightarrow> Inr hs)"

definition release_named_holds :: "ext \<Rightarrow> (note_id list \<Rightarrow> note_id list) \<Rightarrow> store option \<Rightarrow> account_id \<Rightarrow>
    trusted_anchor \<Rightarrow> note_id list \<Rightarrow> maintenance_error + ((nat \<times> nat) \<times> store)" where
  "release_named_holds x order file faucet anchor ids =
     and_then (open_existing x file faucet anchor) (\<lambda>s.
     case release_holds order ids s of Inl err \<Rightarrow> Inl (ReleaseFailed err) | Inr released \<Rightarrow> Inr released)"

end
