(* ===== verification/Attester_Store.thy ===== *)
theory Attester_Store
  imports Attester
begin

text \<open>
  The attester refines the store's state machine: whatever the node, Circle, the signers, the clock,
  the operators and the database do, a cycle moves the store only along the transactions of
  \<open>store_step\<close>, each called under its guard, and touches only the requests it works on.
\<close>

section \<open>How the store evolves\<close>

definition store_bound :: "env \<Rightarrow> store \<Rightarrow> bool" where
  "store_bound e s \<longleftrightarrow> store_inv (en_ext e) s \<and> st_faucet s = cg_faucet_account_id (en_config e) \<and>
     st_anchor_block s = cg_trusted_anchor_block (en_config e)"

text \<open>The request of a note is left as it was, or its hold was released by an operator.\<close>

definition row_kept :: "store \<Rightarrow> store \<Rightarrow> note_id \<Rightarrow> bool" where
  "row_kept s t m \<longleftrightarrow> submission_of t m = submission_of s m \<or>
     (\<exists>q. submission_of s m = Some q \<and> sv_status q = Held \<and> submission_of t m = None)"

text \<open>
  A chain of verified headers: every block carries the next number and validates against the header
  before it.
\<close>

inductive linked :: "ext \<Rightarrow> header \<Rightarrow> header \<Rightarrow> bool" for x h where
  linked_refl: "linked x h h"
| linked_next: "linked x h g \<Longrightarrow> hd_block_num (bk_header block) = Suc (hd_block_num g) \<Longrightarrow>
     x_block_validate x block (Some g) \<Longrightarrow> linked x h (bk_header block)"

lemma linked_trans: "linked x g k \<Longrightarrow> linked x h g \<Longrightarrow> linked x h k"
  by (induction rule: linked.induct) (auto intro: linked.intros)

lemma linked_num: "linked x h g \<Longrightarrow> hd_block_num h \<le> hd_block_num g"
  by (induction rule: linked.induct) auto

definition chain_grows :: "ext \<Rightarrow> store \<Rightarrow> store \<Rightarrow> bool" where
  "chain_grows x s t \<longleftrightarrow> (\<forall>h. st_checkpoint s = Some h \<longrightarrow> (\<exists>g. st_checkpoint t = Some g \<and> linked x h g))"

lemma chain_grows_trans: "chain_grows x s t \<Longrightarrow> chain_grows x t u \<Longrightarrow> chain_grows x s u"
  unfolding chain_grows_def by (meson linked_trans)

lemma same_chain_grows: "same_chain s t \<Longrightarrow> chain_grows x s t"
  by (auto simp: same_chain_def chain_grows_def intro: linked_refl)

definition evolves :: "env \<Rightarrow> note_id set \<Rightarrow> store \<Rightarrow> store \<Rightarrow> bool" where
  "evolves e N s t \<longleftrightarrow> (store_bound e s \<longrightarrow> store_steps (en_ext e) s t \<and>
     (\<forall>m. m \<notin> N \<longrightarrow> row_kept s t m) \<and> chain_grows (en_ext e) s t)"

lemma row_kept_trans: "row_kept s t m \<Longrightarrow> row_kept t u m \<Longrightarrow> row_kept s u m"
  by (auto simp: row_kept_def)

lemma store_bound_steps: "store_bound e s \<Longrightarrow> store_steps (en_ext e) s t \<Longrightarrow> store_bound e t"
  using store_steps_inv store_steps_identity by (fastforce simp: store_bound_def same_identity_def)

lemma evolves_refl [simp]: "evolves e N s s"
  by (simp add: evolves_def row_kept_def same_chain_grows)

lemma evolves_trans: "evolves e N s t \<Longrightarrow> evolves e N t u \<Longrightarrow> evolves e N s u"
  unfolding evolves_def using store_bound_steps store_steps_trans row_kept_trans chain_grows_trans by blast

lemma evolves_mono: "evolves e M s t \<Longrightarrow> M \<subseteq> N \<Longrightarrow> evolves e N s t"
  by (auto simp: evolves_def)

lemma evolves_bound: "evolves e N s t \<Longrightarrow> store_bound e s \<Longrightarrow> store_bound e t"
  using store_bound_steps by (auto simp: evolves_def)

text \<open>The order on attester states that the calls of a cycle move along.\<close>

definition at_evolves :: "env \<Rightarrow> note_id set \<Rightarrow> attester \<Rightarrow> attester \<Rightarrow> bool" where
  "at_evolves e N a b \<longleftrightarrow> evolves e N (at_store a) (at_store b)"

interpretation evo: run_order "at_evolves e N" for e N
  by unfold_locales (auto simp: at_evolves_def intro: evolves_trans)

lemma evolves_step:
  assumes "store_bound e s \<Longrightarrow> store_step (en_ext e) s t"
    and "store_bound e s \<Longrightarrow> \<forall>m. m \<notin> N \<longrightarrow> row_kept s t m"
    and "store_bound e s \<Longrightarrow> chain_grows (en_ext e) s t"
  shows "evolves e N s t"
  using assms store_steps_step by (auto simp: evolves_def)

lemma store_bound_keys: "store_bound e s \<Longrightarrow> keys_ok s"
  by (auto simp: store_bound_def dest: store_invD)

lemma evolves_release:
  assumes "release_hold n c s = Inr (k, t)"
  shows "evolves e {} s t"
proof (rule evolves_step)
  show "store_step (en_ext e) s t" using assms by (rule step_release)
  assume "store_bound e s"
  from release_hold_effect(1) [OF assms store_bound_keys [OF this]]
  show "\<forall>m. m \<notin> {} \<longrightarrow> row_kept s t m" unfolding row_kept_def by (elim disjE exE conjE) simp_all
qed (use assms release_hold_effect(2) store_bound_keys same_chain_grows in blast)

lemma evolves_hold: "hold_burn n r resp s = Inr t \<Longrightarrow> evolves e {} s t"
  by (rule evolves_step) (auto intro: step_hold simp: row_kept_def dest: hold_burn_effect(2,3) [OF _ store_bound_keys] intro!: same_chain_grows)

lemma evolves_advance: "advance_limit_retry n d s = Inr t \<Longrightarrow> evolves e {} s t"
  by (rule evolves_step)
    (auto intro: step_advance simp: row_kept_def dest: advance_limit_retry_effect(2,4) [OF _ store_bound_keys] intro!: same_chain_grows)

lemma evolves_outcome:
  assumes "update_submission_outcome (en_ext e) k s = Inr t"
  shows "evolves e {sv_note_id k} s t"
proof (rule evolves_step)
  show "store_step (en_ext e) s t" using assms by (rule step_outcome)
  assume "store_bound e s"
  then have "keys_ok s" "distinct (map ev_seq (st_events s))" by (auto simp: store_bound_def dest: store_invD)
  from update_submission_outcome_effect(2,5) [OF assms this]
  show "\<forall>m. m \<notin> {sv_note_id k} \<longrightarrow> row_kept s t m" "chain_grows (en_ext e) s t"
    by (auto simp: row_kept_def intro: same_chain_grows)
qed

lemma evolves_save:
  assumes "save_submission (en_ext e) r s = Inr t" and "consumed s (sv_note_id r)"
  shows "evolves e {sv_note_id r} s t"
proof (rule evolves_step)
  show "store_step (en_ext e) s t" using assms by (rule step_save)
  assume "store_bound e s"
  from save_submission_effect(5,7) [OF assms(1) store_bound_keys [OF this]]
  show "\<forall>m. m \<notin> {sv_note_id r} \<longrightarrow> row_kept s t m" "chain_grows (en_ext e) s t"
    by (auto simp: row_kept_def intro: same_chain_grows)
qed

text \<open>A burn without a live request: nothing saved, or only an expired withdrawal.\<close>

definition no_live_request :: "store \<Rightarrow> note_id \<Rightarrow> bool" where
  "no_live_request s n \<longleftrightarrow> (\<forall>q. submission_of s n = Some q \<longrightarrow> sv_status q = Expired)"

lemma evolves_reject:
  assumes "record_limit_rejection n d body sub s = Inr t" and "sub = None \<Longrightarrow> no_live_request s n"
  shows "evolves e {n} s t"
proof (rule evolves_step)
  show "store_step (en_ext e) s t" using assms unfolding no_live_request_def by (rule step_reject)
  assume "store_bound e s"
  from record_limit_rejection_effect(3,5) [OF assms(1) store_bound_keys [OF this]]
  show "\<forall>m. m \<notin> {n} \<longrightarrow> row_kept s t m" "chain_grows (en_ext e) s t"
    by (auto simp: row_kept_def intro: same_chain_grows)
qed

lemma no_live_request_kept: "row_kept s t n \<Longrightarrow> no_live_request s n \<Longrightarrow> no_live_request t n"
  by (auto simp: row_kept_def no_live_request_def)

lemma consumed_step:
  assumes "store_step x s t" and "store_inv x s" and "consumed s n"
  shows "consumed t n"
proof -
  note k = store_invD(5) [OF assms(2)] and k' = store_invD(5) [OF store_step_inv [OF assms(1,2)]]
  obtain r c where r: "burn_of s n = Some r" "br_consumption_block r = Some c" using assms(3) k by (auto simp: consumed_iff)
  have "\<exists>r' c'. burn_of t n = Some r' \<and> br_consumption_block r' = Some c'"
    using assms(1)
  proof cases
    case (step_scan cs bs h)
    let ?P = "\<lambda>u. keys_ok u \<and> (\<exists>r' c'. burn_of u n = Some r' \<and> br_consumption_block r' = Some c')"
    obtain s1 s2 where s1: "insert_all (insert_candidate x) cs s = Inr s1"
      and s2: "insert_all (insert_burn x) bs s1 = Inr s2" and t: "t = s2\<lparr>st_checkpoint := Some h\<rparr>"
      using step_scan(1) by (auto simp: save_scan_progress_Inr)
    have P0: "?P s" using k r by blast
    have P1: "?P s1" using s1 P0
    proof (rule insert_all_induct [where P = ?P])
      fix c u u' assume u: "?P u" and i: "insert_candidate x c u = Inr u'"
      then show "?P u'" using insert_candidate_effect(1,2,6) [OF i] by auto
    qed
    have "?P s2" using s2 P1
    proof (rule insert_all_induct [where P = ?P])
      fix b u u' assume u: "?P u" and i: "insert_burn x b u = Inr u'"
      then show "?P u'" using insert_burn_effect(1,5) [OF i] by auto
    qed
    then show ?thesis by (simp add: t)
  qed (use r k store_invD(6) [OF assms(2)] in \<open>auto dest!: save_submission_effect(4) release_hold_effect(1)
        hold_burn_effect(1) update_submission_outcome_effect(3) advance_limit_retry_effect(1)
        record_limit_rejection_effect(1)\<close>)
  then show ?thesis using k' by (simp add: consumed_iff)
qed

lemma consumed_steps: "store_steps x s t \<Longrightarrow> store_inv x s \<Longrightarrow> consumed s n \<Longrightarrow> consumed t n"
  unfolding store_steps_def
proof (induction rule: rtranclp_induct)
  case (step t u)
  then show ?case using consumed_step store_steps_inv unfolding store_steps_def by blast
qed

section \<open>Calls that need no guard\<close>

lemma at_store_frame [simp]:
  "at_store (tick a) = at_store a" "at_store (note_action x a) = at_store a"
  "at_store (mark_limited l a) = at_store a" "at_store (set_tip t a) = at_store a"
  "at_store (clear_limited a) = at_store a"
  by (simp_all add: tick_def note_action_def mark_limited_def set_tip_def clear_limited_def)

lemma sql_evolves:
  assumes "\<And>v t. op (at_store a) = Inr (v, t) \<Longrightarrow> evolves e N (at_store a) t"
  shows "at_evolves e N a (snd (sql e op a))"
  using assms by (auto simp: sql_def at_evolves_def split: sum.split prod.split)

lemma sql_read_store [simp]: "at_store (snd (sql_read e q a)) = at_store a"
  by (auto simp: sql_read_def sql_def and_then_Inr_iff split: sum.split prod.split)

lemma sql_read_evolves: "moves (at_evolves e N) (sql_read e q)"
  by (simp add: moves_def at_evolves_def)

lemma sql_write_evolves:
  assumes "\<And>t. w (at_store a) = Inr t \<Longrightarrow> evolves e N (at_store a) t"
  shows "at_evolves e N a (snd (sql_write e w a))"
  unfolding sql_write_def by (rule sql_evolves) (auto simp: and_then_Inr_iff assms)

lemma sql_write_moves:
  assumes "\<And>s t. w s = Inr t \<Longrightarrow> evolves e N s t"
  shows "moves (at_evolves e N) (sql_write e w)"
  by (auto simp: moves_def intro!: sql_write_evolves assms)

lemma read_clock_evolves: "moves (at_evolves e N) (read_clock e)"
  by (simp add: moves_def read_clock_def at_evolves_def)

lemmas evolve_intros = evo.moves_bind evo.moves_ret evo.moves_map_err sql_read_evolves read_clock_evolves

lemma limit_allows_evolves: "moves (at_evolves e {}) (limit_allows e n)"
  unfolding limit_allows_def
  by (intro evolve_intros) (auto intro!: evolve_intros sql_write_moves evolves_advance split: option.split sum.split)

lemma release_checked_evolves:
  "release_checked sel s = Inr (k, t) \<Longrightarrow> evolves e {} s t"
  by (auto simp: release_checked_def Let_def split: if_splits option.splits intro: evolves_release)

lemma handle_admin_evolves: "at_evolves e {} a (handle_admin e c a)"
proof -
  have "at_evolves e {} a (snd (sql_release e sel (tick a)))" for sel
    by (auto simp: sql_release_def at_evolves_def split: sum.split prod.split intro: release_checked_evolves)
  then show ?thesis
    using sql_read_store [of e _ "tick a"]
    by (auto simp: handle_admin_def at_evolves_def split: operation.split prod.split sum.split)
       (metis at_store_frame(1) evolves_refl snd_conv sql_read_store)+
qed

lemma admin_commands_evolves: "at_evolves e {} a (admin_commands e k a)"
proof (induction k arbitrary: a)
  case (Suc k)
  have "at_evolves e {} a (admin_commands e k (handle_admin e c (tick a)))" for c
  proof -
    have "at_evolves e {} a (tick a)" by (simp add: at_evolves_def)
    then show ?thesis using evo.order_trans handle_admin_evolves Suc by blast
  qed
  then show ?case by (auto simp: at_evolves_def split: inbox.split)
qed (simp add: at_evolves_def)

lemma admin_checkpoint_evolves: "at_evolves e {} a (admin_checkpoint e a)"
  using admin_commands_evolves [of e "tick a" ADMIN_COMMANDS_PER_CHECKPOINT]
  by (auto simp: admin_checkpoint_def at_evolves_def)

lemma pause_commands_evolves: "at_evolves e {} a (pause_commands e cs a)"
proof (induction cs arbitrary: a)
  case (Cons c cs)
  have "at_evolves e {} a (pause_commands e cs (handle_admin e d a))" for d
    using evo.order_trans handle_admin_evolves Cons by blast
  moreover have "at_evolves e {} a (pause_commands e cs (a\<lparr>at_admin := False\<rparr>))"
    using Cons [of "a\<lparr>at_admin := False\<rparr>"] by (simp add: at_evolves_def)
  ultimately show ?case by (auto simp: at_evolves_def split: option.split)
qed (simp add: at_evolves_def)

lemma then_run_moves:
  "(\<And>a. at_evolves e N a (f a)) \<Longrightarrow> moves (at_evolves e N) m \<Longrightarrow> moves (at_evolves e N) (then_run f m)"
  unfolding then_run_def [abs_def] by (rule evo.moves_after)

lemma save_outcome_evolves: "moves (at_evolves e {sv_note_id saved}) (save_outcome e saved)"
  unfolding save_outcome_def by (intro evolve_intros sql_write_moves evolves_outcome)

lemma finish_submission_evolves:
  "moves (at_evolves e {sv_note_id saved}) (finish_submission e (response, saved))"
proof -
  have "sv_note_id (snd (read_response x r saved)) = sv_note_id saved" for x r
    using read_response_request [of x r saved] by (simp add: same_request_def)
  then show ?thesis
    using save_outcome_evolves [of e saved] save_outcome_evolves [of e "snd (read_response (en_ext e) r saved)" for r]
    by (auto simp: finish_submission_def split: sum.split)
qed

lemma send_saved_request_store [simp]: "at_store (snd (send_saved_request e saved a)) = at_store a"
  by (auto simp: send_saved_request_def call_circle_def Let_def split: option.split prod.split)

lemma send_saved_request_same [simp]: "same_request (snd (fst (send_saved_request e saved a))) saved"
  by (auto simp: send_saved_request_def read_sent_def same_request_def got_reply_def lost_reply_def Let_def
      split: prod.split sum.split circle_error.split option.split)

lemma send_then:
  assumes "\<And>response sent. same_request sent saved \<Longrightarrow> moves (at_evolves e N) (f (response, sent))"
  shows "moves (at_evolves e N) (\<lambda>a. case send_saved_request e saved a of (r, b) \<Rightarrow> f r b)"
  unfolding moves_def
proof
  fix a
  obtain response sent b where r: "send_saved_request e saved a = ((response, sent), b)"
    by (metis prod.exhaust)
  have "at_store b = at_store a" "same_request sent saved"
    using send_saved_request_store [of e saved a] send_saved_request_same [of e saved a] r by simp_all
  with assms [of sent response] r
  show "at_evolves e N a (snd (case send_saved_request e saved a of (r, b) \<Rightarrow> f r b))"
    by (simp add: moves_def at_evolves_def) metis
qed

section \<open>Calls under their guards\<close>

lemma wait_for_limit_evolves:
  assumes "sub = None \<Longrightarrow> no_live_request (at_store a) n"
  shows "at_evolves e {n} a (snd (wait_for_withdrawal_limit e n status body sub a))"
proof -
  have "at_evolves e {n} a (snd (map_err StoreError (sql_write e (record_limit_rejection n d body sub)) (tick a)))" for d
  proof -
    have "at_evolves e {n} (tick a) (snd (sql_write e (record_limit_rejection n d body sub) (tick a)))"
      by (rule sql_write_evolves) (auto intro: evolves_reject assms)
    then show ?thesis by (auto simp: map_err_def at_evolves_def split: prod.split sum.split)
  qed
  then show ?thesis
    by (auto simp: wait_for_withdrawal_limit_def bind_run_def read_clock_def at_evolves_def
        split: option.split sum.split prod.split)
      (metis snd_conv)+
qed

lemma same_request_note: "same_request sent saved \<Longrightarrow> sv_note_id sent = sv_note_id saved"
  by (simp add: same_request_def)

lemma resolve_conflict_evolves: "moves (at_evolves e {sv_note_id saved}) (resolve_conflict e saved)"
proof -
  have c: "sv_note_id saved' = sv_note_id saved" if "read_conflict (en_ext e) saved = (f, saved')" for f saved'
    using read_conflict_request [of "en_ext e" saved] that by (simp add: same_request_def)
  show ?thesis
    unfolding resolve_conflict_def
  proof (cases "read_conflict (en_ext e) saved")
    case (Pair f saved')
    note note_eq = c [OF Pair]
    have "moves (at_evolves e {sv_note_id saved}) (save_outcome e saved')"
      using save_outcome_evolves [of e saved'] note_eq by simp
    moreover have "moves (at_evolves e {sv_note_id saved})
        (\<lambda>a. case send_saved_request e saved' a of (r, b) \<Rightarrow> finish_submission e r b)"
    proof (rule send_then)
      fix response sent assume "same_request sent saved'"
      then show "moves (at_evolves e {sv_note_id saved}) (finish_submission e (response, sent))"
        using finish_submission_evolves [of e sent] note_eq by (simp add: same_request_note)
    qed
    ultimately show "moves (at_evolves e {sv_note_id saved})
        (case read_conflict (en_ext e) saved of
           (Some _, saved') \<Rightarrow> save_outcome e saved'
         | (None, saved') \<Rightarrow> bind_run (save_outcome e saved') (\<lambda>_ a.
             case send_saved_request e saved' a of (r, b) \<Rightarrow> finish_submission e r b))"
      unfolding Pair by (auto split: option.split intro: evo.moves_bind)
  qed
qed

lemma advance_submission_evolves: "moves (at_evolves e {sv_note_id saved}) (advance_submission e attempt saved)"
proof -
  let ?N = "{sv_note_id saved}"
  define after where "after = (\<lambda>(response, sent). bind_run
      (case response of
         Inr r \<Rightarrow> if sv_withdrawal_id sent = None
           then wait_for_withdrawal_limit e (sv_note_id sent) (rr_status r) (rr_body r) (Some (sent, attempt))
           else ret False
       | Inl _ \<Rightarrow> ret False)
      (\<lambda>waits.
       if waits then ret ()
       else if sv_withdrawal_id sent = None \<and>
               (case response of Inr r \<Rightarrow> rr_status r = HTTP_CONFLICT | Inl _ \<Rightarrow> False)
       then resolve_conflict e sent
       else finish_submission e (response, sent)))"
  have "moves (at_evolves e ?N) (after (response, sent))" if "same_request sent saved" for response sent
  proof -
    have n: "sv_note_id sent = sv_note_id saved" using that by (rule same_request_note)
    have "moves (at_evolves e ?N) (wait_for_withdrawal_limit e (sv_note_id sent) (rr_status r) (rr_body r) (Some (sent, attempt)))" for r
      using wait_for_limit_evolves [of "Some (sent, attempt)"] n by (auto simp: moves_def)
    moreover have "moves (at_evolves e ?N) (resolve_conflict e sent)" using resolve_conflict_evolves [of e sent] n by simp
    moreover have "moves (at_evolves e ?N) (finish_submission e (response, sent))"
      using finish_submission_evolves [of e sent] n by simp
    ultimately show ?thesis
      unfolding after_def prod.case by (intro evo.moves_bind) (auto split: sum.split intro: evo.moves_ret)
  qed
  then have "moves (at_evolves e ?N) (\<lambda>a. case send_saved_request e saved a of (r, b) \<Rightarrow> after r b)"
    by (rule send_then)
  moreover have "advance_submission e attempt saved a =
      (if at_rate_limited a then (Inr (), a) else case send_saved_request e saved a of (r, b) \<Rightarrow> after r b)" for a
    by (simp add: advance_submission_def after_def split_def)
  ultimately show ?thesis by (auto simp: moves_def at_evolves_def)
qed

lemma moves_mono: "moves (at_evolves e M) m \<Longrightarrow> M \<subseteq> N \<Longrightarrow> moves (at_evolves e N) m"
  by (auto simp: moves_def at_evolves_def intro: evolves_mono)

lemma advance_submissions_evolves:
  "moves (at_evolves e (sv_note_id ` set qs)) (advance_submissions e qs)"
proof (induction qs)
  case Nil
  show ?case unfolding advance_submissions.simps by (rule evo.moves_ret)
next
  case (Cons q qs)
  let ?N = "sv_note_id ` set (q # qs)"
  have rest: "moves (at_evolves e ?N) (advance_submissions e qs)" using Cons by (rule moves_mono) auto
  have one: "moves (at_evolves e ?N) (advance_submission e Recovery q)"
    using advance_submission_evolves by (rule moves_mono) auto
  have lim: "moves (at_evolves e ?N) (map_err StoreError (limit_allows e (sv_note_id q)))"
    using limit_allows_evolves by (intro evo.moves_map_err) (rule moves_mono, auto)
  have "moves (at_evolves e ?N) (bind_run
      (if sv_withdrawal_id q = None then map_err StoreError (limit_allows e (sv_note_id q)) else ret True)
      (\<lambda>allowed. if \<not> allowed then advance_submissions e qs
        else bind_run (advance_submission e Recovery q) (\<lambda>_. advance_submissions e qs)))"
    using rest one lim by (intro evo.moves_bind) (auto intro: evo.moves_bind evo.moves_ret)
  moreover have "at_evolves e ?N a (admin_checkpoint e a)" for a
    using admin_checkpoint_evolves by (auto simp: at_evolves_def intro: evolves_mono)
  ultimately show ?case
    unfolding advance_submissions.simps by (intro then_run_moves evo.moves_unless)
qed

lemma submit_signed_evolves:
  assumes "store_bound e (at_store a) \<Longrightarrow> consumed (at_store a) (vb_note_id (sw_batch w))"
  shows "at_evolves e {vb_note_id (sw_batch w)} a (snd (submit_signed_withdrawal e w a))"
proof (cases "submission_endpoint (en_ext e) (cg_circle_api_base_url (en_config e))")
  case (Inl err)
  then show ?thesis by (simp add: submit_signed_withdrawal_def at_evolves_def)
next
  case (Inr endpoint)
  show ?thesis
  proof (cases "submission (en_ext e) w endpoint")
    case None
    then show ?thesis using Inr by (simp add: submit_signed_withdrawal_def at_evolves_def)
  next
    case (Some saved)
    let ?N = "{vb_note_id (sw_batch w)}"
    have n: "sv_note_id saved = vb_note_id (sw_batch w)" using submission_fields [OF Some] by simp
    define b where "b = snd (sql_read e (\<lambda>s. saved_submission_for (en_ext e) s (sv_note_id saved)) a)"
    have b: "at_store b = at_store a" by (simp add: b_def)
    have save: "at_evolves e ?N b (snd (sql_write e (save_submission (en_ext e) saved) b))"
      unfolding at_evolves_def
    proof (cases "store_bound e (at_store b)")
      case True
      then have "consumed (at_store b) (sv_note_id saved)" using assms b n by simp
      then show "evolves e ?N (at_store b) (at_store (snd (sql_write e (save_submission (en_ext e) saved) b)))"
        using sql_write_evolves [of "save_submission (en_ext e) saved" b e ?N] evolves_save [of e saved "at_store b"] n
        by (auto simp: at_evolves_def)
    qed (simp add: evolves_def)
    have adv: "moves (at_evolves e ?N) (advance_submission e First saved)"
      using advance_submission_evolves [of e saved] n by simp
    let ?tail = "bind_run (map_err StoreError (sql_write e (save_submission (en_ext e) saved)))
        (\<lambda>_. advance_submission e First saved)"
    have "at_evolves e ?N b (snd (?tail b))"
      using save adv
      by (auto simp: bind_run_def map_err_def moves_def split: prod.split sum.split intro: evo.order_trans)
    then have "at_evolves e ?N a (snd (?tail b))" using b by (simp add: at_evolves_def)
    moreover have "snd (submit_signed_withdrawal e w a) \<in> {b, snd (?tail b)}"
      using Inr Some
      by (auto simp: submit_signed_withdrawal_def bind_run_def [of "map_err _ (sql_read _ _)"]
          map_err_def [of _ "sql_read _ _"] b_def split: prod.split sum.split)
    ultimately show ?thesis using b by (auto simp: at_evolves_def)
  qed
qed

lemma withdraw_cases:
  "at_store (snd (withdraw e burn a)) = at_store a \<or>
     (\<exists>w c. at_store c = at_store a \<and> vb_note_id (sw_batch w) = db_note_id burn \<and>
        submit_signed_withdrawal e w c = withdraw e burn a)"
proof (cases "forwarding_max_fee (en_config e) (dest_domain (db_items burn))")
  case (Some fee)
  define b where "b = snd (prepare_withdrawal e burn fee a)"
  have b: "at_store b = at_store a" by (simp add: b_def prepare_withdrawal_def Let_def)
  have step: "withdraw e burn a = (case fst (prepare_withdrawal e burn fee a) of
      Inl err \<Rightarrow> (Inl err, b)
    | Inr p \<Rightarrow> (case verify (en_ext e) (en_config e) burn p of
          Inl err \<Rightarrow> (Inl (Verification err), b)
        | Inr v \<Rightarrow> bind_run (sign_withdrawal e v) (submit_signed_withdrawal e) b))"
    using Some by (simp add: withdraw_def bind_run_def [of "prepare_withdrawal e burn fee"] b_def split_def split: sum.split)
  show ?thesis
  proof (cases "\<exists>p v w. fst (prepare_withdrawal e burn fee a) = Inr p \<and>
      verify (en_ext e) (en_config e) burn p = Inr v \<and> sign (en_signers e (at_tick b)) v = Inr w")
    case True
    then obtain p v w where p: "fst (prepare_withdrawal e burn fee a) = Inr p"
      "verify (en_ext e) (en_config e) burn p = Inr v" "sign (en_signers e (at_tick b)) v = Inr w" by blast
    have "submit_signed_withdrawal e w (tick b) = withdraw e burn a"
      using step p by (simp add: bind_run_def sign_withdrawal_def)
    moreover have "vb_note_id (sw_batch w) = db_note_id burn" using p by (auto simp: verify_iff sign_Inr)
    ultimately show ?thesis using b by (metis at_store_frame(1))
  next
    case False
    then show ?thesis
      using step b by (auto simp: bind_run_def sign_withdrawal_def split: sum.splits)
  qed
qed (simp add: withdraw_def)

lemma submit_signed_error:
  assumes "submit_signed_withdrawal e w a = (Inl err, b)"
  shows "prepare_refusal err = None"
proof -
  have st: "\<exists>k. err = StoreError k" if "map_err StoreError m c = (Inl err, d)" for m :: "(store_error, 'x) arun" and c d
    using that by (auto simp: map_err_def split: prod.splits sum.splits)
  have wt: "\<exists>k. err = StoreError k" if "wait_for_withdrawal_limit e n st body sub c = (Inl err, d)" for n st body sub c d
    using that by (auto simp: wait_for_withdrawal_limit_def bind_run_def map_err_def read_clock_def split: option.splits sum.splits prod.splits if_splits)
  have so: "\<exists>k. err = StoreError k" if "save_outcome e saved c = (Inl err, d)" for saved c d
    using that unfolding save_outcome_def by (auto simp: map_err_def split: prod.splits sum.splits)
  have fs: "\<exists>k. err = StoreError k" if "finish_submission e r c = (Inl err, d)" for r c d
    using that so by (auto simp: finish_submission_def split: prod.splits)
  have rc: "\<exists>k. err = StoreError k" if "resolve_conflict e saved c = (Inl err, d)" for saved c d
    using that so fs by (auto simp: resolve_conflict_def bind_run_def split: prod.splits option.splits sum.splits)
  have "\<exists>k. err = StoreError k" if "advance_submission e attempt saved c = (Inl err, d)" for attempt saved c d
    using that wt rc fs
    by (auto simp: advance_submission_def bind_run_def split: prod.splits sum.splits if_splits)
  then have "(\<exists>k. err = StoreError k) \<or> (\<exists>k. err = InvalidRequest k) \<or> err = Encoding"
    using assms
    by (auto simp: submit_signed_withdrawal_def bind_run_def map_err_def split: prod.splits sum.splits option.splits)
  then show ?thesis by auto
qed

lemma withdraw_evolves:
  assumes "store_bound e (at_store a) \<Longrightarrow> consumed (at_store a) (db_note_id burn)"
  shows "at_evolves e {db_note_id burn} a (snd (withdraw e burn a))"
proof -
  obtain r b where r: "withdraw e burn a = (r, b)" by (cases "withdraw e burn a")
  from withdraw_cases [of e burn a] r consider "at_store b = at_store a"
    | w c where "at_store c = at_store a" "vb_note_id (sw_batch w) = db_note_id burn"
        "submit_signed_withdrawal e w c = (r, b)" by auto
  then show ?thesis
  proof cases
    case 1
    then show ?thesis using r by (simp add: at_evolves_def)
  next
    case 2
    then show ?thesis using submit_signed_evolves [of e c w] assms r by (simp add: at_evolves_def)
  qed
qed

lemma withdraw_refused:
  assumes "withdraw e burn a = (Inl err, b)" and "prepare_refusal err \<noteq> None"
  shows "at_store b = at_store a"
  using withdraw_cases [of e burn a] assms by (auto dest: submit_signed_error)

lemma attempt_withdrawal_evolves:
  assumes "store_bound e (at_store a) \<Longrightarrow> consumed (at_store a) (db_note_id burn) \<and> no_live_request (at_store a) (db_note_id burn)"
  shows "at_evolves e {db_note_id burn} a (snd (attempt_withdrawal e burn a))"
proof -
  let ?n = "db_note_id burn" and ?N = "{db_note_id burn}"
  obtain r b where r: "withdraw e burn a = (r, b)" by (cases "withdraw e burn a")
  have w: "at_evolves e ?N a b" using withdraw_evolves [of e a burn] assms r by simp
  show ?thesis
  proof (cases r)
    case (Inr u)
    then show ?thesis using r w by (simp add: attempt_withdrawal_def)
  next
    case (Inl err)
    have hold: "moves (at_evolves e ?N) (hold_failed_burn e ?n err)"
      unfolding hold_failed_burn_def
      using evolves_mono [OF evolves_hold, of _ _ _ _ _ ?N]
      by (auto intro!: evo.moves_bind evo.moves_map_err sql_write_moves evo.moves_ret split: prod.split option.split)
    show ?thesis
    proof (cases "is_fatal err")
      case True
      then show ?thesis using r w Inl by (simp add: attempt_withdrawal_def)
    next
      case False
      let ?first = "case prepare_refusal err of
          Some (status, body) \<Rightarrow> wait_for_withdrawal_limit e ?n status body None | None \<Rightarrow> ret False"
      have "at_evolves e ?N a (snd (?first b))"
      proof (cases "prepare_refusal err")
        case None
        then show ?thesis using w by simp
      next
        case (Some sb)
        then have same: "at_store b = at_store a" using withdraw_refused r Inl by simp
        show ?thesis
        proof (cases "store_bound e (at_store a)")
          case True
          then have "at_evolves e ?N b (snd (wait_for_withdrawal_limit e ?n (fst sb) (snd sb) None b))"
            using assms same by (intro wait_for_limit_evolves) simp
          then show ?thesis using Some same by (simp add: split_def at_evolves_def)
        qed (simp add: at_evolves_def evolves_def)
      qed
      then have "at_evolves e ?N a (snd (bind_run ?first (\<lambda>waits. if waits then ret () else hold_failed_burn e ?n err) b))"
        using hold
        by (auto simp: bind_run_def moves_def split: prod.split sum.split intro: evo.order_trans)
      then show ?thesis using r Inl False by (simp add: attempt_withdrawal_def)
    qed
  qed
qed

text \<open>The burns still to withdraw stay withdrawable while others are worked on.\<close>

definition withdrawable_burns :: "store \<Rightarrow> discovered_burn list \<Rightarrow> bool" where
  "withdrawable_burns s bs \<longleftrightarrow> distinct (map db_note_id bs) \<and>
     (\<forall>b \<in> set bs. consumed s (db_note_id b) \<and> no_live_request s (db_note_id b))"

lemma withdrawable_burns_kept:
  assumes "evolves e N s t" and "store_bound e s" and "withdrawable_burns s bs" and "N \<inter> db_note_id ` set bs = {}"
  shows "withdrawable_burns t bs"
proof -
  have "store_steps (en_ext e) s t" "\<forall>m. m \<notin> N \<longrightarrow> row_kept s t m" "store_inv (en_ext e) s"
    using assms(1,2) by (auto simp: evolves_def store_bound_def)
  then show ?thesis
    using assms(3,4) consumed_steps no_live_request_kept by (fastforce simp: withdrawable_burns_def)
qed

lemma at_evolves_mono: "at_evolves e M a b \<Longrightarrow> M \<subseteq> N \<Longrightarrow> at_evolves e N a b"
  by (auto simp: at_evolves_def intro: evolves_mono)

lemma submit_withdrawals_evolves:
  assumes "store_bound e (at_store a)" and "withdrawable_burns (at_store a) bs"
  shows "at_evolves e (db_note_id ` set bs) a (snd (submit_withdrawals e bs first a))"
  using assms
proof (induction bs arbitrary: a first)
  case (Cons b bs)
  let ?N = "db_note_id ` set (b # bs)" and ?n = "db_note_id b"
  define a1 where "a1 = admin_checkpoint e a"
  define a2 where "a2 = snd (limit_allows e ?n a1)"
  define a3 where "a3 = snd (attempt_withdrawal e b a2)"
  have e1: "at_evolves e {} a a1" by (simp add: a1_def admin_checkpoint_evolves)
  have "at_evolves e {} a1 a2" using limit_allows_evolves by (simp add: a2_def moves_def)
  with e1 have e2: "at_evolves e {} a a2" by (rule evo.order_trans)
  have b2: "store_bound e (at_store a2)" and w2: "withdrawable_burns (at_store a2) (b # bs)"
    using e2 Cons.prems evolves_bound withdrawable_burns_kept [of e "{}" "at_store a" "at_store a2" "b # bs"]
    by (auto simp: at_evolves_def)
  have e3: "at_evolves e {?n} a2 a3"
    unfolding a3_def using w2 by (intro attempt_withdrawal_evolves) (simp add: withdrawable_burns_def)
  have b3: "store_bound e (at_store a3)" using e3 b2 evolves_bound by (auto simp: at_evolves_def)
  have w3: "withdrawable_burns (at_store a3) bs"
    using withdrawable_burns_kept [of e "{?n}" "at_store a2" "at_store a3" bs] e3 b2 w2
    by (auto simp: at_evolves_def withdrawable_burns_def)
  have rest: "at_evolves e ?N a3 (snd (submit_withdrawals e bs f a3))" for f
    using at_evolves_mono [OF Cons.IH [OF b3 w3]] by (meson image_mono set_subset_Cons)
  have to3: "at_evolves e ?N a a3"
    using evo.order_trans at_evolves_mono [OF e2, of ?N] at_evolves_mono [OF e3, of ?N] by auto
  have "snd (submit_withdrawals e (b # bs) first a) \<in>
      {a1, a2, a3} \<union> {snd (submit_withdrawals e bs f a3) |f. True}"
    by (auto simp: then_run_def bind_run_def map_err_def a1_def a2_def a3_def split: prod.split sum.split)
  then show ?case
    using at_evolves_mono [OF e1, of ?N] at_evolves_mono [OF e2, of ?N] to3 rest evo.order_trans by auto
qed (simp add: at_evolves_def)

end
