(* ===== verification/Attester_Cycle.thy ===== *)
theory Attester_Cycle
  imports Attester_Store
begin

text \<open>
  Discovery and the whole cycle: blocks are authenticated one after the other and saved in order,
  and a cycle is a sequence of guarded store transactions, so everything proved of the store holds
  of a running attester.
\<close>

section \<open>Finding burns in a block\<close>

lemma find_candidates_spec:
  assumes "find_candidates e num outs a = (r, b)"
  shows "at_store b = at_store a \<and> (\<forall>cs c. r = Inr cs \<longrightarrow> c \<in> set cs \<longrightarrow>
     Public (bc_note c) \<in> set outs \<and> bc_creation_block c = num \<and>
     consumable_burn (en_ext e) (cg_faucet_account_id (en_config e)) (bc_note c) (bc_items c) (bc_amount c))"
  using assms
proof (induction e num outs arbitrary: a r b rule: find_candidates.induct)
  case (3 e num n rest)
  show ?case
  proof (cases "burn_candidate_new (en_ext e) n num (cg_faucet_account_id (en_config e))")
    case (Inl err)
    then show ?thesis using 3(1) [OF Inl] 3(3) by auto
  next
    case (Inr c)
    define a1 where "a1 = snd (sql_read e (\<lambda>s. Inr (note_known s (bc_note_id c))) a)"
    have a1: "at_store a1 = at_store a" by (simp add: a1_def)
    have c: "bc_note c = n" "bc_creation_block c = num"
      "consumable_burn (en_ext e) (cg_faucet_account_id (en_config e)) (bc_note c) (bc_items c) (bc_amount c)"
      using Inr by (auto simp: burn_candidate_new_Inr)
    obtain r2 b2 where r2: "find_candidates e num rest a1 = (r2, b2)" by (cases "find_candidates e num rest a1")
    note ih = 3(2) [OF Inr r2]
    have "(b = a1 \<and> (\<exists>err. r = Inl err)) \<or> (b = b2 \<and> (case r2 of Inl err \<Rightarrow> r = Inl err
        | Inr found \<Rightarrow> r = Inr found \<or> r = Inr (c # found)))"
      using 3(3) Inr r2 unfolding a1_def
      by (auto simp: bind_run_def split: prod.splits sum.splits if_splits)
    then show ?thesis using ih a1 c by (auto split: sum.splits)
  qed
qed auto

lemma find_consumed_spec:
  assumes "find_consumed e num nfs a = (r, b)"
  shows "at_store b = at_store a \<and> (\<forall>ds d. r = Inr ds \<longrightarrow> d \<in> set ds \<longrightarrow>
     (\<exists>nf c. candidate_by_nullifier (en_ext e) (at_store a) nf = Inr (Some c) \<and> d = into_discovered c num))"
  using assms
proof (induction nfs arbitrary: a r b)
  case (Cons nf nfs)
  define q where "q = sql_read e (\<lambda>s. candidate_by_nullifier (en_ext e) s nf) a"
  define a1 where "a1 = snd q"
  have a1: "at_store a1 = at_store a" by (simp add: a1_def q_def)
  have found: "candidate_by_nullifier (en_ext e) (at_store a) nf = Inr v" if "fst q = Inr v" for v
    using that by (auto simp: q_def sql_read_def sql_def and_then_def split: if_splits sum.splits)
  obtain r2 b2 where r2: "find_consumed e num nfs a1 = (r2, b2)" by (cases "find_consumed e num nfs a1")
  have "(b = a1 \<and> (\<exists>err. r = Inl err)) \<or> (b = b2 \<and> (\<exists>v. fst q = Inr v \<and> (case r2 of Inl err \<Rightarrow> r = Inl err
      | Inr ds \<Rightarrow> r = Inr (case v of None \<Rightarrow> ds | Some c \<Rightarrow> into_discovered c num # ds))))"
    using Cons.prems r2 unfolding find_consumed.simps bind_run_def [of "sql_read _ _"] q_def [symmetric]
    by (cases "fst q") (auto simp: a1_def bind_run_def split_def split: sum.splits)
  then show ?case
  proof (elim disjE conjE exE)
    fix v assume "b = b2" "fst q = Inr v" and r: "case r2 of Inl err \<Rightarrow> r = Inl err
      | Inr ds \<Rightarrow> r = Inr (case v of None \<Rightarrow> ds | Some c \<Rightarrow> into_discovered c num # ds)"
    with Cons.IH [OF r2] a1 found [of v] show ?thesis
      by (cases r2; cases v) auto
  qed (use a1 in auto)
qed simp

lemma load_candidate_Inr:
  assumes "load_candidate x f r = Inr c"
  shows "note_codec x (bc_note c) \<and> consumable_burn x f (bc_note c) (bc_items c) (bc_amount c)"
proof -
  have inv: "invalid_row k = Inr c \<longleftrightarrow> k = Inr c" for k :: "invalid_burn_candidate + burn_candidate"
    by (auto simp: invalid_row_def split: sum.splits)
  obtain n where n: "decode_note x (br_note r) (br_note_id r) (br_nullifier r) = Inr n"
    and c: "burn_candidate_new x n (br_creation_block r) f = Inr c"
    using assms unfolding load_candidate_def and_then_Inr_iff inv by blast
  have "note_codec x n"
    using n by (auto simp: decode_note_def and_then_Inr_iff ok_or_Inr_iff note_codec_def split: if_splits)
  then show ?thesis using c by (simp add: burn_candidate_new_Inr)
qed

lemma candidate_by_nullifier_Some:
  assumes "candidate_by_nullifier x s nf = Inr (Some c)"
  shows "note_codec x (bc_note c) \<and> consumable_burn x (st_faucet s) (bc_note c) (bc_items c) (bc_amount c)"
proof -
  obtain cs where cs: "load_candidates x s (\<lambda>r. br_nullifier r = nf) = Inr cs" and "cs \<noteq> []" "c = last cs"
    using assms by (auto simp: candidate_by_nullifier_def and_then_Inr_iff split: if_splits)
  then have "c \<in> set cs" by simp
  then obtain r where "load_candidate x (st_faucet s) r = Inr c"
    using cs by (auto simp: load_candidates_def collect_all_Inr_iff in_set_conv_nth list_all2_conv_all_nth)
  then show ?thesis by (rule load_candidate_Inr)
qed

section \<open>Saving blocks in order\<close>

text \<open>
  What the node delivers is decoded by \<^verbatim>\<open>miden-protocol\<close>, whose serialization of a public note
  reads back as that note.
\<close>

definition block_codec :: "ext \<Rightarrow> signed_block \<Rightarrow> bool" where
  "block_codec x block \<longleftrightarrow> (\<forall>n. Public n \<in> set (concat (bk_output_batches block)) \<longrightarrow> note_codec x n)"

definition chain_codec :: "env \<Rightarrow> bool" where
  "chain_codec e \<longleftrightarrow> (\<forall>t k block. en_block e t k = Some block \<longrightarrow> block_codec (en_ext e) block)"

lemma scan_submissions:
  assumes "save_scan_progress x cs bs h s = Inr s'" and "keys_ok s"
  shows "submission_of s' = submission_of s"
proof -
  let ?P = "\<lambda>u. keys_ok u \<and> submission_of u = submission_of s"
  obtain s1 s2 where s1: "insert_all (insert_candidate x) cs s = Inr s1"
    and s2: "insert_all (insert_burn x) bs s1 = Inr s2" and s': "s' = s2\<lparr>st_checkpoint := Some h\<rparr>"
    using assms(1) by (auto simp: save_scan_progress_Inr)
  have P0: "?P s" using assms(2) by simp
  have P1: "?P s1" using s1 P0 by (rule insert_all_induct) (auto dest: insert_candidate_effect(3,6))
  have "?P s2" using s2 P1 by (rule insert_all_induct) (auto dest: insert_burn_effect(2,5))
  then show ?thesis by (simp add: s' fun_eq_iff)
qed

lemma save_block_evolves:
  assumes bound: "store_bound e (at_store a)" and codec: "block_codec (en_ext e) block"
    and anchor: "cg_trusted_anchor_block (en_config e) \<le> hd_block_num (bk_header block)"
    and cp: "\<And>c. st_checkpoint (at_store a) = Some c \<Longrightarrow> linked (en_ext e) c (bk_header block)"
  shows "at_evolves e {} a (snd (save_block e block a))"
    and "fst (save_block e block a) = Inr () \<Longrightarrow> st_checkpoint (at_store (snd (save_block e block a))) = Some (bk_header block)"
    and "st_checkpoint (at_store (snd (save_block e block a))) \<in> {st_checkpoint (at_store a), Some (bk_header block)}"
proof -
  let ?num = "hd_block_num (bk_header block)"
  obtain r1 a1 where r1: "find_candidates e ?num (concat (bk_output_batches block)) a = (r1, a1)"
    by (cases "find_candidates e ?num (concat (bk_output_batches block)) a")
  obtain r2 a2 where r2: "find_consumed e ?num (faucet_inputs e block) a1 = (r2, a2)"
    by (cases "find_consumed e ?num (faucet_inputs e block) a1")
  note one = find_candidates_spec [OF r1] and two = find_consumed_spec [OF r2]
  have st: "at_store a1 = at_store a" "at_store a2 = at_store a" using one two by auto
  have result: "at_evolves e {} a (snd (save_block e block a)) \<and>
    (fst (save_block e block a) = Inr () \<longrightarrow> st_checkpoint (at_store (snd (save_block e block a))) = Some (bk_header block)) \<and>
    st_checkpoint (at_store (snd (save_block e block a))) \<in> {st_checkpoint (at_store a), Some (bk_header block)}"
  proof (cases "\<exists>cs bs. r1 = Inr cs \<and> r2 = Inr bs")
    case False
    then have "save_block e block a \<in> {(Inl (DiscoverStore err), a1) |err. True} \<union> {(Inl (DiscoverStore err), a2) |err. True}"
      using r1 r2 by (auto simp: save_block_def find_burns_in_block_def bind_run_def map_err_def Let_def split: sum.splits)
    then show ?thesis using st by (auto simp: at_evolves_def)
  next
    case True
    then obtain cs bs where cb: "r1 = Inr cs" "r2 = Inr bs" by blast
    let ?w = "save_scan_progress (en_ext e) cs bs (bk_header block)"
    have run: "save_block e block a = map_err DiscoverStore (sql_write e ?w) a2"
      using r1 r2 cb by (simp add: save_block_def find_burns_in_block_def bind_run_def map_err_def Let_def)
    have f: "st_faucet (at_store a) = cg_faucet_account_id (en_config e)"
      "st_anchor_block (at_store a) = cg_trusted_anchor_block (en_config e)"
      using bound by (auto simp: store_bound_def)
    have "scan_guard (en_ext e) cs bs (bk_header block) (at_store a)"
      unfolding scan_guard_def
    proof (intro conjI ballI allI impI)
      fix c assume "c \<in> set cs"
      then show "note_codec (en_ext e) (bc_note c)"
        "consumable_burn (en_ext e) (st_faucet (at_store a)) (bc_note c) (bc_items c) (bc_amount c)"
        using one cb codec f by (auto simp: block_codec_def)
    next
      fix d assume "d \<in> set bs"
      then obtain nf c where "candidate_by_nullifier (en_ext e) (at_store a) nf = Inr (Some c)" "d = into_discovered c ?num"
        using two cb st by auto
      then show "note_codec (en_ext e) (db_note d)"
        "consumable_burn (en_ext e) (st_faucet (at_store a)) (db_note d) (db_items d) (db_amount d)"
        using candidate_by_nullifier_Some by (auto simp: into_discovered_def)
    qed (use anchor linked_num [OF cp] f in auto)
    then have step: "evolves e {} (at_store a) t" if "?w (at_store a) = Inr t" for t
    proof (intro evolves_step)
      show "store_step (en_ext e) (at_store a) t" using that \<open>scan_guard _ _ _ _ _\<close> by (rule step_scan)
      have "submission_of t = submission_of (at_store a)"
        using that store_bound_keys [OF bound] by (rule scan_submissions)
      then show "\<forall>m. m \<notin> {} \<longrightarrow> row_kept (at_store a) t m" by (simp add: row_kept_def)
      show "chain_grows (en_ext e) (at_store a) t"
        using that cp by (auto simp: chain_grows_def save_scan_progress_Inr)
    qed
    have "at_evolves e {} a2 (snd (sql_write e ?w a2))" using step st by (intro sql_write_evolves) simp
    moreover have "st_checkpoint t = Some (bk_header block)" if "?w (at_store a) = Inr t" for t
      using that by (auto simp: save_scan_progress_Inr)
    ultimately show ?thesis
      using st run by (auto simp: map_err_def sql_write_def sql_def and_then_def at_evolves_def split: if_splits sum.splits)
  qed
  then show "at_evolves e {} a (snd (save_block e block a))"
    "fst (save_block e block a) = Inr () \<Longrightarrow> st_checkpoint (at_store (snd (save_block e block a))) = Some (bk_header block)"
    "st_checkpoint (at_store (snd (save_block e block a))) \<in> {st_checkpoint (at_store a), Some (bk_header block)}" by blast+
qed

section \<open>Scanning\<close>

lemma handle_admin_store:
  "at_store (handle_admin e c a) = at_store a \<or>
     (\<exists>sel k. release_checked sel (at_store a) = Inr (k, at_store (handle_admin e c a)))"
proof -
  have "at_store b = at_store a" if "sql_read e q (tick a) = (r, b)" for q :: "store \<Rightarrow> store_error + 'x" and r b
    using sql_read_store [of e q "tick a"] that by simp
  then show ?thesis
    by (auto simp: handle_admin_def sql_release_def split: operation.split prod.split sum.split)
qed

lemma handle_admin_chain:
  assumes "keys_ok (at_store a)"
  shows "same_chain (at_store a) (at_store (handle_admin e c a)) \<and> keys_ok (at_store (handle_admin e c a))"
  using handle_admin_store [of e c a]
proof (elim disjE exE)
  fix sel k assume "release_checked sel (at_store a) = Inr (k, at_store (handle_admin e c a))"
  then obtain n b where "release_hold n b (at_store a) = Inr (k, at_store (handle_admin e c a))"
    by (auto simp: release_checked_def Let_def split: if_splits option.splits)
  then show ?thesis using release_hold_effect(2,3) assms by blast
qed (use assms in simp)

lemma admin_commands_chain:
  "keys_ok (at_store a) \<Longrightarrow>
     st_checkpoint (at_store (admin_commands e k a)) = st_checkpoint (at_store a)"
proof (induction k arbitrary: a)
  case (Suc k)
  then show ?case
    using handle_admin_chain [of "tick a" e] Suc.IH [of "handle_admin e _ (tick a)"]
    by (auto simp: same_chain_def split: inbox.split)
qed simp

lemma admin_checkpoint_chain:
  "keys_ok (at_store a) \<Longrightarrow> st_checkpoint (at_store (admin_checkpoint e a)) = st_checkpoint (at_store a)"
  using admin_commands_chain [of "tick a" e] by (simp add: admin_checkpoint_def)

lemma fetch_and_verify_block_Inr:
  "fetch_and_verify_block e k h a = (Inr block, b) \<Longrightarrow>
     b = tick a \<and> en_block e (at_tick a) k = Some block \<and> hd_block_num (bk_header block) = k \<and>
     x_block_validate (en_ext e) block (Some h)"
  by (auto simp: fetch_and_verify_block_def bind_run_def block_by_number_def ok_or_Inr_iff split: prod.splits sum.splits if_splits)

lemma fetch_and_verify_block_store [simp]: "at_store (snd (fetch_and_verify_block e k h a)) = at_store a"
  by (auto simp: fetch_and_verify_block_def bind_run_def block_by_number_def split: prod.split sum.split)

lemma scan_blocks_chain:
  assumes "store_bound e (at_store a)" and "chain_codec e" and "st_checkpoint (at_store a) = Some h"
    and "cg_trusted_anchor_block (en_config e) \<le> hd_block_num h"
    and "nums = [Suc (hd_block_num h)..<k]" and "scan_blocks e nums h a = (r, b)"
  shows "at_evolves e {} a b \<and> (\<exists>g. st_checkpoint (at_store b) = Some g \<and> linked (en_ext e) h g \<and>
           (r = Inr () \<longrightarrow> hd_block_num g = max (hd_block_num h) (k - 1)))"
  using assms
proof (induction nums arbitrary: a h)
  case Nil
  then have "k \<le> Suc (hd_block_num h)" by (metis not_le_imp_less upt_rec list.distinct(1))
  then show ?case using Nil by (auto simp: at_evolves_def intro: linked_refl)
next
  case (Cons n nums)
  have n: "n = Suc (hd_block_num h)" "nums = [Suc n..<k]" "n < k"
    using Cons.prems(5) [symmetric] by (auto simp: upt_eq_Cons_conv)
  define a1 where "a1 = admin_checkpoint e a"
  have e1: "at_evolves e {} a a1" by (simp add: a1_def admin_checkpoint_evolves)
  have b1: "store_bound e (at_store a1)" using e1 Cons.prems(1) evolves_bound by (auto simp: at_evolves_def)
  have c1: "st_checkpoint (at_store a1) = Some h"
    using admin_checkpoint_chain store_bound_keys Cons.prems(1,3) by (simp add: a1_def)
  obtain r2 a2 where r2: "fetch_and_verify_block e n h a1 = (r2, a2)" by (cases "fetch_and_verify_block e n h a1")
  have s2: "at_store a2 = at_store a1" using fetch_and_verify_block_store [of e n h a1] r2 by simp
  show ?case
  proof (cases r2)
    case (Inl err)
    then show ?thesis
      using Cons.prems(6) r2 c1 s2 e1 by (auto simp: then_run_def bind_run_def a1_def at_evolves_def intro: linked_refl)
  next
    case (Inr block)
    note f = fetch_and_verify_block_Inr [OF r2 [unfolded Inr]]
    let ?g = "bk_header block"
    have num: "hd_block_num ?g = n" using f by simp
    have link: "linked (en_ext e) h ?g" using linked_next [OF linked_refl] f n by auto
    have codec: "block_codec (en_ext e) block" using f Cons.prems(2) by (auto simp: chain_codec_def)
    have low: "cg_trusted_anchor_block (en_config e) \<le> hd_block_num ?g"
      "\<And>c. st_checkpoint (at_store a2) = Some c \<Longrightarrow> linked (en_ext e) c ?g"
      using num n Cons.prems(4) c1 s2 link by auto
    have "store_bound e (at_store a2)" using b1 s2 by simp
    note save = save_block_evolves [OF this codec low]
    obtain r3 a3 where r3: "save_block e block a2 = (r3, a3)" by (cases "save_block e block a2")
    have e3: "at_evolves e {} a a3"
      using save(1) r3 e1 s2 evo.order_trans [of e "{}" a a1 a3] by (simp add: at_evolves_def)
    have b3: "store_bound e (at_store a3)" using e3 Cons.prems(1) evolves_bound by (auto simp: at_evolves_def)
    show ?thesis
    proof (cases r3)
      case (Inl err)
      then have "r = Inl err" "b = a3" using Cons.prems(6) r2 r3 Inr by (auto simp: then_run_def bind_run_def a1_def)
      moreover have "st_checkpoint (at_store a3) \<in> {Some h, Some ?g}" using save(3) r3 c1 s2 by simp
      ultimately show ?thesis using e3 link by (auto intro: linked_refl)
    next
      case (Inr u)
      then have c3: "st_checkpoint (at_store a3) = Some ?g" using save(2) r3 by simp
      have rest: "scan_blocks e nums ?g a3 = (r, b)"
        using Cons.prems(6) r2 r3 Inr \<open>r2 = Inr block\<close> by (auto simp: then_run_def bind_run_def a1_def)
      have "nums = [Suc (hd_block_num ?g)..<k]" using n num by simp
      from Cons.IH [OF b3 Cons.prems(2) c3 low(1) this rest]
      obtain g where "at_evolves e {} a3 b" "st_checkpoint (at_store b) = Some g" "linked (en_ext e) ?g g"
        "r = Inr () \<longrightarrow> hd_block_num g = max (hd_block_num ?g) (k - 1)" by blast
      moreover have "max (hd_block_num ?g) (k - 1) = max (hd_block_num h) (k - 1)" using num n by simp
      ultimately show ?thesis using e3 evo.order_trans linked_trans link by metis
    qed
  qed
qed

lemma discover_burns_cases:
  obtains (refused) err b where "discover_burns e a = (Inl err, b)" and "at_store b = at_store a"
    | (asked) h l t c where "st_checkpoint (at_store a) = Some h" and "en_scan_limits e t = Some l"
        and "at_store c = at_store a"
        and "discover_burns e a =
          (if sl_latest_committed_block l < hd_block_num h then
             (if hd_block_num h = cg_trusted_anchor_block (en_config e) then ret (sl_proof_lag_block l) else raise ChainDiverged)
           else if sl_latest_committed_block l = hd_block_num h then
             bind_run (check_checkpoint e h) (\<lambda>_. ret (sl_proof_lag_block l))
           else bind_run (scan_blocks e (block_range (Suc (hd_block_num h)) (sl_latest_committed_block l)) h)
             (\<lambda>_. ret (sl_proof_lag_block l))) c"
proof -
  define a1 where "a1 = snd (checkpoint e (set_tip None a))"
  have s1: "at_store a1 = at_store a" by (simp add: a1_def checkpoint_def)
  show thesis
  proof (cases "\<exists>h l. fst (checkpoint e (set_tip None a)) = Inr h \<and> en_scan_limits e (at_tick a1) = Some l")
    case False
    have "\<exists>err b. discover_burns e a = (Inl err, b) \<and> at_store b = at_store a"
      using False s1
      by (auto simp: discover_burns_def then_run_def bind_run_def map_err_def read_scan_limits_def ok_or_def a1_def
          split: prod.splits sum.splits option.splits)
    then show thesis using refused by blast
  next
    case True
    then obtain h l where h: "fst (checkpoint e (set_tip None a)) = Inr h" and l: "en_scan_limits e (at_tick a1) = Some l" by blast
    have cp: "st_checkpoint (at_store a) = Some h"
      using h by (auto simp: checkpoint_def sql_read_def sql_def and_then_Inr_iff ok_or_Inr_iff split: if_splits sum.splits prod.splits)
    show thesis
      by (rule asked [OF cp l, of "set_tip (Some (sl_latest_committed_block l)) (tick a1)"])
        (use h l s1 in \<open>auto simp: a1_def discover_burns_def then_run_def bind_run_def [of "map_err _ _"]
          bind_run_def [of "read_scan_limits _"] map_err_def read_scan_limits_def ok_or_def Let_def split: prod.split\<close>)
  qed
qed

lemma discover_burns_chain:
  assumes bound: "store_bound e (at_store a)" and codec: "chain_codec e" and run: "discover_burns e a = (r, b)"
  shows "at_evolves e {} a b"
    and "\<And>lag h. r = Inr lag \<Longrightarrow> st_checkpoint (at_store a) = Some h \<Longrightarrow>
     \<exists>t l g. en_scan_limits e t = Some l \<and> lag = sl_proof_lag_block l \<and> st_checkpoint (at_store b) = Some g \<and>
        hd_block_num g = max (hd_block_num h) (sl_latest_committed_block l)"
proof -
  have "at_evolves e {} a b \<and> (\<forall>lag h. r = Inr lag \<longrightarrow> st_checkpoint (at_store a) = Some h \<longrightarrow>
     (\<exists>t l g. en_scan_limits e t = Some l \<and> lag = sl_proof_lag_block l \<and> st_checkpoint (at_store b) = Some g \<and>
        hd_block_num g = max (hd_block_num h) (sl_latest_committed_block l)))"
  proof (cases rule: discover_burns_cases [of e a])
    case (refused err c)
    then show ?thesis using run by (auto simp: at_evolves_def)
  next
    case (asked h l t c)
    let ?tip = "sl_latest_committed_block l"
    have low: "cg_trusted_anchor_block (en_config e) \<le> hd_block_num h"
      using bound asked(1) by (auto simp: store_bound_def tables_ok_def dest!: store_invD(1))
    have check: "at_store (snd (check_checkpoint e h c)) = at_store c"
      by (auto simp: check_checkpoint_def bind_run_def block_by_number_def split: sum.split prod.split)
    obtain r3 b3 where r3: "scan_blocks e (block_range (Suc (hd_block_num h)) ?tip) h c = (r3, b3)"
      by (cases "scan_blocks e (block_range (Suc (hd_block_num h)) ?tip) h c")
    have scan: "at_evolves e {} c b3 \<and> (\<exists>g. st_checkpoint (at_store b3) = Some g \<and> linked (en_ext e) h g \<and>
           (r3 = Inr () \<longrightarrow> hd_block_num g = max (hd_block_num h) (Suc ?tip - 1)))"
      by (rule scan_blocks_chain [OF _ codec _ low _ r3]) (use asked bound in \<open>simp_all add: block_range_def\<close>)
    consider "?tip < hd_block_num h" | "?tip = hd_block_num h" | "hd_block_num h < ?tip" by linarith
    then show ?thesis
    proof cases
      case 1
      then have "at_store b = at_store a \<and> (r = Inr (sl_proof_lag_block l) \<or> r = Inl ChainDiverged)"
        using run asked(3,4) by (auto split: if_splits)
      then show ?thesis using asked(1,2) 1 by (auto simp: at_evolves_def) (use asked(2) 1 in \<open>metis max.absorb1 less_imp_le\<close>)
    next
      case 2
      then have "at_store b = at_store a \<and> ((\<exists>err. r = Inl err) \<or> r = Inr (sl_proof_lag_block l))"
        using run asked(3,4) check by (auto simp: bind_run_def split: prod.splits sum.splits)
      then show ?thesis using asked(1,2) 2 by (auto simp: at_evolves_def) (use asked(2) 2 in \<open>metis max.idem\<close>)
    next
      case 3
      then have "b = b3 \<and> ((\<exists>err. r = Inl err \<and> r3 = Inl err) \<or> (r = Inr (sl_proof_lag_block l) \<and> r3 = Inr ()))"
        using run asked(4) r3 by (auto simp: bind_run_def split: prod.splits sum.splits)
      then show ?thesis using scan asked(1,2,3) by (auto simp: at_evolves_def)
    qed
  qed
  then show "at_evolves e {} a b"
    and "\<And>lag h. r = Inr lag \<Longrightarrow> st_checkpoint (at_store a) = Some h \<Longrightarrow>
     \<exists>t l g. en_scan_limits e t = Some l \<and> lag = sl_proof_lag_block l \<and> st_checkpoint (at_store b) = Some g \<and>
        hd_block_num g = max (hd_block_num h) (sl_latest_committed_block l)" by blast+
qed

section \<open>The cycle\<close>

lemma list_all2_mem: "list_all2 R xs ys \<Longrightarrow> y \<in> set ys \<Longrightarrow> \<exists>x \<in> set xs. R x y"
  by (induction rule: list_all2_induct) auto

lemma select_submissions_rows:
  assumes "select_submissions x s n st = Inr qs" and "keys_ok s" and "q \<in> set qs"
  shows "submission_of s (sv_note_id q) = Some q \<and> (\<forall>k. st = Some k \<longrightarrow> sv_status q = k) \<and> load_submission x s q = Inr q"
proof -
  have same: "load_submission x s r = Inr q' \<Longrightarrow> q' = r" for r q'
    by (auto simp: load_submission_def and_then_Inr_iff split: if_splits)
  obtain r where r: "r \<in> set (st_submissions s)" "\<forall>k. st = Some k \<longrightarrow> sv_status r = k" "load_submission x s r = Inr q"
    using list_all2_mem [OF assms(1) [unfolded select_submissions_def collect_all_Inr_iff] assms(3)] by auto
  then show ?thesis using same [OF r(3)] submission_of_mem [OF assms(2)] by auto
qed

lemma ready_burns_withdrawable:
  assumes "store_inv x s" and "burns_ready_for_withdrawal x s lag depth = Inr bs"
  shows "withdrawable_burns s bs"
proof -
  note k = store_invD(5) [OF assms(1)]
  have "distinct (map db_note_id bs)"
  proof (cases "bs = []")
    case False
    then obtain all P where all: "load_burns x s False = Inr all" and bs: "bs = filter P all"
      using assms(2) by (auto simp: burns_ready_for_withdrawal_def and_then_Inr_iff Let_def split: option.splits if_splits)
    let ?rows = "sort_key withdrawal_key (filter (\<lambda>r. br_consumption_block r \<noteq> None \<and> (False \<or> withdrawable s r)) (st_burns s))"
    have "map db_note_id all = map br_note_id ?rows"
      using load_burns_rows [OF all] by (induction rule: list_all2_induct) auto
    moreover have "distinct (map br_note_id ?rows)"
      using distinct_map_filter [OF keys_okD(1) [OF k]] by (simp add: distinct_map)
    ultimately have "distinct (map db_note_id all)" by simp
    then show ?thesis by (simp add: bs distinct_map_filter)
  qed simp
  moreover have "consumed s (db_note_id b) \<and> no_live_request s (db_note_id b)" if "b \<in> set bs" for b
  proof -
    from that have "(db_note_id b, db_consumption_block b) \<in> {(db_note_id b, db_consumption_block b) |b. b \<in> set bs}" by blast
    then show ?thesis unfolding conjunct2 [OF burns_ready_spec [OF assms]]
      using k by (auto simp: consumed_iff no_live_request_def)
  qed
  ultimately show ?thesis by (simp add: withdrawable_burns_def)
qed

text \<open>What the cycle works on after discovery: live requests, and burns without one.\<close>

definition unsaid :: "attester \<Rightarrow> attester \<Rightarrow> bool" where
  "unsaid a b \<longleftrightarrow> at_store b = at_store a \<and> at_trace b = at_trace a \<and> at_rate_limited b = at_rate_limited a"

interpretation silent: run_order unsaid
  by unfold_locales (auto simp: unsaid_def)

lemma unsaid_tick: "unsaid a (tick a)"
  by (simp add: unsaid_def tick_def)

lemma sql_read_unsaid: "moves unsaid (sql_read e q)"
  by (auto simp: moves_def unsaid_def sql_read_def sql_def tick_def and_then_Inr_iff split: sum.split prod.split)

lemma sql_read_Inr:
  assumes "sql_read e q a = (Inr v, b)"
  shows "q (at_store a) = Inr v" and "unsaid a b"
  using assms sql_read_unsaid [of e q]
  by (auto simp: sql_read_def sql_def tick_def and_then_Inr_iff moves_def dest: spec [of _ a] split: if_splits sum.splits prod.splits)

lemma snapshot_submissions_Inr:
  assumes "snapshot_submissions e a = (Inr (qs, ps), b)"
  shows "submissions_to_recover (en_ext e) (at_store a) = Inr qs"
    and "submissions_to_poll (en_ext e) (at_store a) = Inr ps" and "unsaid a b"
proof -
  obtain c where c: "sql_read e (submissions_to_recover (en_ext e)) a = (Inr qs, c)"
    "sql_read e (submissions_to_poll (en_ext e)) c = (Inr ps, b)"
    using assms by (auto simp: snapshot_submissions_def bind_run_def split: prod.splits sum.splits)
  note one = sql_read_Inr [OF c(1)] and two = sql_read_Inr [OF c(2)]
  show "submissions_to_recover (en_ext e) (at_store a) = Inr qs"
    "submissions_to_poll (en_ext e) (at_store a) = Inr ps" "unsaid a b"
    using one two silent.order_trans [OF one(2) two(2)] by (simp_all add: unsaid_def)
qed

lemma snapshot_submissions_unsaid: "moves unsaid (snapshot_submissions e)"
  unfolding snapshot_submissions_def by (intro silent.moves_bind sql_read_unsaid silent.moves_ret)

lemma snd_bind_run:
  "snd (bind_run m f a) = (case fst (m a) of Inl _ \<Rightarrow> snd (m a) | Inr v \<Rightarrow> snd (f v (snd (m a))))"
  by (auto simp: bind_run_def split: prod.split sum.split)

lemma snd_map_err [simp]: "snd (map_err g m a) = snd (m a)"
  by (auto simp: map_err_def split: prod.split sum.split)

definition fresh_burns_of :: "env \<Rightarrow> block_number option \<Rightarrow> (cycle_failure, discovered_burn list) arun" where
  "fresh_burns_of e lag = (case lag of Some block \<Rightarrow> store_stop (ready_burns e block) | None \<Rightarrow> ret [])"

lemma cycle_reads:
  obtains (failed) err z where "bind_run (store_stop (snapshot_submissions e)) (\<lambda>snap. bind_run (fresh_burns_of e lag) (\<lambda>bs. k snap bs)) b =
        (Inl (StoreStopped (StoreError err)), z)" and "unsaid b z"
    | (read) qs ps bs c where "bind_run (store_stop (snapshot_submissions e)) (\<lambda>snap. bind_run (fresh_burns_of e lag) (\<lambda>bs. k snap bs)) b =
        k (qs, ps) bs c" and "unsaid b c"
        and "submissions_to_recover (en_ext e) (at_store b) = Inr qs" and "submissions_to_poll (en_ext e) (at_store b) = Inr ps"
        and "bs = [] \<or> (\<exists>block. lag = Some block \<and> burns_ready_for_withdrawal (en_ext e) (at_store b) block
               (cg_minimum_finality_depth_blocks (en_config e)) = Inr bs)"
proof -
  obtain r1 b1 where r1: "snapshot_submissions e b = (r1, b1)" by (cases "snapshot_submissions e b")
  have u1: "unsaid b b1" using snapshot_submissions_unsaid [of e] r1 by (metis moves_def snd_conv)
  show thesis
  proof (cases r1)
    case (Inl err)
    then show thesis using failed r1 u1 by (simp add: bind_run_def store_stop_def map_err_def)
  next
    case (Inr snap)
    obtain qs ps where snap: "snap = (qs, ps)" by (cases snap)
    note got = snapshot_submissions_Inr [OF r1 [unfolded Inr snap]]
    show thesis
    proof (cases lag)
      case None
      have "bind_run (store_stop (snapshot_submissions e)) (\<lambda>snap. bind_run (fresh_burns_of e lag) (\<lambda>bs. k snap bs)) b = k (qs, ps) [] b1"
        using r1 Inr snap None by (simp add: bind_run_def store_stop_def map_err_def fresh_burns_of_def)
      then show thesis using read [OF _ got(3,1,2)] by blast
    next
      case (Some block)
      obtain r2 b2 where r2: "ready_burns e block b1 = (r2, b2)" by (cases "ready_burns e block b1")
      have u2: "unsaid b b2"
        using u1 r2 sql_read_unsaid silent.order_trans unfolding ready_burns_def by (metis moves_def snd_conv)
      show thesis
      proof (cases r2)
        case (Inl err)
        then show thesis using failed r1 r2 u2 \<open>r1 = Inr snap\<close> Some by (simp add: bind_run_def store_stop_def map_err_def fresh_burns_of_def)
      next
        case (Inr bs)
        then have "burns_ready_for_withdrawal (en_ext e) (at_store b) block
            (cg_minimum_finality_depth_blocks (en_config e)) = Inr bs"
          using sql_read_Inr(1) [OF r2 [unfolded ready_burns_def Inr]] u1 by (simp add: unsaid_def)
        moreover have "bind_run (store_stop (snapshot_submissions e)) (\<lambda>snap. bind_run (fresh_burns_of e lag) (\<lambda>bs. k snap bs)) b = k (qs, ps) bs b2"
          using r1 r2 Inr \<open>r1 = Inr snap\<close> snap Some by (simp add: bind_run_def store_stop_def map_err_def fresh_burns_of_def)
        ultimately show thesis using read [OF _ u2 got(1,2)] Some by blast
      qed
    qed
  qed
qed

lemma cycle_cases:
  assumes "cycle e a = (r, z)" and "discover_burns e a = (d, b)"
  obtains (stopped) stop where "discovery_outcome d = Inl stop" and "r = Inl stop" and "z = b"
    | (unread) err where "r = Inl (StoreStopped (StoreError err))" and "unsaid b z" and "\<And>stop. discovery_outcome d \<noteq> Inl stop"
    | (worked) qs ps bs c c1 c2 where "unsaid b c" and "submissions_to_recover (en_ext e) (at_store b) = Inr qs"
        and "submissions_to_poll (en_ext e) (at_store b) = Inr ps"
        and "bs = [] \<or> (\<exists>lag. d = Inr lag \<and> burns_ready_for_withdrawal (en_ext e) (at_store b) lag
               (cg_minimum_finality_depth_blocks (en_config e)) = Inr bs)"
        and "c1 = snd (advance_submissions e qs c)" and "c2 = snd (submit_withdrawals e bs None c1)"
        and "z \<in> {c1, c2, snd (advance_submissions e ps c2)}" and "\<And>stop. discovery_outcome d \<noteq> Inl stop"
proof (cases "discovery_outcome d")
  case (Inl stop)
  then show thesis using stopped assms by (auto simp: cycle_def)
next
  case (Inr out)
  obtain lag disc where out: "out = (lag, disc)" by (cases out)
  have lag: "lag = Some block \<Longrightarrow> d = Inr block" for block using Inr out by (cases d rule: discovery_outcome.cases) auto
  define k where "k = (\<lambda>(to_recover, to_poll) fresh_burns.
           bind_run (map_err StoreStopped (advance_submissions e to_recover)) (\<lambda>_.
           bind_run (map_err StoreStopped (submit_withdrawals e fresh_burns None)) (\<lambda>submit.
           bind_run (map_err StoreStopped (advance_submissions e to_poll)) (\<lambda>_.
           ret \<lparr>cy_discover = disc, cy_submit = submit\<rparr>))))"
  have run: "bind_run (store_stop (snapshot_submissions e)) (\<lambda>snap. bind_run (fresh_burns_of e lag) (\<lambda>bs. k snap bs)) b = (r, z)"
    using assms Inr out by (simp add: cycle_def k_def split_def fresh_burns_of_def)
  show thesis
  proof (cases rule: cycle_reads [of e lag k b])
    case (failed err z')
    then show thesis using unread run Inr by auto
  next
    case (read qs ps bs c)
    have "z \<in> {snd (advance_submissions e qs c), snd (submit_withdrawals e bs None (snd (advance_submissions e qs c))),
        snd (advance_submissions e ps (snd (submit_withdrawals e bs None (snd (advance_submissions e qs c)))))}"
      using arg_cong [OF run [unfolded read(1)], of snd] unfolding k_def
      by (auto simp: snd_bind_run split: sum.splits)
    then show thesis by (intro worked [OF read(2,3,4) _ refl refl]) (use read(5) lag Inr in auto)
  qed
qed

lemma fresh_burns_withdrawable:
  assumes bound: "store_bound e s" and qs: "submissions_to_recover (en_ext e) s = Inr qs"
    and bs: "bs = [] \<or> (\<exists>lag. d = Inr lag \<and> burns_ready_for_withdrawal (en_ext e) s lag depth = Inr bs)"
    and moved: "evolves e (sv_note_id ` set qs) s t"
  shows "withdrawable_burns t bs"
proof -
  have w: "withdrawable_burns s bs"
    using bs ready_burns_withdrawable bound by (auto simp: store_bound_def withdrawable_burns_def)
  have "sv_note_id ` set qs \<inter> db_note_id ` set bs = {}"
    using select_submissions_rows [OF qs [unfolded submissions_to_recover_def] store_bound_keys [OF bound]] w
    by (fastforce simp: withdrawable_burns_def no_live_request_def)
  then show ?thesis using withdrawable_burns_kept moved bound w by blast
qed

lemma cycle_evolves:
  assumes bound: "store_bound e (at_store a)" and codec: "chain_codec e"
  shows "at_evolves e UNIV a (snd (cycle e a))"
proof -
  obtain r z where z: "cycle e a = (r, z)" by (cases "cycle e a")
  obtain d b where b: "discover_burns e a = (d, b)" by (cases "discover_burns e a")
  have ab: "at_evolves e UNIV a b" using discover_burns_chain(1) [OF bound codec b] by (rule at_evolves_mono) simp
  have bb: "store_bound e (at_store b)" using ab bound evolves_bound by (auto simp: at_evolves_def)
  show ?thesis
    using z b
  proof (cases rule: cycle_cases)
    case (worked qs ps bs c c1 c2)
    have c: "at_store c = at_store b" using worked(1) by (simp add: unsaid_def)
    have "at_evolves e (sv_note_id ` set qs) c c1" using advance_submissions_evolves worked(5) by (auto simp: moves_def)
    then have bc1: "evolves e (sv_note_id ` set qs) (at_store b) (at_store c1)" using c by (simp add: at_evolves_def)
    have b1: "store_bound e (at_store c1)" using bc1 bb evolves_bound by blast
    have w1: "withdrawable_burns (at_store c1) bs" by (rule fresh_burns_withdrawable [OF bb worked(2,4) bc1])
    have "at_evolves e UNIV c1 c2" using at_evolves_mono [OF submit_withdrawals_evolves [OF b1 w1]] worked(6) by simp
    moreover have "at_evolves e UNIV b c1" using evolves_mono [OF bc1] by (simp add: at_evolves_def)
    moreover have "at_evolves e UNIV c2 (snd (advance_submissions e ps c2))"
      using at_evolves_mono advance_submissions_evolves by (metis moves_def subset_UNIV)
    ultimately show ?thesis using z ab worked(7) evo.order_trans by (metis insertE singletonD snd_conv)
  qed (use z ab in \<open>auto simp: unsaid_def at_evolves_def\<close>)
qed

section \<open>The run and its start\<close>

lemma record_progress_unsaid: "moves unsaid (record_progress e)"
proof -
  have "moves unsaid (read_clock e)" for e by (simp add: moves_def read_clock_def unsaid_tick)
  moreover have "moves unsaid (\<lambda>a. (f a, a))" for f :: "attester \<Rightarrow> store_error + cycle_progress"
    by (simp add: moves_def silent.order_refl)
  ultimately show ?thesis
    unfolding record_progress_def checkpoint_def by (intro silent.moves_bind sql_read_unsaid) auto
qed

text \<open>
  What a run keeps: an order on attester states that silent steps, admin commands and whole cycles
  move along, the cycles under an invariant that the order preserves.
\<close>

locale running = run_order R for R :: "attester \<Rightarrow> attester \<Rightarrow> bool" +
  fixes e :: env and inv :: "attester \<Rightarrow> bool"
  assumes silent_step: "unsaid a b \<Longrightarrow> R a b"
    and clears: "R a (clear_limited a)"
    and commands: "R a (handle_admin e c a)"
    and cycles: "inv a \<Longrightarrow> R a (snd (cycle e a))"
    and kept: "inv a \<Longrightarrow> R a b \<Longrightarrow> inv b"
begin

lemma tick_kept: "R a (tick a)"
  by (rule silent_step) (rule unsaid_tick)

lemma admin_off_kept: "R a (a\<lparr>at_admin := v\<rparr>)"
  by (rule silent_step) (simp add: unsaid_def)

lemma admin_commands_kept: "R a (admin_commands e k a)"
proof (induction k arbitrary: a)
  case (Suc k)
  have "R a (admin_commands e k (handle_admin e c (tick a)))" for c
    using order_trans [OF order_trans [OF tick_kept commands] Suc] .
  moreover have "R a ((tick a)\<lparr>at_admin := False\<rparr>)" using order_trans [OF tick_kept admin_off_kept] .
  ultimately show ?case by (simp add: tick_kept split: inbox.split)
qed (simp add: order_refl)

lemma admin_checkpoint_kept: "R a (admin_checkpoint e a)"
  using tick_kept order_trans [OF tick_kept admin_commands_kept] by (simp add: admin_checkpoint_def)

lemma pause_commands_kept: "R a (pause_commands e cs a)"
proof (induction cs arbitrary: a)
  case (Cons c cs)
  have "R a (pause_commands e cs (handle_admin e d a))" for d using order_trans [OF commands Cons] .
  moreover have "R a (pause_commands e cs (a\<lparr>at_admin := False\<rparr>))" using order_trans [OF admin_off_kept Cons] .
  ultimately show ?case by (simp add: order_refl split: option.split)
qed (simp add: order_refl)

lemma run_kept: "inv a \<Longrightarrow> R a (snd (run e fuel pause a))"
proof (induction fuel arbitrary: pause a)
  case (Suc fuel)
  let ?a = "clear_limited (admin_checkpoint e (tick a))"
  obtain r b where b: "cycle e ?a = (r, b)" by fastforce
  define d where "d = snd (record_progress e b)"
  define c where "c = pause_commands e (en_pause_commands e (at_tick d)) (tick d)"
  have to_a: "R a ?a" using order_trans [OF order_trans [OF tick_kept admin_checkpoint_kept] clears] .
  have "R a b" using order_trans [OF to_a cycles [OF kept [OF Suc.prems to_a]]] b by simp
  moreover have "R b d" using record_progress_unsaid by (auto simp: d_def moves_def intro: silent_step)
  ultimately have to_d: "R a d" by (rule order_trans)
  then have to_c: "R a c" unfolding c_def using order_trans [OF _ order_trans [OF tick_kept pause_commands_kept]] by blast
  have rest: "R a (snd (run e fuel p c))" for p using order_trans [OF to_c Suc.IH [OF kept [OF Suc.prems to_c]]] .
  have stop: "R a ((tick a)\<lparr>at_admin := False\<rparr>)" using order_trans [OF tick_kept admin_off_kept] .
  show ?case
    using b stop to_d rest [of "next_pause (en_config e) (at_rate_limited d) pause"]
    by (auto simp: d_def [symmetric] c_def [symmetric] Let_def split: option.split prod.split sum.split)
qed (simp add: order_refl)

end

definition bound_env :: "env \<Rightarrow> attester \<Rightarrow> bool" where
  "bound_env e a \<longleftrightarrow> store_bound e (at_store a) \<and> chain_codec e"

lemma bound_env_kept: "bound_env e a \<Longrightarrow> at_evolves e UNIV a b \<Longrightarrow> bound_env e b"
  using evolves_bound by (auto simp: bound_env_def at_evolves_def)

interpretation stores: running "at_evolves e UNIV" e "bound_env e" for e
proof
  show "at_evolves e UNIV a (handle_admin e c a)" for a c using handle_admin_evolves by (rule at_evolves_mono) simp
  show "bound_env e a \<Longrightarrow> at_evolves e UNIV a (snd (cycle e a))" for a using cycle_evolves by (simp add: bound_env_def)
qed (auto simp: at_evolves_def unsaid_def intro: bound_env_kept [unfolded at_evolves_def])

lemma service_run_evolves:
  "bound_env e a \<Longrightarrow> at_evolves e UNIV a (snd (service_run e fuel a))"
  using stores.run_kept [of e a fuel] stores.run_kept [of e "attach_admin a" fuel]
  by (simp add: service_run_def bound_env_def at_evolves_def attach_admin_def)

lemma open_or_create_Inr:
  assumes "open_or_create x file f anchor = Inr s" and "\<And>t. file = Some t \<Longrightarrow> store_steps x (initialize_store f anchor) t"
  shows "store_steps x (initialize_store f anchor) s"
  using assms by (auto simp: open_or_create_def and_then_Inr_iff store_steps_refl split: option.splits)

lemma store_steps_bound:
  assumes "store_steps (en_ext e) (initialize_store (cg_faucet_account_id (en_config e)) (config_anchor (en_config e))) s"
  shows "store_bound e s"
  using store_steps_inv [OF assms initialize_store_inv] store_steps_identity [OF assms initialize_store_inv]
  by (simp add: store_bound_def same_identity_def initialize_store_def config_anchor_def)

lemma start_Inr:
  assumes "start e se = Inr a"
  obtains block s a0 where "open_or_create (en_ext e) (se_store_file se) (cg_faucet_account_id (en_config e)) (config_anchor (en_config e)) = Inr s"
    and "en_block e 0 (cg_trusted_anchor_block (en_config e)) = Some block"
    and "anchor_pinned (en_ext e) (config_anchor (en_config e)) block" and "at_store a0 = s"
    and "first_checkpoint e block a0 = Inr a"
proof -
  let ?z = "\<lambda>s. \<lparr>at_store = s, at_node_tip = None, at_admin = False, at_rate_limited = False, at_tick = 1, at_trace = []\<rparr>"
  obtain block s where "open_or_create (en_ext e) (se_store_file se) (cg_faucet_account_id (en_config e)) (config_anchor (en_config e)) = Inr s"
    "en_block e 0 (ta_block_num (config_anchor (en_config e))) = Some block"
    "anchor_pinned (en_ext e) (config_anchor (en_config e)) block" "first_checkpoint e block (?z s) = Inr a"
    using assms unfolding start_def Let_def and_then_Inr_iff ok_or_Inr_iff ensure_that_Inr_iff
    by (auto split: sum.splits)
  then show thesis using that [of s block "?z s"] by (simp add: config_anchor_def)
qed

lemma first_checkpoint_evolves:
  assumes bound: "store_bound e (at_store a0)" and codec: "chain_codec e"
    and block: "en_block e 0 (cg_trusted_anchor_block (en_config e)) = Some block"
    and pinned: "anchor_pinned (en_ext e) (config_anchor (en_config e)) block"
    and first: "first_checkpoint e block a0 = Inr a"
  shows "at_evolves e {} a0 a"
    and "st_checkpoint (at_store a) = Some (case st_checkpoint (at_store a0) of Some cp \<Rightarrow> cp | None \<Rightarrow> bk_header block)"
proof -
  have "at_evolves e {} a0 a \<and>
    st_checkpoint (at_store a) = Some (case st_checkpoint (at_store a0) of Some cp \<Rightarrow> cp | None \<Rightarrow> bk_header block)"
  proof (cases "st_checkpoint (at_store a0)")
    case None
    have "block_codec (en_ext e) block" using block codec by (auto simp: chain_codec_def)
    moreover have "cg_trusted_anchor_block (en_config e) \<le> hd_block_num (bk_header block)"
      using pinned by (simp add: anchor_pinned_def config_anchor_def)
    ultimately show ?thesis
      using save_block_evolves(1,2) [OF bound, of block] first None
      by (auto simp: first_checkpoint_def split: prod.splits sum.splits)
  next
    case (Some cp)
    have "at_store (snd (check_checkpoint e cp a0)) = at_store a0"
      by (auto simp: check_checkpoint_def bind_run_def block_by_number_def split: sum.split prod.split)
    then show ?thesis
      using first Some by (auto simp: first_checkpoint_def at_evolves_def split: prod.splits sum.splits)
  qed
  then show "at_evolves e {} a0 a"
    "st_checkpoint (at_store a) = Some (case st_checkpoint (at_store a0) of Some cp \<Rightarrow> cp | None \<Rightarrow> bk_header block)" by auto
qed

text \<open>
  The store file found at startup: absent, or one that an earlier run left, with its last verified
  header on a chain from a pinned anchor.
\<close>

definition earlier_store :: "env \<Rightarrow> store \<Rightarrow> bool" where
  "earlier_store e s \<longleftrightarrow>
     store_steps (en_ext e) (initialize_store (cg_faucet_account_id (en_config e)) (config_anchor (en_config e))) s \<and>
     (\<forall>g. st_checkpoint s = Some g \<longrightarrow>
        (\<exists>block. anchor_pinned (en_ext e) (config_anchor (en_config e)) block \<and> linked (en_ext e) (bk_header block) g))"

lemma started_run:
  assumes st: "start e se = Inr a" and codec: "chain_codec e"
    and found: "\<And>s. se_store_file se = Some s \<Longrightarrow> earlier_store e s"
  shows "earlier_store e (at_store (snd (service_run e fuel a)))"
    and "st_checkpoint (at_store (snd (service_run e fuel a))) \<noteq> None"
proof -
  let ?i = "initialize_store (cg_faucet_account_id (en_config e)) (config_anchor (en_config e))"
  obtain block s a0 where s: "open_or_create (en_ext e) (se_store_file se) (cg_faucet_account_id (en_config e)) (config_anchor (en_config e)) = Inr s"
    and block: "en_block e 0 (cg_trusted_anchor_block (en_config e)) = Some block"
    and pinned: "anchor_pinned (en_ext e) (config_anchor (en_config e)) block"
    and a0: "at_store a0 = s" and first: "first_checkpoint e block a0 = Inr a"
    using st by (rule start_Inr)
  have early: "earlier_store e s"
    using s found by (auto simp: open_or_create_def and_then_Inr_iff earlier_store_def initialize_store_def split: option.splits)
  then have steps: "store_steps (en_ext e) ?i (at_store a0)" by (simp add: a0 earlier_store_def)
  then have bound: "store_bound e (at_store a0)" by (rule store_steps_bound)
  note fc = first_checkpoint_evolves [OF bound codec block pinned first]
  have "store_bound e (at_store a)" using fc(1) bound evolves_bound by (auto simp: at_evolves_def)
  then have "bound_env e a" using codec by (simp add: bound_env_def)
  from service_run_evolves [OF this, of fuel] have runs: "evolves e UNIV (at_store a) (at_store (snd (service_run e fuel a)))"
    by (simp add: at_evolves_def)
  obtain g where g: "st_checkpoint (at_store (snd (service_run e fuel a))) = Some g"
      "linked (en_ext e) (case st_checkpoint (at_store a0) of Some cp \<Rightarrow> cp | None \<Rightarrow> bk_header block) g"
    using runs fc(2) \<open>store_bound e (at_store a)\<close> by (auto simp: evolves_def chain_grows_def)
  have "store_steps (en_ext e) ?i (at_store (snd (service_run e fuel a)))"
    using steps fc(1) runs bound \<open>store_bound e (at_store a)\<close> store_steps_trans
    unfolding at_evolves_def evolves_def by blast
  moreover have "\<exists>block. anchor_pinned (en_ext e) (config_anchor (en_config e)) block \<and> linked (en_ext e) (bk_header block) g"
    using g(2) early pinned linked_trans unfolding earlier_store_def a0 by (auto split: option.splits)
  ultimately show "earlier_store e (at_store (snd (service_run e fuel a)))"
    "st_checkpoint (at_store (snd (service_run e fuel a))) \<noteq> None"
    using g(1) by (auto simp: earlier_store_def)
qed

text \<open>
  A concrete environment for the witnesses: a chain of empty blocks with one burn, created in block
  11 and consumed in block 12, a Circle that prepares and accepts, and no failures.
\<close>

definition sample_block :: "block_number \<Rightarrow> signed_block" where
  "sample_block n = \<lparr>bk_header = sample_header n,
     bk_output_batches = (if n = 11 then [[Public sample_note]] else []),
     bk_transactions = (if n = 12 then [\<lparr>tx_account = 1, tx_inputs = [6]\<rparr>] else [])\<rparr>"

definition sample_env :: env where
  "sample_env = \<lparr>en_ext = sample_ext, en_config = sample_config, en_signers = (\<lambda>_. pair_signing sample_pair),
     en_scan_limits = (\<lambda>_. Some \<lparr>sl_latest_committed_block = 17, sl_proof_lag_block = 16\<rparr>),
     en_block = (\<lambda>_ n. Some (sample_block n)), en_prepare = (\<lambda>_ _ _. Inr sample_reply),
     en_post = (\<lambda>_ _. Inr \<lparr>rr_status = 201, rr_body = [1]\<rparr>), en_get = (\<lambda>_ _ _. Inr \<lparr>rr_status = 200, rr_body = [1]\<rparr>),
     en_now = (\<lambda>_. 0), en_inbox = (\<lambda>_. Empty), en_cancelled = (\<lambda>_. False), en_sql_fails = (\<lambda>_. False),
     en_pause_commands = (\<lambda>_. [])\<rparr>"

definition sample_start_env :: start_env where
  "sample_start_env = \<lparr>se_node_connects = True, se_account_exists = (\<lambda>_. Some True), se_secp = sample_secp,
     se_signers = sample_pair\<lparr>sp_public_keys := (map of_char ''k1'', map of_char ''k2'')\<rparr>,
     se_circle_connects = True, se_store_file = None\<rparr>"

definition sample_state :: "store \<Rightarrow> nat \<Rightarrow> attester" where
  "sample_state s t = \<lparr>at_store = s, at_node_tip = None, at_admin = False, at_rate_limited = False,
     at_tick = t, at_trace = []\<rparr>"

lemma sample_env_fields [simp]:
  "en_ext sample_env = sample_ext" "en_config sample_env = sample_config"
  "en_block sample_env t n = Some (sample_block n)" "en_sql_fails sample_env t = False"
  "en_cancelled sample_env t = False" "en_inbox sample_env t = Empty" "en_pause_commands sample_env t = []"
  "en_scan_limits sample_env t = Some \<lparr>sl_latest_committed_block = 17, sl_proof_lag_block = 16\<rparr>"
  "en_prepare sample_env t b f = Inr sample_reply" "en_post sample_env t q = Inr \<lparr>rr_status = 201, rr_body = [1]\<rparr>"
  "en_get sample_env t q i = Inr \<lparr>rr_status = 200, rr_body = [1]\<rparr>"
  "en_signers sample_env t = pair_signing sample_pair" "en_now sample_env t = 0"
  by (simp_all add: sample_env_def)

lemma sample_chain_codec: "chain_codec sample_env"
  using sample_note_codec by (auto simp: chain_codec_def block_codec_def sample_block_def split: if_splits)

lemma sample_start:
  "start sample_env sample_start_env = Inr (sample_state (sample_store0\<lparr>st_checkpoint := Some (sample_header 10)\<rparr>) 2)"
proof -
  have pinned: "anchor_pinned sample_ext (config_anchor sample_config) (sample_block 10)"
    by (simp add: anchor_pinned_def config_anchor_def sample_config_def sample_block_def sample_header_def sample_ext_def)
  have keys: "check_expected sample_secp (se_signers sample_start_env) (cg_expected_signing_public_keys sample_config) = Inr ()"
    by (simp add: check_expected_def from_hex_def decode_hex_def strip_0x_def from_compressed_def sample_secp_def sample_start_env_def sample_config_def)
  have first: "first_checkpoint sample_env (sample_block 10) (sample_state sample_store0 1) =
      Inr (sample_state (sample_store0\<lparr>st_checkpoint := Some (sample_header 10)\<rparr>) 2)"
    by (simp add: first_checkpoint_def sample_state_def save_block_def find_burns_in_block_def faucet_inputs_def
        sample_block_def bind_run_def map_err_def sql_write_def sql_def tick_def save_scan_progress_def
        validate_discovery_records_def sample_store_defs)
  show ?thesis
    using pinned keys first
    by (simp add: start_def open_or_create_def sample_start_env_def config_anchor_def sample_config_def sample_state_def
        sample_store0_def sample_anchor_def)
qed

text \<open>
  C7: a running attester is the store's state machine. Whatever the node, Circle, the signers, the
  clock, the operators and the database do, from a new store or from one an earlier run left, after
  any number of cycles the store is one that guarded transactions lead to from the empty store, so
  every theorem about the store's histories holds of it. Premise: decoding a note that the node
  delivered gives back that note.
\<close>

theorem attester_refines_store:
  assumes "start e se = Inr a" and "chain_codec e"
    and "\<And>s. se_store_file se = Some s \<Longrightarrow> earlier_store e s"
  shows "store_steps (en_ext e) (initialize_store (cg_faucet_account_id (en_config e)) (config_anchor (en_config e)))
           (at_store (snd (service_run e fuel a)))"
  using started_run(1) [OF assms] by (simp add: earlier_store_def)

theorem attester_refines_store_witness:
  "store_steps sample_ext (initialize_store 1 (config_anchor sample_config))
     (at_store (snd (service_run sample_env 3 (sample_state (sample_store0\<lparr>st_checkpoint := Some (sample_header 10)\<rparr>) 2))))"
  using attester_refines_store [OF sample_start sample_chain_codec] by (simp add: sample_start_env_def sample_config_def)

text \<open>
  C8: the checkpoint is always the end of a verified chain. After any number of cycles the saved
  header is reached from a block that matches the pinned anchor through blocks with consecutive
  numbers, each validated against the header before it; no block is skipped and none is taken on
  trust.
\<close>

theorem checkpoint_verified_chain:
  assumes "start e se = Inr a" and "chain_codec e"
    and "\<And>s. se_store_file se = Some s \<Longrightarrow> earlier_store e s"
  shows "\<exists>block g. anchor_pinned (en_ext e) (config_anchor (en_config e)) block \<and>
     st_checkpoint (at_store (snd (service_run e fuel a))) = Some g \<and> linked (en_ext e) (bk_header block) g"
  using started_run [OF assms, of fuel] unfolding earlier_store_def by blast

theorem checkpoint_verified_chain_witness:
  "\<exists>block g. anchor_pinned sample_ext (config_anchor sample_config) block \<and>
     st_checkpoint (at_store (snd (service_run sample_env 3
       (sample_state (sample_store0\<lparr>st_checkpoint := Some (sample_header 10)\<rparr>) 2)))) = Some g \<and>
     linked sample_ext (bk_header block) g"
  using checkpoint_verified_chain [OF sample_start sample_chain_codec] by (simp add: sample_start_env_def)

end
