(* ===== verification/Attester_Sample.thy ===== *)
theory Attester_Sample
  imports Attester_Cycle
begin

text \<open>
  One whole cycle, evaluated: from a new store at the pinned anchor the sample environment is
  scanned, the burn is found, consumed, prepared, verified, signed, saved, posted and accepted.
  The witnesses of the conversation theorems rest on it.
\<close>

definition sample_at :: "store \<Rightarrow> block_number option \<Rightarrow> bool \<Rightarrow> nat \<Rightarrow> action list \<Rightarrow> attester" where
  "sample_at s p l t tr = \<lparr>at_store = s, at_node_tip = p, at_admin = False, at_rate_limited = l, at_tick = t, at_trace = tr\<rparr>"

lemma sample_at_fields [simp]:
  "at_store (sample_at s p l t tr) = s" "at_trace (sample_at s p l t tr) = tr" "at_rate_limited (sample_at s p l t tr) = l"
  "at_tick (sample_at s p l t tr) = t" "at_admin (sample_at s p l t tr) = False"
  "tick (sample_at s p l t tr) = sample_at s p l (Suc t) tr"
  "note_action x (sample_at s p l t tr) = sample_at s p l t (tr @ [x])"
  "mark_limited k (sample_at s p l t tr) = sample_at s p (l \<or> k) t tr"
  "set_tip q (sample_at s p l t tr) = sample_at s q l t tr"
  "clear_limited (sample_at s p l t tr) = sample_at s p False t tr"
  by (simp_all add: sample_at_def tick_def note_action_def mark_limited_def set_tip_def clear_limited_def)

text \<open>An environment that answers as the sample does, except for Circle.\<close>

definition sample_like :: "env \<Rightarrow> bool" where
  "sample_like e \<longleftrightarrow> (\<exists>prep post get. e = sample_env\<lparr>en_prepare := prep, en_post := post, en_get := get\<rparr>)"

lemma sample_like_fields:
  assumes "sample_like e"
  shows "en_ext e = sample_ext" "en_config e = sample_config" "en_block e t n = Some (sample_block n)"
    "en_sql_fails e t = False" "en_scan_limits e t = Some \<lparr>sl_latest_committed_block = 17, sl_proof_lag_block = 16\<rparr>"
    "en_signers e t = pair_signing sample_pair" "en_cancelled e t = False" "en_now e t = 0" "en_pause_commands e t = []"
  using assms by (auto simp: sample_like_def)

lemma sample_like_calls:
  assumes "sample_like e"
  shows "admin_checkpoint e (sample_at s p l t tr) = sample_at s p l (Suc t) tr"
    and "sql_read e q (sample_at s p l t tr) = (q s, sample_at s p l (Suc t) tr)"
    and "sql_write e w (sample_at s p l t tr) =
      (case w s of Inl err \<Rightarrow> (Inl err, sample_at s p l (Suc t) tr) | Inr s' \<Rightarrow> (Inr (), sample_at s' p l (Suc t) tr))"
    and "block_by_number e n (sample_at s p l t tr) = (Inr (sample_block n), sample_at s p l (Suc t) tr)"
    and "read_scan_limits e (sample_at s p l t tr) =
      (Inr \<lparr>sl_latest_committed_block = 17, sl_proof_lag_block = 16\<rparr>, sample_at s p l (Suc t) tr)"
  using sample_like_fields [OF assms]
  by (auto simp: admin_checkpoint_def sql_read_def sql_write_def sql_def and_then_def block_by_number_def
      read_scan_limits_def sample_at_def tick_def split: sum.split)

text \<open>The scan, block by block.\<close>

lemma sample_candidate_new: "burn_candidate_new sample_ext sample_note 11 1 = Inr sample_candidate"
  using sample_note_consumable by (auto simp: burn_candidate_new_Inr sample_candidate_def)

lemma sample_header_num [simp]: "hd_block_num (sample_header n) = n"
  by (simp add: sample_header_def)

lemma sample_save_empty:
  assumes "sample_like e" and "n \<notin> {11, 12}"
  shows "save_block e (sample_block n) (sample_at s p l t tr) =
    (Inr (), sample_at (s\<lparr>st_checkpoint := Some (sample_header n)\<rparr>) p l (Suc t) tr)"
  using assms(2)
  by (simp add: sample_like_calls [OF assms(1)] sample_like_fields [OF assms(1)] save_block_def find_burns_in_block_def faucet_inputs_def sample_block_def bind_run_def map_err_def
      save_scan_progress_def validate_discovery_records_def Let_def)

definition sample_anchored :: store where
  "sample_anchored = sample_store0\<lparr>st_checkpoint := Some (sample_header 10)\<rparr>"

lemma sample_save_11:
  assumes "sample_like e"
  shows "\<exists>k. save_block e (sample_block 11) (sample_at sample_anchored p l t tr) =
    (Inr (), sample_at sample_store1 p l k tr)"
proof -
  have f: "cg_faucet_account_id sample_config = 1" by (simp add: sample_config_def)
  have known: "\<not> note_known sample_anchored (bc_note_id sample_candidate)"
    by (simp add: note_known_def sample_anchored_def sample_store_defs)
  have save: "save_scan_progress sample_ext [sample_candidate] [] (sample_header 11) sample_anchored = Inr sample_store1"
    by (simp add: save_scan_progress_def validate_discovery_records_def insert_candidate_def clashes_def
        sample_candidate_def bc_note_id_def bc_nullifier_def insert_row_def sample_anchored_def sample_store_defs)
      (simp add: sample_note_def sample_ext_def)
  show ?thesis
    using sample_candidate_new f known save
    by (intro exI [of _ "Suc (Suc t)"]) (simp add: sample_like_calls [OF assms] sample_like_fields [OF assms] save_block_def find_burns_in_block_def faucet_inputs_def sample_block_def bind_run_def map_err_def Let_def)
qed

lemma sample_candidate_found: "candidate_by_nullifier sample_ext sample_store1 6 = Inr (Some sample_candidate)"
proof -
  have "decode_note sample_ext (be_bytes 32 (5 :: u256)) 5 6 = Inr sample_note"
    by (simp add: decode_note_def sample_ext_def sample_note_def)
  then have "load_candidate sample_ext 1 (sample_row None) = Inr sample_candidate"
    using sample_candidate_new by (simp add: load_candidate_def sample_row_def invalid_row_def)
  then show ?thesis
    by (simp add: candidate_by_nullifier_def load_candidates_def sample_store1_def sample_store0_def sample_anchor_def
        initialize_store_def) (simp add: sample_row_def)
qed

lemma sample_save_12:
  assumes "sample_like e"
  shows "\<exists>k. save_block e (sample_block 12) (sample_at sample_store1 p l t tr) =
    (Inr (), sample_at sample_store2 p l k tr)"
proof -
  have f: "cg_faucet_account_id sample_config = 1" by (simp add: sample_config_def)
  have b: "into_discovered sample_candidate 12 = sample_burn"
    by (simp add: into_discovered_def sample_candidate_def sample_burn_def)
  have save: "save_scan_progress sample_ext [] [sample_burn] (sample_header 12) sample_store1 = Inr sample_store2"
    by (simp add: save_scan_progress_def validate_discovery_records_def insert_burn_def clashes_def
        sample_burn_def db_note_id_def db_nullifier_def set_burn_def update_by_def count_rows_def
        sample_store_defs sample_note_def)
  show ?thesis
    using f b save sample_candidate_found
    by (intro exI [of _ "Suc (Suc t)"]) (simp add: sample_like_calls [OF assms] sample_like_fields [OF assms] save_block_def find_burns_in_block_def faucet_inputs_def sample_block_def bind_run_def map_err_def Let_def)
qed

text \<open>The scan up to the tip.\<close>

lemma sample_scan_step:
  assumes "sample_like e"
    and "\<And>t. \<exists>k. save_block e (sample_block n) (sample_at s p l t tr) = (Inr (), sample_at s' p l k tr)"
  shows "\<exists>k. scan_blocks e (n # nums) h (sample_at s p l t tr) = scan_blocks e nums (sample_header n) (sample_at s' p l k tr)"
proof -
  have v: "x_block_validate sample_ext b g = True" for b g by (simp add: sample_ext_def)
  obtain k where k: "save_block e (sample_block n) (sample_at s p l (Suc (Suc t)) tr) = (Inr (), sample_at s' p l k tr)"
    using assms(2) by blast
  have "bk_header (sample_block n) = sample_header n" by (simp add: sample_block_def)
  then show ?thesis
    using k by (intro exI [of _ k])
      (simp add: then_run_def bind_run_def fetch_and_verify_block_def sample_like_calls [OF assms(1)]
        sample_like_fields [OF assms(1)] v)
qed

lemma sample_scan_empty:
  assumes "sample_like e" and "12 < n"
  shows "\<exists>k. scan_blocks e (n # nums) (sample_header (n - 1)) (sample_at s p l t tr) =
     scan_blocks e nums (sample_header n) (sample_at (s\<lparr>st_checkpoint := Some (sample_header n)\<rparr>) p l k tr)"
  by (rule sample_scan_step [OF assms(1)]) (use assms sample_save_empty in fastforce)

lemma sample_scan_rest:
  assumes "sample_like e" and "12 \<le> m"
  shows "\<exists>k. scan_blocks e [Suc m..<Suc (m + d)] (sample_header m)
      (sample_at (s\<lparr>st_checkpoint := Some (sample_header m)\<rparr>) p l t tr) =
    (Inr (), sample_at (s\<lparr>st_checkpoint := Some (sample_header (m + d))\<rparr>) p l k tr)"
  using assms(2)
proof (induction d arbitrary: m t)
  case (Suc d)
  have "[Suc m..<Suc (m + Suc d)] = Suc m # [Suc (Suc m)..<Suc (Suc m + d)]" by (simp add: upt_conv_Cons)
  then show ?case
    using sample_scan_empty [OF assms(1), of "Suc m" "[Suc (Suc m)..<Suc (Suc m + d)]" "s\<lparr>st_checkpoint := Some (sample_header m)\<rparr>" p l t tr]
      Suc.IH [of "Suc m"] Suc.prems by (auto simp del: scan_blocks.simps)
qed (simp, blast)

lemma sample_scan:
  assumes "sample_like e"
  shows "\<exists>k. scan_blocks e [11..<18] (sample_header 10) (sample_at sample_anchored p l t tr) =
    (Inr (), sample_at sample_store_deep p l k tr)"
proof -
  have nums: "[11..<18] = 11 # 12 # [Suc 12..<Suc (12 + 5)]" by (simp add: upt_rec)
  obtain k1 where 1: "scan_blocks e (11 # 12 # [Suc 12..<Suc (12 + 5)]) (sample_header 10) (sample_at sample_anchored p l t tr) =
      scan_blocks e (12 # [Suc 12..<Suc (12 + 5)]) (sample_header 11) (sample_at sample_store1 p l k1 tr)"
    using sample_scan_step [OF assms sample_save_11 [OF assms]] by blast
  obtain k2 where 2: "scan_blocks e (12 # [Suc 12..<Suc (12 + 5)]) (sample_header 11) (sample_at sample_store1 p l k1 tr) =
      scan_blocks e [Suc 12..<Suc (12 + 5)] (sample_header 12) (sample_at sample_store2 p l k2 tr)"
    using sample_scan_step [OF assms sample_save_12 [OF assms]] by blast
  have "sample_store2 = sample_store2\<lparr>st_checkpoint := Some (sample_header 12)\<rparr>" by (simp add: sample_store2_def)
  with sample_scan_rest [OF assms, of 12 5 sample_store2 p l k2 tr] show ?thesis
    unfolding nums 1 2 by (simp add: sample_store_deep_def)
qed

lemma sample_discover:
  assumes "sample_like e"
  shows "\<exists>k. discover_burns e (sample_at sample_anchored p l t tr) = (Inr 16, sample_at sample_store_deep (Some 17) l k tr)"
proof -
  have cp: "ok_or (st_checkpoint sample_anchored) StoreInvalid = Inr (sample_header 10)"
    by (simp add: sample_anchored_def ok_or_def)
  obtain k where "scan_blocks e [11..<18] (sample_header 10) (sample_at sample_anchored (Some 17) l (Suc (Suc t)) tr) =
      (Inr (), sample_at sample_store_deep (Some 17) l k tr)" using sample_scan [OF assms] by blast
  then show ?thesis
    by (intro exI [of _ k])
      (simp add: discover_burns_def then_run_def bind_run_def map_err_def checkpoint_def cp block_range_def Let_def
        sample_like_calls [OF assms] sample_like_fields [OF assms] del: scan_blocks.simps upt_Suc)
qed

text \<open>What the cycle reads from the store of the scan.\<close>

lemma sample_deep_reads:
  "submissions_to_recover sample_ext sample_store_deep = Inr []" "submissions_to_poll sample_ext sample_store_deep = Inr []"
  "first_limit_wait sample_store_deep = None" "saved_submission_for sample_ext sample_store_deep n = Inr None"
  by (simp_all add: submissions_to_recover_def submissions_to_poll_def select_submissions_def first_limit_wait_def
      saved_submission_for_def sample_store_deep_def sample_store_defs)

definition sample_store_sent :: store where
  "sample_store_sent = sample_store_deep\<lparr>st_submissions := [sample_saved], st_events := [sample_event], st_next_seq := 2\<rparr>"

lemma sample_deep_save: "save_submission sample_ext sample_saved sample_store_deep = Inr sample_store_sent"
  using sample_validates
  by (simp add: save_submission_def submission_of_def burn_of_def lookup_by_def record_event_def insert_row_def
      append_event_def event_of_def keeps_request_def sample_saved_def sample_store_sent_def sample_store_deep_def sample_store_defs)

lemma sample_submission:
  "submission_endpoint sample_ext (cg_circle_api_base_url sample_config) = Inr ''https://c/v1/withdraw''"
  "submission sample_ext \<lparr>sw_batch = sample_batch, sw_signatures = sigs\<rparr> ''https://c/v1/withdraw'' = Some sample_saved"
  by (simp_all add: submission_endpoint_def submission_def ok_or_def sample_ext_def sample_config_def sample_batch_def sample_saved_def)

lemma sample_signs: "\<exists>sigs. sign (pair_signing sample_pair) sample_batch = Inr \<lparr>sw_batch = sample_batch, sw_signatures = sigs\<rparr>"
  by (simp add: sign_def pair_signing_def sample_pair_def sample_signer_def)

lemma sample_fee: "\<exists>fee. forwarding_max_fee sample_config (dest_domain (db_items sample_burn)) = Some fee"
  by (simp add: forwarding_max_fee_def sample_burn_def sample_items_def FIRST_REMOTE_DOMAIN_def STACKS_DOMAIN_def
      CARDANO_DOMAIN_def MOVEMENT_DOMAIN_def)

text \<open>The burn is prepared, signed, saved and posted.\<close>

lemma sample_env_like: "sample_like sample_env"
  unfolding sample_like_def
  by (intro exI [of _ "en_prepare sample_env"] exI [of _ "en_post sample_env"] exI [of _ "en_get sample_env"]) simp

lemma sample_withdraws:
  "\<exists>r s k. withdraw sample_env sample_burn (sample_at sample_store_deep p False t tr) =
    (r, sample_at s p False k (tr @ [SentPrepare 5 False, SentPost sample_saved (Some sample_saved) False])) \<and>
    (\<forall>err. r = Inl err \<longrightarrow> is_fatal err)"
proof -
  note like = sample_env_like
  obtain fee where fee: "forwarding_max_fee sample_config (dest_domain (db_items sample_burn)) = Some fee" using sample_fee by blast
  obtain sigs where sigs: "sign (pair_signing sample_pair) sample_batch = Inr \<lparr>sw_batch = sample_batch, sw_signatures = sigs\<rparr>"
    using sample_signs by blast
  have id: "db_note_id sample_burn = 5" by (simp add: db_note_id_def sample_burn_def sample_note_def)
  have row: "submission_of sample_store_sent (sv_note_id sample_saved) = Some sample_saved"
    by (simp add: submission_of_def lookup_by_def sample_store_sent_def sample_store_deep_def sample_store_defs)
  have id': "sv_withdrawal_id sample_saved = None" by (simp add: sample_saved_def)
  have nolimit: "\<not> is_withdrawal_limit sample_ext 201 [1] m" for m by (simp add: is_withdrawal_limit_def)
  have limit: "\<exists>policy. cg_withdrawal_limit sample_config = Some policy" by (simp add: sample_config_def)
  let ?sent = "got_reply \<lparr>rr_status = 201, rr_body = [1]\<rparr> sample_saved"
  let ?done = "update_submission_outcome sample_ext (snd (read_response sample_ext \<lparr>rr_status = 201, rr_body = [1]\<rparr> ?sent)) sample_store_sent"
  have sent: "sv_withdrawal_id ?sent = None" by (simp add: got_reply_def id')
  show ?thesis
    using fee sigs limit
    by (cases ?done) (auto simp: withdraw_def bind_run_def prepare_withdrawal_def limited_reply_def sample_verifies sign_withdrawal_def
        submit_signed_withdrawal_def sample_submission map_err_def sample_like_calls [OF like] sample_deep_reads
        sample_deep_save advance_submission_def send_saved_request_def call_circle_def id id' row read_sent_def sent
        wait_for_withdrawal_limit_def nolimit finish_submission_def save_outcome_def, blast+)
qed

text \<open>The whole cycle, up to what the withdrawal of the burn makes of it.\<close>

lemma sample_cycle_of:
  assumes "sample_like e" and "\<And>t. \<exists>r s k. withdraw e sample_burn (sample_at sample_store_deep (Some 17) False t tr) =
      (r, sample_at s (Some 17) l k tr') \<and> (\<forall>err. r = Inl err \<longrightarrow> is_fatal err \<or> l \<and> burn_hold err = (None, None) \<and> prepare_refusal err = None)"
  shows "at_trace (snd (cycle e (sample_at sample_anchored p False t tr))) = tr'"
proof -
  obtain k where d: "discover_burns e (sample_at sample_anchored p False t tr) = (Inr 16, sample_at sample_store_deep (Some 17) False k tr)"
    using sample_discover [OF assms(1)] by blast
  have ready: "burns_ready_for_withdrawal sample_ext sample_store_deep 16 (cg_minimum_finality_depth_blocks sample_config) = Inr [sample_burn]"
    using sample_ready by (simp add: sample_config_def)
  obtain r s k' where w: "withdraw e sample_burn (sample_at sample_store_deep (Some 17) False (Suc (Suc (Suc (Suc (Suc k))))) tr) =
      (r, sample_at s (Some 17) l k' tr')" and r: "\<forall>err. r = Inl err \<longrightarrow> is_fatal err \<or> l \<and> burn_hold err = (None, None) \<and> prepare_refusal err = None"
    using assms(2) by blast
  have calls: "limit_allows e n (sample_at sample_store_deep (Some 17) False k tr) =
      (Inr True, sample_at sample_store_deep (Some 17) False (Suc k) tr)" for n k
    by (simp add: limit_allows_def bind_run_def sample_like_calls [OF assms(1)] sample_deep_reads)
  show ?thesis
    using w r d
    by (auto simp: cycle_def bind_run_def store_stop_def map_err_def snapshot_submissions_def ready_burns_def
        sample_like_calls [OF assms(1)] sample_like_fields [OF assms(1)] sample_deep_reads ready then_run_def calls
        attempt_withdrawal_def hold_failed_burn_def split: sum.split)
qed

definition sample_said :: "action list" where
  "sample_said = [SentPrepare 5 False, SentPost sample_saved (Some sample_saved) False]"

lemma sample_cycle: "at_trace (snd (cycle sample_env (sample_at sample_anchored p False t []))) = sample_said"
  using sample_withdraws [of "Some 17" _ "[]"]
  by (intro sample_cycle_of [OF sample_env_like, where l = False]) (fastforce simp: sample_said_def)

text \<open>The same environment with a Circle that answers 429.\<close>

definition limited_env :: env where
  "limited_env = sample_env\<lparr>en_prepare := (\<lambda>_ _ _. Inl (RateLimited None None))\<rparr>"

lemma limited_env_like: "sample_like limited_env"
  unfolding sample_like_def limited_env_def
  by (intro exI [of _ "\<lambda>_ _ _. Inl (RateLimited None None)"] exI [of _ "en_post sample_env"] exI [of _ "en_get sample_env"]) simp

lemma limited_cycle: "at_trace (snd (cycle limited_env (sample_at sample_anchored p False t []))) = [SentPrepare 5 True]"
proof (rule sample_cycle_of [OF limited_env_like, where l = True])
  fix t
  have id: "db_note_id sample_burn = 5" by (simp add: db_note_id_def sample_burn_def sample_note_def)
  have "en_prepare limited_env t b f = Inl (RateLimited None None)" for t b f by (simp add: limited_env_def)
  then show "\<exists>r s k. withdraw limited_env sample_burn (sample_at sample_store_deep (Some 17) False t []) =
      (r, sample_at s (Some 17) True k [SentPrepare 5 True]) \<and>
      (\<forall>err. r = Inl err \<longrightarrow> is_fatal err \<or> True \<and> burn_hold err = (None, None) \<and> prepare_refusal err = None)"
    using sample_fee
    by (auto simp: withdraw_def bind_run_def prepare_withdrawal_def limited_reply_def sample_like_fields [OF limited_env_like] id) blast
qed

text \<open>The run from its start, and a node that cannot be read while a saved request is recovered.\<close>

lemma sample_like_codec: "sample_like e \<Longrightarrow> chain_codec e"
  using sample_chain_codec by (auto simp: sample_like_def chain_codec_def)

lemma sample_started: "start sample_env sample_start_env = Inr (sample_at sample_anchored None False 2 [])"
  using sample_start by (simp add: sample_state_def sample_at_def sample_anchored_def)

lemma sample_run_trace: "at_trace (snd (service_run sample_env 1 (sample_at sample_anchored None False 2 []))) = sample_said"
proof -
  obtain r b where b: "cycle sample_env (sample_at sample_anchored None False 4 []) = (r, b)" by fastforce
  have "at_trace b = sample_said" using sample_cycle [of None 4] b by simp
  moreover have "at_trace (snd (record_progress sample_env b)) = at_trace b"
    using record_progress_unsaid by (simp add: moves_def unsaid_def)
  moreover have "at_trace (tick c) = at_trace c" for c by (simp add: tick_def)
  moreover have "cg_admin sample_config = None" by (simp add: sample_config_def)
  ultimately show ?thesis
    using b by (auto simp: service_run_def sample_like_calls [OF sample_env_like] Let_def split: option.split)
qed

definition blind_env :: env where
  "blind_env = sample_env\<lparr>en_scan_limits := (\<lambda>_. None)\<rparr>"

lemma blind_env_codec: "chain_codec blind_env"
  using sample_chain_codec by (simp add: chain_codec_def blind_env_def)

lemma blind_calls:
  "admin_checkpoint blind_env (sample_at s p l t tr) = sample_at s p l (Suc t) tr"
  "sql_read blind_env q (sample_at s p l t tr) = (q s, sample_at s p l (Suc t) tr)"
  "sql_write blind_env w (sample_at s p l t tr) =
      (case w s of Inl err \<Rightarrow> (Inl err, sample_at s p l (Suc t) tr) | Inr s' \<Rightarrow> (Inr (), sample_at s' p l (Suc t) tr))"
  by (auto simp: admin_checkpoint_def sql_read_def sql_write_def sql_def and_then_def sample_at_def tick_def blind_env_def
      split: sum.split)

lemma sample_store3_bound: "store_bound sample_env sample_store3"
  using sample_run by (intro store_steps_bound)
    (simp add: sample_store0_def sample_anchor_def config_anchor_def sample_config_def)

lemma blind_discovery:
  "\<exists>k. discover_burns blind_env (sample_at sample_store3 p l t tr) = (Inl Chain, sample_at sample_store3 None l k tr)"
proof -
  have "en_scan_limits blind_env k = None" for k by (simp add: blind_env_def)
  then show ?thesis
    by (intro exI [of _ "Suc (Suc t)"])
      (simp add: discover_burns_def then_run_def bind_run_def map_err_def checkpoint_def blind_calls read_scan_limits_def
        ok_or_def sample_store3_def sample_store2_def)
qed

lemma sample_recovers:
  "submissions_to_recover sample_ext sample_store3 = Inr [sample_saved]" "submissions_to_poll sample_ext sample_store3 = Inr []"
  "first_limit_wait sample_store3 = None" "submission_of sample_store3 (sv_note_id sample_saved) = Some sample_saved"
proof -
  have "load_submission sample_ext sample_store3 sample_saved = Inr sample_saved"
    using sample_validates by (simp add: load_submission_def consumed_def sample_store_defs) (simp add: sample_saved_def)
  then show "submissions_to_recover sample_ext sample_store3 = Inr [sample_saved]"
    by (simp add: submissions_to_recover_def select_submissions_def) (simp add: sample_store3_def sample_saved_def)
  show "submissions_to_poll sample_ext sample_store3 = Inr []"
    by (simp add: submissions_to_poll_def select_submissions_def) (simp add: sample_store3_def sample_saved_def)
qed (simp_all add: first_limit_wait_def submission_of_def lookup_by_def sample_store_defs)

lemma blind_cycle:
  "at_trace (snd (cycle blind_env (sample_at sample_store3 None False 0 []))) = [SentPost sample_saved (Some sample_saved) False]"
proof -
  obtain k where d: "discover_burns blind_env (sample_at sample_store3 None False 0 []) =
      (Inl Chain, sample_at sample_store3 None False k [])" using blind_discovery by blast
  have f: "en_ext blind_env = sample_ext" "en_config blind_env = sample_config"
    "\<And>t q. en_post blind_env t q = Inr \<lparr>rr_status = 201, rr_body = [1]\<rparr>" by (simp_all add: blind_env_def)
  have limit: "\<exists>policy. cg_withdrawal_limit sample_config = Some policy" by (simp add: sample_config_def)
  have nolimit: "\<not> is_withdrawal_limit sample_ext 201 [1] m" for m by (simp add: is_withdrawal_limit_def)
  have id: "sv_withdrawal_id sample_saved = None" by (simp add: sample_saved_def)
  let ?sent = "got_reply \<lparr>rr_status = 201, rr_body = [1]\<rparr> sample_saved"
  have sent: "sv_withdrawal_id ?sent = None" by (simp add: got_reply_def id)
  let ?done = "update_submission_outcome sample_ext (snd (read_response sample_ext \<lparr>rr_status = 201, rr_body = [1]\<rparr> ?sent)) sample_store3"
  show ?thesis
    using d limit
    by (cases ?done) (auto simp: cycle_def bind_run_def store_stop_def map_err_def snapshot_submissions_def blind_calls f
        sample_recovers then_run_def limit_allows_def advance_submission_def send_saved_request_def call_circle_def id
        read_sent_def sent limited_reply_def wait_for_withdrawal_limit_def nolimit finish_submission_def save_outcome_def)
qed

end
