(* ===== verification/Attester_Trace.thy ===== *)
theory Attester_Trace
  imports Attester_Sample
begin

text \<open>
  What an attester says to Circle and in which order: every request it posts is already saved, a
  429 silences it for the rest of the cycle, and nothing new is prepared without a successful scan.
\<close>

section \<open>Conversations\<close>

fun to_circle :: "action \<Rightarrow> bool" where
  "to_circle (SentPrepare _ _) = True"
| "to_circle (SentPost _ _ _) = True"
| "to_circle (SentGet _ _ _) = True"
| "to_circle _ = False"

fun limited :: "action \<Rightarrow> bool" where
  "limited (SentPrepare _ l) = l"
| "limited (SentPost _ _ l) = l"
| "limited (SentGet _ _ l) = l"
| "limited _ = False"

text \<open>Nothing is sent once a reply was a 429; the flag says whether one already was.\<close>

fun quiet :: "bool \<Rightarrow> action list \<Rightarrow> bool" where
  "quiet l [] = True"
| "quiet l (x # xs) \<longleftrightarrow> (to_circle x \<longrightarrow> \<not> l) \<and> quiet (l \<or> limited x) xs"

lemma quiet_append: "quiet l (xs @ ys) \<longleftrightarrow> quiet l xs \<and> quiet (l \<or> (\<exists>x \<in> set xs. limited x)) ys"
  by (induction xs arbitrary: l) (auto simp: ac_simps)

lemma quiet_True: "quiet True xs \<Longrightarrow> x \<in> set xs \<Longrightarrow> \<not> to_circle x"
  by (induction xs) auto

text \<open>The order on states: the trace grows by actions that satisfy \<open>P\<close> and keep quiet after a 429.\<close>

definition speaks :: "(action \<Rightarrow> bool) \<Rightarrow> attester \<Rightarrow> attester \<Rightarrow> bool" where
  "speaks P a b \<longleftrightarrow> (\<exists>acts. at_trace b = at_trace a @ acts \<and> (\<forall>x \<in> set acts. P x) \<and>
     quiet (at_rate_limited a) acts \<and> at_rate_limited b = (at_rate_limited a \<or> (\<exists>x \<in> set acts. limited x)))"

interpretation talk: run_order "speaks P" for P
proof
  show "speaks P a a" for a by (simp add: speaks_def)
  fix a b c assume "speaks P a b" "speaks P b c"
  then obtain xs ys where "at_trace b = at_trace a @ xs" "\<forall>x \<in> set xs. P x" "quiet (at_rate_limited a) xs"
      "at_rate_limited b = (at_rate_limited a \<or> (\<exists>x \<in> set xs. limited x))"
      "at_trace c = at_trace b @ ys" "\<forall>x \<in> set ys. P x" "quiet (at_rate_limited b) ys"
      "at_rate_limited c = (at_rate_limited b \<or> (\<exists>x \<in> set ys. limited x))"
    unfolding speaks_def by blast
  then show "speaks P a c" unfolding speaks_def by (intro exI [of _ "xs @ ys"]) (auto simp: quiet_append)
qed

text \<open>Calls that say nothing.\<close>

definition mute :: "attester \<Rightarrow> attester \<Rightarrow> bool" where
  "mute a b \<longleftrightarrow> at_trace b = at_trace a \<and> at_rate_limited b = at_rate_limited a"

interpretation hush: run_order mute
  by unfold_locales (auto simp: mute_def)

lemma mute_speaks: "mute a b \<Longrightarrow> speaks P a b"
  by (simp add: mute_def speaks_def)

lemma moves_Pair [simp]: "moves mute (Pair v)" "moves (speaks P) (Pair v)"
  by (simp_all add: moves_def hush.order_refl talk.order_refl)

lemma moves_mute: "moves mute m \<Longrightarrow> moves (speaks P) m"
  by (auto simp: moves_def intro: mute_speaks)

lemma mute_frame [simp]: "mute a (tick a)" "mute a (set_tip t a)" "mute a (a\<lparr>at_admin := v\<rparr>)"
  by (simp_all add: mute_def tick_def set_tip_def)

lemma sql_mute: "moves mute (sql e op)"
  by (auto simp: moves_def mute_def sql_def tick_def split: sum.split prod.split)

lemma sql_read_mute: "moves mute (sql_read e q)"
  unfolding sql_read_def by (rule sql_mute)

lemma sql_write_mute: "moves mute (sql_write e w)"
  unfolding sql_write_def by (rule sql_mute)

lemma read_clock_mute: "moves mute (read_clock e)"
  by (simp add: moves_def read_clock_def)

lemmas mute_intros = hush.moves_bind hush.moves_ret hush.moves_map_err sql_read_mute sql_write_mute read_clock_mute

lemma limit_allows_mute: "moves mute (limit_allows e n)"
  unfolding limit_allows_def
  by (intro mute_intros) (auto intro!: mute_intros split: option.split sum.split)

lemma wait_for_withdrawal_limit_mute: "moves mute (wait_for_withdrawal_limit e n st body sub)"
  unfolding wait_for_withdrawal_limit_def by (auto intro!: mute_intros split: option.split sum.split)

lemma save_outcome_mute: "moves mute (save_outcome e saved)"
  unfolding save_outcome_def by (intro mute_intros)

lemma finish_submission_mute: "moves mute (finish_submission e r)"
  unfolding finish_submission_def by (auto intro: save_outcome_mute split: prod.split)

lemma hold_failed_burn_mute: "moves mute (hold_failed_burn e n err)"
  unfolding hold_failed_burn_def by (auto intro!: mute_intros split: prod.split option.split)

lemma sign_withdrawal_mute: "moves mute (sign_withdrawal e v)"
  by (simp add: moves_def sign_withdrawal_def)

section \<open>Admin answers and discovery\<close>

definition answers :: "(action \<Rightarrow> bool) \<Rightarrow> bool" where
  "answers P \<longleftrightarrow> (\<forall>r. P (AnsweredList r)) \<and> (\<forall>r. P (AnsweredRelease r))"

lemma note_action_speaks:
  assumes "mute a b" and "P x" and "\<not> to_circle x"
  shows "speaks P a (note_action x b)"
proof -
  have "\<not> limited x" using assms(3) by (cases x) auto
  then show ?thesis using assms by (auto simp: speaks_def mute_def note_action_def intro!: exI [of _ "[x]"])
qed

lemma handle_admin_speaks:
  assumes "answers P"
  shows "speaks P a (handle_admin e c a)"
proof (cases "en_cancelled e (at_tick a) \<or> cm_abandoned c")
  case True
  then show ?thesis by (auto simp: handle_admin_def intro: mute_speaks)
next
  case False
  show ?thesis
  proof (cases "cm_operation c")
    case (ListHolds after)
    obtain r b where r: "sql_read e (\<lambda>s. holds_page (en_ext e) s after) (tick a) = (r, b)" by fastforce
    have "mute (tick a) (snd (sql_read e (\<lambda>s. holds_page (en_ext e) s after) (tick a)))"
      by (rule sql_read_mute [unfolded moves_def, rule_format])
    then have "mute (tick a) b" by (simp only: r snd_conv)
    then have "mute a b" by (simp add: mute_def tick_def)
    then show ?thesis using False ListHolds r assms
      by (cases r) (simp_all add: handle_admin_def answers_def note_action_speaks)
  next
    case (Release sel)
    obtain r b where r: "sql_release e sel (tick a) = (r, b)" by fastforce
    then have "mute a b" by (auto simp: sql_release_def mute_def tick_def split: if_splits sum.splits)
    then show ?thesis using False Release r assms by (simp add: handle_admin_def answers_def note_action_speaks)
  qed
qed

lemma speaks_tick: "speaks P (tick a) b \<longleftrightarrow> speaks P a b"
  by (simp add: speaks_def tick_def)

lemma admin_commands_speaks: "answers P \<Longrightarrow> speaks P a (admin_commands e k a)"
proof (induction k arbitrary: a)
  case (Suc k)
  have "speaks P a (admin_commands e k (handle_admin e c (tick a)))" for c
    using talk.order_trans [OF handle_admin_speaks [OF Suc.prems] Suc.IH [OF Suc.prems]] speaks_tick by blast
  moreover have "mute a ((tick a)\<lparr>at_admin := False\<rparr>)" by (simp add: mute_def tick_def)
  ultimately show ?case by (auto split: inbox.split intro: mute_speaks)
qed (simp add: talk.order_refl)

lemma admin_checkpoint_speaks: "answers P \<Longrightarrow> speaks P a (admin_checkpoint e a)"
  using admin_commands_speaks [of P "tick a"] by (auto simp: admin_checkpoint_def speaks_tick intro: mute_speaks)

lemma then_run_speaks:
  "(\<And>a. speaks P a (f a)) \<Longrightarrow> moves (speaks P) m \<Longrightarrow> moves (speaks P) (then_run f m)"
  unfolding then_run_def [abs_def] by (rule talk.moves_after)

lemma find_candidates_mute: "moves mute (find_candidates e num outs)"
proof (induction e num outs rule: find_candidates.induct)
  case (3 e num n rest)
  then show ?case by (auto intro!: mute_intros split: sum.split)
qed (auto intro: mute_intros)

lemma find_consumed_mute: "moves mute (find_consumed e num nfs)"
  by (induction nfs) (auto intro!: mute_intros)

lemma save_block_mute: "moves mute (save_block e block)"
  unfolding save_block_def find_burns_in_block_def Let_def
  by (intro mute_intros find_candidates_mute find_consumed_mute) (auto intro!: mute_intros find_consumed_mute split: prod.split)

lemma block_by_number_mute: "moves mute (block_by_number e k)"
  by (simp add: moves_def block_by_number_def)

lemma fetch_and_verify_block_mute: "moves mute (fetch_and_verify_block e k h)"
  unfolding fetch_and_verify_block_def by (intro hush.moves_bind block_by_number_mute) (auto intro: hush.moves_ret)

lemma check_checkpoint_mute: "moves mute (check_checkpoint e h)"
  unfolding check_checkpoint_def by (intro hush.moves_bind block_by_number_mute) (auto intro: hush.moves_ret)

lemma scan_blocks_speaks: "answers P \<Longrightarrow> moves (speaks P) (scan_blocks e nums h)"
proof (induction nums arbitrary: h)
  case (Cons n nums)
  have "moves (speaks P) (bind_run (fetch_and_verify_block e n h) (\<lambda>block.
      bind_run (save_block e block) (\<lambda>_. scan_blocks e nums (bk_header block))))"
    using Cons by (intro talk.moves_bind moves_mute [OF fetch_and_verify_block_mute] moves_mute [OF save_block_mute])
  then show ?case
    unfolding scan_blocks.simps using admin_checkpoint_speaks [OF Cons.prems] by (intro then_run_speaks)
qed (auto intro: talk.moves_ret)

lemma discover_burns_speaks:
  assumes "answers P"
  shows "moves (speaks P) (discover_burns e)"
proof -
  have limits: "moves mute (read_scan_limits e)" by (simp add: moves_def read_scan_limits_def)
  have cp: "moves mute (map_err DiscoverStore (checkpoint e))" unfolding checkpoint_def by (intro mute_intros)
  have tip: "\<And>t a. speaks P a (set_tip t a)" by (auto intro: mute_speaks)
  show ?thesis
    unfolding discover_burns_def Let_def
    by (intro then_run_speaks tip talk.moves_bind moves_mute [OF cp] moves_mute [OF limits])
      (auto intro!: talk.moves_bind talk.moves_ret moves_mute [OF check_checkpoint_mute] scan_blocks_speaks assms)
qed

section \<open>Requests\<close>

text \<open>A request that would be posted is the live one the store holds for its note.\<close>

definition recorded :: "store \<Rightarrow> saved_submission \<Rightarrow> bool" where
  "recorded s q \<longleftrightarrow> (sv_withdrawal_id q = None \<longrightarrow> submission_of s (sv_note_id q) = Some q \<and> sv_status q \<noteq> Held)"

definition fair :: "(action \<Rightarrow> bool) \<Rightarrow> bool" where
  "fair P \<longleftrightarrow> answers P \<and> (\<forall>q i l. P (SentGet q i l)) \<and> (\<forall>q l. P (SentPost q (Some q) l))"

lemma fairD: "fair P \<Longrightarrow> answers P" "fair P \<Longrightarrow> P (SentGet q i l)" "fair P \<Longrightarrow> P (SentPost q (Some q) l)"
  by (simp_all add: fair_def)

lemma send_saved_request_speaks:
  assumes "fair P" and "\<not> at_rate_limited a" and "recorded (at_store a) saved"
  shows "speaks P a (snd (send_saved_request e saved a))"
proof (cases "sv_withdrawal_id saved")
  case None
  then show ?thesis
    using assms by (simp add: send_saved_request_def call_circle_def speaks_def note_action_def mark_limited_def tick_def
        recorded_def fairD Let_def)
next
  case (Some i)
  then show ?thesis
    using assms by (simp add: send_saved_request_def call_circle_def speaks_def note_action_def mark_limited_def tick_def
        fairD Let_def)
qed

lemma conflict_not_limited:
  assumes "send_saved_request e saved a = ((Inr r, sent), b)" and "rr_status r = HTTP_CONFLICT" and "\<not> at_rate_limited a"
  shows "\<not> at_rate_limited b"
proof -
  obtain result c where c: "call_circle e saved a = (result, c)" by fastforce
  have "\<not> at_rate_limited c"
    using c assms(3) by (auto simp: call_circle_def Let_def note_action_def tick_def split: option.splits)
  moreover have "\<not> limited_reply result"
  proof
    assume "limited_reply result"
    then obtain body w where "result = Inl (RateLimited body w)"
      by (auto simp: limited_reply_def split: sum.splits elim: is_rate_limited.elims)
    then show False using c assms(1,2)
      by (cases body) (auto simp: send_saved_request_def read_sent_def Let_def)
  qed
  ultimately show ?thesis using c assms(1) by (auto simp: send_saved_request_def mark_limited_def)
qed

lemma speaks_then:
  assumes "speaks P a (snd (m a))" and "\<And>v b. m a = (Inr v, b) \<Longrightarrow> speaks P b (snd (f v b))"
  shows "speaks P a (snd (bind_run m f a))"
  using assms talk.order_trans by (cases "m a") (auto simp: bind_run_def split: sum.split)

lemma resolve_conflict_speaks:
  assumes "fair P" and "\<not> at_rate_limited a"
  shows "speaks P a (snd (resolve_conflict e saved a))"
proof (cases "read_conflict (en_ext e) saved")
  case (Pair f saved')
  have save: "mute a (snd (save_outcome e saved' a))" using save_outcome_mute by (simp add: moves_def)
  show ?thesis
  proof (cases f)
    case (Some err)
    then show ?thesis using Pair save by (simp add: resolve_conflict_def mute_speaks)
  next
    case None
    have known: "sv_withdrawal_id saved' \<noteq> None"
      using Pair None by (auto simp: read_conflict_def no_conflict_id_def Let_def split: option.splits if_splits)
    show ?thesis unfolding resolve_conflict_def Pair None prod.case option.case
    proof (rule speaks_then)
      show "speaks P a (snd (save_outcome e saved' a))" using save by (rule mute_speaks)
      fix v b assume "save_outcome e saved' a = (Inr v, b)"
      then have "\<not> at_rate_limited b" using save assms(2) by (simp add: mute_def)
      then have sent: "speaks P b (snd (send_saved_request e saved' b))"
        using assms(1) known by (intro send_saved_request_speaks) (auto simp: recorded_def)
      obtain r c where r: "send_saved_request e saved' b = (r, c)" by fastforce
      have "speaks P c (snd (finish_submission e r c))"
        using moves_mute [OF finish_submission_mute] by (simp add: moves_def)
      then show "speaks P b (snd (case send_saved_request e saved' b of (r, b) \<Rightarrow> finish_submission e r b))"
        using sent r talk.order_trans by fastforce
    qed
  qed
qed

lemma advance_submission_speaks:
  assumes "fair P" and "recorded (at_store a) saved"
  shows "speaks P a (snd (advance_submission e attempt saved a))"
proof (cases "at_rate_limited a")
  case False
  obtain response sent b where r: "send_saved_request e saved a = ((response, sent), b)" by (metis prod.exhaust)
  have ab: "speaks P a b" using send_saved_request_speaks [OF assms(1) False assms(2), of e] r by simp
  let ?wait = "case response of Inr r \<Rightarrow> if sv_withdrawal_id sent = None
                 then wait_for_withdrawal_limit e (sv_note_id sent) (rr_status r) (rr_body r) (Some (sent, attempt))
                 else ret False | Inl _ \<Rightarrow> ret False"
  have wait: "moves mute ?wait"
    using wait_for_withdrawal_limit_mute hush.moves_ret(1) by (auto split: sum.split)
  let ?after = "\<lambda>waits. if waits then ret () else if sv_withdrawal_id sent = None \<and>
        (case response of Inr r \<Rightarrow> rr_status r = HTTP_CONFLICT | Inl _ \<Rightarrow> False)
      then resolve_conflict e sent else finish_submission e (response, sent)"
  have "speaks P b (snd (bind_run ?wait ?after b))"
  proof (rule speaks_then)
    show "speaks P b (snd (?wait b))" using moves_mute [OF wait] by (simp add: moves_def)
    fix v c assume w: "?wait b = (Inr v, c)"
    have "mute b (snd (?wait b))" using wait unfolding moves_def by blast
    then have "mute b c" unfolding w by simp
    show "speaks P c (snd (?after v c))"
    proof (cases "sv_withdrawal_id sent = None \<and> (case response of Inr r \<Rightarrow> rr_status r = HTTP_CONFLICT | Inl _ \<Rightarrow> False)")
      case True
      then obtain q where "response = Inr q" "rr_status q = HTTP_CONFLICT" by (auto split: sum.splits)
      then have "\<not> at_rate_limited b" using conflict_not_limited [of e saved a q sent b] r False by simp
      then have "\<not> at_rate_limited c" using \<open>mute b c\<close> by (simp add: mute_def)
      from resolve_conflict_speaks [OF assms(1) this, of e sent] show ?thesis
        using True by (cases v) (simp_all add: talk.order_refl)
    next
      case other: False
      have "speaks P c (snd (finish_submission e (response, sent) c))"
        using moves_mute [OF finish_submission_mute] unfolding moves_def by blast
      then show ?thesis using other by (cases v) (simp_all only: talk.order_refl if_True if_False simp_thms ret_def snd_conv)
    qed
  qed
  from talk.order_trans [OF ab this] show ?thesis using r False by (simp add: advance_submission_def)
qed (simp add: advance_submission_def talk.order_refl)

definition recorded_all :: "store \<Rightarrow> saved_submission list \<Rightarrow> bool" where
  "recorded_all s qs \<longleftrightarrow> distinct (map sv_note_id qs) \<and> (\<forall>q \<in> set qs. recorded s q)"

lemma recorded_all_kept:
  assumes "evolves e N s t" and "store_bound e s" and "recorded_all s qs" and "N \<inter> sv_note_id ` set qs = {}"
  shows "recorded_all t qs"
  using assms by (fastforce simp: evolves_def recorded_all_def recorded_def row_kept_def)

lemma advance_submissions_speaks:
  assumes "fair P" and "store_bound e (at_store a)" and "recorded_all (at_store a) qs"
  shows "speaks P a (snd (advance_submissions e qs a))"
  using assms(2,3)
proof (induction qs arbitrary: a)
  case (Cons q qs)
  let ?n = "sv_note_id q"
  define a1 where "a1 = admin_checkpoint e a"
  let ?lim = "if sv_withdrawal_id q = None then map_err StoreError (limit_allows e ?n) else ret True"
  define a2 where "a2 = snd (?lim a1)"
  define a3 where "a3 = snd (advance_submission e Recovery q a2)"
  have e1: "at_evolves e {} a a1" and s1: "speaks P a a1"
    by (simp_all add: a1_def admin_checkpoint_evolves admin_checkpoint_speaks fairD assms(1))
  have "at_evolves e {} a1 a2" and m2: "mute a1 a2"
    using limit_allows_evolves [of e ?n] limit_allows_mute [of e ?n]
    by (simp_all add: a2_def moves_def evo.order_refl hush.order_refl)
  with e1 have e2: "at_evolves e {} a a2" using evo.order_trans by blast
  have s2: "speaks P a a2" using talk.order_trans [OF s1 mute_speaks [OF m2]] .
  have b2: "store_bound e (at_store a2)" and r2: "recorded_all (at_store a2) (q # qs)"
    using e2 Cons.prems evolves_bound recorded_all_kept [of e "{}" "at_store a" "at_store a2" "q # qs"]
    by (auto simp: at_evolves_def)
  have e3: "at_evolves e {?n} a2 a3" using advance_submission_evolves by (simp add: a3_def moves_def)
  have "speaks P a2 a3" unfolding a3_def
    using r2 by (intro advance_submission_speaks [OF assms(1)]) (simp add: recorded_all_def)
  with s2 have s3: "speaks P a a3" using talk.order_trans by blast
  have b3: "store_bound e (at_store a3)" using e3 b2 evolves_bound by (auto simp: at_evolves_def)
  have r3: "recorded_all (at_store a3) qs"
    using recorded_all_kept [of e "{?n}" "at_store a2" "at_store a3" qs] e3 b2 r2
    by (auto simp: at_evolves_def recorded_all_def)
  have r2': "recorded_all (at_store a2) qs" using r2 by (simp add: recorded_all_def)
  have "snd (advance_submissions e (q # qs) a) \<in>
      {a1, a2, a3, snd (advance_submissions e qs a2), snd (advance_submissions e qs a3)}"
    unfolding a3_def a2_def a1_def
    by (cases "sv_withdrawal_id q = None") (auto simp: then_run_def snd_bind_run split: sum.split)
  then show ?case
    using s1 s2 s3 talk.order_trans [OF s2 Cons.IH [OF b2 r2']] talk.order_trans [OF s3 Cons.IH [OF b3 r3]]
    by (elim insertE emptyE) (simp_all only:)
qed (simp add: talk.order_refl)

section \<open>Withdrawals\<close>

lemma submission_fresh: "submission x w endpoint = Some saved \<Longrightarrow> fresh_row saved = saved"
  by (auto simp: submission_def fresh_row_def)

lemma submit_signed_speaks:
  assumes "fair P" and "keys_ok (at_store a)"
  shows "speaks P a (snd (submit_signed_withdrawal e w a))"
proof (cases "submission_endpoint (en_ext e) (cg_circle_api_base_url (en_config e))")
  case (Inl err)
  then show ?thesis by (simp add: submit_signed_withdrawal_def talk.order_refl)
next
  case (Inr endpoint)
  show ?thesis
  proof (cases "submission (en_ext e) w endpoint")
    case None
    then show ?thesis using Inr by (simp add: submit_signed_withdrawal_def talk.order_refl)
  next
    case (Some saved)
    let ?read = "map_err StoreError (sql_read e (\<lambda>s. saved_submission_for (en_ext e) s (sv_note_id saved)))"
    let ?save = "map_err StoreError (sql_write e (save_submission (en_ext e) saved))"
    have "speaks P a (snd (bind_run ?read (\<lambda>_. bind_run ?save (\<lambda>_. advance_submission e First saved)) a))"
    proof (intro speaks_then)
      show "speaks P a (snd (?read a))" using moves_mute [OF sql_read_mute] unfolding moves_def snd_map_err by blast
      fix v b assume b: "?read a = (Inr v, b)"
      show "speaks P b (snd (?save b))" using moves_mute [OF sql_write_mute] unfolding moves_def snd_map_err by blast
      fix u c assume c: "?save b = (Inr u, c)"
      have "at_store b = at_store a" using b snd_map_err sql_read_store by (metis snd_conv)
      moreover have "save_submission (en_ext e) saved (at_store b) = Inr (at_store c)"
        using c by (auto simp: map_err_def sql_write_def sql_def and_then_Inr_iff split: if_splits sum.splits prod.splits)
      ultimately have "submission_of (at_store c) (sv_note_id saved) = Some saved"
        using save_submission_effect(5) [of "en_ext e" saved "at_store a" "at_store c"] assms(2) submission_fresh [OF Some] by simp
      then have "recorded (at_store c) saved" using submission_fields [OF Some] by (simp add: recorded_def)
      then show "speaks P c (snd (advance_submission e First saved c))" using advance_submission_speaks [OF assms(1)] by blast
    qed
    then show ?thesis using Inr Some by (simp add: submit_signed_withdrawal_def)
  qed
qed

lemma withdraw_speaks:
  assumes "fair P" and "\<And>l. P (SentPrepare (db_note_id burn) l)" and "keys_ok (at_store a)" and "\<not> at_rate_limited a"
  shows "speaks P a (snd (withdraw e burn a))"
proof (cases "forwarding_max_fee (en_config e) (dest_domain (db_items burn))")
  case (Some fee)
  have prep: "speaks P a (snd (prepare_withdrawal e burn fee a))"
    using assms(2,4) by (simp add: prepare_withdrawal_def speaks_def note_action_def mark_limited_def tick_def Let_def)
  have st: "at_store (snd (prepare_withdrawal e burn fee a)) = at_store a" by (simp add: prepare_withdrawal_def Let_def)
  show ?thesis unfolding withdraw_def Some option.case
  proof (rule speaks_then)
    show "speaks P a (snd (prepare_withdrawal e burn fee a))" by (rule prep)
    fix p b assume b: "prepare_withdrawal e burn fee a = (Inr p, b)"
    show "speaks P b (snd ((case verify (en_ext e) (en_config e) burn p of Inl err \<Rightarrow> raise (Verification err)
        | Inr v \<Rightarrow> bind_run (sign_withdrawal e v) (submit_signed_withdrawal e)) b))"
    proof (cases "verify (en_ext e) (en_config e) burn p")
      case (Inr v)
      have "speaks P b (snd (bind_run (sign_withdrawal e v) (submit_signed_withdrawal e) b))"
      proof (rule speaks_then)
        show "speaks P b (snd (sign_withdrawal e v b))" using moves_mute [OF sign_withdrawal_mute] unfolding moves_def by blast
        fix w c assume "sign_withdrawal e v b = (Inr w, c)"
        then have "at_store c = at_store a" using st b by (auto simp: sign_withdrawal_def)
        then show "speaks P c (snd (submit_signed_withdrawal e w c))" using submit_signed_speaks assms(1,3) by simp
      qed
      then show ?thesis using Inr by simp
    qed (simp add: talk.order_refl)
  qed
qed (simp add: withdraw_def talk.order_refl)

lemma attempt_withdrawal_speaks:
  assumes "fair P" and "\<And>l. P (SentPrepare (db_note_id burn) l)" and "keys_ok (at_store a)" and "\<not> at_rate_limited a"
  shows "speaks P a (snd (attempt_withdrawal e burn a))"
proof -
  obtain r b where r: "withdraw e burn a = (r, b)" by fastforce
  have ab: "speaks P a b" using withdraw_speaks [OF assms, of e] r by simp
  have "moves mute (bind_run (case prepare_refusal err of Some (status, body) \<Rightarrow> wait_for_withdrawal_limit e n status body None
      | None \<Rightarrow> ret False) (\<lambda>waits. if waits then ret () else hold_failed_burn e n err))" for err n
    by (intro hush.moves_bind)
      (auto intro: wait_for_withdrawal_limit_mute hush.moves_ret hold_failed_burn_mute split: option.split)
  then have tail: "speaks P b (snd (bind_run (case prepare_refusal err of Some (status, body) \<Rightarrow> wait_for_withdrawal_limit e n status body None
      | None \<Rightarrow> ret False) (\<lambda>waits. if waits then ret () else hold_failed_burn e n err) b))" for err n
    using moves_mute unfolding moves_def by blast
  show ?thesis
    using talk.order_trans [OF ab tail] ab r by (cases r) (simp_all add: attempt_withdrawal_def)
qed

lemma submit_withdrawals_speaks:
  assumes "fair P" and "\<forall>b \<in> set bs. \<forall>l. P (SentPrepare (db_note_id b) l)"
    and "store_bound e (at_store a)" and "withdrawable_burns (at_store a) bs"
  shows "speaks P a (snd (submit_withdrawals e bs first a))"
  using assms(2,3,4)
proof (induction bs arbitrary: a first)
  case (Cons b bs)
  let ?n = "db_note_id b"
  define a1 where "a1 = admin_checkpoint e a"
  define a2 where "a2 = snd (limit_allows e ?n a1)"
  define a3 where "a3 = snd (attempt_withdrawal e b a2)"
  have e1: "at_evolves e {} a a1" and s1: "speaks P a a1"
    by (simp_all add: a1_def admin_checkpoint_evolves admin_checkpoint_speaks fairD assms(1))
  have "at_evolves e {} a1 a2" and m2: "mute a1 a2"
    using limit_allows_evolves [of e ?n] limit_allows_mute [of e ?n] by (simp_all add: a2_def moves_def)
  with e1 have e2: "at_evolves e {} a a2" using evo.order_trans by blast
  have s2: "speaks P a a2" using talk.order_trans [OF s1 mute_speaks [OF m2]] .
  have b2: "store_bound e (at_store a2)" and w2: "withdrawable_burns (at_store a2) (b # bs)"
    using e2 Cons.prems(2,3) evolves_bound withdrawable_burns_kept [of e "{}" "at_store a" "at_store a2" "b # bs"]
    by (auto simp: at_evolves_def)
  have e3: "at_evolves e {?n} a2 a3"
    unfolding a3_def using w2 by (intro attempt_withdrawal_evolves) (simp add: withdrawable_burns_def)
  have b3: "store_bound e (at_store a3)" using e3 b2 evolves_bound by (auto simp: at_evolves_def)
  have w3: "withdrawable_burns (at_store a3) bs"
    using withdrawable_burns_kept [of e "{?n}" "at_store a2" "at_store a3" bs] e3 b2 w2
    by (auto simp: at_evolves_def withdrawable_burns_def)
  show ?case
  proof (cases "at_rate_limited a1")
    case True
    then show ?thesis using s1 by (simp add: then_run_def a1_def)
  next
    case False
    then have "speaks P a2 a3" unfolding a3_def
      using m2 store_bound_keys [OF b2] Cons.prems(1) by (intro attempt_withdrawal_speaks assms(1)) (simp_all add: mute_def)
    with s2 have s3: "speaks P a a3" using talk.order_trans by blast
    have "snd (submit_withdrawals e (b # bs) first a) \<in> {a1, a2, a3} \<union> {snd (submit_withdrawals e bs f a3) |f. True}"
      by (auto simp: then_run_def bind_run_def map_err_def a1_def a2_def a3_def split: prod.split sum.split)
    moreover have "\<forall>b \<in> set bs. \<forall>l. P (SentPrepare (db_note_id b) l)" using Cons.prems(1) by simp
    ultimately show ?thesis using s1 s2 s3 talk.order_trans [OF s3 Cons.IH [OF _ b3 w3]] by auto
  qed
qed (simp add: talk.order_refl)

section \<open>The cycle's conversation\<close>

lemma select_submissions_distinct:
  assumes "select_submissions x s n st = Inr qs" and "keys_ok s"
  shows "distinct (map sv_note_id qs)"
proof -
  let ?rows = "sort_key sv_note_id (filter (\<lambda>r. (n = None \<or> n = Some (sv_note_id r)) \<and> (st = None \<or> st = Some (sv_status r))) (st_submissions s))"
  have "list_all2 (\<lambda>r q. load_submission x s r = Inr q) ?rows qs"
    using assms(1) by (simp add: select_submissions_def collect_all_Inr_iff)
  then have "map sv_note_id qs = map sv_note_id ?rows"
    by (induction rule: list_all2_induct) (auto simp: load_submission_def and_then_Inr_iff split: if_splits)
  moreover have "distinct (map sv_note_id ?rows)"
    using distinct_map_filter [OF keys_okD(2) [OF assms(2)]] by (simp add: distinct_map)
  ultimately show ?thesis by simp
qed

lemma to_recover_recorded:
  assumes "submissions_to_recover x s = Inr qs" and "keys_ok s"
  shows "recorded_all s qs"
  using select_submissions_rows [OF assms(1) [unfolded submissions_to_recover_def] assms(2)]
    select_submissions_distinct [OF assms(1) [unfolded submissions_to_recover_def] assms(2)]
  by (auto simp: recorded_all_def recorded_def)

lemma to_poll_known:
  assumes "submissions_to_poll x s = Inr qs" and "keys_ok s"
  shows "\<forall>q \<in> set qs. sv_withdrawal_id q \<noteq> None" and "distinct (map sv_note_id qs)"
proof -
  show "distinct (map sv_note_id qs)"
    using assms select_submissions_distinct by (simp add: submissions_to_poll_def)
  show "\<forall>q \<in> set qs. sv_withdrawal_id q \<noteq> None"
  proof
    fix q assume "q \<in> set qs"
    then have "sv_status q = Submitted" "load_submission x s q = Inr q"
      using select_submissions_rows [OF assms(1) [unfolded submissions_to_poll_def] assms(2)] by auto
    then show "sv_withdrawal_id q \<noteq> None"
      by (auto simp: load_submission_def and_then_Inr_iff validate_submission_Inr validate_outcome_Inr split: if_splits)
  qed
qed

lemma cycle_speaks:
  assumes "fair P" and bound: "store_bound e (at_store a)" and codec: "chain_codec e"
    and prepares: "\<And>lag b bs. discover_burns e a = (Inr lag, b) \<Longrightarrow>
      burns_ready_for_withdrawal (en_ext e) (at_store b) lag (cg_minimum_finality_depth_blocks (en_config e)) = Inr bs \<Longrightarrow>
      \<forall>x \<in> set bs. \<forall>l. P (SentPrepare (db_note_id x) l)"
  shows "speaks P a (snd (cycle e a))"
proof -
  obtain r z where z: "cycle e a = (r, z)" by fastforce
  obtain d b where b: "discover_burns e a = (d, b)" by fastforce
  have "speaks P a (snd (discover_burns e a))"
    using discover_burns_speaks [OF fairD(1) [OF assms(1)]] by (simp add: moves_def)
  then have ab: "speaks P a b" using b by simp
  have bb: "store_bound e (at_store b)"
    using discover_burns_chain(1) [OF bound codec b] bound evolves_bound by (auto simp: at_evolves_def)
  show ?thesis
    using z b
  proof (cases rule: cycle_cases)
    case (stopped stop)
    then show ?thesis using z ab by simp
  next
    case (unread err)
    then have "mute b z" by (simp add: unsaid_def mute_def)
    then show ?thesis using z talk.order_trans [OF ab mute_speaks] by simp
  next
    case (worked qs ps bs c c1 c2)
    have c: "at_store c = at_store b" "mute b c" using worked(1) by (simp_all add: unsaid_def mute_def)
    have sc: "speaks P a c" using talk.order_trans [OF ab mute_speaks [OF c(2)]] .
    have bc: "store_bound e (at_store c)" using bb c by simp
    have "speaks P c c1" unfolding worked(5)
      using to_recover_recorded [OF worked(2) store_bound_keys [OF bb]] c
      by (intro advance_submissions_speaks [OF assms(1) bc]) simp
    with sc have s1: "speaks P a c1" using talk.order_trans by blast
    have "at_evolves e (sv_note_id ` set qs) c c1" using advance_submissions_evolves worked(5) by (auto simp: moves_def)
    then have e1: "evolves e (sv_note_id ` set qs) (at_store b) (at_store c1)" using c by (simp add: at_evolves_def)
    have b1: "store_bound e (at_store c1)" using e1 bb evolves_bound by blast
    have w1: "withdrawable_burns (at_store c1) bs" by (rule fresh_burns_withdrawable [OF bb worked(2,4) e1])
    have "\<forall>x \<in> set bs. \<forall>l. P (SentPrepare (db_note_id x) l)" using worked(4) prepares b by auto
    then have s2': "speaks P c1 c2" unfolding worked(6) by (rule submit_withdrawals_speaks [OF assms(1) _ b1 w1])
    with s1 have s2: "speaks P a c2" using talk.order_trans by blast
    have "at_evolves e (db_note_id ` set bs) c1 c2" using submit_withdrawals_evolves [OF b1 w1] worked(6) by simp
    then have b2: "store_bound e (at_store c2)" using b1 evolves_bound by (auto simp: at_evolves_def)
    have "speaks P c2 (snd (advance_submissions e ps c2))"
      using to_poll_known [OF worked(3) store_bound_keys [OF bb]]
      by (intro advance_submissions_speaks [OF assms(1) b2]) (auto simp: recorded_all_def recorded_def)
    with s2 have "speaks P a (snd (advance_submissions e ps c2))" using talk.order_trans by blast
    then show ?thesis using z worked(7) s1 s2 by auto
  qed
qed

text \<open>What a cycle adds to the trace.\<close>

lemma cycle_acts:
  assumes "fair P" and "store_bound e (at_store a)" and "chain_codec e"
    and "\<And>lag b bs. discover_burns e a = (Inr lag, b) \<Longrightarrow>
      burns_ready_for_withdrawal (en_ext e) (at_store b) lag (cg_minimum_finality_depth_blocks (en_config e)) = Inr bs \<Longrightarrow>
      \<forall>x \<in> set bs. \<forall>l. P (SentPrepare (db_note_id x) l)"
    and "at_trace (snd (cycle e a)) = at_trace a @ acts"
  shows "\<forall>x \<in> set acts. P x" and "quiet (at_rate_limited a) acts"
  using cycle_speaks [OF assms(1-4)] assms(5) by (auto simp: speaks_def)

text \<open>Over a whole run: whatever is posted is saved.\<close>

definition post_saved :: "action \<Rightarrow> bool" where
  "post_saved x = (case x of SentPost q row l \<Rightarrow> row = Some q | _ \<Rightarrow> True)"

definition said :: "attester \<Rightarrow> attester \<Rightarrow> bool" where
  "said a b \<longleftrightarrow> (\<exists>acts. at_trace b = at_trace a @ acts \<and> (\<forall>x \<in> set acts. post_saved x))"

lemma said_trans: "said a b \<Longrightarrow> said b c \<Longrightarrow> said a c"
  by (fastforce simp: said_def)

lemma speaks_said: "speaks post_saved a b \<Longrightarrow> said a b"
  by (auto simp: speaks_def said_def)

lemma post_saved_fair: "fair post_saved" "post_saved (SentPrepare n l)"
  by (simp_all add: fair_def answers_def post_saved_def)

interpretation saying: running "\<lambda>a b. at_evolves e UNIV a b \<and> said a b" e "bound_env e" for e
proof
  fix a c
  show "at_evolves e UNIV a (handle_admin e c a) \<and> said a (handle_admin e c a)"
    using stores.commands handle_admin_speaks [OF fairD(1) [OF post_saved_fair(1)]] speaks_said by blast
next
  fix a assume "bound_env e a"
  then show "at_evolves e UNIV a (snd (cycle e a)) \<and> said a (snd (cycle e a))"
    using stores.cycles cycle_speaks [OF post_saved_fair(1), of e a] post_saved_fair(2) speaks_said
    by (auto simp: bound_env_def)
qed (auto simp: stores.silent_step stores.clears evo.order_refl clear_limited_def unsaid_def at_evolves_def
    intro: evolves_trans said_trans bound_env_kept [unfolded at_evolves_def], auto simp: said_def)

section \<open>What the attester promises\<close>

lemma started_bound:
  assumes "start e se = Inr a" and "chain_codec e" and "\<And>s. se_store_file se = Some s \<Longrightarrow> earlier_store e s"
  shows "store_bound e (at_store a)" and "at_trace a = []"
proof -
  have "earlier_store e (at_store a)" using started_run(1) [OF assms, of 0] by (simp add: service_run_def attach_admin_def split: if_splits)
  then show "store_bound e (at_store a)" using store_steps_bound by (simp add: earlier_store_def)
  have "at_trace (snd (save_block e block x)) = at_trace x" "at_trace (snd (check_checkpoint e h x)) = at_trace x" for block h x
    using save_block_mute check_checkpoint_mute by (auto simp: moves_def mute_def)
  moreover obtain block s where "first_checkpoint e block (sample_state s 1) = Inr a"
    using assms(1) unfolding start_def Let_def and_then_Inr_iff sample_state_def by (auto split: sum.splits)
  ultimately show "at_trace a = []"
    by (auto simp: first_checkpoint_def sample_state_def split: option.splits prod.splits sum.splits) (metis attester.select_convs(6) snd_conv)+
qed

text \<open>
  C4: nothing is posted to Circle before it is saved. In every run, from its start and for any
  number of cycles, whatever the environment answers, the store holds, for the note of each signed
  request that is posted, exactly that request at the moment it is sent.
\<close>

theorem posted_only_saved:
  assumes "start e se = Inr a" and "chain_codec e"
    and "\<And>s. se_store_file se = Some s \<Longrightarrow> earlier_store e s"
    and "SentPost q row l \<in> set (at_trace (snd (service_run e fuel a)))"
  shows "row = Some q"
proof -
  note b = started_bound [OF assms(1-3)]
  then have "bound_env e a" "bound_env e (attach_admin a)" using assms(2) by (simp_all add: bound_env_def attach_admin_def)
  then have "said a (snd (service_run e fuel a))"
    using saying.run_kept [of e a fuel] saying.run_kept [of e "attach_admin a" fuel]
    by (auto simp: service_run_def said_def attach_admin_def)
  then have "post_saved (SentPost q row l)" using b(2) assms(4) by (auto simp: said_def)
  then show ?thesis by (simp add: post_saved_def)
qed

theorem posted_only_saved_witness:
  "\<exists>row. SentPost sample_saved row False \<in> set (at_trace (snd (service_run sample_env 1 (sample_at sample_anchored None False 2 [])))) \<and>
     row = Some sample_saved"
proof -
  have m: "SentPost sample_saved (Some sample_saved) False \<in>
      set (at_trace (snd (service_run sample_env 1 (sample_at sample_anchored None False 2 []))))"
    unfolding sample_run_trace by (simp add: sample_said_def)
  have f: "\<And>s. se_store_file sample_start_env = Some s \<Longrightarrow> earlier_store sample_env s" by (simp add: sample_start_env_def)
  show ?thesis using posted_only_saved [OF sample_started sample_chain_codec f m] m by blast
qed

text \<open>
  C30: HTTP 429 silences the attester. Once Circle answers 429 to any request of a cycle, that cycle
  sends nothing more to Circle, neither polls nor recoveries nor new withdrawals.
\<close>

theorem rate_limit_silences:
  assumes "store_bound e (at_store a)" and "chain_codec e"
    and "at_trace (snd (cycle e (clear_limited a))) = at_trace a @ before @ x # after"
    and "limited x"
  shows "\<forall>y \<in> set after. \<not> to_circle y"
proof -
  have "fair (\<lambda>_. True)" by (simp add: fair_def answers_def)
  then have "quiet (at_rate_limited (clear_limited a)) (before @ x # after)"
    by (rule cycle_acts(2)) (use assms in \<open>simp_all add: clear_limited_def\<close>)
  then have "quiet True after" using assms(4) by (simp add: quiet_append)
  then show ?thesis using quiet_True by blast
qed

lemma sample_anchored_bound: "store_bound sample_env sample_anchored"
  using started_bound(1) [OF sample_started sample_chain_codec] by (simp add: sample_start_env_def)

theorem rate_limit_silences_witness:
  "limited (SentPrepare 5 True) \<and>
   at_trace (snd (cycle limited_env (clear_limited (sample_at sample_anchored None True 0 [])))) = [] @ [] @ SentPrepare 5 True # [] \<and>
   filter to_circle [] = []"
proof -
  have b: "store_bound limited_env (at_store (sample_at sample_anchored None True 0 []))"
    using sample_anchored_bound by (simp add: store_bound_def limited_env_def)
  have t: "at_trace (snd (cycle limited_env (clear_limited (sample_at sample_anchored None True 0 [])))) =
      at_trace (sample_at sample_anchored None True 0 []) @ [] @ SentPrepare 5 True # []"
    using limited_cycle [of None 0] by simp
  show ?thesis using rate_limit_silences [OF b sample_like_codec [OF limited_env_like] t] t by auto
qed

text \<open>
  C10: only final burns are prepared. Every burn that a cycle asks Circle to prepare was scanned
  before: discovery succeeded, and in the store that it left the burn was consumed at least the
  configured number of blocks below the verified checkpoint and not after the proof-lag block, is
  not held and has no live request. So a failed scan prepares nothing.
\<close>

theorem prepared_only_final:
  assumes "store_bound e (at_store a)" and "chain_codec e"
    and "at_trace (snd (cycle e a)) = at_trace a @ acts" and "SentPrepare n l \<in> set acts"
  shows "\<exists>lag b r c h. discover_burns e a = (Inr lag, b) \<and> burn_of (at_store b) n = Some r \<and>
     br_consumption_block r = Some c \<and> br_hold_reason r = None \<and> no_live_request (at_store b) n \<and>
     st_checkpoint (at_store b) = Some h \<and> c \<le> lag \<and>
     c + cg_minimum_finality_depth_blocks (en_config e) \<le> hd_block_num h"
proof -
  let ?depth = "cg_minimum_finality_depth_blocks (en_config e)"
  define P where "P = (\<lambda>x. case x of SentPrepare n l \<Rightarrow> \<exists>lag b bs y. discover_burns e a = (Inr lag, b) \<and>
      burns_ready_for_withdrawal (en_ext e) (at_store b) lag ?depth = Inr bs \<and> y \<in> set bs \<and> n = db_note_id y | _ \<Rightarrow> True)"
  have "fair P" by (simp add: fair_def answers_def P_def)
  then have "\<forall>x \<in> set acts. P x" by (rule cycle_acts(1) [OF _ assms(1,2) _ assms(3)]) (auto simp: P_def)
  then have "P (SentPrepare n l)" using assms(4) by blast
  then obtain lag b bs y where d: "discover_burns e a = (Inr lag, b)"
    and ready: "burns_ready_for_withdrawal (en_ext e) (at_store b) lag ?depth = Inr bs" and y: "y \<in> set bs" "n = db_note_id y"
    by (auto simp: P_def)
  have "store_bound e (at_store b)"
    using discover_burns_chain(1) [OF assms(1,2) d] assms(1) evolves_bound by (auto simp: at_evolves_def)
  then have spec: "{(db_note_id b, db_consumption_block b) |b. b \<in> set bs} =
    {(n, c). \<exists>r h. burn_of (at_store b) n = Some r \<and> br_consumption_block r = Some c \<and> br_hold_reason r = None \<and>
       submission_of (at_store b) n \<in> {None} \<union> {Some q |q. sv_status q = Expired} \<and>
       st_checkpoint (at_store b) = Some h \<and> c + ?depth \<le> hd_block_num h \<and> c \<le> lag}"
    using burns_ready_spec [OF _ ready] by (simp add: store_bound_def)
  have "(n, db_consumption_block y) \<in> {(db_note_id b, db_consumption_block b) |b. b \<in> set bs}" using y by blast
  then show ?thesis unfolding spec using d by (auto simp: no_live_request_def)
qed

theorem prepared_only_final_witness:
  "SentPrepare 5 False \<in> set sample_said \<and> (\<exists>lag b. discover_burns sample_env (sample_at sample_anchored None False 0 []) = (Inr lag, b))"
proof -
  have t: "at_trace (snd (cycle sample_env (sample_at sample_anchored None False 0 []))) =
      at_trace (sample_at sample_anchored None False 0 []) @ sample_said" by (simp add: sample_cycle)
  have m: "SentPrepare 5 False \<in> set sample_said" by (simp add: sample_said_def)
  have b: "store_bound sample_env (at_store (sample_at sample_anchored None False 0 []))" using sample_anchored_bound by simp
  show ?thesis using prepared_only_final [OF b sample_chain_codec t m] m by blast
qed

text \<open>
  C28: a chain that cannot be trusted stops all withdrawals. When discovery ends with a divergence
  or a store failure, the cycle sends nothing to Circle at all; when only reading the chain failed,
  it still recovers and polls saved requests but prepares no new withdrawal.
\<close>

theorem failed_discovery_holds_back:
  assumes "store_bound e (at_store a)" and "chain_codec e" and "discover_burns e a = (Inl err, b)"
    and "at_trace (snd (cycle e a)) = at_trace a @ acts" and "x \<in> set acts"
  shows "(\<forall>n l. x \<noteq> SentPrepare n l) \<and> (err \<noteq> Chain \<longrightarrow> \<not> to_circle x)"
proof -
  define P where "P = (\<lambda>x. case x of SentPrepare n l \<Rightarrow> False | _ \<Rightarrow> True)"
  have "fair P" by (simp add: fair_def answers_def P_def)
  from cycle_acts(1) [OF this assms(1,2) _ assms(4)] assms(3,5) have one: "P x" by auto
  have "\<not> to_circle x" if "err \<noteq> Chain"
  proof -
    have "snd (cycle e a) = b" using assms(3) that by (cases err) (simp_all add: cycle_def)
    moreover have "answers (\<lambda>x. \<not> to_circle x)" by (simp add: answers_def)
    then have "speaks (\<lambda>x. \<not> to_circle x) a (snd (discover_burns e a))"
      using discover_burns_speaks unfolding moves_def by blast
    ultimately show ?thesis using assms(3,4,5) by (auto simp: speaks_def)
  qed
  with one show ?thesis by (auto simp: P_def)
qed

theorem failed_discovery_holds_back_witness:
  "\<exists>b. discover_burns blind_env (sample_at sample_store3 None False 0 []) = (Inl Chain, b) \<and>
     SentPost sample_saved (Some sample_saved) False \<noteq> SentPrepare 5 False"
proof -
  obtain k where d: "discover_burns blind_env (sample_at sample_store3 None False 0 []) =
      (Inl Chain, sample_at sample_store3 None False k [])" using blind_discovery by blast
  have b: "store_bound blind_env (at_store (sample_at sample_store3 None False 0 []))"
    using sample_store3_bound by (simp add: store_bound_def blind_env_def)
  have t: "at_trace (snd (cycle blind_env (sample_at sample_store3 None False 0 []))) =
      at_trace (sample_at sample_store3 None False 0 []) @ [SentPost sample_saved (Some sample_saved) False]"
    by (simp add: blind_cycle)
  show ?thesis using failed_discovery_holds_back [OF b blind_env_codec d t, of "SentPost sample_saved (Some sample_saved) False"] d by simp
qed

end
