(* ===== verification/Attester_Props.thy ===== *)
theory Attester_Props
  imports Attester_Trace
begin

text \<open>
  Further promises of the cycle: no burn of a scanned block is missed, Circle's withdrawal limit is
  spent in the order of the burns, and the run is bounded in its pauses and in what admin traffic
  may take of it.
\<close>

section \<open>The scan misses nothing\<close>

lemma find_candidates_complete:
  assumes "find_candidates e num outs a = (Inr cs, b)" and "Public n \<in> set outs"
    and "burn_candidate_new (en_ext e) n num (cg_faucet_account_id (en_config e)) = Inr c"
  shows "note_known (at_store a) (nt_id n) \<or> c \<in> set cs"
  using assms
proof (induction e num outs arbitrary: a cs b rule: find_candidates.induct)
  case (3 e num m rest)
  show ?case
  proof (cases "burn_candidate_new (en_ext e) m num (cg_faucet_account_id (en_config e))")
    case (Inl err)
    then show ?thesis using 3(1) [OF Inl] 3(3-5) by auto
  next
    case (Inr d)
    obtain known a1 where k: "sql_read e (\<lambda>s. Inr (note_known s (bc_note_id d))) a = (Inr known, a1)"
      and rest: "\<exists>found. find_candidates e num rest a1 = (Inr found, b) \<and> cs = (if known then found else d # found)"
      using 3(3) Inr by (auto simp: bind_run_def split: prod.splits sum.splits)
    then obtain found where found: "find_candidates e num rest a1 = (Inr found, b)" "cs = (if known then found else d # found)" by blast
    have st: "at_store a1 = at_store a" "known = note_known (at_store a) (bc_note_id d)"
      using sql_read_Inr [OF k] by (auto simp: unsaid_def)
    show ?thesis
    proof (cases "n = m")
      case True
      then have "d = c" using Inr 3(5) by simp
      moreover have "bc_note_id d = nt_id n" using Inr True by (simp add: bc_note_id_def burn_candidate_new_Inr)
      ultimately show ?thesis using st found by auto
    next
      case False
      then have "Public n \<in> set rest" using 3(4) by simp
      from 3(2) [OF Inr found(1) this 3(5)] show ?thesis using st found by auto
    qed
  qed
qed auto

lemma find_consumed_complete:
  assumes "find_consumed e num nfs a = (Inr ds, b)" and "nf \<in> set nfs"
    and "candidate_by_nullifier (en_ext e) (at_store a) nf = Inr (Some c)"
  shows "into_discovered c num \<in> set ds"
  using assms
proof (induction nfs arbitrary: a ds)
  case (Cons f nfs)
  obtain v a1 where v: "sql_read e (\<lambda>s. candidate_by_nullifier (en_ext e) s f) a = (Inr v, a1)"
    and rest: "\<exists>found. find_consumed e num nfs a1 = (Inr found, b) \<and>
      ds = (case v of None \<Rightarrow> found | Some c \<Rightarrow> into_discovered c num # found)"
    using Cons.prems(1) by (auto simp: bind_run_def split: prod.splits sum.splits)
  then obtain found where found: "find_consumed e num nfs a1 = (Inr found, b)"
    "ds = (case v of None \<Rightarrow> found | Some c \<Rightarrow> into_discovered c num # found)" by blast
  have st: "at_store a1 = at_store a" "candidate_by_nullifier (en_ext e) (at_store a) f = Inr v"
    using sql_read_Inr [OF v] by (auto simp: unsaid_def)
  show ?case
  proof (cases "nf = f")
    case True
    then show ?thesis using st found Cons.prems(3) by auto
  next
    case False
    then show ?thesis using Cons.IH [OF found(1)] Cons.prems(2,3) st found(2) by (auto split: option.split)
  qed
qed simp

lemma insert_all_reaches:
  assumes "insert_all f xs s = Inr t" and "x \<in> set xs"
    and "\<And>y u u'. K u \<Longrightarrow> f y u = Inr u' \<Longrightarrow> K u'" and "K s"
    and "\<And>y u u'. K u \<Longrightarrow> Q u \<Longrightarrow> f y u = Inr u' \<Longrightarrow> Q u'"
    and "\<And>u u'. K u \<Longrightarrow> f x u = Inr u' \<Longrightarrow> Q u'"
  shows "Q t"
  using assms(1,2,4)
proof (induction xs arbitrary: s)
  case (Cons y xs)
  then obtain u where u: "f y s = Inr u" "insert_all f xs u = Inr t" by (auto simp: and_then_Inr_iff)
  have ku: "K u" using assms(3) Cons.prems(3) u(1) by blast
  show ?case
  proof (cases "x = y")
    case True
    then have "K u \<and> Q u" using assms(6) Cons.prems(3) u(1) ku by blast
    with u(2) show ?thesis using insert_all_induct [of f xs u t "\<lambda>v. K v \<and> Q v"] assms(3,5) by blast
  next
    case False
    then show ?thesis using Cons.IH [OF u(2) _ ku] Cons.prems(2) by simp
  qed
qed simp

text \<open>The rows of the saved block: known notes stay known, consumed ones stay consumed.\<close>

lemma scan_complete:
  assumes "save_scan_progress x cs bs h s = Inr t" and "keys_ok s"
  shows "c \<in> set cs \<Longrightarrow> burn_of t (bc_note_id c) \<noteq> None" and "burn_of s n \<noteq> None \<Longrightarrow> burn_of t n \<noteq> None"
    and "d \<in> set bs \<Longrightarrow> \<exists>r. burn_of t (db_note_id d) = Some r \<and> br_consumption_block r \<noteq> None"
proof -
  obtain s1 s2 where s1: "insert_all (insert_candidate x) cs s = Inr s1"
    and s2: "insert_all (insert_burn x) bs s1 = Inr s2" and t: "t = s2\<lparr>st_checkpoint := Some h\<rparr>"
    using assms(1) by (auto simp: save_scan_progress_Inr)
  have k1: "keys_ok s1" using s1 assms(2) by (rule insert_all_induct) (rule insert_candidate_effect(6))
  have burns: "burn_of s2 n \<noteq> None" if "burn_of s1 n \<noteq> None" for n
    using insert_all_induct [OF s2, of "\<lambda>u. keys_ok u \<and> burn_of u n \<noteq> None"] k1 that
    by (fastforce dest: insert_burn_effect(1,5))
  have cands: "burn_of s1 n \<noteq> None" if "burn_of s n \<noteq> None" for n
    using insert_all_induct [OF s1, of "\<lambda>u. keys_ok u \<and> burn_of u n \<noteq> None"] assms(2) that
    by (fastforce dest: insert_candidate_effect(2,6))
  show "burn_of s n \<noteq> None \<Longrightarrow> burn_of t n \<noteq> None" using burns cands by (simp add: t)
  show "burn_of t (bc_note_id c) \<noteq> None" if "c \<in> set cs"
  proof -
    have "burn_of s1 (bc_note_id c) \<noteq> None"
      by (rule insert_all_reaches [OF s1 that, of keys_ok])
        (use assms(2) in \<open>auto dest: insert_candidate_effect(2,6) simp: fun_upd_def split: if_splits\<close>)
    then show ?thesis using burns by (simp add: t)
  qed
  show "\<exists>r. burn_of t (db_note_id d) = Some r \<and> br_consumption_block r \<noteq> None" if "d \<in> set bs"
  proof -
    have "\<exists>r. burn_of s2 (db_note_id d) = Some r \<and> br_consumption_block r \<noteq> None"
    proof (rule insert_all_reaches [OF s2 that, of keys_ok])
      fix y u u' assume u: "keys_ok u" "\<exists>r. burn_of u (db_note_id d) = Some r \<and> br_consumption_block r \<noteq> None"
        and i: "insert_burn x y u = Inr u'"
      then show "\<exists>r. burn_of u' (db_note_id d) = Some r \<and> br_consumption_block r \<noteq> None"
        using insert_burn_effect(1) [OF i u(1)] by auto
    next
      fix u u' assume "keys_ok u" "insert_burn x d u = Inr u'"
      then show "\<exists>r. burn_of u' (db_note_id d) = Some r \<and> br_consumption_block r \<noteq> None"
        using insert_burn_effect(1) by (fastforce simp: new_row_def)
    qed (use k1 insert_burn_effect(5) in auto)
    then show ?thesis by (simp add: t)
  qed
qed

text \<open>
  C21: a saved block loses no burn. When a block has been saved, every public note of its output
  batches that is a valid burn of the configured faucet has a row in the store, and every saved note
  whose nullifier is an input of one of the block's faucet transactions is marked consumed. Notes
  known from earlier blocks stay known.
\<close>

theorem saved_block_complete:
  assumes bound: "store_bound e (at_store a)" and save: "save_block e block a = (Inr (), b)"
  shows "(\<forall>n c. Public n \<in> set (concat (bk_output_batches block)) \<and>
      burn_candidate_new (en_ext e) n (hd_block_num (bk_header block)) (cg_faucet_account_id (en_config e)) = Inr c \<longrightarrow>
      burn_of (at_store b) (nt_id n) \<noteq> None) \<and>
    (\<forall>nf c. nf \<in> set (faucet_inputs e block) \<and> candidate_by_nullifier (en_ext e) (at_store a) nf = Inr (Some c) \<longrightarrow>
      consumed (at_store b) (bc_note_id c)) \<and>
    (\<forall>n. burn_of (at_store a) n \<noteq> None \<longrightarrow> burn_of (at_store b) n \<noteq> None)"
proof -
  let ?num = "hd_block_num (bk_header block)"
  obtain cs a1 ds a2 where cs: "find_candidates e ?num (concat (bk_output_batches block)) a = (Inr cs, a1)"
    and ds: "find_consumed e ?num (faucet_inputs e block) a1 = (Inr ds, a2)"
    and w: "sql_write e (save_scan_progress (en_ext e) cs ds (bk_header block)) a2 = (Inr (), b)"
    using save by (auto simp: save_block_def find_burns_in_block_def map_err_def bind_run_def Let_def split: prod.splits sum.splits)
  have st: "at_store a1 = at_store a" "at_store a2 = at_store a"
    using find_candidates_spec [OF cs] find_consumed_spec [OF ds] by auto
  have saved: "save_scan_progress (en_ext e) cs ds (bk_header block) (at_store a) = Inr (at_store b)"
    using w st by (auto simp: sql_write_def sql_def and_then_Inr_iff split: if_splits sum.splits prod.splits)
  note k = store_bound_keys [OF bound] and comp = scan_complete [OF saved store_bound_keys [OF bound]]
  have "burn_of (at_store b) (nt_id n) \<noteq> None"
    if "Public n \<in> set (concat (bk_output_batches block))"
      "burn_candidate_new (en_ext e) n ?num (cg_faucet_account_id (en_config e)) = Inr c" for n c
  proof -
    have "bc_note_id c = nt_id n" using that(2) by (simp add: bc_note_id_def burn_candidate_new_Inr)
    moreover have "burn_of (at_store a) (nt_id n) \<noteq> None" if "note_known (at_store a) (nt_id n)"
      using that burn_of_mem [OF k] by (fastforce simp: note_known_def list_ex_iff)
    ultimately show ?thesis using find_candidates_complete [OF cs that] comp(1) [of c] comp(2) [of "nt_id n"] by auto
  qed
  moreover have "consumed (at_store b) (bc_note_id c)"
    if "nf \<in> set (faucet_inputs e block)" "candidate_by_nullifier (en_ext e) (at_store a) nf = Inr (Some c)" for nf c
  proof -
    have "into_discovered c ?num \<in> set ds" using find_consumed_complete [OF ds that(1)] that(2) st by simp
    then obtain r where "burn_of (at_store b) (db_note_id (into_discovered c ?num)) = Some r" "br_consumption_block r \<noteq> None"
      using comp(3) by blast
    moreover have "db_note_id (into_discovered c ?num) = bc_note_id c"
      by (simp add: into_discovered_def db_note_id_def bc_note_id_def)
    ultimately show ?thesis using burn_of_key by (fastforce simp: consumed_def list_ex_iff burn_of_def dest: lookup_by_key)
  qed
  ultimately show ?thesis using comp(2) by blast
qed

theorem saved_block_complete_witness:
  "\<exists>b. save_block sample_env (sample_block 11) (sample_at sample_anchored None False 0 []) = (Inr (), b) \<and>
     Public sample_note \<in> set (concat (bk_output_batches (sample_block 11))) \<and> burn_of (at_store b) (nt_id sample_note) \<noteq> None"
proof -
  obtain k where s: "save_block sample_env (sample_block 11) (sample_at sample_anchored None False 0 []) =
      (Inr (), sample_at sample_store1 None False k [])" using sample_save_11 [OF sample_env_like] by blast
  have b: "store_bound sample_env (at_store (sample_at sample_anchored None False 0 []))" using sample_anchored_bound by simp
  have n: "Public sample_note \<in> set (concat (bk_output_batches (sample_block 11)))" by (simp add: sample_block_def)
  have c: "burn_candidate_new sample_ext sample_note (hd_block_num (bk_header (sample_block 11))) 1 = Inr sample_candidate"
    using sample_candidate_new by (simp add: sample_block_def)
  have f: "cg_faucet_account_id sample_config = 1" by (simp add: sample_config_def)
  show ?thesis using saved_block_complete [OF b s] s n c unfolding sample_env_fields f by blast
qed

section \<open>The order of the withdrawal limit\<close>

text \<open>
  C33: Circle's withdrawal limit is spent oldest first and at most once per interval. When the check
  before a request lets a burn through, no burn with an earlier (creation block, note ID) waits for
  the limit; and when the burn itself waits, its saved deadline has passed and a new deadline, the
  policy's interval from now, is stored before anything is sent.
\<close>

theorem limit_spent_in_order:
  assumes keys: "keys_ok (at_store a)" and run: "limit_allows e n a = (Inr True, b)"
    and r: "burn_of (at_store a) n = Some r"
  shows "(\<forall>m q. burn_of (at_store a) m = Some q \<and> br_retry_at q \<noteq> None \<longrightarrow>
      (br_creation_block r, n) \<le> (br_creation_block q, m)) \<and>
    (\<forall>d. br_retry_at r = Some d \<longrightarrow> (\<exists>t since policy d'. since_epoch (en_now e t) = Some since \<and>
      d \<le> int (since div nanos_per_sec) \<and> cg_withdrawal_limit (en_config e) = Some policy \<and>
      retry_at policy (en_now e t) = Inr d' \<and> burn_of (at_store b) n = Some (r\<lparr>br_retry_at := Some d'\<rparr>)))"
proof (cases "first_limit_wait (at_store a)")
  case None
  then have "\<forall>m q. burn_of (at_store a) m = Some q \<longrightarrow> br_retry_at q = None"
    using first_limit_wait_None by blast
  then show ?thesis using r by auto
next
  case (Some w)
  note head = first_limit_wait_Some [OF keys Some]
  show ?thesis
  proof (cases "lw_note_id w = n")
    case False
    then have "(br_creation_block r, n) < (lw_creation_block w, lw_note_id w)"
      using run r Some by (auto simp: limit_allows_def bind_run_def sql_read_def sql_def tick_def burn_creation_block_def
          and_then_def ok_or_def split: if_splits)
    then have before: "(br_creation_block r, n) < (br_creation_block q, m)"
      if "burn_of (at_store a) m = Some q" "br_retry_at q \<noteq> None" for m q using that head(2) order.strict_trans2 by blast
    have "br_retry_at r = None" using before [OF r] by (cases "br_retry_at r") auto
    then show ?thesis using before order.strict_implies_order by auto
  next
    case True
    then obtain d where d: "br_creation_block r = lw_creation_block w" "br_retry_at r = Some (lw_retry_at w)"
      using head(1) r by auto
    have "\<exists>t since policy d'. since_epoch (en_now e t) = Some since \<and> lw_retry_at w \<le> int (since div nanos_per_sec) \<and>
        cg_withdrawal_limit (en_config e) = Some policy \<and> retry_at policy (en_now e t) = Inr d' \<and>
        advance_limit_retry n d' (at_store a) = Inr (at_store b)"
      using run True Some
      by (auto simp: limit_allows_def bind_run_def sql_read_def sql_write_def sql_def read_clock_def tick_def not_less
          and_then_Inr_iff split: if_splits option.splits sum.splits prod.splits) blast+
    then obtain t since policy d' where p: "since_epoch (en_now e t) = Some since" "lw_retry_at w \<le> int (since div nanos_per_sec)"
        "cg_withdrawal_limit (en_config e) = Some policy" "retry_at policy (en_now e t) = Inr d'"
      and adv: "advance_limit_retry n d' (at_store a) = Inr (at_store b)" by blast
    have "burn_of (at_store b) n = Some (r\<lparr>br_retry_at := Some d'\<rparr>)"
      using advance_limit_retry_effect(1) [OF adv keys] r by auto
    then show ?thesis using head(2) d True p by auto
  qed
qed

theorem limit_spent_in_order_witness:
  "\<exists>b. limit_allows sample_env 5 (sample_at sample_store_deep None False 0 []) = (Inr True, b) \<and>
     burn_of sample_store_deep 5 = Some (sample_row (Some 12)) \<and> (br_creation_block (sample_row (Some 12)), 5 :: note_id) \<le> (11, 5)"
proof -
  have r: "burn_of (at_store (sample_at sample_store_deep None False 0 [])) 5 = Some (sample_row (Some 12))"
    by (simp add: burn_of_def lookup_by_def sample_store_deep_def sample_store_defs)
  have l: "limit_allows sample_env 5 (sample_at sample_store_deep None False 0 []) = (Inr True, sample_at sample_store_deep None False 1 [])"
    by (simp add: limit_allows_def bind_run_def sample_like_calls [OF sample_env_like] sample_deep_reads)
  have k: "keys_ok (at_store (sample_at sample_store_deep None False 0 []))" using sample_store_deep_inv store_invD(5) by simp
  show ?thesis using limit_spent_in_order [OF k l r] l r by (simp add: sample_row_def)
qed

section \<open>Bounds of the run\<close>

lemma next_pause_bounds:
  "cg_poll_interval cfg \<le> next_pause cfg l p" "next_pause cfg l p \<le> max (cg_poll_interval cfg) MAX_RATE_LIMITED_PAUSE"
  by (auto simp: next_pause_def max_def min_def)

text \<open>
  the pause between cycles never falls below the poll interval, and 429 answers never stretch it
  beyond the larger of the poll interval and one minute, however often it doubles.
\<close>

theorem pauses_bounded:
  assumes "run e fuel pause a = (Inr ps, b)" and "p \<in> set ps"
  shows "cg_poll_interval (en_config e) \<le> p \<and> p \<le> max (cg_poll_interval (en_config e)) MAX_RATE_LIMITED_PAUSE"
  using assms
proof (induction fuel arbitrary: pause a ps)
  case (Suc fuel)
  show ?case
  proof (cases "en_cancelled e (at_tick a)")
    case False
    obtain outcome c where c: "cycle e (clear_limited (admin_checkpoint e (tick a))) = (outcome, c)" by fastforce
    let ?d = "snd (record_progress e c)"
    let ?p = "next_pause (en_config e) (at_rate_limited ?d) pause"
    obtain qs where "run e fuel ?p (pause_commands e (en_pause_commands e (at_tick ?d)) (tick ?d)) = (Inr qs, b)" "ps = ?p # qs"
      using Suc.prems(1) False c by (auto simp: Let_def split: option.splits prod.splits sum.splits)
    then show ?thesis using Suc.IH Suc.prems(2) next_pause_bounds by auto
  qed (use Suc.prems in auto)
qed simp

text \<open>A database that fails every statement: the cycle stops, the run goes on.\<close>

definition broken_env :: env where
  "broken_env = sample_env\<lparr>en_sql_fails := (\<lambda>_. True)\<rparr>"

lemma broken_run: "fst (run broken_env 1 pause (sample_at s p l t tr)) = Inr [cg_poll_interval sample_config]"
proof -
  have f: "en_sql_fails broken_env t = True" "en_cancelled broken_env t = False" "en_config broken_env = sample_config"
    "en_pause_commands broken_env t = []" for t by (simp_all add: broken_env_def)
  have sql: "sql_read broken_env q (sample_at s p l t tr) = (Inl StoreQueryFailed, sample_at s p l (Suc t) tr)"
    for q :: "store \<Rightarrow> store_error + 'x" and s p l t tr by (simp add: sql_read_def sql_def f)
  have admin: "admin_checkpoint broken_env (sample_at s p l t tr) = sample_at s p l (Suc t) tr" for s p l t tr
    by (simp add: admin_checkpoint_def)
  show ?thesis
    by (simp add: f admin cycle_def discover_burns_def then_run_def bind_run_def map_err_def checkpoint_def sql
        finish_cycle_def record_progress_def next_pause_def Let_def)
qed

theorem pauses_bounded_witness:
  "fst (run broken_env 1 0 (sample_at sample_anchored None False 0 [])) = Inr [cg_poll_interval sample_config] \<and>
   cg_poll_interval sample_config \<le> max (cg_poll_interval sample_config) MAX_RATE_LIMITED_PAUSE"
proof -
  obtain b where b: "run broken_env 1 0 (sample_at sample_anchored None False 0 []) = (Inr [cg_poll_interval sample_config], b)"
    using broken_run by (metis eq_fst_iff)
  have "en_config broken_env = sample_config" by (simp add: broken_env_def)
  then show ?thesis using pauses_bounded [OF b, of "cg_poll_interval sample_config"] b by simp
qed



lemma handle_admin_one: "\<exists>acts. at_trace (handle_admin e c a) = at_trace a @ acts \<and> length acts \<le> 1"
proof (cases "en_cancelled e (at_tick a) \<or> cm_abandoned c")
  case True
  then show ?thesis by (auto simp: handle_admin_def tick_def)
next
  case False
  show ?thesis
  proof (cases "cm_operation c")
    case (ListHolds after)
    obtain r b where r: "sql_read e (\<lambda>s. holds_page (en_ext e) s after) (tick a) = (r, b)" by fastforce
    have "unsaid (tick a) (snd (sql_read e (\<lambda>s. holds_page (en_ext e) s after) (tick a)))"
      by (rule sql_read_unsaid [unfolded moves_def, rule_format])
    then have "at_trace b = at_trace a" by (simp add: r unsaid_def) (simp add: tick_def)
    then show ?thesis using False ListHolds r by (cases r) (simp_all add: handle_admin_def note_action_def)
  next
    case (Release sel)
    obtain r b where r: "sql_release e sel (tick a) = (r, b)" by fastforce
    then have "at_trace b = at_trace a" by (auto simp: sql_release_def tick_def split: if_splits sum.splits)
    then show ?thesis using False Release r by (simp add: handle_admin_def note_action_def)
  qed
qed

lemma admin_commands_bounded:
  "\<exists>acts. at_trace (admin_commands e k a) = at_trace a @ acts \<and> length acts \<le> k"
proof (induction k arbitrary: a)
  case (Suc k)
  have "\<exists>acts. at_trace (admin_commands e k (handle_admin e c (tick a))) = at_trace a @ acts \<and> length acts \<le> Suc k" for c
  proof -
    obtain xs ys where "at_trace (handle_admin e c (tick a)) = at_trace (tick a) @ xs" "length xs \<le> 1"
      "at_trace (admin_commands e k (handle_admin e c (tick a))) = at_trace (handle_admin e c (tick a)) @ ys" "length ys \<le> k"
      using handle_admin_one Suc by blast
    then show ?thesis by (intro exI [of _ "xs @ ys"]) (simp add: tick_def)
  qed
  then show ?case by (auto simp: tick_def split: inbox.split)
qed simp

text \<open>
  admin traffic cannot hold up a cycle. Between two steps of a cycle at most eight admin
  commands are answered, whatever the inbox holds, and answering them sends nothing to Circle and
  leaves the 429 flag as it was.
\<close>

theorem admin_checkpoint_bounded:
  "\<exists>acts. at_trace (admin_checkpoint e a) = at_trace a @ acts \<and> length acts \<le> 8 \<and> filter to_circle acts = [] \<and>
     at_rate_limited (admin_checkpoint e a) = at_rate_limited a"
proof -
  have "answers (\<lambda>x. \<not> to_circle x)" by (simp add: answers_def)
  then obtain acts where acts: "at_trace (admin_checkpoint e a) = at_trace a @ acts" "\<forall>x \<in> set acts. \<not> to_circle x"
      "at_rate_limited (admin_checkpoint e a) = (at_rate_limited a \<or> (\<exists>x \<in> set acts. limited x))"
    using admin_checkpoint_speaks [of _ a e] unfolding speaks_def by blast
  have "\<not> to_circle x \<Longrightarrow> \<not> limited x" for x by (cases x) auto
  moreover have "length acts \<le> 8"
    using admin_commands_bounded [of e 8 "tick a"] acts(1)
    by (auto simp: admin_checkpoint_def ADMIN_COMMANDS_PER_CHECKPOINT_def tick_def split: if_splits)
  moreover have "filter to_circle acts = []" using acts(2) by simp
  ultimately show ?thesis using acts by blast
qed

end
