(* ===== verification/Admin_Socket.thy ===== *)
theory Admin_Socket
  imports Attester
begin

text \<open>
  The admin socket of the light attester (\<^verbatim>\<open>admin.rs\<close>, \<^verbatim>\<open>admin/client.rs\<close>): the requests and replies that
  cross it as one line of JSON each, what the listener makes of a request, the removal of a socket
  left behind, and the command-line client. How requests, the attester and the clock interleave is
  the machine of theory \<open>Admin_Machine\<close>. JSON text, note and account IDs are read and written by code
  of other repositories (fields of \<open>ext\<close> and \<open>admin_ext\<close>).
\<close>

record admin_ext =
  ax_note_from_hex :: "string \<Rightarrow> note_id option"
  ax_account_hex :: "account_id \<Rightarrow> string"
  ax_word_hex :: "b256 \<Rightarrow> string"

section \<open>Limits\<close>

definition COMMAND_WAIT :: nat where "COMMAND_WAIT = 60 * nanos_per_sec"
definition REQUEST_WAIT :: nat where "REQUEST_WAIT = 10 * nanos_per_sec"
definition CONNECTION_WAIT :: nat where "CONNECTION_WAIT = 70 * nanos_per_sec"
definition REQUEST_LIMIT :: nat where "REQUEST_LIMIT = 16 * 1024"
definition MAX_CONNECTIONS :: nat where "MAX_CONNECTIONS = 16"
definition INBOX_CAPACITY :: nat where "INBOX_CAPACITY = 16"
definition REPLY_LIMIT :: nat where "REPLY_LIMIT = 256 * 1024"

section \<open>Requests\<close>

definition parse_note_id :: "ext \<Rightarrow> admin_ext \<Rightarrow> string \<Rightarrow> note_id option" where
  "parse_note_id x ax v =
     (case ax_note_from_hex ax v of
        None \<Rightarrow> None
      | Some n \<Rightarrow> if x_note_hex x n = v then Some n else None)"

datatype admin_request = HoldsRequest "string option" | ReleaseRequest string int bool

text \<open>An integer as \<^verbatim>\<open>serde_json\<close> reads the token of a number; \<^verbatim>\<open>-0\<close> is a float to it.\<close>

definition number_value :: "string \<Rightarrow> int option" where
  "number_value t =
     (case t of
        [] \<Rightarrow> None
      | c # ds \<Rightarrow>
          if c = CHR ''-'' then
            (if ds = [] then None
             else case digits_value 0 ds of None \<Rightarrow> None | Some n \<Rightarrow> if n = 0 then None else Some (- int n))
          else map_option int (digits_value 0 t))"

fun json_as_int :: "int \<Rightarrow> int \<Rightarrow> json \<Rightarrow> int option" where
  "json_as_int lo hi (JNumber t) =
     (case number_value t of None \<Rightarrow> None | Some i \<Rightarrow> if lo \<le> i \<and> i \<le> hi then Some i else None)"
| "json_as_int lo hi _ = None"

definition json_as_i64 :: "json \<Rightarrow> int option" where
  "json_as_i64 = json_as_int (- (2 ^ 63)) (2 ^ 63 - 1)"

definition show_int :: "int \<Rightarrow> string" where
  "show_int i = (if i < 0 then CHR ''-'' # show_nat (nat (- i)) else show_nat (nat i))"

definition optional_json :: "('a \<Rightarrow> json) \<Rightarrow> 'a option \<Rightarrow> json" where
  "optional_json write v = (case v of None \<Rightarrow> JNull | Some a \<Rightarrow> write a)"

fun request_json :: "admin_request \<Rightarrow> json" where
  "request_json (HoldsRequest after) = JObject [(''op'', JString ''holds''), (''after'', optional_json JString after)]"
| "request_json (ReleaseRequest n seq checked) =
     JObject [(''op'', JString ''release''), (''note_id'', JString n), (''expected_event_seq'', JNumber (show_int seq)),
              (''circle_not_accepted'', JBool checked)]"

text \<open>
  An internally tagged enum: the tag is a field of the object or the first value of an array, the rest
  are the fields of the variant. \<^verbatim>\<open>deny_unknown_fields\<close> closes the object; an array may leave out
  values at its end.
\<close>

fun tagged :: "string \<Rightarrow> json \<Rightarrow> (string \<times> json) option" where
  "tagged tag (JObject fs) =
     (case json_field fs tag of
        Some (Some (JString t)) \<Rightarrow> Some (t, JObject (filter (\<lambda>(k, _). k \<noteq> tag) fs))
      | _ \<Rightarrow> None)"
| "tagged tag (JArray (JString t # vs)) = Some (t, JArray vs)"
| "tagged tag _ = None"

fun closed_fields :: "string list \<Rightarrow> json \<Rightarrow> json option list option" where
  "closed_fields names (JObject fs) =
     (if list_all (\<lambda>(k, _). k \<in> set names) fs then default_fields names (JObject fs) else None)"
| "closed_fields names j = default_fields names j"

definition holds_of :: "json option list \<Rightarrow> admin_request option" where
  "holds_of vs = (case vs of
       [after] \<Rightarrow> map_option HoldsRequest (or_default None (nullable json_as_str) after)
     | _ \<Rightarrow> None)"

definition release_of :: "json option list \<Rightarrow> admin_request option" where
  "release_of vs = (case vs of
       [n, seq, checked] \<Rightarrow>
         Option.bind (required json_as_str n) (\<lambda>n.
         Option.bind (required json_as_i64 seq) (\<lambda>seq.
         Option.bind (or_default False json_as_bool checked) (\<lambda>checked.
         Some (ReleaseRequest n seq checked))))
     | _ \<Rightarrow> None)"

definition request_decode :: "json \<Rightarrow> admin_request option" where
  "request_decode j =
     (case tagged ''op'' j of
        None \<Rightarrow> None
      | Some (op, content) \<Rightarrow>
          if op = ''holds'' then Option.bind (closed_fields [''after''] content) holds_of
          else if op = ''release'' then
            Option.bind (closed_fields [''note_id'', ''expected_event_seq'', ''circle_not_accepted''] content) release_of
          else None)"

section \<open>Errors and replies\<close>

datatype admin_error =
    InvalidInput string
  | RequestTooLarge
  | Stopping
  | QueueFull
  | Unavailable
  | ReplyTimeout
  | AdminRelease release_error

record error_body =
  eb_code :: string
  eb_message :: string

fun admin_error_body :: "ext \<Rightarrow> admin_error \<Rightarrow> error_body" where
  "admin_error_body x (InvalidInput m) = \<lparr>eb_code = ''invalid_input'', eb_message = m\<rparr>"
| "admin_error_body x RequestTooLarge = \<lparr>eb_code = ''request_too_large'', eb_message = ''request exceeds 16 KiB''\<rparr>"
| "admin_error_body x Stopping = \<lparr>eb_code = ''stopping'', eb_message = ''attester is stopping''\<rparr>"
| "admin_error_body x QueueFull = \<lparr>eb_code = ''queue_full'', eb_message = ''command was not admitted''\<rparr>"
| "admin_error_body x Unavailable = \<lparr>eb_code = ''unavailable'', eb_message = ''attester is unavailable''\<rparr>"
| "admin_error_body x ReplyTimeout =
     \<lparr>eb_code = ''reply_timeout'',
      eb_message = ''outcome may be unknown; list holds again before selecting another release''\<rparr>"
| "admin_error_body x (AdminRelease ReleaseInvalid) =
     \<lparr>eb_code = ''invalid_input'', eb_message = ''invalid hold selection''\<rparr>"
| "admin_error_body x (AdminRelease (NotHeld n)) =
     \<lparr>eb_code = ''hold_not_found'',
      eb_message = ''no hold for note '' @ x_note_hex x n @ ''; list holds to find it''\<rparr>"
| "admin_error_body x (AdminRelease ReleaseConflict) =
     \<lparr>eb_code = ''hold_changed'', eb_message = ''list holds again before selecting a release''\<rparr>"
| "admin_error_body x (AdminRelease CircleCheck) =
     \<lparr>eb_code = ''circle_check_required'',
      eb_message = ''check Circle and assert non-acceptance for the held withdrawal''\<rparr>"
| "admin_error_body x (AdminRelease (ReleaseStore _)) =
     \<lparr>eb_code = ''store_failed'', eb_message = ''attester store failed''\<rparr>"

datatype 'a admin_reply = ReplyOk 'a | ReplyError error_body

text \<open>A page and a release count as they cross the socket.\<close>

record wire_hold =
  wh_note_id :: string
  wh_kind :: string
  wh_reason :: string
  wh_http_status :: "nat option"
  wh_circle_message :: "string option"
  wh_event_seq :: int

record wire_page =
  wp_faucet_account_id :: string
  wp_trusted_anchor_block :: nat
  wp_trusted_anchor_commitment :: string
  wp_holds :: "wire_hold list"
  wp_next_after :: "string option"

record released =
  rd_burns :: nat
  rd_withdrawals :: nat

definition wire_hold_of :: "hold_entry \<Rightarrow> wire_hold" where
  "wire_hold_of h =
     \<lparr>wh_note_id = he_note_id h, wh_kind = he_kind h, wh_reason = he_reason h, wh_http_status = he_http_status h,
      wh_circle_message = he_circle_message h, wh_event_seq = int (he_event_seq h)\<rparr>"

definition wire_page_of :: "admin_ext \<Rightarrow> holds_page_reply \<Rightarrow> wire_page" where
  "wire_page_of ax p =
     \<lparr>wp_faucet_account_id = ax_account_hex ax (hp_faucet_account_id p),
      wp_trusted_anchor_block = hp_trusted_anchor_block p,
      wp_trusted_anchor_commitment = ax_word_hex ax (hp_trusted_anchor_commitment p),
      wp_holds = map wire_hold_of (hp_holds p), wp_next_after = hp_next_after p\<rparr>"

definition json_nat :: "nat \<Rightarrow> json" where
  "json_nat n = JNumber (show_nat n)"

definition hold_json :: "wire_hold \<Rightarrow> json" where
  "hold_json h =
     JObject [(''note_id'', JString (wh_note_id h)), (''kind'', JString (wh_kind h)), (''reason'', JString (wh_reason h)),
              (''http_status'', optional_json json_nat (wh_http_status h)),
              (''circle_message'', optional_json JString (wh_circle_message h)),
              (''event_seq'', JNumber (show_int (wh_event_seq h)))]"

definition page_json :: "wire_page \<Rightarrow> json" where
  "page_json p =
     JObject [(''faucet_account_id'', JString (wp_faucet_account_id p)),
              (''trusted_anchor_block'', json_nat (wp_trusted_anchor_block p)),
              (''trusted_anchor_commitment'', JString (wp_trusted_anchor_commitment p)),
              (''holds'', JArray (map hold_json (wp_holds p))),
              (''next_after'', optional_json JString (wp_next_after p))]"

definition released_json :: "released \<Rightarrow> json" where
  "released_json r = JObject [(''burns'', json_nat (rd_burns r)), (''withdrawals'', json_nat (rd_withdrawals r))]"

definition error_json :: "error_body \<Rightarrow> json" where
  "error_json b = JObject [(''code'', JString (eb_code b)), (''message'', JString (eb_message b))]"

fun reply_json :: "('a \<Rightarrow> json) \<Rightarrow> 'a admin_reply \<Rightarrow> json" where
  "reply_json write (ReplyOk v) = JObject [(''ok'', write v)]"
| "reply_json write (ReplyError b) = JObject [(''error'', error_json b)]"

text \<open>\<^verbatim>\<open>encode\<close>: one reply line; \<open>None\<close> is the panic when it cannot be serialized.\<close>

definition newline :: u8 where "newline = 10"

definition encode_reply :: "ext \<Rightarrow> ('a \<Rightarrow> json) \<Rightarrow> admin_error + 'a \<Rightarrow> bytes option" where
  "encode_reply x write r =
     map_option (\<lambda>line. line @ [newline])
       (x_json_to_vec x (reply_json write
          (case r of Inr v \<Rightarrow> ReplyOk v | Inl e \<Rightarrow> ReplyError (admin_error_body x e))))"

section \<open>The listener\<close>

text \<open>What waiting for the request line ends with.\<close>

datatype request_read = ReadCancelled | ReadTimedOut | ReadFailed | ReadStream bytes

text \<open>\<^verbatim>\<open>take(limit + 1)\<close> and \<^verbatim>\<open>read_until\<close>: the line with its newline, as far as it is read.\<close>

definition read_line :: "nat \<Rightarrow> bytes \<Rightarrow> bytes" where
  "read_line limit stream =
     (let window = take (limit + 1) stream in
      takeWhile (\<lambda>b. b \<noteq> newline) window @ (if newline \<in> set window then [newline] else []))"

fun read_request :: "ext \<Rightarrow> request_read \<Rightarrow> admin_error + admin_request" where
  "read_request x ReadCancelled = Inl Stopping"
| "read_request x ReadTimedOut = Inl (InvalidInput ''request not received in time'')"
| "read_request x ReadFailed = Inl (InvalidInput ''invalid request'')"
| "read_request x (ReadStream stream) =
     (let line = read_line REQUEST_LIMIT stream in
      if REQUEST_LIMIT < length line then Inl RequestTooLarge
      else ok_or (Option.bind (x_json_value x line) request_decode) (InvalidInput ''invalid request''))"

text \<open>The checks of \<^verbatim>\<open>handle\<close> before it dispatches the operation.\<close>

fun request_operation :: "ext \<Rightarrow> admin_ext \<Rightarrow> admin_request \<Rightarrow> admin_error + operation" where
  "request_operation x ax (HoldsRequest after) =
     (case after of
        None \<Rightarrow> Inr (ListHolds None)
      | Some v \<Rightarrow>
          (case parse_note_id x ax v of
             None \<Rightarrow> Inl (InvalidInput ''invalid page cursor'')
           | Some n \<Rightarrow> Inr (ListHolds (Some n))))"
| "request_operation x ax (ReleaseRequest v seq checked) =
     (case parse_note_id x ax v of
        Some n \<Rightarrow>
          if 0 < seq then
            Inr (Release \<lparr>rl_note_id = n, rl_expected_event_seq = seq, rl_circle_not_accepted = checked\<rparr>)
          else Inl (InvalidInput ''invalid hold selection'')
      | None \<Rightarrow> Inl (InvalidInput ''invalid hold selection''))"

text \<open>
  The admission half of \<^verbatim>\<open>dispatch\<close>: the inbox is bounded, and closed when the attester has dropped its
  end. A queued command carries the connection that waits for it and its deadline.
\<close>

record queued =
  qu_id :: nat
  qu_operation :: operation
  qu_deadline :: nat

record admin_inbox =
  in_queue :: "queued list"
  in_open :: bool

definition admit :: "bool \<Rightarrow> nat \<Rightarrow> nat \<Rightarrow> operation \<Rightarrow> admin_inbox \<Rightarrow> admin_error + admin_inbox" where
  "admit stopping now c op inbox =
     (if stopping then Inl Stopping
      else if \<not> in_open inbox then Inl Unavailable
      else if INBOX_CAPACITY \<le> length (in_queue inbox) then Inl QueueFull
      else Inr (inbox\<lparr>in_queue := in_queue inbox @ [\<lparr>qu_id = c, qu_operation = op, qu_deadline = now + COMMAND_WAIT\<rparr>]\<rparr>))"

text \<open>The second half: what waiting for the result ends with.\<close>

datatype 'a receive = ReceiveTimedOut | SenderDropped | ReceivedResult "release_error + 'a"

fun await :: "'a receive \<Rightarrow> admin_error + 'a" where
  "await ReceiveTimedOut = Inl ReplyTimeout"
| "await SenderDropped = Inl Unavailable"
| "await (ReceivedResult (Inl e)) = Inl (AdminRelease e)"
| "await (ReceivedResult (Inr v)) = Inr v"

text \<open>
  \<^verbatim>\<open>serve\<close> and \<^verbatim>\<open>handle\<close>: the reply line of a connection, where \<open>dispatched\<close> is what dispatching an
  operation ends with.
\<close>

datatype admin_value = ListedHolds wire_page | ReleasedHolds released

fun value_json :: "admin_value \<Rightarrow> json" where
  "value_json (ListedHolds p) = page_json p"
| "value_json (ReleasedHolds r) = released_json r"

definition requested :: "ext \<Rightarrow> admin_ext \<Rightarrow> request_read \<Rightarrow> admin_error + operation" where
  "requested x ax r = and_then (read_request x r) (request_operation x ax)"

definition serve :: "ext \<Rightarrow> admin_ext \<Rightarrow> (operation \<Rightarrow> admin_error + admin_value) \<Rightarrow> request_read \<Rightarrow> bytes option" where
  "serve x ax dispatched r = encode_reply x value_json (and_then (requested x ax r) dispatched)"

section \<open>The socket file\<close>

datatype socket_stat = StatNotFound | StatFails | StatSocket | StatOther
datatype socket_connect = Connects | ConnectRefused | ConnectWouldBlock | ConnectFails | ConnectTimesOut

datatype bind_error =
    CannotInspect | NotASocket | CannotRemove | AlreadyServed | CannotCheck | HeldByProcess | CannotBind | CannotRestrict

text \<open>
  The path before the bind, as the file system and a connection attempt show it, and which calls fail;
  the result says whether the file is still there.
\<close>

record socket_env =
  so_stat :: socket_stat
  so_connect :: socket_connect
  so_remove_fails :: bool
  so_bind_fails :: bool
  so_chmod_fails :: bool

datatype socket_file = NoFile | FoundFile | OwnSocket bool

definition remove_stale_socket :: "socket_env \<Rightarrow> bind_error + socket_file" where
  "remove_stale_socket so =
     (case so_stat so of
        StatNotFound \<Rightarrow> Inr NoFile
      | StatFails \<Rightarrow> Inl CannotInspect
      | StatOther \<Rightarrow> Inl NotASocket
      | StatSocket \<Rightarrow>
          (case so_connect so of
             ConnectRefused \<Rightarrow> if so_remove_fails so then Inl CannotRemove else Inr NoFile
           | Connects \<Rightarrow> Inl AlreadyServed
           | ConnectFails \<Rightarrow> Inl CannotCheck
           | ConnectWouldBlock \<Rightarrow> Inl HeldByProcess
           | ConnectTimesOut \<Rightarrow> Inl HeldByProcess))"

text \<open>\<^verbatim>\<open>Server::bind\<close>; \<open>OwnSocket\<close> says whether only the service's user may connect.\<close>

definition server_bind :: "socket_env \<Rightarrow> (bind_error + admin_inbox) \<times> socket_file" where
  "server_bind so =
     (case remove_stale_socket so of
        Inl e \<Rightarrow> (Inl e, if so_stat so = StatNotFound then NoFile else FoundFile)
      | Inr left \<Rightarrow>
          if so_bind_fails so then (Inl CannotBind, left)
          else if so_chmod_fails so then (Inl CannotRestrict, OwnSocket False)
          else (Inr \<lparr>in_queue = [], in_open = True\<rparr>, OwnSocket True))"

section \<open>The command-line client (\<^verbatim>\<open>admin/client.rs\<close>)\<close>

fun error_decode :: "json \<Rightarrow> error_body option" where
  "error_decode j =
     (case struct_fields [''code'', ''message''] j of
        Some [code, message] \<Rightarrow>
          Option.bind (required json_as_str code) (\<lambda>code.
          Option.bind (required json_as_str message) (\<lambda>message.
          Some \<lparr>eb_code = code, eb_message = message\<rparr>))
      | _ \<Rightarrow> None)"

definition json_as_nat :: "int \<Rightarrow> json \<Rightarrow> nat option" where
  "json_as_nat bound j = map_option nat (json_as_int 0 (bound - 1) j)"

text \<open>An optional field of a structure read by a derived \<^verbatim>\<open>Deserialize\<close>: left out or null is \<open>None\<close>.\<close>

definition optional :: "(json \<Rightarrow> 'a option) \<Rightarrow> json option \<Rightarrow> 'a option option" where
  "optional read = or_default None (nullable read)"

definition hold_decode :: "json \<Rightarrow> wire_hold option" where
  "hold_decode j =
     (case struct_fields [''note_id'', ''kind'', ''reason'', ''http_status'', ''circle_message'', ''event_seq''] j of
        Some [n, k, r, status, message, seq] \<Rightarrow>
          Option.bind (required json_as_str n) (\<lambda>n.
          Option.bind (required json_as_str k) (\<lambda>k.
          Option.bind (required json_as_str r) (\<lambda>r.
          Option.bind (optional (json_as_nat (2 ^ 16)) status) (\<lambda>status.
          Option.bind (optional json_as_str message) (\<lambda>message.
          Option.bind (required json_as_i64 seq) (\<lambda>seq.
          Some \<lparr>wh_note_id = n, wh_kind = k, wh_reason = r, wh_http_status = status,
                wh_circle_message = message, wh_event_seq = seq\<rparr>))))))
      | _ \<Rightarrow> None)"

definition page_decode_json :: "json \<Rightarrow> wire_page option" where
  "page_decode_json j =
     (case struct_fields
        [''faucet_account_id'', ''trusted_anchor_block'', ''trusted_anchor_commitment'', ''holds'', ''next_after''] j of
        Some [faucet, block, commitment, hs, after] \<Rightarrow>
          Option.bind (required json_as_str faucet) (\<lambda>faucet.
          Option.bind (required (json_as_nat (2 ^ 32)) block) (\<lambda>block.
          Option.bind (required json_as_str commitment) (\<lambda>commitment.
          Option.bind (required (json_as_list hold_decode) hs) (\<lambda>hs.
          Option.bind (optional json_as_str after) (\<lambda>after.
          Some \<lparr>wp_faucet_account_id = faucet, wp_trusted_anchor_block = block,
                wp_trusted_anchor_commitment = commitment, wp_holds = hs, wp_next_after = after\<rparr>)))))
      | _ \<Rightarrow> None)"

definition released_decode :: "json \<Rightarrow> released option" where
  "released_decode j =
     (case struct_fields [''burns'', ''withdrawals''] j of
        Some [burns, withdrawals] \<Rightarrow>
          Option.bind (required (json_as_nat (2 ^ 64)) burns) (\<lambda>burns.
          Option.bind (required (json_as_nat (2 ^ 64)) withdrawals) (\<lambda>withdrawals.
          Some \<lparr>rd_burns = burns, rd_withdrawals = withdrawals\<rparr>))
      | _ \<Rightarrow> None)"

text \<open>An externally tagged enum of two newtype variants: an object with exactly one field.\<close>

fun reply_decode :: "(json \<Rightarrow> 'a option) \<Rightarrow> json \<Rightarrow> 'a admin_reply option" where
  "reply_decode read (JObject [(tag, v)]) =
     (if tag = ''ok'' then map_option ReplyOk (read v)
      else if tag = ''error'' then map_option ReplyError (error_decode v)
      else None)"
| "reply_decode read _ = None"

datatype admin_client_error =
    CannotConnect | CannotEncode | ReplyTimedOut | ReplyLost | ReplyTooLarge | InvalidReply
  | RequestFailed string string

text \<open>Whether the socket can be connected to, and what becomes of a line that is sent.\<close>

datatype client_io = IoTimedOut | IoFailed | IoReply bytes

record client_socket =
  cs_connects :: bool
  cs_answer :: "bytes \<Rightarrow> client_io"

definition exchange :: "ext \<Rightarrow> (json \<Rightarrow> 'a option) \<Rightarrow> client_socket \<Rightarrow> admin_request \<Rightarrow> admin_client_error + 'a" where
  "exchange x read socket request =
     (if \<not> cs_connects socket then Inl CannotConnect
      else case x_json_to_vec x (request_json request) of
        None \<Rightarrow> Inl CannotEncode
      | Some line \<Rightarrow>
          (case cs_answer socket (line @ [newline]) of
             IoTimedOut \<Rightarrow> Inl ReplyTimedOut
           | IoFailed \<Rightarrow> Inl ReplyLost
           | IoReply stream \<Rightarrow>
               let answer = take (REPLY_LIMIT + 1) stream in
               if REPLY_LIMIT < length answer then Inl ReplyTooLarge
               else (case Option.bind (x_json_value x answer) (reply_decode read) of
                   None \<Rightarrow> Inl InvalidReply
                 | Some (ReplyOk v) \<Rightarrow> Inr v
                 | Some (ReplyError b) \<Rightarrow> Inl (RequestFailed (eb_code b) (eb_message b)))))"

definition parse_cursor :: "ext \<Rightarrow> admin_ext \<Rightarrow> string \<Rightarrow> string option" where
  "parse_cursor x ax v = map_option (\<lambda>_. v) (parse_note_id x ax v)"

definition rsplit_colon :: "string \<Rightarrow> (string \<times> string) option" where
  "rsplit_colon s =
     (if CHR '':'' \<in> set s
      then Some (rev (tl (dropWhile (\<lambda>c. c \<noteq> CHR '':'') (rev s))), rev (takeWhile (\<lambda>c. c \<noteq> CHR '':'') (rev s)))
      else None)"

text \<open>\<^verbatim>\<open>i64::from_str\<close>.\<close>

definition parse_i64 :: "string \<Rightarrow> int option" where
  "parse_i64 s =
     (case s of
        [] \<Rightarrow> None
      | c # ds \<Rightarrow>
          if c = CHR ''-'' then
            (if ds = [] then None
             else case digits_value 0 ds of
                 None \<Rightarrow> None
               | Some n \<Rightarrow> if int n \<le> 2 ^ 63 then Some (- int n) else None)
          else map_option int (parse_unsigned (2 ^ 63) s))"

datatype selection_error = NoColon | BadNoteId | BadSequence | SequenceNotPositive

definition parse_selection :: "ext \<Rightarrow> admin_ext \<Rightarrow> string \<Rightarrow> selection_error + (string \<times> int)" where
  "parse_selection x ax v =
     and_then (ok_or (rsplit_colon v) NoColon) (\<lambda>(id, seq).
     and_then (ok_or (parse_cursor x ax id) BadNoteId) (\<lambda>id.
     and_then (ok_or (parse_i64 seq) BadSequence) (\<lambda>revision.
     if revision \<le> 0 then Inl SequenceNotPositive else Inr (id, revision))))"

text \<open>The lines that \<^verbatim>\<open>client::run\<close> prints.\<close>

definition tab :: char where "tab = CHR 0x09"

definition hold_text :: "wire_hold \<Rightarrow> string" where
  "hold_text h =
     wh_note_id h @ [tab] @ wh_kind h @ [tab] @ wh_reason h @ [tab] @
     (case wh_http_status h of None \<Rightarrow> ''-'' | Some n \<Rightarrow> show_nat n) @ [tab] @
     (case wh_circle_message h of None \<Rightarrow> ''-'' | Some m \<Rightarrow> m) @ [tab] @ ''event_seq='' @ show_int (wh_event_seq h)"

definition page_text :: "wire_page \<Rightarrow> string list" where
  "page_text p =
     [''faucet '' @ wp_faucet_account_id p,
      ''trusted anchor '' @ show_nat (wp_trusted_anchor_block p) @ '' '' @ wp_trusted_anchor_commitment p] @
     map hold_text (wp_holds p) @
     (case wp_next_after p of None \<Rightarrow> [] | Some after \<Rightarrow> [''next_after='' @ after])"

definition released_text :: "released \<Rightarrow> string" where
  "released_text r =
     ''released burns='' @ show_nat (rd_burns r) @ '' withdrawals='' @ show_nat (rd_withdrawals r) @
     '' (release committed; payout is not confirmed)''"

fun client_run :: "ext \<Rightarrow> client_socket \<Rightarrow> admin_request \<Rightarrow> admin_client_error + string list" where
  "client_run x socket (HoldsRequest after) =
     and_then (exchange x page_decode_json socket (HoldsRequest after)) (\<lambda>p. Inr (page_text p))"
| "client_run x socket (ReleaseRequest n seq checked) =
     and_then (exchange x released_decode socket (ReleaseRequest n seq checked)) (\<lambda>r. Inr [released_text r])"

section \<open>What one side writes the other reads\<close>

lemma digits_value_append: "digits_value acc (xs @ ys) = Option.bind (digits_value acc xs) (\<lambda>n. digits_value n ys)"
  by (induction xs arbitrary: acc) auto

lemma digits_value_show_nat [simp]: "digits_value 0 (show_nat n) = Some n"
proof (induction n rule: show_nat.induct)
  case (1 n)
  then show ?case
    by (cases "n < 10") (auto simp: show_nat_step digits_value_append is_ascii_digit_def of_char_digit)
qed

lemma show_nat_no_sign: "show_nat n = c # ds \<Longrightarrow> c \<noteq> CHR ''-''"
  using show_nat_digits [of n] by (auto simp: is_ascii_digit_def)

lemma number_value_show [simp]: "number_value (show_nat n) = Some (int n)" "number_value (show_int i) = Some i"
proof -
  show nat: "number_value (show_nat n) = Some (int n)" for n
    using show_nat_no_sign [of n] digits_value_show_nat [of n] show_nat_nonempty [of n]
    by (cases "show_nat n") (auto simp: number_value_def)
  show "number_value (show_int i) = Some i"
    by (cases "i < 0") (simp_all add: show_int_def nat, simp add: number_value_def)
qed

lemma json_as_nat_of [simp]: "json_as_nat bound (json_nat n) = (if int n < bound then Some n else None)"
  by (auto simp: json_as_nat_def json_nat_def)

lemma optional_of [simp]:
  "read (write a) = Some a \<Longrightarrow> write a \<noteq> JNull \<Longrightarrow> optional read (Some (optional_json write (Some a))) = Some (Some a)"
  "optional read (Some (optional_json write None)) = Some None"
  by (cases "write a"; simp add: optional_def or_default_def optional_json_def)
     (simp add: optional_def or_default_def optional_json_def)

lemma request_decode_json:
  assumes "case r of HoldsRequest _ \<Rightarrow> True | ReleaseRequest _ seq _ \<Rightarrow> - (2 ^ 63) \<le> seq \<and> seq < 2 ^ 63"
  shows "request_decode (request_json r) = Some r"
  using assms
  by (cases r)
     (auto simp: request_decode_def json_field_def holds_of_def release_of_def or_default_def optional_json_def
        required_def json_as_i64_def split: option.splits)

definition hold_in_range :: "wire_hold \<Rightarrow> bool" where
  "hold_in_range h \<longleftrightarrow>
     (case wh_http_status h of None \<Rightarrow> True | Some n \<Rightarrow> n < 2 ^ 16) \<and> - (2 ^ 63) \<le> wh_event_seq h \<and> wh_event_seq h < 2 ^ 63"

lemma hold_decode_json: "hold_in_range h \<Longrightarrow> hold_decode (hold_json h) = Some h"
  by (cases h)
     (auto simp: hold_in_range_def hold_decode_def hold_json_def json_field_def required_def optional_def or_default_def
        optional_json_def json_as_i64_def json_nat_def json_as_nat_def split: option.splits)

lemma those_decoded: "\<forall>a \<in> set xs. read (write a) = Some a \<Longrightarrow> those (map (\<lambda>a. read (write a)) xs) = Some xs"
  by (induction xs) auto

lemma page_decode_of:
  assumes "list_all hold_in_range (wp_holds p)" and "wp_trusted_anchor_block p < 2 ^ 32"
  shows "page_decode_json (page_json p) = Some p"
proof -
  have holds: "those (map (\<lambda>h. hold_decode (hold_json h)) (wp_holds p)) = Some (wp_holds p)"
    using assms(1) by (intro those_decoded) (auto simp: list_all_iff hold_decode_json)
  have "int (wp_trusted_anchor_block p) < 2 ^ 32" using assms(2) by simp
  with holds show ?thesis
    by (cases p)
       (auto simp: page_decode_json_def page_json_def json_field_def required_def optional_def or_default_def
          optional_json_def comp_def split: option.splits)
qed

lemma released_decode_of:
  "rd_burns r < 2 ^ 64 \<Longrightarrow> rd_withdrawals r < 2 ^ 64 \<Longrightarrow> released_decode (released_json r) = Some r"
  by (cases r) (auto simp: released_decode_def released_json_def json_field_def required_def)

lemma error_decode_of: "error_decode (error_json b) = Some b"
  by (cases b) (simp add: error_json_def json_field_def required_def)

lemma reply_decode_of:
  "(\<And>v. r = ReplyOk v \<Longrightarrow> read (write v) = Some v) \<Longrightarrow> reply_decode read (reply_json write r) = Some r"
  by (cases r) (simp_all add: error_decode_of del: error_decode.simps)

lemma takeWhile_neq: "c \<notin> set xs \<Longrightarrow> takeWhile (\<lambda>b. b \<noteq> c) (xs @ c # ys) = xs"
  by (induction xs) auto

lemma dropWhile_neq: "c \<notin> set xs \<Longrightarrow> dropWhile (\<lambda>b. b \<noteq> c) (xs @ c # ys) = c # ys"
  by (induction xs) auto

lemma read_line_of:
  assumes "newline \<notin> set line" and "length line < limit"
  shows "read_line limit (line @ [newline]) = line @ [newline]"
  using assms takeWhile_neq [OF assms(1), of "[]"] by (simp add: read_line_def Let_def)

text \<open>One JSON value crosses the socket: it is written without a raw newline and reads back with one behind it.\<close>

definition json_carried :: "ext \<Rightarrow> json \<Rightarrow> bytes \<Rightarrow> bool" where
  "json_carried x j line \<longleftrightarrow>
     x_json_to_vec x j = Some line \<and> newline \<notin> set line \<and> x_json_value x (line @ [newline]) = Some j"

lemma read_request_of:
  assumes "json_carried x (request_json r) line" and "length line < REQUEST_LIMIT"
    and "case r of HoldsRequest _ \<Rightarrow> True | ReleaseRequest _ seq _ \<Rightarrow> - (2 ^ 63) \<le> seq \<and> seq < 2 ^ 63"
  shows "read_request x (ReadStream (line @ [newline])) = Inr r"
  using assms request_decode_json [OF assms(3)]
  by (simp add: json_carried_def read_line_of Let_def)

lemma rsplit_colon_of:
  assumes "CHR '':'' \<notin> set b"
  shows "rsplit_colon (a @ CHR '':'' # b) = Some (a, b)"
proof -
  have "CHR '':'' \<notin> set (rev b)" using assms by simp
  from takeWhile_neq [OF this, of "rev a"] dropWhile_neq [OF this, of "rev a"] show ?thesis
    by (simp add: rsplit_colon_def)
qed

lemma parse_i64_show: "0 < seq \<Longrightarrow> seq < 2 ^ 63 \<Longrightarrow> parse_i64 (show_int seq) = Some seq"
  using show_nat_no_sign [of "nat seq"] show_nat_nonempty [of "nat seq"] show_nat_digits [of "nat seq"]
    digits_value_show_nat [of "nat seq"]
  by (cases "show_nat (nat seq)") (auto simp: show_int_def parse_i64_def parse_unsigned_def is_ascii_digit_def)

lemma show_int_no_colon: "0 < seq \<Longrightarrow> CHR '':'' \<notin> set (show_int seq)"
  using show_nat_digits [of "nat seq"] by (auto simp: show_int_def is_ascii_digit_def)

section \<open>A release through the socket\<close>

definition answering :: "ext \<Rightarrow> admin_ext \<Rightarrow> (operation \<Rightarrow> admin_error + admin_value) \<Rightarrow> client_socket" where
  "answering x ax dispatched =
     \<lparr>cs_connects = True,
      cs_answer = (\<lambda>line. case serve x ax dispatched (ReadStream line) of None \<Rightarrow> IoFailed | Some r \<Rightarrow> IoReply r)\<rparr>"

definition result_json :: "ext \<Rightarrow> admin_error + released \<Rightarrow> json" where
  "result_json x r =
     (case r of Inr v \<Rightarrow> JObject [(''ok'', released_json v)] | Inl e \<Rightarrow> JObject [(''error'', error_json (admin_error_body x e))])"

lemma encode_result:
  "encode_reply x value_json (map_sum id ReleasedHolds r) = map_option (\<lambda>line. line @ [newline]) (x_json_to_vec x (result_json x r))"
  by (cases r) (simp_all add: encode_reply_def result_json_def)

lemma reply_decode_result:
  "(\<And>v. r = Inr v \<Longrightarrow> rd_burns v < 2 ^ 64 \<and> rd_withdrawals v < 2 ^ 64) \<Longrightarrow>
   reply_decode released_decode (result_json x r) =
     Some (case r of Inr v \<Rightarrow> ReplyOk v | Inl e \<Rightarrow> ReplyError (admin_error_body x e))"
  by (cases r) (simp_all add: result_json_def released_decode_of error_decode_of del: error_decode.simps)

lemma exchange_answering:
  assumes "json_carried x (request_json request) line" and "requested x ax (ReadStream (line @ [newline])) = Inr op"
    and "dispatched op = map_sum id ReleasedHolds outcome"
    and "json_carried x (result_json x outcome) answer" and "length answer < REPLY_LIMIT"
    and "\<And>v. outcome = Inr v \<Longrightarrow> rd_burns v < 2 ^ 64 \<and> rd_withdrawals v < 2 ^ 64"
  shows "exchange x released_decode (answering x ax dispatched) request =
    (case outcome of Inr v \<Rightarrow> Inr v
     | Inl e \<Rightarrow> Inl (RequestFailed (eb_code (admin_error_body x e)) (eb_message (admin_error_body x e))))"
proof -
  have "serve x ax dispatched (ReadStream (line @ [newline])) = Some (answer @ [newline])"
    using assms(2-4) by (simp add: serve_def encode_result json_carried_def)
  then show ?thesis
    using assms(1,4,5) reply_decode_result [OF assms(6)]
    by (simp add: exchange_def answering_def json_carried_def Let_def split: sum.splits)
qed

text \<open>
  C40: A release crosses the admin socket unchanged, both ways. The selection that an operator types from
  a line of the holds list, a canonical note ID and its event number, is accepted by the client; the
  listener makes exactly that selection of the line the client sends, never another note, another
  number or an unasked confirmation; and whatever the release ends with, its counts or one of the
  errors, is what the client reports. JSON text is assumed to carry the two values that are sent, and
  their lines to be within the limits of the protocol.
\<close>

theorem release_crosses_socket:
  assumes "ax_note_from_hex ax (x_note_hex x n) = Some n" and "0 < seq" and "seq < 2 ^ 63"
    and "json_carried x (request_json (ReleaseRequest (x_note_hex x n) seq checked)) line" and "length line < REQUEST_LIMIT"
    and "dispatched (Release \<lparr>rl_note_id = n, rl_expected_event_seq = seq, rl_circle_not_accepted = checked\<rparr>) =
      map_sum id ReleasedHolds outcome"
    and "json_carried x (result_json x outcome) answer" and "length answer < REPLY_LIMIT"
    and "\<forall>v. outcome = Inr v \<longrightarrow> rd_burns v < 2 ^ 64 \<and> rd_withdrawals v < 2 ^ 64"
  shows "parse_selection x ax (x_note_hex x n @ '':'' @ show_int seq) = Inr (x_note_hex x n, seq) \<and>
    exchange x released_decode (answering x ax dispatched) (ReleaseRequest (x_note_hex x n) seq checked) =
    (case outcome of Inr v \<Rightarrow> Inr v
     | Inl e \<Rightarrow> Inl (RequestFailed (eb_code (admin_error_body x e)) (eb_message (admin_error_body x e))))"
proof
  have id: "parse_note_id x ax (x_note_hex x n) = Some n" using assms(1) by (simp add: parse_note_id_def)
  show "parse_selection x ax (x_note_hex x n @ '':'' @ show_int seq) = Inr (x_note_hex x n, seq)"
    using id assms(2,3) rsplit_colon_of [OF show_int_no_colon [OF assms(2)], of "x_note_hex x n"]
    by (simp add: parse_selection_def parse_cursor_def parse_i64_show)
  have "requested x ax (ReadStream (line @ [newline])) =
      Inr (Release \<lparr>rl_note_id = n, rl_expected_event_seq = seq, rl_circle_not_accepted = checked\<rparr>)"
    using read_request_of [OF assms(4,5)] assms(2,3) id by (simp add: requested_def)
  from exchange_answering [where dispatched = dispatched, OF assms(4) this assms(6) assms(7,8)] assms(9) show
    "exchange x released_decode (answering x ax dispatched) (ReleaseRequest (x_note_hex x n) seq checked) =
    (case outcome of Inr v \<Rightarrow> Inr v
     | Inl e \<Rightarrow> Inl (RequestFailed (eb_code (admin_error_body x e)) (eb_message (admin_error_body x e))))" by blast
qed

definition socket_request :: json where
  "socket_request = request_json (ReleaseRequest ''0xab'' 3 True)"

definition socket_ext :: ext where
  "socket_ext = sample_ext\<lparr>x_note_hex := \<lambda>_. ''0xab'',
     x_json_to_vec := \<lambda>j. Some (if j = socket_request then [1] else [2]),
     x_json_value := \<lambda>bs. if bs = [1, 10] then Some socket_request
       else if bs = [2, 10] then Some (result_json sample_ext (Inr \<lparr>rd_burns = 1, rd_withdrawals = 0\<rparr>)) else None\<rparr>"

theorem release_crosses_socket_witness:
  "exchange socket_ext released_decode
     (answering socket_ext \<lparr>ax_note_from_hex = \<lambda>_. Some 7, ax_account_hex = \<lambda>_. [], ax_word_hex = \<lambda>_. []\<rparr>
       (\<lambda>_. Inr (ReleasedHolds \<lparr>rd_burns = 1, rd_withdrawals = 0\<rparr>)))
     (ReleaseRequest ''0xab'' 3 True) = Inr \<lparr>rd_burns = 1, rd_withdrawals = 0\<rparr>"
proof -
  let ?ax = "\<lparr>ax_note_from_hex = \<lambda>_. Some 7, ax_account_hex = \<lambda>_. [], ax_word_hex = \<lambda>_. []\<rparr>"
  let ?r = "Inr \<lparr>rd_burns = 1, rd_withdrawals = 0\<rparr> :: admin_error + released"
  have hex: "x_note_hex socket_ext n = ''0xab''" for n by (simp add: socket_ext_def)
  have req: "json_carried socket_ext (request_json (ReleaseRequest ''0xab'' 3 True)) [1]"
    by (simp add: json_carried_def socket_ext_def socket_request_def newline_def)
  have "result_json socket_ext ?r = result_json sample_ext ?r" "result_json sample_ext ?r \<noteq> socket_request"
    by (simp_all add: result_json_def socket_request_def)
  then have rep: "json_carried socket_ext (result_json socket_ext ?r) [2]"
    by (simp add: json_carried_def socket_ext_def newline_def)
  show ?thesis
    using release_crosses_socket [of ?ax socket_ext 7 3 True "[1]" "\<lambda>_. Inr (ReleasedHolds \<lparr>rd_burns = 1, rd_withdrawals = 0\<rparr>)" ?r "[2]"]
      req rep by (simp add: hex REQUEST_LIMIT_def REPLY_LIMIT_def)
qed

end
