(* ===== verification/Admin_Machine.thy ===== *)
theory Admin_Machine
  imports Admin_Socket
begin

text \<open>
  The admin socket at work: connections of \<^verbatim>\<open>Server::run\<close> and \<^verbatim>\<open>serve\<close>, the bounded inbox, the attester's task
  that takes commands from it, the clock, and the stop of the listener, as one step relation over every
  interleaving. A command is checked for abandonment when it is taken and run afterwards, so time may
  pass, and its client may give up, in between.
\<close>

section \<open>State\<close>

text \<open>Of a connection: it reads, waits until a deadline, has its result, or its command was dropped.\<close>

datatype phase = Reading | Waiting nat | Ready "release_error + admin_value" | Orphaned

text \<open>One run of a command: its connection, operation and deadline, when it was taken, and what it did.\<close>

record execution =
  ex_id :: nat
  ex_operation :: operation
  ex_deadline :: nat
  ex_taken :: nat
  ex_result :: "release_error + admin_value"
  ex_before :: store
  ex_after :: store

text \<open>
  \<open>am_running\<close> is the command in the attester's hands with the time it was taken. \<open>am_asked\<close> (what the
  request line of a connection stood for), \<open>am_replies\<close> (the result behind its reply line) and \<open>am_ran\<close>
  are records for the theorems.
\<close>

record admin_state =
  am_attester :: attester
  am_now :: nat
  am_stopping :: bool
  am_inbox :: admin_inbox
  am_running :: "(queued \<times> nat) option"
  am_conns :: "nat \<Rightarrow> phase option"
  am_next :: nat
  am_asked :: "nat \<Rightarrow> operation option"
  am_replies :: "nat \<Rightarrow> (admin_error + admin_value) option"
  am_ran :: "execution list"

definition admin_initial :: "attester \<Rightarrow> admin_inbox \<Rightarrow> nat \<Rightarrow> admin_state" where
  "admin_initial a inbox now =
     \<lparr>am_attester = a, am_now = now, am_stopping = False, am_inbox = inbox, am_running = None, am_conns = (\<lambda>_. None),
      am_next = 0, am_asked = (\<lambda>_. None), am_replies = (\<lambda>_. None), am_ran = []\<rparr>"

section \<open>Operations\<close>

text \<open>The reply is written and the connection closes.\<close>

definition reply_to :: "nat \<Rightarrow> admin_error + admin_value \<Rightarrow> admin_state \<Rightarrow> admin_state" where
  "reply_to c r s = s\<lparr>am_conns := (am_conns s)(c := None), am_replies := (am_replies s)(c \<mapsto> r)\<rparr>"

text \<open>The oneshot channel: a result reaches a connection that still waits, a dropped sender wakes it.\<close>

definition send_result :: "nat \<Rightarrow> (release_error + admin_value) option \<Rightarrow> admin_state \<Rightarrow> admin_state" where
  "send_result c r s =
     (case am_conns s c of
        Some (Waiting _) \<Rightarrow>
          s\<lparr>am_conns := (am_conns s)(c \<mapsto> (case r of None \<Rightarrow> Orphaned | Some v \<Rightarrow> Ready v))\<rparr>
      | _ \<Rightarrow> s)"

text \<open>\<^verbatim>\<open>Command::abandoned\<close>.\<close>

definition abandoned :: "queued \<Rightarrow> admin_state \<Rightarrow> bool" where
  "abandoned q s \<longleftrightarrow> qu_deadline q \<le> am_now s \<or> (\<forall>d. am_conns s (qu_id q) \<noteq> Some (Waiting d))"

fun answer_of :: "admin_ext \<Rightarrow> action list \<Rightarrow> (release_error + admin_value) option" where
  "answer_of ax [AnsweredList r] = Some (map_sum id (\<lambda>p. ListedHolds (wire_page_of ax p)) r)"
| "answer_of ax [AnsweredRelease r] =
     Some (map_sum id (\<lambda>(b, w). ReleasedHolds \<lparr>rd_burns = b, rd_withdrawals = w\<rparr>) r)"
| "answer_of ax _ = None"

text \<open>The attester runs the command in its hands: \<^verbatim>\<open>handle_admin\<close> past the check for abandonment.\<close>

definition run_taken :: "env \<Rightarrow> admin_ext \<Rightarrow> queued \<Rightarrow> nat \<Rightarrow> admin_state \<Rightarrow> admin_state" where
  "run_taken e ax q taken s =
     (let a = am_attester s;
          b = handle_admin e \<lparr>cm_operation = qu_operation q, cm_abandoned = False\<rparr> a;
          r = answer_of ax (drop (length (at_trace a)) (at_trace b));
          t = s\<lparr>am_attester := b, am_running := None\<rparr> in
      send_result (qu_id q) r
        (case r of
           None \<Rightarrow> t
         | Some v \<Rightarrow> t\<lparr>am_ran := am_ran t @
             [\<lparr>ex_id = qu_id q, ex_operation = qu_operation q, ex_deadline = qu_deadline q, ex_taken = taken,
               ex_result = v, ex_before = at_store a, ex_after = at_store b\<rparr>]\<rparr>))"

text \<open>The attester drops its end of the inbox, and with it every queued command.\<close>

definition close_inbox :: "admin_state \<Rightarrow> admin_state" where
  "close_inbox s =
     s\<lparr>am_inbox := \<lparr>in_queue = [], in_open = False\<rparr>,
       am_conns := (\<lambda>c. case am_conns s c of
           Some (Waiting d) \<Rightarrow>
             if c \<in> qu_id ` set (in_queue (am_inbox s)) then Some Orphaned else Some (Waiting d)
         | p \<Rightarrow> p)\<rparr>"

definition pop_queue :: "admin_state \<Rightarrow> admin_state" where
  "pop_queue s = s\<lparr>am_inbox := (am_inbox s)\<lparr>in_queue := tl (in_queue (am_inbox s))\<rparr>\<rparr>"

section \<open>Steps\<close>

inductive admin_step :: "env \<Rightarrow> admin_ext \<Rightarrow> admin_state \<Rightarrow> admin_state \<Rightarrow> bool" for e ax where
  Accept: "\<lbrakk>\<not> am_stopping s; card (dom (am_conns s)) < MAX_CONNECTIONS\<rbrakk> \<Longrightarrow>
    admin_step e ax s (s\<lparr>am_conns := (am_conns s)(am_next s \<mapsto> Reading), am_next := Suc (am_next s)\<rparr>)"
| Refuse: "\<lbrakk>am_conns s c = Some Reading; r = ReadCancelled \<longrightarrow> am_stopping s; requested (en_ext e) ax r = Inl err\<rbrakk> \<Longrightarrow>
    admin_step e ax s (reply_to c (Inl err) s)"
| Turn_Away: "\<lbrakk>am_conns s c = Some Reading; requested (en_ext e) ax r = Inr op;
      admit (am_stopping s) (am_now s) c op (am_inbox s) = Inl err\<rbrakk> \<Longrightarrow>
    admin_step e ax s (reply_to c (Inl err) s)"
| Admit: "\<lbrakk>am_conns s c = Some Reading; requested (en_ext e) ax r = Inr op;
      admit (am_stopping s) (am_now s) c op (am_inbox s) = Inr inbox\<rbrakk> \<Longrightarrow>
    admin_step e ax s (s\<lparr>am_inbox := inbox, am_conns := (am_conns s)(c \<mapsto> Waiting (am_now s + COMMAND_WAIT)),
      am_asked := (am_asked s)(c \<mapsto> op)\<rparr>)"
| Skip: "\<lbrakk>am_running s = None; in_queue (am_inbox s) = q # qs; abandoned q s\<rbrakk> \<Longrightarrow>
    admin_step e ax s (send_result (qu_id q) None (pop_queue s))"
| Take: "\<lbrakk>am_running s = None; in_queue (am_inbox s) = q # qs; \<not> abandoned q s\<rbrakk> \<Longrightarrow>
    admin_step e ax s ((pop_queue s)\<lparr>am_running := Some (q, am_now s)\<rparr>)"
| Run: "am_running s = Some (q, taken) \<Longrightarrow> admin_step e ax s (run_taken e ax q taken s)"
| Deliver: "am_conns s c = Some (Ready r) \<Longrightarrow> admin_step e ax s (reply_to c (await (ReceivedResult r)) s)"
| Dropped: "am_conns s c = Some Orphaned \<Longrightarrow> admin_step e ax s (reply_to c (await SenderDropped) s)"
| Time_Out: "\<lbrakk>am_conns s c = Some (Waiting d); d \<le> am_now s\<rbrakk> \<Longrightarrow>
    admin_step e ax s (reply_to c (await ReceiveTimedOut) s)"
| Cut: "admin_step e ax s (s\<lparr>am_conns := (am_conns s)(c := None)\<rparr>)"
| Advance: "am_now s \<le> t \<Longrightarrow> admin_step e ax s (s\<lparr>am_now := t\<rparr>)"
| Work: "am_running s = None \<Longrightarrow> admin_step e ax s (s\<lparr>am_attester := a\<rparr>)"
| Stop: "admin_step e ax s (s\<lparr>am_stopping := True\<rparr>)"
| Close: "am_running s = None \<Longrightarrow> admin_step e ax s (close_inbox s)"

definition admin_started :: "admin_state \<Rightarrow> bool" where
  "admin_started s \<longleftrightarrow>
     (\<exists>so inbox a now. server_bind so = (Inr inbox, OwnSocket True) \<and> s = admin_initial a inbox now)"

section \<open>What a command does\<close>

text \<open>A listing changes nothing; a release commits what it reports, or fails and changes nothing.\<close>

definition carried_out :: "operation \<Rightarrow> release_error + admin_value \<Rightarrow> store \<Rightarrow> store \<Rightarrow> bool" where
  "carried_out op r before after \<longleftrightarrow>
     (case (op, r) of
        (_, Inl _) \<Rightarrow> after = before
      | (ListHolds _, Inr (ListedHolds _)) \<Rightarrow> after = before
      | (Release sel, Inr (ReleasedHolds v)) \<Rightarrow> release_checked sel before = Inr ((rd_burns v, rd_withdrawals v), after)
      | _ \<Rightarrow> False)"

lemma carried_out_Inl: "carried_out op (Inl err) before after \<Longrightarrow> after = before"
  by (simp add: carried_out_def split: operation.splits)

lemma sql_read_keeps: "sql_read e q a = (r, b) \<Longrightarrow> at_store b = at_store a \<and> at_trace b = at_trace a"
  by (auto simp: sql_read_def sql_def tick_def and_then_def split: if_splits sum.splits)

lemma handle_admin_carries_out:
  assumes "answer_of ax (drop (length (at_trace a)) (at_trace (handle_admin e c a))) = Some r"
  shows "carried_out (cm_operation c) r (at_store a) (at_store (handle_admin e c a))"
proof (cases "en_cancelled e (at_tick a) \<or> cm_abandoned c")
  case True
  then show ?thesis using assms by (simp add: handle_admin_def tick_def)
next
  case False
  show ?thesis
  proof (cases "cm_operation c")
    case (ListHolds after)
    obtain q b where q: "sql_read e (\<lambda>s. holds_page (en_ext e) s after) (tick a) = (q, b)" by fastforce
    then have "at_store b = at_store a" "at_trace b = at_trace a" using sql_read_keeps by (fastforce simp: tick_def)+
    then show ?thesis using assms False ListHolds q
      by (auto simp: handle_admin_def note_action_def carried_out_def split: sum.splits)
  next
    case (Release sel)
    obtain q b where q: "sql_release e sel (tick a) = (q, b)" by fastforce
    then have "at_trace b = at_trace a" "case q of Inl _ \<Rightarrow> at_store b = at_store a
        | Inr counts \<Rightarrow> release_checked sel (at_store a) = Inr (counts, at_store b)"
      by (auto simp: sql_release_def tick_def split: if_splits sum.splits)
    then show ?thesis using assms False Release q
      by (auto simp: handle_admin_def note_action_def carried_out_def split: sum.splits)
  qed
qed

section \<open>The invariant\<close>

fun in_hand :: "(queued \<times> nat) option \<Rightarrow> queued list" where
  "in_hand None = []"
| "in_hand (Some (q, _)) = [q]"

definition admin_queue :: "admin_state \<Rightarrow> queued list" where
  "admin_queue s = in_hand (am_running s) @ in_queue (am_inbox s)"

definition pending :: "nat \<Rightarrow> admin_state \<Rightarrow> bool" where
  "pending c s \<longleftrightarrow> c \<in> qu_id ` set (admin_queue s)"

definition runs_of :: "nat \<Rightarrow> admin_state \<Rightarrow> execution list" where
  "runs_of c s = filter (\<lambda>ex. ex_id ex = c) (am_ran s)"

fun told_truth :: "(admin_error + admin_value) option \<Rightarrow> execution list \<Rightarrow> bool \<Rightarrow> bool" where
  "told_truth (Some (Inr v)) xs p \<longleftrightarrow> \<not> p \<and> map ex_result xs = [Inr v]"
| "told_truth (Some (Inl (AdminRelease err))) xs p \<longleftrightarrow> \<not> p \<and> map ex_result xs = [Inl err]"
| "told_truth (Some (Inl ReplyTimeout)) xs p \<longleftrightarrow> length xs \<le> 1 \<and> (p \<longrightarrow> xs = [])"
| "told_truth None xs p \<longleftrightarrow> length xs \<le> 1 \<and> (p \<longrightarrow> xs = [])"
| "told_truth _ xs p \<longleftrightarrow> \<not> p \<and> xs = []"

text \<open>A connection that is open has no reply; its command ran only if its result is there.\<close>

fun phase_ok :: "phase option \<Rightarrow> (admin_error + admin_value) option \<Rightarrow> execution list \<Rightarrow> bool \<Rightarrow> bool" where
  "phase_ok None r xs p \<longleftrightarrow> told_truth r xs p"
| "phase_ok (Some (Waiting _)) r xs p \<longleftrightarrow> r = None \<and> xs = []"
| "phase_ok (Some (Ready v)) r xs p \<longleftrightarrow> r = None \<and> map ex_result xs = [v] \<and> \<not> p"
| "phase_ok (Some _) r xs p \<longleftrightarrow> r = None \<and> xs = [] \<and> \<not> p"

definition conn_ok :: "nat \<Rightarrow> admin_state \<Rightarrow> bool" where
  "conn_ok c s \<longleftrightarrow>
     phase_ok (am_conns s c) (am_replies s c) (runs_of c s) (pending c s) \<and>
     (am_next s \<le> c \<longrightarrow> am_conns s c = None \<and> am_replies s c = None \<and> runs_of c s = [] \<and> \<not> pending c s)"

definition asked_ok :: "admin_state \<Rightarrow> bool" where
  "asked_ok s \<longleftrightarrow>
     (\<forall>q \<in> set (admin_queue s). am_asked s (qu_id q) = Some (qu_operation q)) \<and>
     (\<forall>q t. am_running s = Some (q, t) \<longrightarrow> t < qu_deadline q) \<and>
     (\<forall>ex \<in> set (am_ran s). am_asked s (ex_id ex) = Some (ex_operation ex) \<and> ex_taken ex < ex_deadline ex \<and>
        carried_out (ex_operation ex) (ex_result ex) (ex_before ex) (ex_after ex))"

definition bounded :: "admin_state \<Rightarrow> bool" where
  "bounded s \<longleftrightarrow> finite (dom (am_conns s)) \<and> card (dom (am_conns s)) \<le> MAX_CONNECTIONS \<and>
     length (in_queue (am_inbox s)) \<le> INBOX_CAPACITY"

definition admin_inv :: "admin_state \<Rightarrow> bool" where
  "admin_inv s \<longleftrightarrow> (\<forall>c. conn_ok c s) \<and> distinct (map qu_id (admin_queue s)) \<and> asked_ok s \<and> bounded s"

lemmas admin_state_defs = reply_to_def send_result_def pop_queue_def close_inbox_def admin_queue_def
lemmas conn_defs = conn_ok_def pending_def runs_of_def admin_queue_def

lemma server_bind_Inr: "server_bind so = (Inr inbox, f) \<Longrightarrow> inbox = \<lparr>in_queue = [], in_open = True\<rparr>"
  by (cases "remove_stale_socket so") (auto simp: server_bind_def split: if_splits)

lemma admin_started_inv: "admin_started s \<Longrightarrow> admin_inv s"
  by (auto simp: admin_started_def admin_initial_def admin_inv_def conn_defs asked_ok_def admin_queue_def
      bounded_def dest!: server_bind_Inr)

lemma admit_Inr:
  "admit stopping now c op inbox = Inr inbox' \<longleftrightarrow> \<not> stopping \<and> in_open inbox \<and> length (in_queue inbox) < INBOX_CAPACITY \<and>
     inbox' = inbox\<lparr>in_queue := in_queue inbox @ [\<lparr>qu_id = c, qu_operation = op, qu_deadline = now + COMMAND_WAIT\<rparr>]\<rparr>"
  by (auto simp: admit_def)

lemma admit_Inl: "admit stopping now c op inbox = Inl err \<Longrightarrow> err \<in> {Stopping, Unavailable, QueueFull}"
  by (auto simp: admit_def split: if_splits)

lemma requested_Inl: "requested x ax r = Inl err \<Longrightarrow> err = Stopping \<or> err = RequestTooLarge \<or> (\<exists>m. err = InvalidInput m)"
proof -
  have read: "read_request x r = Inl err \<Longrightarrow> err = Stopping \<or> err = RequestTooLarge \<or> (\<exists>m. err = InvalidInput m)"
    by (cases r) (auto simp: Let_def ok_or_def split: if_splits option.splits)
  have "request_operation x ax q = Inl err \<Longrightarrow> \<exists>m. err = InvalidInput m" for q
    by (cases q) (auto split: option.splits if_splits)
  with read show "requested x ax r = Inl err \<Longrightarrow> ?thesis"
    by (auto simp: requested_def and_then_def split: sum.splits)
qed

lemma card_dom_del: "finite (dom m) \<Longrightarrow> card (dom m - {c}) \<le> card (dom m)"
  by (simp add: card_Diff1_le)

lemma bounded_step: "admin_step e ax s t \<Longrightarrow> bounded s \<Longrightarrow> bounded t"
proof (induction rule: admin_step.induct)
  case (Close s)
  have "dom (am_conns (close_inbox s)) = dom (am_conns s)"
    by (auto simp: close_inbox_def split: option.splits phase.splits if_splits)
  then show ?case using Close by (simp add: bounded_def close_inbox_def)
next
  case (Cut s c)
  then show ?case using card_dom_del [of "am_conns s" c] by (simp add: bounded_def)
qed (auto simp: bounded_def admin_state_defs run_taken_def Let_def admit_Inr card_insert_if insert_absorb
      split: option.splits phase.splits intro: le_trans [OF card_dom_del])

lemma send_result_same [simp]:
  "am_inbox (send_result c r s) = am_inbox s" "am_running (send_result c r s) = am_running s"
  "am_asked (send_result c r s) = am_asked s" "am_ran (send_result c r s) = am_ran s"
  "am_replies (send_result c r s) = am_replies s" "am_next (send_result c r s) = am_next s"
  by (simp_all add: send_result_def split: option.split phase.split)

lemma reply_to_same [simp]:
  "am_inbox (reply_to c r s) = am_inbox s" "am_running (reply_to c r s) = am_running s"
  "am_asked (reply_to c r s) = am_asked s" "am_ran (reply_to c r s) = am_ran s" "am_next (reply_to c r s) = am_next s"
  by (simp_all add: reply_to_def)

lemma run_taken_same [simp]:
  "am_inbox (run_taken e ax q k s) = am_inbox s" "am_running (run_taken e ax q k s) = None"
  "am_asked (run_taken e ax q k s) = am_asked s" "am_replies (run_taken e ax q k s) = am_replies s"
  "am_next (run_taken e ax q k s) = am_next s"
  by (simp_all add: run_taken_def Let_def split: option.split)

lemma queue_step:
  assumes "admin_step e ax s t" and "\<forall>c. conn_ok c s" and "distinct (map qu_id (admin_queue s))"
  shows "distinct (map qu_id (admin_queue t))"
  using assms(1)
proof cases
  case (Admit c r op inbox)
  then have "\<not> pending c s" using assms(2) by (auto simp: conn_ok_def dest!: spec [of _ c])
  then show ?thesis using assms(3) Admit by (auto simp: admit_Inr admin_queue_def pending_def)
qed (use assms(3) in \<open>auto simp: admin_queue_def pop_queue_def close_inbox_def split: option.splits\<close>)

lemma asked_step:
  assumes "admin_step e ax s t" and "\<forall>c. conn_ok c s" and "asked_ok s"
  shows "asked_ok t"
  using assms(1)
proof cases
  case (Admit c r op inbox)
  then have "\<not> pending c s" "runs_of c s = []"
    using assms(2) by (auto simp: conn_ok_def dest!: spec [of _ c])
  then show ?thesis using assms(3) Admit
    by (auto simp: admit_Inr asked_ok_def admin_queue_def pending_def runs_of_def filter_empty_conv)
next
  case (Run q k)
  then show ?thesis using assms(3) handle_admin_carries_out [of ax "am_attester s" e "\<lparr>cm_operation = qu_operation q, cm_abandoned = False\<rparr>"]
    by (auto simp: asked_ok_def admin_queue_def run_taken_def Let_def split: option.splits)
qed (use assms(3) in \<open>auto simp: asked_ok_def admin_queue_def pop_queue_def close_inbox_def abandoned_def split: option.splits\<close>)

lemma told_truth_pending: "told_truth r xs True \<Longrightarrow> xs = [] \<and> told_truth r [] False \<and> told_truth r [ex] False"
  by (cases "(r, xs, True)" rule: told_truth.cases) auto

lemma told_truth_dropped: "told_truth r xs p \<Longrightarrow> told_truth r xs False"
  by (cases "(r, xs, p)" rule: told_truth.cases) auto

lemma told_truth_reply:
  "told_truth (Some r) xs p \<Longrightarrow>
   (case r of
      Inr v \<Rightarrow> \<exists>ex. xs = [ex] \<and> ex_result ex = Inr v
    | Inl (AdminRelease err) \<Rightarrow> \<exists>ex. xs = [ex] \<and> ex_result ex = Inl err
    | Inl ReplyTimeout \<Rightarrow> length xs \<le> 1
    | Inl _ \<Rightarrow> xs = [] \<and> \<not> p)"
  by (cases "(Some r, xs, p)" rule: told_truth.cases) (auto simp: map_eq_Cons_conv)

lemma phase_ok_cut: "phase_ok ph r xs p \<Longrightarrow> told_truth r xs p"
  by (cases "(ph, r, xs, p)" rule: phase_ok.cases) (auto simp: map_eq_Cons_conv)

lemma conn_ok_reply:
  assumes "conn_ok d s" and "am_conns s c \<noteq> None" and "told_truth (Some r) (runs_of c s) (pending c s)" and "conn_ok c s"
  shows "conn_ok d (reply_to c r s)"
  using assms by (cases "d = c") (auto simp: conn_defs reply_to_def)

lemma conn_ok_reading: "conn_ok c s \<Longrightarrow> am_conns s c = Some Reading \<Longrightarrow> runs_of c s = [] \<and> \<not> pending c s"
  by (simp add: conn_ok_def)

lemma conn_ok_waiting: "conn_ok c s \<Longrightarrow> am_conns s c = Some (Waiting d) \<Longrightarrow> runs_of c s = [] \<and> am_replies s c = None"
  by (simp add: conn_ok_def)

lemma conn_step:
  assumes "admin_step e ax s t" and "\<forall>c. conn_ok c s" and "distinct (map qu_id (admin_queue s))"
  shows "conn_ok d t"
  using assms(1)
proof cases
  case Accept
  then show ?thesis using assms(2) by (cases "d = am_next s") (auto simp: conn_defs not_le dest!: spec [of _ d])
next
  case (Refuse c r err)
  have "told_truth (Some (Inl err)) (runs_of c s) (pending c s)"
    using requested_Inl [OF Refuse(4)] conn_ok_reading [OF _ Refuse(2)] assms(2) by auto
  then show ?thesis using conn_ok_reply assms(2) Refuse by auto
next
  case (Turn_Away c r op err)
  have "told_truth (Some (Inl err)) (runs_of c s) (pending c s)"
    using admit_Inl [OF Turn_Away(4)] conn_ok_reading [OF _ Turn_Away(2)] assms(2) by auto
  then show ?thesis using conn_ok_reply assms(2) Turn_Away by auto
next
  case (Admit c r op inbox)
  then show ?thesis using assms(2) [rule_format, of c] assms(2) [rule_format, of d]
    by (cases "d = c") (auto simp: conn_defs admit_Inr)
next
  case (Deliver c r)
  then have "told_truth (Some (await (ReceivedResult r))) (runs_of c s) (pending c s)"
    using assms(2) [rule_format, of c] by (cases r) (auto simp: conn_ok_def)
  then show ?thesis using conn_ok_reply assms(2) Deliver by auto
next
  case (Dropped c)
  then have "told_truth (Some (await SenderDropped)) (runs_of c s) (pending c s)"
    using assms(2) [rule_format, of c] by (auto simp: conn_ok_def)
  then show ?thesis using conn_ok_reply assms(2) Dropped by auto
next
  case (Time_Out c k)
  then have "told_truth (Some (await ReceiveTimedOut)) (runs_of c s) (pending c s)"
    using assms(2) [rule_format, of c] by (auto simp: conn_ok_def)
  then show ?thesis using conn_ok_reply assms(2) Time_Out by auto
next
  case (Skip q qs)
  then show ?thesis using assms(2) [rule_format, of d] assms(3)
    by (cases "d = qu_id q")
       (auto simp: conn_defs send_result_def pop_queue_def split: option.splits phase.splits dest: told_truth_pending)
next
  case (Take q qs)
  then show ?thesis using assms(2) [rule_format, of d] by (auto simp: conn_defs pop_queue_def)
next
  case (Run q k)
  then show ?thesis using assms(2) [rule_format, of d] assms(3)
    by (cases "d = qu_id q")
       (auto simp: conn_defs send_result_def run_taken_def Let_def split: option.splits phase.splits dest: told_truth_pending)
next
  case (Cut c)
  then show ?thesis using assms(2) [rule_format, of d]
    by (cases "d = c") (auto simp: conn_defs dest: phase_ok_cut)
next
  case Close
  then show ?thesis using assms(2) [rule_format, of d]
    by (auto simp: conn_defs close_inbox_def split: option.splits phase.splits dest: told_truth_dropped)
qed (use assms(2) [rule_format, of d] in \<open>auto simp: conn_defs\<close>)

lemma admin_inv_step: "admin_step e ax s t \<Longrightarrow> admin_inv s \<Longrightarrow> admin_inv t"
  unfolding admin_inv_def using conn_step queue_step asked_step bounded_step by blast

interpretation admin: invariant_machine admin_started "admin_step e ax" admin_inv for e ax
  by unfold_locales (auto intro: admin_started_inv admin_inv_step)

end
