(* ===== verification/Admin_Props.thy ===== *)
theory Admin_Props
  imports Admin_Machine Attester_Cycle
begin

text \<open>What a client of the admin socket may conclude from its reply.\<close>

lemma admin_limits:
  assumes "admin_started i" and "rtranclp (admin_step e ax) i s"
  shows "card (dom (am_conns s)) \<le> MAX_CONNECTIONS \<and> length (in_queue (am_inbox s)) \<le> INBOX_CAPACITY"
  using admin.reachable_inv [OF assms] by (simp add: admin_inv_def bounded_def)

text \<open>
  C15: A reply of the admin socket can be believed. Whatever connections, requests, timeouts, cut
  connections, cycles of the attester and the stop of the listener come in between: a client that is
  told a result had its command run exactly once, with this result and on the operation its request
  line stands for; a client that is told that the store refused had it run once and changed nothing; a
  client that is told of a bad request, a full or closed inbox, a stop or an unavailable attester had
  nothing run and never will; only a client that is told of a timeout is left in doubt, and even then
  its command runs at most once. A command is never taken at or after its deadline, a listing changes
  nothing, and a release commits what it reports.
\<close>

theorem admin_reply_truthful:
  assumes "admin_started i" and "rtranclp (admin_step e ax) i s" and "am_replies s c = Some r"
  shows "(case r of
      Inr v \<Rightarrow> \<exists>ex. runs_of c s = [ex] \<and> ex_result ex = Inr v
    | Inl (AdminRelease err) \<Rightarrow> \<exists>ex. runs_of c s = [ex] \<and> ex_result ex = Inl err \<and> ex_after ex = ex_before ex
    | Inl ReplyTimeout \<Rightarrow> length (runs_of c s) \<le> 1
    | Inl _ \<Rightarrow> runs_of c s = [] \<and> \<not> pending c s) \<and>
    (\<forall>ex \<in> set (runs_of c s). am_asked s c = Some (ex_operation ex) \<and> ex_taken ex < ex_deadline ex \<and>
      carried_out (ex_operation ex) (ex_result ex) (ex_before ex) (ex_after ex))"
proof -
  have inv: "conn_ok c s" "asked_ok s" using admin.reachable_inv [OF assms(1,2)] by (simp_all add: admin_inv_def)
  have ran: "\<forall>ex \<in> set (runs_of c s). am_asked s c = Some (ex_operation ex) \<and> ex_taken ex < ex_deadline ex \<and>
      carried_out (ex_operation ex) (ex_result ex) (ex_before ex) (ex_after ex)"
    using inv(2) by (auto simp: asked_ok_def runs_of_def)
  have "told_truth (Some r) (runs_of c s) (pending c s)"
    using inv(1) assms(3) phase_ok_cut by (fastforce simp: conn_ok_def)
  note told = told_truth_reply [OF this]
  have same: "ex_after ex = ex_before ex" if "ex \<in> set (runs_of c s)" "ex_result ex = Inl err" for ex err
    using ran that carried_out_Inl by metis
  show ?thesis
  proof (cases r)
    case (Inl err)
    show ?thesis
    proof (cases err)
      case (AdminRelease refused)
      then obtain ex where "runs_of c s = [ex]" "ex_result ex = Inl refused" using told Inl by auto
      then show ?thesis using same [of ex refused] Inl AdminRelease ran by simp
    qed (use told Inl ran in simp_all)
  qed (use told ran in simp)
qed

section \<open>A request that is served\<close>

lemma admin_serves:
  assumes "requested (en_ext e) ax line = Inr op"
    and "answer_of ax (drop (length (at_trace a)) (at_trace (handle_admin e \<lparr>cm_operation = op, cm_abandoned = False\<rparr> a))) = Some v"
  shows "\<exists>s. rtranclp (admin_step e ax) (admin_initial a \<lparr>in_queue = [], in_open = True\<rparr> now) s \<and>
    am_replies s 0 = Some (await (ReceivedResult v)) \<and> am_asked s 0 = Some op"
proof -
  let ?s0 = "admin_initial a \<lparr>in_queue = [], in_open = True\<rparr> now"
  let ?q = "\<lparr>qu_id = 0, qu_operation = op, qu_deadline = now + COMMAND_WAIT\<rparr>"
  let ?s1 = "?s0\<lparr>am_conns := (am_conns ?s0)(0 \<mapsto> Reading), am_next := Suc 0\<rparr>"
  let ?s2 = "?s1\<lparr>am_inbox := \<lparr>in_queue = [?q], in_open = True\<rparr>, am_conns := (am_conns ?s1)(0 \<mapsto> Waiting (now + COMMAND_WAIT)),
      am_asked := (am_asked ?s1)(0 \<mapsto> op)\<rparr>"
  let ?s3 = "(pop_queue ?s2)\<lparr>am_running := Some (?q, now)\<rparr>"
  let ?s4 = "run_taken e ax ?q now ?s3"
  have "admin_step e ax ?s0 ?s1"
    using Accept [of ?s0 e ax] by (simp add: admin_initial_def MAX_CONNECTIONS_def)
  moreover have "admin_step e ax ?s1 ?s2"
    using Admit [of ?s1 0 e ax line op] assms(1) by (simp add: admin_initial_def admit_def INBOX_CAPACITY_def)
  moreover have "admin_step e ax ?s2 ?s3"
    using Take [of ?s2 ?q "[]" e ax] by (simp add: admin_initial_def abandoned_def COMMAND_WAIT_def nanos_per_sec_def)
  moreover have "admin_step e ax ?s3 ?s4" using Run [of ?s3 ?q now e ax] by simp
  moreover have "am_conns ?s4 0 = Some (Ready v)"
    using assms(2) by (simp add: run_taken_def Let_def send_result_def pop_queue_def admin_initial_def)
  then have "admin_step e ax ?s4 (reply_to 0 (await (ReceivedResult v)) ?s4)" by (rule Deliver)
  ultimately have "rtranclp (admin_step e ax) ?s0 (reply_to 0 (await (ReceivedResult v)) ?s4)"
    by (meson rtranclp.rtrancl_into_rtrancl rtranclp.rtrancl_refl)
  moreover have "am_asked ?s4 0 = Some op" by (simp add: pop_queue_def)
  ultimately show ?thesis by (intro exI) (auto simp: reply_to_def)
qed

definition listing_env :: env where
  "listing_env = sample_env\<lparr>en_ext := sample_ext\<lparr>x_json_value := \<lambda>_. Some (request_json (HoldsRequest None))\<rparr>\<rparr>"

definition listing_ext :: admin_ext where
  "listing_ext = \<lparr>ax_note_from_hex = \<lambda>_. None, ax_account_hex = \<lambda>_. ''faucet'', ax_word_hex = \<lambda>_. ''anchor''\<rparr>"

definition listing_state :: attester where
  "listing_state = sample_state (initialize_store 9 \<lparr>ta_block_num = 3, ta_commitment = 4\<rparr>) 0"

theorem admin_reply_truthful_witness:
  "\<exists>i s v ex. admin_started i \<and> rtranclp (admin_step listing_env listing_ext) i s \<and> am_replies s 0 = Some (Inr v) \<and>
     runs_of 0 s = [ex] \<and> ex_result ex = Inr v \<and> am_asked s 0 = Some (ListHolds None)"
proof -
  let ?i = "admin_initial listing_state \<lparr>in_queue = [], in_open = True\<rparr> 0"
  have "server_bind \<lparr>so_stat = StatNotFound, so_connect = ConnectRefused, so_remove_fails = False, so_bind_fails = False,
      so_chmod_fails = False\<rparr> = (Inr \<lparr>in_queue = [], in_open = True\<rparr>, OwnSocket True)"
    by (simp add: server_bind_def remove_stale_socket_def)
  then have i: "admin_started ?i" unfolding admin_started_def by blast
  have req: "requested (en_ext listing_env) listing_ext (ReadStream []) = Inr (ListHolds None)"
    by (simp add: requested_def listing_env_def read_line_def request_decode_def json_field_def holds_of_def
        or_default_def optional_json_def)
  define v where "v = ListedHolds (wire_page_of listing_ext (holds_reply (en_config listing_env) []))"
  have ans: "answer_of listing_ext (drop (length (at_trace listing_state))
      (at_trace (handle_admin listing_env \<lparr>cm_operation = ListHolds None, cm_abandoned = False\<rparr> listing_state))) = Some (Inr v)"
    by (simp add: handle_admin_def listing_env_def listing_state_def sample_state_def sql_read_def sql_def tick_def
        holds_page_def held_rows_def initialize_store_def note_action_def v_def)
  obtain s where s: "rtranclp (admin_step listing_env listing_ext) ?i s" "am_replies s 0 = Some (Inr v)"
    and asked: "am_asked s 0 = Some (ListHolds None)" using admin_serves [OF req ans] by auto
  from admin_reply_truthful [OF i s] have "\<exists>ex. runs_of 0 s = [ex] \<and> ex_result ex = Inr v" by simp
  with i s asked show ?thesis by blast
qed

end
