(* ===== verification/Relayer_Feed.thy ===== *)
theory Relayer_Feed
  imports Circle
begin

text \<open>
  \<^verbatim>\<open>crates/xreserve-deposit-relayer/src/circle.rs\<close>: one paginated request against Circle's
  attestation feed and how its answer becomes a page. HTTP, \<^verbatim>\<open>hex\<close>, \<^verbatim>\<open>serde_json\<close> and
  \<^verbatim>\<open>parse_link_header\<close> are the record \<open>feed_ext\<close>; the structures that \<^verbatim>\<open>serde\<close> derives for the
  crate's own types are written out over JSON values.
\<close>

section \<open>Code outside the repository\<close>

text \<open>
  \<^item> \<open>fx_hex_encode\<close>, \<open>fx_hex_decode\<close>: the \<^verbatim>\<open>hex\<close> crate;
  \<^item> \<open>fx_list\<close>: \<^verbatim>\<open>serde_json::from_slice\<close> at \<^verbatim>\<open>ListResponse\<close>, \<open>fx_json_text\<close>: printing a value,
    \<open>fx_decode_error\<close>: the text of the error an undecodable value gives;
  \<^item> \<open>fx_links\<close>: \<^verbatim>\<open>parse_link_header::parse_with_rel\<close> followed by \<^verbatim>\<open>query_pairs\<close> of the target;
  \<^item> \<open>fx_pretty\<close>, \<open>fx_from_str\<close>: \<^verbatim>\<open>serde_json::to_vec_pretty\<close> and \<^verbatim>\<open>from_str\<close>, as JSON values.
\<close>

record feed_ext =
  fx_hex_encode :: "bytes \<Rightarrow> string"
  fx_hex_decode :: "string \<Rightarrow> bytes option"
  fx_list :: "bytes \<Rightarrow> json list option"
  fx_json_text :: "json \<Rightarrow> string"
  fx_decode_error :: "json \<Rightarrow> string"
  fx_links :: "string \<Rightarrow> (string \<rightharpoonup> (string \<times> string) list) option"
  fx_pretty :: "json \<Rightarrow> string"
  fx_from_str :: "string \<Rightarrow> json option"

section \<open>Page sizes\<close>

type_synonym u16 = "16 word"

abbreviation PAGE_SIZE_MIN :: u16 where "PAGE_SIZE_MIN \<equiv> 1"
definition LOCAL_PROVING_MAX :: u16 where "LOCAL_PROVING_MAX = 10"
definition REMOTE_PROVING_MAX :: u16 where "REMOTE_PROVING_MAX = 40"
definition PAGE_SIZE_MAX :: u16 where "PAGE_SIZE_MAX = 1000"

definition page_size_try_from :: "u16 \<Rightarrow> string + u16" where
  "page_size_try_from value =
     (if PAGE_SIZE_MIN \<le> value \<and> value \<le> PAGE_SIZE_MAX then Inr value
      else Inl ''page size must be between 1 and 1000'')"

text \<open>\<^verbatim>\<open>str::parse::<u16>\<close>\<close>

definition parse_u16 :: "string \<Rightarrow> u16 option" where
  "parse_u16 s = map_option of_nat (parse_unsigned (2 ^ 16) s)"

definition page_size_from_str :: "string \<Rightarrow> string + u16" where
  "page_size_from_str s =
     and_then (ok_or (parse_u16 s) ''the page size is not a number'') page_size_try_from"

text \<open>\<^verbatim>\<open>ExpirationDelta\<close> (\<^verbatim>\<open>miden.rs\<close>): a non-zero number of blocks.\<close>

definition expiration_delta_try_from :: "u16 \<Rightarrow> string + u16" where
  "expiration_delta_try_from value =
     (if value = 0 then Inl ''the expiration delta must be at least 1 block, got 0'' else Inr value)"

definition expiration_delta_from_str :: "string \<Rightarrow> string + u16" where
  "expiration_delta_from_str s =
     and_then (ok_or (parse_u16 s) ''the expiration delta is not a number of blocks'')
       expiration_delta_try_from"

section \<open>Wire hex\<close>

definition MESSAGE_HASH_BYTES :: nat where "MESSAGE_HASH_BYTES = 32"
definition SIGNATURE_BYTES :: nat where "SIGNATURE_BYTES = 65"

type_synonym message_hash = bytes
type_synonym circle_cursor = string

definition strip_hex_prefix :: "string \<Rightarrow> string" where
  "strip_hex_prefix text = (if take 2 text = ''0x'' then drop 2 text else text)"

definition hex_bytes :: "feed_ext \<Rightarrow> json \<Rightarrow> bytes option" where
  "hex_bytes x v =
     (case v of JString text \<Rightarrow> fx_hex_decode x (strip_hex_prefix text) | _ \<Rightarrow> None)"

definition hex_array :: "feed_ext \<Rightarrow> nat \<Rightarrow> json \<Rightarrow> bytes option" where
  "hex_array x n v =
     (case hex_bytes x v of
        None \<Rightarrow> None
      | Some bs \<Rightarrow> if length bs = n then Some bs else None)"

definition message_hash_display :: "feed_ext \<Rightarrow> message_hash \<Rightarrow> string" where
  "message_hash_display x h = ''0x'' @ fx_hex_encode x h"

definition message_hash_serialize :: "feed_ext \<Rightarrow> message_hash \<Rightarrow> json" where
  "message_hash_serialize x h = JString (message_hash_display x h)"

definition message_hash_deserialize :: "feed_ext \<Rightarrow> json \<Rightarrow> message_hash option" where
  "message_hash_deserialize x v = hex_array x MESSAGE_HASH_BYTES v"

section \<open>Entries\<close>

record attestation =
  an_payload :: bytes
  an_message_hash :: message_hash
  an_signature :: bytes

datatype entry =
    Attestation attestation
  | Undecodable nat "message_hash option" string

text \<open>
  The deserializer derived for \<^verbatim>\<open>Attestation\<close>: the three fields by name, or in order when the
  value is an array of three.
\<close>

definition attestation_fields ::
  "feed_ext \<Rightarrow> json option \<Rightarrow> json option \<Rightarrow> json option \<Rightarrow> attestation option" where
  "attestation_fields x payload hash signature =
     (case (Option.bind payload (hex_bytes x),
            Option.bind hash (message_hash_deserialize x),
            Option.bind signature (hex_array x SIGNATURE_BYTES)) of
        (Some p, Some h, Some s) \<Rightarrow>
          Some \<lparr>an_payload = p, an_message_hash = h, an_signature = s\<rparr>
      | _ \<Rightarrow> None)"

fun attestation_deserialize :: "feed_ext \<Rightarrow> json \<Rightarrow> attestation option" where
  "attestation_deserialize x (JObject fs) =
     attestation_fields x (map_of fs ''payload'') (map_of fs ''messageHash'')
       (map_of fs ''attestation'')"
| "attestation_deserialize x (JArray [p, h, s]) = attestation_fields x (Some p) (Some h) (Some s)"
| "attestation_deserialize x _ = None"

definition MAX_REPORTED_HASH_CHARS :: nat where "MAX_REPORTED_HASH_CHARS = 80"

definition entry_decode :: "feed_ext \<Rightarrow> nat \<Rightarrow> json \<Rightarrow> entry" where
  "entry_decode x position value =
     (case attestation_deserialize x value of
        Some a \<Rightarrow> Attestation a
      | None \<Rightarrow>
          (let error = fx_decode_error x value;
               sent_hash = json_get ''messageHash'' value;
               message_hash = Option.bind sent_hash (message_hash_deserialize x);
               reason = (case (message_hash, sent_hash) of
                   (None, Some sent) \<Rightarrow>
                     error @ '' (its messageHash is '' @
                     take MAX_REPORTED_HASH_CHARS (fx_json_text x sent) @ '')''
                 | _ \<Rightarrow> error)
           in Undecodable position message_hash reason))"

fun entry_message_hash :: "entry \<Rightarrow> message_hash option" where
  "entry_message_hash (Attestation a) = Some (an_message_hash a)"
| "entry_message_hash (Undecodable _ h _) = h"

section \<open>Pages\<close>

record feed_page =
  pg_entries :: "entry list"
  pg_next :: "circle_cursor option"

text \<open>The errors of the relayer, as far as the code tells them apart or names them.\<close>

datatype add_transaction_error = TxExpired | TxOther

datatype rpc_endpoint = SubmitProvenTx | OtherEndpoint

datatype grpc_error = InvalidArgument | OtherGrpc

datatype client_error =
    RpcRequestError rpc_endpoint grpc_error "add_transaction_error option"
  | RpcOther
  | ClientOther

datatype relay_error =
    CircleRequestFailed
  | CircleAnswered nat
  | LinkHeaderNotText
  | ResponseReadFailed
  | ResponseTooLarge
  | NotAListResponse
  | LinkHeaderUnparseable
  | NextWithoutToken
  | TooManyDeposits u16
  | ProgressUnreadable
  | ProgressNotSaved
  | NodeClientError client_error
  | UsedNoncesUnreadable
  | TransactionRequestInvalid
  | TransactionStatusUnreadable
  | TransactionUntracked
  | SyncHeightUnreadable
  | TransactionDiscarded
  | TransactionExpired block_number block_number

type_synonym relay_failure = "relay_error failure"

abbreviation failed_as :: "failure_class \<Rightarrow> relay_error \<Rightarrow> relay_failure" where
  "failed_as c e \<equiv> \<lparr>fl_class = c, fl_error = e\<rparr>"

definition parse_next_link :: "feed_ext \<Rightarrow> string \<Rightarrow> relay_error + string option" where
  "parse_next_link x hdr =
     and_then (ok_or (fx_links x hdr) LinkHeaderUnparseable) (\<lambda>links.
     case links ''next'' of
       None \<Rightarrow> Inr None
     | Some pairs \<Rightarrow>
         (case find (\<lambda>(k, v). k = ''pageAfter'') pairs of
            None \<Rightarrow> Inl NextWithoutToken
          | Some (_, token) \<Rightarrow> if token = [] then Inl NextWithoutToken else Inr (Some token)))"

definition page_decode :: "feed_ext \<Rightarrow> bytes \<Rightarrow> string option \<Rightarrow> relay_error + feed_page" where
  "page_decode x body link =
     and_then (ok_or (fx_list x body) NotAListResponse) (\<lambda>values.
     and_then (case link of None \<Rightarrow> Inr None | Some hdr \<Rightarrow> parse_next_link x hdr) (\<lambda>nxt.
     Inr \<lparr>pg_entries = map (\<lambda>(index, value). entry_decode x (index + 1) value)
                            (zip [0..<length values] values),
          pg_next = nxt\<rparr>))"

section \<open>Requests\<close>

text \<open>\<^verbatim>\<open>page_url\<close>: the path and the query parameters of the request, before percent-encoding.\<close>

record page_request =
  pq_path :: string
  pq_query :: "(string \<times> string) list"

definition trim_end_slashes :: "string \<Rightarrow> string" where
  "trim_end_slashes s = rev (dropWhile (\<lambda>c. c = CHR ''/'') (rev s))"

definition page_url :: "string \<Rightarrow> u16 \<Rightarrow> string \<Rightarrow> circle_cursor option \<Rightarrow> page_request" where
  "page_url base_path page_size remote_domain cursor =
     \<lparr>pq_path = trim_end_slashes base_path @ ''/v1/remote-domains/'' @ remote_domain @ ''/attestations'',
      pq_query = (''pageSize'', show_nat (unat page_size)) #
        (case cursor of None \<Rightarrow> [] | Some c \<Rightarrow> [(''pageAfter'', c)])\<rparr>"

text \<open>An answer: its status, its \<^verbatim>\<open>Link\<close> header when it has one (\<open>Some None\<close> is one that is not
  text) and its body chunk by chunk, where \<open>None\<close> is a failed read.\<close>

record feed_response =
  fr_status :: nat
  fr_link :: "string option option"
  fr_chunks :: "bytes option list"

definition MAX_PAGE_BYTES :: nat where "MAX_PAGE_BYTES = 8 * 1024 * 1024"

fun read_page_body :: "bytes \<Rightarrow> bytes option list \<Rightarrow> relay_failure + bytes" where
  "read_page_body body [] = Inr body"
| "read_page_body body (None # _) =
     Inl (failed_as (Transient ''circle_unavailable'') ResponseReadFailed)"
| "read_page_body body (Some chunk # rest) =
     (if MAX_PAGE_BYTES < length (body @ chunk)
      then Inl (failed_as (Transient ''invalid_response'') ResponseTooLarge)
      else read_page_body (body @ chunk) rest)"

definition is_success :: "nat \<Rightarrow> bool" where "is_success status \<longleftrightarrow> 200 \<le> status \<and> status < 300"

text \<open>\<^verbatim>\<open>fetch_page\<close> on the answer the request got; \<open>None\<close> is a request that failed.\<close>

definition fetch_page :: "feed_ext \<Rightarrow> u16 \<Rightarrow> feed_response option \<Rightarrow> relay_failure + feed_page" where
  "fetch_page x page_size answer =
     and_then (classify (Transient ''circle_unavailable'') (ok_or answer CircleRequestFailed)) (\<lambda>response.
     if \<not> is_success (fr_status response) then
       Inl (failed_as (if fr_status response = HTTP_TOO_MANY_REQUESTS then Transient ''rate_limited''
                       else Transient ''unexpected_status'') (CircleAnswered (fr_status response)))
     else
       and_then (case fr_link response of
           Some None \<Rightarrow> Inl (failed_as (Transient ''invalid_response'') LinkHeaderNotText)
         | Some (Some l) \<Rightarrow> Inr (Some l)
         | None \<Rightarrow> Inr None) (\<lambda>link.
       and_then (read_page_body [] (fr_chunks response)) (\<lambda>body.
       and_then (classify (Transient ''invalid_response'') (page_decode x body link)) (\<lambda>page.
       if unat page_size < length (pg_entries page)
       then Inl (failed_as (Transient ''invalid_response'') (TooManyDeposits page_size))
       else Inr page))))"

section \<open>Configuration and the Circle client\<close>

text \<open>
  \<^verbatim>\<open>config.rs\<close>: the settings the relay loop reads. Durations are in milliseconds; a URL is its
  scheme and whether it names a host.
\<close>

record prover_endpoint =
  pv_scheme :: string
  pv_has_host :: bool

record relay_config =
  rc_base_path :: string
  rc_page_size :: u16
  rc_request_timeout :: nat
  rc_poll_interval :: nat
  rc_remote_domain :: string
  rc_prover_url :: "prover_endpoint option"
  rc_prover_timeout :: nat
  rc_expiration_delta :: u16

definition effective_page_size :: "relay_config \<Rightarrow> u16" where
  "effective_page_size c =
     min (rc_page_size c)
       (if rc_prover_url c \<noteq> None then REMOTE_PROVING_MAX else LOCAL_PROVING_MAX)"

definition validate_prover_url :: "prover_endpoint \<Rightarrow> string + unit" where
  "validate_prover_url u =
     ensure_that ((pv_scheme u = ''http'' \<or> pv_scheme u = ''https'') \<and> pv_has_host u)
       ''prover URL must be an HTTP(S) endpoint''"

definition validate_prover_timeout :: "nat \<Rightarrow> string + unit" where
  "validate_prover_timeout t = ensure_that (t \<noteq> 0) ''prover timeout must be greater than zero''"

definition validate_prover :: "relay_config \<Rightarrow> string + unit" where
  "validate_prover c =
     and_then (case rc_prover_url c of None \<Rightarrow> Inr () | Some u \<Rightarrow> validate_prover_url u) (\<lambda>_.
     validate_prover_timeout (rc_prover_timeout c))"

definition parse_prover_url ::
  "(string \<Rightarrow> prover_endpoint option) \<Rightarrow> string \<Rightarrow> string + prover_endpoint" where
  "parse_prover_url url_parse value =
     and_then (ok_or (url_parse value) ''invalid URL'') (\<lambda>url.
     and_then (validate_prover_url url) (\<lambda>_. Inr url))"

definition parse_prover_timeout :: "(string \<Rightarrow> nat option) \<Rightarrow> string \<Rightarrow> string + nat" where
  "parse_prover_timeout duration value =
     and_then (ok_or (duration value) ''invalid duration'') (\<lambda>t.
     and_then (validate_prover_timeout t) (\<lambda>_. Inr t))"

text \<open>The part of \<^verbatim>\<open>CircleClient\<close> that changes is the page size it asks for.\<close>

record circle_client =
  cl_base_path :: string
  cl_page_size :: u16

definition circle_client_new :: "string \<Rightarrow> u16 \<Rightarrow> nat \<Rightarrow> string + circle_client" where
  "circle_client_new base_path page_size request_timeout =
     and_then (ensure_that (request_timeout \<noteq> 0) ''request timeout must be greater than zero'') (\<lambda>_.
     Inr \<lparr>cl_base_path = base_path, cl_page_size = page_size\<rparr>)"

definition limit_to_local_proving :: "circle_client \<Rightarrow> bool \<times> circle_client" where
  "limit_to_local_proving c =
     (let smaller = min (cl_page_size c) LOCAL_PROVING_MAX in
      (smaller \<noteq> cl_page_size c, c\<lparr>cl_page_size := smaller\<rparr>))"

section \<open>Remote proving with local fallback\<close>

text \<open>
  \<^verbatim>\<open>prover.rs\<close>: the remote attempt under its timeout (\<open>None\<close> when it does not answer in time),
  checked by the protocol's verifier, else the local prover on the same inputs.
\<close>

definition remote_prove ::
  "('p \<Rightarrow> bool) \<Rightarrow> ('i \<Rightarrow> ('e + 'p) option) \<Rightarrow> ('i \<Rightarrow> 'e + 'p) \<Rightarrow> 'i \<Rightarrow> 'e + 'p" where
  "remote_prove verifies remote local inputs =
     (case remote inputs of
        Some (Inr proof) \<Rightarrow> if verifies proof then Inr proof else local inputs
      | Some (Inl _) \<Rightarrow> local inputs
      | None \<Rightarrow> local inputs)"

end
