(* ===== verification/Relayer.thy ===== *)
theory Relayer
  imports Relayer_Feed
begin

text \<open>
  \<^verbatim>\<open>crates/xreserve-deposit-relayer/src\<close>: the progress file (\<^verbatim>\<open>store.rs\<close>), the deposits waiting for
  the faucet (\<^verbatim>\<open>unminted.rs\<close>), the note builder (\<^verbatim>\<open>mint.rs\<close>), the Miden client (\<^verbatim>\<open>miden.rs\<close>) and the
  relay loop (\<^verbatim>\<open>lib.rs\<close>). Circle, the node, the client's own store, the disk, the clock and the
  shutdown token are the environment \<open>relay_env\<close>; every use is numbered by \<open>rl_tick\<close>, so each may
  answer differently every time. \<open>rl_trace\<close> records, for the theorems only, what was fetched,
  submitted, included, found minted and saved. Log lines and spans are left out.
\<close>

section \<open>The progress file\<close>

record scan_progress =
  sp_head :: message_hash
  sp_resume :: circle_cursor

record relay_state =
  st_watermark :: "message_hash option"
  st_scan :: "scan_progress option"

definition default_state :: relay_state where
  "default_state = \<lparr>st_watermark = None, st_scan = None\<rparr>"

text \<open>The serializers that \<^verbatim>\<open>serde\<close> derives; an absent or null optional field reads as \<open>None\<close>, a
  repeated field is an error, unknown fields are ignored.\<close>

definition option_to_json :: "('a \<Rightarrow> json) \<Rightarrow> 'a option \<Rightarrow> json" where
  "option_to_json f v = (case v of None \<Rightarrow> JNull | Some a \<Rightarrow> f a)"

definition scan_to_json :: "feed_ext \<Rightarrow> scan_progress \<Rightarrow> json" where
  "scan_to_json x p =
     JObject [(''head'', message_hash_serialize x (sp_head p)), (''resume'', JString (sp_resume p))]"

definition state_to_json :: "feed_ext \<Rightarrow> relay_state \<Rightarrow> json" where
  "state_to_json x s =
     JObject ((''watermark'', option_to_json (message_hash_serialize x) (st_watermark s)) #
       (case st_scan s of None \<Rightarrow> [] | Some p \<Rightarrow> [(''scan'', scan_to_json x p)]))"

definition json_option :: "(json \<Rightarrow> 'a option) \<Rightarrow> json option \<Rightarrow> 'a option option" where
  "json_option f v =
     (case v of None \<Rightarrow> Some None | Some JNull \<Rightarrow> Some None | Some j \<Rightarrow> map_option Some (f j))"

definition scan_fields :: "feed_ext \<Rightarrow> json option \<Rightarrow> json option \<Rightarrow> scan_progress option" where
  "scan_fields x head resume =
     (case (Option.bind head (message_hash_deserialize x), Option.bind resume json_as_str) of
        (Some h, Some c) \<Rightarrow> Some \<lparr>sp_head = h, sp_resume = c\<rparr>
      | _ \<Rightarrow> None)"

fun scan_from_json :: "feed_ext \<Rightarrow> json \<Rightarrow> scan_progress option" where
  "scan_from_json x (JObject fs) =
     (case (json_field fs ''head'', json_field fs ''resume'') of
        (Some h, Some c) \<Rightarrow> scan_fields x h c
      | _ \<Rightarrow> None)"
| "scan_from_json x (JArray [h, c]) = scan_fields x (Some h) (Some c)"
| "scan_from_json x _ = None"

definition state_fields :: "feed_ext \<Rightarrow> json option \<Rightarrow> json option \<Rightarrow> relay_state option" where
  "state_fields x w s =
     (case (json_option (message_hash_deserialize x) w, json_option (scan_from_json x) s) of
        (Some w, Some s) \<Rightarrow> Some \<lparr>st_watermark = w, st_scan = s\<rparr>
      | _ \<Rightarrow> None)"

fun state_from_json :: "feed_ext \<Rightarrow> json \<Rightarrow> relay_state option" where
  "state_from_json x (JObject fs) =
     (case (json_field fs ''watermark'', json_field fs ''scan'') of
        (Some w, Some s) \<Rightarrow> state_fields x w s
      | _ \<Rightarrow> None)"
| "state_from_json x (JArray [w, s]) = state_fields x (Some w) (Some s)"
| "state_from_json x _ = None"

text \<open>
  The two files of the store on disk, and the points at which replacing the state can stop: by an
  I/O error, or because the process dies there. A write may stop after any prefix.
\<close>

record files =
  fs_state :: "string option"
  fs_tmp :: "string option"

datatype write_fault = CreateFails | WriteFails nat | SyncFails | RenameFails

definition store_state :: "feed_ext \<Rightarrow> bool \<Rightarrow> files \<Rightarrow> relay_error + relay_state" where
  "store_state x read_fails d =
     (if read_fails then Inl ProgressUnreadable
      else case fs_state d of
          None \<Rightarrow> Inr default_state
        | Some text \<Rightarrow>
            if trim text = [] then Inr default_state
            else ok_or (Option.bind (fx_from_str x text) (state_from_json x)) ProgressUnreadable)"

definition set_state ::
  "feed_ext \<Rightarrow> write_fault option \<Rightarrow> relay_state \<Rightarrow> files \<Rightarrow> (relay_error + unit) \<times> files" where
  "set_state x fault s d =
     (let encoded = fx_pretty x (state_to_json x s) in
      case fault of
        Some CreateFails \<Rightarrow> (Inl ProgressNotSaved, d)
      | Some (WriteFails k) \<Rightarrow> (Inl ProgressNotSaved, d\<lparr>fs_tmp := Some (take k encoded)\<rparr>)
      | Some SyncFails \<Rightarrow> (Inl ProgressNotSaved, d\<lparr>fs_tmp := Some encoded\<rparr>)
      | Some RenameFails \<Rightarrow> (Inl ProgressNotSaved, d\<lparr>fs_tmp := Some encoded\<rparr>)
      | None \<Rightarrow> (Inr (), \<lparr>fs_state = Some encoded, fs_tmp = None\<rparr>))"

section \<open>Deposits waiting for the faucet\<close>

type_synonym deposit_nonce = b256
type_synonym unminted = "(deposit_nonce \<times> nat) list"

definition unminted_nonces :: "unminted \<Rightarrow> deposit_nonce list" where
  "unminted_nonces u = map fst u"

fun unminted_submitted :: "deposit_nonce list \<Rightarrow> nat \<Rightarrow> unminted \<Rightarrow> unminted" where
  "unminted_submitted [] at u = u"
| "unminted_submitted (n # ns) at u =
     unminted_submitted ns at (if list_ex (\<lambda>(tracked, _). tracked = n) u then u else u @ [(n, at)])"

definition unminted_retain :: "deposit_nonce list \<Rightarrow> unminted \<Rightarrow> unminted" where
  "unminted_retain kept u = filter (\<lambda>(n, _). n \<in> set kept) u"

definition unminted_count :: "unminted \<Rightarrow> nat" where
  "unminted_count u = length u"

definition oldest_age :: "nat \<Rightarrow> unminted \<Rightarrow> nat" where
  "oldest_age now u = (case u of [] \<Rightarrow> 0 | (_, at) # _ \<Rightarrow> now - at)"

section \<open>Mint notes\<close>

text \<open>
  \<^verbatim>\<open>miden-usdcx\<close> and \<^verbatim>\<open>miden-protocol\<close> are parameters: \<open>mx_intent\<close> reads a deposit intent from its
  payload, \<open>mx_build\<close> builds a note from the fields the builder was given, \<open>mx_draw\<close> draws a serial
  number, \<open>mx_key\<close> reads a compressed key.
\<close>

record deposit_intent =
  di_nonce :: deposit_nonce
  di_payload :: bytes

record mint_fields =
  mf_sender :: account_id
  mf_target :: account_id
  mf_remote_domain :: string
  mf_intent :: deposit_intent
  mf_signature :: bytes
  mf_attester :: bytes
  mf_serial :: b256

record mint_note =
  mn_id :: note_id
  mn_nonce :: deposit_nonce
  mn_fields :: mint_fields

record mint_ext =
  mx_intent :: "bytes \<Rightarrow> deposit_intent option"
  mx_build :: "mint_fields \<Rightarrow> mint_note option"
  mx_draw :: "nat \<Rightarrow> b256 \<times> nat"
  mx_key :: "bytes \<Rightarrow> bytes option"

record minter =
  mi_mint_account :: account_id
  mi_usdcx_faucet :: account_id
  mi_attester :: bytes
  mi_remote_domain :: string
  mi_rng :: nat

definition COMPRESSED_LEN :: nat where "COMPRESSED_LEN = 33"

definition attester_key_from_str :: "feed_ext \<Rightarrow> mint_ext \<Rightarrow> string \<Rightarrow> string + bytes" where
  "attester_key_from_str x mx value =
     and_then (ok_or (fx_hex_decode x (strip_hex_prefix value)) ''the attester public key is not hex'') (\<lambda>bs.
     and_then (ensure_that (length bs = COMPRESSED_LEN) ''the attester public key has the wrong length'') (\<lambda>_.
     ok_or (mx_key mx bs) ''the attester public key is not a curve point''))"

text \<open>Drawing the serial number moves the generator also when the note then does not build.\<close>

definition build_note :: "mint_ext \<Rightarrow> attestation \<Rightarrow> minter \<Rightarrow> mint_note option \<times> minter" where
  "build_note mx a m =
     (case mx_intent mx (an_payload a) of
        None \<Rightarrow> (None, m)
      | Some intent \<Rightarrow>
          (let (serial, rng) = mx_draw mx (mi_rng m) in
           (mx_build mx \<lparr>mf_sender = mi_mint_account m, mf_target = mi_usdcx_faucet m,
              mf_remote_domain = mi_remote_domain m, mf_intent = intent,
              mf_signature = an_signature a, mf_attester = mi_attester m, mf_serial = serial\<rparr>,
            m\<lparr>mi_rng := rng\<rparr>)))"

record built_notes =
  bn_notes :: "mint_note list"
  bn_skipped :: "message_hash option list"

fun build_entry :: "mint_ext \<Rightarrow> entry \<Rightarrow> minter \<Rightarrow> mint_note option \<times> minter" where
  "build_entry mx (Attestation a) m = build_note mx a m"
| "build_entry mx (Undecodable _ _ _) m = (None, m)"

fun build_entries :: "mint_ext \<Rightarrow> entry list \<Rightarrow> built_notes \<Rightarrow> minter \<Rightarrow> built_notes \<times> minter" where
  "build_entries mx [] built m = (built, m)"
| "build_entries mx (en # ens) built m =
     (case build_entry mx en m of
        (Some nt, m') \<Rightarrow> build_entries mx ens (built\<lparr>bn_notes := bn_notes built @ [nt]\<rparr>) m'
      | (None, m') \<Rightarrow>
          build_entries mx ens (built\<lparr>bn_skipped := bn_skipped built @ [entry_message_hash en]\<rparr>) m')"

definition build_notes :: "mint_ext \<Rightarrow> entry list \<Rightarrow> minter \<Rightarrow> built_notes \<times> minter" where
  "build_notes mx ens m = build_entries mx ens \<lparr>bn_notes = [], bn_skipped = []\<rparr> m"

section \<open>The environment and the relayer\<close>

type_synonym tx_id = nat

datatype tx_status = Committed block_number | Discarded | Pending

record tx_record =
  tr_status :: tx_status
  tr_expiration_block :: block_number

text \<open>
  \<open>re_sync\<close>, \<open>re_submit\<close>, \<open>re_record\<close>, \<open>re_height\<close> and \<open>re_nonce\<close> are the calls into \<^verbatim>\<open>miden-client\<close>:
  a sync, a submission, the tracked records of a transaction, the synced height and an entry of
  the faucet's used-nonce map in the local store (\<open>0\<close> is the empty word).
\<close>

record relay_env =
  re_feed :: feed_ext
  re_mint :: mint_ext
  re_config :: relay_config
  re_fetch :: "nat \<Rightarrow> page_request \<Rightarrow> feed_response option"
  re_read_fails :: "nat \<Rightarrow> bool"
  re_write_fault :: "nat \<Rightarrow> write_fault option"
  re_request_builds :: "mint_note list \<Rightarrow> u16 \<Rightarrow> bool"
  re_sync :: "nat \<Rightarrow> client_error option"
  re_nonce :: "nat \<Rightarrow> deposit_nonce \<Rightarrow> b256 option"
  re_submit :: "nat \<Rightarrow> mint_note list \<Rightarrow> client_error + tx_id"
  re_record :: "nat \<Rightarrow> tx_id \<Rightarrow> tx_record list option"
  re_height :: "nat \<Rightarrow> block_number option"
  re_now :: "nat \<Rightarrow> nat"
  re_cancelled :: "nat \<Rightarrow> bool"

datatype relay_action =
    Fetched page_request feed_page
  | FoundUsed deposit_nonce
  | SubmittedTx tx_id "mint_note list"
  | IncludedTx tx_id block_number
  | PageDone "circle_cursor option" "message_hash option" feed_page
  | SavedState relay_state

record relayer =
  rl_files :: files
  rl_circle :: circle_client
  rl_minter :: minter
  rl_unminted :: unminted
  rl_tick :: nat
  rl_trace :: "relay_action list"

text \<open>
  A call returns, fails, or has not finished within the rounds it was given: waiting for a
  transaction lasts as long as the chain produces no block, and a walk as long as the feed goes on.
\<close>

datatype relay_stop = Unfinished | FailedWith relay_failure

type_synonym 'a rrun = "(relayer, relay_stop, 'a) run"

definition rtick :: "relayer \<Rightarrow> relayer" where
  "rtick r = r\<lparr>rl_tick := Suc (rl_tick r)\<rparr>"

definition noted :: "relay_action \<Rightarrow> relayer \<Rightarrow> relayer" where
  "noted x r = r\<lparr>rl_trace := rl_trace r @ [x]\<rparr>"

definition lift_failure :: "relay_failure + 'a \<Rightarrow> 'a rrun" where
  "lift_failure v r = (case v of Inl f \<Rightarrow> (Inl (FailedWith f), r) | Inr a \<Rightarrow> (Inr a, r))"

section \<open>The Miden client\<close>

definition FAILED_SYNCS_BEFORE_GIVING_UP :: nat where "FAILED_SYNCS_BEFORE_GIVING_UP = 3"

fun client_class :: "client_error \<Rightarrow> string \<Rightarrow> failure_class" where
  "client_class (RpcRequestError _ _ _) k = Transient k"
| "client_class RpcOther k = Transient k"
| "client_class ClientOther k = Actionable k"

definition is_expired_submission :: "relay_error \<Rightarrow> bool" where
  "is_expired_submission e \<longleftrightarrow>
     e = NodeClientError (RpcRequestError SubmitProvenTx InvalidArgument (Some TxExpired))"

fun is_transient :: "failure_class \<Rightarrow> bool" where
  "is_transient (Transient _) = True"
| "is_transient _ = False"

definition retry_sync :: "relay_failure \<Rightarrow> nat \<Rightarrow> bool" where
  "retry_sync f failed_syncs \<longleftrightarrow>
     is_transient (fl_class f) \<and> failed_syncs < FAILED_SYNCS_BEFORE_GIVING_UP"

datatype inclusion = Included block_number | Waiting

fun inclusion_of :: "tx_status \<Rightarrow> block_number \<Rightarrow> block_number \<Rightarrow> relay_failure + inclusion" where
  "inclusion_of (Committed b) chain_tip expiration_block = Inr (Included b)"
| "inclusion_of Discarded chain_tip expiration_block =
     Inl (failed_as (Transient ''transaction_discarded'') TransactionDiscarded)"
| "inclusion_of Pending chain_tip expiration_block =
     (if expiration_block \<le> chain_tip
      then Inl (failed_as (Transient ''transaction_expired'')
                  (TransactionExpired expiration_block chain_tip))
      else Inr Waiting)"

definition sync_state :: "relay_env \<Rightarrow> unit rrun" where
  "sync_state e r =
     (case re_sync e (rl_tick r) of
        None \<Rightarrow> (Inr (), rtick r)
      | Some err \<Rightarrow>
          (Inl (FailedWith (failed_as (client_class err ''node_sync'') (NodeClientError err))), rtick r))"

fun read_used_nonces :: "relay_env \<Rightarrow> deposit_nonce list \<Rightarrow> deposit_nonce list \<Rightarrow> deposit_nonce list rrun" where
  "read_used_nonces e [] kept r = (Inr kept, r)"
| "read_used_nonces e (n # ns) kept r =
     (case re_nonce e (rl_tick r) n of
        None \<Rightarrow> (Inl (FailedWith (failed_as (Actionable ''client_store'') UsedNoncesUnreadable)), rtick r)
      | Some value \<Rightarrow>
          if value = 0 then read_used_nonces e ns (kept @ [n]) (rtick r)
          else read_used_nonces e ns kept (noted (FoundUsed n) (rtick r)))"

definition retain_unminted :: "relay_env \<Rightarrow> deposit_nonce list \<Rightarrow> deposit_nonce list rrun" where
  "retain_unminted e nonces =
     (if nonces = [] then ret nonces
      else bind_run (sync_state e) (\<lambda>_. read_used_nonces e nonces []))"

text \<open>One look at a submitted transaction after a successful sync.\<close>

definition poll_transaction :: "relay_env \<Rightarrow> tx_id \<Rightarrow> inclusion rrun" where
  "poll_transaction e tx r =
     (case re_record e (rl_tick r) tx of
        None \<Rightarrow> (Inl (FailedWith (failed_as (Actionable ''client_store'') TransactionStatusUnreadable)), rtick r)
      | Some [] \<Rightarrow> (Inl (FailedWith (failed_as (Actionable ''client_store'') TransactionUntracked)), rtick r)
      | Some records \<Rightarrow>
          (case re_height e (rl_tick (rtick r)) of
             None \<Rightarrow> (Inl (FailedWith (failed_as (Actionable ''client_store'') SyncHeightUnreadable)), rtick (rtick r))
           | Some chain_tip \<Rightarrow>
               lift_failure (inclusion_of (tr_status (last records)) chain_tip
                 (tr_expiration_block (last records))) (rtick (rtick r))))"

fun wait_for_inclusion :: "relay_env \<Rightarrow> nat \<Rightarrow> tx_id \<Rightarrow> nat \<Rightarrow> tx_id rrun" where
  "wait_for_inclusion e 0 tx failed_syncs r = (Inl Unfinished, r)"
| "wait_for_inclusion e (Suc n) tx failed_syncs r =
     (case sync_state e r of
        (Inl (FailedWith f), r') \<Rightarrow>
          if retry_sync f (failed_syncs + 1) then wait_for_inclusion e n tx (failed_syncs + 1) r'
          else (Inl (FailedWith f), r')
      | (Inl Unfinished, r') \<Rightarrow> (Inl Unfinished, r')
      | (Inr _, r') \<Rightarrow>
          (case poll_transaction e tx r' of
             (Inl s, r'') \<Rightarrow> (Inl s, r'')
           | (Inr (Included b), r'') \<Rightarrow> (Inr tx, noted (IncludedTx tx b) r'')
           | (Inr Waiting, r'') \<Rightarrow> wait_for_inclusion e n tx 0 r''))"

definition submit_transaction :: "relay_env \<Rightarrow> mint_note list \<Rightarrow> tx_id rrun" where
  "submit_transaction e ns r =
     (case re_submit e (rl_tick r) ns of
        Inl err \<Rightarrow>
          (Inl (FailedWith (failed_as (client_class err ''transaction_submit'') (NodeClientError err))), rtick r)
      | Inr tx \<Rightarrow> (Inr tx, noted (SubmittedTx tx ns) (rtick r)))"

definition submit_notes :: "relay_env \<Rightarrow> nat \<Rightarrow> mint_note list \<Rightarrow> tx_id rrun" where
  "submit_notes e rounds ns =
     bind_run (lift_failure (if re_request_builds e ns (rc_expiration_delta (re_config e)) then Inr ()
        else Inl (failed_as (Actionable ''transaction_request'') TransactionRequestInvalid))) (\<lambda>_.
     bind_run (sync_state e) (\<lambda>_.
     bind_run (submit_transaction e ns) (\<lambda>tx.
     wait_for_inclusion e rounds tx 0)))"

section \<open>One page\<close>

record page_outcome =
  po_newest :: "message_hash option"
  po_next :: "circle_cursor option"

record position =
  ps_watermark :: "message_hash option"
  ps_head :: "message_hash option"
  ps_resume :: "circle_cursor option"

definition from_state :: "relay_state \<Rightarrow> position" where
  "from_state s =
     (let (head, resume) = (case st_scan s of None \<Rightarrow> (None, None)
                            | Some scan \<Rightarrow> (Some (sp_head scan), Some (sp_resume scan)))
      in \<lparr>ps_watermark = st_watermark s, ps_head = head, ps_resume = resume\<rparr>)"

definition position_state :: "position \<Rightarrow> relay_state" where
  "position_state p =
     \<lparr>st_watermark = ps_watermark p,
      st_scan = (case (ps_head p, ps_resume p) of
          (Some h, Some c) \<Rightarrow> Some \<lparr>sp_head = h, sp_resume = c\<rparr>
        | _ \<Rightarrow> None)\<rparr>"

fun find_position :: "('a \<Rightarrow> bool) \<Rightarrow> 'a list \<Rightarrow> nat option" where
  "find_position P [] = None"
| "find_position P (y # ys) = (if P y then Some 0 else map_option Suc (find_position P ys))"

fun find_map :: "('a \<Rightarrow> 'b option) \<Rightarrow> 'a list \<Rightarrow> 'b option" where
  "find_map f [] = None"
| "find_map f (y # ys) = (case f y of Some v \<Rightarrow> Some v | None \<Rightarrow> find_map f ys)"

definition is_watermark :: "message_hash option \<Rightarrow> entry \<Rightarrow> bool" where
  "is_watermark watermark en \<longleftrightarrow>
     (case entry_message_hash en of None \<Rightarrow> False | Some h \<Rightarrow> Some h = watermark)"

definition fresh_entries :: "message_hash option \<Rightarrow> entry list \<Rightarrow> entry list" where
  "fresh_entries watermark ens =
     (case find_position (is_watermark watermark) ens of None \<Rightarrow> take (length ens) ens | Some i \<Rightarrow> take i ens)"

definition fetch :: "relay_env \<Rightarrow> circle_cursor option \<Rightarrow> feed_page rrun" where
  "fetch e resume r =
     (let request = page_url (cl_base_path (rl_circle r)) (cl_page_size (rl_circle r))
                      (rc_remote_domain (re_config e)) resume in
      case fetch_page (re_feed e) (cl_page_size (rl_circle r)) (re_fetch e (rl_tick r) request) of
        Inl f \<Rightarrow> (Inl (FailedWith f), rtick r)
      | Inr page \<Rightarrow> (Inr page, noted (Fetched request page) (rtick r)))"

definition build_page :: "relay_env \<Rightarrow> entry list \<Rightarrow> mint_note list rrun" where
  "build_page e fresh r =
     (let (built, m) = build_notes (re_mint e) fresh (rl_minter r) in
      (Inr (bn_notes built), r\<lparr>rl_minter := m\<rparr>))"

text \<open>What follows the check against the faucet: forget the minted deposits, keep the notes that
  are still to be minted, submit them and start tracking them.\<close>

definition track_submitted :: "relay_env \<Rightarrow> mint_note list \<Rightarrow> unit rrun" where
  "track_submitted e ns r =
     (Inr (), (rtick r)\<lparr>rl_unminted :=
        unminted_submitted (map mn_nonce ns) (re_now e (rl_tick r)) (rl_unminted r)\<rparr>)"

definition forget_minted :: "deposit_nonce list \<Rightarrow> unit rrun" where
  "forget_minted kept r = (Inr (), r\<lparr>rl_unminted := unminted_retain kept (rl_unminted r)\<rparr>)"

definition mint_unminted :: "relay_env \<Rightarrow> nat \<Rightarrow> mint_note list \<Rightarrow> deposit_nonce list \<Rightarrow> unit rrun" where
  "mint_unminted e rounds built kept =
     bind_run (forget_minted kept) (\<lambda>_.
     let ns = filter (\<lambda>nt. mn_nonce nt \<in> set kept) built in
     if ns = [] then ret ()
     else bind_run (submit_notes e rounds ns) (\<lambda>_. track_submitted e ns))"

definition check_minted :: "relay_env \<Rightarrow> mint_note list \<Rightarrow> deposit_nonce list rrun" where
  "check_minted e built r =
     retain_unminted e (map mn_nonce built @ unminted_nonces (rl_unminted r)) r"

definition process_page ::
  "relay_env \<Rightarrow> nat \<Rightarrow> circle_cursor option \<Rightarrow> message_hash option \<Rightarrow> page_outcome rrun" where
  "process_page e rounds resume watermark =
     bind_run (fetch e resume) (\<lambda>page.
     let reached = find_position (is_watermark watermark) (pg_entries page);
         fresh = fresh_entries watermark (pg_entries page) in
     bind_run (build_page e fresh) (\<lambda>built.
     bind_run (check_minted e built) (\<lambda>kept.
     bind_run (mint_unminted e rounds built kept) (\<lambda>_ r.
       (Inr \<lparr>po_newest = find_map entry_message_hash (pg_entries page),
             po_next = (case reached of Some _ \<Rightarrow> None | None \<Rightarrow> pg_next page)\<rparr>,
        noted (PageDone resume watermark page) r)))))"

definition save_state :: "relay_env \<Rightarrow> relay_state \<Rightarrow> unit rrun" where
  "save_state e s r =
     (case set_state (re_feed e) (re_write_fault e (rl_tick r)) s (rl_files r) of
        (Inl err, d) \<Rightarrow>
          (Inl (FailedWith (failed_as (Actionable ''progress_file'') err)), (rtick r)\<lparr>rl_files := d\<rparr>)
      | (Inr _, d) \<Rightarrow> (Inr (), noted (SavedState s) ((rtick r)\<lparr>rl_files := d\<rparr>)))"

definition or_else :: "'a option \<Rightarrow> 'a option \<Rightarrow> 'a option" where
  "or_else a b = (case a of None \<Rightarrow> b | Some v \<Rightarrow> Some v)"

text \<open>The position the scan continues from and the progress to save, after one page.\<close>

definition after_page :: "position \<Rightarrow> page_outcome \<Rightarrow> position option \<times> relay_state" where
  "after_page p outcome =
     (let head = or_else (ps_head p) (po_newest outcome) in
      case po_next outcome of
        Some resume \<Rightarrow>
          (let nxt = \<lparr>ps_watermark = ps_watermark p, ps_head = head, ps_resume = Some resume\<rparr>
           in (Some nxt, position_state nxt))
      | None \<Rightarrow> (None, \<lparr>st_watermark = or_else head (ps_watermark p), st_scan = None\<rparr>))"

definition finish_page :: "relay_env \<Rightarrow> nat \<Rightarrow> position \<Rightarrow> position option rrun" where
  "finish_page e rounds p =
     bind_run (process_page e rounds (ps_resume p) (ps_watermark p)) (\<lambda>outcome.
     let (nxt, saved) = after_page p outcome in
     bind_run (if saved \<noteq> position_state p then save_state e saved else ret ()) (\<lambda>_. ret nxt))"

definition run_page :: "relay_env \<Rightarrow> nat \<Rightarrow> position \<Rightarrow> position option rrun" where
  "run_page e rounds p r =
     (case finish_page e rounds p r of
        (Inl (FailedWith f), r') \<Rightarrow>
          (Inl (FailedWith f),
           if is_expired_submission (fl_error f)
           then r'\<lparr>rl_circle := snd (limit_to_local_proving (rl_circle r'))\<rparr> else r')
      | v \<Rightarrow> v)"

section \<open>Scans and the run\<close>

datatype scan_outcome = Complete | Stopped

definition read_state :: "relay_env \<Rightarrow> relay_state rrun" where
  "read_state e r =
     lift_failure (classify (Actionable ''progress_file'')
       (store_state (re_feed e) (re_read_fails e (rl_tick r)) (rl_files r))) (rtick r)"

definition cancelled :: "relay_env \<Rightarrow> bool rrun" where
  "cancelled e r = (Inr (re_cancelled e (rl_tick r)), rtick r)"

fun scan_pages :: "relay_env \<Rightarrow> nat \<Rightarrow> nat \<Rightarrow> position \<Rightarrow> scan_outcome rrun" where
  "scan_pages e rounds 0 p = raise Unfinished"
| "scan_pages e rounds (Suc n) p =
     bind_run (cancelled e) (\<lambda>stop.
     if stop then ret Stopped
     else bind_run (run_page e rounds p) (\<lambda>nxt.
       bind_run (cancelled e) (\<lambda>stop'.
       if stop' then ret Stopped
       else (case nxt of None \<Rightarrow> ret Complete | Some p' \<Rightarrow> scan_pages e rounds n p'))))"

definition scan :: "relay_env \<Rightarrow> nat \<Rightarrow> nat \<Rightarrow> scan_outcome rrun" where
  "scan e rounds pages = bind_run (read_state e) (\<lambda>s. scan_pages e rounds pages (from_state s))"

text \<open>
  \<open>run_until\<close> returns \<open>True\<close> when it was stopped by the shutdown token, \<open>False\<close> when it was still
  polling after \<open>n\<close> scans; a scan that has not finished leaves the run unfinished.
\<close>

fun run_until :: "relay_env \<Rightarrow> nat \<Rightarrow> nat \<Rightarrow> nat \<Rightarrow> bool rrun" where
  "run_until e rounds pages 0 r = (Inr False, r)"
| "run_until e rounds pages (Suc n) r =
     (if re_cancelled e (rl_tick r) then (Inr True, rtick r)
      else case scan e rounds pages (rtick r) of
          (Inl Unfinished, r') \<Rightarrow> (Inl Unfinished, r')
        | (Inr Stopped, r') \<Rightarrow> (Inr True, r')
        | (_, r') \<Rightarrow>
            if re_cancelled e (rl_tick r') then (Inr True, rtick r')
            else run_until e rounds pages n (rtick r'))"

section \<open>Start\<close>

datatype relay_start_error = BadConfig string | BadProgress relay_error | NodeStart string

definition minter_from_config :: "account_id \<Rightarrow> account_id \<Rightarrow> bytes \<Rightarrow> relay_config \<Rightarrow> nat \<Rightarrow> minter" where
  "minter_from_config relayer_account faucet key c seed =
     \<lparr>mi_mint_account = relayer_account, mi_usdcx_faucet = faucet, mi_attester = key,
      mi_remote_domain = rc_remote_domain c, mi_rng = seed\<rparr>"

definition as_start :: "('e \<Rightarrow> relay_start_error) \<Rightarrow> 'e + 'a \<Rightarrow> relay_start_error + 'a" where
  "as_start f v = (case v of Inl e \<Rightarrow> Inl (f e) | Inr a \<Rightarrow> Inr a)"

definition relayer_new ::
  "feed_ext \<Rightarrow> relay_config \<Rightarrow> minter \<Rightarrow> bool \<Rightarrow> write_fault option \<Rightarrow> files \<Rightarrow> relay_start_error + relayer" where
  "relayer_new x c m read_fails fault d =
     and_then (as_start BadConfig (validate_prover c)) (\<lambda>_.
     and_then (as_start BadProgress (store_state x read_fails d)) (\<lambda>s.
     case set_state x fault s d of
       (Inl err, _) \<Rightarrow> Inl (BadProgress err)
     | (Inr _, d') \<Rightarrow>
         and_then (as_start BadConfig (circle_client_new (rc_base_path c) (effective_page_size c)
                     (rc_request_timeout c))) (\<lambda>circle.
         Inr \<lparr>rl_files = d', rl_circle = circle, rl_minter = m, rl_unminted = [], rl_tick = 0,
              rl_trace = []\<rparr>)))"

text \<open>
  \<^verbatim>\<open>NodeClient::new\<close>: what the node and the local client answer while it connects. An account is
  \<open>None\<close> when reading it failed; the attester entry is the faucet's map value for the configured key.
\<close>

record node_answers =
  na_endpoint :: bool
  na_data_dir :: bool
  na_keystore :: bool
  na_client :: bool
  na_first_sync :: bool
  na_tracks :: "account_id \<Rightarrow> bool option"
  na_imports :: "account_id \<Rightarrow> bool"
  na_attester :: "b256 option"

definition track_account :: "node_answers \<Rightarrow> account_id \<Rightarrow> string \<Rightarrow> relay_start_error + unit" where
  "track_account a i msg =
     and_then (ok_or (na_tracks a i) (NodeStart ''reading the account'')) (\<lambda>tracked.
     ensure_that (tracked \<or> na_imports a i) (NodeStart msg))"

definition node_client_new ::
  "relay_config \<Rightarrow> node_answers \<Rightarrow> account_id \<Rightarrow> account_id \<Rightarrow> relay_start_error + unit" where
  "node_client_new c a relayer_account faucet =
     and_then (as_start BadConfig (validate_prover c)) (\<lambda>_.
     and_then (ensure_that (na_endpoint a) (NodeStart ''the miden node url is not an endpoint'')) (\<lambda>_.
     and_then (ensure_that (na_data_dir a) (NodeStart ''creating the miden data directory'')) (\<lambda>_.
     and_then (ensure_that (na_keystore a) (NodeStart ''opening the miden keystore'')) (\<lambda>_.
     and_then (ensure_that (na_client a) (NodeStart ''building the miden client'')) (\<lambda>_.
     and_then (ensure_that (na_first_sync a) (NodeStart ''the first sync with the miden node'')) (\<lambda>_.
     and_then (track_account a relayer_account ''the node does not know the relayer account'') (\<lambda>_.
     and_then (track_account a faucet ''watching the faucet'') (\<lambda>_.
     and_then (ok_or (na_attester a) (NodeStart ''reading the attesters of the faucet'')) (\<lambda>attester.
     ensure_that (attester \<noteq> 0)
       (NodeStart ''the attester public key is not enabled on the faucet''))))))))))"

definition relayer_start ::
  "feed_ext \<Rightarrow> relay_config \<Rightarrow> node_answers \<Rightarrow> minter \<Rightarrow> bool \<Rightarrow> write_fault option \<Rightarrow> files \<Rightarrow>
   relay_start_error + relayer" where
  "relayer_start x c a m read_fails fault d =
     and_then (node_client_new c a (mi_mint_account m) (mi_usdcx_faucet m)) (\<lambda>_.
     relayer_new x c m read_fails fault d)"

end
