(* ===== verification/Relayer_Steps.thy ===== *)
theory Relayer_Steps
  imports Relayer
begin

text \<open>
  What the operations of the relayer do to its files, its settings and its trace: the frame of
  each step, the contract of the Miden client that the relay loop rests on, and what a page that
  was recorded as done leaves behind.
\<close>

section \<open>Frames\<close>

definition identity :: "relayer \<Rightarrow> minter" where
  "identity r = (rl_minter r)\<lparr>mi_rng := 0\<rparr>"

text \<open>The steps inside a page change neither the files, nor the page size, nor the identities, and
  record neither a finished page nor saved progress.\<close>

fun inside_page :: "relay_action \<Rightarrow> bool" where
  "inside_page (PageDone _ _ _) = False"
| "inside_page (SavedState _) = False"
| "inside_page _ = True"

definition side_step :: "relayer \<Rightarrow> relayer \<Rightarrow> bool" where
  "side_step r r' \<longleftrightarrow>
     rl_files r' = rl_files r \<and> rl_circle r' = rl_circle r \<and> identity r' = identity r \<and>
     (\<exists>ts. rl_trace r' = rl_trace r @ ts \<and> list_all inside_page ts)"

lemma noted_simps [simp]:
  "rl_files (noted a r) = rl_files r" "rl_circle (noted a r) = rl_circle r"
  "rl_minter (noted a r) = rl_minter r" "rl_unminted (noted a r) = rl_unminted r"
  "rl_tick (noted a r) = rl_tick r" "rl_trace (noted a r) = rl_trace r @ [a]"
  by (simp_all add: noted_def)

lemma rtick_simps [simp]:
  "rl_files (rtick r) = rl_files r" "rl_circle (rtick r) = rl_circle r"
  "rl_minter (rtick r) = rl_minter r" "rl_unminted (rtick r) = rl_unminted r"
  "rl_tick (rtick r) = Suc (rl_tick r)" "rl_trace (rtick r) = rl_trace r"
  by (simp_all add: rtick_def)

lemma side_step_refl: "side_step r r"
  by (simp add: side_step_def)

lemma side_step_trans: "side_step r s \<Longrightarrow> side_step s t \<Longrightarrow> side_step r t"
  unfolding side_step_def by fastforce

interpretation side: run_order side_step
  by unfold_locales (blast intro: side_step_refl side_step_trans)+

lemma side_step_tick: "side_step r (rtick r)"
  by (simp add: side_step_def identity_def)

lemma side_step_noted: "inside_page a \<Longrightarrow> side_step r (noted a r)"
  by (simp add: side_step_def identity_def)

lemma side_step_found: "side_step r (noted (FoundUsed n) (rtick r))"
  by (rule side_step_trans [OF side_step_tick side_step_noted]) simp

lemmas side_intros =
  side_step_refl side_step_tick side_step_noted
  side_step_trans [OF side_step_tick side_step_tick]
  side_step_trans [OF side_step_tick side_step_noted]

lemma moves_lift_failure: "moves side_step (lift_failure v)"
  by (simp add: moves_def lift_failure_def side_step_refl split: sum.split)

lemma moves_sync: "moves side_step (sync_state e)"
  by (simp add: moves_def sync_state_def side_step_tick split: option.split)

lemma moves_read_used: "moves side_step (read_used_nonces e ns kept)"
proof (induction ns arbitrary: kept)
  case Nil
  show ?case by (simp add: moves_def side_step_refl)
next
  case (Cons n ns)
  have "side_step r (snd (read_used_nonces e (n # ns) kept r))" for r
    using Cons.IH [unfolded moves_def, rule_format]
    by (auto split: option.split intro: side_step_tick side_step_trans [OF side_step_tick]
        side_step_trans [OF side_step_found])
  then show ?case by (simp add: moves_def)
qed

lemma moves_retain: "moves side_step (retain_unminted e ns)"
  unfolding retain_unminted_def
  by (auto intro: side.moves_ret side.moves_bind moves_sync moves_read_used)

lemma moves_poll: "moves side_step (poll_transaction e tx)"
proof -
  have "side_step r (snd (poll_transaction e tx r))" for r
    using moves_lift_failure [unfolded moves_def, rule_format]
    by (auto simp: poll_transaction_def intro: side_intros side_step_trans [OF side_step_trans [OF side_step_tick side_step_tick]]
        split: option.split list.split)
  then show ?thesis by (simp add: moves_def)
qed

lemma moves_wait: "moves side_step (wait_for_inclusion e n tx k)"
proof (induction n arbitrary: k)
  case 0
  show ?case by (simp add: moves_def side_step_refl)
next
  case (Suc n)
  have "side_step r (snd (wait_for_inclusion e (Suc n) tx k r))" for r
  proof -
    obtain v s where s: "sync_state e r = (v, s)" by fastforce
    obtain w t where t: "poll_transaction e tx s = (w, t)" by fastforce
    from moves_sync s have rs: "side_step r s" unfolding moves_def by (metis snd_conv)
    from moves_poll t have st: "side_step s t" unfolding moves_def by (metis snd_conv)
    note IH = Suc.IH [unfolded moves_def, rule_format]
    show ?thesis
      using rs st IH side_step_trans [OF rs st]
      by (auto simp: s t split: sum.split relay_stop.split inclusion.split
          intro: side_step_trans side_step_trans [OF _ side_step_noted])
  qed
  then show ?case by (simp add: moves_def)
qed

lemma moves_submit_tx: "moves side_step (submit_transaction e ns)"
  by (auto simp: moves_def submit_transaction_def split: sum.split intro: side_intros)

lemma moves_submit: "moves side_step (submit_notes e n ns)"
  unfolding submit_notes_def
  by (intro side.moves_bind moves_lift_failure moves_sync moves_submit_tx moves_wait)

lemma moves_fetch: "moves side_step (fetch e c)"
  by (auto simp: moves_def fetch_def Let_def split: sum.split intro: side_intros)

lemma build_note_identity: "(snd (build_note mx a m))\<lparr>mi_rng := 0\<rparr> = m\<lparr>mi_rng := 0\<rparr>"
  by (simp add: build_note_def split: option.split prod.split)

lemma build_entry_identity: "(snd (build_entry mx en m))\<lparr>mi_rng := 0\<rparr> = m\<lparr>mi_rng := 0\<rparr>"
  by (cases en) (simp_all add: build_note_identity)

lemma build_entries_identity: "(snd (build_entries mx ens b m))\<lparr>mi_rng := 0\<rparr> = m\<lparr>mi_rng := 0\<rparr>"
proof (induction ens arbitrary: b m)
  case (Cons en ens)
  then show ?case
    using build_entry_identity [of mx en m] by (auto split: prod.split option.split)
qed simp

lemma moves_build: "moves side_step (build_page e fresh)"
  using build_entries_identity
  by (auto simp: moves_def build_page_def build_notes_def side_step_def identity_def split: prod.split)
    (metis snd_conv)

lemma moves_check: "moves side_step (check_minted e built)"
  using moves_retain by (simp add: moves_def check_minted_def)

lemma moves_forget: "moves side_step (forget_minted kept)"
  by (simp add: moves_def forget_minted_def side_step_def identity_def)

lemma moves_track: "moves side_step (track_submitted e ns)"
  by (simp add: moves_def track_submitted_def side_step_def identity_def)

lemma moves_mint: "moves side_step (mint_unminted e n built kept)"
  unfolding mint_unminted_def Let_def
  by (intro side.moves_bind moves_forget) (auto intro: side.moves_ret side.moves_bind moves_submit moves_track)

lemmas page_moves = moves_fetch moves_build moves_check moves_mint

section \<open>The contract of the Miden client\<close>

text \<open>A note is settled when the faucet was seen to have minted its deposit, or when it is an
  output of a transaction that was seen in a block.\<close>

definition landed :: "relay_action list \<Rightarrow> mint_note \<Rightarrow> bool" where
  "landed tr nt \<longleftrightarrow>
     (\<exists>tx ns b. nt \<in> set ns \<and> SubmittedTx tx ns \<in> set tr \<and> IncludedTx tx b \<in> set tr)"

definition note_settled :: "relay_action list \<Rightarrow> mint_note \<Rightarrow> bool" where
  "note_settled tr nt \<longleftrightarrow> FoundUsed (mn_nonce nt) \<in> set tr \<or> landed tr nt"

definition extends :: "relayer \<Rightarrow> relayer \<Rightarrow> relay_action list \<Rightarrow> bool" where
  "extends r r' ts \<longleftrightarrow> rl_trace r' = rl_trace r @ ts"

locale miden_client =
  fixes retain :: "deposit_nonce list \<Rightarrow> deposit_nonce list rrun"
    and submit :: "mint_note list \<Rightarrow> tx_id rrun"
  assumes retain_moves: "moves side_step (retain ns)"
    and retain_drops: "retain ns r = (Inr kept, r') \<Longrightarrow> n \<in> set ns \<Longrightarrow> n \<notin> set kept \<Longrightarrow>
          FoundUsed n \<in> set (rl_trace r')"
    and retain_keeps: "retain ns r = (Inr kept, r') \<Longrightarrow> set kept \<subseteq> set ns"
    and submit_moves: "moves side_step (submit nts)"
    and submit_lands: "submit nts r = (Inr tx, r') \<Longrightarrow> nt \<in> set nts \<Longrightarrow> landed (rl_trace r') nt"
begin

text \<open>Checking the notes and submitting those kept settles every one of them.\<close>

lemma checked_and_submitted:
  assumes "retain (map mn_nonce nts @ waiting) r = (Inr kept, s)"
    and "submit (filter (\<lambda>nt. mn_nonce nt \<in> set kept) nts) s' = (Inr tx, t)"
    and "set (rl_trace s) \<subseteq> set (rl_trace s')" and "nt \<in> set nts"
  shows "note_settled (rl_trace t) nt"
proof (cases "mn_nonce nt \<in> set kept")
  case True
  then show ?thesis
    using submit_lands [OF assms(2)] assms(4) by (simp add: note_settled_def)
next
  case False
  then have "FoundUsed (mn_nonce nt) \<in> set (rl_trace s')"
    using retain_drops [OF assms(1)] assms(3,4) by auto
  moreover have "side_step s' t"
    using submit_moves assms(2) unfolding moves_def by (metis snd_conv)
  ultimately show ?thesis by (auto simp: side_step_def note_settled_def)
qed

lemma checked_all_minted:
  assumes "retain (map mn_nonce nts @ waiting) r = (Inr kept, s)"
    and "filter (\<lambda>nt. mn_nonce nt \<in> set kept) nts = []" and "nt \<in> set nts"
  shows "note_settled (rl_trace s) nt"
  using retain_drops [OF assms(1), of "mn_nonce nt"] assms(2,3)
  by (auto simp: filter_empty_conv note_settled_def)

end

lemma read_used_spec:
  assumes "read_used_nonces e ns kept r = (Inr out, r')"
  shows "set kept \<subseteq> set out \<and> set out \<subseteq> set kept \<union> set ns \<and>
    (\<forall>n \<in> set ns - set out. FoundUsed n \<in> set (rl_trace r'))"
  using assms
proof (induction ns arbitrary: kept r)
  case (Cons n ns)
  show ?case
  proof (cases "re_nonce e (rl_tick r) n")
    case None
    with Cons.prems show ?thesis by simp
  next
    case (Some v)
    show ?thesis
    proof (cases "v = 0")
      case True
      with Some Cons.prems have "read_used_nonces e ns (kept @ [n]) (rtick r) = (Inr out, r')" by simp
      from Cons.IH [OF this] show ?thesis by auto
    next
      case False
      with Some Cons.prems
      have run: "read_used_nonces e ns kept (noted (FoundUsed n) (rtick r)) = (Inr out, r')" by simp
      have "side_step (noted (FoundUsed n) (rtick r)) r'"
        using moves_read_used run unfolding moves_def by (metis snd_conv)
      then have "FoundUsed n \<in> set (rl_trace r')" by (auto simp: side_step_def)
      with Cons.IH [OF run] show ?thesis by auto
    qed
  qed
qed simp

lemma retain_spec:
  assumes "retain_unminted e ns r = (Inr kept, r')"
  shows "set kept \<subseteq> set ns" "n \<in> set ns \<Longrightarrow> n \<notin> set kept \<Longrightarrow> FoundUsed n \<in> set (rl_trace r')"
proof -
  consider "ns = []" "kept = []" | s where "read_used_nonces e ns [] s = (Inr kept, r')"
    using assms by (auto simp: retain_unminted_def bind_run_def split: if_splits prod.splits sum.splits)
  then have "set kept \<subseteq> set ns \<and> (\<forall>n \<in> set ns - set kept. FoundUsed n \<in> set (rl_trace r'))"
  proof cases
    case 2
    from read_used_spec [OF this] show ?thesis by simp
  qed simp
  then show "set kept \<subseteq> set ns" "n \<in> set ns \<Longrightarrow> n \<notin> set kept \<Longrightarrow> FoundUsed n \<in> set (rl_trace r')"
    by blast+
qed

lemma wait_includes:
  assumes "wait_for_inclusion e n tx k r = (Inr tx', r')"
  shows "tx' = tx \<and> (\<exists>b. IncludedTx tx b \<in> set (rl_trace r'))"
  using assms
proof (induction n arbitrary: k r)
  case (Suc n)
  obtain v s where s: "sync_state e r = (v, s)" by fastforce
  obtain w t where t: "poll_transaction e tx s = (w, t)" by fastforce
  show ?case
  proof (cases v)
    case (Inl stop)
    then obtain f where "stop = FailedWith f" using Suc.prems s by (cases stop) auto
    with Inl show ?thesis using Suc.prems Suc.IH [of "k + 1" s] s by (simp split: if_splits)
  next
    case (Inr u)
    consider b where "w = Inr (Included b)" | "w = Inr Waiting"
      using Suc.prems Inr s t by (cases w) (auto split: inclusion.splits)
    then show ?thesis
    proof cases
      case 1
      with Inr show ?thesis using Suc.prems s t by auto
    next
      case 2
      with Inr show ?thesis using Suc.prems Suc.IH [of 0 t] s t by simp
    qed
  qed
qed simp

lemma submit_spec:
  assumes "submit_notes e n ns r = (Inr tx, r')"
  shows "SubmittedTx tx ns \<in> set (rl_trace r') \<and> (\<exists>b. IncludedTx tx b \<in> set (rl_trace r'))"
proof -
  from assms obtain s t tx0 where st: "submit_transaction e ns s = (Inr tx0, t)"
    and w: "wait_for_inclusion e n tx0 0 t = (Inr tx, r')"
    by (auto simp: submit_notes_def bind_run_def split: prod.splits sum.splits)
  have "SubmittedTx tx0 ns \<in> set (rl_trace t)"
    using st by (auto simp: submit_transaction_def split: sum.splits)
  moreover have "side_step t r'" using moves_wait w unfolding moves_def by (metis snd_conv)
  ultimately show ?thesis using wait_includes [OF w] by (auto simp: side_step_def)
qed

interpretation node: miden_client "retain_unminted e" "submit_notes e rounds"
  for e rounds
proof unfold_locales
  show "nt \<in> set nts \<Longrightarrow> landed (rl_trace r') nt"
    if "submit_notes e rounds nts r = (Inr tx, r')" for nts r tx r' nt
    using submit_spec [OF that] unfolding landed_def by blast
qed (use moves_retain moves_submit retain_spec in auto)

section \<open>A page that is done\<close>

text \<open>An entry is settled when it does not build, or the note it builds, with some serial number
  of the generator, is settled.\<close>

definition entry_settled :: "mint_ext \<Rightarrow> minter \<Rightarrow> relay_action list \<Rightarrow> entry \<Rightarrow> bool" where
  "entry_settled mx ident tr en \<longleftrightarrow>
     (\<exists>rng. case fst (build_entry mx en (ident\<lparr>mi_rng := rng\<rparr>)) of
        None \<Rightarrow> True | Some nt \<Rightarrow> note_settled tr nt)"

lemma note_settled_mono: "note_settled tr nt \<Longrightarrow> set tr \<subseteq> set tr' \<Longrightarrow> note_settled tr' nt"
  unfolding note_settled_def landed_def by blast

lemma entry_settled_mono:
  "entry_settled mx m tr en \<Longrightarrow> set tr \<subseteq> set tr' \<Longrightarrow> entry_settled mx m tr' en"
  unfolding entry_settled_def by (auto split: option.splits dest: note_settled_mono)

lemma build_entries_Cons:
  assumes "build_entry mx a m = (o1, m1)"
  shows "build_entries mx (a # ens) b m = build_entries mx ens
    (case o1 of Some nt \<Rightarrow> b\<lparr>bn_notes := bn_notes b @ [nt]\<rparr>
     | None \<Rightarrow> b\<lparr>bn_skipped := bn_skipped b @ [entry_message_hash a]\<rparr>) m1"
  by (cases o1) (simp_all add: assms)

lemma build_entries_keep: "set (bn_notes b) \<subseteq> set (bn_notes (fst (build_entries mx ens b m)))"
proof (induction ens arbitrary: b m)
  case (Cons a ens)
  obtain o1 m1 where o1: "build_entry mx a m = (o1, m1)" by fastforce
  show ?case
  proof (cases o1)
    case None
    then show ?thesis
      using Cons [of "b\<lparr>bn_skipped := bn_skipped b @ [entry_message_hash a]\<rparr>" m1] o1 by simp
  next
    case (Some nt)
    then show ?thesis using Cons [of "b\<lparr>bn_notes := bn_notes b @ [nt]\<rparr>" m1] o1 by simp
  qed
qed simp

lemma build_entries_accounts:
  "en \<in> set ens \<Longrightarrow> \<exists>rng. case fst (build_entry mx en (m\<lparr>mi_rng := rng\<rparr>)) of
     None \<Rightarrow> True | Some nt \<Rightarrow> nt \<in> set (bn_notes (fst (build_entries mx ens b m)))"
proof (induction ens arbitrary: b m)
  case (Cons a ens)
  obtain o1 m1 where o1: "build_entry mx a m = (o1, m1)" by fastforce
  have m1: "m1\<lparr>mi_rng := rng\<rparr> = m\<lparr>mi_rng := rng\<rparr>" for rng
    using build_entry_identity [of mx a m] o1 by (cases m; cases m1) simp
  define b1 where "b1 = (case o1 of Some nt \<Rightarrow> b\<lparr>bn_notes := bn_notes b @ [nt]\<rparr>
     | None \<Rightarrow> b\<lparr>bn_skipped := bn_skipped b @ [entry_message_hash a]\<rparr>)"
  have run: "build_entries mx (a # ens) b m = build_entries mx ens b1 m1"
    unfolding b1_def by (rule build_entries_Cons [OF o1])
  show ?case
  proof (cases "en = a")
    case True
    have "fst (build_entry mx a (m\<lparr>mi_rng := mi_rng m\<rparr>)) = o1" using o1 by simp
    moreover have "nt \<in> set (bn_notes b1)" if "o1 = Some nt" for nt
      using that by (simp add: b1_def)
    ultimately show ?thesis
      unfolding run True using build_entries_keep [of b1 mx ens m1]
      by (intro exI [of _ "mi_rng m"]) (auto split: option.split)
  next
    case False
    then show ?thesis using Cons.IH [where m = m1 and b = b1] Cons.prems unfolding run m1 by simp
  qed
qed simp

lemma build_page_accounts:
  assumes "build_page e fresh r = (Inr built, r')" and "en \<in> set fresh"
  shows "\<exists>rng. case fst (build_entry (re_mint e) en ((identity r)\<lparr>mi_rng := rng\<rparr>)) of
     None \<Rightarrow> True | Some nt \<Rightarrow> nt \<in> set built"
proof -
  have built: "built = bn_notes (fst (build_notes (re_mint e) fresh (rl_minter r)))"
    using assms(1) by (auto simp: build_page_def split: prod.splits)
  show ?thesis
    using build_entries_accounts [OF assms(2), where mx = "re_mint e" and m = "rl_minter r"
        and b = "\<lparr>bn_notes = [], bn_skipped = []\<rparr>"]
    unfolding built build_notes_def identity_def by simp
qed

lemma mint_settles:
  assumes "check_minted e built r = (Inr kept, s)" and "mint_unminted e n built kept s = (Inr u, t)"
    and "nt \<in> set built"
  shows "note_settled (rl_trace t) nt"
proof -
  let ?ns = "filter (\<lambda>nt. mn_nonce nt \<in> set kept) built"
  let ?s = "s\<lparr>rl_unminted := unminted_retain kept (rl_unminted s)\<rparr>"
  have check: "retain_unminted e (map mn_nonce built @ unminted_nonces (rl_unminted r)) r = (Inr kept, s)"
    using assms(1) by (simp add: check_minted_def)
  show ?thesis
  proof (cases "?ns = []")
    case True
    then have "t = ?s" using assms(2) by (simp add: mint_unminted_def forget_minted_def bind_run_def Let_def)
    then show ?thesis using node.checked_all_minted [OF check True assms(3)] by simp
  next
    case False
    then obtain tx t0 where sub: "submit_notes e n ?ns ?s = (Inr tx, t0)"
      and t: "track_submitted e ?ns t0 = (Inr u, t)"
      using assms(2) by (auto simp: mint_unminted_def forget_minted_def bind_run_Inr Let_def)
    have "note_settled (rl_trace t0) nt"
      using node.checked_and_submitted [OF check sub _ assms(3)] by simp
    then show ?thesis using t by (auto simp: track_submitted_def)
  qed
qed

text \<open>
  What a page that \<open>process_page\<close> returns from has done: it was fetched, every entry above the
  watermark is settled, and only then it is recorded as done; the files are as before.
\<close>

lemma process_page_done:
  assumes "process_page e n c w r = (Inr out, r')"
  obtains page s answer where "side_step r s" "r' = noted (PageDone c w page) s"
    "fetch_page (re_feed e) (cl_page_size (rl_circle r)) answer = Inr page"
    "po_newest out = find_map entry_message_hash (pg_entries page)"
    "po_next out = (if find_position (is_watermark w) (pg_entries page) = None then pg_next page else None)"
    "\<And>en. en \<in> set (fresh_entries w (pg_entries page)) \<Longrightarrow>
       entry_settled (re_mint e) (identity r) (rl_trace s) en"
proof -
  let ?fresh = "\<lambda>page. fresh_entries w (pg_entries page)"
  from assms obtain page s1 built s2 kept s3 u s where
    f: "fetch e c r = (Inr page, s1)" and b: "build_page e (?fresh page) s1 = (Inr built, s2)"
    and k: "check_minted e built s2 = (Inr kept, s3)" and m: "mint_unminted e n built kept s3 = (Inr u, s)"
    and o: "out = \<lparr>po_newest = find_map entry_message_hash (pg_entries page),
             po_next = (case find_position (is_watermark w) (pg_entries page) of Some _ \<Rightarrow> None | None \<Rightarrow> pg_next page)\<rparr>"
    and r': "r' = noted (PageDone c w page) s"
    unfolding process_page_def Let_def bind_run_Inr by auto
  have steps: "side_step r s1" "side_step s1 s2" "side_step s2 s3" "side_step s3 s"
    using f b k m by (auto intro: moves_run page_moves)
  have "side_step r s" using steps by (blast intro: side_step_trans)
  moreover have "\<exists>answer. fetch_page (re_feed e) (cl_page_size (rl_circle r)) answer = Inr page"
    using f by (auto simp: fetch_def Let_def split: sum.splits)
  moreover have "entry_settled (re_mint e) (identity r) (rl_trace s) en" if "en \<in> set (?fresh page)" for en
  proof -
    have "identity s1 = identity r" using steps(1) by (simp add: side_step_def)
    then show ?thesis
      using build_page_accounts [OF b that] mint_settles [OF k m]
      unfolding entry_settled_def by (auto split: option.splits)
  qed
  ultimately show ?thesis using that [of s page] r' o by (auto split: option.split)
qed

lemma process_page_stopped:
  assumes "process_page e n c w r = (Inl stop, r')"
  shows "side_step r r'"
proof -
  have "side_step r (snd (bind_run (fetch e c) (\<lambda>page. bind_run (build_page e (fresh_entries w (pg_entries page)))
     (\<lambda>built. bind_run (check_minted e built) (mint_unminted e n built))) r))" (is "side_step r (snd (?m r))")
    by (rule side.moves_bind [THEN moves_snd]) (intro page_moves side.moves_bind)+
  moreover have "snd (?m r) = r'"
    using assms unfolding process_page_def Let_def bind_run_def by (auto split: prod.splits sum.splits)
  ultimately show ?thesis by simp
qed

end
