(* ===== verification/Relayer_Walk.thy ===== *)
theory Relayer_Walk
  imports Relayer_Steps
begin

text \<open>
  What the progress file of the relayer means: every state on disk is justified by pages that were
  done, walked without a gap from the head of the feed. The invariant is kept by every page, scan
  and run, whatever fails, and by every restart.
\<close>

section \<open>The progress file reads back\<close>

definition honest_codecs :: "feed_ext \<Rightarrow> bool" where
  "honest_codecs x \<longleftrightarrow>
     (\<forall>bs. fx_hex_decode x (fx_hex_encode x bs) = Some bs) \<and>
     (\<forall>j. fx_from_str x (fx_pretty x j) = Some j) \<and>
     (\<forall>t. trim t = [] \<longrightarrow> fx_from_str x t = None)"

definition valid_hash :: "message_hash option \<Rightarrow> bool" where
  "valid_hash h \<longleftrightarrow> (case h of None \<Rightarrow> True | Some bs \<Rightarrow> length bs = MESSAGE_HASH_BYTES)"

definition valid_state :: "relay_state \<Rightarrow> bool" where
  "valid_state s \<longleftrightarrow> valid_hash (st_watermark s) \<and> valid_hash (map_option sp_head (st_scan s))"

lemma message_hash_roundtrip:
  assumes "honest_codecs x" and "length h = MESSAGE_HASH_BYTES"
  shows "message_hash_deserialize x (message_hash_serialize x h) = Some h"
  using assms
  by (simp add: honest_codecs_def message_hash_deserialize_def message_hash_serialize_def hex_array_def
      hex_bytes_def strip_hex_prefix_def message_hash_display_def)

lemma scan_roundtrip:
  assumes "honest_codecs x" and "length (sp_head p) = MESSAGE_HASH_BYTES"
  shows "scan_from_json x (scan_to_json x p) = Some p"
  using message_hash_roundtrip [OF assms]
  by (simp add: scan_to_json_def json_field_def scan_fields_def)

lemma json_option_roundtrip:
  "g (f a) = Some a \<Longrightarrow> f a \<noteq> JNull \<Longrightarrow> json_option g (Some (f a)) = Some (Some a)"
  by (cases "f a") (simp_all add: json_option_def)

lemma watermark_roundtrip:
  assumes "honest_codecs x" and "valid_hash w"
  shows "json_option (message_hash_deserialize x) (Some (option_to_json (message_hash_serialize x) w)) = Some w"
proof (cases w)
  case (Some h)
  then have "message_hash_deserialize x (message_hash_serialize x h) = Some h"
    using assms by (intro message_hash_roundtrip) (simp_all add: valid_hash_def)
  with Some show ?thesis
    by (simp add: option_to_json_def json_option_def message_hash_serialize_def)
qed (simp add: option_to_json_def json_option_def)

lemma state_roundtrip:
  assumes "honest_codecs x" and "valid_state s"
  shows "state_from_json x (state_to_json x s) = Some s"
proof (cases "st_scan s")
  case None
  then show ?thesis
    using watermark_roundtrip [OF assms(1), of "st_watermark s"] assms(2)
    by (simp add: state_to_json_def json_field_def state_fields_def valid_state_def json_option_def)
next
  case (Some p)
  then have "scan_from_json x (scan_to_json x p) = Some p"
    using assms by (intro scan_roundtrip) (simp_all add: valid_state_def valid_hash_def)
  then have "json_option (scan_from_json x) (Some (scan_to_json x p)) = Some (Some p)"
    by (rule json_option_roundtrip) (simp add: scan_to_json_def)
  then show ?thesis
    using Some watermark_roundtrip [OF assms(1), of "st_watermark s"] assms(2)
    by (simp add: state_to_json_def json_field_def state_fields_def valid_state_def)
qed

text \<open>After any attempt to replace the state, the file holds the new state if the attempt
  succeeded and what it held before if it did not.\<close>

lemma set_state_outcome:
  assumes "honest_codecs x" and "valid_state s" and "set_state x fault s d = (v, d')"
  shows "(case v of Inr _ \<Rightarrow> store_state x False d' = Inr s \<and> fault = None
    | Inl _ \<Rightarrow> store_state x False d' = store_state x False d \<and> fault \<noteq> None)"
proof (cases fault)
  case None
  let ?t = "fx_pretty x (state_to_json x s)"
  have "fx_from_str x ?t = Some (state_to_json x s)" and "trim ?t \<noteq> []"
    using assms(1) unfolding honest_codecs_def by force+
  then have "store_state x False \<lparr>fs_state = Some ?t, fs_tmp = None\<rparr> = Inr s"
    by (simp add: store_state_def state_roundtrip assms)
  with None assms(3) show ?thesis by (auto simp: set_state_def Let_def)
next
  case (Some f)
  with assms(3) show ?thesis by (cases f) (auto simp: set_state_def store_state_def Let_def)
qed

section \<open>Walks\<close>

type_synonym done_page = "circle_cursor option \<times> message_hash option \<times> feed_page"

definition done_pages :: "relay_action list \<Rightarrow> done_page set" where
  "done_pages tr = {(c, w, p). PageDone c w p \<in> set tr}"

text \<open>
  \<open>walked D w c es\<close>: the pages in \<open>D\<close> lead from the head of the feed to the cursor \<open>c\<close> through the
  entries \<open>es\<close>, none of which is the watermark \<open>w\<close>.
\<close>

inductive walked :: "done_page set \<Rightarrow> message_hash option \<Rightarrow> circle_cursor option \<Rightarrow> entry list \<Rightarrow> bool"
  for D w where
  at_head: "walked D w None []"
| onward: "walked D w c es \<Longrightarrow> (c, w, p) \<in> D \<Longrightarrow> find_position (is_watermark w) (pg_entries p) = None \<Longrightarrow>
    pg_next p = Some c' \<Longrightarrow> walked D w (Some c') (es @ pg_entries p)"

text \<open>
  \<open>justified D s\<close>: the state is the one of a first run; or a walk from the head is under way, its
  head the first readable hash of the walk; or a walk came to the watermark or to the end of the
  feed and its head is the new watermark.
\<close>

inductive justified :: "done_page set \<Rightarrow> relay_state \<Rightarrow> bool" for D where
  first_run: "justified D default_state"
| underway: "justified D s \<Longrightarrow> walked D (st_watermark s) (Some c) es \<Longrightarrow>
    find_map entry_message_hash es = Some h \<Longrightarrow>
    justified D \<lparr>st_watermark = st_watermark s, st_scan = Some \<lparr>sp_head = h, sp_resume = c\<rparr>\<rparr>"
| complete: "justified D s \<Longrightarrow> walked D (st_watermark s) c es \<Longrightarrow> (c, st_watermark s, p) \<in> D \<Longrightarrow>
    find_position (is_watermark (st_watermark s)) (pg_entries p) \<noteq> None \<or> pg_next p = None \<Longrightarrow>
    justified D \<lparr>st_watermark = or_else (find_map entry_message_hash (es @ pg_entries p)) (st_watermark s),
                 st_scan = None\<rparr>"

inductive_cases justified_scan: "justified D s"

lemma walked_mono: "walked D w c es \<Longrightarrow> D \<subseteq> D' \<Longrightarrow> walked D' w c es"
  by (induction rule: walked.induct) (auto intro: walked.intros)

lemma justified_mono: "justified D s \<Longrightarrow> D \<subseteq> D' \<Longrightarrow> justified D' s"
  by (induction rule: justified.induct) (auto intro: justified.intros walked_mono)

lemma justified_dropped_scan: "justified D s \<Longrightarrow> justified D \<lparr>st_watermark = st_watermark s, st_scan = None\<rparr>"
proof (induction rule: justified.induct)
  case first_run
  then show ?case using justified.first_run [of D] by (simp add: default_state_def)
next
  case (underway s c es h)
  then show ?case by simp
next
  case (complete s c es p)
  then show ?case using justified.complete [OF complete.hyps(1-4)] by simp
qed

lemma find_map_append: "find_map f (xs @ ys) = or_else (find_map f xs) (find_map f ys)"
  by (induction xs) (auto simp: or_else_def split: option.split)

section \<open>Positions\<close>

definition standing :: "done_page set \<Rightarrow> position \<Rightarrow> bool" where
  "standing D p \<longleftrightarrow>
     justified D \<lparr>st_watermark = ps_watermark p, st_scan = None\<rparr> \<and>
     (\<exists>es. walked D (ps_watermark p) (ps_resume p) es \<and> ps_head p = find_map entry_message_hash es)"

lemma standing_mono: "standing D p \<Longrightarrow> D \<subseteq> D' \<Longrightarrow> standing D' p"
  unfolding standing_def by (blast intro: justified_mono walked_mono)

lemma standing_from_state:
  assumes "justified D s"
  shows "standing D (from_state s)"
proof -
  have base: "justified D \<lparr>st_watermark = st_watermark s, st_scan = None\<rparr>"
    by (rule justified_dropped_scan [OF assms])
  from assms show ?thesis
  proof (cases rule: justified.cases)
    case (underway s' c es h)
    then show ?thesis using base by (auto simp: standing_def from_state_def)
  qed (use base in \<open>auto simp: standing_def from_state_def default_state_def intro: at_head\<close>)
qed

lemma standing_state:
  assumes "standing D p"
  shows "justified D (position_state p)"
proof -
  from assms obtain es where base: "justified D \<lparr>st_watermark = ps_watermark p, st_scan = None\<rparr>"
    and es: "walked D (ps_watermark p) (ps_resume p) es" "ps_head p = find_map entry_message_hash es"
    by (auto simp: standing_def)
  show ?thesis
    using base es justified.underway [OF base]
    by (auto simp: position_state_def split: option.split)
qed

lemma position_roundtrip: "position_state (from_state s) = s"
  by (cases s) (auto simp: position_state_def from_state_def split: option.split)

text \<open>One more page: the position moves on, or the walk is over.\<close>

lemma after_page_justified:
  assumes st: "standing D p" and D: "(ps_resume p, ps_watermark p, page) \<in> D"
    and newest: "po_newest out = find_map entry_message_hash (pg_entries page)"
    and nxt: "po_next out = (if find_position (is_watermark (ps_watermark p)) (pg_entries page) = None
                then pg_next page else None)"
    and after: "after_page p out = (q, saved)"
  shows "justified D saved" and "q = Some p' \<Longrightarrow> standing D p'"
proof -
  from st obtain es where base: "justified D \<lparr>st_watermark = ps_watermark p, st_scan = None\<rparr>"
    and es: "walked D (ps_watermark p) (ps_resume p) es" "ps_head p = find_map entry_message_hash es"
    by (auto simp: standing_def)
  have head: "or_else (ps_head p) (po_newest out) = find_map entry_message_hash (es @ pg_entries page)"
    by (simp add: es newest find_map_append)
  show "justified D saved" and "q = Some p' \<Longrightarrow> standing D p'"
  proof (atomize (full), cases "po_next out")
    case None
    then have end_of_walk: "find_position (is_watermark (ps_watermark p)) (pg_entries page) \<noteq> None \<or> pg_next page = None"
      using nxt by (auto split: if_splits)
    have "saved = \<lparr>st_watermark = or_else (find_map entry_message_hash (es @ pg_entries page)) (ps_watermark p),
        st_scan = None\<rparr> \<and> q = None"
      using after None head by (simp add: after_page_def Let_def)
    then show "justified D saved \<and> (q = Some p' \<longrightarrow> standing D p')"
      using complete [OF base, of "ps_resume p" es page] es D end_of_walk by simp
  next
    case (Some c')
    let ?p = "\<lparr>ps_watermark = ps_watermark p, ps_head = find_map entry_message_hash (es @ pg_entries page),
        ps_resume = Some c'\<rparr>"
    have "find_position (is_watermark (ps_watermark p)) (pg_entries page) = None" "pg_next page = Some c'"
      using nxt Some by (auto split: if_splits)
    from onward [OF es(1) D this] have "standing D ?p" using base by (auto simp: standing_def)
    moreover have "q = Some ?p \<and> saved = position_state ?p"
      using after Some head by (auto simp: after_page_def Let_def)
    ultimately show "justified D saved \<and> (q = Some p' \<longrightarrow> standing D p')"
      using standing_state by auto
  qed
qed

section \<open>The invariant of the relayer\<close>

definition sound_hashes :: "done_page set \<Rightarrow> bool" where
  "sound_hashes D \<longleftrightarrow> (\<forall>(c, w, p) \<in> D. \<forall>en \<in> set (pg_entries p). valid_hash (entry_message_hash en))"

definition pages_settled :: "mint_ext \<Rightarrow> minter \<Rightarrow> relay_action list \<Rightarrow> bool" where
  "pages_settled mx ident tr \<longleftrightarrow>
     (\<forall>(c, w, p) \<in> done_pages tr. \<forall>en \<in> set (fresh_entries w (pg_entries p)). entry_settled mx ident tr en)"

definition accounted :: "feed_ext \<Rightarrow> mint_ext \<Rightarrow> minter \<Rightarrow> relay_action list \<Rightarrow> files \<Rightarrow> bool" where
  "accounted x mx ident tr d \<longleftrightarrow>
     (\<exists>s. store_state x False d = Inr s \<and> justified (done_pages tr) s) \<and>
     sound_hashes (done_pages tr) \<and> pages_settled mx ident tr"

lemma find_map_mem: "find_map f xs = Some v \<Longrightarrow> \<exists>y \<in> set xs. f y = Some v"
  by (induction xs) (auto split: option.splits)

lemma walked_hashes: "walked D w c es \<Longrightarrow> sound_hashes D \<Longrightarrow> en \<in> set es \<Longrightarrow> valid_hash (entry_message_hash en)"
proof (induction rule: walked.induct)
  case (onward c es p c')
  then show ?case by (auto simp: sound_hashes_def)
qed simp

lemma justified_valid: "justified D s \<Longrightarrow> sound_hashes D \<Longrightarrow> valid_state s"
proof (induction rule: justified.induct)
  case first_run
  show ?case by (simp add: valid_state_def valid_hash_def default_state_def)
next
  case (underway s c es h)
  then obtain en where "en \<in> set es" "entry_message_hash en = Some h" by (blast dest: find_map_mem)
  then have "valid_hash (Some h)" using underway walked_hashes by fastforce
  with underway show ?case by (simp add: valid_state_def)
next
  case (complete s c es p)
  have "valid_hash (find_map entry_message_hash (es @ pg_entries p))"
  proof (cases "find_map entry_message_hash (es @ pg_entries p)")
    case (Some h)
    then obtain en where en: "en \<in> set es \<union> set (pg_entries p)" "entry_message_hash en = Some h"
      by (auto dest: find_map_mem)
    have "valid_hash (entry_message_hash en)"
    proof (cases "en \<in> set es")
      case True
      then show ?thesis using walked_hashes [OF complete.hyps(2) complete.prems] by simp
    next
      case False
      then show ?thesis using en(1) complete.hyps(3) complete.prems by (auto simp: sound_hashes_def)
    qed
    with en Some show ?thesis by simp
  qed (simp add: valid_hash_def)
  with complete show ?case by (auto simp: valid_state_def or_else_def valid_hash_def split: option.splits)
qed

lemma side_step_done: "side_step r r' \<Longrightarrow> done_pages (rl_trace r') = done_pages (rl_trace r)"
proof -
  assume "side_step r r'"
  then obtain ts where "rl_trace r' = rl_trace r @ ts" "list_all inside_page ts"
    by (auto simp: side_step_def)
  then show ?thesis by (auto simp: done_pages_def list_all_iff)
qed

lemma pages_settled_mono:
  "pages_settled mx m tr \<Longrightarrow> done_pages tr' = done_pages tr \<Longrightarrow> set tr \<subseteq> set tr' \<Longrightarrow> pages_settled mx m tr'"
  unfolding pages_settled_def by (fastforce intro: entry_settled_mono)

lemma side_step_accounted:
  assumes "side_step r r'" and "accounted x mx m (rl_trace r) (rl_files r)"
  shows "accounted x mx m (rl_trace r') (rl_files r')"
proof -
  from assms(1) have "set (rl_trace r) \<subseteq> set (rl_trace r')" "rl_files r' = rl_files r"
    by (auto simp: side_step_def)
  then show ?thesis
    using assms side_step_done [OF assms(1)] unfolding accounted_def by (auto intro: pages_settled_mono)
qed

text \<open>Hashes that come from a decoded page have the width of a digest.\<close>

lemma attestation_hash_length:
  "attestation_deserialize x v = Some a \<Longrightarrow> length (an_message_hash a) = MESSAGE_HASH_BYTES"
  by (induction x v rule: attestation_deserialize.induct)
    (auto simp: attestation_fields_def message_hash_deserialize_def hex_array_def Option.bind_eq_Some_conv
      split: option.splits if_splits)

lemma entry_decode_hash: "valid_hash (entry_message_hash (entry_decode x i v))"
proof (cases "attestation_deserialize x v")
  case None
  then show ?thesis
    by (auto simp: entry_decode_def valid_hash_def Let_def message_hash_deserialize_def hex_array_def
        Option.bind_eq_Some_conv split: option.split option.split_asm if_splits)
next
  case (Some a)
  then show ?thesis using attestation_hash_length [OF Some] by (simp add: entry_decode_def valid_hash_def)
qed

lemma fetch_page_hashes:
  assumes "fetch_page x n a = Inr p" and "en \<in> set (pg_entries p)"
  shows "valid_hash (entry_message_hash en)"
proof -
  from assms(1) obtain body link where "page_decode x body link = Inr p"
    by (auto simp: fetch_page_def outcome_simps split: if_splits)
  then have "\<exists>i v. en = entry_decode x i v"
    using assms(2) by (fastforce simp: page_decode_def outcome_simps)
  then show ?thesis by (auto simp: entry_decode_hash)
qed

section \<open>Pages, scans and runs keep it\<close>

text \<open>The invariant at a relayer that runs in an environment with its codecs and note builder.\<close>

definition sound_run :: "relay_env \<Rightarrow> minter \<Rightarrow> relayer \<Rightarrow> bool" where
  "sound_run e ident r \<longleftrightarrow>
     identity r = ident \<and> accounted (re_feed e) (re_mint e) ident (rl_trace r) (rl_files r)"

lemma sound_side_step: "side_step r r' \<Longrightarrow> sound_run e m r \<Longrightarrow> sound_run e m r'"
  using side_step_accounted unfolding sound_run_def by (auto simp: side_step_def)

lemma done_pages_noted:
  "done_pages (tr @ [PageDone c w p]) = insert (c, w, p) (done_pages tr)"
  by (auto simp: done_pages_def)

lemma sound_tick: "sound_run e m r \<Longrightarrow> sound_run e m (rtick r)"
  by (rule sound_side_step [OF side_step_tick])

lemma process_page_sound:
  assumes run: "process_page e n c w r = (v, r')" and inv: "sound_run e m r"
  shows "sound_run e m r'"
proof (cases v)
  case (Inl stop)
  then show ?thesis using process_page_stopped sound_side_step run inv by blast
next
  case (Inr out)
  with run obtain page s answer where step: "side_step r s" and r': "r' = noted (PageDone c w page) s"
    and fp: "fetch_page (re_feed e) (cl_page_size (rl_circle r)) answer = Inr page"
    and settled: "\<And>en. en \<in> set (fresh_entries w (pg_entries page)) \<Longrightarrow>
       entry_settled (re_mint e) (identity r) (rl_trace s) en"
    by (blast elim: process_page_done)
  have s: "sound_run e m s" by (rule sound_side_step [OF step inv])
  let ?D = "done_pages (rl_trace s)"
  have "identity r' = m" using s by (simp add: r' sound_run_def identity_def)
  moreover have "sound_hashes (insert (c, w, page) ?D)"
    using s fetch_page_hashes [OF fp] by (auto simp: sound_run_def accounted_def sound_hashes_def)
  moreover have "entry_settled (re_mint e) m (rl_trace r') en"
    if "(c', w', p) \<in> insert (c, w, page) ?D" and "en \<in> set (fresh_entries w' (pg_entries p))" for c' w' p en
  proof -
    have "entry_settled (re_mint e) m (rl_trace s) en"
      using that settled inv s by (auto simp: sound_run_def accounted_def pages_settled_def)
    then show ?thesis by (rule entry_settled_mono) (auto simp: r')
  qed
  then have "pages_settled (re_mint e) m (rl_trace r')"
    unfolding pages_settled_def by (auto simp: r' done_pages_noted)
  moreover have "\<exists>st. store_state (re_feed e) False (rl_files r') = Inr st \<and> justified (insert (c, w, page) ?D) st"
    using s unfolding sound_run_def accounted_def r' by (auto intro: justified_mono)
  ultimately show ?thesis
    using \<open>pages_settled (re_mint e) m (rl_trace r')\<close>
    unfolding sound_run_def accounted_def by (simp add: r' done_pages_noted)
qed

lemma save_state_sound:
  assumes run: "save_state e s r = (v, r')" and inv: "sound_run e m r"
    and codecs: "honest_codecs (re_feed e)" and just: "justified (done_pages (rl_trace r)) s"
  shows "sound_run e m r' \<and> done_pages (rl_trace r') = done_pages (rl_trace r)"
proof -
  obtain u d where d: "set_state (re_feed e) (re_write_fault e (rl_tick r)) s (rl_files r) = (u, d)" by fastforce
  have "valid_state s" using just inv justified_valid by (auto simp: sound_run_def accounted_def)
  note out = set_state_outcome [OF codecs this d]
  have files: "rl_files r' = d" and same: "done_pages (rl_trace r') = done_pages (rl_trace r)"
    and tr: "set (rl_trace r) \<subseteq> set (rl_trace r')" and id: "identity r' = identity r"
    using run d by (auto simp: save_state_def done_pages_def identity_def split: sum.splits)
  have "\<exists>st. store_state (re_feed e) False d = Inr st \<and> justified (done_pages (rl_trace r)) st"
    using out just inv by (cases u) (auto simp: sound_run_def accounted_def)
  then show ?thesis
    using inv same tr id files unfolding sound_run_def accounted_def by (auto intro: pages_settled_mono)
qed

lemma finish_page_sound:
  assumes run: "finish_page e n p r = (v, r')" and inv: "sound_run e m r"
    and codecs: "honest_codecs (re_feed e)" and at: "standing (done_pages (rl_trace r)) p"
  shows "sound_run e m r' \<and> (case v of Inr (Some q) \<Rightarrow> standing (done_pages (rl_trace r')) q | _ \<Rightarrow> True)"
proof -
  obtain o1 s where o1: "process_page e n (ps_resume p) (ps_watermark p) r = (o1, s)" by fastforce
  have s: "sound_run e m s" by (rule process_page_sound [OF o1 inv])
  show ?thesis
  proof (cases o1)
    case (Inl stop)
    then show ?thesis using run o1 s by (auto simp: finish_page_def bind_run_def)
  next
    case (Inr out)
    from o1 Inr obtain page s0 where "side_step r s0" and s0: "s = noted (PageDone (ps_resume p) (ps_watermark p) page) s0"
      and newest: "po_newest out = find_map entry_message_hash (pg_entries page)"
      and nxt: "po_next out = (if find_position (is_watermark (ps_watermark p)) (pg_entries page) = None
                then pg_next page else None)"
      by (blast elim: process_page_done)
    let ?D = "done_pages (rl_trace s)"
    have D: "?D = insert (ps_resume p, ps_watermark p, page) (done_pages (rl_trace r))"
      using side_step_done [OF \<open>side_step r s0\<close>] by (simp add: s0 done_pages_noted)
    obtain q saved where q: "after_page p out = (q, saved)" by fastforce
    have just: "justified ?D saved" and pos: "\<And>p'. q = Some p' \<Longrightarrow> standing ?D p'"
      using after_page_justified [OF standing_mono [OF at] _ newest nxt q, of ?D] D by auto
    show ?thesis
    proof (cases "saved = position_state p")
      case True
      then have "v = Inr q" "r' = s"
        using run o1 Inr q by (auto simp: finish_page_def bind_run_def)
      then show ?thesis using s pos by (auto split: option.split)
    next
      case False
      obtain w t where w: "save_state e saved s = (w, t)" by fastforce
      have t: "sound_run e m t" "done_pages (rl_trace t) = ?D"
        using save_state_sound [OF w s codecs just] by auto
      have "r' = t" "v = (case w of Inl stop \<Rightarrow> Inl stop | Inr _ \<Rightarrow> Inr q)"
        using run o1 Inr q False w by (auto simp: finish_page_def bind_run_def split: sum.splits)
      then show ?thesis using t pos by (auto split: sum.split option.split)
    qed
  qed
qed

lemma sound_circle: "sound_run e m (r\<lparr>rl_circle := c\<rparr>) = sound_run e m r"
  by (simp add: sound_run_def identity_def)

lemma run_page_sound:
  assumes run: "run_page e n p r = (v, r')" and inv: "sound_run e m r"
    and codecs: "honest_codecs (re_feed e)" and at: "standing (done_pages (rl_trace r)) p"
  shows "sound_run e m r' \<and> (case v of Inr (Some q) \<Rightarrow> standing (done_pages (rl_trace r')) q | _ \<Rightarrow> True)"
proof -
  obtain w s where w: "finish_page e n p r = (w, s)" by fastforce
  note fin = finish_page_sound [OF w inv codecs at]
  have "v = w" "r' = s \<or> (\<exists>c. r' = s\<lparr>rl_circle := c\<rparr>)"
    using run w by (auto simp: run_page_def split: sum.splits relay_stop.splits if_splits)
  then show ?thesis using fin by (auto simp: sound_circle split: sum.splits option.splits)
qed

lemma scan_pages_sound:
  assumes "scan_pages e n k p r = (v, r')" and "sound_run e m r"
    and codecs: "honest_codecs (re_feed e)" and "standing (done_pages (rl_trace r)) p"
  shows "sound_run e m r'"
  using assms(1,2,4)
proof (induction k arbitrary: p r)
  case (Suc k)
  let ?r = "rtick r"
  have tick: "sound_run e m ?r" "standing (done_pages (rl_trace ?r)) p"
    using Suc.prems by (simp_all add: sound_tick)
  obtain w s where w: "run_page e n p ?r = (w, s)" by fastforce
  have s: "sound_run e m s" "\<And>q. w = Inr (Some q) \<Longrightarrow> standing (done_pages (rl_trace (rtick s))) q"
    using run_page_sound [OF w tick(1) codecs tick(2)] by auto
  consider "r' = ?r" | "r' = s" | "r' = rtick s" | q where "w = Inr (Some q)" "scan_pages e n k q (rtick s) = (v, r')"
    using Suc.prems(1) w
    by (auto simp: bind_run_def cancelled_def split: if_splits sum.splits option.splits)
  then show ?case
  proof cases
    case (4 q)
    then show ?thesis using Suc.IH [of q "rtick s"] s sound_tick by blast
  qed (use tick s sound_tick in auto)
qed simp

lemma scan_sound:
  assumes run: "scan e n k r = (v, r')" and inv: "sound_run e m r" and codecs: "honest_codecs (re_feed e)"
  shows "sound_run e m r'"
proof -
  obtain w s where w: "read_state e r = (w, s)" by fastforce
  then have s: "s = rtick r" by (auto simp: read_state_def lift_failure_def split: sum.splits)
  show ?thesis
  proof (cases w)
    case (Inl stop)
    then show ?thesis using run w s sound_tick [OF inv] by (auto simp: scan_def bind_run_def)
  next
    case (Inr st)
    then have "store_state (re_feed e) (re_read_fails e (rl_tick r)) (rl_files r) = Inr st"
      using w by (auto simp: read_state_def lift_failure_def classify_def split: sum.splits)
    then have "store_state (re_feed e) False (rl_files r) = Inr st"
      by (auto simp: store_state_def split: if_splits)
    then have "standing (done_pages (rl_trace s)) (from_state st)"
      using inv by (intro standing_from_state) (auto simp: s sound_run_def accounted_def)
    moreover have "scan_pages e n k (from_state st) s = (v, r')"
      using run w Inr by (simp add: scan_def bind_run_def)
    ultimately show ?thesis using scan_pages_sound [OF _ _ codecs] sound_tick [OF inv] s by blast
  qed
qed

lemma run_until_sound:
  assumes "run_until e n k i r = (v, r')" and "sound_run e m r" and codecs: "honest_codecs (re_feed e)"
  shows "sound_run e m r'"
  using assms(1,2)
proof (induction i arbitrary: r)
  case (Suc i)
  obtain w s where w: "scan e n k (rtick r) = (w, s)" by fastforce
  have s: "sound_run e m s" by (rule scan_sound [OF w sound_tick [OF Suc.prems(2)] codecs])
  consider "r' = rtick r" | "r' = s" | "r' = rtick s" | "run_until e n k i (rtick s) = (v, r')"
    using Suc.prems(1) w by (auto split: if_splits sum.splits relay_stop.splits scan_outcome.splits)
  then show ?case
    by cases (use Suc.IH Suc.prems(2) s sound_tick in blast)+
qed simp

end
