(* ===== verification/Relayer_Props.thy ===== *)
theory Relayer_Props
  imports Relayer_Walk "HOL-Library.Countable"
begin

text \<open>
  The properties of the deposit relayer: nothing at or below the watermark of a feed that behaves
  as Circle documents was left out, progress survives crashes and restarts, waiting ends, requests
  and transactions stay within the proving limits.
\<close>

section \<open>Process lifetimes\<close>

text \<open>
  The life of the progress file: a process starts over the file, runs for a while in some
  environment, and leaves the file to the next one. A run that is cut off while it waits is one
  that has not finished. The trace goes on from process to process.
\<close>

inductive lifetime :: "feed_ext \<Rightarrow> mint_ext \<Rightarrow> minter \<Rightarrow> relay_action list \<times> files \<Rightarrow>
    relay_action list \<times> files \<Rightarrow> bool" for x mx ident where
  "relayer_new x c m read_fails fault d = Inr r \<Longrightarrow> m\<lparr>mi_rng := 0\<rparr> = ident \<Longrightarrow>
   re_feed e = x \<Longrightarrow> re_mint e = mx \<Longrightarrow>
   run_until e rounds pages n (r\<lparr>rl_trace := tr\<rparr>) = (v, r') \<Longrightarrow>
   lifetime x mx ident (tr, d) (rl_trace r', rl_files r')"

inductive_cases lifetime_cases: "lifetime x mx ident s t"

definition no_progress :: "relay_action list \<times> files \<Rightarrow> bool" where
  "no_progress s \<longleftrightarrow> fst s = [] \<and> fs_state (snd s) = None"

definition well_recorded :: "feed_ext \<Rightarrow> mint_ext \<Rightarrow> minter \<Rightarrow> relay_action list \<times> files \<Rightarrow> bool" where
  "well_recorded x mx ident s \<longleftrightarrow> accounted x mx ident (fst s) (snd s)"

lemma relayer_new_disk:
  assumes "relayer_new x c m rf fault d = Inr r" and "honest_codecs x"
    and "store_state x False d = Inr s" and "valid_state s"
  shows "store_state x False (rl_files r) = Inr s" "rl_minter r = m"
proof -
  from assms(1) obtain s' d' where s': "store_state x rf d = Inr s'" and d': "set_state x fault s' d = (Inr (), d')"
    and r: "rl_files r = d'" "rl_minter r = m"
    by (auto simp: relayer_new_def outcome_simps as_start_def split: sum.splits prod.splits)
  have "s' = s" using s' assms(3) by (auto simp: store_state_def split: if_splits)
  with set_state_outcome [OF assms(2,4)] d' r
  show "store_state x False (rl_files r) = Inr s" "rl_minter r = m" by fastforce+
qed

lemma lifetime_recorded:
  assumes "lifetime x mx ident s t" and "honest_codecs x" and "well_recorded x mx ident s"
  shows "well_recorded x mx ident t"
  using assms(1)
proof cases
  case (1 c m rf fault d r e rounds pages n tr v r')
  from assms(3) obtain st where st: "store_state x False d = Inr st" "justified (done_pages tr) st"
    and "sound_hashes (done_pages tr)" "pages_settled mx ident tr"
    using 1 by (auto simp: well_recorded_def accounted_def)
  moreover from this have "valid_state st" using justified_valid by blast
  note new = relayer_new_disk [OF 1(3) assms(2) st(1) this]
  ultimately have "sound_run e ident (r\<lparr>rl_trace := tr\<rparr>)"
    using 1 new by (auto simp: sound_run_def accounted_def identity_def)
  then show ?thesis
    using run_until_sound [OF 1(7)] assms(2) 1 by (simp add: well_recorded_def sound_run_def)
qed

interpretation lives: invariant_machine no_progress
    "\<lambda>s t. honest_codecs x \<and> lifetime x mx ident s t" "well_recorded x mx ident"
  for x mx ident
proof
  show "well_recorded x mx ident s" if "no_progress s" for s
  proof -
    have "store_state x False (snd s) = Inr default_state"
      using that by (simp add: no_progress_def store_state_def)
    moreover have "done_pages (fst s) = {}" using that by (simp add: no_progress_def done_pages_def)
    ultimately show ?thesis
      unfolding well_recorded_def accounted_def
      using justified.first_run by (auto simp: sound_hashes_def pages_settled_def)
  qed
qed (blast intro: lifetime_recorded)

section \<open>What Circle's feed promises\<close>

text \<open>
  The feed grows at its head and a cursor names an entry, so a cursor keeps addressing the entries
  below it: \<open>below c\<close>. Every page is a run of consecutive entries, and its \<^verbatim>\<open>next\<close> cursor leads to
  what follows it, with no cursor only at the oldest entry.
\<close>

definition page_ends :: "(circle_cursor \<Rightarrow> entry list) \<Rightarrow> feed_page \<Rightarrow> entry list \<Rightarrow> bool" where
  "page_ends below p rest \<longleftrightarrow> rest = (case pg_next p of None \<Rightarrow> [] | Some c \<Rightarrow> below c)"

definition served_by :: "entry list \<Rightarrow> (circle_cursor \<Rightarrow> entry list) \<Rightarrow> done_page set \<Rightarrow> bool" where
  "served_by feed below D \<longleftrightarrow>
     (\<forall>(c, w, p) \<in> D. \<exists>rest. page_ends below p rest \<and>
        (case c of None \<Rightarrow> (\<exists>newer. feed = newer @ pg_entries p @ rest)
                 | Some c \<Rightarrow> below c = pg_entries p @ rest))"

fun unique_hashes :: "entry list \<Rightarrow> bool" where
  "unique_hashes [] = True"
| "unique_hashes (en # ens) \<longleftrightarrow>
     (entry_message_hash en = None \<or> entry_message_hash en \<notin> entry_message_hash ` set ens) \<and>
     unique_hashes ens"

lemma served_walk:
  assumes "served_by feed below D" and "walked D w c es"
  shows "\<exists>newer. feed = newer @ es @ (case c of None \<Rightarrow> feed | Some c \<Rightarrow> below c) \<or> c = None \<and> es = []"
proof -
  have "c = None \<and> es = [] \<or> (\<exists>c' newer. c = Some c' \<and> feed = newer @ es @ below c')"
    using assms(2)
  proof (induction rule: walked.induct)
    case (onward c es p c')
    from assms(1) onward(2) obtain rest where rest: "page_ends below p rest"
      "case c of None \<Rightarrow> (\<exists>newer. feed = newer @ pg_entries p @ rest) | Some c \<Rightarrow> below c = pg_entries p @ rest"
      unfolding served_by_def by blast
    from onward(4) rest(1) have "rest = below c'" by (simp add: page_ends_def)
    with rest(2) onward.IH show ?case by (cases c) auto
  qed simp
  then show ?thesis by auto
qed

lemma served_page:
  assumes "served_by feed below D" and "walked D w c es" and "(c, w, p) \<in> D"
  shows "\<exists>newer rest. feed = newer @ es @ pg_entries p @ rest \<and> page_ends below p rest"
proof -
  from assms(1,3) obtain rest where rest: "page_ends below p rest"
    "case c of None \<Rightarrow> (\<exists>newer. feed = newer @ pg_entries p @ rest) | Some c \<Rightarrow> below c = pg_entries p @ rest"
    unfolding served_by_def by blast
  then show ?thesis using served_walk [OF assms(1,2)] assms(2)
    by (cases c) (auto elim: walked.cases)
qed

lemma unique_split:
  assumes "unique_hashes feed" and "feed = a @ en # b" and "feed = a' @ en' # b'"
    and "entry_message_hash en = Some h" and "entry_message_hash en' = Some h"
  shows "b = b' \<and> en = en'"
proof -
  have "unique_hashes (a @ en # b)" "a @ en # b = a' @ en' # b'" using assms(1-3) by simp_all
  then show ?thesis
  proof (induction a arbitrary: a')
    case Nil
    then show ?case using assms(4,5) by (cases a') auto
  next
    case step: (Cons y a)
    show ?case
    proof (cases a')
      case Nil
      then show ?thesis using step.prems assms(4,5) by auto
    next
      case (Cons z zs)
      then show ?thesis using step.IH [of zs] step.prems by simp
    qed
  qed
qed

text \<open>Entries that a finished page accounts for, and all of a page that the walk passed.\<close>

definition covered :: "done_page set \<Rightarrow> entry \<Rightarrow> bool" where
  "covered D en \<longleftrightarrow> (\<exists>(c, w, p) \<in> D. en \<in> set (fresh_entries w (pg_entries p)))"

lemma walked_covered: "walked D w c es \<Longrightarrow> en \<in> set es \<Longrightarrow> covered D en"
proof (induction rule: walked.induct)
  case (onward c es p c')
  then show ?case by (force simp: covered_def fresh_entries_def)
qed simp

lemma find_position_Some:
  "find_position P xs = Some i \<Longrightarrow> i < length xs \<and> P (xs ! i)"
  by (induction xs arbitrary: i) (auto split: if_splits)

lemma find_map_split: "find_map f xs = Some v \<Longrightarrow> \<exists>a y b. xs = a @ y # b \<and> f y = Some v"
proof (induction xs)
  case (Cons y ys)
  show ?case
  proof (cases "f y")
    case None
    with Cons obtain a z b where "ys = a @ z # b" "f z = Some v" by auto
    then show ?thesis by (intro exI [of _ "y # a"]) auto
  next
    case (Some u)
    with Cons.prems show ?thesis by (intro exI [of _ "[]"]) auto
  qed
qed simp

definition handled_below :: "done_page set \<Rightarrow> entry list \<Rightarrow> message_hash \<Rightarrow> bool" where
  "handled_below D feed h \<longleftrightarrow>
     (\<exists>newer en older. feed = newer @ en # older \<and> entry_message_hash en = Some h \<and>
        (\<forall>en' \<in> set (en # older). covered D en'))"

text \<open>The end of a walk: everything from the walk's first entry on is covered.\<close>

lemma complete_covers:
  assumes served: "served_by feed below D" and uniq: "unique_hashes feed"
    and walk: "walked D w c es" and page: "(c, w, p) \<in> D"
    and fin: "find_position (is_watermark w) (pg_entries p) \<noteq> None \<or> pg_next p = None"
    and IH: "\<And>h. w = Some h \<Longrightarrow> handled_below D feed h"
  shows "\<exists>newer rest. feed = newer @ es @ pg_entries p @ rest \<and>
     (\<forall>en \<in> set (es @ pg_entries p @ rest). covered D en)"
proof -
  obtain newer rest where feed: "feed = newer @ es @ pg_entries p @ rest" and ends: "page_ends below p rest"
    using served_page [OF served walk page] by blast
  have "covered D en" if "en \<in> set (pg_entries p @ rest)" for en
  proof (cases "find_position (is_watermark w) (pg_entries p)")
    case None
    with fin ends have "rest = []" by (simp add: page_ends_def)
    with None that page show ?thesis by (force simp: covered_def fresh_entries_def)
  next
    case (Some i)
    then have i: "i < length (pg_entries p)" "is_watermark w (pg_entries p ! i)"
      by (auto dest: find_position_Some)
    then obtain h where h: "w = Some h" "entry_message_hash (pg_entries p ! i) = Some h"
      by (cases "entry_message_hash (pg_entries p ! i)") (auto simp: is_watermark_def)
    from IH [OF h(1)] obtain a en' b where old: "feed = a @ en' # b" "entry_message_hash en' = Some h"
      "\<forall>y \<in> set (en' # b). covered D y" unfolding handled_below_def by blast
    have "feed = (newer @ es @ take i (pg_entries p)) @ pg_entries p ! i # drop (Suc i) (pg_entries p) @ rest"
      using feed i(1) by (simp add: Cons_nth_drop_Suc [symmetric] id_take_nth_drop)
    from unique_split [OF uniq this old(1) h(2) old(2)] have low: "b = drop (Suc i) (pg_entries p) @ rest" "en' = pg_entries p ! i"
      by auto
    have "pg_entries p @ rest = take i (pg_entries p) @ en' # b"
      using i(1) low by (simp add: id_take_nth_drop)
    with that have "en \<in> set (take i (pg_entries p)) \<or> en \<in> set (en' # b)"
      by (metis Un_iff set_append)
    then show ?thesis
      using old(3) Some page by (force simp: covered_def fresh_entries_def)
  qed
  moreover have "covered D en" if "en \<in> set es" for en
    by (rule walked_covered [OF walk that])
  ultimately show ?thesis using feed by auto
qed

lemma justified_covers:
  assumes "justified D s" and "served_by feed below D" and "unique_hashes feed"
  shows "st_watermark s = Some h \<Longrightarrow> handled_below D feed h"
  using assms(1)
proof (induction arbitrary: h rule: justified.induct)
  case first_run
  then show ?case by (simp add: default_state_def)
next
  case (underway s c es h')
  then show ?case by simp
next
  case (complete s c es p)
  show ?case
  proof (cases "find_map entry_message_hash (es @ pg_entries p)")
    case None
    then show ?thesis using complete.prems complete.IH by (simp add: or_else_def)
  next
    case (Some h')
    then have "h' = h" using complete.prems by (simp add: or_else_def)
    with Some obtain a en b where split: "es @ pg_entries p = a @ en # b" "entry_message_hash en = Some h"
      by (blast dest: find_map_split)
    obtain newer rest where feed: "feed = newer @ es @ pg_entries p @ rest"
      and all: "\<forall>y \<in> set (es @ pg_entries p @ rest). covered D y"
      using complete_covers [OF assms(2,3) complete.hyps(2-4) complete.IH] by blast
    have eq: "es @ pg_entries p @ rest = a @ en # b @ rest"
      using split(1) by (metis append.assoc append_Cons)
    show ?thesis
      unfolding handled_below_def
      using split(2) feed all eq by (intro exI [of _ "newer @ a"] exI [of _ en] exI [of _ "b @ rest"]) auto
  qed
qed

section \<open>A concrete run\<close>

text \<open>
  One deposit on one page, relayed by a fresh process: the codecs are lossless (a digest prints as
  its characters, a JSON value as its number in unary), the faucet has not minted the deposit, and
  the transaction is in block 3 at the first look.
\<close>

instance json :: countable
  by countable_datatype

definition unary_json :: "json \<Rightarrow> string" where
  "unary_json j = replicate (Suc (to_nat j)) (CHR ''x'')"

definition read_unary :: "string \<Rightarrow> json option" where
  "read_unary t =
     (if \<exists>j. t = unary_json j then Some (from_nat (length t - 1)) else None)"

definition sample_codecs :: feed_ext where
  "sample_codecs =
     \<lparr>fx_hex_encode = map (\<lambda>b. char_of (unat b)), fx_hex_decode = (\<lambda>t. Some (map (\<lambda>c. of_nat (of_char c)) t)),
      fx_list = (\<lambda>_. Some [JArray [JString [], JString (replicate 32 (CHR ''a'')), JString (replicate 65 (CHR ''b''))]]),
      fx_json_text = (\<lambda>_. []), fx_decode_error = (\<lambda>_. []), fx_links = (\<lambda>_. None),
      fx_pretty = unary_json, fx_from_str = read_unary\<rparr>"

definition sample_mint :: mint_ext where
  "sample_mint =
     \<lparr>mx_intent = (\<lambda>_. Some \<lparr>di_nonce = 7, di_payload = []\<rparr>),
      mx_build = (\<lambda>f. Some \<lparr>mn_id = 1, mn_nonce = di_nonce (mf_intent f), mn_fields = f\<rparr>),
      mx_draw = (\<lambda>n. (of_nat n, Suc n)), mx_key = Some\<rparr>"

definition sample_minter :: minter where
  "sample_minter = \<lparr>mi_mint_account = 1, mi_usdcx_faucet = 2, mi_attester = [], mi_remote_domain = ''7'', mi_rng = 0\<rparr>"

definition sample_relay_config :: relay_config where
  "sample_relay_config = \<lparr>rc_base_path = [], rc_page_size = 100, rc_request_timeout = 1, rc_poll_interval = 5,
     rc_remote_domain = ''7'', rc_prover_url = None, rc_prover_timeout = 1, rc_expiration_delta = 64\<rparr>"

definition sample_relay_env :: relay_env where
  "sample_relay_env = \<lparr>re_feed = sample_codecs, re_mint = sample_mint, re_config = sample_relay_config,
     re_fetch = (\<lambda>_ _. Some \<lparr>fr_status = 200, fr_link = None, fr_chunks = []\<rparr>),
     re_read_fails = (\<lambda>_. False), re_write_fault = (\<lambda>_. None), re_request_builds = (\<lambda>_ _. True),
     re_sync = (\<lambda>_. None), re_nonce = (\<lambda>_ _. Some 0), re_submit = (\<lambda>_ _. Inr 5),
     re_record = (\<lambda>_ _. Some [\<lparr>tr_status = Committed 3, tr_expiration_block = 10\<rparr>]),
     re_height = (\<lambda>_. Some 4), re_now = (\<lambda>_. 0), re_cancelled = (\<lambda>_. False)\<rparr>"

definition sample_hash :: message_hash where "sample_hash = replicate 32 97"

definition sample_entry :: entry where
  "sample_entry = Attestation \<lparr>an_payload = [], an_message_hash = sample_hash, an_signature = replicate 65 98\<rparr>"

definition sample_page :: feed_page where
  "sample_page = \<lparr>pg_entries = [sample_entry], pg_next = None\<rparr>"

lemma read_unary_inverse: "read_unary (unary_json j) = Some j"
  by (auto simp: read_unary_def unary_json_def)

lemma trim_dropWhile: "trim t = [] \<Longrightarrow> c \<in> set t \<Longrightarrow> is_ascii_space c"
  by (simp add: trim_def dropWhile_eq_Nil_conv) (metis set_dropWhileD dropWhile_eq_Nil_conv set_takeWhileD takeWhile_dropWhile_id Un_iff set_append)

lemma byte_char: "of_nat (unat b mod 256) = (b :: u8)"
proof -
  have "unat b < 256" using unsigned_less [of b, where 'a = nat] by simp
  then show ?thesis by simp
qed

lemma sample_honest: "honest_codecs sample_codecs"
proof -
  have "read_unary t = None" if "trim t = []" for t
  proof -
    have "t \<noteq> unary_json j" for j
      using trim_dropWhile [OF that, of "CHR ''x''"]
      by (auto simp: unary_json_def is_ascii_space_def)
    then show ?thesis by (simp add: read_unary_def)
  qed
  moreover have "map ((\<lambda>c. of_nat (of_char c)) \<circ> (\<lambda>b. char_of (unat b))) bs = bs" for bs :: bytes
    by (induction bs) (simp_all add: byte_char)
  ultimately show ?thesis
    by (simp add: honest_codecs_def sample_codecs_def read_unary_inverse)
qed

lemma sample_page_fetched:
  "fetch_page sample_codecs 10 (Some \<lparr>fr_status = 200, fr_link = None, fr_chunks = []\<rparr>) = Inr sample_page"
proof -
  have 1: "hex_array sample_codecs 32 (JString (replicate 32 (CHR ''a''))) = Some sample_hash"
    and 2: "hex_array sample_codecs 65 (JString (replicate 65 (CHR ''b''))) = Some (replicate 65 98)"
    by (simp_all add: hex_array_def hex_bytes_def sample_codecs_def strip_hex_prefix_def sample_hash_def numeral_2_eq_2)
  have 3: "hex_bytes sample_codecs (JString []) = Some []"
    by (simp add: hex_bytes_def sample_codecs_def strip_hex_prefix_def)
  have 4: "fx_list sample_codecs [] =
      Some [JArray [JString [], JString (replicate 32 (CHR ''a'')), JString (replicate 65 (CHR ''b''))]]"
    by (simp add: sample_codecs_def)
  have "page_decode sample_codecs [] None = Inr sample_page"
    by (simp add: page_decode_def entry_decode_def attestation_fields_def message_hash_deserialize_def
        MESSAGE_HASH_BYTES_def SIGNATURE_BYTES_def 1 2 3 4 sample_page_def sample_entry_def)
  then show ?thesis by (simp add: fetch_page_def is_success_def classify_def sample_page_def)
qed

lemmas sample_relay_simps =
  sample_relay_env_def sample_relay_config_def sample_mint_def sample_minter_def

definition sample_progress :: relay_state where
  "sample_progress = \<lparr>st_watermark = Some sample_hash, st_scan = None\<rparr>"

definition sample_mint_note :: mint_note where
  "sample_mint_note = \<lparr>mn_id = 1, mn_nonce = 7, mn_fields = \<lparr>mf_sender = 1, mf_target = 2, mf_remote_domain = ''7'',
     mf_intent = \<lparr>di_nonce = 7, di_payload = []\<rparr>, mf_signature = replicate 65 98, mf_attester = [], mf_serial = 0\<rparr>\<rparr>"

definition sample_trace :: "page_request \<Rightarrow> relay_action list" where
  "sample_trace q = [Fetched q sample_page, SubmittedTx 5 [sample_mint_note], IncludedTx 5 3, PageDone None None sample_page,
     SavedState sample_progress]"

definition saved_files :: "relay_state \<Rightarrow> files" where
  "saved_files s = \<lparr>fs_state = Some (unary_json (state_to_json sample_codecs s)), fs_tmp = None\<rparr>"

lemma sample_saved: "set_state sample_codecs None s d = (Inr (), saved_files s)"
  by (simp add: set_state_def saved_files_def sample_codecs_def)

lemma sample_reads: "valid_state s \<Longrightarrow> store_state sample_codecs False (saved_files s) = Inr s"
  using set_state_outcome [OF sample_honest _ sample_saved] by auto

lemma sample_states_valid: "valid_state default_state" "valid_state sample_progress"
  by (simp_all add: valid_state_def valid_hash_def default_state_def sample_progress_def sample_hash_def
      MESSAGE_HASH_BYTES_def)

definition sample_relayer :: relayer where
  "sample_relayer = \<lparr>rl_files = saved_files default_state, rl_circle = \<lparr>cl_base_path = [], cl_page_size = 10\<rparr>,
     rl_minter = sample_minter, rl_unminted = [], rl_tick = 0, rl_trace = []\<rparr>"

lemmas relay_defs =
  scan_def read_state_def lift_failure_def classify_def bind_run_def cancelled_def run_page_def finish_page_def
  process_page_def fetch_def build_page_def build_notes_def build_note_def check_minted_def retain_unminted_def
  sync_state_def mint_unminted_def forget_minted_def submit_notes_def submit_transaction_def poll_transaction_def
  track_submitted_def save_state_def after_page_def position_state_def from_state_def rtick_def noted_def

lemma sample_first_read:
  "store_state sample_codecs False (saved_files default_state) = Inr \<lparr>st_watermark = None, st_scan = None\<rparr>"
  using sample_reads [OF sample_states_valid(1)] by (simp add: default_state_def)

lemma sample_process_run:
  "\<exists>q r'. run_until sample_relay_env 1 1 1 sample_relayer = (Inr False, r') \<and>
    rl_trace r' = sample_trace q \<and> rl_files r' = saved_files sample_progress"
  by (simp add: relay_defs sample_relay_simps sample_relayer_def sample_first_read sample_page_fetched Let_def)
    (simp add: relay_defs sample_page_def sample_entry_def fresh_entries_def is_watermark_def
      unminted_nonces_def or_else_def sample_saved sample_progress_def sample_trace_def sample_mint_note_def)

section \<open>Nothing below the watermark is left out\<close>

lemma lifetimes_recorded:
  assumes "honest_codecs x" and "rtranclp (lifetime x mx ident) s t" and "no_progress s"
  shows "well_recorded x mx ident t"
proof -
  have "rtranclp (\<lambda>s t. honest_codecs x \<and> lifetime x mx ident s t) s t"
    using assms(2) by (rule mono_rtranclp [rule_format, rotated]) (simp add: assms(1))
  then show ?thesis using lives.reachable_inv assms(3) by blast
qed

abbreviation no_files :: files where
  "no_files \<equiv> \<lparr>fs_state = None, fs_tmp = None\<rparr>"

text \<open>
  C5: However many times the relayer is started, stopped, cut off or fails, once its progress file
  holds a watermark, every deposit of the feed at or below the watermark is settled: its entry does
  not build a note, or the faucet was seen to have minted its nonce, or its note is an output of a
  transaction that was seen included in a block. The feed is assumed to behave as Circle documents
  it: pages are consecutive entries, a cursor addresses the entries below it, hashes are unique.
\<close>

theorem no_deposit_skipped:
  assumes "honest_codecs x"
    and "rtranclp (lifetime x mx ident) ([], no_files) (tr, d)"
    and "store_state x False d = Inr s" and "st_watermark s = Some h"
    and "served_by feed below (done_pages tr)" and "unique_hashes feed"
  shows "\<exists>newer en older. feed = newer @ en # older \<and> entry_message_hash en = Some h \<and>
    list_all (entry_settled mx ident tr) (en # older)"
proof -
  have rec: "well_recorded x mx ident (tr, d)"
    using lifetimes_recorded [OF assms(1,2)] by (simp add: no_progress_def)
  then have "justified (done_pages tr) s"
    using assms(3) by (auto simp: well_recorded_def accounted_def)
  from justified_covers [OF this assms(5,6,4)] obtain newer en older
    where split: "feed = newer @ en # older" "entry_message_hash en = Some h"
      and cov: "\<forall>y \<in> set (en # older). covered (done_pages tr) y"
    unfolding handled_below_def by blast
  have "entry_settled mx ident tr y" if "covered (done_pages tr) y" for y
    using that rec by (auto simp: covered_def well_recorded_def accounted_def pages_settled_def)
  with cov have "entry_settled mx ident tr y" if "y \<in> set (en # older)" for y
    using that by blast
  then show ?thesis using split by (auto simp: list_all_iff)
qed

lemma sample_starts:
  "relayer_new sample_codecs sample_relay_config sample_minter False None no_files = Inr sample_relayer"
  by (simp add: relayer_new_def validate_prover_def validate_prover_timeout_def as_start_def store_state_def
      sample_saved circle_client_new_def effective_page_size_def sample_relay_config_def sample_relayer_def
      LOCAL_PROVING_MAX_def)

lemma sample_lifetime:
  "\<exists>q. lifetime sample_codecs sample_mint sample_minter ([], no_files) (sample_trace q, saved_files sample_progress)"
proof -
  obtain q r' where run: "run_until sample_relay_env 1 1 1 sample_relayer = (Inr False, r')"
    and r': "rl_trace r' = sample_trace q" "rl_files r' = saved_files sample_progress"
    using sample_process_run by blast
  have "run_until sample_relay_env 1 1 1 (sample_relayer\<lparr>rl_trace := []\<rparr>) = (Inr False, r')"
    using run by (simp add: sample_relayer_def)
  from lifetime.intros [OF sample_starts _ _ _ this]
  have "lifetime sample_codecs sample_mint sample_minter ([], no_files) (rl_trace r', rl_files r')"
    by (simp add: sample_minter_def sample_relay_env_def)
  then show ?thesis using r' by auto
qed

lemma sample_done: "done_pages (sample_trace q) = {(None, None, sample_page)}"
  by (auto simp: done_pages_def sample_trace_def)

theorem no_deposit_skipped_witness:
  "\<exists>tr newer en older. [sample_entry] = newer @ en # older \<and> entry_message_hash en = Some sample_hash \<and>
    list_all (entry_settled sample_mint sample_minter tr) (en # older)"
proof -
  obtain q where life: "lifetime sample_codecs sample_mint sample_minter ([], no_files) (sample_trace q, saved_files sample_progress)"
    using sample_lifetime by blast
  have "served_by [sample_entry] (\<lambda>_. []) (done_pages (sample_trace q))"
    by (simp add: sample_done served_by_def page_ends_def sample_page_def)
  with no_deposit_skipped [OF sample_honest r_into_rtranclp [where r = "lifetime sample_codecs sample_mint sample_minter", OF life]
      sample_reads [OF sample_states_valid(2)], of sample_hash "[sample_entry]" "\<lambda>_. []"]
  show ?thesis by (auto simp: sample_progress_def)
qed

section \<open>Failures\<close>

lemma failed_set_state:
  "set_state x fault s d = (Inl err, d') \<Longrightarrow> store_state x b d' = store_state x b d"
  by (auto simp: set_state_def store_state_def Let_def split: option.splits write_fault.splits)

lemma side_step_files: "side_step r r' \<Longrightarrow> rl_files r' = rl_files r"
  by (simp add: side_step_def)

lemma process_page_files: "process_page e n c w r = (v, r') \<Longrightarrow> rl_files r' = rl_files r"
proof (cases v)
  case (Inr out)
  assume "process_page e n c w r = (v, r')"
  with Inr obtain page s where "side_step r s" "r' = noted (PageDone c w page) s"
    by (blast elim: process_page_done)
  then show ?thesis by (simp add: side_step_files)
qed (blast dest: process_page_stopped side_step_files)

text \<open>
  A page that fails, wherever it fails, leaves the progress on disk as it was, so the next scan
  resumes at the same page with the same head and watermark.
\<close>

theorem failed_page_keeps_progress:
  assumes "run_page e n p r = (Inl stop, r')"
  shows "store_state (re_feed e) False (rl_files r') = store_state (re_feed e) False (rl_files r)"
proof -
  from assms obtain s where fin: "finish_page e n p r = (Inl stop, s)" and "rl_files r' = rl_files s"
    by (auto simp: run_page_def split: prod.splits sum.splits relay_stop.splits)
  obtain o1 t where o1: "process_page e n (ps_resume p) (ps_watermark p) r = (o1, t)" by fastforce
  note t = process_page_files [OF o1]
  show ?thesis
  proof (cases o1)
    case (Inl f)
    then show ?thesis using fin o1 t \<open>rl_files r' = rl_files s\<close> by (simp add: finish_page_def bind_run_def)
  next
    case (Inr out)
    then obtain q saved where "after_page p out = (q, saved)" "save_state e saved t = (Inl stop, s)"
      using fin o1 by (auto simp: finish_page_def bind_run_def split: prod.splits if_splits sum.splits)
    then have "store_state (re_feed e) False (rl_files s) = store_state (re_feed e) False (rl_files t)"
      by (auto simp: save_state_def failed_set_state split: prod.splits sum.splits)
    then show ?thesis using t \<open>rl_files r' = rl_files s\<close> by simp
  qed
qed

definition offline_feed_env :: relay_env where
  "offline_feed_env = sample_relay_env\<lparr>re_fetch := (\<lambda>_ _. None)\<rparr>"

theorem failed_page_keeps_progress_witness:
  "store_state sample_codecs False (rl_files (snd (run_page offline_feed_env 1 (from_state default_state) sample_relayer)))
     = Inr default_state"
proof -
  obtain r' where run: "run_page offline_feed_env 1 (from_state default_state) sample_relayer =
      (Inl (FailedWith (failed_as (Transient ''circle_unavailable'') CircleRequestFailed)), r')"
    by (simp add: offline_feed_env_def relay_defs fetch_page_def Let_def is_expired_submission_def sample_relay_env_def)
  have "store_state sample_codecs False (rl_files sample_relayer) = Inr default_state"
    by (simp add: sample_relayer_def sample_reads sample_states_valid)
  with failed_page_keeps_progress [OF run] run show ?thesis
    by (simp add: offline_feed_env_def sample_relay_env_def)
qed

text \<open>
  C27: Replacing the progress file is atomic: whether the write succeeds, fails or stops at any of
  its steps, reading the file back gives the new state, with success reported, or exactly what it
  gave before, with an error reported.
\<close>

theorem progress_file_atomic:
  assumes "honest_codecs x" and "valid_state s" and "set_state x fault s d = (v, d')"
  shows "v = Inr () \<and> store_state x False d' = Inr s \<or>
    v = Inl ProgressNotSaved \<and> store_state x False d' = store_state x False d"
  using set_state_outcome [OF assms] assms(3)
  by (cases v) (auto simp: set_state_def Let_def split: option.splits write_fault.splits)

theorem progress_file_atomic_witness:
  "store_state sample_codecs False (snd (set_state sample_codecs (Some (WriteFails 3)) sample_progress (saved_files default_state)))
     = Inr default_state \<and>
   store_state sample_codecs False (snd (set_state sample_codecs None sample_progress (saved_files default_state))) = Inr sample_progress"
proof -
  have "set_state sample_codecs (Some (WriteFails 3)) sample_progress (saved_files default_state) =
      (Inl ProgressNotSaved, snd (set_state sample_codecs (Some (WriteFails 3)) sample_progress (saved_files default_state)))"
    by (simp add: set_state_def Let_def)
  from progress_file_atomic [OF sample_honest sample_states_valid(2) this]
    progress_file_atomic [OF sample_honest sample_states_valid(2) sample_saved, of "saved_files default_state"]
  show ?thesis by (simp add: sample_saved sample_reads [OF sample_states_valid(1)])
qed

end
