(* ===== verification/Relayer_Limits.thy ===== *)
theory Relayer_Limits
  imports Relayer_Props
begin

text \<open>
  The bounds of the deposit relayer: the wait for a transaction ends, a transaction carries no more
  notes than the proving mode allows, the end of the feed is never guessed, and the deposits waiting
  for the faucet are tracked once, from the time they landed.
\<close>

section \<open>Waiting ends\<close>

text \<open>
  \<open>expires_by\<close>: every record of a submitted transaction that is seen expires at or before block \<open>X\<close>.
  \<open>chain_reaches\<close>: from the environment call \<open>T\<close> on, the synced chain is at \<open>X\<close> or beyond.
\<close>

definition expires_by :: "relay_env \<Rightarrow> block_number \<Rightarrow> bool" where
  "expires_by e X \<longleftrightarrow>
     (\<forall>i tx recs. re_record e i tx = Some recs \<longrightarrow> recs \<noteq> [] \<longrightarrow> tr_expiration_block (last recs) \<le> X)"

definition chain_reaches :: "relay_env \<Rightarrow> nat \<Rightarrow> block_number \<Rightarrow> bool" where
  "chain_reaches e T X \<longleftrightarrow> (\<forall>i tip. T \<le> i \<longrightarrow> re_height e i = Some tip \<longrightarrow> X \<le> tip)"

lemma sync_tick: "sync_state e r = (v, r') \<Longrightarrow> r' = rtick r"
  by (auto simp: sync_state_def split: option.splits)

lemma poll_waiting:
  assumes "poll_transaction e tx r = (Inr Waiting, r')" and "expires_by e X" and "chain_reaches e T X"
  shows "Suc (rl_tick r) < T" "rl_tick r' = rl_tick r + 2"
proof -
  from assms(1) obtain recs tip where rec: "re_record e (rl_tick r) tx = Some recs" "recs \<noteq> []"
    and tip: "re_height e (Suc (rl_tick r)) = Some tip" and r': "r' = rtick (rtick r)"
    and out: "inclusion_of (tr_status (last recs)) tip (tr_expiration_block (last recs)) = Inr Waiting"
    by (auto simp: poll_transaction_def lift_failure_def split: option.splits list.splits sum.splits)
  from out have "tip < tr_expiration_block (last recs)"
    by (cases "tr_status (last recs)") (auto split: if_splits)
  moreover have "tr_expiration_block (last recs) \<le> X" using assms(2) rec unfolding expires_by_def by blast
  ultimately show "Suc (rl_tick r) < T" using assms(3) tip unfolding chain_reaches_def by (metis leD leI le_trans)
  show "rl_tick r' = rl_tick r + 2" by (simp add: r')
qed

lemma poll_finishes: "fst (poll_transaction e tx r) \<noteq> Inl Unfinished"
  by (auto simp: poll_transaction_def lift_failure_def split: option.split list.split sum.split)

lemma wait_finishes:
  assumes "expires_by e X" and "chain_reaches e T X"
  shows "k < FAILED_SYNCS_BEFORE_GIVING_UP \<Longrightarrow> T + FAILED_SYNCS_BEFORE_GIVING_UP \<le> n + k + rl_tick r \<Longrightarrow>
    FAILED_SYNCS_BEFORE_GIVING_UP \<le> n + k \<Longrightarrow> fst (wait_for_inclusion e n tx k r) \<noteq> Inl Unfinished"
proof (induction n arbitrary: k r)
  case (Suc n)
  define s where "s = rtick r"
  obtain v where s: "sync_state e r = (v, s)" unfolding s_def using sync_tick by (metis surj_pair)
  obtain w t where t: "poll_transaction e tx s = (w, t)" by fastforce
  have tick: "rl_tick s = Suc (rl_tick r)" by (simp add: s_def)
  show ?case
  proof (cases v)
    case (Inl stop)
    then obtain f where f: "stop = FailedWith f" using s by (auto simp: sync_state_def split: option.splits)
    show ?thesis
    proof (cases "retry_sync f (k + 1)")
      case True
      then have "k + 1 < FAILED_SYNCS_BEFORE_GIVING_UP" by (simp add: retry_sync_def)
      with Suc.IH [of "k + 1" s] Suc.prems True show ?thesis by (simp add: s Inl f tick)
    qed (simp add: s Inl f)
  next
    case (Inr u)
    show ?thesis
    proof (cases "w = Inr Waiting")
      case True
      from poll_waiting [OF _ assms, of tx s t] t True
      have "Suc (rl_tick s) < T" "rl_tick t = rl_tick s + 2" by simp_all
      with Suc.IH [of 0 t] Suc.prems True show ?thesis
        by (simp add: s t Inr tick FAILED_SYNCS_BEFORE_GIVING_UP_def)
    next
      case False
      then show ?thesis using poll_finishes [of e tx s] by (auto simp: s t Inr split: sum.split inclusion.split)
    qed
  qed
qed (simp add: FAILED_SYNCS_BEFORE_GIVING_UP_def)

text \<open>
  C25: Submitting a page always returns: as soon as the chain has reached the expiration block of
  the transactions, the wait ends, included or failed, within the rounds up to that moment and the
  three failed syncs that are tolerated in a row.
\<close>

theorem submission_returns:
  assumes "expires_by e X" and "chain_reaches e T X"
    and "T + FAILED_SYNCS_BEFORE_GIVING_UP \<le> rounds"
  shows "fst (submit_notes e rounds ns r) \<noteq> Inl Unfinished"
proof -
  have wait: "fst (wait_for_inclusion e rounds tx 0 s) \<noteq> Inl Unfinished" for tx s
    using assms(3) by (intro wait_finishes [OF assms(1,2)]) (simp_all add: FAILED_SYNCS_BEFORE_GIVING_UP_def)
  obtain v s where s: "sync_state e r = (v, s)" by fastforce
  obtain w t where t: "submit_transaction e ns s = (w, t)" by fastforce
  have "v \<noteq> Inl Unfinished" "w \<noteq> Inl Unfinished"
    using s t by (auto simp: sync_state_def submit_transaction_def split: option.splits sum.splits)
  then show ?thesis
    using wait by (auto simp: submit_notes_def bind_run_def lift_failure_def s t split: sum.split)
qed

definition stuck_env :: relay_env where
  "stuck_env = sample_relay_env\<lparr>re_record := (\<lambda>_ _. Some [\<lparr>tr_status = Pending, tr_expiration_block = 10\<rparr>]),
     re_height := id\<circ>Some\<rparr>"

theorem submission_returns_witness:
  "fst (submit_notes stuck_env 13 [sample_mint_note] sample_relayer) \<noteq> Inl Unfinished"
proof (rule submission_returns)
  show "expires_by stuck_env 10" by (simp add: expires_by_def stuck_env_def)
  show "chain_reaches stuck_env 10 10" by (auto simp: chain_reaches_def stuck_env_def)
  show "10 + FAILED_SYNCS_BEFORE_GIVING_UP \<le> 13" by (simp add: FAILED_SYNCS_BEFORE_GIVING_UP_def)
qed

section \<open>Proving limits\<close>

text \<open>A step within a limit never raises the page size, and submits only transactions with some
  notes and no more than the limit.\<close>

fun sized :: "nat \<Rightarrow> relay_action \<Rightarrow> bool" where
  "sized cap (SubmittedTx tx ns) \<longleftrightarrow> ns \<noteq> [] \<and> length ns \<le> cap"
| "sized cap _ = True"

abbreviation asked :: "relayer \<Rightarrow> nat" where
  "asked r \<equiv> unat (cl_page_size (rl_circle r))"

definition within_limit :: "relayer \<Rightarrow> relayer \<Rightarrow> bool" where
  "within_limit r r' \<longleftrightarrow> asked r' \<le> asked r \<and> (\<exists>ts. rl_trace r' = rl_trace r @ ts \<and> list_all (sized (asked r)) ts)"

lemma sized_mono: "sized a y \<Longrightarrow> a \<le> b \<Longrightarrow> sized b y"
  by (cases y) auto

lemma all_sized_mono: "list_all (sized a) ts \<Longrightarrow> a \<le> b \<Longrightarrow> list_all (sized b) ts"
  using sized_mono by (auto simp: list_all_iff)

lemma within_limit_refl: "within_limit r r"
  by (simp add: within_limit_def)

lemma within_limit_trans: "within_limit r s \<Longrightarrow> within_limit s t \<Longrightarrow> within_limit r t"
  unfolding within_limit_def by (fastforce intro: order_trans list.pred_mono_strong dest: sized_mono)

interpretation limits: run_order within_limit
  by unfold_locales (blast intro: within_limit_refl within_limit_trans)+

text \<open>Side steps that submit nothing are within every limit.\<close>

fun submits_nothing :: "relay_action \<Rightarrow> bool" where
  "submits_nothing (SubmittedTx _ _) = False"
| "submits_nothing _ = True"

definition idle_step :: "relayer \<Rightarrow> relayer \<Rightarrow> bool" where
  "idle_step r r' \<longleftrightarrow> rl_circle r' = rl_circle r \<and> (\<exists>ts. rl_trace r' = rl_trace r @ ts \<and> list_all submits_nothing ts)"

lemma submits_nothing_sized: "submits_nothing y \<Longrightarrow> sized n y"
  by (cases y) auto

lemma idle_limited: "idle_step r r' \<Longrightarrow> within_limit r r'"
  unfolding idle_step_def within_limit_def by (auto intro: list.pred_mono_strong submits_nothing_sized)

interpretation idle: run_order idle_step
  by unfold_locales (auto simp: idle_step_def)

lemma idle_tick: "idle_step r (rtick r)"
  by (simp add: idle_step_def)

lemma idle_noted: "submits_nothing a \<Longrightarrow> idle_step r (noted a r)"
  by (simp add: idle_step_def)

lemma idle_sync: "moves idle_step (sync_state e)"
  by (simp add: moves_def sync_state_def idle_tick split: option.split)

lemma idle_fetch: "moves idle_step (fetch e c)"
  by (auto simp: moves_def fetch_def Let_def idle_step_def split: sum.split)

lemma idle_build: "moves idle_step (build_page e fresh)"
  by (auto simp: moves_def build_page_def idle_step_def split: prod.split)

lemma idle_found: "idle_step r (noted (FoundUsed n) (rtick r))"
  by (simp add: idle_step_def)

lemma idle_read_used: "moves idle_step (read_used_nonces e ns kept)"
proof (induction ns arbitrary: kept)
  case (Cons n ns)
  have "idle_step r (snd (read_used_nonces e (n # ns) kept r))" for r
    using Cons.IH [unfolded moves_def, rule_format]
    by (auto split: option.split intro: idle_tick idle.order_trans [OF idle_tick] idle.order_trans [OF idle_found])
  then show ?case by (simp add: moves_def)
qed (simp add: moves_def idle.order_refl)

lemma idle_retain: "moves idle_step (retain_unminted e ns)"
  unfolding retain_unminted_def
  by (auto intro: idle.moves_ret idle.moves_bind idle_sync idle_read_used)

lemma idle_check: "moves idle_step (check_minted e built)"
  using idle_retain by (simp add: moves_def check_minted_def)

lemma idle_poll: "moves idle_step (poll_transaction e tx)"
  by (auto simp: moves_def poll_transaction_def lift_failure_def idle_step_def
      split: option.split list.split sum.split)

lemma idle_wait: "moves idle_step (wait_for_inclusion e n tx k)"
proof (induction n arbitrary: k)
  case (Suc n)
  have "idle_step r (snd (wait_for_inclusion e (Suc n) tx k r))" for r
  proof -
    obtain v s where s: "sync_state e r = (v, s)" by fastforce
    obtain w t where t: "poll_transaction e tx s = (w, t)" by fastforce
    have rs: "idle_step r s" and st: "idle_step s t" using s t by (auto intro: moves_run idle_sync idle_poll)
    have rt: "idle_step r t" by (rule idle.order_trans [OF rs st])
    have "idle_step r (snd (wait_for_inclusion e n tx k' s))" "idle_step r (snd (wait_for_inclusion e n tx k' t))" for k'
      using idle.order_trans rs rt Suc.IH [THEN moves_snd] by blast+
    moreover have "idle_step r (noted (IncludedTx tx b) t)" for b
      using idle.order_trans [OF rt idle_noted] by simp
    ultimately show ?thesis using rs rt by (auto simp: s t split: sum.split relay_stop.split inclusion.split)
  qed
  then show ?case by (simp add: moves_def)
qed (simp add: moves_def idle_step_def)

lemma submit_limited:
  assumes "submit_notes e n ns r = (v, r')" and "ns \<noteq> []" and "length ns \<le> asked r"
  shows "within_limit r r'"
proof -
  have sub: "within_limit s t" if "submit_transaction e ns s = (w, t)" "asked s = asked r" for w s t
    using that assms by (auto simp: submit_transaction_def within_limit_def split: sum.splits)
  obtain u s where s: "sync_state e r = (u, s)" by fastforce
  obtain w t where t: "submit_transaction e ns s = (w, t)" by fastforce
  have rs: "idle_step r s" using s by (auto intro: moves_run idle_sync)
  then have "within_limit s t" using sub [OF t] by (simp add: idle_step_def)
  then have rt: "within_limit r t" using within_limit_trans idle_limited [OF rs] by blast
  have "within_limit t (snd (wait_for_inclusion e n tx 0 t))" for tx
    using idle_limited idle_wait [THEN moves_snd] by blast
  then have "within_limit r (snd (wait_for_inclusion e n tx 0 t))" for tx
    using within_limit_trans rt by blast
  then show ?thesis
    using assms(1) idle_limited [OF rs] rt
    by (auto simp: submit_notes_def bind_run_def lift_failure_def s t within_limit_refl split: sum.splits if_splits)
       (metis snd_conv)
qed

lemma build_entries_length:
  "length (bn_notes (fst (build_entries mx ens b m))) \<le> length (bn_notes b) + length ens"
proof (induction ens arbitrary: b m)
  case (Cons en ens)
  obtain o1 m1 where o1: "build_entry mx en m = (o1, m1)" by fastforce
  show ?case
    using Cons [of "b\<lparr>bn_notes := bn_notes b @ [the o1]\<rparr>" m1]
      Cons [of "b\<lparr>bn_skipped := bn_skipped b @ [entry_message_hash en]\<rparr>" m1] o1
    by (cases o1) simp_all
qed simp

lemma build_page_length: "build_page e fresh r = (Inr built, r') \<Longrightarrow> length built \<le> length fresh"
  using build_entries_length [of "re_mint e" fresh "\<lparr>bn_notes = [], bn_skipped = []\<rparr>" "rl_minter r"]
  by (auto simp: build_page_def build_notes_def split: prod.splits)

lemma build_page_total: "\<exists>built t. build_page e fresh s = (Inr built, t)"
  by (simp add: build_page_def split: prod.split)

lemma fresh_length: "length (fresh_entries w ens) \<le> length ens"
  by (simp add: fresh_entries_def split: option.split)

lemma fetch_page_length: "fetch_page x n a = Inr p \<Longrightarrow> length (pg_entries p) \<le> unat n"
  by (auto simp: fetch_page_def outcome_simps split: if_splits)

lemma mint_limited:
  assumes "mint_unminted e n built kept r = (v, r')" and "length built \<le> asked r"
  shows "within_limit r r'"
proof -
  let ?ns = "filter (\<lambda>nt. mn_nonce nt \<in> set kept) built"
  let ?s = "r\<lparr>rl_unminted := unminted_retain kept (rl_unminted r)\<rparr>"
  have rs: "within_limit r ?s" by (simp add: within_limit_def)
  show ?thesis
  proof (cases "?ns = []")
    case True
    then show ?thesis using assms rs by (simp add: mint_unminted_def forget_minted_def bind_run_def Let_def)
  next
    case False
    obtain w t where t: "submit_notes e n ?ns ?s = (w, t)" by fastforce
    have "length ?ns \<le> asked ?s" using assms(2) by (simp add: le_trans [OF length_filter_le])
    from submit_limited [OF t False this] have st: "within_limit ?s t" .
    have "within_limit t r' \<or> r' = t"
      using assms(1) False t
      by (auto simp: mint_unminted_def forget_minted_def bind_run_def Let_def track_submitted_def within_limit_def split: sum.splits)
    then show ?thesis using rs st within_limit_trans by blast
  qed
qed

lemma process_page_limited: "moves within_limit (process_page e n c w)"
proof -
  have "within_limit r r'" if run: "process_page e n c w r = (v, r')" for r v r'
  proof -
    obtain a s where a: "fetch e c r = (a, s)" by fastforce
    have rs: "idle_step r s" using a by (auto intro: moves_run idle_fetch)
    show ?thesis
    proof (cases a)
      case (Inl stop)
      then show ?thesis using run a idle_limited [OF rs] by (auto simp: process_page_def bind_run_def)
    next
      case (Inr page)
      let ?fresh = "fresh_entries w (pg_entries page)"
      have "length (pg_entries page) \<le> asked r"
        using a Inr fetch_page_length by (auto simp: fetch_def Let_def split: sum.splits)
      then have fr: "length ?fresh \<le> asked r" using fresh_length order_trans by blast
      obtain built t where b: "build_page e ?fresh s = (Inr built, t)"
        using build_page_total by blast
      obtain k u where k: "check_minted e built t = (k, u)" by fastforce
      have ru: "idle_step r u"
        by (rule idle.order_trans [OF idle.order_trans [OF rs moves_run [OF idle_build b]] moves_run [OF idle_check k]])
      show ?thesis
      proof (cases k)
        case (Inl stop)
        then show ?thesis using run a Inr b k idle_limited [OF ru] by (auto simp: process_page_def bind_run_def Let_def)
      next
        case (Inr kept)
        obtain m z where m: "mint_unminted e n built kept u = (m, z)" by fastforce
        have "length built \<le> asked u" using fr build_page_length [OF b] ru by (simp add: idle_step_def)
        from mint_limited [OF m this] have "within_limit r z" using idle_limited [OF ru] within_limit_trans by blast
        moreover have "within_limit z r'"
          using run a \<open>a = Inr page\<close> b k Inr m
          by (auto simp: process_page_def bind_run_def Let_def within_limit_def split: sum.splits)
        ultimately show ?thesis using within_limit_trans by blast
      qed
    qed
  qed
  then show ?thesis unfolding moves_def by (metis surjective_pairing)
qed

lemma save_state_limited: "moves within_limit (save_state e s)"
  by (auto simp: moves_def save_state_def within_limit_def split: prod.split sum.split)

lemma within_limit_pair: "moves within_limit (Pair v)"
  by (simp add: moves_def within_limit_refl)

lemma finish_page_limited: "moves within_limit (finish_page e n p)"
  unfolding finish_page_def
  by (intro limits.moves_bind process_page_limited)
    (auto split: prod.split intro!: limits.moves_bind save_state_limited limits.moves_ret within_limit_pair)

lemma run_page_limited: "moves within_limit (run_page e n p)"
proof -
  have "within_limit r (snd (run_page e n p r))" for r
  proof -
    obtain v s where v: "finish_page e n p r = (v, s)" by fastforce
    have rs: "within_limit r s" by (rule moves_run [OF finish_page_limited v])
    have "within_limit s (s\<lparr>rl_circle := snd (limit_to_local_proving (rl_circle s))\<rparr>)"
      by (auto simp: within_limit_def limit_to_local_proving_def Let_def min_def word_le_nat_alt)
    then show ?thesis using rs within_limit_trans
      by (auto simp: run_page_def v split: sum.split relay_stop.split)
  qed
  then show ?thesis by (simp add: moves_def)
qed

lemma cancelled_limited: "moves within_limit (cancelled e)"
  by (simp add: moves_def cancelled_def within_limit_def)

lemma scan_pages_limited: "moves within_limit (scan_pages e n k p)"
proof (induction k arbitrary: p)
  case 0
  show ?case by (simp add: within_limit_pair)
next
  case (Suc k)
  then show ?case
    by (auto intro!: limits.moves_bind cancelled_limited run_page_limited limits.moves_ret within_limit_pair split: option.split)
qed

lemma read_state_limited: "moves within_limit (read_state e)"
  by (auto simp: moves_def read_state_def lift_failure_def within_limit_def split: sum.split)

lemma scan_limited: "moves within_limit (scan e n k)"
  unfolding scan_def by (intro limits.moves_bind read_state_limited scan_pages_limited)

lemma within_limit_tick: "within_limit r (rtick r)"
  by (simp add: within_limit_def)

lemma run_until_limited: "run_until e n k i r = (v, r') \<Longrightarrow> within_limit r r'"
proof (induction i arbitrary: r)
  case (Suc i)
  obtain w s where w: "scan e n k (rtick r) = (w, s)" by fastforce
  have s: "within_limit r s" by (rule within_limit_trans [OF within_limit_tick moves_run [OF scan_limited w]])
  consider "r' = rtick r" | "r' = s" | "r' = rtick s" | "run_until e n k i (rtick s) = (v, r')"
    using Suc.prems(1) w by (auto split: if_splits sum.splits relay_stop.splits scan_outcome.splits)
  then show ?case
    by cases (use Suc.IH s within_limit_tick within_limit_trans in blast)+
qed (simp add: within_limit_refl)

text \<open>
  C26: Over a whole run, every transaction carries at least one note and at most ten without a
  remote prover or forty with one, whatever page size was configured and however many entries
  Circle returns.
\<close>

theorem transactions_within_proving_limit:
  assumes "relayer_new x c m read_fails fault d = Inr r" and "run_until e rounds pages n r = (v, r')"
  shows "list_all (sized (if rc_prover_url c = None then 10 else 40)) (rl_trace r')"
proof -
  from assms(1) have r: "rl_trace r = []" "cl_page_size (rl_circle r) = effective_page_size c"
    by (auto simp: relayer_new_def as_start_def circle_client_new_def outcome_simps split: sum.splits prod.splits)
  have cap: "asked r \<le> (if rc_prover_url c = None then 10 else 40)"
    by (auto simp: r effective_page_size_def LOCAL_PROVING_MAX_def REMOTE_PROVING_MAX_def min_def
        word_le_nat_alt unat_numeral)
  show ?thesis
    using run_until_limited [OF assms(2)] all_sized_mono [OF _ cap] unfolding within_limit_def r by simp
qed

theorem transactions_within_proving_limit_witness:
  "\<exists>v r'. run_until sample_relay_env 1 1 1 sample_relayer = (v, r') \<and> list_all (sized 10) (rl_trace r')"
proof -
  obtain v r' where run: "run_until sample_relay_env 1 1 1 sample_relayer = (v, r')" by fastforce
  from transactions_within_proving_limit [OF sample_starts run] run show ?thesis
    by (auto simp: sample_relay_config_def)
qed

text \<open>
  Once the node has refused a submission as expired, the rest of the run asks for pages of at
  most ten deposits and submits no transaction with more than ten notes.
\<close>

theorem expired_submission_shrinks_pages:
  assumes "run_page e n p r = (Inl (FailedWith f), s)" and "is_expired_submission (fl_error f)"
    and "run_until e rounds pages i s = (v, r')"
  shows "asked s \<le> 10 \<and> asked r' \<le> 10 \<and> (\<exists>ts. rl_trace r' = rl_trace s @ ts \<and> list_all (sized 10) ts)"
proof -
  have "asked s \<le> 10"
    using assms(1,2)
    by (auto simp: run_page_def limit_to_local_proving_def Let_def LOCAL_PROVING_MAX_def min_def
        word_le_nat_alt unat_numeral split: prod.splits sum.splits relay_stop.splits if_splits)
  then show ?thesis
    using run_until_limited [OF assms(3)] all_sized_mono unfolding within_limit_def by fastforce
qed

definition expired_env :: relay_env where
  "expired_env = sample_relay_env\<lparr>re_submit :=
     (\<lambda>_ _. Inl (RpcRequestError SubmitProvenTx InvalidArgument (Some TxExpired)))\<rparr>"

theorem expired_submission_shrinks_pages_witness:
  "\<exists>s. asked s \<le> 10 \<and> fst (run_page expired_env 1 (from_state default_state) sample_relayer) = Inl (FailedWith
     (failed_as (Transient ''transaction_submit'') (NodeClientError (RpcRequestError SubmitProvenTx InvalidArgument (Some TxExpired)))))"
proof -
  obtain s where run: "run_page expired_env 1 (from_state default_state) sample_relayer = (Inl (FailedWith
     (failed_as (Transient ''transaction_submit'') (NodeClientError (RpcRequestError SubmitProvenTx InvalidArgument (Some TxExpired))))), s)"
    by (simp add: expired_env_def relay_defs sample_relay_simps sample_relayer_def sample_page_fetched Let_def default_state_def)
      (simp add: relay_defs sample_page_def sample_entry_def fresh_entries_def is_watermark_def unminted_nonces_def
        is_expired_submission_def)
  obtain v r' where "run_until expired_env 0 0 0 s = (v, r')" by fastforce
  from expired_submission_shrinks_pages [OF run _ this] run show ?thesis
    by (auto simp: is_expired_submission_def)
qed

section \<open>The end of the feed and places on a page\<close>

lemma parse_next_link_end:
  assumes "parse_next_link x l = Inr nxt"
  shows "\<exists>links. fx_links x l = Some links \<and> (nxt = None) = (links ''next'' = None)"
proof -
  from assms obtain links where links: "fx_links x l = Some links"
    by (auto simp: parse_next_link_def outcome_simps)
  show ?thesis
  proof (cases "links ''next''")
    case None
    then show ?thesis using assms links by (simp add: parse_next_link_def)
  next
    case (Some pairs)
    then show ?thesis using assms links
      by (cases "find (\<lambda>(k, v). k = ''pageAfter'') pairs") (auto simp: parse_next_link_def split: if_splits)
  qed
qed

text \<open>
  A page that says it is the last one comes from an answer without a \<^verbatim>\<open>Link\<close> header or with
  one that parses and has no \<^verbatim>\<open>next\<close> relation; a header that does not parse, or a \<^verbatim>\<open>next\<close> without
  a token, is an error. Every entry of the answer keeps its place, readable or not.
\<close>

theorem feed_end_is_explicit:
  assumes "page_decode x body link = Inr p"
  shows "(pg_next p = None) = (link = None \<or> (\<exists>l links. link = Some l \<and> fx_links x l = Some links \<and> links ''next'' = None)) \<and>
    (\<exists>vs. fx_list x body = Some vs \<and> length (pg_entries p) = length vs \<and>
      map entry_message_hash (pg_entries p) = map (\<lambda>v. entry_message_hash (entry_decode x 0 v)) vs)"
proof -
  from assms obtain vs nxt where v: "fx_list x body = Some vs"
    and n: "(case link of None \<Rightarrow> Inr None | Some l \<Rightarrow> parse_next_link x l) = Inr nxt"
    and p: "pg_next p = nxt" "pg_entries p = map (\<lambda>(index, value). entry_decode x (index + 1) value) (zip [0..<length vs] vs)"
    by (auto simp: page_decode_def outcome_simps)
  have 1: "(pg_next p = None) = (link = None \<or> (\<exists>l links. link = Some l \<and> fx_links x l = Some links \<and> links ''next'' = None))"
  proof (cases link)
    case None
    then show ?thesis using n by (simp add: p)
  next
    case (Some l)
    then show ?thesis using n parse_next_link_end [of x l nxt] by (auto simp: p)
  qed
  have "entry_message_hash (entry_decode x i w) = entry_message_hash (entry_decode x 0 w)" for i w
    by (simp add: entry_decode_def Let_def split: option.split)
  then have "map entry_message_hash (pg_entries p) = map (\<lambda>v. entry_message_hash (entry_decode x 0 v)) vs"
    by (auto simp: p intro!: nth_equalityI)
  with v 1 show ?thesis by (auto simp: p)
qed

theorem feed_end_is_explicit_witness: "pg_next sample_page = None \<and> length (pg_entries sample_page) = 1"
proof -
  have "page_decode sample_codecs [] None = Inr sample_page"
    using sample_page_fetched by (auto simp: fetch_page_def is_success_def classify_def outcome_simps split: sum.splits if_splits)
  from feed_end_is_explicit [OF this] show ?thesis by (simp add: sample_page_def)
qed

section \<open>Deposits waiting for the faucet\<close>

lemma map_of_append_single: "map_of (u @ [(n, t)]) k = (case map_of u k of Some v \<Rightarrow> Some v | None \<Rightarrow> if k = n then Some t else None)"
  by (simp add: map_add_def split: option.split)

text \<open>
  A deposit is tracked once and keeps the time at which its note first landed, however often a
  retried page submits it again; deposits in the list stay in order.
\<close>

theorem unminted_keeps_first_time:
  assumes "distinct (unminted_nonces u)"
  shows "distinct (unminted_nonces (unminted_submitted ns at u)) \<and>
    map_of (unminted_submitted ns at u) k =
      (case map_of u k of Some t \<Rightarrow> Some t | None \<Rightarrow> if k \<in> set ns then Some at else None) \<and>
    take (length u) (unminted_submitted ns at u) = u"
  using assms
proof (induction ns arbitrary: u)
  case (Cons n ns)
  define v where "v = (if list_ex (\<lambda>(tracked, _). tracked = n) u then u else u @ [(n, at)])"
  have ex: "list_ex (\<lambda>(tracked, _). tracked = n) u \<longleftrightarrow> n \<in> fst ` set u"
    by (auto simp: list_ex_iff image_iff) (metis fst_conv)+
  have d: "distinct (unminted_nonces v)"
    using Cons.prems ex by (auto simp: v_def unminted_nonces_def)
  have m: "map_of v k = (case map_of u k of Some t \<Rightarrow> Some t | None \<Rightarrow> if k = n then Some at else None)"
  proof (cases "n \<in> fst ` set u")
    case True
    then have "v = u" "map_of u n \<noteq> None" using ex by (simp_all add: v_def map_of_eq_None_iff)
    then show ?thesis by (auto split: option.split)
  next
    case False
    then have "v = u @ [(n, at)]" "map_of u n = None" using ex by (simp_all add: v_def map_of_eq_None_iff)
    then show ?thesis by (simp add: map_of_append_single del: map_of_append)
  qed
  have "take (length u) (unminted_submitted ns at v) = u"
  proof -
    have "take (length v) (unminted_submitted ns at v) = v" "take (length u) v = u"
      using Cons.IH [OF d] by (auto simp: v_def)
    moreover have "length u \<le> length v" by (simp add: v_def)
    ultimately show ?thesis by (metis min.absorb1 take_take)
  qed
  with Cons.IH [OF d] m show ?case by (auto simp: v_def [symmetric] split: option.splits)
qed (auto split: option.split)

theorem unminted_keeps_first_time_witness:
  "map_of (unminted_submitted [1, 2] 10 [(1, 0)]) (1 :: b256) = Some 0"
  using unminted_keeps_first_time [of "[(1, 0)]" "[1, 2]" 10 1] by (simp add: unminted_nonces_def)

end
