(* ===== verification/Ledger.thy ===== *)
theory Ledger
  imports Prelude
begin

text \<open>
  \<^verbatim>\<open>crates/withdrawal-listener-attester/src/idempotency\<close>: the durable per-burn ledger whose atomic
  claim decides whether a withdrawal may be submitted. The table is the list of its rows; a
  transaction commits as a whole or leaves the table as it was. What a statement reads back from
  disk is checked again, so a row that makes no sense is an error and never an absent row.
\<close>

section \<open>Records and statuses (\<^verbatim>\<open>record.rs\<close>)\<close>

text \<open>\<^verbatim>\<open>BurnKey::new\<close>: hexadecimal is case-insensitive as an identifier.\<close>

definition burn_key_new :: "string \<Rightarrow> string" where
  "burn_key_new burn_tx_id = map to_ascii_lowercase burn_tx_id"

datatype ledger_status = Pending | Submitted | Finalized | ReconciliationRequired | Failed

fun as_token :: "ledger_status \<Rightarrow> string" where
  "as_token Pending = ''pending''"
| "as_token Submitted = ''submitted''"
| "as_token Finalized = ''finalized''"
| "as_token ReconciliationRequired = ''reconciliation_required''"
| "as_token Failed = ''failed''"

definition parse_token :: "string \<Rightarrow> ledger_status option" where
  "parse_token token =
     (if token = ''pending'' then Some Pending
      else if token = ''submitted'' then Some Submitted
      else if token = ''finalized'' then Some Finalized
      else if token = ''reconciliation_required'' then Some ReconciliationRequired
      else if token = ''failed'' then Some Failed
      else None)"

definition blocks_resubmission :: "ledger_status \<Rightarrow> bool" where
  "blocks_resubmission s \<longleftrightarrow> s \<noteq> Failed"

fun can_transition_to :: "ledger_status \<Rightarrow> ledger_status \<Rightarrow> bool" where
  "can_transition_to Pending Submitted = True"
| "can_transition_to Pending ReconciliationRequired = True"
| "can_transition_to Pending Failed = True"
| "can_transition_to Pending Finalized = True"
| "can_transition_to Submitted Finalized = True"
| "can_transition_to Submitted ReconciliationRequired = True"
| "can_transition_to Failed Pending = True"
| "can_transition_to _ _ = False"

record submission_record =
  sr_burn_key :: string
  sr_withdrawal_id :: "string option"
  sr_status :: ledger_status
  sr_timestamp :: nat

datatype claim_outcome = Claimed "submission_record list" | AlreadySeen submission_record

section \<open>Errors and rows (\<^verbatim>\<open>error.rs\<close>, \<^verbatim>\<open>store.rs\<close>)\<close>

datatype ledger_error =
    EphemeralStorePath string
  | UnsupportedLedgerSchema nat
  | LedgerStore
  | CorruptLedgerRecord
  | UnknownBurn string
  | IllegalStatusTransition ledger_status ledger_status

text \<open>A row as SQLite holds it: the status as a token, the seconds as a signed integer.\<close>

record ledger_row =
  lr_burn_key :: string
  lr_withdrawal_id :: "string option"
  lr_status :: string
  lr_timestamp :: int

type_synonym ledger = "ledger_row list"

definition to_sql_seconds :: "nat \<Rightarrow> ledger_error + int" where
  "to_sql_seconds seconds = (if int seconds < 2 ^ 63 then Inr (int seconds) else Inl CorruptLedgerRecord)"

definition from_sql_seconds :: "int \<Rightarrow> ledger_error + nat" where
  "from_sql_seconds seconds = (if 0 \<le> seconds then Inr (nat seconds) else Inl CorruptLedgerRecord)"

definition row_to_record :: "ledger_row \<Rightarrow> ledger_error + submission_record" where
  "row_to_record r =
     and_then (ok_or (parse_token (lr_status r)) CorruptLedgerRecord) (\<lambda>status.
     and_then (from_sql_seconds (lr_timestamp r)) (\<lambda>seconds.
     Inr \<lparr>sr_burn_key = burn_key_new (lr_burn_key r), sr_withdrawal_id = lr_withdrawal_id r,
          sr_status = status, sr_timestamp = seconds\<rparr>))"

definition read_record :: "string \<Rightarrow> ledger \<Rightarrow> ledger_error + submission_record option" where
  "read_record key t =
     (case lookup_by lr_burn_key key t of
        None \<Rightarrow> Inr None
      | Some r \<Rightarrow> and_then (row_to_record r) (\<lambda>rec. Inr (Some rec)))"

text \<open>
  The check of the machine and the write; the \<^verbatim>\<open>UPDATE\<close> names the row by the key of the record.
\<close>

definition apply_transition ::
  "submission_record \<Rightarrow> ledger_status \<Rightarrow> string option \<Rightarrow> nat \<Rightarrow> ledger \<Rightarrow>
   ledger_error + submission_record \<times> ledger" where
  "apply_transition current to withdrawal_id now t =
     (if \<not> can_transition_to (sr_status current) to
      then Inl (IllegalStatusTransition (sr_status current) to)
      else
        (let updated = current\<lparr>sr_withdrawal_id :=
                 (case withdrawal_id of None \<Rightarrow> sr_withdrawal_id current | Some w \<Rightarrow> Some w),
               sr_status := to, sr_timestamp := now\<rparr> in
         and_then (to_sql_seconds now) (\<lambda>seconds.
         Inr (updated, update_by lr_burn_key (sr_burn_key updated)
           (\<lambda>r. r\<lparr>lr_withdrawal_id := sr_withdrawal_id updated, lr_status := as_token to,
                  lr_timestamp := seconds\<rparr>) t))))"

section \<open>Transactions\<close>

text \<open>\<^verbatim>\<open>write\<close>: \<^verbatim>\<open>BEGIN IMMEDIATE\<close>, the body, then \<^verbatim>\<open>COMMIT\<close>, or \<^verbatim>\<open>ROLLBACK\<close> on any error. \<open>fails\<close> is
  a database statement that fails.\<close>

datatype claim_aborted = AbortSeen submission_record | AbortLedger ledger_error

definition write_tx :: "bool \<Rightarrow> (ledger \<Rightarrow> claim_aborted + 'a \<times> ledger) \<Rightarrow> ledger \<Rightarrow> (claim_aborted + 'a) \<times> ledger" where
  "write_tx fails body t =
     (if fails then (Inl (AbortLedger LedgerStore), t)
      else case body t of Inl a \<Rightarrow> (Inl a, t) | Inr (v, t') \<Rightarrow> (Inr v, t'))"

definition as_aborted :: "ledger_error + 'a \<Rightarrow> claim_aborted + 'a" where
  "as_aborted r = (case r of Inl e \<Rightarrow> Inl (AbortLedger e) | Inr v \<Rightarrow> Inr v)"

text \<open>The insert of a fresh claim; the table refuses an empty key.\<close>

definition insert_claim :: "string \<Rightarrow> nat \<Rightarrow> ledger \<Rightarrow> ledger_error + submission_record \<times> ledger" where
  "insert_claim key now t =
     and_then (to_sql_seconds now) (\<lambda>seconds.
     if key = [] then Inl LedgerStore
     else Inr (\<lparr>sr_burn_key = key, sr_withdrawal_id = None, sr_status = Pending, sr_timestamp = now\<rparr>,
       insert_row \<lparr>lr_burn_key = key, lr_withdrawal_id = None, lr_status = as_token Pending,
                   lr_timestamp = seconds\<rparr> t))"

fun claim_keys ::
  "nat \<Rightarrow> string list \<Rightarrow> submission_record list \<Rightarrow> ledger \<Rightarrow>
   claim_aborted + submission_record list \<times> ledger" where
  "claim_keys now [] claimed t = Inr (claimed, t)"
| "claim_keys now (key # keys) claimed t =
     and_then (as_aborted (read_record key t)) (\<lambda>found.
     case found of
       Some existing \<Rightarrow>
         if blocks_resubmission (sr_status existing) then Inl (AbortSeen existing)
         else and_then (as_aborted (apply_transition existing Pending None now t)) (\<lambda>(rec, t').
           claim_keys now keys (claimed @ [rec]) t')
     | None \<Rightarrow>
         and_then (as_aborted (insert_claim key now t)) (\<lambda>(rec, t').
           claim_keys now keys (claimed @ [rec]) t'))"

definition claim_burns :: "bool \<Rightarrow> nat \<Rightarrow> string list \<Rightarrow> ledger \<Rightarrow> (ledger_error + claim_outcome) \<times> ledger" where
  "claim_burns fails now keys t =
     (case write_tx fails (claim_keys now keys []) t of
        (Inr claimed, t') \<Rightarrow> (Inr (Claimed claimed), t')
      | (Inl (AbortSeen rec), t') \<Rightarrow> (Inr (AlreadySeen rec), t')
      | (Inl (AbortLedger e), t') \<Rightarrow> (Inl e, t'))"

definition transition ::
  "bool \<Rightarrow> nat \<Rightarrow> string \<Rightarrow> ledger_status \<Rightarrow> string option \<Rightarrow> ledger \<Rightarrow>
   (ledger_error + submission_record) \<times> ledger" where
  "transition fails now key to withdrawal_id t =
     (case write_tx fails (\<lambda>t.
        and_then (as_aborted (read_record key t)) (\<lambda>found.
        and_then (ok_or found (AbortLedger (UnknownBurn key))) (\<lambda>current.
        as_aborted (apply_transition current to withdrawal_id now t)))) t of
        (Inr rec, t') \<Rightarrow> (Inr rec, t')
      | (Inl (AbortLedger e), t') \<Rightarrow> (Inl e, t')
      | (Inl (AbortSeen _), t') \<Rightarrow> (Inl CorruptLedgerRecord, t'))"

definition record_submission :: "bool \<Rightarrow> nat \<Rightarrow> string \<Rightarrow> string option \<Rightarrow> ledger \<Rightarrow> (ledger_error + submission_record) \<times> ledger" where
  "record_submission fails now key wid = transition fails now key Submitted wid"

definition record_finalized :: "bool \<Rightarrow> nat \<Rightarrow> string \<Rightarrow> string option \<Rightarrow> ledger \<Rightarrow> (ledger_error + submission_record) \<times> ledger" where
  "record_finalized fails now key wid = transition fails now key Finalized wid"

definition record_reconciliation_required :: "bool \<Rightarrow> nat \<Rightarrow> string \<Rightarrow> string option \<Rightarrow> ledger \<Rightarrow> (ledger_error + submission_record) \<times> ledger" where
  "record_reconciliation_required fails now key wid = transition fails now key ReconciliationRequired wid"

definition record_failure :: "bool \<Rightarrow> nat \<Rightarrow> string \<Rightarrow> ledger \<Rightarrow> (ledger_error + submission_record) \<times> ledger" where
  "record_failure fails now key = transition fails now key Failed None"

section \<open>Opening\<close>

definition LEDGER_SCHEMA_VERSION :: nat where "LEDGER_SCHEMA_VERSION = 1"

definition durable_path :: "string \<Rightarrow> ledger_error + unit" where
  "durable_path path =
     (let normalized = map to_ascii_lowercase (trim path) in
      if normalized = [] then Inl (EphemeralStorePath path)
      else if normalized = '':memory:'' then Inl (EphemeralStorePath path)
      else Inr ())"

definition assert_backed_by_a_file :: "string \<Rightarrow> string \<Rightarrow> ledger_error + unit" where
  "assert_backed_by_a_file file path =
     (if trim file = [] then Inl (EphemeralStorePath path) else Inr ())"

text \<open>\<open>opened\<close> is what SQLite makes of the path (\<open>None\<close> when it cannot be opened): the file behind the
  database, its \<^verbatim>\<open>user_version\<close> and the rows it holds.\<close>

definition open_ledger :: "(string \<times> nat \<times> ledger) option \<Rightarrow> string \<Rightarrow> ledger_error + nat \<times> ledger" where
  "open_ledger opened path =
     and_then (durable_path path) (\<lambda>_.
     and_then (ok_or opened LedgerStore) (\<lambda>(file, version, rows).
     and_then (assert_backed_by_a_file file path) (\<lambda>_.
     if version = 0 then Inr (LEDGER_SCHEMA_VERSION, rows)
     else if version = LEDGER_SCHEMA_VERSION then Inr (version, rows)
     else Inl (UnsupportedLedgerSchema version))))"

section \<open>The status of a burn\<close>

definition status_of :: "ledger \<Rightarrow> string \<Rightarrow> ledger_status option" where
  "status_of t k = (case read_record k t of Inr (Some rec) \<Rightarrow> Some (sr_status rec) | _ \<Rightarrow> None)"

text \<open>A table written by the ledger itself: every row has a lower-case key, a known status and a
  non-negative time.\<close>

definition well_formed :: "ledger \<Rightarrow> bool" where
  "well_formed t \<longleftrightarrow>
     (\<forall>r \<in> set t. burn_key_new (lr_burn_key r) = lr_burn_key r \<and> parse_token (lr_status r) \<noteq> None \<and>
        0 \<le> lr_timestamp r)"

lemma lowercase_idem [simp]: "to_ascii_lowercase (to_ascii_lowercase c) = to_ascii_lowercase c"
proof -
  have "of_char (char_of (n + 32) :: char) = n + (32 :: nat)" if "n \<in> {65..90}" for n :: nat
    using that by simp
  then show ?thesis by (auto simp: to_ascii_lowercase_def Let_def)
qed

lemma burn_key_idem [simp]: "burn_key_new (burn_key_new k) = burn_key_new k"
  by (simp add: burn_key_new_def)

lemma parse_as_token [simp]: "parse_token (as_token s) = Some s"
  by (cases s) (simp_all add: parse_token_def)

lemma row_to_record_total:
  assumes "parse_token (lr_status r) \<noteq> None" and "0 \<le> lr_timestamp r"
  obtains rec where "row_to_record r = Inr rec"
    "sr_status rec = the (parse_token (lr_status r))" "sr_burn_key rec = burn_key_new (lr_burn_key r)"
    "sr_withdrawal_id rec = lr_withdrawal_id r"
  using assms by (auto simp: row_to_record_def from_sql_seconds_def)

lemma lookup_insert:
  "lookup_by key k (insert_row r t) =
     (case lookup_by key k t of Some r' \<Rightarrow> Some r' | None \<Rightarrow> if key r = k then Some r else None)"
  by (induction t) (auto simp: insert_row_def lookup_by_Cons lookup_by_Nil)

definition wid_of :: "ledger \<Rightarrow> string \<Rightarrow> string option" where
  "wid_of t k = (case read_record k t of Inr (Some rec) \<Rightarrow> sr_withdrawal_id rec | _ \<Rightarrow> None)"

lemma well_formed_lookup:
  assumes "well_formed t" and "lookup_by lr_burn_key k t = Some r"
  shows "burn_key_new k = k" "lr_burn_key r = k" "parse_token (lr_status r) \<noteq> None" "0 \<le> lr_timestamp r"
  using lookup_by_key [OF assms(2)] assms(1) by (auto simp: well_formed_def)

lemma read_record_found:
  assumes "well_formed t" and "lookup_by lr_burn_key k t = Some r"
  obtains rec where "read_record k t = Inr (Some rec)" "sr_status rec = the (parse_token (lr_status r))"
    "sr_burn_key rec = k" "sr_withdrawal_id rec = lr_withdrawal_id r"
proof -
  note row = well_formed_lookup [OF assms]
  obtain rec where "row_to_record r = Inr rec" "sr_status rec = the (parse_token (lr_status r))"
    "sr_burn_key rec = burn_key_new (lr_burn_key r)" "sr_withdrawal_id rec = lr_withdrawal_id r"
    using row_to_record_total [OF row(3,4)] by blast
  then show ?thesis using row assms(2) that by (simp add: read_record_def)
qed

lemma read_record_cases:
  assumes "well_formed t"
  shows "read_record k t = Inr None \<and> lookup_by lr_burn_key k t = None \<or>
    (\<exists>rec r. read_record k t = Inr (Some rec) \<and> lookup_by lr_burn_key k t = Some r \<and> sr_burn_key rec = k)"
  using assms by (cases "lookup_by lr_burn_key k t") (auto simp: read_record_def elim: read_record_found)

text \<open>The three things a table says of a burn are determined by its row.\<close>

lemma status_of_row:
  assumes "well_formed t"
  shows "status_of t k = (case lookup_by lr_burn_key k t of None \<Rightarrow> None | Some r \<Rightarrow> parse_token (lr_status r))"
proof (cases "lookup_by lr_burn_key k t")
  case (Some r)
  obtain rec where "read_record k t = Inr (Some rec)" "sr_status rec = the (parse_token (lr_status r))"
    using read_record_found [OF assms Some] by blast
  then show ?thesis using Some well_formed_lookup(3) [OF assms Some] by (auto simp: status_of_def)
qed (simp add: status_of_def read_record_def)

lemma wid_of_row:
  assumes "well_formed t"
  shows "wid_of t k = (case lookup_by lr_burn_key k t of None \<Rightarrow> None | Some r \<Rightarrow> lr_withdrawal_id r)"
proof (cases "lookup_by lr_burn_key k t")
  case (Some r)
  obtain rec where "read_record k t = Inr (Some rec)" "sr_withdrawal_id rec = lr_withdrawal_id r"
    using read_record_found [OF assms Some] by blast
  then show ?thesis using Some by (simp add: wid_of_def)
qed (simp add: wid_of_def read_record_def)

section \<open>What the operations do\<close>

lemma apply_transition_effect:
  assumes wf: "well_formed t" and cur: "read_record k t = Inr (Some cur)"
    and run: "apply_transition cur to wid now t = Inr (rec, t')"
  shows "well_formed t'" and "can_transition_to (sr_status cur) to"
    and "status_of t' k' = (if k' = k then Some to else status_of t k')"
    and "wid_of t' k' = (if k' = k then (case wid of None \<Rightarrow> wid_of t k | Some w \<Rightarrow> Some w) else wid_of t k')"
proof -
  have key: "sr_burn_key cur = k" using read_record_cases [OF wf, of k] cur by auto
  define w where "w = (case wid of None \<Rightarrow> sr_withdrawal_id cur | Some w \<Rightarrow> Some w)"
  from run show can: "can_transition_to (sr_status cur) to"
    by (auto simp: apply_transition_def split: if_splits)
  with run have t': "t' = update_by lr_burn_key k
      (\<lambda>r. r\<lparr>lr_withdrawal_id := w, lr_status := as_token to, lr_timestamp := int now\<rparr>) t"
    by (auto simp: apply_transition_def Let_def to_sql_seconds_def key w_def split: if_splits)
  show wf': "well_formed t'"
    using wf by (auto simp: t' update_by_def well_formed_def split: if_splits)
  obtain r where r: "lookup_by lr_burn_key k t = Some r"
    using read_record_cases [OF wf, of k] cur by auto
  have look: "lookup_by lr_burn_key k' t' = (if k' = k then Some (r\<lparr>lr_withdrawal_id := w,
      lr_status := as_token to, lr_timestamp := int now\<rparr>) else lookup_by lr_burn_key k' t)" for k'
    unfolding t' by (subst lookup_by_update) (simp_all add: r)
  show "status_of t' k' = (if k' = k then Some to else status_of t k')"
    by (simp add: status_of_row wf wf' look)
  have w: "w = (case wid of None \<Rightarrow> wid_of t k | Some w \<Rightarrow> Some w)"
    by (simp add: w_def wid_of_def cur split: option.split)
  show "wid_of t' k' = (if k' = k then (case wid of None \<Rightarrow> wid_of t k | Some w \<Rightarrow> Some w) else wid_of t k')"
    by (simp add: wid_of_row [OF wf'] look w) (simp add: wid_of_row [OF wf])
qed

lemma insert_claim_effect:
  assumes wf: "well_formed t" and none: "read_record k t = Inr None" and norm: "burn_key_new k = k"
    and run: "insert_claim k now t = Inr (rec, t')"
  shows "well_formed t'" and "status_of t' k' = (if k' = k then Some Pending else status_of t k')"
    and "wid_of t' k' = (if k' = k then None else wid_of t k')"
proof -
  define r where "r = \<lparr>lr_burn_key = k, lr_withdrawal_id = None, lr_status = as_token Pending,
      lr_timestamp = int now\<rparr>"
  have t': "t' = insert_row r t"
    using run by (auto simp: insert_claim_def to_sql_seconds_def r_def split: if_splits)
  show wf': "well_formed t'"
    using wf norm parse_as_token [of Pending] by (auto simp: t' insert_row_def well_formed_def r_def)
  have miss: "lookup_by lr_burn_key k t = None" using read_record_cases [OF wf, of k] none by auto
  have look: "lookup_by lr_burn_key k' t' = (if k' = k then Some r else lookup_by lr_burn_key k' t)" for k'
    by (auto simp: t' lookup_insert miss r_def split: option.split)
  show "status_of t' k' = (if k' = k then Some Pending else status_of t k')"
    using parse_as_token [of Pending] by (simp add: status_of_row wf wf' look r_def)
  show "wid_of t' k' = (if k' = k then None else wid_of t k')"
    by (simp add: wid_of_row wf wf' look r_def)
qed

definition claimable :: "ledger \<Rightarrow> string \<Rightarrow> bool" where
  "claimable t k \<longleftrightarrow> status_of t k = None \<or> status_of t k = Some Failed"

lemma claim_keys_effect:
  assumes "claim_keys now ks acc t = Inr (recs, t')" and "well_formed t"
    and "\<And>k. k \<in> set ks \<Longrightarrow> burn_key_new k = k"
  shows "well_formed t' \<and> distinct ks \<and> (\<forall>k \<in> set ks. claimable t k) \<and>
    (\<forall>k. status_of t' k = (if k \<in> set ks then Some Pending else status_of t k)) \<and> wid_of t' = wid_of t"
  using assms
proof (induction ks arbitrary: acc t)
  case (Cons k ks)
  obtain rec t1 acc1 where wf1: "well_formed t1"
    and st: "\<And>k'. status_of t1 k' = (if k' = k then Some Pending else status_of t k')"
    and wid: "wid_of t1 = wid_of t"
    and can: "claimable t k" and further: "claim_keys now ks acc1 t1 = Inr (recs, t')"
  proof -
    consider "read_record k t = Inr None" | cur where "read_record k t = Inr (Some cur)"
      using read_record_cases [OF Cons.prems(2), of k] by blast
    then show ?thesis
    proof cases
      case 1
      then obtain rec t1 where ins: "insert_claim k now t = Inr (rec, t1)"
        and nxt: "claim_keys now ks (acc @ [rec]) t1 = Inr (recs, t')"
        using Cons.prems(1) by (auto simp: as_aborted_def outcome_simps split: sum.splits)
      have "claimable t k" using 1 by (simp add: claimable_def status_of_def)
      moreover have "wid_of t k = None" using 1 by (simp add: wid_of_def)
      ultimately show ?thesis
        using insert_claim_effect [OF Cons.prems(2) 1 Cons.prems(3) ins] nxt that by (auto simp: fun_eq_iff)
    next
      case (2 cur)
      then obtain rec t1 where up: "apply_transition cur Pending None now t = Inr (rec, t1)"
        and nxt: "claim_keys now ks (acc @ [rec]) t1 = Inr (recs, t')" and "sr_status cur = Failed"
        using Cons.prems(1)
        by (auto simp: as_aborted_def outcome_simps blocks_resubmission_def split: sum.splits if_splits)
      then have "claimable t k" using 2 by (simp add: claimable_def status_of_def)
      with apply_transition_effect [OF Cons.prems(2) 2 up] nxt that show ?thesis by (auto simp: fun_eq_iff)
    qed
  qed
  from Cons.IH [OF further wf1] Cons.prems(3)
  have IH: "well_formed t'" "distinct ks" "\<forall>k \<in> set ks. claimable t1 k"
    "\<forall>k. status_of t' k = (if k \<in> set ks then Some Pending else status_of t1 k)" "wid_of t' = wid_of t1" by auto
  have "k \<notin> set ks" using IH(3) st [of k] by (auto simp: claimable_def)
  moreover have "claimable t k'" if "k' \<in> set ks" for k'
    using IH(3) that st [of k'] \<open>k \<notin> set ks\<close> by (auto simp: claimable_def split: if_splits)
  ultimately show ?case using IH st can wid by auto
qed simp

text \<open>A claim commits as a whole or changes nothing.\<close>

lemma claim_burns_effect:
  assumes "claim_burns fails now ks t = (v, t')" and "well_formed t"
    and "\<And>k. k \<in> set ks \<Longrightarrow> burn_key_new k = k"
  shows "(case v of Inr (Claimed _) \<Rightarrow> well_formed t' \<and> distinct ks \<and> (\<forall>k \<in> set ks. claimable t k) \<and>
      (\<forall>k. status_of t' k = (if k \<in> set ks then Some Pending else status_of t k)) \<and> wid_of t' = wid_of t
    | _ \<Rightarrow> t' = t)"
proof (cases "fails")
  case True
  then show ?thesis using assms(1) by (auto simp: claim_burns_def write_tx_def)
next
  case False
  show ?thesis
  proof (cases "claim_keys now ks [] t")
    case (Inl a)
    then show ?thesis using assms(1) False by (cases a) (auto simp: claim_burns_def write_tx_def)
  next
    case (Inr p)
    then obtain recs u where p: "claim_keys now ks [] t = Inr (recs, u)" by (cases p) auto
    then have "v = Inr (Claimed recs)" "t' = u"
      using assms(1) False by (auto simp: claim_burns_def write_tx_def)
    then show ?thesis using claim_keys_effect [OF p assms(2,3)] by simp
  qed
qed

lemma transition_effect:
  assumes "transition fails now k to wid t = (v, t')" and "well_formed t"
  shows "(case v of Inl _ \<Rightarrow> t' = t
    | Inr _ \<Rightarrow> well_formed t' \<and> (\<exists>s. status_of t k = Some s \<and> can_transition_to s to) \<and>
        (\<forall>k'. status_of t' k' = (if k' = k then Some to else status_of t k')) \<and>
        (\<forall>k'. wid_of t' k' = (if k' = k then (case wid of None \<Rightarrow> wid_of t k | Some w \<Rightarrow> Some w) else wid_of t k')))"
proof (cases "v")
  case (Inl e)
  then show ?thesis using assms(1)
    by (auto simp: transition_def write_tx_def split: if_splits sum.splits prod.splits claim_aborted.splits)
next
  case (Inr rec)
  then have run: "transition fails now k to wid t = (Inr rec, t')" using assms(1) by simp
  then obtain cur where cur: "read_record k t = Inr (Some cur)"
    using read_record_cases [OF assms(2), of k]
    by (auto simp: transition_def write_tx_def as_aborted_def split: if_splits)
  then have up: "apply_transition cur to wid now t = Inr (rec, t')"
    using run by (cases "apply_transition cur to wid now t")
      (auto simp: transition_def write_tx_def as_aborted_def split: if_splits)
  have "status_of t k = Some (sr_status cur)" by (simp add: status_of_def cur)
  with apply_transition_effect [OF assms(2) cur up] Inr show ?thesis by simp
qed

section \<open>Any number of callers\<close>

text \<open>
  Every call of the ledger is one transaction, so callers in any number of tasks and processes
  produce a sequence of calls. \<open>ledger_run\<close> runs such a sequence, each call with whether a statement
  fails and with the time, and logs the calls that succeeded.
\<close>

datatype ledger_op =
    ClaimBurns "string list"
  | RecordSubmission string "string option"
  | RecordFinalized string "string option"
  | RecordReconciliation string "string option"
  | RecordFailure string

definition succeeded :: "('e + 'a) \<times> ledger \<Rightarrow> bool \<times> ledger" where
  "succeeded out = (case out of (Inl _, t) \<Rightarrow> (False, t) | (Inr _, t) \<Rightarrow> (True, t))"

fun ledger_do :: "bool \<Rightarrow> nat \<Rightarrow> ledger_op \<Rightarrow> ledger \<Rightarrow> bool \<times> ledger" where
  "ledger_do fails now (ClaimBurns ids) t =
     (case claim_burns fails now (map burn_key_new ids) t of
        (Inr (Claimed _), t') \<Rightarrow> (True, t') | (_, t') \<Rightarrow> (False, t'))"
| "ledger_do fails now (RecordSubmission i w) t = succeeded (record_submission fails now (burn_key_new i) w t)"
| "ledger_do fails now (RecordFinalized i w) t = succeeded (record_finalized fails now (burn_key_new i) w t)"
| "ledger_do fails now (RecordReconciliation i w) t =
     succeeded (record_reconciliation_required fails now (burn_key_new i) w t)"
| "ledger_do fails now (RecordFailure i) t = succeeded (record_failure fails now (burn_key_new i) t)"

fun ledger_run :: "(bool \<times> nat \<times> ledger_op) list \<Rightarrow> ledger \<Rightarrow> ledger_op list \<times> ledger" where
  "ledger_run [] t = ([], t)"
| "ledger_run ((fails, now, op) # ops) t =
     (case ledger_do fails now op t of
        (ok, t1) \<Rightarrow> (case ledger_run ops t1 of (log, t2) \<Rightarrow> (if ok then op # log else log, t2)))"

fun claims :: "ledger_op \<Rightarrow> string \<Rightarrow> bool" where
  "claims (ClaimBurns ids) k \<longleftrightarrow> k \<in> burn_key_new ` set ids"
| "claims _ k \<longleftrightarrow> False"

fun frees :: "ledger_op \<Rightarrow> string \<Rightarrow> bool" where
  "frees (RecordFailure i) k \<longleftrightarrow> burn_key_new i = k"
| "frees _ k \<longleftrightarrow> False"

lemma transition_settles:
  assumes "transition fails now k to wid t = (v, t1)" and "well_formed t"
  shows "well_formed t1" and "status_of t1 k' = status_of t k' \<or> k' = k \<and> status_of t1 k' = Some to"
  using transition_effect [OF assms] assms(2) by (cases v; auto)+

lemma transition_keeps_blocked:
  assumes "transition fails now k to wid t = (v, t1)" and "well_formed t" and "to \<noteq> Failed"
  shows "well_formed t1 \<and> (\<not> claimable t k' \<longrightarrow> \<not> claimable t1 k')"
  using transition_settles(1) [OF assms(1,2)] transition_settles(2) [OF assms(1,2), of k'] assms(3)
  by (auto simp: claimable_def)

lemma succeeded_snd: "succeeded out = (ok, t1) \<Longrightarrow> \<exists>v. out = (v, t1)"
  by (cases out) (auto simp: succeeded_def split: sum.splits)

lemmas record_defs = record_submission_def record_finalized_def record_reconciliation_required_def record_failure_def

lemma ledger_do_effect:
  assumes "ledger_do fails now op t = (ok, t1)" and "well_formed t"
  shows "well_formed t1" "ok \<Longrightarrow> claims op k \<Longrightarrow> claimable t k \<and> status_of t1 k = Some Pending"
    "\<not> claimable t k \<Longrightarrow> \<not> (ok \<and> frees op k) \<Longrightarrow> \<not> claimable t1 k"
proof (atomize (full), cases op)
  case (ClaimBurns ids)
  obtain v where v: "claim_burns fails now (map burn_key_new ids) t = (v, t1)"
    and ok: "ok \<longleftrightarrow> (\<exists>recs. v = Inr (Claimed recs))"
    using assms(1) ClaimBurns by (auto split: prod.splits sum.splits claim_outcome.splits)
  have "burn_key_new k = k" if "k \<in> set (map burn_key_new ids)" for k using that by auto
  from claim_burns_effect [OF v assms(2) this]
  show "well_formed t1 \<and> (ok \<longrightarrow> claims op k \<longrightarrow> claimable t k \<and> status_of t1 k = Some Pending) \<and>
      (\<not> claimable t k \<longrightarrow> \<not> (ok \<and> frees op k) \<longrightarrow> \<not> claimable t1 k)"
    using assms(2) ok ClaimBurns
    by (auto simp: claimable_def split: sum.splits claim_outcome.splits)
next
  case (RecordFailure i)
  obtain v where v: "transition fails now (burn_key_new i) Failed None t = (v, t1)"
    and ok: "ok \<longleftrightarrow> (\<exists>rec. v = Inr rec)"
    using assms(1) RecordFailure by (auto simp: record_defs succeeded_def split: prod.splits sum.splits)
  show "well_formed t1 \<and> (ok \<longrightarrow> claims op k \<longrightarrow> claimable t k \<and> status_of t1 k = Some Pending) \<and>
      (\<not> claimable t k \<longrightarrow> \<not> (ok \<and> frees op k) \<longrightarrow> \<not> claimable t1 k)"
    using transition_effect [OF v assms(2)] assms(2) ok RecordFailure
    by (cases v) (auto simp: claimable_def)
qed (use assms in \<open>auto simp: record_defs dest!: succeeded_snd dest: transition_keeps_blocked\<close>)

text \<open>
  What one caller knows of a burn it has claimed: its status and withdrawal ID stay as they are while
  other callers run, as long as these record outcomes for their own burns only.
\<close>

fun records_for :: "ledger_op \<Rightarrow> string \<Rightarrow> bool" where
  "records_for (ClaimBurns ids) k \<longleftrightarrow> False"
| "records_for (RecordSubmission i w) k \<longleftrightarrow> burn_key_new i = k"
| "records_for (RecordFinalized i w) k \<longleftrightarrow> burn_key_new i = k"
| "records_for (RecordReconciliation i w) k \<longleftrightarrow> burn_key_new i = k"
| "records_for (RecordFailure i) k \<longleftrightarrow> burn_key_new i = k"

definition held :: "string \<Rightarrow> ledger_status \<Rightarrow> string option \<Rightarrow> ledger \<Rightarrow> bool" where
  "held k s w t \<longleftrightarrow> well_formed t \<and> status_of t k = Some s \<and> s \<noteq> Failed \<and> wid_of t k = w"

definition other_call :: "string \<Rightarrow> ledger \<Rightarrow> ledger \<Rightarrow> bool" where
  "other_call k t t' \<longleftrightarrow> (\<exists>fails now op ok. \<not> records_for op k \<and> ledger_do fails now op t = (ok, t'))"

lemma transition_elsewhere:
  assumes "transition fails now k' to wid t = (v, t')" and "held k s w t" and "k \<noteq> k'"
  shows "held k s w t'"
  using transition_effect [OF assms(1)] assms(2,3) unfolding held_def by (cases v) auto

lemma other_call_holds:
  assumes "other_call k t t'" and "held k s w t"
  shows "held k s w t'"
proof -
  obtain fails now op ok where own: "\<not> records_for op k" and run: "ledger_do fails now op t = (ok, t')"
    using assms(1) unfolding other_call_def by blast
  have wf: "well_formed t" using assms(2) by (simp add: held_def)
  show ?thesis
  proof (cases op)
    case (ClaimBurns ids)
    then obtain v where v: "claim_burns fails now (map burn_key_new ids) t = (v, t')"
      using run by (auto split: prod.splits sum.splits claim_outcome.splits)
    have norm: "burn_key_new j = j" if "j \<in> set (map burn_key_new ids)" for j using that by auto
    note eff = claim_burns_effect [OF v wf norm]
    show ?thesis
    proof (cases "t' = t")
      case False
      then show ?thesis
        using eff assms(2) by (auto simp: held_def claimable_def split: sum.splits claim_outcome.splits)
    qed (use assms(2) in simp)
  qed (use own run assms(2) in \<open>auto simp: record_defs dest!: succeeded_snd intro: transition_elsewhere\<close>)
qed

interpretation own: invariant_machine "held k s w" "other_call k" "held k s w" for k s w
  by unfold_locales (auto intro: other_call_holds)

lemma ledger_run_calls:
  assumes "\<forall>(fails, now, op) \<in> set ops. \<not> records_for op k"
  shows "rtranclp (other_call k) t (snd (ledger_run ops t))"
  using assms
proof (induction ops arbitrary: t)
  case (Cons o1 ops)
  obtain fails now op where o1: "o1 = (fails, now, op)" by (cases o1) auto
  obtain ok t1 where do1: "ledger_do fails now op t = (ok, t1)" by fastforce
  have "\<not> records_for op k" using Cons.prems o1 by simp
  then have "other_call k t t1" using do1 unfolding other_call_def by blast
  moreover have "rtranclp (other_call k) t1 (snd (ledger_run ops t1))" using Cons by simp
  ultimately have "rtranclp (other_call k) t (snd (ledger_run ops t1))"
    by (rule converse_rtranclp_into_rtranclp)
  then show ?case using o1 do1 by (simp add: case_prod_unfold)
qed simp

lemma ledger_run_well_formed: "well_formed t \<Longrightarrow> well_formed (snd (ledger_run ops t))"
proof (induction ops arbitrary: t)
  case (Cons o1 ops)
  obtain fails now op where o1: "o1 = (fails, now, op)" by (cases o1) auto
  obtain ok t1 where do1: "ledger_do fails now op t = (ok, t1)" by fastforce
  then show ?case using o1 Cons ledger_do_effect(1) [OF do1] by (simp split: prod.split) (metis snd_conv)
qed simp

text \<open>A burn that is not claimable is not claimed before a failure frees it.\<close>

lemma blocked_until_freed:
  assumes "ledger_run ops t = (b @ op # c, t2)" and "well_formed t" and "\<not> claimable t k" and "claims op k"
  shows "\<exists>f \<in> set b. frees f k"
  using assms(1-3)
proof (induction ops arbitrary: t b)
  case (Cons o1 ops)
  obtain fails now op1 where o1: "o1 = (fails, now, op1)" by (cases o1) auto
  obtain ok t1 where do1: "ledger_do fails now op1 t = (ok, t1)" by fastforce
  obtain log u where rest: "ledger_run ops t1 = (log, u)" by fastforce
  note eff = ledger_do_effect [OF do1 Cons.prems(2)]
  have log: "(if ok then op1 # log else log) = b @ op # c" "u = t2" using Cons.prems(1) o1 do1 rest by simp_all
  show ?case
  proof (cases "ok \<and> frees op1 k")
    case True
    then have "b \<noteq> []" using log assms(4) by (cases b; cases op1) auto
    then show ?thesis using True log by (cases b) auto
  next
    case False
    then have blocked: "\<not> claimable t1 k" using eff(3) Cons.prems(3) by blast
    show ?thesis
    proof (cases ok)
      case True
      then obtain b' where "b = op1 # b'" "log = b' @ op # c"
        using log eff(2) Cons.prems(3) assms(4) by (cases b) auto
      then show ?thesis using Cons.IH [of t1 b'] rest log(2) eff(1) blocked by auto
    next
      case False
      then show ?thesis using Cons.IH [of t1 b] log rest eff(1) blocked by auto
    qed
  qed
qed simp

text \<open>
  C9: However many tasks and processes share the ledger and however their calls interleave, between
  two successful claims of one burn, in any spelling of its hexadecimal ID, a deterministic refusal
  of that burn was recorded. A burn that is pending, submitted, finalized or waiting for an operator
  is never claimed again.
\<close>

theorem claims_separated_by_failure:
  assumes "ledger_run ops [] = (a @ ClaimBurns ids # b @ ClaimBurns ids' # c, t)"
    and "i \<in> set ids" and "i' \<in> set ids'" and "burn_key_new i = burn_key_new i'"
  shows "\<exists>j. RecordFailure j \<in> set b \<and> burn_key_new j = burn_key_new i"
proof -
  have "\<exists>f \<in> set b. frees f (burn_key_new i)"
    if "ledger_run ops t0 = (a @ ClaimBurns ids # b @ ClaimBurns ids' # c, t)" "well_formed t0" for t0
    using that
  proof (induction ops arbitrary: t0 a)
    case (Cons o1 ops)
    obtain fails now op1 where o1: "o1 = (fails, now, op1)" by (cases o1) auto
    obtain ok t1 where do1: "ledger_do fails now op1 t0 = (ok, t1)" by fastforce
    obtain log u where rest: "ledger_run ops t1 = (log, u)" by fastforce
    note eff = ledger_do_effect [OF do1 Cons.prems(2)]
    have log: "(if ok then op1 # log else log) = a @ ClaimBurns ids # b @ ClaimBurns ids' # c" "u = t"
      using Cons.prems(1) o1 do1 rest by auto
    consider "ok" "a = []" "op1 = ClaimBurns ids" "log = b @ ClaimBurns ids' # c" |
      a' where "log = a' @ ClaimBurns ids # b @ ClaimBurns ids' # c"
      using log by (cases ok; cases a) auto
    then show ?case
    proof cases
      case 1
      then have "\<not> claimable t1 (burn_key_new i)"
        using eff(2) [of "burn_key_new i"] assms(2) by (simp add: claimable_def)
      moreover have "claims (ClaimBurns ids') (burn_key_new i)" using assms(3,4) by simp
      ultimately show ?thesis using blocked_until_freed [of ops t1 b] rest 1 eff(1) by blast
    next
      case 2
      then show ?thesis using Cons.IH rest log(2) eff(1) by blast
    qed
  qed simp
  moreover have "well_formed []" by (simp add: well_formed_def)
  ultimately obtain f where f: "f \<in> set b" "frees f (burn_key_new i)" using assms(1) by blast
  from f(2) obtain j where "f = RecordFailure j" "burn_key_new j = burn_key_new i"
    by (cases f) auto
  with f(1) show ?thesis by blast
qed

definition sample_calls :: "(bool \<times> nat \<times> ledger_op) list" where
  "sample_calls = [(False, 1, ClaimBurns [''0xAB'']), (False, 2, ClaimBurns [''0xab'']),
     (False, 3, RecordFailure ''0xaB''), (False, 4, ClaimBurns [''0xab''])]"

lemma sample_calls_log:
  "fst (ledger_run sample_calls []) =
     [] @ ClaimBurns [''0xAB''] # [RecordFailure ''0xaB''] @ ClaimBurns [''0xab''] # []"
  by code_simp

theorem claims_separated_by_failure_witness:
  "\<exists>j. RecordFailure j \<in> set [RecordFailure ''0xaB''] \<and> burn_key_new j = burn_key_new ''0xAB''"
proof -
  have "ledger_run sample_calls [] =
     ([] @ ClaimBurns [''0xAB''] # [RecordFailure ''0xaB''] @ ClaimBurns [''0xab''] # [],
      snd (ledger_run sample_calls []))"
    using sample_calls_log by (metis prod.collapse)
  moreover have "burn_key_new ''0xAB'' = burn_key_new ''0xab''" by code_simp
  ultimately show ?thesis
    using claims_separated_by_failure [of sample_calls "[]" "[''0xAB'']" "[RecordFailure ''0xaB'']" "[''0xab'']" "[]"]
    by simp
qed

end
