(* ===== verification/Governor.thy ===== *)
theory Governor
  imports Prelude
begin

text \<open>
  \<^verbatim>\<open>crates/withdrawal-listener-attester/src/circle/rate.rs\<close> and \<^verbatim>\<open>retry.rs\<close>: the sliding-window rate
  governor that every Circle request passes, and the arithmetic of the bounded backoff. Instants and
  durations are in nanoseconds; the clock does not run backwards.
\<close>

section \<open>The governor\<close>

definition RATE_WINDOW :: nat where "RATE_WINDOW = 1000000000"
definition MIN_GOVERNOR_SLEEP :: nat where "MIN_GOVERNOR_SLEEP = 1000000"
definition DOCUMENTED_QPS_PER_IP :: nat where "DOCUMENTED_QPS_PER_IP = 5"
definition DOCUMENTED_QPS_GLOBAL :: nat where "DOCUMENTED_QPS_GLOBAL = 35"

record governor =
  gv_qps_per_ip :: nat
  gv_qps_global :: nat
  gv_global :: "nat list"
  gv_per_host :: "string \<Rightarrow> nat list"
  gv_granted :: nat

definition governor_new :: "nat \<Rightarrow> nat \<Rightarrow> governor" where
  "governor_new qps_per_ip qps_global =
     \<lparr>gv_qps_per_ip = max qps_per_ip 1, gv_qps_global = max qps_global 1, gv_global = [],
      gv_per_host = (\<lambda>_. []), gv_granted = 0\<rparr>"

definition documented :: governor where
  "documented = governor_new DOCUMENTED_QPS_PER_IP DOCUMENTED_QPS_GLOBAL"

fun prune :: "nat list \<Rightarrow> nat \<Rightarrow> nat list" where
  "prune [] now = []"
| "prune (oldest # rest) now = (if RATE_WINDOW \<le> now - oldest then prune rest now else oldest # rest)"

definition window_wait :: "nat list \<Rightarrow> nat \<Rightarrow> nat \<Rightarrow> nat option" where
  "window_wait window limit now =
     (if length window < limit then None else Some (RATE_WINDOW - (now - hd window)))"

definition option_max :: "nat option \<Rightarrow> nat option \<Rightarrow> nat option" where
  "option_max a b = (case (a, b) of (None, _) \<Rightarrow> b | (_, None) \<Rightarrow> a | (Some x, Some y) \<Rightarrow> Some (max x y))"

text \<open>
  One pass of the loop of \<^verbatim>\<open>acquire\<close>, under its mutex, at the instant \<open>now\<close>: the permit is granted
  (\<open>None\<close>), or the caller sleeps and tries again.
\<close>

definition acquire_at :: "string \<Rightarrow> nat \<Rightarrow> governor \<Rightarrow> nat option \<times> governor" where
  "acquire_at host now g =
     (let global = prune (gv_global g) now;
          host_window = prune (gv_per_host g host) now in
      case option_max (window_wait host_window (gv_qps_per_ip g) now)
                      (window_wait global (gv_qps_global g) now) of
        None \<Rightarrow> (None, g\<lparr>gv_global := global @ [now],
                        gv_per_host := (gv_per_host g)(host := host_window @ [now]),
                        gv_granted := gv_granted g + 1\<rparr>)
      | Some wait \<Rightarrow> (Some (max wait MIN_GOVERNOR_SLEEP),
                     g\<lparr>gv_global := global, gv_per_host := (gv_per_host g)(host := host_window)\<rparr>))"

text \<open>Any number of callers: the passes in the order in which they took the mutex, each with its host
  and its clock sample; the log holds the permits granted.\<close>

fun passes :: "(string \<times> nat) list \<Rightarrow> governor \<Rightarrow> (string \<times> nat) list \<times> governor" where
  "passes [] g = ([], g)"
| "passes ((host, now) # rest) g =
     (case acquire_at host now g of
        (None, g') \<Rightarrow> (case passes rest g' of (log, g'') \<Rightarrow> ((host, now) # log, g''))
      | (Some _, g') \<Rightarrow> passes rest g')"

section \<open>Backoff\<close>

definition MAX_BACKOFF_SHIFT :: nat where "MAX_BACKOFF_SHIFT = 20"

record retry_policy =
  rp_max_attempts :: nat
  rp_base_delay_ms :: nat

definition retry_policy_new :: "nat \<Rightarrow> nat \<Rightarrow> retry_policy" where
  "retry_policy_new max_attempts base_delay_ms =
     \<lparr>rp_max_attempts = max max_attempts 1, rp_base_delay_ms = base_delay_ms\<rparr>"

definition default_retry_policy :: retry_policy where
  "default_retry_policy = retry_policy_new 4 500"

text \<open>\<^verbatim>\<open>saturating_mul\<close> on \<^verbatim>\<open>u64\<close>; the shift is at most 20, so \<^verbatim>\<open>1u64 << shift\<close> does not overflow.\<close>

definition backoff_for :: "retry_policy \<Rightarrow> nat \<Rightarrow> nat" where
  "backoff_for p attempt =
     (let shift = min (attempt - 1) MAX_BACKOFF_SHIFT in
      nat (min (int (rp_base_delay_ms p) * 2 ^ shift) (2 ^ 64 - 1)))"

section \<open>A window holds what it must\<close>

abbreviation recent :: "nat \<Rightarrow> nat list \<Rightarrow> nat list" where
  "recent now ts \<equiv> filter (\<lambda>t. now < t + RATE_WINDOW) ts"

lemma window_positive: "0 < RATE_WINDOW"
  by (simp add: RATE_WINDOW_def)

lemma aged_out: "RATE_WINDOW \<le> now - t \<longleftrightarrow> \<not> now < t + RATE_WINDOW"
  using window_positive by linarith

lemma prune_recent: "sorted w \<Longrightarrow> prune w now = recent now w"
proof (induction w)
  case (Cons t w)
  show ?case
  proof (cases "now < t + RATE_WINDOW")
    case True
    then have "\<forall>u \<in> set (t # w). now < u + RATE_WINDOW" using Cons.prems by auto
    then have "recent now (t # w) = t # w" by (simp add: filter_id_conv)
    then show ?thesis using True by (simp only: prune.simps aged_out) simp
  next
    case False
    then show ?thesis using Cons by (simp add: aged_out)
  qed
qed simp

text \<open>
  \<open>tracks now w ts\<close>: of the permits \<open>ts\<close> granted so far, the window \<open>w\<close> still holds every one that is
  recent at \<open>now\<close>, in order. \<open>paced n ts\<close>: at each permit, at most \<open>n\<close> permits were recent.
\<close>

definition tracks :: "nat \<Rightarrow> nat list \<Rightarrow> nat list \<Rightarrow> bool" where
  "tracks now w ts \<longleftrightarrow> sorted w \<and> (\<forall>t \<in> set w. t \<le> now) \<and> recent now w = recent now ts"

definition paced :: "nat \<Rightarrow> nat list \<Rightarrow> bool" where
  "paced n ts \<longleftrightarrow> (\<forall>older t newer. ts = older @ t # newer \<longrightarrow> length (recent t (older @ [t])) \<le> n)"

lemma recent_later: "now \<le> now' \<Longrightarrow> recent now' (recent now ts) = recent now' ts"
  by (induction ts) auto

lemma tracks_later:
  assumes "tracks now w ts" and "now \<le> now'"
  shows "tracks now' (prune w now') ts" and "prune w now' = recent now' ts"
proof -
  have eq: "recent now' w = recent now' ts"
    using assms recent_later [OF assms(2), of w] recent_later [OF assms(2), of ts] by (simp add: tracks_def)
  have p: "prune w now' = recent now' w" using assms by (simp add: tracks_def prune_recent)
  show "prune w now' = recent now' ts" using eq p by simp
  have "sorted (recent now' w)" using assms(1) by (simp add: tracks_def sorted_wrt_filter)
  moreover have "\<forall>t \<in> set (recent now' w). t \<le> now'" using assms by (auto simp: tracks_def)
  ultimately show "tracks now' (prune w now') ts" unfolding p tracks_def by (simp add: eq)
qed

lemma paced_snoc: "paced n (ts @ [t]) \<longleftrightarrow> paced n ts \<and> length (recent t (ts @ [t])) \<le> n"
proof -
  have "ts @ [t] = older @ u # newer \<longleftrightarrow>
      newer = [] \<and> older = ts \<and> u = t \<or> (\<exists>newer'. newer = newer' @ [t] \<and> ts = older @ u # newer')" for older u newer
    by (cases newer rule: rev_cases) auto
  then show ?thesis unfolding paced_def by metis
qed

lemma tracks_grant:
  assumes "tracks now w ts" and "now \<le> now'" and "paced n ts" and "length (prune w now') < n"
  shows "tracks now' (prune w now' @ [now']) (ts @ [now'])" and "paced n (ts @ [now'])"
proof -
  note later = tracks_later [OF assms(1,2)]
  show "tracks now' (prune w now' @ [now']) (ts @ [now'])"
    using later(1) window_positive by (auto simp: tracks_def sorted_append)
  have "length (recent now' (ts @ [now'])) \<le> n"
    using assms(4) later(2) window_positive by simp
  then show "paced n (ts @ [now'])" using assms(3) by (simp add: paced_snoc)
qed

lemma length_filter_weaker:
  "(\<And>t. t \<in> set ts \<Longrightarrow> P t \<Longrightarrow> Q t) \<Longrightarrow> length (filter P ts) \<le> length (filter Q ts)"
  by (induction ts) (auto simp: le_SucI)

lemma paced_window:
  assumes "paced n ts"
  shows "length (filter (\<lambda>t. s \<le> t \<and> t < s + RATE_WINDOW) ts) \<le> n"
  using assms
proof (induction ts rule: rev_induct)
  case (snoc t ts)
  let ?in = "\<lambda>t. s \<le> t \<and> t < s + RATE_WINDOW"
  have here: "length (recent t (ts @ [t])) \<le> n" and before: "paced n ts"
    using snoc.prems by (simp_all add: paced_snoc)
  show ?case
  proof (cases "?in t")
    case True
    then have "length (filter ?in (ts @ [t])) \<le> length (recent t (ts @ [t]))"
      by (intro length_filter_weaker) auto
    with here show ?thesis by linarith
  next
    case False
    then show ?thesis using snoc.IH [OF before] by auto
  qed
qed simp

section \<open>The ceilings hold\<close>

definition times_of :: "string \<Rightarrow> (string \<times> nat) list \<Rightarrow> nat list" where
  "times_of host log = map snd (filter (\<lambda>(h, _). h = host) log)"

definition governed :: "nat \<Rightarrow> (string \<times> nat) list \<Rightarrow> governor \<Rightarrow> bool" where
  "governed now log g \<longleftrightarrow>
     tracks now (gv_global g) (map snd log) \<and> paced (gv_qps_global g) (map snd log) \<and>
     (\<forall>h. tracks now (gv_per_host g h) (times_of h log) \<and> paced (gv_qps_per_ip g) (times_of h log))"

lemma tracks_mono: "tracks now w ts \<Longrightarrow> now \<le> now' \<Longrightarrow> tracks now' w ts"
  unfolding tracks_def using recent_later [of now now' w] recent_later [of now now' ts]
  by (auto intro: order_trans)

lemma option_max_None: "option_max a b = None \<longleftrightarrow> a = None \<and> b = None"
  by (cases a; cases b) (simp_all add: option_max_def)

lemma window_wait_None: "window_wait w n now = None \<longleftrightarrow> length w < n"
  by (simp add: window_wait_def)

lemma acquire_governed:
  assumes inv: "governed now log g" and later: "now \<le> now'" and run: "acquire_at host now' g = (v, g')"
  shows "governed now' (if v = None then log @ [(host, now')] else log) g' \<and>
    gv_qps_per_ip g' = gv_qps_per_ip g \<and> gv_qps_global g' = gv_qps_global g"
proof (cases v)
  case None
  have room: "length (prune (gv_per_host g host) now') < gv_qps_per_ip g"
    "length (prune (gv_global g) now') < gv_qps_global g"
    and g': "g' = g\<lparr>gv_global := prune (gv_global g) now' @ [now'],
       gv_per_host := (gv_per_host g)(host := prune (gv_per_host g host) now' @ [now']),
       gv_granted := gv_granted g + 1\<rparr>"
    using run None
    by (auto simp: acquire_at_def Let_def option_max_None window_wait_None split: option.splits)
  have times: "times_of h (log @ [(host, now')]) = times_of h log @ (if h = host then [now'] else [])" for h
    by (simp add: times_of_def)
  have all: "tracks now (gv_global g) (map snd log)" "paced (gv_qps_global g) (map snd log)"
    and each: "\<And>h. tracks now (gv_per_host g h) (times_of h log)" "\<And>h. paced (gv_qps_per_ip g) (times_of h log)"
    using inv unfolding governed_def by blast+
  note total = tracks_grant [OF all(1) later all(2) room(2)]
  note mine = tracks_grant [OF each(1) later each(2) room(1)]
  have "tracks now' (gv_per_host g' h) (times_of h (log @ [(host, now')]))" for h
    using mine(1) tracks_mono [OF each(1) later] by (simp add: g' times)
  moreover have "paced (gv_qps_per_ip g) (times_of h (log @ [(host, now')]))" for h
    using mine(2) each(2) by (simp add: times)
  ultimately show ?thesis using total None by (simp add: governed_def g')
next
  case (Some wait)
  have g': "g' = g\<lparr>gv_global := prune (gv_global g) now',
       gv_per_host := (gv_per_host g)(host := prune (gv_per_host g host) now')\<rparr>"
    using run Some by (auto simp: acquire_at_def Let_def split: option.splits)
  then show ?thesis
    using inv tracks_later(1) [OF _ later] tracks_mono [OF _ later] Some unfolding governed_def by simp
qed

lemma passes_governed:
  assumes "passes ps g = (log', g')" and "governed now log g" and "sorted (map snd ps)"
    and "\<And>p. p \<in> set ps \<Longrightarrow> now \<le> snd p"
  shows "\<exists>now'. governed now' (log @ log') g' \<and> gv_qps_per_ip g' = gv_qps_per_ip g \<and> gv_qps_global g' = gv_qps_global g"
  using assms
proof (induction ps arbitrary: g log log' now)
  case (Cons p ps)
  obtain host t where p: "p = (host, t)" by fastforce
  obtain v g1 where v: "acquire_at host t g = (v, g1)" by fastforce
  obtain log1 where rest: "passes ps g1 = (log1, g')" and log': "log' = (if v = None then (host, t) # log1 else log1)"
    using Cons.prems(1) p v by (auto split: option.splits prod.splits)
  have "now \<le> t" using Cons.prems(4) [of p] p by simp
  note step = acquire_governed [OF Cons.prems(2) this v]
  have "sorted (map snd ps)" "\<And>q. q \<in> set ps \<Longrightarrow> t \<le> snd q" using Cons.prems(3) p by auto
  from Cons.IH [OF rest conjunct1 [OF step] this] step log' show ?case by (auto split: if_splits)
qed auto

text \<open>
  C34: However many callers share the governor, in every window of one second at most the configured
  number of requests is let through to one host and at most the global number overall; a ceiling of
  zero counts as one.
\<close>

theorem governor_keeps_ceilings:
  assumes "passes ps (governor_new per_ip overall) = (log, g)" and "sorted (map snd ps)"
  shows "length (filter (\<lambda>(h, t). h = host \<and> s \<le> t \<and> t < s + RATE_WINDOW) log) \<le> max per_ip 1 \<and>
    length (filter (\<lambda>(h, t). s \<le> t \<and> t < s + RATE_WINDOW) log) \<le> max overall 1"
proof -
  let ?in = "\<lambda>t. s \<le> t \<and> t < s + RATE_WINDOW"
  have "governed 0 [] (governor_new per_ip overall)"
    by (simp add: governed_def governor_new_def tracks_def paced_def times_of_def)
  from passes_governed [OF assms(1) this assms(2)]
  have "paced (max overall 1) (map snd log)" "paced (max per_ip 1) (times_of host log)"
    by (auto simp: governed_def governor_new_def)
  from paced_window [OF this(1), of s] paced_window [OF this(2), of s]
  have "length (filter (?in \<circ> snd) log) \<le> max overall 1"
    "length (filter (?in \<circ> snd) (filter (\<lambda>(h, _). h = host) log)) \<le> max per_ip 1"
    by (simp_all add: filter_map times_of_def)
  moreover have "?in \<circ> snd = (\<lambda>(h, t). ?in t)" by (simp add: fun_eq_iff)
  moreover have "filter (?in \<circ> snd) (filter (\<lambda>(h, _). h = host) log) =
      filter (\<lambda>(h, t). h = host \<and> ?in t) log"
    by (auto simp: filter_filter intro!: filter_cong)
  ultimately show ?thesis by metis
qed

theorem governor_keeps_ceilings_witness:
  "length (filter (\<lambda>(h, t). h = ''a'' \<and> 0 \<le> t \<and> t < 0 + RATE_WINDOW)
     (fst (passes [(''a'', 0), (''a'', 1), (''a'', 2)] (governor_new 2 0)))) \<le> 2"
  using governor_keeps_ceilings [of "[(''a'', 0), (''a'', 1), (''a'', 2)]" 2 0
      "fst (passes [(''a'', 0), (''a'', 1), (''a'', 2)] (governor_new 2 0))"
      "snd (passes [(''a'', 0), (''a'', 1), (''a'', 2)] (governor_new 2 0))" "''a''" 0]
  by simp

text \<open>A caller that had to wait and sleeps as long as it was told finds room, if no other took it.\<close>

lemma wait_opens_slot:
  assumes "window_wait (w # ws) n now = Some d" and "sorted (w # ws)" and "w \<le> now" and "length (w # ws) \<le> n"
    and "now < w + RATE_WINDOW"
  shows "window_wait (prune (w # ws) (now + max d MIN_GOVERNOR_SLEEP)) n (now + max d MIN_GOVERNOR_SLEEP) = None"
proof -
  have d: "d = RATE_WINDOW - (now - w)" using assms(1) by (auto simp: window_wait_def split: if_splits)
  let ?t = "now + max d MIN_GOVERNOR_SLEEP"
  have "w + RATE_WINDOW \<le> ?t" using d assms(3,5) by linarith
  then have "prune (w # ws) ?t = prune ws ?t" by (simp add: aged_out del: max_less_iff_conj)
  moreover have "length (prune ws ?t) \<le> length ws"
    by (induction ws) auto
  ultimately show ?thesis using assms(4) by (simp add: window_wait_def)
qed

end
