(* ===== verification/Withdraw_Wire.thy ===== *)
theory Withdraw_Wire
  imports Wire
begin

text \<open>
  \<^verbatim>\<open>crates/withdrawal-listener-attester/src/circle/wire.rs\<close> and \<^verbatim>\<open>circle/schema\<close>: the constrained
  scalars of Circle's published schema and the bodies of the withdrawal endpoints, with the reading
  that \<^verbatim>\<open>serde\<close> derives for them. \<^verbatim>\<open>serde_json\<close> itself and the domain type of \<^verbatim>\<open>xusdc-encoding\<close> are
  the fields of \<open>wire_codecs\<close>.
\<close>

record wire_codecs =
  wx_from_slice :: "bytes \<Rightarrow> json option"
  wx_u32 :: "json \<Rightarrow> u32 option"
  wx_domain :: "json \<Rightarrow> u32 option"

section \<open>Constrained scalars (\<^verbatim>\<open>wire.rs\<close>)\<close>

datatype schema_error =
    BadHex32 string
  | BadHex20 string
  | BadHex string
  | EmptyHex string
  | BadCalldata string
  | BadDecimalUint string
  | BadDecimalAmount string
  | BadForwardingFee string
  | BadUuid string
  | UnknownToken string
  | ValueXor
  | RemoteDomainBelowMinimum u32
  | DomainsMustDiffer u32
  | BatchCountOutOfRange nat
  | BurnIntentCountOutOfRange nat
  | SignatureCountBelowThreshold nat

text \<open>\<^verbatim>\<open>strip_prefix("0x")\<close>.\<close>

definition hex_body :: "string \<Rightarrow> string option" where
  "hex_body v = (if take 2 v = ''0x'' then Some (drop 2 v) else None)"

definition is_some_and :: "'a option \<Rightarrow> ('a \<Rightarrow> bool) \<Rightarrow> bool" where
  "is_some_and v p = (case v of None \<Rightarrow> False | Some a \<Rightarrow> p a)"

definition hex_body_of_len :: "string \<Rightarrow> nat \<Rightarrow> bool" where
  "hex_body_of_len v digits =
     is_some_and (hex_body v) (\<lambda>body. length body = digits \<and> list_all is_ascii_hexdigit body)"

definition is_hex :: "string \<Rightarrow> bool" where
  "is_hex v = is_some_and (hex_body v) (list_all is_ascii_hexdigit)"

definition is_decimal_digits :: "string \<Rightarrow> bool" where
  "is_decimal_digits v \<longleftrightarrow> v \<noteq> [] \<and> list_all is_ascii_digit v"

definition is_decimal_amount :: "string \<Rightarrow> nat option \<Rightarrow> bool" where
  "is_decimal_amount v max_places =
     (case dropWhile (\<lambda>c. c \<noteq> CHR ''.'') v of
        [] \<Rightarrow> is_decimal_digits v
      | _ # frac \<Rightarrow>
          is_decimal_digits (takeWhile (\<lambda>c. c \<noteq> CHR ''.'') v) \<and> is_decimal_digits frac \<and>
          (case max_places of None \<Rightarrow> True | Some places \<Rightarrow> length frac \<le> places))"

definition is_hex_tx_id :: "string \<Rightarrow> bool" where
  "is_hex_tx_id v \<longleftrightarrow> is_hex v \<and> 2 < length v"

definition is_calldata :: "string \<Rightarrow> bool" where
  "is_calldata v =
     (case hex_body v of
        None \<Rightarrow> False
      | Some body \<Rightarrow> body = [] \<or> 8 \<le> length body \<and> list_all is_ascii_hexdigit body)"

text \<open>\<^verbatim>\<open>split('-')\<close>: always at least one group.\<close>

fun split_dashes :: "string \<Rightarrow> string \<Rightarrow> string list" where
  "split_dashes acc [] = [acc]"
| "split_dashes acc (c # cs) = (if c = CHR ''-'' then acc # split_dashes [] cs else split_dashes (acc @ [c]) cs)"

definition is_uuid :: "string \<Rightarrow> bool" where
  "is_uuid v =
     (let groups = split_dashes [] v in
      length groups = 5 \<and> map length groups = [8, 4, 4, 4, 12] \<and> list_all (list_all is_ascii_hexdigit) groups)"

text \<open>The constructor that the macro \<^verbatim>\<open>wire_string!\<close> gives each scalar, and the reading that runs it.\<close>

definition wire_new :: "(string \<Rightarrow> bool) \<Rightarrow> (string \<Rightarrow> schema_error) \<Rightarrow> string \<Rightarrow> schema_error + string" where
  "wire_new check err v = (if check v then Inr v else Inl (err v))"

definition wire_string :: "(string \<Rightarrow> bool) \<Rightarrow> json \<Rightarrow> string option" where
  "wire_string check j =
     (case j of JString v \<Rightarrow> if check v then Some v else None | _ \<Rightarrow> None)"

definition uuid_new :: "string \<Rightarrow> schema_error + string" where
  "uuid_new = wire_new is_uuid BadUuid"

definition hex_tx_id_new :: "string \<Rightarrow> schema_error + string" where
  "hex_tx_id_new = wire_new is_hex_tx_id EmptyHex"

section \<open>Reading structures\<close>

text \<open>A field that may be left out but not null.\<close>

definition present_non_null :: "(json \<Rightarrow> 'a option) \<Rightarrow> json option \<Rightarrow> 'a option option" where
  "present_non_null read v = (case v of None \<Rightarrow> Some None | Some j \<Rightarrow> map_option Some (read j))"

section \<open>\<^verbatim>\<open>POST /v1/withdraw\<close> and \<^verbatim>\<open>GET /v1/withdrawal\<close> (\<^verbatim>\<open>schema/withdraw.rs\<close>)\<close>

datatype withdrawal_status_kind =
    StatusCreated | StatusVerified | StatusConfirmed | StatusFinalized | StatusExpired | StatusFailed

definition is_terminal :: "withdrawal_status_kind \<Rightarrow> bool" where
  "is_terminal k \<longleftrightarrow> k = StatusFinalized \<or> k = StatusFailed"

definition status_is_retryable :: "withdrawal_status_kind \<Rightarrow> bool" where
  "status_is_retryable k \<longleftrightarrow> k = StatusExpired"

definition status_kind_of :: "string \<Rightarrow> withdrawal_status_kind option" where
  "status_kind_of v =
     (if v = ''created'' then Some StatusCreated
      else if v = ''verified'' then Some StatusVerified
      else if v = ''confirmed'' then Some StatusConfirmed
      else if v = ''finalized'' then Some StatusFinalized
      else if v = ''expired'' then Some StatusExpired
      else if v = ''failed'' then Some StatusFailed
      else None)"

text \<open>\<^verbatim>\<open>serde_json\<close> reads a variant without data from its name, or from an object of its name and null.\<close>

fun status_kind_decode :: "json \<Rightarrow> withdrawal_status_kind option" where
  "status_kind_decode (JString v) = status_kind_of v"
| "status_kind_decode (JObject [(v, JNull)]) = status_kind_of v"
| "status_kind_decode _ = None"

record withdrawal_status =
  ws_withdrawal_id :: string
  ws_burn_tx_id :: string
  ws_status :: withdrawal_status_kind
  ws_attestation_payload :: "string option"
  ws_attestation :: "string option"
  ws_use_circle_forwarding :: bool
  ws_transaction_hash :: "string option"
  ws_failure_reason :: "string option"
  ws_transfer_spec_hashes :: "string list"

type_synonym withdraw_submission_response = "withdrawal_status list"

definition hex32_string :: "json \<Rightarrow> string option" where
  "hex32_string = wire_string (\<lambda>v. hex_body_of_len v 64)"

definition withdrawal_status_fields :: "string list" where
  "withdrawal_status_fields =
     [''withdrawalId'', ''burnTxId'', ''status'', ''attestationPayload'', ''attestation'',
      ''useCircleForwarding'', ''transactionHash'', ''failureReason'', ''transferSpecHashes'']"

definition withdrawal_status_of :: "json option list \<Rightarrow> withdrawal_status option" where
  "withdrawal_status_of vs =
     (case vs of
        [wid, burn, status, payload, att, fwd, tx, reason, hashes] \<Rightarrow>
          Option.bind (required (wire_string is_uuid) wid) (\<lambda>wid.
          Option.bind (required (wire_string is_hex_tx_id) burn) (\<lambda>burn.
          Option.bind (required status_kind_decode status) (\<lambda>status.
          Option.bind (present_non_null (wire_string is_hex) payload) (\<lambda>payload.
          Option.bind (present_non_null (wire_string is_hex) att) (\<lambda>att.
          Option.bind (required json_as_bool fwd) (\<lambda>fwd.
          Option.bind (present_non_null hex32_string tx) (\<lambda>tx.
          Option.bind (present_non_null json_as_str reason) (\<lambda>reason.
          Option.bind (required (json_as_list hex32_string) hashes) (\<lambda>hashes.
          Some \<lparr>ws_withdrawal_id = wid, ws_burn_tx_id = burn, ws_status = status,
                ws_attestation_payload = payload, ws_attestation = att, ws_use_circle_forwarding = fwd,
                ws_transaction_hash = tx, ws_failure_reason = reason, ws_transfer_spec_hashes = hashes\<rparr>)))))))))
      | _ \<Rightarrow> None)"

definition withdrawal_status_decode :: "json \<Rightarrow> withdrawal_status option" where
  "withdrawal_status_decode j = Option.bind (struct_fields withdrawal_status_fields j) withdrawal_status_of"

record withdraw_conflict =
  wc_withdrawal_id :: "string option"
  wc_burn_tx_id :: string

definition withdraw_conflict_of :: "json option list \<Rightarrow> withdraw_conflict option" where
  "withdraw_conflict_of vs =
     (case vs of
        [wid, burn] \<Rightarrow>
          Option.bind (present_non_null (wire_string is_uuid) wid) (\<lambda>wid.
          Option.bind (required (wire_string is_hex_tx_id) burn) (\<lambda>burn.
          Some \<lparr>wc_withdrawal_id = wid, wc_burn_tx_id = burn\<rparr>))
      | _ \<Rightarrow> None)"

definition withdraw_conflict_decode :: "json \<Rightarrow> withdraw_conflict option" where
  "withdraw_conflict_decode j = Option.bind (struct_fields [''withdrawalId'', ''burnTxId''] j) withdraw_conflict_of"

section \<open>Burn intents (\<^verbatim>\<open>schema/intents.rs\<close>)\<close>

record circle_hook_data =
  ch_remote_domain :: u32
  ch_remote_depositor :: string
  ch_remote_token :: string
  ch_forwarding_contract_address :: string
  ch_forwarding_calldata :: string

record circle_transfer_spec =
  cs_version :: u32
  cs_source_domain :: u32
  cs_destination_domain :: u32
  cs_source_contract :: string
  cs_destination_contract :: string
  cs_source_token :: string
  cs_destination_token :: string
  cs_source_depositor :: string
  cs_destination_recipient :: string
  cs_source_signer :: string
  cs_destination_caller :: string
  cs_value :: string
  cs_salt :: string
  cs_hook_data :: circle_hook_data

record circle_burn_intent =
  cb_max_block_height :: string
  cb_max_fee :: string
  cb_spec :: circle_transfer_spec

definition hook_data_fields :: "string list" where
  "hook_data_fields =
     [''remoteDomain'', ''remoteDepositor'', ''remoteToken'', ''forwardingContractAddress'', ''forwardingCalldata'']"

definition hook_data_of :: "wire_codecs \<Rightarrow> json option list \<Rightarrow> circle_hook_data option" where
  "hook_data_of wx vs =
     (case vs of
        [domain, depositor, token, contract, calldata] \<Rightarrow>
          Option.bind (required (wx_domain wx) domain) (\<lambda>domain.
          Option.bind (required hex32_string depositor) (\<lambda>depositor.
          Option.bind (required hex32_string token) (\<lambda>token.
          Option.bind (required (wire_string (\<lambda>v. hex_body_of_len v 40)) contract) (\<lambda>contract.
          Option.bind (required (wire_string is_calldata) calldata) (\<lambda>calldata.
          Some \<lparr>ch_remote_domain = domain, ch_remote_depositor = depositor, ch_remote_token = token,
                ch_forwarding_contract_address = contract, ch_forwarding_calldata = calldata\<rparr>)))))
      | _ \<Rightarrow> None)"

definition hook_data_decode :: "wire_codecs \<Rightarrow> json \<Rightarrow> circle_hook_data option" where
  "hook_data_decode wx j = Option.bind (struct_fields hook_data_fields j) (hook_data_of wx)"

definition transfer_spec_fields :: "string list" where
  "transfer_spec_fields =
     [''version'', ''sourceDomain'', ''destinationDomain'', ''sourceContract'', ''destinationContract'',
      ''sourceToken'', ''destinationToken'', ''sourceDepositor'', ''destinationRecipient'', ''sourceSigner'',
      ''destinationCaller'', ''value'', ''salt'', ''hookData'']"

definition transfer_spec_of :: "wire_codecs \<Rightarrow> json option list \<Rightarrow> circle_transfer_spec option" where
  "transfer_spec_of wx vs =
     (case vs of
        [version, sdom, ddom, scon, dcon, stok, dtok, sdep, drec, ssig, dcal, val, salt, hook] \<Rightarrow>
          Option.bind (required (wx_u32 wx) version) (\<lambda>version.
          Option.bind (required (wx_domain wx) sdom) (\<lambda>sdom.
          Option.bind (required (wx_domain wx) ddom) (\<lambda>ddom.
          Option.bind (required hex32_string scon) (\<lambda>scon.
          Option.bind (required hex32_string dcon) (\<lambda>dcon.
          Option.bind (required hex32_string stok) (\<lambda>stok.
          Option.bind (required hex32_string dtok) (\<lambda>dtok.
          Option.bind (required hex32_string sdep) (\<lambda>sdep.
          Option.bind (required hex32_string drec) (\<lambda>drec.
          Option.bind (required hex32_string ssig) (\<lambda>ssig.
          Option.bind (required hex32_string dcal) (\<lambda>dcal.
          Option.bind (required (wire_string is_decimal_digits) val) (\<lambda>val.
          Option.bind (required hex32_string salt) (\<lambda>salt.
          Option.bind (required (hook_data_decode wx) hook) (\<lambda>hook.
          Some \<lparr>cs_version = version, cs_source_domain = sdom, cs_destination_domain = ddom,
                cs_source_contract = scon, cs_destination_contract = dcon, cs_source_token = stok,
                cs_destination_token = dtok, cs_source_depositor = sdep, cs_destination_recipient = drec,
                cs_source_signer = ssig, cs_destination_caller = dcal, cs_value = val, cs_salt = salt,
                cs_hook_data = hook\<rparr>))))))))))))))
      | _ \<Rightarrow> None)"

definition transfer_spec_decode :: "wire_codecs \<Rightarrow> json \<Rightarrow> circle_transfer_spec option" where
  "transfer_spec_decode wx j = Option.bind (struct_fields transfer_spec_fields j) (transfer_spec_of wx)"

definition burn_intent_of :: "wire_codecs \<Rightarrow> json option list \<Rightarrow> circle_burn_intent option" where
  "burn_intent_of wx vs =
     (case vs of
        [height, fee, spec] \<Rightarrow>
          Option.bind (required (wire_string is_decimal_digits) height) (\<lambda>height.
          Option.bind (required (wire_string is_decimal_digits) fee) (\<lambda>fee.
          Option.bind (required (transfer_spec_decode wx) spec) (\<lambda>spec.
          Some \<lparr>cb_max_block_height = height, cb_max_fee = fee, cb_spec = spec\<rparr>)))
      | _ \<Rightarrow> None)"

definition burn_intent_decode :: "wire_codecs \<Rightarrow> json \<Rightarrow> circle_burn_intent option" where
  "burn_intent_decode wx j =
     Option.bind (struct_fields [''maxBlockHeight'', ''maxFee'', ''spec''] j) (burn_intent_of wx)"

record prepared_batch =
  pd_burn_intents :: "circle_burn_intent list"
  pd_encoded :: string
  pd_message_hash_to_sign :: string

type_synonym prepare_withdrawal_response = "prepared_batch list"

definition prepared_batch_of :: "wire_codecs \<Rightarrow> json option list \<Rightarrow> prepared_batch option" where
  "prepared_batch_of wx vs =
     (case vs of
        [intents, encoded, hash] \<Rightarrow>
          Option.bind (required (json_as_list (burn_intent_decode wx)) intents) (\<lambda>intents.
          Option.bind (required json_as_str encoded) (\<lambda>encoded.
          Option.bind (required json_as_str hash) (\<lambda>hash.
          Some \<lparr>pd_burn_intents = intents, pd_encoded = encoded, pd_message_hash_to_sign = hash\<rparr>)))
      | _ \<Rightarrow> None)"

definition prepared_batch_decode :: "wire_codecs \<Rightarrow> json \<Rightarrow> prepared_batch option" where
  "prepared_batch_decode wx j =
     Option.bind (struct_fields [''burnIntents'', ''encoded'', ''messageHashToSign''] j) (prepared_batch_of wx)"

definition prepare_response_of :: "wire_codecs \<Rightarrow> json option list \<Rightarrow> prepare_withdrawal_response option" where
  "prepare_response_of wx vs =
     (case vs of [batches] \<Rightarrow> required (json_as_list (prepared_batch_decode wx)) batches | _ \<Rightarrow> None)"

definition prepare_response_decode :: "wire_codecs \<Rightarrow> json \<Rightarrow> prepare_withdrawal_response option" where
  "prepare_response_decode wx j = Option.bind (struct_fields [''batches''] j) (prepare_response_of wx)"

section \<open>\<^verbatim>\<open>POST /v1/prepare-withdrawal\<close> (\<^verbatim>\<open>schema/prepare.rs\<close>)\<close>

datatype token = Usdc

definition token_new :: "string \<Rightarrow> schema_error + token" where
  "token_new v = (if v = ''USDC'' then Inr Usdc else Inl (UnknownToken v))"

fun token_as_str :: "token \<Rightarrow> string" where
  "token_as_str Usdc = ''USDC''"

record forwarding_options =
  fo_max_fee :: "string option"
  fo_hook_data :: "string option"
  fo_uses_fast_finality :: "bool option"

record prepare_burn_intent_input =
  pn_token :: token
  pn_value_excluding_fees :: "string option"
  pn_value_including_fees :: "string option"
  pn_remote_domain :: u32
  pn_remote_depositor :: string
  pn_final_destination_domain :: u32
  pn_final_destination_recipient :: string
  pn_final_destination_caller :: "string option"
  pn_salt :: "string option"
  pn_use_circle_forwarding :: bool
  pn_forwarding_options :: "forwarding_options option"

type_synonym prepare_withdrawal_request = "prepare_burn_intent_input list"

definition prepare_input_validate :: "prepare_burn_intent_input \<Rightarrow> schema_error + unit" where
  "prepare_input_validate p =
     (if (pn_value_excluding_fees p \<noteq> None) = (pn_value_including_fees p \<noteq> None) then Inl ValueXor
      else if pn_remote_domain p < 1 then Inl (RemoteDomainBelowMinimum (pn_remote_domain p))
      else if pn_remote_domain p = pn_final_destination_domain p then Inl (DomainsMustDiffer (pn_remote_domain p))
      else Inr ())"

text \<open>\<^verbatim>\<open>build()\<close> of the builder: the fields that were set, checked.\<close>

definition prepare_input_build :: "prepare_burn_intent_input \<Rightarrow> schema_error + prepare_burn_intent_input" where
  "prepare_input_build p = and_then (prepare_input_validate p) (\<lambda>_. Inr p)"

definition hex32_new :: "string \<Rightarrow> schema_error + string" where
  "hex32_new = wire_new (\<lambda>v. hex_body_of_len v 64) BadHex32"

definition hex_bytes_new :: "string \<Rightarrow> schema_error + string" where
  "hex_bytes_new = wire_new is_hex BadHex"

definition decimal_amount_new :: "string \<Rightarrow> schema_error + string" where
  "decimal_amount_new = wire_new (\<lambda>v. is_decimal_amount v None) BadDecimalAmount"

section \<open>The request body\<close>

definition BATCHES_MIN :: nat where "BATCHES_MIN = 1"
definition BATCHES_MAX :: nat where "BATCHES_MAX = 5"
definition BURN_INTENTS_MIN :: nat where "BURN_INTENTS_MIN = 1"
definition BURN_INTENTS_MAX :: nat where "BURN_INTENTS_MAX = 10"
definition BURN_SIGNATURES_MIN :: nat where "BURN_SIGNATURES_MIN = 2"

record withdraw_batch =
  wb_burn_intents :: "circle_burn_intent list"
  wb_burn_signatures :: "string list"
  wb_burn_tx_id :: string
  wb_use_circle_forwarding :: bool

definition withdraw_batch_new ::
  "circle_burn_intent list \<Rightarrow> string list \<Rightarrow> string \<Rightarrow> bool \<Rightarrow> schema_error + withdraw_batch" where
  "withdraw_batch_new intents signatures burn_tx_id forwarding =
     (if \<not> (BURN_INTENTS_MIN \<le> length intents \<and> length intents \<le> BURN_INTENTS_MAX)
      then Inl (BurnIntentCountOutOfRange (length intents))
      else if length signatures < BURN_SIGNATURES_MIN
      then Inl (SignatureCountBelowThreshold (length signatures))
      else Inr \<lparr>wb_burn_intents = intents, wb_burn_signatures = signatures, wb_burn_tx_id = burn_tx_id,
                wb_use_circle_forwarding = forwarding\<rparr>)"

type_synonym withdraw_request = "withdraw_batch list"

definition withdraw_request_new :: "withdraw_batch list \<Rightarrow> schema_error + withdraw_request" where
  "withdraw_request_new batches =
     (if \<not> (BATCHES_MIN \<le> length batches \<and> length batches \<le> BATCHES_MAX)
      then Inl (BatchCountOutOfRange (length batches))
      else Inr batches)"

section \<open>What a read value satisfies\<close>

lemma wire_string_Some: "wire_string check j = Some v \<longleftrightarrow> j = JString v \<and> check v"
  by (auto simp: wire_string_def split: json.splits if_splits)

lemma present_non_null_Some:
  "present_non_null read v = Some r \<longleftrightarrow> v = None \<and> r = None \<or> (\<exists>j a. v = Some j \<and> read j = Some a \<and> r = Some a)"
  by (auto simp: present_non_null_def split: option.splits)

lemma withdrawal_status_of_valid:
  "withdrawal_status_of vs = Some s \<Longrightarrow> is_uuid (ws_withdrawal_id s) \<and> is_hex_tx_id (ws_burn_tx_id s)"
  unfolding withdrawal_status_of_def
  by (auto simp: required_def wire_string_Some bind_eq_Some_conv split: list.split_asm)

lemma withdrawal_status_decode_valid:
  "withdrawal_status_decode j = Some s \<Longrightarrow> is_uuid (ws_withdrawal_id s) \<and> is_hex_tx_id (ws_burn_tx_id s)"
  unfolding withdrawal_status_decode_def bind_eq_Some_conv by (elim exE conjE) (rule withdrawal_status_of_valid)

lemma withdraw_conflict_of_valid:
  "withdraw_conflict_of vs = Some c \<Longrightarrow>
     is_hex_tx_id (wc_burn_tx_id c) \<and> (\<forall>w. wc_withdrawal_id c = Some w \<longrightarrow> is_uuid w)"
  unfolding withdraw_conflict_of_def
  by (auto simp: required_def wire_string_Some present_non_null_Some bind_eq_Some_conv split: list.split_asm)

lemma withdraw_conflict_decode_valid:
  "withdraw_conflict_decode j = Some c \<Longrightarrow>
     is_hex_tx_id (wc_burn_tx_id c) \<and> (\<forall>w. wc_withdrawal_id c = Some w \<longrightarrow> is_uuid w)"
  unfolding withdraw_conflict_decode_def bind_eq_Some_conv by (elim exE conjE) (rule withdraw_conflict_of_valid)

end
