(* ===== verification/Withdraw_Submit.thy ===== *)
theory Withdraw_Submit
  imports Ledger Governor Withdraw_Wire
begin

text \<open>
  \<^verbatim>\<open>crates/withdrawal-listener-attester/src/submit.rs\<close> with what it calls: the body ceiling of
  \<^verbatim>\<open>circle/transport.rs\<close> and \<^verbatim>\<open>circle/client.rs\<close>, the retry loop of \<^verbatim>\<open>circle/retry.rs\<close>, the reading
  and polling of \<^verbatim>\<open>withdrawal_api.rs\<close>. Circle, the clock, the database and the other callers of the
  ledger are the environment \<open>submit_env\<close>; each use is numbered by \<open>su_tick\<close>, so each may answer
  differently every time. The rate governor only delays a request (theory \<open>Governor\<close>) and is left out
  here. \<open>su_trace\<close> records, for the theorems only, the claim, every request with its answer, and the
  waits.
\<close>

section \<open>Errors and outcomes\<close>

datatype listener_error =
    BadBaseUrl string
  | InsecureAuthTransport string
  | BadAuthHeader string
  | AuthHeaderNameRequired
  | BadFaucetId string
  | Transport
  | ResponseTooLarge nat nat
  | Http nat
  | WithdrawalNotFound string
  | MalformedResponse string
  | PollExhausted nat
  | WithdrawResponseCardinality nat nat
  | WithdrawalIdMismatch string string

datatype submit_outcome =
    OutcomeSubmitted withdraw_submission_response
  | OutcomeConflictRecovered string withdrawal_status
  | OutcomeReconciliationRequired string
  | OutcomeConflictEchoMismatch "string list" string
  | OutcomeAlreadySubmitted string ledger_status

fun submitted :: "submit_outcome \<Rightarrow> withdraw_submission_response option" where
  "submitted (OutcomeSubmitted response) = Some response"
| "submitted _ = None"

datatype withdraw_submit_error =
    CircleRefused listener_error
  | LedgerRefused ledger_error
  | DuplicateBurnInRequest string

section \<open>Requests\<close>

datatype circle_call =
    PostPrepare prepare_withdrawal_request
  | PostWithdraw withdraw_request
  | GetWithdrawal string

text \<open>
  What \<^verbatim>\<open>reqwest\<close> reports of an answered request: whether the final URL is the requested one, the
  status, the advertised length and the chunks of the body, \<open>None\<close> where a read fails.
\<close>

record http_reply =
  hp_same_url :: bool
  hp_status :: nat
  hp_content_length :: "nat option"
  hp_chunks :: "bytes option list"

record raw_reply =
  ra_status :: nat
  ra_body :: bytes

datatype submit_event =
    ClaimedBurns "string list"
  | Exchanged circle_call "listener_error + raw_reply"
  | Slept nat

record submit_env =
  se_codecs :: wire_codecs
  se_retry :: retry_policy
  se_poll_max_attempts :: nat
  se_max_response_bytes :: nat
  se_base_url :: string
  se_joins :: "string \<Rightarrow> bool"
  se_builds :: "circle_call \<Rightarrow> bool"
  se_http :: "nat \<Rightarrow> circle_call \<Rightarrow> http_reply option"
  se_sql_fails :: "nat \<Rightarrow> bool"
  se_now :: "nat \<Rightarrow> nat"
  se_others :: "nat \<Rightarrow> (bool \<times> nat \<times> ledger_op) list"

record submit_state =
  su_ledger :: ledger
  su_tick :: nat
  su_trace :: "submit_event list"

type_synonym 'a circle_run = "(submit_state, listener_error, 'a) run"
type_synonym 'a submit_run = "(submit_state, withdraw_submit_error, 'a) run"

text \<open>\<^verbatim>\<open>BodyLimit\<close>: the ceiling is checked on the advertised length, then chunk by chunk before a chunk
  is kept.\<close>

definition check_content_length :: "nat \<Rightarrow> nat option \<Rightarrow> listener_error + unit" where
  "check_content_length limit len =
     (case len of
        Some n \<Rightarrow> if limit < n then Inl (ResponseTooLarge limit n) else Inr ()
      | None \<Rightarrow> Inr ())"

fun collect_chunks :: "nat \<Rightarrow> nat \<Rightarrow> bytes \<Rightarrow> bytes option list \<Rightarrow> listener_error + bytes" where
  "collect_chunks limit seen body [] = Inr body"
| "collect_chunks limit seen body (None # _) = Inl Transport"
| "collect_chunks limit seen body (Some chunk # rest) =
     (let seen' = nat (min (int (seen + length chunk)) (2 ^ 64 - 1)) in
      if limit < seen' then Inl (ResponseTooLarge limit seen')
      else collect_chunks limit seen' (body @ chunk) rest)"

definition collect_bounded :: "nat \<Rightarrow> nat option \<Rightarrow> bytes option list \<Rightarrow> listener_error + bytes" where
  "collect_bounded limit len chunks =
     and_then (check_content_length limit len) (\<lambda>_. collect_chunks limit 0 [] chunks)"

definition reqwest_execute :: "nat \<Rightarrow> http_reply option \<Rightarrow> listener_error + raw_reply" where
  "reqwest_execute limit answer =
     and_then (ok_or answer Transport) (\<lambda>r.
     and_then (ensure_that (hp_same_url r) Transport) (\<lambda>_.
     and_then (collect_bounded limit (hp_content_length r) (hp_chunks r)) (\<lambda>body.
     Inr \<lparr>ra_status = hp_status r, ra_body = body\<rparr>)))"

definition circle_execute :: "submit_env \<Rightarrow> circle_call \<Rightarrow> raw_reply circle_run" where
  "circle_execute env call s =
     (let limit = se_max_response_bytes env;
          answer = and_then (reqwest_execute limit (se_http env (su_tick s) call)) (\<lambda>r.
            and_then (ensure_that (\<not> limit < length (ra_body r)) (ResponseTooLarge limit (length (ra_body r)))) (\<lambda>_.
            Inr r)) in
      (answer, s\<lparr>su_tick := su_tick s + 1, su_trace := su_trace s @ [Exchanged call answer]\<rparr>))"

definition build_request :: "submit_env \<Rightarrow> string \<Rightarrow> circle_call \<Rightarrow> circle_call circle_run" where
  "build_request env path call =
     (if \<not> se_joins env path then raise (BadBaseUrl (se_base_url env @ path))
      else if \<not> se_builds env call then raise Transport
      else ret call)"

definition decode_body :: "submit_env \<Rightarrow> (json \<Rightarrow> 'a option) \<Rightarrow> string \<Rightarrow> bytes \<Rightarrow> 'a circle_run" where
  "decode_body env read context body =
     (case Option.bind (wx_from_slice (se_codecs env) body) read of
        None \<Rightarrow> raise (MalformedResponse context)
      | Some v \<Rightarrow> ret v)"

section \<open>Polling (\<^verbatim>\<open>withdrawal_api.rs\<close>)\<close>

definition PATH_WITHDRAW :: string where "PATH_WITHDRAW = ''/v1/withdraw''"
definition PATH_WITHDRAWAL :: string where "PATH_WITHDRAWAL = ''/v1/withdrawal/''"
definition STATUS_WITHDRAW_CREATED :: nat where "STATUS_WITHDRAW_CREATED = 201"
definition STATUS_WITHDRAW_CONFLICT :: nat where "STATUS_WITHDRAW_CONFLICT = 409"
definition STATUS_WITHDRAWAL_OK :: nat where "STATUS_WITHDRAWAL_OK = 200"
definition STATUS_WITHDRAWAL_NOT_FOUND :: nat where "STATUS_WITHDRAWAL_NOT_FOUND = 404"

definition decode_withdraw_created ::
  "submit_env \<Rightarrow> bytes \<Rightarrow> nat \<Rightarrow> withdraw_submission_response circle_run" where
  "decode_withdraw_created env body count =
     bind_run (decode_body env (json_as_list withdrawal_status_decode) ''withdraw'' body) (\<lambda>statuses.
     if length statuses \<noteq> count then raise (WithdrawResponseCardinality count (length statuses))
     else ret statuses)"

definition poll_status_once :: "submit_env \<Rightarrow> string \<Rightarrow> withdrawal_status circle_run" where
  "poll_status_once env withdrawal_id =
     bind_run (build_request env (PATH_WITHDRAWAL @ withdrawal_id) (GetWithdrawal withdrawal_id)) (\<lambda>call.
     bind_run (circle_execute env call) (\<lambda>response.
     if ra_status response = STATUS_WITHDRAWAL_OK then
       bind_run (decode_body env withdrawal_status_decode ''withdrawal-status'' (ra_body response)) (\<lambda>status.
       if ws_withdrawal_id status \<noteq> withdrawal_id
       then raise (WithdrawalIdMismatch withdrawal_id (ws_withdrawal_id status))
       else ret status)
     else if ra_status response = STATUS_WITHDRAWAL_NOT_FOUND then raise (WithdrawalNotFound withdrawal_id)
     else raise (Http (ra_status response))))"

text \<open>The loop over the attempts, \<open>n\<close> of them left.\<close>

fun poll_attempts :: "submit_env \<Rightarrow> string \<Rightarrow> nat \<Rightarrow> withdrawal_status circle_run" where
  "poll_attempts env withdrawal_id 0 s = (Inl (PollExhausted (se_poll_max_attempts env)), s)"
| "poll_attempts env withdrawal_id (Suc n) s =
     bind_run (poll_status_once env withdrawal_id) (\<lambda>status.
       if status_is_retryable (ws_status status) then ret status
       else if ws_status status = StatusFinalized \<or> ws_status status = StatusFailed then ret status
       else poll_attempts env withdrawal_id n) s"

definition poll_status :: "submit_env \<Rightarrow> string \<Rightarrow> withdrawal_status circle_run" where
  "poll_status env withdrawal_id = poll_attempts env withdrawal_id (se_poll_max_attempts env)"

section \<open>Retrying (\<^verbatim>\<open>retry.rs\<close>)\<close>

fun is_retryable :: "listener_error \<Rightarrow> bool" where
  "is_retryable (Http status) \<longleftrightarrow> 500 \<le> status \<and> status \<le> 599"
| "is_retryable _ \<longleftrightarrow> False"

definition sleep :: "nat \<Rightarrow> submit_state \<Rightarrow> submit_state" where
  "sleep ms s = s\<lparr>su_trace := su_trace s @ [Slept ms]\<rparr>"

function backoff_from :: "retry_policy \<Rightarrow> 'a circle_run \<Rightarrow> nat \<Rightarrow> 'a circle_run" where
  "backoff_from policy op attempt s =
     (case op s of
        (Inr v, t) \<Rightarrow> (Inr v, t)
      | (Inl e, t) \<Rightarrow>
          if \<not> is_retryable e \<or> rp_max_attempts policy \<le> attempt then (Inl e, t)
          else backoff_from policy op (attempt + 1) (sleep (backoff_for policy attempt) t))"
  by pat_completeness auto

termination by (relation "measure (\<lambda>(policy, op, attempt, s). rp_max_attempts policy - attempt)") auto

declare backoff_from.simps [simp del]

definition with_backoff :: "submit_env \<Rightarrow> 'a circle_run \<Rightarrow> 'a circle_run" where
  "with_backoff env op = backoff_from (se_retry env) op 1"

section \<open>The ledger, shared with other callers\<close>

text \<open>
  One transaction of this caller. Between its transactions other tasks and processes may have made
  any calls of their own (\<open>se_others\<close>).
\<close>

definition ledger_tx ::
  "submit_env \<Rightarrow> (bool \<Rightarrow> nat \<Rightarrow> ledger \<Rightarrow> (ledger_error + 'a) \<times> ledger) \<Rightarrow> 'a submit_run" where
  "ledger_tx env tx s =
     (let k = su_tick s; t = snd (ledger_run (se_others env k) (su_ledger s)) in
      case tx (se_sql_fails env k) (se_now env k) t of
        (Inl e, t') \<Rightarrow> (Inl (LedgerRefused e), s\<lparr>su_ledger := t', su_tick := k + 1\<rparr>)
      | (Inr v, t') \<Rightarrow> (Inr v, s\<lparr>su_ledger := t', su_tick := k + 1\<rparr>))"

fun for_each :: "('a \<Rightarrow> 'b submit_run) \<Rightarrow> 'a list \<Rightarrow> unit submit_run" where
  "for_each f [] = ret ()"
| "for_each f (x # xs) = bind_run (f x) (\<lambda>_. for_each f xs)"

definition mark_all_reconciliation :: "submit_env \<Rightarrow> string list \<Rightarrow> unit submit_run" where
  "mark_all_reconciliation env keys =
     for_each (\<lambda>key. ledger_tx env (\<lambda>f n. record_reconciliation_required f n key None)) keys"

definition block_others :: "submit_env \<Rightarrow> string list \<Rightarrow> nat \<Rightarrow> unit submit_run" where
  "block_others env keys at =
     for_each (\<lambda>(i, key).
       if i \<noteq> at then bind_run (ledger_tx env (\<lambda>f n. record_reconciliation_required f n key None)) (\<lambda>_. ret ())
       else ret ()) (enumerate 0 keys)"

definition block_binding_id_to :: "submit_env \<Rightarrow> string list \<Rightarrow> nat \<Rightarrow> string \<Rightarrow> unit submit_run" where
  "block_binding_id_to env keys at withdrawal_id =
     bind_run (ledger_tx env (\<lambda>f n. record_reconciliation_required f n (keys ! at) (Some withdrawal_id))) (\<lambda>_.
     block_others env keys at)"

section \<open>Submitting\<close>

text \<open>\<^verbatim>\<open>iter().position(..)\<close>\<close>

fun position_of :: "string list \<Rightarrow> string \<Rightarrow> nat option" where
  "position_of [] echoed = None"
| "position_of (burn # burns) echoed =
     (if eq_ignore_ascii_case burn echoed then Some 0 else map_option Suc (position_of burns echoed))"

definition echoes_one_of :: "string list \<Rightarrow> string \<Rightarrow> bool" where
  "echoes_one_of burns echoed \<longleftrightarrow> position_of burns echoed \<noteq> None"

datatype submit_attempt = AttemptCreated withdraw_submission_response | AttemptConflict withdraw_conflict

definition attempt_withdraw :: "submit_env \<Rightarrow> withdraw_request \<Rightarrow> submit_attempt circle_run" where
  "attempt_withdraw env request =
     bind_run (build_request env PATH_WITHDRAW (PostWithdraw request)) (\<lambda>call.
     bind_run (circle_execute env call) (\<lambda>response.
     if ra_status response = STATUS_WITHDRAW_CREATED then
       bind_run (decode_withdraw_created env (ra_body response) (length request)) (\<lambda>statuses.
       ret (AttemptCreated statuses))
     else if ra_status response = STATUS_WITHDRAW_CONFLICT then
       bind_run (decode_body env withdraw_conflict_decode ''withdraw-conflict'' (ra_body response)) (\<lambda>conflict.
       ret (AttemptConflict conflict))
     else raise (Http (ra_status response))))"

text \<open>The pairing of burns with statuses; \<open>Inl\<close> is the first burn no status names.\<close>

fun pair_statuses :: "string list \<Rightarrow> withdraw_submission_response \<Rightarrow> string + withdrawal_status list" where
  "pair_statuses [] statuses = Inr []"
| "pair_statuses (burn # burns) statuses =
     (case find (\<lambda>st. eq_ignore_ascii_case (ws_burn_tx_id st) burn) statuses of
        None \<Rightarrow> Inl burn
      | Some st \<Rightarrow> and_then (pair_statuses burns statuses) (\<lambda>rest. Inr (st # rest)))"

definition settle_created ::
  "submit_env \<Rightarrow> string list \<Rightarrow> string list \<Rightarrow> withdraw_submission_response \<Rightarrow> submit_outcome submit_run" where
  "settle_created env keys burns statuses =
     (case find (\<lambda>st. \<not> echoes_one_of burns (ws_burn_tx_id st)) statuses of
        Some st \<Rightarrow>
          bind_run (mark_all_reconciliation env keys) (\<lambda>_.
          ret (OutcomeConflictEchoMismatch burns (ws_burn_tx_id st)))
      | None \<Rightarrow>
          (case pair_statuses burns statuses of
             Inl burn \<Rightarrow>
               bind_run (mark_all_reconciliation env keys) (\<lambda>_.
               ret (OutcomeConflictEchoMismatch burns burn))
           | Inr paired \<Rightarrow>
               bind_run (for_each (\<lambda>(key, st).
                 ledger_tx env (\<lambda>f n. record_submission f n key (Some (ws_withdrawal_id st)))) (zip keys paired)) (\<lambda>_.
               ret (OutcomeSubmitted statuses))))"

definition recover_conflict ::
  "submit_env \<Rightarrow> string list \<Rightarrow> string list \<Rightarrow> withdraw_conflict \<Rightarrow> submit_outcome submit_run" where
  "recover_conflict env keys burns conflict =
     (let echoed = wc_burn_tx_id conflict in
      case position_of burns echoed of
        None \<Rightarrow>
          bind_run (mark_all_reconciliation env keys) (\<lambda>_. ret (OutcomeConflictEchoMismatch burns echoed))
      | Some at \<Rightarrow>
          (case wc_withdrawal_id conflict of
             None \<Rightarrow>
               bind_run (mark_all_reconciliation env keys) (\<lambda>_. ret (OutcomeReconciliationRequired echoed))
           | Some withdrawal_id \<Rightarrow>
               (\<lambda>s. case poll_status env withdrawal_id s of
                  (Inl e, t) \<Rightarrow>
                    bind_run (block_binding_id_to env keys at withdrawal_id) (\<lambda>_. raise (CircleRefused e)) t
                | (Inr status, t) \<Rightarrow>
                    (if \<not> eq_ignore_ascii_case (ws_burn_tx_id status) (burns ! at) then
                       bind_run (block_binding_id_to env keys at withdrawal_id) (\<lambda>_.
                       ret (OutcomeConflictEchoMismatch burns (ws_burn_tx_id status)))
                     else
                       bind_run (ledger_tx env (\<lambda>f n.
                         if ws_status status = StatusFinalized
                         then record_finalized f n (keys ! at) (Some withdrawal_id)
                         else record_reconciliation_required f n (keys ! at) (Some withdrawal_id))) (\<lambda>_.
                       bind_run (block_others env keys at) (\<lambda>_.
                       ret (OutcomeConflictRecovered withdrawal_id status)))) t)))"

definition settle_failure :: "submit_env \<Rightarrow> string list \<Rightarrow> listener_error \<Rightarrow> unit submit_run" where
  "settle_failure env keys e =
     (if e = Http 400 then for_each (\<lambda>key. ledger_tx env (\<lambda>f n. record_failure f n key)) keys
      else mark_all_reconciliation env keys)"

definition duplicate_at :: "string list \<Rightarrow> nat option" where
  "duplicate_at keys = map_option fst (find (\<lambda>(i, k). k \<in> set (take i keys)) (enumerate 0 keys))"

definition log_claim :: "string list \<Rightarrow> submit_state \<Rightarrow> submit_state" where
  "log_claim keys s = s\<lparr>su_trace := su_trace s @ [ClaimedBurns keys]\<rparr>"

text \<open>What follows the claim.\<close>

definition post_and_settle ::
  "submit_env \<Rightarrow> withdraw_request \<Rightarrow> string list \<Rightarrow> string list \<Rightarrow> submit_outcome submit_run" where
  "post_and_settle env request keys burns s =
     (case with_backoff env (attempt_withdraw env request) s of
        (Inr (AttemptCreated statuses), t) \<Rightarrow> settle_created env keys burns statuses t
      | (Inr (AttemptConflict conflict), t) \<Rightarrow> recover_conflict env keys burns conflict t
      | (Inl e, t) \<Rightarrow> bind_run (settle_failure env keys e) (\<lambda>_. raise (CircleRefused e)) t)"

definition submit_withdraw :: "submit_env \<Rightarrow> withdraw_request \<Rightarrow> submit_outcome submit_run" where
  "submit_withdraw env request =
     (let burns = map wb_burn_tx_id request; keys = map burn_key_new burns in
      case duplicate_at keys of
        Some i \<Rightarrow> raise (DuplicateBurnInRequest (burns ! i))
      | None \<Rightarrow>
          bind_run (ledger_tx env (\<lambda>f n. claim_burns f n keys)) (\<lambda>outcome.
          case outcome of
            AlreadySeen rec \<Rightarrow> ret (OutcomeAlreadySubmitted (sr_burn_key rec) (sr_status rec))
          | Claimed _ \<Rightarrow> (\<lambda>s. post_and_settle env request keys burns (log_claim keys s))))"

end
