(* ===== verification/Listener_Config.thy ===== *)
theory Listener_Config
  imports Withdraw_Submit
begin

text \<open>
  How the withdrawal listener is configured and how its Circle client is built
  (\<^verbatim>\<open>crates/withdrawal-listener-attester/src/config.rs\<close>, \<^verbatim>\<open>circle/auth.rs\<close>, \<^verbatim>\<open>circle/client.rs\<close>, and the
  addresses of \<^verbatim>\<open>attester.rs\<close> that the configuration lists). What the listener uses of other crates is
  a field of \<open>listener_ext\<close>:
  \<^item> \<open>lx_hex_encode\<close>, \<open>lx_hex_decode\<close>: the \<^verbatim>\<open>hex\<close> crate;
  \<^item> \<open>lx_url_parse\<close>, \<open>lx_header_name\<close>, \<open>lx_header_value\<close>, \<open>lx_http_builds\<close>: \<^verbatim>\<open>reqwest\<close>;
  \<^item> \<open>lx_u64\<close>: the reading of a \<^verbatim>\<open>u64\<close> by \<^verbatim>\<open>serde_json\<close>;
  \<^item> \<open>lx_account_*\<close>, \<open>lx_asset_amount\<close>, \<open>lx_burn_items\<close>, \<open>lx_eth_bytes32\<close>: \<^verbatim>\<open>miden-protocol\<close>,
    \<^verbatim>\<open>miden-standards\<close> and \<^verbatim>\<open>xusdc-encoding\<close>;
  \<^item> \<open>lx_signature_from_slice\<close>, \<open>lx_recover_from_prehash\<close>, \<open>lx_sign_prehash\<close>, \<open>lx_verifying_key\<close>,
    \<open>lx_encoded_point\<close>: \<^verbatim>\<open>k256\<close>; \<open>lx_keccak256\<close>: \<^verbatim>\<open>sha3\<close>.
\<close>

type_synonym felt = u64
type_synonym digest = bytes
type_synonym signature65 = bytes
type_synonym secret_key = bytes

record parsed_url =
  ur_scheme :: string
  ur_host :: "string option"

record listener_ext =
  lx_hex_encode :: "bytes \<Rightarrow> string"
  lx_hex_decode :: "string \<Rightarrow> bytes option"
  lx_url_parse :: "string \<Rightarrow> parsed_url option"
  lx_header_name :: "string \<Rightarrow> string option"
  lx_header_value :: "string \<Rightarrow> string option"
  lx_http_builds :: bool
  lx_u64 :: "json \<Rightarrow> u64 option"
  lx_account_from_hex :: "string \<Rightarrow> account_id option"
  lx_account_from_elements :: "felt \<Rightarrow> felt \<Rightarrow> account_id option"
  lx_asset_amount :: "u64 \<Rightarrow> u64 option"
  lx_burn_items :: "felt list \<Rightarrow> burn_items option"
  lx_eth_bytes32 :: "account_id \<Rightarrow> b256"
  lx_signature_from_slice :: "bytes \<Rightarrow> bytes option"
  lx_recover_from_prehash :: "digest \<Rightarrow> bytes \<Rightarrow> nat \<Rightarrow> bytes option"
  lx_sign_prehash :: "secret_key \<Rightarrow> digest \<Rightarrow> (bytes \<times> nat) option"
  lx_verifying_key :: "secret_key \<Rightarrow> bytes"
  lx_encoded_point :: "bytes \<Rightarrow> bytes"
  lx_keccak256 :: "bytes \<Rightarrow> bytes"

section \<open>Addresses (\<^verbatim>\<open>attester.rs\<close>)\<close>

text \<open>An address is its 20 bytes read big-endian; the derived order of \<^verbatim>\<open>[u8; 20]\<close> is the order of that number.\<close>

definition ADDRESS_LEN :: nat where "ADDRESS_LEN = 20"

definition of_be_bytes :: "bytes \<Rightarrow> 'a::len word" where
  "of_be_bytes bs = foldl (\<lambda>a b. push_bit 8 a + ucast b) 0 bs"

definition address_from_hex :: "listener_ext \<Rightarrow> string \<Rightarrow> address option" where
  "address_from_hex x s =
     Option.bind (hex_body s) (\<lambda>body.
     Option.bind (lx_hex_decode x body) (\<lambda>bytes.
     if length bytes = ADDRESS_LEN then Some (of_be_bytes bytes) else None))"

definition address_to_hex :: "listener_ext \<Rightarrow> address \<Rightarrow> string" where
  "address_to_hex x a = ''0x'' @ lx_hex_encode x (be_bytes ADDRESS_LEN a)"

text \<open>\<^verbatim>\<open>AttesterAllowlist\<close>: a set of addresses, read from a sequence of texts.\<close>

type_synonym attester_allowlist = "address set"

definition allowlist_decode :: "listener_ext \<Rightarrow> json \<Rightarrow> attester_allowlist option" where
  "allowlist_decode x j =
     Option.bind (json_as_list json_as_str j) (\<lambda>hexes.
     Option.bind (those (map (address_from_hex x) hexes)) (\<lambda>addresses. Some (set addresses)))"

section \<open>The configuration (\<^verbatim>\<open>config.rs\<close>)\<close>

definition CIRCLE_TESTNET_BASE_URL :: string where
  "CIRCLE_TESTNET_BASE_URL = ''https://xreserve-api-testnet.circle.com''"

definition CIRCLE_MAINNET_BASE_URL :: string where
  "CIRCLE_MAINNET_BASE_URL = ''https://xreserve-api.circle.com''"

definition PLACEHOLDER_FAUCET_ID :: string where
  "PLACEHOLDER_FAUCET_ID = ''0xbb405fd9fe431bd1135a292de098cb''"

record listener_config =
  lc_faucet_id :: account_id
  lc_burn_tag :: u32
  lc_miden_domain :: u32
  lc_max_withdrawal_fee :: u64
  lc_circle_base_url :: string
  lc_attester_key_handles :: "string list"
  lc_attester_allowlist :: attester_allowlist
  lc_api_auth_token :: "string option"
  lc_api_auth_header :: "string option"

definition config_validate :: "listener_ext \<Rightarrow> listener_config \<Rightarrow> listener_error + unit" where
  "config_validate x cfg =
     and_then (ok_or (lx_url_parse x (lc_circle_base_url cfg)) (BadBaseUrl (lc_circle_base_url cfg))) (\<lambda>url.
     if ur_scheme url \<noteq> ''http'' \<and> ur_scheme url \<noteq> ''https'' then Inl (BadBaseUrl (lc_circle_base_url cfg))
     else if lc_api_auth_token cfg \<noteq> None then
       (if ur_scheme url \<noteq> ''https'' then Inl (InsecureAuthTransport (lc_circle_base_url cfg))
        else if lc_api_auth_header cfg = None then Inl AuthHeaderNameRequired
        else Inr ())
     else Inr ())"

text \<open>\<^verbatim>\<open>build\<close> of the builder, and \<^verbatim>\<open>try_from\<close> behind the reading of a file: the same check.\<close>

definition config_build :: "listener_ext \<Rightarrow> listener_config \<Rightarrow> listener_error + listener_config" where
  "config_build x raw = and_then (config_validate x raw) (\<lambda>_. Inr raw)"

definition config_fields :: "string list" where
  "config_fields =
     [''faucet_id'', ''burn_tag'', ''miden_domain'', ''max_withdrawal_fee'', ''circle_base_url'',
      ''attester_key_handles'', ''attester_allowlist'', ''api_auth_token'', ''api_auth_header'']"

definition config_raw_of ::
  "listener_ext \<Rightarrow> wire_codecs \<Rightarrow> account_id \<Rightarrow> json option list \<Rightarrow> listener_config option" where
  "config_raw_of x wx default_faucet_id vs =
     (case vs of
        [faucet, tag, domain, fee, url, handles, allowlist, auth, name] \<Rightarrow>
          Option.bind (or_default default_faucet_id (\<lambda>j. Option.bind (json_as_str j) (lx_account_from_hex x)) faucet) (\<lambda>faucet.
          Option.bind (or_default 0 (wx_u32 wx) tag) (\<lambda>tag.
          Option.bind (or_default 0 (wx_domain wx) domain) (\<lambda>domain.
          Option.bind (or_default 0 (\<lambda>j. Option.bind (lx_u64 x j) (lx_asset_amount x)) fee) (\<lambda>fee.
          Option.bind (or_default CIRCLE_TESTNET_BASE_URL json_as_str url) (\<lambda>url.
          Option.bind (or_default [] (json_as_list json_as_str) handles) (\<lambda>handles.
          Option.bind (or_default {} (allowlist_decode x) allowlist) (\<lambda>allowlist.
          Option.bind (or_default None (nullable json_as_str) auth) (\<lambda>auth.
          Option.bind (or_default None (nullable json_as_str) name) (\<lambda>name.
          Some \<lparr>lc_faucet_id = faucet, lc_burn_tag = tag, lc_miden_domain = domain, lc_max_withdrawal_fee = fee,
                lc_circle_base_url = url, lc_attester_key_handles = handles, lc_attester_allowlist = allowlist,
                lc_api_auth_token = auth, lc_api_auth_header = name\<rparr>)))))))))
      | _ \<Rightarrow> None)"

definition config_decode :: "listener_ext \<Rightarrow> wire_codecs \<Rightarrow> account_id \<Rightarrow> json \<Rightarrow> listener_config option" where
  "config_decode x wx default_faucet_id j =
     Option.bind (Option.bind (default_fields config_fields j) (config_raw_of x wx default_faucet_id)) (\<lambda>raw.
     case config_build x raw of Inl _ \<Rightarrow> None | Inr cfg \<Rightarrow> Some cfg)"

section \<open>Authentication (\<^verbatim>\<open>auth.rs\<close>)\<close>

datatype auth_posture = NoAuth | AuthHeader string string

definition posture_from_config :: "listener_config \<Rightarrow> auth_posture" where
  "posture_from_config cfg =
     (case (lc_api_auth_token cfg, lc_api_auth_header cfg) of
        (Some tok, Some name) \<Rightarrow> AuthHeader name tok
      | _ \<Rightarrow> NoAuth)"

fun carries_credential :: "auth_posture \<Rightarrow> bool" where
  "carries_credential (AuthHeader _ _) \<longleftrightarrow> True"
| "carries_credential NoAuth \<longleftrightarrow> False"

fun to_header :: "listener_ext \<Rightarrow> auth_posture \<Rightarrow> listener_error + (string \<times> string) option" where
  "to_header x NoAuth = Inr None"
| "to_header x (AuthHeader name v) =
     and_then (ok_or (lx_header_name x name) (BadAuthHeader name)) (\<lambda>header_name.
     and_then (ok_or (lx_header_value x v) (BadAuthHeader name)) (\<lambda>header_value.
     Inr (Some (header_name, header_value))))"

section \<open>The Circle client (\<^verbatim>\<open>client.rs\<close>)\<close>

definition DEFAULT_MAX_RESPONSE_BYTES :: nat where "DEFAULT_MAX_RESPONSE_BYTES = 1048576"
definition DEFAULT_REQUEST_TIMEOUT :: nat where "DEFAULT_REQUEST_TIMEOUT = 30"

record poll_policy =
  po_interval :: nat
  po_max_attempts :: nat

definition poll_policy_new :: "nat \<Rightarrow> nat \<Rightarrow> poll_policy" where
  "poll_policy_new interval attempts = \<lparr>po_interval = interval, po_max_attempts = max attempts 1\<rparr>"

definition default_poll_policy :: poll_policy where
  "default_poll_policy = poll_policy_new 2000 150"

text \<open>A transport: the one the client builds, with its ceiling, or one that the caller supplies.\<close>

datatype client_transport = ReqwestTransport nat | SuppliedTransport nat

record listener_client =
  ct_base_url :: string
  ct_base :: parsed_url
  ct_timeout :: nat
  ct_follows_redirects :: bool
  ct_auth :: auth_posture
  ct_auth_header :: "(string \<times> string) option"
  ct_transport :: client_transport
  ct_transport_is_default :: bool
  ct_max_response_bytes :: nat
  ct_poll :: poll_policy
  ct_retry :: retry_policy
  ct_governor :: governor

definition client_new :: "listener_ext \<Rightarrow> string \<Rightarrow> auth_posture \<Rightarrow> listener_error + listener_client" where
  "client_new x base_url auth =
     and_then (ok_or (lx_url_parse x base_url) (BadBaseUrl base_url)) (\<lambda>base.
     if ur_scheme base \<noteq> ''http'' \<and> ur_scheme base \<noteq> ''https'' then Inl (BadBaseUrl base_url)
     else if ur_host base = None then Inl (BadBaseUrl base_url)
     else if carries_credential auth \<and> ur_scheme base \<noteq> ''https'' then Inl (InsecureAuthTransport base_url)
     else
       and_then (to_header x auth) (\<lambda>auth_header.
       and_then (ensure_that (lx_http_builds x) Transport) (\<lambda>_.
       Inr \<lparr>ct_base_url = base_url, ct_base = base, ct_timeout = DEFAULT_REQUEST_TIMEOUT,
            ct_follows_redirects = False, ct_auth = auth, ct_auth_header = auth_header,
            ct_transport = ReqwestTransport DEFAULT_MAX_RESPONSE_BYTES, ct_transport_is_default = True,
            ct_max_response_bytes = DEFAULT_MAX_RESPONSE_BYTES, ct_poll = default_poll_policy,
            ct_retry = default_retry_policy, ct_governor = documented\<rparr>)))"

definition client_from_config :: "listener_ext \<Rightarrow> listener_config \<Rightarrow> listener_error + listener_client" where
  "client_from_config x cfg = client_new x (lc_circle_base_url cfg) (posture_from_config cfg)"

definition with_transport :: "nat \<Rightarrow> listener_client \<Rightarrow> listener_client" where
  "with_transport transport c =
     c\<lparr>ct_transport := SuppliedTransport transport, ct_transport_is_default := False\<rparr>"

definition with_max_response_bytes :: "nat \<Rightarrow> listener_client \<Rightarrow> listener_client" where
  "with_max_response_bytes limit c =
     (let c = c\<lparr>ct_max_response_bytes := limit\<rparr> in
      if ct_transport_is_default c then c\<lparr>ct_transport := ReqwestTransport limit\<rparr> else c)"

definition with_poll_policy :: "poll_policy \<Rightarrow> listener_client \<Rightarrow> listener_client" where
  "with_poll_policy poll c = c\<lparr>ct_poll := poll\<rparr>"

definition with_retry_policy :: "retry_policy \<Rightarrow> listener_client \<Rightarrow> listener_client" where
  "with_retry_policy retry c = c\<lparr>ct_retry := retry\<rparr>"

definition with_rate_governor :: "governor \<Rightarrow> listener_client \<Rightarrow> listener_client" where
  "with_rate_governor governor c = c\<lparr>ct_governor := governor\<rparr>"

definition transport_max_response_bytes :: "listener_client \<Rightarrow> nat option" where
  "transport_max_response_bytes c =
     (case ct_transport c of ReqwestTransport limit \<Rightarrow> Some limit | SuppliedTransport _ \<Rightarrow> None)"

text \<open>The headers that \<^verbatim>\<open>build_get\<close> and \<^verbatim>\<open>build_post\<close> add to a request.\<close>

definition request_headers :: "listener_client \<Rightarrow> (string \<times> string) list" where
  "request_headers c = (case ct_auth_header c of None \<Rightarrow> [] | Some h \<Rightarrow> [h])"

section \<open>Where a credential goes\<close>

text \<open>The calls that may follow the construction of a client.\<close>

datatype client_call =
    WithTransport nat
  | WithMaxResponseBytes nat
  | WithPollPolicy poll_policy
  | WithRetryPolicy retry_policy
  | WithRateGovernor governor

fun client_do :: "client_call \<Rightarrow> listener_client \<Rightarrow> listener_client" where
  "client_do (WithTransport n) c = with_transport n c"
| "client_do (WithMaxResponseBytes limit) c = with_max_response_bytes limit c"
| "client_do (WithPollPolicy p) c = with_poll_policy p c"
| "client_do (WithRetryPolicy p) c = with_retry_policy p c"
| "client_do (WithRateGovernor g) c = with_rate_governor g c"

lemmas client_setters = with_transport_def with_max_response_bytes_def with_poll_policy_def with_retry_policy_def
  with_rate_governor_def Let_def

text \<open>
  What holds of a client however it was set up: the ceiling of its own transport is the client's, and
  nothing touches where it talks to or what it authenticates with.
\<close>

definition client_sound :: "listener_client \<Rightarrow> listener_client \<Rightarrow> bool" where
  "client_sound c0 c \<longleftrightarrow>
     ct_base c = ct_base c0 \<and> ct_auth_header c = ct_auth_header c0 \<and> ct_follows_redirects c = ct_follows_redirects c0 \<and>
     (ct_transport_is_default c \<longleftrightarrow> (\<exists>limit. ct_transport c = ReqwestTransport limit)) \<and>
     (\<forall>limit. transport_max_response_bytes c = Some limit \<longrightarrow> limit = ct_max_response_bytes c)"

lemma client_do_sound: "client_sound c0 c \<Longrightarrow> client_sound c0 (client_do call c)"
  by (cases call) (auto simp: client_sound_def client_setters transport_max_response_bytes_def split: client_transport.splits)

lemma client_calls_sound: "client_sound c0 c \<Longrightarrow> client_sound c0 (fold client_do calls c)"
  by (induction calls arbitrary: c) (auto intro: client_do_sound)

lemma client_new_Inr:
  assumes "client_new x base_url auth = Inr c"
  shows "client_sound c c" and "to_header x auth = Inr (ct_auth_header c)" and "\<not> ct_follows_redirects c"
    and "lx_url_parse x base_url = Some (ct_base c)" and "carries_credential auth \<Longrightarrow> ur_scheme (ct_base c) = ''https''"
  using assms
  by (auto simp: client_new_def outcome_simps client_sound_def transport_max_response_bytes_def split: if_splits)

lemma config_build_Inr:
  assumes "config_build x raw = Inr cfg"
  shows "cfg = raw" and "lc_api_auth_token cfg \<noteq> None \<Longrightarrow> lc_api_auth_header cfg \<noteq> None"
  using assms by (auto simp: config_build_def config_validate_def outcome_simps split: if_splits)


definition sample_client_ext :: listener_ext where
  "sample_client_ext =
     \<lparr>lx_hex_encode = (\<lambda>_. []), lx_hex_decode = (\<lambda>_. None),
      lx_url_parse = (\<lambda>_. Some \<lparr>ur_scheme = ''https'', ur_host = Some ''circle''\<rparr>), lx_header_name = Some,
      lx_header_value = Some, lx_http_builds = True, lx_u64 = (\<lambda>_. None), lx_account_from_hex = (\<lambda>_. None),
      lx_account_from_elements = (\<lambda>_ _. None), lx_asset_amount = Some, lx_burn_items = (\<lambda>_. None),
      lx_eth_bytes32 = (\<lambda>_. 0), lx_signature_from_slice = Some, lx_recover_from_prehash = (\<lambda>_ _ _. None),
      lx_sign_prehash = (\<lambda>_ _. None), lx_verifying_key = id, lx_encoded_point = id, lx_keccak256 = id\<rparr>"

definition sample_auth_config :: listener_config where
  "sample_auth_config =
     \<lparr>lc_faucet_id = 9, lc_burn_tag = 77, lc_miden_domain = 10001, lc_max_withdrawal_fee = 5,
      lc_circle_base_url = ''https://circle'', lc_attester_key_handles = [], lc_attester_allowlist = {},
      lc_api_auth_token = Some ''key'', lc_api_auth_header = Some ''x-api-key''\<rparr>"


end
