(* ===== verification/Withdraw_Gate.thy ===== *)
theory Withdraw_Gate
  imports Listener_Config
begin

text \<open>
  The gates a burn passes before its withdrawal is submitted
  (\<^verbatim>\<open>crates/withdrawal-listener-attester/src\<close>): reading the note (\<^verbatim>\<open>note_decode.rs\<close>), the discovery
  checklist and the comparison of Circle's answer with the burn (\<^verbatim>\<open>validate.rs\<close>), the signatures and
  their quorum (\<^verbatim>\<open>attester.rs\<close>), and the request builders and signer allowlist of \<^verbatim>\<open>withdrawal_api.rs\<close>.
\<close>

section \<open>Errors (\<^verbatim>\<open>error.rs\<close>)\<close>

datatype decode_error = BurnItemsMalformed | SenderAbsent | SenderZero | SenderMalformed

datatype discovery_reject =
    TagMismatch u32 u32
  | PrivateNoteUnobservable
  | DiscoveryDecode decode_error

datatype validation_mismatch =
    NoBatches
  | EmptyBurnIntents nat
  | AmountMismatch nat u64 string
  | DestinationDomainMismatch nat u32 u32
  | DestinationRecipientMismatch nat string string
  | MaxFeeMismatch nat u64 u64 string
  | DestinationCallerMismatch nat string string
  | HookDataMismatch nat string string string
  | MissingMessageHash nat
  | MalformedMessageHash nat nat

datatype sign_error = DigestLength nat | EcdsaRefused | UnrepresentableRecoveryId nat

datatype signature_error = SignatureLength nat

datatype quorum_error =
    BelowThreshold nat nat
  | AboveThreshold nat nat
  | SignatureDoesNotVerify nat
  | DuplicateSigner address
  | NotAscending nat

datatype submit_gate_error =
    NoAttestersConfigured
  | BatchDigestCountMismatch nat nat
  | BadSignatureHex nat nat
  | MalformedSignature nat nat nat
  | SignerUnrecoverable nat nat
  | SignerNotAllowlisted nat nat address

section \<open>The note (\<^verbatim>\<open>note_decode.rs\<close>)\<close>

record burn_note_metadata =
  bm_sender :: "(felt \<times> felt) option"

definition from_raw_sender :: "felt \<Rightarrow> felt \<Rightarrow> burn_note_metadata" where
  "from_raw_sender prefix suffix = \<lparr>bm_sender = Some (prefix, suffix)\<rparr>"

definition absent :: burn_note_metadata where
  "absent = \<lparr>bm_sender = None\<rparr>"

definition decode_burn_payload :: "listener_ext \<Rightarrow> felt list \<Rightarrow> decode_error + burn_items" where
  "decode_burn_payload x items = ok_or (lx_burn_items x items) BurnItemsMalformed"

definition read_sender :: "listener_ext \<Rightarrow> burn_note_metadata \<Rightarrow> decode_error + account_id" where
  "read_sender x meta =
     and_then (ok_or (bm_sender meta) SenderAbsent) (\<lambda>(prefix, suffix).
     if prefix = 0 \<and> suffix = 0 then Inl SenderZero
     else ok_or (lx_account_from_elements x suffix prefix) SenderMalformed)"

section \<open>Discovery (\<^verbatim>\<open>validate.rs\<close>)\<close>

record discovered_details =
  dd_items :: "felt list"
  dd_amount :: u64
  dd_sender :: burn_note_metadata

record discovery_record =
  dr_tag :: u32
  dr_details :: "discovered_details option"

record observed_burn =
  ob_payload :: burn_items
  ob_amount :: u64
  ob_depositor :: account_id

definition validate_discovery ::
  "listener_ext \<Rightarrow> listener_config \<Rightarrow> discovery_record \<Rightarrow> discovery_reject + observed_burn" where
  "validate_discovery x cfg record =
     (if dr_tag record \<noteq> lc_burn_tag cfg then Inl (TagMismatch (lc_burn_tag cfg) (dr_tag record))
      else
        and_then (ok_or (dr_details record) PrivateNoteUnobservable) (\<lambda>details.
        case decode_burn_payload x (dd_items details) of
          Inl e \<Rightarrow> Inl (DiscoveryDecode e)
        | Inr payload \<Rightarrow>
            (case read_sender x (dd_sender details) of
               Inl e \<Rightarrow> Inl (DiscoveryDecode e)
             | Inr depositor \<Rightarrow>
                 Inr \<lparr>ob_payload = payload, ob_amount = dd_amount details, ob_depositor = depositor\<rparr>)))"

section \<open>Circle's answer (\<^verbatim>\<open>validate.rs\<close>)\<close>

definition ZERO_BYTES32 :: bytes where "ZERO_BYTES32 = replicate 32 0"
definition ZERO_HEX20 :: string where "ZERO_HEX20 = ''0x0000000000000000000000000000000000000000''"
definition NO_FORWARDING_CALLDATA :: string where "NO_FORWARDING_CALLDATA = ''0x''"

definition array32 :: "bytes \<Rightarrow> bytes option" where
  "array32 bs = (if length bs = 32 then Some bs else None)"

definition decode_hex32 :: "listener_ext \<Rightarrow> string \<Rightarrow> bytes option" where
  "decode_hex32 x s = Option.bind (hex_body s) (\<lambda>body. Option.bind (lx_hex_decode x body) array32)"

definition hex32_eq :: "listener_ext \<Rightarrow> string \<Rightarrow> bytes \<Rightarrow> bool" where
  "hex32_eq x s expected \<longleftrightarrow> decode_hex32 x s = Some expected"

definition to_hex32 :: "listener_ext \<Rightarrow> bytes \<Rightarrow> string" where
  "to_hex32 x bytes = ''0x'' @ lx_hex_encode x bytes"

definition strip_hex :: "string \<Rightarrow> string" where
  "strip_hex s = (case hex_body s of None \<Rightarrow> s | Some body \<Rightarrow> body)"

definition decode_digest :: "listener_ext \<Rightarrow> nat \<Rightarrow> string \<Rightarrow> validation_mismatch + digest" where
  "decode_digest x batch hash =
     (if hash = [] then Inl (MissingMessageHash batch)
      else
        and_then (ok_or (lx_hex_decode x (strip_hex hash)) (MalformedMessageHash batch (length hash))) (\<lambda>bytes.
        ok_or (array32 bytes) (MalformedMessageHash batch (length bytes))))"

definition parse_u128 :: "string \<Rightarrow> nat option" where
  "parse_u128 = parse_unsigned (2 ^ 128)"

definition checked_add_u128 :: "nat \<Rightarrow> nat \<Rightarrow> nat option" where
  "checked_add_u128 a b = (if int (a + b) < 2 ^ 128 then Some (a + b) else None)"

definition check_max_fee ::
  "nat \<Rightarrow> string \<Rightarrow> observed_burn \<Rightarrow> listener_config \<Rightarrow> validation_mismatch + nat" where
  "check_max_fee batch max_fee burn cfg =
     (let ceiling = lc_max_withdrawal_fee cfg; amount = ob_amount burn; limit = unat (min ceiling amount) in
      case parse_u128 max_fee of
        Some fee \<Rightarrow> if fee \<le> limit then Inr fee else Inl (MaxFeeMismatch batch ceiling amount max_fee)
      | None \<Rightarrow> Inl (MaxFeeMismatch batch ceiling amount max_fee))"

definition check_hook_data ::
  "listener_ext \<Rightarrow> nat \<Rightarrow> circle_hook_data \<Rightarrow> observed_burn \<Rightarrow> listener_config \<Rightarrow> validation_mismatch + unit" where
  "check_hook_data x batch hook burn cfg =
     (let expected_depositor = be_bytes 32 (lx_eth_bytes32 x (ob_depositor burn));
          expected_token = be_bytes 32 (lx_eth_bytes32 x (lc_faucet_id cfg)) in
      if ch_remote_domain hook \<noteq> lc_miden_domain cfg then
        Inl (HookDataMismatch batch ''remoteDomain'' (show_nat (unat (lc_miden_domain cfg)))
          (show_nat (unat (ch_remote_domain hook))))
      else if \<not> hex32_eq x (ch_remote_depositor hook) expected_depositor then
        Inl (HookDataMismatch batch ''remoteDepositor'' (to_hex32 x expected_depositor) (ch_remote_depositor hook))
      else if \<not> hex32_eq x (ch_remote_token hook) expected_token then
        Inl (HookDataMismatch batch ''remoteToken'' (to_hex32 x expected_token) (ch_remote_token hook))
      else if \<not> eq_ignore_ascii_case (ch_forwarding_contract_address hook) ZERO_HEX20 then
        Inl (HookDataMismatch batch ''forwardingContractAddress'' ZERO_HEX20 (ch_forwarding_contract_address hook))
      else if ch_forwarding_calldata hook \<noteq> NO_FORWARDING_CALLDATA then
        Inl (HookDataMismatch batch ''forwardingCalldata'' NO_FORWARDING_CALLDATA (ch_forwarding_calldata hook))
      else Inr ())"

definition check_spec ::
  "listener_ext \<Rightarrow> nat \<Rightarrow> circle_transfer_spec \<Rightarrow> nat \<Rightarrow> observed_burn \<Rightarrow> listener_config
     \<Rightarrow> validation_mismatch + unit" where
  "check_spec x batch spec max_fee burn cfg =
     (let payload = ob_payload burn;
          recipient = be_bytes 32 (dest_recipient payload);
          amount_matches =
            (case parse_u128 (cs_value spec) of
               None \<Rightarrow> False
             | Some v \<Rightarrow> 0 < v \<and> checked_add_u128 v max_fee = Some (unat (ob_amount burn))) in
      if \<not> amount_matches then Inl (AmountMismatch batch (ob_amount burn) (cs_value spec))
      else if cs_destination_domain spec \<noteq> dest_domain payload then
        Inl (DestinationDomainMismatch batch (dest_domain payload) (cs_destination_domain spec))
      else if decode_hex32 x (cs_destination_recipient spec) \<noteq> Some recipient then
        Inl (DestinationRecipientMismatch batch (to_hex32 x recipient) (cs_destination_recipient spec))
      else if \<not> hex32_eq x (cs_destination_caller spec) ZERO_BYTES32 then
        Inl (DestinationCallerMismatch batch (to_hex32 x ZERO_BYTES32) (cs_destination_caller spec))
      else check_hook_data x batch (cs_hook_data spec) burn cfg)"

definition check_intent ::
  "listener_ext \<Rightarrow> nat \<Rightarrow> circle_burn_intent \<Rightarrow> observed_burn \<Rightarrow> listener_config \<Rightarrow> validation_mismatch + unit" where
  "check_intent x batch intent burn cfg =
     and_then (check_max_fee batch (cb_max_fee intent) burn cfg) (\<lambda>max_fee.
     check_spec x batch (cb_spec intent) max_fee burn cfg)"

fun check_intents ::
  "listener_ext \<Rightarrow> nat \<Rightarrow> circle_burn_intent list \<Rightarrow> observed_burn \<Rightarrow> listener_config \<Rightarrow> validation_mismatch + unit" where
  "check_intents x batch [] burn cfg = Inr ()"
| "check_intents x batch (intent # intents) burn cfg =
     and_then (check_intent x batch intent burn cfg) (\<lambda>_. check_intents x batch intents burn cfg)"

text \<open>\<^verbatim>\<open>ValidatedWithdrawal\<close>: the digests that were cleared.\<close>

record validated_withdrawal =
  vw_digests :: "digest list"

fun validate_batches ::
  "listener_ext \<Rightarrow> nat \<Rightarrow> prepare_withdrawal_response \<Rightarrow> observed_burn \<Rightarrow> listener_config
     \<Rightarrow> validation_mismatch + digest list" where
  "validate_batches x batch [] burn cfg = Inr []"
| "validate_batches x batch (prepared # rest) burn cfg =
     (if pd_burn_intents prepared = [] then Inl (EmptyBurnIntents batch)
      else
        and_then (check_intents x batch (pd_burn_intents prepared) burn cfg) (\<lambda>_.
        and_then (decode_digest x batch (pd_message_hash_to_sign prepared)) (\<lambda>digest.
        and_then (validate_batches x (batch + 1) rest burn cfg) (\<lambda>digests.
        Inr (digest # digests)))))"

definition validate_returned ::
  "listener_ext \<Rightarrow> prepare_withdrawal_response \<Rightarrow> observed_burn \<Rightarrow> listener_config
     \<Rightarrow> validation_mismatch + validated_withdrawal" where
  "validate_returned x resp burn cfg =
     (if resp = [] then Inl NoBatches
      else and_then (validate_batches x 0 resp burn cfg) (\<lambda>digests. Inr \<lparr>vw_digests = digests\<rparr>))"

definition batch_count :: "validated_withdrawal \<Rightarrow> nat" where
  "batch_count v = length (vw_digests v)"

section \<open>Signatures (\<^verbatim>\<open>attester.rs\<close>)\<close>

definition DIGEST_LEN :: nat where "DIGEST_LEN = 32"
definition SIGNATURE_LEN :: nat where "SIGNATURE_LEN = 65"
definition EVM_V_OFFSET :: u8 where "EVM_V_OFFSET = 27"
definition MIN_SIGNATURE_THRESHOLD :: nat where "MIN_SIGNATURE_THRESHOLD = 2"

definition evm_v_from_recovery_id :: "nat \<Rightarrow> u8 option" where
  "evm_v_from_recovery_id b = (if b = 0 \<or> b = 1 then Some (EVM_V_OFFSET + of_nat b) else None)"

definition signature_from_bytes :: "bytes \<Rightarrow> signature_error + signature65" where
  "signature_from_bytes bs = (if length bs = SIGNATURE_LEN then Inr bs else Inl (SignatureLength (length bs)))"

definition signature_v :: "signature65 \<Rightarrow> u8" where
  "signature_v s = s ! (SIGNATURE_LEN - 1)"

definition signature_to_hex :: "listener_ext \<Rightarrow> signature65 \<Rightarrow> string" where
  "signature_to_hex x s = ''0x'' @ lx_hex_encode x s"

definition address_from_verifying_key :: "listener_ext \<Rightarrow> bytes \<Rightarrow> address" where
  "address_from_verifying_key x key =
     of_be_bytes (drop 12 (lx_keccak256 x (drop 1 (lx_encoded_point x key))))"

definition address_of :: "listener_ext \<Rightarrow> secret_key \<Rightarrow> address" where
  "address_of x key = address_from_verifying_key x (lx_verifying_key x key)"

definition attester_sign :: "listener_ext \<Rightarrow> digest \<Rightarrow> secret_key \<Rightarrow> sign_error + signature65" where
  "attester_sign x msg_hash_to_sign key =
     (if length msg_hash_to_sign \<noteq> DIGEST_LEN then Inl (DigestLength (length msg_hash_to_sign))
      else
        and_then (ok_or (lx_sign_prehash x key msg_hash_to_sign) EcdsaRefused) (\<lambda>(signature, recovery_id).
        and_then (ok_or (evm_v_from_recovery_id recovery_id) (UnrepresentableRecoveryId recovery_id)) (\<lambda>v.
        Inr (signature @ [v]))))"

definition recover_address :: "listener_ext \<Rightarrow> digest \<Rightarrow> signature65 \<Rightarrow> address option" where
  "recover_address x digest sig =
     Option.bind
       (if signature_v sig = EVM_V_OFFSET then Some 0
        else if signature_v sig = EVM_V_OFFSET + 1 then Some 1
        else None) (\<lambda>recovery_id.
     Option.bind (lx_signature_from_slice x (take 64 sig)) (\<lambda>signature.
     Option.bind (lx_recover_from_prehash x digest signature recovery_id) (\<lambda>verifying_key.
     Some (address_from_verifying_key x verifying_key))))"

text \<open>\<^verbatim>\<open>QuorumBundle\<close>, and the three scans of \<^verbatim>\<open>assemble_quorum\<close> over the numbered pairs.\<close>

record quorum_bundle =
  qb_signatures :: "signature65 list"

fun verify_claims :: "listener_ext \<Rightarrow> digest \<Rightarrow> nat \<Rightarrow> (address \<times> signature65) list \<Rightarrow> quorum_error + unit" where
  "verify_claims x digest i [] = Inr ()"
| "verify_claims x digest i ((claimed, sig) # rest) =
     (if recover_address x digest sig = Some claimed then verify_claims x digest (i + 1) rest
      else Inl (SignatureDoesNotVerify i))"

fun reject_duplicates :: "address list \<Rightarrow> quorum_error + unit" where
  "reject_duplicates [] = Inr ()"
| "reject_duplicates (a # as) = (if a \<in> set as then Inl (DuplicateSigner a) else reject_duplicates as)"

fun check_ascending :: "nat \<Rightarrow> address list \<Rightarrow> quorum_error + unit" where
  "check_ascending i (a # b # as) = (if b \<le> a then Inl (NotAscending i) else check_ascending (i + 1) (b # as))"
| "check_ascending i _ = Inr ()"

definition assemble_quorum ::
  "listener_ext \<Rightarrow> digest \<Rightarrow> (address \<times> signature65) list \<Rightarrow> quorum_error + quorum_bundle" where
  "assemble_quorum x msg_hash_to_sign sigs =
     (if length sigs < MIN_SIGNATURE_THRESHOLD then Inl (BelowThreshold (length sigs) MIN_SIGNATURE_THRESHOLD)
      else if MIN_SIGNATURE_THRESHOLD < length sigs then Inl (AboveThreshold (length sigs) MIN_SIGNATURE_THRESHOLD)
      else
        and_then (verify_claims x msg_hash_to_sign 0 sigs) (\<lambda>_.
        and_then (reject_duplicates (map fst sigs)) (\<lambda>_.
        and_then (check_ascending 1 (map fst sigs)) (\<lambda>_.
        Inr \<lparr>qb_signatures = map snd sigs\<rparr>))))"

definition sign_validated ::
  "listener_ext \<Rightarrow> validated_withdrawal \<Rightarrow> secret_key \<Rightarrow> sign_error + signature65 list" where
  "sign_validated x validated key = collect_all (\<lambda>digest. attester_sign x digest key) (vw_digests validated)"

section \<open>Requests (\<^verbatim>\<open>withdrawal_api.rs\<close>)\<close>

text \<open>
  \<open>None\<close> is the panic of an \<^verbatim>\<open>expect\<close>; \<open>Some\<close> is a return.
\<close>

definition expect :: "'e + 'a \<Rightarrow> 'a option" where
  "expect r = (case r of Inl _ \<Rightarrow> None | Inr v \<Rightarrow> Some v)"

definition hex32_of :: "listener_ext \<Rightarrow> bytes \<Rightarrow> string option" where
  "hex32_of x bytes = expect (hex32_new (''0x'' @ lx_hex_encode x bytes))"

definition build_prepare_request ::
  "listener_ext \<Rightarrow> observed_burn \<Rightarrow> listener_config \<Rightarrow> (schema_error + prepare_withdrawal_request) option" where
  "build_prepare_request x burn cfg =
     Option.bind (expect (decimal_amount_new (show_nat (unat (ob_amount burn))))) (\<lambda>value.
     Option.bind (hex32_of x (be_bytes 32 (lx_eth_bytes32 x (ob_depositor burn)))) (\<lambda>depositor.
     Option.bind (hex32_of x (be_bytes 32 (dest_recipient (ob_payload burn)))) (\<lambda>recipient.
     Some (and_then (prepare_input_build
       \<lparr>pn_token = Usdc, pn_value_excluding_fees = None, pn_value_including_fees = Some value,
        pn_remote_domain = lc_miden_domain cfg, pn_remote_depositor = depositor,
        pn_final_destination_domain = dest_domain (ob_payload burn),
        pn_final_destination_recipient = recipient, pn_final_destination_caller = None, pn_salt = None,
        pn_use_circle_forwarding = False, pn_forwarding_options = None\<rparr>) (\<lambda>input. Inr [input])))))"

definition build_withdraw_batch ::
  "listener_ext \<Rightarrow> circle_burn_intent \<Rightarrow> quorum_bundle \<Rightarrow> string \<Rightarrow> bool \<Rightarrow> (schema_error + withdraw_batch) option" where
  "build_withdraw_batch x burn_intent quorum burn_tx_id use_circle_forwarding =
     Option.bind (those (map (\<lambda>s. expect (hex_bytes_new (signature_to_hex x s))) (qb_signatures quorum))) (\<lambda>signatures.
     Some (withdraw_batch_new [burn_intent] signatures burn_tx_id use_circle_forwarding))"

definition build_withdraw_request :: "withdraw_batch list \<Rightarrow> schema_error + withdraw_request" where
  "build_withdraw_request batches = withdraw_request_new batches"

definition decode_signature_hex :: "listener_ext \<Rightarrow> string \<Rightarrow> bytes option" where
  "decode_signature_hex x s = lx_hex_decode x (strip_hex s)"

fun authorize_signatures ::
  "listener_ext \<Rightarrow> attester_allowlist \<Rightarrow> nat \<Rightarrow> digest \<Rightarrow> nat \<Rightarrow> string list \<Rightarrow> submit_gate_error + unit" where
  "authorize_signatures x allowlist batch digest at [] = Inr ()"
| "authorize_signatures x allowlist batch digest at (hex # rest) =
     and_then (ok_or (decode_signature_hex x hex) (BadSignatureHex batch at)) (\<lambda>bytes.
     and_then (case signature_from_bytes bytes of
         Inl _ \<Rightarrow> Inl (MalformedSignature batch at (length bytes)) | Inr s \<Rightarrow> Inr s) (\<lambda>signature.
     and_then (ok_or (recover_address x digest signature) (SignerUnrecoverable batch at)) (\<lambda>signer.
     if signer \<notin> allowlist then Inl (SignerNotAllowlisted batch at signer)
     else authorize_signatures x allowlist batch digest (at + 1) rest)))"

fun authorize_batches ::
  "listener_ext \<Rightarrow> attester_allowlist \<Rightarrow> nat \<Rightarrow> (withdraw_batch \<times> digest) list \<Rightarrow> submit_gate_error + unit" where
  "authorize_batches x allowlist batch [] = Inr ()"
| "authorize_batches x allowlist batch ((b, digest) # rest) =
     and_then (authorize_signatures x allowlist batch digest 0 (wb_burn_signatures b)) (\<lambda>_.
     authorize_batches x allowlist (batch + 1) rest)"

text \<open>\<^verbatim>\<open>AuthorizedWithdrawal\<close>: the request that passed.\<close>

record authorized_withdrawal =
  aw_request :: withdraw_request

definition authorize_submission ::
  "listener_ext \<Rightarrow> withdraw_request \<Rightarrow> validated_withdrawal \<Rightarrow> listener_config
     \<Rightarrow> submit_gate_error + authorized_withdrawal" where
  "authorize_submission x request validated cfg =
     (let allowlist = lc_attester_allowlist cfg; digests = vw_digests validated in
      if allowlist = {} then Inl NoAttestersConfigured
      else if length request \<noteq> length digests then
        Inl (BatchDigestCountMismatch (length request) (length digests))
      else
        and_then (authorize_batches x allowlist 0 (zip request digests)) (\<lambda>_. Inr \<lparr>aw_request = request\<rparr>))"

section \<open>What the gates establish\<close>

text \<open>
  An intent that releases exactly this burn: what Circle pays out plus its fee is the burned amount, the
  fee is within the configured limit, and the money goes where the note says, callable by anyone, with
  nothing forwarded.
\<close>

definition hook_matches :: "listener_ext \<Rightarrow> listener_config \<Rightarrow> observed_burn \<Rightarrow> circle_hook_data \<Rightarrow> bool" where
  "hook_matches x cfg burn hook \<longleftrightarrow>
     ch_remote_domain hook = lc_miden_domain cfg \<and>
     decode_hex32 x (ch_remote_depositor hook) = Some (be_bytes 32 (lx_eth_bytes32 x (ob_depositor burn))) \<and>
     decode_hex32 x (ch_remote_token hook) = Some (be_bytes 32 (lx_eth_bytes32 x (lc_faucet_id cfg))) \<and>
     eq_ignore_ascii_case (ch_forwarding_contract_address hook) ZERO_HEX20 \<and>
     ch_forwarding_calldata hook = NO_FORWARDING_CALLDATA"

definition releases_burn :: "listener_ext \<Rightarrow> listener_config \<Rightarrow> observed_burn \<Rightarrow> circle_burn_intent \<Rightarrow> bool" where
  "releases_burn x cfg burn intent \<longleftrightarrow>
     (\<exists>fee v. parse_u128 (cb_max_fee intent) = Some fee \<and> parse_u128 (cs_value (cb_spec intent)) = Some v \<and>
        0 < v \<and> v + fee = unat (ob_amount burn) \<and> fee \<le> unat (lc_max_withdrawal_fee cfg)) \<and>
     cs_destination_domain (cb_spec intent) = dest_domain (ob_payload burn) \<and>
     decode_hex32 x (cs_destination_recipient (cb_spec intent)) = Some (be_bytes 32 (dest_recipient (ob_payload burn))) \<and>
     decode_hex32 x (cs_destination_caller (cb_spec intent)) = Some ZERO_BYTES32 \<and>
     hook_matches x cfg burn (cs_hook_data (cb_spec intent))"

lemma check_hook_data_Inr: "check_hook_data x batch hook burn cfg = Inr u \<longleftrightarrow> hook_matches x cfg burn hook"
  by (simp add: check_hook_data_def hook_matches_def Let_def hex32_eq_def)

lemma unat_min: "unat (min a b) = min (unat a) (unat b)" for a b :: "'a::len word"
  by (simp add: min_def word_le_nat_alt)

lemma check_max_fee_Inr:
  "check_max_fee batch max_fee burn cfg = Inr fee \<longleftrightarrow>
     parse_u128 max_fee = Some fee \<and> fee \<le> unat (lc_max_withdrawal_fee cfg) \<and> fee \<le> unat (ob_amount burn)"
  by (auto simp: check_max_fee_def Let_def unat_min split: option.splits)

lemma amount_fits: "int (unat (a :: u64)) < 2 ^ 128"
proof -
  have "uint a < 2 ^ 64" using uint_lt2p [of a] by simp
  then show ?thesis by simp
qed

lemma check_intent_Inr: "check_intent x batch intent burn cfg = Inr u \<longleftrightarrow> releases_burn x cfg burn intent"
proof -
  have sum: "checked_add_u128 v fee = Some (unat (ob_amount burn)) \<longleftrightarrow> v + fee = unat (ob_amount burn)" for v fee
    unfolding checked_add_u128_def using amount_fits [of "ob_amount burn"] by (metis option.inject option.simps(3))
  show ?thesis
    by (auto simp: check_intent_def check_spec_def releases_burn_def Let_def outcome_simps check_max_fee_Inr
        check_hook_data_Inr hex32_eq_def sum split: option.splits)
qed

lemma check_intents_Inr: "check_intents x batch intents burn cfg = Inr u \<longleftrightarrow> list_all (releases_burn x cfg burn) intents"
  by (induction intents) (auto simp: outcome_simps check_intent_Inr)

definition digest_of :: "listener_ext \<Rightarrow> string \<Rightarrow> digest option" where
  "digest_of x hash = (if hash = [] then None else Option.bind (lx_hex_decode x (strip_hex hash)) array32)"

lemma decode_digest_Inr: "decode_digest x batch hash = Inr d \<longleftrightarrow> digest_of x hash = Some d"
  by (auto simp: decode_digest_def digest_of_def outcome_simps bind_eq_Some_conv)

lemma digest_of_length: "digest_of x hash = Some d \<Longrightarrow> length d = 32"
  by (auto simp: digest_of_def bind_eq_Some_conv array32_def split: if_splits)

definition clears :: "listener_ext \<Rightarrow> listener_config \<Rightarrow> observed_burn \<Rightarrow> prepared_batch \<Rightarrow> digest \<Rightarrow> bool" where
  "clears x cfg burn prepared d \<longleftrightarrow>
     pd_burn_intents prepared \<noteq> [] \<and> list_all (releases_burn x cfg burn) (pd_burn_intents prepared) \<and>
     digest_of x (pd_message_hash_to_sign prepared) = Some d"

lemma validate_batches_Inr:
  "validate_batches x batch resp burn cfg = Inr ds \<longleftrightarrow> list_all2 (clears x cfg burn) resp ds"
  by (induction resp arbitrary: batch ds)
    (auto simp: outcome_simps check_intents_Inr decode_digest_Inr clears_def list_all2_Cons1)

lemma validate_returned_Inr:
  "validate_returned x resp burn cfg = Inr v \<longleftrightarrow> resp \<noteq> [] \<and> list_all2 (clears x cfg burn) resp (vw_digests v)"
  by (cases v) (auto simp: validate_returned_def outcome_simps validate_batches_Inr)

lemma verify_claims_Inr:
  "verify_claims x digest i sigs = Inr u \<longleftrightarrow> list_all (\<lambda>(a, s). recover_address x digest s = Some a) sigs"
  by (induction x digest i sigs rule: verify_claims.induct) auto

lemma reject_duplicates_Inr: "reject_duplicates as = Inr u \<longleftrightarrow> distinct as"
  by (induction as) auto

lemma length_two: "length xs = Suc (Suc 0) \<longleftrightarrow> (\<exists>a b. xs = [a, b])"
  by (auto simp: length_Suc_conv)

text \<open>What Circle's verifier on the source chain accepts: two signatures over the digest, by increasing signers.\<close>

definition ordered_quorum :: "listener_ext \<Rightarrow> digest \<Rightarrow> signature65 list \<Rightarrow> bool" where
  "ordered_quorum x digest sigs \<longleftrightarrow>
     (\<exists>s1 s2 a1 a2. sigs = [s1, s2] \<and> recover_address x digest s1 = Some a1 \<and> recover_address x digest s2 = Some a2 \<and>
        a1 < a2)"

lemma assemble_quorum_Inr:
  "assemble_quorum x digest sigs = Inr q \<longleftrightarrow>
     (\<exists>a1 s1 a2 s2. sigs = [(a1, s1), (a2, s2)] \<and> recover_address x digest s1 = Some a1 \<and>
        recover_address x digest s2 = Some a2 \<and> a1 < a2 \<and> qb_signatures q = [s1, s2])"
proof (cases "length sigs = 2")
  case True
  then obtain a1 s1 a2 s2 where "sigs = [(a1, s1), (a2, s2)]" by (auto simp: numeral_2_eq_2 length_two)
  then show ?thesis
    by (cases q) (auto simp: assemble_quorum_def MIN_SIGNATURE_THRESHOLD_def outcome_simps verify_claims_Inr)
qed (auto simp: assemble_quorum_def MIN_SIGNATURE_THRESHOLD_def)

definition signed_by_attester :: "listener_ext \<Rightarrow> attester_allowlist \<Rightarrow> digest \<Rightarrow> string \<Rightarrow> bool" where
  "signed_by_attester x allowlist digest hex \<longleftrightarrow>
     (\<exists>sig signer. decode_signature_hex x hex = Some sig \<and> length sig = SIGNATURE_LEN \<and>
        recover_address x digest sig = Some signer \<and> signer \<in> allowlist)"

lemma authorize_signatures_Inr:
  "authorize_signatures x allowlist batch digest at hexes = Inr u \<longleftrightarrow>
     list_all (signed_by_attester x allowlist digest) hexes"
  by (induction hexes arbitrary: at)
    (auto simp: outcome_simps signed_by_attester_def signature_from_bytes_def split: if_splits sum.splits)

lemma authorize_batches_Inr:
  "authorize_batches x allowlist batch bs = Inr u \<longleftrightarrow>
     list_all (\<lambda>(b, d). list_all (signed_by_attester x allowlist d) (wb_burn_signatures b)) bs"
  by (induction x allowlist batch bs rule: authorize_batches.induct) (auto simp: outcome_simps authorize_signatures_Inr)

lemma authorize_submission_Inr:
  "authorize_submission x request v cfg = Inr a \<longleftrightarrow>
     lc_attester_allowlist cfg \<noteq> {} \<and> aw_request a = request \<and>
     list_all2 (\<lambda>b d. list_all (signed_by_attester x (lc_attester_allowlist cfg) d) (wb_burn_signatures b))
       request (vw_digests v)"
  by (cases a)
    (auto simp: authorize_submission_def Let_def outcome_simps authorize_batches_Inr list_all2_iff list_all_iff)

end
