(* ===== verification/Withdraw_Evidence.thy ===== *)
theory Withdraw_Evidence
  imports Wire "HOL-Library.Multiset"
begin

text \<open>
  The evidence of a burn (\<^verbatim>\<open>crates/withdrawal-listener-attester/src/evidence.rs\<close>, \<^verbatim>\<open>types.rs\<close>): three
  reads from a Miden node, the package they are assembled into, and what each part of the package
  proves. The node is the record \<open>evidence_reads\<close>; an inclusion proof of \<^verbatim>\<open>miden-protocol\<close> is known by
  the block its location names and, beyond that, only up to equality.
\<close>

section \<open>What the node answers\<close>

record note_inclusion_proof =
  ip_block_num :: block_number
  ip_rest :: bytes

record public_note_details =
  pu_nullifier :: nullifier
  pu_inclusion_proof :: note_inclusion_proof

record note_record =
  nr_note_id :: note_id
  nr_details :: "public_note_details option"

record transaction_record =
  tr_transaction_id :: b256
  tr_account_id :: account_id
  tr_block_num :: block_number
  tr_input_note_nullifiers :: "nullifier list"
  tr_output_note_proofs :: "(note_id \<times> note_inclusion_proof) list"

record nullifier_record =
  nu_nullifier :: nullifier
  nu_spent_in_block :: "block_number option"

datatype ambiguity_reason =
    NoSpendObserved
  | NoConsumingTransaction
  | AmbiguousConsumingTransactions nat
  | ContradictoryTransactionRows nat
  | SpendBlockDisagreesWithLinkage block_number block_number
  | ConsumptionPrecedesCreation block_number block_number

text \<open>A failed read is known by the name of its RPC.\<close>

datatype evidence_error =
    EvidenceRead string
  | NoteNotObservable note_id
  | WrongNoteAnswered note_id note_id
  | WrongNullifierAnswered nullifier nullifier
  | EvidenceReconciliation note_id ambiguity_reason
  | FullBlockUpgradeNotImplemented

record evidence_reads =
  er_note_by_id :: "note_id \<Rightarrow> string + note_record"
  er_faucet_transactions :: "account_id \<Rightarrow> string + transaction_record list"
  er_nullifier_status :: "nullifier \<Rightarrow> string + nullifier_record"

definition read_port :: "string + 'a \<Rightarrow> evidence_error + 'a" where
  "read_port r = (case r of Inl rpc \<Rightarrow> Inl (EvidenceRead rpc) | Inr v \<Rightarrow> Inr v)"

section \<open>The package (\<^verbatim>\<open>types.rs\<close>)\<close>

datatype proof_strength = Cryptographic | NodeTrusted

definition weaker_of :: "proof_strength \<Rightarrow> proof_strength \<Rightarrow> proof_strength" where
  "weaker_of a b = (if a = NodeTrusted \<or> b = NodeTrusted then NodeTrusted else Cryptographic)"

datatype proven_fact = NoteCreatedInBlock | NoteConsumedByTransaction | NullifierSpent

fun is_consumption_claim :: "proven_fact \<Rightarrow> bool" where
  "is_consumption_claim NoteCreatedInBlock \<longleftrightarrow> False"
| "is_consumption_claim NoteConsumedByTransaction \<longleftrightarrow> True"
| "is_consumption_claim NullifierSpent \<longleftrightarrow> True"

record evidence_element =
  el_name :: string
  el_strength :: proof_strength
  el_proves :: proven_fact

record evidence_package =
  ep_burn_tx_id :: string
  ep_note_id :: bytes
  ep_nullifier :: bytes
  ep_block_num :: block_number

definition elements :: "evidence_package \<Rightarrow> evidence_element list" where
  "elements p =
     [\<lparr>el_name = ''burnTxId'', el_strength = NodeTrusted, el_proves = NoteConsumedByTransaction\<rparr>,
      \<lparr>el_name = ''note_id'', el_strength = Cryptographic, el_proves = NoteCreatedInBlock\<rparr>,
      \<lparr>el_name = ''nullifier'', el_strength = NodeTrusted, el_proves = NullifierSpent\<rparr>,
      \<lparr>el_name = ''block_num'', el_strength = Cryptographic, el_proves = NoteCreatedInBlock\<rparr>]"

text \<open>\<^verbatim>\<open>reduce(..).expect(..)\<close>: \<open>None\<close> is the panic on an empty list.\<close>

definition consumption_trust :: "evidence_package \<Rightarrow> proof_strength option" where
  "consumption_trust p =
     (case map el_strength (filter (\<lambda>e. is_consumption_claim (el_proves e)) (elements p)) of
        [] \<Rightarrow> None
      | s # ss \<Rightarrow> Some (foldl weaker_of s ss))"

section \<open>Assembling (\<^verbatim>\<open>evidence.rs\<close>)\<close>

definition consumes :: "account_id \<Rightarrow> nullifier \<Rightarrow> transaction_record \<Rightarrow> bool" where
  "consumes faucet n tx \<longleftrightarrow> tr_account_id tx = faucet \<and> n \<in> set (tr_input_note_nullifiers tx)"

text \<open>The loop that collects the transaction IDs, each once.\<close>

fun claim_ids :: "b256 list \<Rightarrow> transaction_record list \<Rightarrow> b256 list" where
  "claim_ids ids [] = ids"
| "claim_ids ids (tx # rest) =
     claim_ids (if tr_transaction_id tx \<in> set ids then ids else ids @ [tr_transaction_id tx]) rest"

text \<open>All rows that carry the transaction ID must be the same row; there is at least one.\<close>

definition single_row :: "transaction_record list \<Rightarrow> ambiguity_reason + transaction_record" where
  "single_row rows =
     (let burn_tx = hd rows in
      if \<exists>row \<in> set rows. row \<noteq> burn_tx then Inl (ContradictoryTransactionRows (length rows)) else Inr burn_tx)"

text \<open>The linkage: the transaction that consumed the note, from the rows of the stream.\<close>

definition burn_transaction ::
  "account_id \<Rightarrow> nullifier \<Rightarrow> transaction_record list \<Rightarrow> ambiguity_reason + transaction_record" where
  "burn_transaction faucet n transactions =
     (case claim_ids [] (filter (consumes faucet n) transactions) of
        [] \<Rightarrow> Inl NoConsumingTransaction
      | [only] \<Rightarrow>
          single_row (filter (\<lambda>tx. tr_transaction_id tx = only) transactions)
      | many \<Rightarrow> Inl (AmbiguousConsumingTransactions (length many)))"

definition link_spend ::
  "(b256 \<Rightarrow> string) \<Rightarrow> note_id \<Rightarrow> account_id \<Rightarrow> public_note_details \<Rightarrow> block_number \<Rightarrow> transaction_record list
     \<Rightarrow> evidence_error + evidence_package" where
  "link_spend tx_hex n faucet details spend_block transactions =
     (case burn_transaction faucet (pu_nullifier details) transactions of
        Inl reason \<Rightarrow> Inl (EvidenceReconciliation n reason)
      | Inr burn_tx \<Rightarrow>
          if tr_block_num burn_tx \<noteq> spend_block then
            Inl (EvidenceReconciliation n (SpendBlockDisagreesWithLinkage spend_block (tr_block_num burn_tx)))
          else
            Inr \<lparr>ep_burn_tx_id = tx_hex (tr_transaction_id burn_tx), ep_note_id = be_bytes 32 n,
                 ep_nullifier = be_bytes 32 (pu_nullifier details),
                 ep_block_num = ip_block_num (pu_inclusion_proof details)\<rparr>)"

text \<open>\<open>tx_hex\<close> is \<^verbatim>\<open>TransactionId::to_hex\<close> of \<^verbatim>\<open>miden-protocol\<close>.\<close>

definition assemble_evidence ::
  "(b256 \<Rightarrow> string) \<Rightarrow> evidence_reads \<Rightarrow> note_id \<Rightarrow> account_id \<Rightarrow> evidence_error + evidence_package" where
  "assemble_evidence tx_hex port n faucet =
     and_then (read_port (er_note_by_id port n)) (\<lambda>rec.
     if nr_note_id rec \<noteq> n then Inl (WrongNoteAnswered n (nr_note_id rec))
     else
       and_then (ok_or (nr_details rec) (NoteNotObservable n)) (\<lambda>details.
       let create_block = ip_block_num (pu_inclusion_proof details) in
       and_then (read_port (er_nullifier_status port (pu_nullifier details))) (\<lambda>spend.
       if nu_nullifier spend \<noteq> pu_nullifier details then
         Inl (WrongNullifierAnswered (pu_nullifier details) (nu_nullifier spend))
       else
         and_then (ok_or (nu_spent_in_block spend) (EvidenceReconciliation n NoSpendObserved)) (\<lambda>spend_block.
         if spend_block \<le> create_block then
           Inl (EvidenceReconciliation n (ConsumptionPrecedesCreation create_block spend_block))
         else
           and_then (read_port (er_faucet_transactions port faucet)) (\<lambda>transactions.
           link_spend tx_hex n faucet details spend_block transactions)))))"

definition full_block_upgrade :: "evidence_package \<Rightarrow> evidence_error + evidence_package" where
  "full_block_upgrade p = Inl FullBlockUpgradeNotImplemented"

section \<open>The transaction that consumed the note\<close>

lemma claim_ids_set: "set (claim_ids ids txs) = set ids \<union> tr_transaction_id ` set txs"
  by (induction ids txs rule: claim_ids.induct) auto

lemma claim_ids_distinct: "distinct ids \<Longrightarrow> distinct (claim_ids ids txs)"
  by (induction ids txs rule: claim_ids.induct) auto

definition claimed_tx_ids :: "account_id \<Rightarrow> nullifier \<Rightarrow> transaction_record list \<Rightarrow> b256 set" where
  "claimed_tx_ids faucet n rows = tr_transaction_id ` {tx \<in> set rows. consumes faucet n tx}"

lemma claim_ids_consuming:
  "set (claim_ids [] (filter (consumes faucet n) rows)) = claimed_tx_ids faucet n rows"
  "distinct (claim_ids [] (filter (consumes faucet n) rows))"
  "length (claim_ids [] (filter (consumes faucet n) rows)) = card (claimed_tx_ids faucet n rows)"
proof -
  show s: "set (claim_ids [] (filter (consumes faucet n) rows)) = claimed_tx_ids faucet n rows"
    by (simp add: claim_ids_set claimed_tx_ids_def)
  show d: "distinct (claim_ids [] (filter (consumes faucet n) rows))" by (simp add: claim_ids_distinct)
  show "length (claim_ids [] (filter (consumes faucet n) rows)) = card (claimed_tx_ids faucet n rows)"
    using distinct_card [OF d] s by simp
qed

text \<open>What \<^verbatim>\<open>burn_transaction\<close> finds, without its order: how many IDs claim the note, and which rows carry the ID.\<close>

lemma burn_transaction_by_ids:
  "burn_transaction faucet n rows =
     (if claimed_tx_ids faucet n rows = {} then Inl NoConsumingTransaction
      else if card (claimed_tx_ids faucet n rows) \<noteq> 1
        then Inl (AmbiguousConsumingTransactions (card (claimed_tx_ids faucet n rows)))
      else
        single_row (filter (\<lambda>tx. tr_transaction_id tx = the_elem (claimed_tx_ids faucet n rows)) rows))"
proof -
  note ids = claim_ids_consuming [of faucet n rows]
  show ?thesis
  proof (cases "claim_ids [] (filter (consumes faucet n) rows)")
    case Nil
    then show ?thesis using ids by (simp add: burn_transaction_def)
  next
    case (Cons i others)
    then have set: "claimed_tx_ids faucet n rows = set (i # others)" and
      card: "card (claimed_tx_ids faucet n rows) = Suc (length others)" using ids by simp_all
    show ?thesis
    proof (cases others)
      case Nil
      then have "claimed_tx_ids faucet n rows = {i}" using set by simp
      then show ?thesis using Cons Nil by (simp add: burn_transaction_def)
    next
      case (Cons j js)
      then show ?thesis using \<open>claim_ids _ _ = i # others\<close> set card by (auto simp: burn_transaction_def)
    qed
  qed
qed

lemma single_row_order_free:
  assumes "mset rows = mset rows'"
  shows "single_row rows = single_row rows'"
proof (cases "rows = []")
  case False
  have m: "length rows = length rows'" "set rows = set rows'"
    using mset_eq_length [OF assms] mset_eq_setD [OF assms] by auto
  have ne: "rows' \<noteq> []" using False m(1) by auto
  have h: "hd rows \<in> set rows" "hd rows' \<in> set rows" using hd_in_set [OF False] hd_in_set [OF ne] m(2) by simp_all
  have "(\<exists>row \<in> set rows. row \<noteq> hd rows) \<longleftrightarrow> (\<exists>row \<in> set rows. row \<noteq> hd rows')" using h by metis
  moreover have "hd rows = hd rows'" if "\<not> (\<exists>row \<in> set rows. row \<noteq> hd rows)" using that h by metis
  ultimately show ?thesis unfolding single_row_def Let_def m [symmetric] by simp
qed (use assms in simp)

lemma burn_transaction_order_free:
  assumes "mset rows = mset rows'"
  shows "burn_transaction faucet n rows = burn_transaction faucet n rows'"
proof -
  have "set rows = set rows'" by (rule mset_eq_setD [OF assms])
  then have ids: "claimed_tx_ids faucet n rows = claimed_tx_ids faucet n rows'" by (simp add: claimed_tx_ids_def)
  have "single_row (filter P rows) = single_row (filter P rows')" for P
    using assms by (intro single_row_order_free) simp
  then show ?thesis unfolding burn_transaction_by_ids [of _ _ rows] burn_transaction_by_ids [of _ _ rows'] ids by simp
qed

lemma burn_transaction_Inr:
  "burn_transaction faucet n rows = Inr tx \<longleftrightarrow>
     tx \<in> set rows \<and> consumes faucet n tx \<and>
     (\<forall>row \<in> set rows. consumes faucet n row \<or> tr_transaction_id row = tr_transaction_id tx \<longrightarrow> row = tx)"
    (is "?found \<longleftrightarrow> ?only")
proof
  let ?ids = "claimed_tx_ids faucet n rows"
  assume ?found
  then have card: "card ?ids = 1" and row: "single_row (filter (\<lambda>t. tr_transaction_id t = the_elem ?ids) rows) = Inr tx"
    unfolding burn_transaction_by_ids by (auto split: if_splits)
  obtain i where i: "?ids = {i}" using card card_1_singletonE by blast
  define same where "same = filter (\<lambda>t. tr_transaction_id t = i) rows"
  have same: "\<forall>row \<in> set same. row = tx" using row i by (auto simp: single_row_def Let_def same_def split: if_splits)
  obtain c where c: "c \<in> set rows" "consumes faucet n c" "tr_transaction_id c = i"
    using i unfolding claimed_tx_ids_def by (metis (mono_tags, lifting) image_iff insertI1 mem_Collect_eq)
  have all: "tr_transaction_id row = i" if "row \<in> set rows" "consumes faucet n row" for row
    using that i unfolding claimed_tx_ids_def by (metis (mono_tags, lifting) image_eqI mem_Collect_eq singletonD)
  have "c = tx" using same c by (simp add: same_def)
  then show ?only using c same all by (auto simp: same_def)
next
  assume o: ?only
  then have i: "claimed_tx_ids faucet n rows = {tr_transaction_id tx}" by (auto simp: claimed_tx_ids_def)
  define same where "same = filter (\<lambda>t. tr_transaction_id t = tr_transaction_id tx) rows"
  have "\<forall>row \<in> set same. row = tx" "tx \<in> set same" using o by (auto simp: same_def)
  then have "single_row same = Inr tx" by (cases same) (auto simp: single_row_def)
  then show ?found unfolding burn_transaction_by_ids by (simp add: i same_def)
qed

section \<open>What a package says\<close>

text \<open>
  The evidence as a statement about the node's answers, without the order of the reads or of the rows:
  the note is public, its nullifier was spent after the note's block, and the faucet's rows tell one
  story, in which one transaction consumed the note in that block.
\<close>

definition evidenced ::
  "(b256 \<Rightarrow> string) \<Rightarrow> evidence_reads \<Rightarrow> note_id \<Rightarrow> account_id \<Rightarrow> evidence_package \<Rightarrow> bool" where
  "evidenced tx_hex port n faucet p \<longleftrightarrow>
     (\<exists>details block rows tx.
        er_note_by_id port n = Inr \<lparr>nr_note_id = n, nr_details = Some details\<rparr> \<and>
        er_nullifier_status port (pu_nullifier details) =
          Inr \<lparr>nu_nullifier = pu_nullifier details, nu_spent_in_block = Some block\<rparr> \<and>
        er_faucet_transactions port faucet = Inr rows \<and>
        ip_block_num (pu_inclusion_proof details) < block \<and>
        tx \<in> set rows \<and> consumes faucet (pu_nullifier details) tx \<and> tr_block_num tx = block \<and>
        (\<forall>row \<in> set rows. consumes faucet (pu_nullifier details) row \<or> tr_transaction_id row = tr_transaction_id tx
           \<longrightarrow> row = tx) \<and>
        p = \<lparr>ep_burn_tx_id = tx_hex (tr_transaction_id tx), ep_note_id = be_bytes 32 n,
             ep_nullifier = be_bytes 32 (pu_nullifier details),
             ep_block_num = ip_block_num (pu_inclusion_proof details)\<rparr>)"

lemma read_port_Inr [outcome_simps]: "read_port r = Inr v \<longleftrightarrow> r = Inr v"
  by (cases r) (auto simp: read_port_def)

lemma link_spend_Inr:
  "link_spend tx_hex n faucet details block rows = Inr p \<longleftrightarrow>
     (\<exists>tx. burn_transaction faucet (pu_nullifier details) rows = Inr tx \<and> tr_block_num tx = block \<and>
        p = \<lparr>ep_burn_tx_id = tx_hex (tr_transaction_id tx), ep_note_id = be_bytes 32 n,
             ep_nullifier = be_bytes 32 (pu_nullifier details),
             ep_block_num = ip_block_num (pu_inclusion_proof details)\<rparr>)"
  by (auto simp: link_spend_def split: sum.split)

lemma assemble_evidence_Inr:
  "assemble_evidence tx_hex port n faucet = Inr p \<longleftrightarrow>
     (\<exists>details block rows.
        er_note_by_id port n = Inr \<lparr>nr_note_id = n, nr_details = Some details\<rparr> \<and>
        er_nullifier_status port (pu_nullifier details) =
          Inr \<lparr>nu_nullifier = pu_nullifier details, nu_spent_in_block = Some block\<rparr> \<and>
        er_faucet_transactions port faucet = Inr rows \<and>
        ip_block_num (pu_inclusion_proof details) < block \<and>
        link_spend tx_hex n faucet details block rows = Inr p)" (is "?got \<longleftrightarrow> ?read")
proof
  assume ?got
  then obtain rec spend rows details block where
    "er_note_by_id port n = Inr rec" "nr_note_id rec = n" "nr_details rec = Some details"
    "er_nullifier_status port (pu_nullifier details) = Inr spend" "nu_nullifier spend = pu_nullifier details"
    "nu_spent_in_block spend = Some block" "er_faucet_transactions port faucet = Inr rows"
    "ip_block_num (pu_inclusion_proof details) < block" "link_spend tx_hex n faucet details block rows = Inr p"
    by (auto simp: assemble_evidence_def outcome_simps Let_def split: if_splits)
  then show ?read by (intro exI [of _ details] exI [of _ block] exI [of _ rows]) (cases rec, cases spend, simp)
qed (auto simp: assemble_evidence_def read_port_def)

lemma evidence_sound: "assemble_evidence tx_hex port n faucet = Inr p \<Longrightarrow> evidenced tx_hex port n faucet p"
  unfolding assemble_evidence_Inr link_spend_Inr burn_transaction_Inr evidenced_def by blast

lemma evidence_complete: "evidenced tx_hex port n faucet p \<Longrightarrow> assemble_evidence tx_hex port n faucet = Inr p"
  unfolding assemble_evidence_Inr link_spend_Inr burn_transaction_Inr evidenced_def by blast

text \<open>
  C13: The evidence assembler, which reads the note, its spend and the faucet's transactions one after
  the other and stops at the first doubt, returns a package exactly when the node's answers, taken
  together, evidence the burn: the note is the one asked for and public, its nullifier is reported spent
  in a later block than the one that created it, and there is one row that consumed it, in that block,
  such that every row that consumed it or carries the same transaction ID is that row. The package then
  carries that row's ID, the note and the block of the inclusion proof.
\<close>

theorem evidence_iff_evidenced:
  "assemble_evidence tx_hex port n faucet = Inr p \<longleftrightarrow> evidenced tx_hex port n faucet p"
  using evidence_sound evidence_complete by blast

text \<open>
  C31: Two nodes that report the same rows of the faucet's transactions in different orders, and answer
  alike otherwise, lead to the same result, be it a package or the same refusal: the outcome on the path
  that releases money does not depend on row order.
\<close>

theorem evidence_order_free:
  assumes "er_faucet_transactions port faucet = Inr rows" and "mset rows' = mset rows"
  shows "assemble_evidence tx_hex (port\<lparr>er_faucet_transactions := (er_faucet_transactions port)(faucet := Inr rows')\<rparr>) n faucet =
    assemble_evidence tx_hex port n faucet"
proof -
  have "link_spend tx_hex n faucet details block rows' = link_spend tx_hex n faucet details block rows" for details block
    unfolding link_spend_def burn_transaction_order_free [OF assms(2)] ..
  then show ?thesis unfolding assemble_evidence_def using assms(1) by (simp add: read_port_def Let_def cong: if_cong)
qed

text \<open>A node whose stream holds the burn's creation, then its consumption twice.\<close>

definition evidence_row :: "b256 \<Rightarrow> nullifier list \<Rightarrow> block_number \<Rightarrow> transaction_record" where
  "evidence_row i ns b = \<lparr>tr_transaction_id = i, tr_account_id = 9, tr_block_num = b, tr_input_note_nullifiers = ns,
     tr_output_note_proofs = []\<rparr>"

definition sample_reads :: "transaction_record list \<Rightarrow> evidence_reads" where
  "sample_reads rows = \<lparr>er_note_by_id = (\<lambda>n. Inr \<lparr>nr_note_id = n, nr_details =
       Some \<lparr>pu_nullifier = 7, pu_inclusion_proof = \<lparr>ip_block_num = 3, ip_rest = []\<rparr>\<rparr>\<rparr>),
     er_faucet_transactions = (\<lambda>_. Inr rows),
     er_nullifier_status = (\<lambda>n. Inr \<lparr>nu_nullifier = n, nu_spent_in_block = Some 4\<rparr>)\<rparr>"

definition sample_rows :: "transaction_record list" where
  "sample_rows = [evidence_row 1 [] 3, evidence_row 2 [7] 4, evidence_row 2 [7] 4]"

theorem evidence_order_free_witness:
  "assemble_evidence (\<lambda>_. ''0x02'') ((sample_reads sample_rows)\<lparr>er_faucet_transactions :=
     (er_faucet_transactions (sample_reads sample_rows))(9 := Inr (rev sample_rows))\<rparr>) 5 9 =
   Inr \<lparr>ep_burn_tx_id = ''0x02'', ep_note_id = be_bytes 32 (5 :: note_id), ep_nullifier = be_bytes 32 (7 :: nullifier), ep_block_num = 3\<rparr>"
proof -
  have "er_faucet_transactions (sample_reads sample_rows) 9 = Inr sample_rows" by (simp add: sample_reads_def)
  note evidence_order_free [OF this, of "rev sample_rows" "\<lambda>_. ''0x02''" 5]
  then show ?thesis
    by (simp add: assemble_evidence_def sample_reads_def read_port_def Let_def link_spend_def burn_transaction_def
        sample_rows_def evidence_row_def consumes_def single_row_def)
qed

end
