(* ===== verification/Withdraw_Props.thy ===== *)
theory Withdraw_Props
  imports Withdraw_Submit
begin

text \<open>
  What the submission path of the withdrawal listener guarantees: which requests it sends and when it
  repeats one, and what the ledger says of every burn of a request afterwards.
\<close>

section \<open>Requests sent\<close>

definition is_post :: "submit_event \<Rightarrow> bool" where
  "is_post e = (case e of Exchanged (PostWithdraw _) _ \<Rightarrow> True | _ \<Rightarrow> False)"

definition posts :: "submit_event list \<Rightarrow> submit_event list" where
  "posts es = filter is_post es"

fun answered :: "(nat \<Rightarrow> bool) \<Rightarrow> submit_event \<Rightarrow> bool" where
  "answered P (Exchanged _ (Inr r)) \<longleftrightarrow> P (ra_status r)"
| "answered P _ \<longleftrightarrow> False"

lemma posts_append: "posts (xs @ ys) = posts xs @ posts ys"
  by (simp add: posts_def)

lemma circle_execute_effect:
  "circle_execute env call s = (v, t) \<Longrightarrow>
     t = s\<lparr>su_tick := su_tick s + 1, su_trace := su_trace s @ [Exchanged call v]\<rparr>"
  by (auto simp: circle_execute_def Let_def)

text \<open>A Circle call changes the trace and the tick only.\<close>

definition only_polls :: "submit_state \<Rightarrow> submit_state \<Rightarrow> bool" where
  "only_polls s t \<longleftrightarrow> su_ledger t = su_ledger s \<and> su_tick s \<le> su_tick t \<and>
     (\<exists>es. su_trace t = su_trace s @ es \<and> posts es = [])"

interpretation polling: run_order only_polls
proof
  show "only_polls s s" for s by (auto simp: only_polls_def posts_def)
  show "only_polls s t \<Longrightarrow> only_polls t u \<Longrightarrow> only_polls s u" for s t u
    unfolding only_polls_def by (auto simp: posts_append intro: order_trans)
qed

lemma decode_body_cases: "\<exists>e v. decode_body env read c body = raise e \<or> decode_body env read c body = ret v"
  by (auto simp: decode_body_def split: option.splits)

lemma moves_decode_body: "moves only_polls (decode_body env read c body)"
  using polling.moves_ret by (auto simp: decode_body_def split: option.splits)

lemma moves_build_request: "moves only_polls (build_request env path call)"
  using polling.moves_ret by (auto simp: build_request_def)

lemma moves_get: "moves only_polls (circle_execute env (GetWithdrawal w))"
  unfolding moves_def only_polls_def circle_execute_def Let_def by (auto simp: posts_def is_post_def)

lemma build_request_call: "build_request env path call s = (Inr c, t) \<Longrightarrow> c = call \<and> t = s"
  by (auto simp: build_request_def split: if_splits)

lemma moves_poll_once: "moves only_polls (poll_status_once env w)"
proof -
  have rest: "moves only_polls (\<lambda>s. bind_run (circle_execute env (GetWithdrawal w)) (\<lambda>response.
     if ra_status response = STATUS_WITHDRAWAL_OK then
       bind_run (decode_body env withdrawal_status_decode ''withdrawal-status'' (ra_body response)) (\<lambda>status.
       if ws_withdrawal_id status \<noteq> w then raise (WithdrawalIdMismatch w (ws_withdrawal_id status)) else ret status)
     else if ra_status response = STATUS_WITHDRAWAL_NOT_FOUND then raise (WithdrawalNotFound w)
     else raise (Http (ra_status response))) s)"
    by (intro polling.moves_bind moves_get) (auto intro!: polling.moves_bind moves_decode_body polling.moves_ret)
  show ?thesis
    unfolding poll_status_once_def build_request_def using rest polling.moves_ret by auto
qed

lemma moves_poll_status: "moves only_polls (poll_status env w)"
proof -
  have "moves only_polls (poll_attempts env w n)" for n
  proof (induction n)
    case 0
    show ?case using polling.moves_ret(2) [of "PollExhausted (se_poll_max_attempts env)"] by (simp add: moves_def)
  next
    case (Suc n)
    have "poll_attempts env w (Suc n) = bind_run (poll_status_once env w) (\<lambda>status.
       if status_is_retryable (ws_status status) then ret status
       else if ws_status status = StatusFinalized \<or> ws_status status = StatusFailed then ret status
       else poll_attempts env w n)" by (simp add: fun_eq_iff)
    then show ?case using Suc by (auto intro!: polling.moves_bind moves_poll_once polling.moves_ret)
  qed
  then show ?thesis by (simp add: poll_status_def)
qed

lemma collect_chunks_error: "collect_chunks limit seen body chunks \<noteq> Inl (Http n)"
  by (induction limit seen body chunks rule: collect_chunks.induct) (auto simp: Let_def)

text \<open>One attempt sends at most one request, and fails with status \<open>n\<close> only when Circle answered \<open>n\<close>.\<close>

lemma attempt_effect:
  assumes "attempt_withdraw env request s = (v, t)"
  obtains "t = s" "\<And>n. v \<noteq> Inl (Http n)" "\<And>a. v \<noteq> Inr a"
  | a where "t = s\<lparr>su_tick := su_tick s + 1, su_trace := su_trace s @ [Exchanged (PostWithdraw request) a]\<rparr>"
      "\<And>n. v = Inl (Http n) \<Longrightarrow> answered (\<lambda>m. m = n) (Exchanged (PostWithdraw request) a)"
proof -
  obtain b u where b: "build_request env PATH_WITHDRAW (PostWithdraw request) s = (b, u)" by fastforce
  show ?thesis
  proof (cases b)
    case (Inl e)
    have "u = s" "\<And>n. e \<noteq> Http n" using b Inl by (auto simp: build_request_def split: if_splits)
    moreover have "v = Inl e" "t = u" using assms b Inl by (simp_all add: attempt_withdraw_def bind_run_def)
    ultimately show ?thesis by (intro that(1)) auto
  next
    case (Inr c)
    then have u: "u = s" "c = PostWithdraw request" using build_request_call b by auto
    obtain a t1 where a: "circle_execute env (PostWithdraw request) s = (a, t1)" by fastforce
    note t1 = circle_execute_effect [OF a]
    show ?thesis
    proof (cases a)
      case (Inl e)
      then have "\<And>n. e \<noteq> Http n" using a
        by (auto simp: circle_execute_def Let_def reqwest_execute_def collect_bounded_def outcome_simps
            collect_chunks_error check_content_length_def split: option.splits if_splits)
      moreover have "v = Inl e" "t = t1"
        using assms b Inr a Inl u by (simp_all add: attempt_withdraw_def bind_run_def)
      ultimately show ?thesis using t1 by (intro that(2)) auto
    next
      case (Inr r)
      have "t = t1 \<and> (\<forall>n. v = Inl (Http n) \<longrightarrow> n = ra_status r)"
        using assms b \<open>b = Inr c\<close> u a Inr
        by (auto simp: attempt_withdraw_def bind_run_def decode_withdraw_created_def decode_body_def
            split: if_splits option.splits)
      then show ?thesis using that(2) [of a] t1 Inr by simp
    qed
  qed
qed

text \<open>
  What a sequence of attempts from number \<open>n\<close> on sends: every request is the same one, all but the
  last were answered with a server error, and a final \<^verbatim>\<open>400\<close> is the answer to the last.
\<close>

definition attempted :: "submit_env \<Rightarrow> withdraw_request \<Rightarrow> nat \<Rightarrow> bool \<Rightarrow> submit_event list \<Rightarrow> bool" where
  "attempted env request n refused es \<longleftrightarrow>
     (\<forall>e \<in> set (posts es). \<exists>a. e = Exchanged (PostWithdraw request) a) \<and>
     (posts es = [] \<or> length (posts es) + n \<le> max n (rp_max_attempts (se_retry env)) + 1) \<and>
     (\<forall>e \<in> set (butlast (posts es)). answered (\<lambda>m. 500 \<le> m \<and> m \<le> 599) e) \<and>
     (refused \<longrightarrow> posts es \<noteq> [] \<and> answered (\<lambda>m. m = 400) (last (posts es)))"

lemma backoff_effect:
  assumes "backoff_from (se_retry env) (attempt_withdraw env request) n s = (v, t)"
  shows "su_ledger t = su_ledger s \<and> su_tick s \<le> su_tick t \<and>
    (\<exists>es. su_trace t = su_trace s @ es \<and> attempted env request n (v = Inl (Http 400)) es)"
  using assms
proof (induction "rp_max_attempts (se_retry env) - n" arbitrary: n s rule: less_induct)
  case less
  obtain r u where r: "attempt_withdraw env request s = (r, u)" by fastforce
  let ?again = "\<lambda>e. is_retryable e \<and> n < rp_max_attempts (se_retry env)"
  consider "\<And>e. r = Inl e \<Longrightarrow> \<not> ?again e" | e where "r = Inl e" "?again e" by blast
  then show ?case
  proof cases
    case 1
    then have vt: "v = r" "t = u"
      using less.prems r by (auto simp: backoff_from.simps split: sum.splits)
    show ?thesis
      using r
    proof (cases rule: attempt_effect)
      case 1
      then show ?thesis using vt by (auto simp: attempted_def posts_def)
    next
      case (2 a)
      then show ?thesis using vt by (auto simp: attempted_def posts_def is_post_def)
    qed
  next
    case 2
    define u' where "u' = sleep (backoff_for (se_retry env) n) u"
    have rest: "backoff_from (se_retry env) (attempt_withdraw env request) (n + 1) u' = (v, t)"
      using less.prems r 2 by (subst (asm) backoff_from.simps) (simp add: u'_def)
    have "rp_max_attempts (se_retry env) - (n + 1) < rp_max_attempts (se_retry env) - n" using 2 by linarith
    from less.hyps [OF this rest] obtain es where IH: "su_ledger t = su_ledger u'" "su_tick u' \<le> su_tick t"
      "su_trace t = su_trace u' @ es" "attempted env request (n + 1) (v = Inl (Http 400)) es" by auto
    obtain m where m: "e = Http m" "500 \<le> m" "m \<le> 599" using 2 by (cases e) auto
    show ?thesis
      using r
    proof (cases rule: attempt_effect)
      case 1
      then show ?thesis using 2 m by auto
    next
      case (2 a)
      let ?es = "[Exchanged (PostWithdraw request) a, Slept (backoff_for (se_retry env) n)] @ es"
      have hit: "answered (\<lambda>k. k = m) (Exchanged (PostWithdraw request) a)" using 2 \<open>r = Inl e\<close> m by auto
      then have hit5: "answered (\<lambda>k. 500 \<le> k \<and> k \<le> 599) (Exchanged (PostWithdraw request) a)"
        using m by (cases a) auto
      have "attempted env request n (v = Inl (Http 400)) ?es"
        using IH(4) hit5 \<open>?again e\<close> unfolding attempted_def by (auto simp: posts_def is_post_def)
      then show ?thesis using IH 2(1) by (auto simp: u'_def sleep_def)
    qed
  qed
qed

section \<open>Recording outcomes\<close>

text \<open>After the claim, the other callers record outcomes for burns of their own requests only.\<close>

definition minds_own :: "submit_env \<Rightarrow> nat \<Rightarrow> string list \<Rightarrow> bool" where
  "minds_own env k0 keys \<longleftrightarrow>
     (\<forall>k > k0. \<forall>(fails, now, op) \<in> set (se_others env k). \<forall>key \<in> set keys. \<not> records_for op key)"

lemma others_hold:
  assumes "minds_own env k0 keys" and "k0 < su_tick s" and "key \<in> set keys" and "held key st w (su_ledger s)"
  shows "held key st w (snd (ledger_run (se_others env (su_tick s)) (su_ledger s)))"
proof (rule own.steps_inv [OF ledger_run_calls assms(4)])
  show "\<forall>(fails, now, op) \<in> set (se_others env (su_tick s)). \<not> records_for op key"
    using assms(1-3) unfolding minds_own_def by fastforce
qed

definition settle_one :: "submit_env \<Rightarrow> string \<times> ledger_status \<times> string option \<Rightarrow> submission_record submit_run" where
  "settle_one env = (\<lambda>(key, to, wid). ledger_tx env (\<lambda>f n. transition f n key to wid))"

definition bound_id :: "string option \<Rightarrow> string option \<Rightarrow> string option" where
  "bound_id wid old = (case wid of None \<Rightarrow> old | Some x \<Rightarrow> Some x)"

lemma settle_one_effect:
  assumes run: "settle_one env (key, to, wid) s = (v, t)" and own: "minds_own env k0 keys" "k0 < su_tick s"
    and key: "key \<in> set keys" "held key st w (su_ledger s)" and to: "to \<noteq> ledger_status.Failed"
  shows "su_trace t = su_trace s \<and> su_tick t = su_tick s + 1 \<and>
    (\<forall>k \<in> set keys. \<forall>st' w'. k \<noteq> key \<longrightarrow> held k st' w' (su_ledger s) \<longrightarrow> held k st' w' (su_ledger t)) \<and>
    (case v of Inl _ \<Rightarrow> held key st w (su_ledger t) | Inr _ \<Rightarrow> held key to (bound_id wid w) (su_ledger t))"
proof -
  define u where "u = snd (ledger_run (se_others env (su_tick s)) (su_ledger s))"
  have keep: "held k st w' u" if "k \<in> set keys" "held k st w' (su_ledger s)" for k st w'
    unfolding u_def by (rule others_hold [OF own that])
  obtain r u' where r: "transition (se_sql_fails env (su_tick s)) (se_now env (su_tick s)) key to wid u = (r, u')"
    by fastforce
  have t: "t = s\<lparr>su_ledger := u', su_tick := su_tick s + 1\<rparr>" and v: "(\<exists>e. v = Inl e) \<longleftrightarrow> (\<exists>e. r = Inl e)"
    using run r by (auto simp: settle_one_def ledger_tx_def Let_def u_def split: sum.splits)
  have "held k st w' u'" if "k \<in> set keys" "held k st w' (su_ledger s)" "k \<noteq> key" for k st w'
    using transition_elsewhere [OF r keep [OF that(1,2)] that(3)] .
  moreover have "case r of Inl _ \<Rightarrow> held key st w u' | Inr _ \<Rightarrow> held key to (bound_id wid w) u'"
    using transition_effect [OF r] keep [OF key] to by (cases r) (auto simp: held_def bound_id_def)
  ultimately show ?thesis using t v by (cases v; cases r) auto
qed

text \<open>A run of records for distinct burns that are all pending.\<close>

lemma settle_plan:
  assumes "for_each (settle_one env) plan s = (v, t)" and own: "minds_own env k0 keys" and "k0 < su_tick s"
    and "distinct (map fst plan)" and "set (map fst plan) \<subseteq> set keys"
    and "\<forall>(key, to, wid) \<in> set plan. to \<noteq> ledger_status.Failed \<and> held key Pending (w key) (su_ledger s)"
  shows "su_trace t = su_trace s \<and> su_tick s \<le> su_tick t \<and>
    (\<forall>k \<in> set keys - set (map fst plan). \<forall>st w'. held k st w' (su_ledger s) \<longrightarrow> held k st w' (su_ledger t)) \<and>
    (\<forall>k \<in> set (map fst plan). \<exists>st w'. held k st w' (su_ledger t)) \<and>
    (v = Inr () \<longrightarrow> (\<forall>(key, to, wid) \<in> set plan. held key to (bound_id wid (w key)) (su_ledger t)))"
  using assms(1,3-6)
proof (induction plan arbitrary: s)
  case (Cons p plan)
  obtain key to wid where p: "p = (key, to, wid)" by (cases p) auto
  obtain r u where r: "settle_one env (key, to, wid) s = (r, u)" by fastforce
  have pend: "to \<noteq> ledger_status.Failed" "held key Pending (w key) (su_ledger s)" using Cons.prems(5) p by auto
  have kk: "key \<in> set keys" and fresh: "key \<notin> set (map fst plan)" using Cons.prems(3,4) p by auto
  note step = settle_one_effect [OF r own Cons.prems(2) kk pend(2,1)]
  show ?case
  proof (cases r)
    case (Inl e)
    then have vt: "v = Inl e" "t = u" using Cons.prems(1) p r by (simp_all add: bind_run_def)
    have "\<exists>st w'. held k st w' (su_ledger u)" if kin: "k \<in> set (map fst (p # plan))" for k
    proof (cases "k = key")
      case True
      then show ?thesis using step Inl by auto
    next
      case False
      then obtain to' wid' where "(k, to', wid') \<in> set plan" using kin p by auto
      then have "held k Pending (w k) (su_ledger s)" "k \<in> set keys" using Cons.prems(4,5) by fastforce+
      then show ?thesis using step False by blast
    qed
    then show ?thesis using step vt p by auto
  next
    case (Inr rec)
    then have rest: "for_each (settle_one env) plan u = (v, t)"
      using Cons.prems(1) p r by (simp add: bind_run_def)
    have later: "\<forall>(k, to', wid') \<in> set plan. to' \<noteq> ledger_status.Failed \<and> held k Pending (w k) (su_ledger u)"
    proof clarify
      fix k to' wid'
      assume q: "(k, to', wid') \<in> set plan"
      then have "k \<noteq> key" "k \<in> set keys" using fresh Cons.prems(4) by force+
      then show "to' \<noteq> ledger_status.Failed \<and> held k Pending (w k) (su_ledger u)"
        using step Cons.prems(5) q by auto
    qed
    have "k0 < su_tick u" "distinct (map fst plan)" "set (map fst plan) \<subseteq> set keys"
      using step Cons.prems(2,3,4) p by auto
    from Cons.IH [OF rest this later]
    have IH: "su_trace t = su_trace u" "su_tick u \<le> su_tick t"
      "\<forall>k \<in> set keys - set (map fst plan). \<forall>st w'. held k st w' (su_ledger u) \<longrightarrow> held k st w' (su_ledger t)"
      "\<forall>k \<in> set (map fst plan). \<exists>st w'. held k st w' (su_ledger t)"
      "v = Inr () \<longrightarrow> (\<forall>(key, to, wid) \<in> set plan. held key to (bound_id wid (w key)) (su_ledger t))" by blast+
    have here: "held key to (bound_id wid (w key)) (su_ledger t)"
      using IH(3) step Inr kk fresh by auto
    show ?thesis using IH step here p by auto
  qed
qed auto

text \<open>The loops of the code are such runs.\<close>

lemma for_each_map: "for_each f (map g xs) = for_each (\<lambda>x. f (g x)) xs"
  by (induction xs) simp_all

lemma bind_run_assoc: "bind_run (bind_run m f) g = bind_run m (\<lambda>v. bind_run (f v) g)"
  by (auto simp: bind_run_def fun_eq_iff split: prod.splits sum.splits)

lemma for_each_when:
  "for_each (\<lambda>x. if P x then bind_run (f x) (\<lambda>_. ret ()) else ret ()) xs = for_each f (filter P xs)"
  by (induction xs) (simp_all add: bind_run_assoc)

definition block_plan :: "string list \<Rightarrow> (string \<times> ledger_status \<times> string option) list" where
  "block_plan keys = map (\<lambda>k. (k, ReconciliationRequired, None)) keys"

definition others_of :: "string list \<Rightarrow> nat \<Rightarrow> string list" where
  "others_of keys at = map snd (filter (\<lambda>(i, k). i \<noteq> at) (enumerate 0 keys))"

lemma mark_all_plan: "mark_all_reconciliation env keys = for_each (settle_one env) (block_plan keys)"
  by (simp add: mark_all_reconciliation_def block_plan_def for_each_map settle_one_def record_defs)

lemma block_others_plan: "block_others env keys at = for_each (settle_one env) (block_plan (others_of keys at))"
  unfolding block_others_def block_plan_def others_of_def for_each_map
  using for_each_when [of "\<lambda>(i, key). i \<noteq> at" "\<lambda>(i, key). settle_one env (key, ReconciliationRequired, None)"]
  by (simp add: settle_one_def record_defs case_prod_unfold cong: if_cong)

lemma settle_then: "bind_run (settle_one env p) (\<lambda>_. for_each (settle_one env) ps) = for_each (settle_one env) (p # ps)"
  by simp

lemma others_of_nth: "others_of keys at = map ((!) keys) (filter (\<lambda>i. i \<noteq> at) [0..<length keys])"
proof -
  have "enumerate 0 keys = map (\<lambda>i. (i, keys ! i)) [0..<length keys]"
    by (rule nth_equalityI) (simp_all add: nth_enumerate_eq)
  then show ?thesis by (simp add: others_of_def filter_map comp_def)
qed

lemma set_others_of: "set (others_of keys at) = {keys ! j |j. j < length keys \<and> j \<noteq> at}"
  by (auto simp: others_of_nth)

lemma others_of_distinct:
  assumes "distinct keys" and "at < length keys"
  shows "distinct (keys ! at # others_of keys at)" and "set (keys ! at # others_of keys at) = set keys"
proof -
  have "inj_on ((!) keys) {..<length keys}" using assms(1) by (simp add: inj_on_nth)
  then have "inj_on ((!) keys) (set (filter (\<lambda>i. i \<noteq> at) [0..<length keys]))" by (rule inj_on_subset) auto
  then have "distinct (others_of keys at)" by (simp add: others_of_nth distinct_map)
  moreover have "keys ! at \<notin> set (others_of keys at)"
    using assms by (auto simp: set_others_of nth_eq_iff_index_eq)
  ultimately show "distinct (keys ! at # others_of keys at)" by simp
  show "set (keys ! at # others_of keys at) = set keys"
    using assms(2) by (auto simp: set_others_of in_set_conv_nth)
qed

section \<open>After the claim\<close>

text \<open>The state after a claim: every burn of the request is pending, with the withdrawal ID \<open>w\<close> it had.\<close>

definition claimed :: "submit_env \<Rightarrow> string list \<Rightarrow> (string \<Rightarrow> string option) \<Rightarrow> submit_state \<Rightarrow> bool" where
  "claimed env keys w s \<longleftrightarrow> distinct keys \<and> (\<forall>k \<in> set keys. held k Pending (w k) (su_ledger s)) \<and>
     (\<exists>k0 < su_tick s. minds_own env k0 keys)"

text \<open>No burn of the request can be claimed again.\<close>

definition all_held :: "string list \<Rightarrow> submit_state \<Rightarrow> bool" where
  "all_held keys s \<longleftrightarrow> (\<forall>k \<in> set keys. \<exists>st w. held k st w (su_ledger s))"

lemma claimed_all_held: "claimed env keys w s \<Longrightarrow> all_held keys s"
  by (auto simp: claimed_def all_held_def)

lemma only_polls_claimed: "only_polls s t \<Longrightarrow> claimed env keys w s \<Longrightarrow> claimed env keys w t"
  unfolding only_polls_def claimed_def by (auto intro: less_le_trans)

lemma run_plan:
  assumes "claimed env keys w s" and "for_each (settle_one env) plan s = (v, t)"
    and "distinct (map fst plan)" and "set (map fst plan) = set keys"
    and "\<forall>(key, to, wid) \<in> set plan. to \<noteq> ledger_status.Failed"
  shows "su_trace t = su_trace s" and "all_held keys t"
    and "v = Inr () \<Longrightarrow> (key, to, wid) \<in> set plan \<Longrightarrow> held key to (bound_id wid (w key)) (su_ledger t)"
proof -
  obtain k0 where k0: "k0 < su_tick s" "minds_own env k0 keys" using assms(1) by (auto simp: claimed_def)
  have pend: "\<forall>(key, to, wid) \<in> set plan. to \<noteq> ledger_status.Failed \<and> held key Pending (w key) (su_ledger s)"
  proof clarify
    fix key to wid
    assume p: "(key, to, wid) \<in> set plan"
    then have "key \<in> set keys" using assms(4) by force
    then show "to \<noteq> ledger_status.Failed \<and> held key Pending (w key) (su_ledger s)"
      using p assms(1,5) by (auto simp: claimed_def)
  qed
  note eff = settle_plan [OF assms(2) k0(2,1) assms(3) eq_refl [OF assms(4)] pend]
  show "su_trace t = su_trace s" using eff by blast
  show "all_held keys t" using eff assms(4) unfolding all_held_def by blast
  show "v = Inr () \<Longrightarrow> (key, to, wid) \<in> set plan \<Longrightarrow> held key to (bound_id wid (w key)) (su_ledger t)"
    using eff by auto
qed

text \<open>
  What an outcome says of the ledger. A withdrawal ID is attached to a burn only where Circle named it
  for that burn; every other burn keeps the ID it had.
\<close>

fun accounts_for :: "string list \<Rightarrow> (string \<Rightarrow> string option) \<Rightarrow> submit_outcome \<Rightarrow> ledger \<Rightarrow> bool" where
  "accounts_for keys w (OutcomeSubmitted statuses) t \<longleftrightarrow>
     (\<forall>k \<in> set keys. \<exists>st \<in> set statuses. burn_key_new (ws_burn_tx_id st) = k \<and>
        held k ledger_status.Submitted (Some (ws_withdrawal_id st)) t)"
| "accounts_for keys w (OutcomeConflictRecovered wid st) t \<longleftrightarrow>
     ws_withdrawal_id st = wid \<and> burn_key_new (ws_burn_tx_id st) \<in> set keys \<and>
     (\<forall>k \<in> set keys.
        if k = burn_key_new (ws_burn_tx_id st)
        then held k (if ws_status st = StatusFinalized then ledger_status.Finalized else ReconciliationRequired)
               (Some wid) t
        else held k ReconciliationRequired (w k) t)"
| "accounts_for keys w (OutcomeReconciliationRequired burn) t \<longleftrightarrow>
     burn_key_new burn \<in> set keys \<and> (\<forall>k \<in> set keys. held k ReconciliationRequired (w k) t)"
| "accounts_for keys w (OutcomeConflictEchoMismatch burns echoed) t \<longleftrightarrow>
     (\<forall>k \<in> set keys. \<exists>w'. held k ReconciliationRequired w' t)"
| "accounts_for keys w (OutcomeAlreadySubmitted burn st) t \<longleftrightarrow> False"

lemma same_burn: "eq_ignore_ascii_case a b \<longleftrightarrow> burn_key_new a = burn_key_new b"
  by (simp add: eq_ignore_ascii_case_def burn_key_new_def)

lemma position_of_Some:
  "position_of burns e = Some i \<Longrightarrow> i < length burns \<and> burn_key_new (burns ! i) = burn_key_new e"
  by (induction burns arbitrary: i) (auto simp: same_burn split: if_splits)

lemma pair_statuses_Inr:
  "pair_statuses burns sts = Inr ps \<Longrightarrow>
     list_all2 (\<lambda>b st. st \<in> set sts \<and> burn_key_new (ws_burn_tx_id st) = burn_key_new b) burns ps"
  by (induction burns arbitrary: ps)
    (auto simp: outcome_simps same_burn list_all2_Cons1 split: option.splits dest: find_Some_mem)

lemma block_plan_mem: "(key, to, wid) \<in> set (block_plan ks) \<longleftrightarrow> key \<in> set ks \<and> to = ReconciliationRequired \<and> wid = None"
  by (auto simp: block_plan_def)

lemma block_plan_blocks: "\<forall>(key, to, wid) \<in> set (block_plan ks). to \<noteq> ledger_status.Failed"
  by (auto simp: block_plan_def)

lemma keys_block_plan: "map fst (block_plan ks) = ks"
  by (simp add: block_plan_def comp_def)

text \<open>Blocking every burn, and blocking every burn with an ID for one of them.\<close>

lemma mark_all_effect:
  assumes "claimed env keys w s" and "mark_all_reconciliation env keys s = (v, t)"
  shows "su_trace t = su_trace s" and "all_held keys t"
    and "v = Inr () \<Longrightarrow> k \<in> set keys \<Longrightarrow> held k ReconciliationRequired (w k) (su_ledger t)"
proof -
  have d: "distinct keys" using assms(1) by (simp add: claimed_def)
  note run = run_plan [OF assms(1) assms(2) [unfolded mark_all_plan], unfolded keys_block_plan, OF d refl block_plan_blocks]
  show "su_trace t = su_trace s" "all_held keys t" by (rule run(1), rule run(2))
  show "v = Inr () \<Longrightarrow> k \<in> set keys \<Longrightarrow> held k ReconciliationRequired (w k) (su_ledger t)"
    using run(3) [of k ReconciliationRequired None] by (auto simp: block_plan_mem bound_id_def)
qed

lemma settle_at_effect:
  assumes "claimed env keys w s" and "i < length keys" and "to \<noteq> ledger_status.Failed"
    and "bind_run (settle_one env (keys ! i, to, Some wid)) (\<lambda>_. block_others env keys i) s = (v, t)"
  shows "su_trace t = su_trace s" and "all_held keys t"
    and "v = Inr () \<Longrightarrow> k \<in> set keys \<Longrightarrow>
      if k = keys ! i then held k to (Some wid) (su_ledger t) else held k ReconciliationRequired (w k) (su_ledger t)"
proof -
  have d: "distinct keys" using assms(1) by (simp add: claimed_def)
  note others = others_of_distinct [OF d assms(2)]
  let ?plan = "(keys ! i, to, Some wid) # block_plan (others_of keys i)"
  have keys: "map fst ?plan = keys ! i # others_of keys i" by (simp add: keys_block_plan)
  have plan: "for_each (settle_one env) ?plan s = (v, t)"
    using assms(4) unfolding block_others_plan settle_then .
  have blocks: "\<forall>(key, to, wid) \<in> set ?plan. to \<noteq> ledger_status.Failed"
    using assms(3) block_plan_blocks by auto
  note run = run_plan [OF assms(1) plan, unfolded keys, OF others blocks]
  show "su_trace t = su_trace s" "all_held keys t" by (rule run(1), rule run(2))
  show "if k = keys ! i then held k to (Some wid) (su_ledger t) else held k ReconciliationRequired (w k) (su_ledger t)"
    if "v = Inr ()" "k \<in> set keys"
  proof (cases "k = keys ! i")
    case True
    then show ?thesis using run(3) [of k to "Some wid"] that by (simp add: bound_id_def)
  next
    case False
    then have "k \<in> set (others_of keys i)" using others(2) that(2) by auto
    then show ?thesis using run(3) [of k ReconciliationRequired None] that False
      by (auto simp: block_plan_mem bound_id_def)
  qed
qed

text \<open>Each way of settling sends no further submission and leaves every burn accounted for.\<close>

definition settled :: "string list \<Rightarrow> (string \<Rightarrow> string option) \<Rightarrow> submit_state \<Rightarrow> withdraw_submit_error + submit_outcome \<Rightarrow> submit_state \<Rightarrow> bool" where
  "settled keys w s v t \<longleftrightarrow> (\<exists>es. su_trace t = su_trace s @ es \<and> posts es = []) \<and> all_held keys t \<and>
     (\<forall>out. v = Inr out \<longrightarrow> accounts_for keys w out (su_ledger t))"

lemma settled_same_trace:
  "su_trace t = su_trace s \<Longrightarrow> all_held keys t \<Longrightarrow> (\<And>out. v = Inr out \<Longrightarrow> accounts_for keys w out (su_ledger t)) \<Longrightarrow>
     settled keys w s v t"
  by (auto simp: settled_def posts_def)

lemma mark_all_settled:
  assumes "claimed env keys w s"
    and "bind_run (mark_all_reconciliation env keys) (\<lambda>_. ret out) s = (v, t)"
    and "\<And>t. (\<And>k. k \<in> set keys \<Longrightarrow> held k ReconciliationRequired (w k) t) \<Longrightarrow> accounts_for keys w out t"
  shows "settled keys w s v t"
proof -
  obtain r u where r: "mark_all_reconciliation env keys s = (r, u)" by fastforce
  note eff = mark_all_effect [OF assms(1) r]
  have "t = u" "\<And>o'. v = Inr o' \<Longrightarrow> o' = out \<and> r = Inr ()"
    using assms(2) r by (cases r; simp add: bind_run_def)+
  then show ?thesis using eff assms(3) by (auto intro!: settled_same_trace)
qed

lemma settle_created_settled:
  assumes cl: "claimed env keys w s" and keys: "keys = map burn_key_new burns"
    and run: "settle_created env keys burns sts s = (v, t)"
  shows "settled keys w s v t"
proof (cases "find (\<lambda>st. \<not> echoes_one_of burns (ws_burn_tx_id st)) sts")
  case (Some st)
  have "accounts_for keys w (OutcomeConflictEchoMismatch burns (ws_burn_tx_id st)) t"
    if "\<And>k. k \<in> set keys \<Longrightarrow> held k ReconciliationRequired (w k) t" for t using that by auto
  then show ?thesis using mark_all_settled [OF cl] run Some by (simp add: settle_created_def)
next
  case None
  show ?thesis
  proof (cases "pair_statuses burns sts")
    case (Inl burn)
    have "accounts_for keys w (OutcomeConflictEchoMismatch burns burn) t"
      if "\<And>k. k \<in> set keys \<Longrightarrow> held k ReconciliationRequired (w k) t" for t using that by auto
    then show ?thesis using mark_all_settled [OF cl] run None Inl by (simp add: settle_created_def)
  next
    case (Inr ps)
    note pairs = pair_statuses_Inr [OF Inr]
    define plan where "plan = map (\<lambda>(key, st). (key, ledger_status.Submitted, Some (ws_withdrawal_id st))) (zip keys ps)"
    have len: "length keys = length ps" using pairs keys by (simp add: list_all2_lengthD)
    have fsts: "map fst plan = keys" using len by (simp add: plan_def comp_def case_prod_unfold)
    obtain r u where r: "for_each (settle_one env) plan s = (r, u)" by fastforce
    have "for_each (settle_one env) plan = for_each (\<lambda>(key, st).
        ledger_tx env (\<lambda>f n. record_submission f n key (Some (ws_withdrawal_id st)))) (zip keys ps)"
      by (simp add: plan_def for_each_map settle_one_def record_defs case_prod_unfold)
    then have vt: "t = u" "\<And>o'. v = Inr o' \<Longrightarrow> o' = OutcomeSubmitted sts \<and> r = Inr ()"
      using run None Inr r by (cases r; simp add: settle_created_def bind_run_def)+
    have d: "distinct keys" using cl by (simp add: claimed_def)
    have nf: "\<forall>(key, to, wid) \<in> set plan. to \<noteq> ledger_status.Failed" by (auto simp: plan_def)
    note plan_run = run_plan [OF cl r, unfolded fsts, OF d refl nf]
    have "accounts_for keys w (OutcomeSubmitted sts) (su_ledger u)" if ok: "r = Inr ()"
    proof -
      have "\<exists>st \<in> set sts. burn_key_new (ws_burn_tx_id st) = k \<and>
          held k ledger_status.Submitted (Some (ws_withdrawal_id st)) (su_ledger u)" if "k \<in> set keys" for k
      proof -
        obtain i where i: "i < length keys" "k = keys ! i" using \<open>k \<in> set keys\<close> by (auto simp: in_set_conv_nth)
        then have "ps ! i \<in> set sts" "burn_key_new (ws_burn_tx_id (ps ! i)) = k"
          using pairs keys by (auto simp: list_all2_conv_all_nth)
        moreover have "(k, ledger_status.Submitted, Some (ws_withdrawal_id (ps ! i))) \<in> set plan"
          using i len by (force simp: plan_def set_zip)
        ultimately show ?thesis
          using plan_run(3) [OF ok, of k ledger_status.Submitted "Some (ws_withdrawal_id (ps ! i))"]
          by (auto simp: bound_id_def)
      qed
      then show ?thesis by simp
    qed
    then show ?thesis using vt plan_run(1,2) by (auto intro!: settled_same_trace)
  qed
qed

lemma poll_status_id:
  assumes "poll_status env w s = (Inr st, t)"
  shows "ws_withdrawal_id st = w"
proof -
  have once: "ws_withdrawal_id st = w" if "poll_status_once env w s = (Inr st, t)" for s st t
    using that by (auto simp: poll_status_once_def bind_run_def split: prod.splits sum.splits if_splits)
  have "poll_attempts env w n s = (Inr st, t) \<Longrightarrow> ws_withdrawal_id st = w" for n s
    by (induction n arbitrary: s) (auto simp: bind_run_def split: prod.splits sum.splits if_splits dest: once)
  then show ?thesis using assms by (simp add: poll_status_def)
qed

lemma recover_conflict_settled:
  assumes cl: "claimed env keys w s" and keys: "keys = map burn_key_new burns"
    and run: "recover_conflict env keys burns c s = (v, t)"
  shows "settled keys w s v t"
proof (cases "position_of burns (wc_burn_tx_id c)")
  case None
  have "accounts_for keys w (OutcomeConflictEchoMismatch burns (wc_burn_tx_id c)) t"
    if "\<And>k. k \<in> set keys \<Longrightarrow> held k ReconciliationRequired (w k) t" for t using that by auto
  then show ?thesis using mark_all_settled [OF cl] run None by (simp add: recover_conflict_def Let_def)
next
  case (Some i)
  note at = position_of_Some [OF Some]
  have i: "i < length keys" "keys ! i = burn_key_new (wc_burn_tx_id c)" using at keys by auto
  show ?thesis
  proof (cases "wc_withdrawal_id c")
    case None
    have "burn_key_new (wc_burn_tx_id c) \<in> set keys" using i by (metis nth_mem)
    then show ?thesis
      using mark_all_settled [OF cl, of "OutcomeReconciliationRequired (wc_burn_tx_id c)"] run Some None
      by (simp add: recover_conflict_def Let_def)
  next
    case (Some wid)
    obtain p u where p: "poll_status env wid s = (p, u)" by fastforce
    have "only_polls s u" using moves_poll_status p unfolding moves_def by (metis snd_conv)
    then have u: "claimed env keys w u" "\<exists>es. su_trace u = su_trace s @ es \<and> posts es = []"
      using only_polls_claimed [OF _ cl] by (auto simp: only_polls_def)
    define to where "to = (case p of
        Inr st \<Rightarrow> if eq_ignore_ascii_case (ws_burn_tx_id st) (burns ! i) \<and> ws_status st = StatusFinalized
          then ledger_status.Finalized else ReconciliationRequired
      | Inl _ \<Rightarrow> ReconciliationRequired)"
    obtain r u2 where r: "bind_run (settle_one env (keys ! i, to, Some wid)) (\<lambda>_. block_others env keys i) u = (r, u2)"
      by fastforce
    have to: "to \<noteq> ledger_status.Failed" by (auto simp: to_def split: sum.splits)
    note eff = settle_at_effect [OF u(1) i(1) to r]
    have t: "t = u2" and out: "\<And>out. v = Inr out \<Longrightarrow> r = Inr () \<and> (\<exists>st. p = Inr st \<and>
        out = (if eq_ignore_ascii_case (ws_burn_tx_id st) (burns ! i) then OutcomeConflictRecovered wid st
               else OutcomeConflictEchoMismatch burns (ws_burn_tx_id st)))"
      using run p r \<open>position_of burns _ = Some i\<close> Some
      by (auto simp: recover_conflict_def Let_def block_binding_id_to_def to_def settle_one_def record_defs bind_run_def
          split: sum.splits prod.splits if_splits)
    have "accounts_for keys w out (su_ledger u2)" if v: "v = Inr out" for out
    proof -
      obtain st where st: "p = Inr st" and ok: "r = Inr ()"
        and o': "out = (if eq_ignore_ascii_case (ws_burn_tx_id st) (burns ! i) then OutcomeConflictRecovered wid st
               else OutcomeConflictEchoMismatch burns (ws_burn_tx_id st))" using out [OF v] by blast
      show ?thesis
      proof (cases "eq_ignore_ascii_case (ws_burn_tx_id st) (burns ! i)")
        case True
        then have "burn_key_new (ws_burn_tx_id st) = keys ! i" using keys at by (simp add: same_burn)
        moreover have "to = (if ws_status st = StatusFinalized then ledger_status.Finalized else ReconciliationRequired)"
          using True st by (simp add: to_def)
        moreover have "ws_withdrawal_id st = wid" using poll_status_id p st by simp
        moreover have "held (keys ! i) to (Some wid) (su_ledger u2)" using eff(3) [OF ok, of "keys ! i"] i(1) by simp
        moreover have "held k ReconciliationRequired (w k) (su_ledger u2)" if "k \<in> set keys" "k \<noteq> keys ! i" for k
          using eff(3) [OF ok, of k] that by simp
        ultimately show ?thesis using o' True i(1) by (simp split: if_splits)
      next
        case False
        then have "to = ReconciliationRequired" using st by (simp add: to_def)
        then have "\<exists>w'. held k ReconciliationRequired w' (su_ledger u2)" if "k \<in> set keys" for k
          using eff(3) [OF ok that] by (cases "k = keys ! i") auto
        then show ?thesis using o' False by simp
      qed
    qed
    then show ?thesis using t eff(1,2) u(2) by (auto simp: settled_def)
  qed
qed

lemma for_each_trace:
  assumes "\<And>x s v t. f x s = (v, t) \<Longrightarrow> su_trace t = su_trace s"
  shows "for_each f xs s = (v, t) \<Longrightarrow> su_trace t = su_trace s"
  by (induction xs arbitrary: s) (auto simp: bind_run_def dest: assms split: prod.splits sum.splits)

lemma ledger_tx_trace: "ledger_tx env tx s = (v, t) \<Longrightarrow> su_trace t = su_trace s"
  by (auto simp: ledger_tx_def Let_def split: prod.splits sum.splits)

lemma attempted_quiet: "posts es' = [] \<Longrightarrow> attempted env request n r (es @ es') \<longleftrightarrow> attempted env request n r es"
  by (simp add: attempted_def posts_append)

lemma attempted_weaken: "attempted env request n r es \<Longrightarrow> attempted env request n False es"
  by (simp add: attempted_def)

lemma post_and_settle_effect:
  assumes cl: "claimed env keys w s" and keys: "keys = map burn_key_new burns"
    and run: "post_and_settle env request keys burns s = (v, t)"
  shows "\<exists>es r. su_trace t = su_trace s @ es \<and> attempted env request 1 r es \<and> (r \<or> all_held keys t) \<and>
    (\<forall>out. v = Inr out \<longrightarrow> accounts_for keys w out (su_ledger t))"
proof -
  obtain a u where a: "with_backoff env (attempt_withdraw env request) s = (a, u)" by fastforce
  from backoff_effect [OF a [unfolded with_backoff_def]] obtain es where
    led: "su_ledger u = su_ledger s" "su_tick s \<le> su_tick u" and tr: "su_trace u = su_trace s @ es"
    and att: "attempted env request 1 (a = Inl (Http 400)) es" by blast
  have u: "claimed env keys w u" using cl led by (auto simp: claimed_def intro: less_le_trans)
  have closing: ?thesis if "settled keys w u v t"
    using that tr attempted_weaken [OF att] unfolding settled_def by (metis append_assoc attempted_quiet)
  show ?thesis
  proof (cases a)
    case (Inr at)
    show ?thesis
    proof (cases at)
      case (AttemptCreated sts)
      then show ?thesis
        using closing settle_created_settled [OF u keys] run a Inr by (simp add: post_and_settle_def)
    next
      case (AttemptConflict c)
      then show ?thesis
        using closing recover_conflict_settled [OF u keys] run a Inr by (simp add: post_and_settle_def)
    qed
  next
    case (Inl e)
    obtain r u2 where r: "settle_failure env keys e u = (r, u2)" by fastforce
    have "bind_run (settle_failure env keys e) (\<lambda>_. raise (CircleRefused e)) u = (v, t)"
      using run a Inl by (simp add: post_and_settle_def)
    then have t: "t = u2" "\<And>out. v \<noteq> Inr out" using r by (auto simp: bind_run_def split: sum.splits)
    show ?thesis
    proof (cases "e = Http 400")
      case True
      then have "for_each (\<lambda>key. ledger_tx env (\<lambda>f n. record_failure f n key)) keys u = (r, u2)"
        using r by (simp add: settle_failure_def)
      then have "su_trace u2 = su_trace u" by (rule for_each_trace [rotated]) (rule ledger_tx_trace)
      then have "su_trace t = su_trace s @ es" using tr t(1) by simp
      moreover have "attempted env request 1 True es" using att Inl True by simp
      ultimately show ?thesis using t(2) by blast
    next
      case False
      then have "mark_all_reconciliation env keys u = (r, u2)" using r by (simp add: settle_failure_def)
      from mark_all_effect(1,2) [OF u this] have "su_trace t = su_trace s @ es" "all_held keys t" using tr t(1) by simp_all
      then show ?thesis using attempted_weaken [OF att] t(2) by blast
    qed
  qed
qed

section \<open>The whole submission\<close>

lemma claim_claimed:
  assumes run: "ledger_tx env (\<lambda>f n. claim_burns f n keys) s = (v, u)" and wf: "well_formed (su_ledger s)"
    and norm: "\<And>k. k \<in> set keys \<Longrightarrow> burn_key_new k = k" and own: "minds_own env (su_tick s) keys"
    and won: "v = Inr (Claimed recs)"
  defines "t0 \<equiv> snd (ledger_run (se_others env (su_tick s)) (su_ledger s))"
  shows "claimed env keys (wid_of t0) (log_claim keys u)" and "\<forall>k \<in> set keys. claimable t0 k" and "su_trace u = su_trace s"
proof -
  obtain u' where u': "claim_burns (se_sql_fails env (su_tick s)) (se_now env (su_tick s)) keys t0 = (Inr (Claimed recs), u')"
    and u: "u = s\<lparr>su_ledger := u', su_tick := su_tick s + 1\<rparr>"
    using run won by (auto simp: ledger_tx_def Let_def t0_def split: prod.splits sum.splits)
  have "well_formed t0" unfolding t0_def by (rule ledger_run_well_formed [OF wf])
  from claim_burns_effect [OF u' this norm]
  have eff: "well_formed u'" "distinct keys" "\<forall>k \<in> set keys. claimable t0 k"
    "\<And>k. status_of u' k = (if k \<in> set keys then Some Pending else status_of t0 k)" "wid_of u' = wid_of t0" by auto
  show "claimed env keys (wid_of t0) (log_claim keys u)"
    using eff own u by (auto simp: claimed_def held_def log_claim_def)
  show "\<forall>k \<in> set keys. claimable t0 k" by (rule eff(3))
  show "su_trace u = su_trace s" by (simp add: u)
qed

abbreviation request_keys :: "withdraw_request \<Rightarrow> string list" where
  "request_keys request \<equiv> map burn_key_new (map wb_burn_tx_id request)"

lemma submit_effect:
  assumes run: "submit_withdraw env request s = (v, t)" and wf: "well_formed (su_ledger s)"
    and own: "minds_own env (su_tick s) (request_keys request)"
  defines "t0 \<equiv> snd (ledger_run (se_others env (su_tick s)) (su_ledger s))"
  shows "su_trace t = su_trace s \<and> (\<forall>out. v = Inr out \<longrightarrow> (\<exists>k st. out = OutcomeAlreadySubmitted k st)) \<or>
    (\<exists>es r. su_trace t = su_trace s @ ClaimedBurns (request_keys request) # es \<and>
       distinct (request_keys request) \<and> (\<forall>k \<in> set (request_keys request). claimable t0 k) \<and>
       attempted env request 1 r es \<and> (r \<or> all_held (request_keys request) t) \<and>
       (\<forall>out. v = Inr out \<longrightarrow> accounts_for (request_keys request) (wid_of t0) out (su_ledger t)))"
proof (cases "duplicate_at (request_keys request)")
  case (Some i)
  then have "v = Inl (DuplicateBurnInRequest (map wb_burn_tx_id request ! i))" "t = s"
    using run by (simp_all add: submit_withdraw_def Let_def)
  then show ?thesis by simp
next
  case None
  obtain c u where c: "ledger_tx env (\<lambda>f n. claim_burns f n (request_keys request)) s = (c, u)" by fastforce
  have norm: "burn_key_new k = k" if "k \<in> set (request_keys request)" for k using that by auto
  note tr = ledger_tx_trace [OF c]
  consider e where "c = Inl e" | rec where "c = Inr (AlreadySeen rec)" | recs where "c = Inr (Claimed recs)"
    by (metis claim_outcome.exhaust sum.exhaust)
  then show ?thesis
  proof cases
    case 1
    then have "v = Inl e" "t = u" using run c None by (simp_all add: submit_withdraw_def bind_run_def Let_def)
    then show ?thesis using tr by simp
  next
    case 2
    then have "v = Inr (OutcomeAlreadySubmitted (sr_burn_key rec) (sr_status rec))" "t = u"
      using run c None by (simp_all add: submit_withdraw_def bind_run_def Let_def)
    then show ?thesis using tr by simp
  next
    case (3 recs)
    note got = claim_claimed [OF c wf norm own 3, folded t0_def]
    have "post_and_settle env request (request_keys request) (map wb_burn_tx_id request)
        (log_claim (request_keys request) u) = (v, t)"
      using run c None 3 by (simp add: submit_withdraw_def bind_run_def Let_def)
    from post_and_settle_effect [OF got(1) refl this] show ?thesis
      using got tr by (auto simp: claimed_def log_claim_def)
  qed
qed

section \<open>Sample submissions\<close>

text \<open>Two burns. Circle answers \<^verbatim>\<open>503\<close> and then \<^verbatim>\<open>400\<close>; or it answers \<^verbatim>\<open>409\<close> for the second burn, whose
  withdrawal turns out to be finalized.\<close>

definition sample_uuid :: string where "sample_uuid = ''00000000-0000-0000-0000-000000000001''"

definition sample_withdraw_batch :: "string \<Rightarrow> withdraw_batch" where
  "sample_withdraw_batch burn = \<lparr>wb_burn_intents = [], wb_burn_signatures = [], wb_burn_tx_id = burn, wb_use_circle_forwarding = False\<rparr>"

definition sample_request :: withdraw_request where
  "sample_request = [sample_withdraw_batch ''0xA1'', sample_withdraw_batch ''0xb2'']"

definition sample_json :: "bytes \<Rightarrow> json option" where
  "sample_json body =
     (if body = [1] then Some (JObject [(''burnTxId'', JString ''0xB2''), (''withdrawalId'', JString sample_uuid)])
      else if body = [2] then Some (JArray [JString sample_uuid, JString ''0xb2'', JString ''finalized'', JString ''0x'',
        JString ''0x'', JBool False, JString (''0x'' @ replicate 64 CHR ''0''), JString ''none'', JArray []])
      else None)"

definition sample_http_reply :: "nat \<Rightarrow> bytes \<Rightarrow> http_reply option" where
  "sample_http_reply status body = Some \<lparr>hp_same_url = True, hp_status = status, hp_content_length = None, hp_chunks = [Some body]\<rparr>"

definition sample_submit_env :: "(nat \<Rightarrow> circle_call \<Rightarrow> http_reply option) \<Rightarrow> submit_env" where
  "sample_submit_env http =
     \<lparr>se_codecs = \<lparr>wx_from_slice = sample_json, wx_u32 = (\<lambda>_. None), wx_domain = (\<lambda>_. None)\<rparr>,
      se_retry = retry_policy_new 3 1, se_poll_max_attempts = 2, se_max_response_bytes = 8,
      se_base_url = ''https://circle'', se_joins = (\<lambda>_. True), se_builds = (\<lambda>_. True), se_http = http, se_sql_fails = (\<lambda>_. False),
      se_now = (\<lambda>k. k), se_others = (\<lambda>_. [])\<rparr>"

definition refusing :: submit_env where
  "refusing = sample_submit_env (\<lambda>k _. if k = 1 then sample_http_reply 503 [] else sample_http_reply 400 [])"

definition conflicting :: submit_env where
  "conflicting = sample_submit_env (\<lambda>k call.
     case call of PostWithdraw _ \<Rightarrow> sample_http_reply 409 [1] | _ \<Rightarrow> sample_http_reply 200 [2])"

definition fresh_state :: submit_state where
  "fresh_state = \<lparr>su_ledger = [], su_tick = 0, su_trace = []\<rparr>"

lemma fresh_facts: "su_trace fresh_state = []" "well_formed (su_ledger fresh_state)" "su_tick fresh_state = 0"
  by (simp_all add: fresh_state_def well_formed_def)

lemma sample_minds_own: "minds_own refusing k keys" "minds_own conflicting k keys"
  by (simp_all add: minds_own_def refusing_def conflicting_def sample_submit_env_def)

lemma refusing_run:
  "length (su_trace (snd (submit_withdraw refusing sample_request fresh_state))) = 4 \<and>
   list_ex (claimable (su_ledger (snd (submit_withdraw refusing sample_request fresh_state)))) (request_keys sample_request)"
  by code_simp

section \<open>The properties\<close>

lemma held_not_claimable: "held k st w t \<Longrightarrow> \<not> claimable t k"
  by (auto simp: held_def claimable_def)

text \<open>
  C6: A submission asks Circle for money only for burns it has just claimed. Whatever Circle, the
  database and the other callers do: every request follows the claim of all its burns, which were
  distinct and free; the request is repeated, unchanged, only after an answer with a server error and
  never beyond the attempt budget; and when the call is over, a burn of the request is free to be
  claimed again only if the last answer was status 400.
\<close>

theorem submission_repeats_only_refused:
  assumes "submit_withdraw env request s = (v, t)" and "su_trace s = []" and "well_formed (su_ledger s)"
    and "minds_own env (su_tick s) (request_keys request)"
    and "su_trace t \<noteq> []"
  shows "\<exists>es. su_trace t = ClaimedBurns (request_keys request) # es \<and>
    distinct (request_keys request) \<and>
    list_all (claimable (snd (ledger_run (se_others env (su_tick s)) (su_ledger s)))) (request_keys request) \<and>
    list_all (\<lambda>e. \<exists>a. e = Exchanged (PostWithdraw request) a) (posts es) \<and>
    length (posts es) \<le> max 1 (rp_max_attempts (se_retry env)) \<and>
    list_all (answered (\<lambda>m. 500 \<le> m \<and> m \<le> 599)) (butlast (posts es)) \<and>
    (list_ex (claimable (su_ledger t)) (request_keys request) \<longrightarrow>
       posts es \<noteq> [] \<and> answered (\<lambda>m. m = 400) (last (posts es)))"
proof -
  from submit_effect [OF assms(1,3,4)] assms(2,5) obtain es r where
    tr: "su_trace t = ClaimedBurns (request_keys request) # es" and d: "distinct (request_keys request)"
    and free: "\<forall>k \<in> set (request_keys request). claimable (snd (ledger_run (se_others env (su_tick s)) (su_ledger s))) k"
    and att: "attempted env request 1 r es" and held: "r \<or> all_held (request_keys request) t" by auto
  have "length (posts es) \<le> max 1 (rp_max_attempts (se_retry env))"
    using att by (auto simp: attempted_def)
  moreover have "posts es \<noteq> [] \<and> answered (\<lambda>m. m = 400) (last (posts es))"
    if "list_ex (claimable (su_ledger t)) (request_keys request)"
    using that held att held_not_claimable by (auto simp: list_ex_iff all_held_def attempted_def)
  ultimately show ?thesis using tr d free att by (auto simp: attempted_def list_all_iff)
qed

theorem submission_repeats_only_refused_witness:
  "\<exists>es. su_trace (snd (submit_withdraw refusing sample_request fresh_state)) =
       ClaimedBurns (request_keys sample_request) # es \<and> length (posts es) \<le> 3 \<and>
     posts es \<noteq> [] \<and> answered (\<lambda>m. m = 400) (last (posts es))"
proof -
  have run: "submit_withdraw refusing sample_request fresh_state =
      (fst (submit_withdraw refusing sample_request fresh_state), snd (submit_withdraw refusing sample_request fresh_state))"
    by simp
  have "su_trace (snd (submit_withdraw refusing sample_request fresh_state)) \<noteq> []" using refusing_run by auto
  note ok = submission_repeats_only_refused [OF run fresh_facts(1,2) sample_minds_own(1) this]
  have "rp_max_attempts (se_retry refusing) = 3" by (simp add: refusing_def sample_submit_env_def retry_policy_new_def)
  with ok refusing_run show ?thesis by auto
qed


lemma conflicting_run:
  "\<exists>st. fst (submit_withdraw conflicting sample_request fresh_state) = Inr (OutcomeConflictRecovered sample_uuid st)"
proof -
  have "(case fst (submit_withdraw conflicting sample_request fresh_state) of
      Inr (OutcomeConflictRecovered u st) \<Rightarrow> u = sample_uuid | _ \<Rightarrow> False)"
    by code_simp
  then show ?thesis by (auto split: sum.splits submit_outcome.splits)
qed


end
