(* ===== verification/Withdraw_Run.thy ===== *)
theory Withdraw_Run
  imports Withdraw_Gate Withdraw_Evidence Withdraw_Props
begin

text \<open>
  The orchestration of \<^verbatim>\<open>crates/withdrawal-listener-attester/src/listener/mod.rs\<close>: one discovered burn
  note is validated, prepared with Circle, compared with Circle's answer, signed, evidenced, authorized,
  submitted and polled. The signer, the node's answers and Circle are the environment \<open>run_env\<close>. An
  \<^verbatim>\<open>expect\<close> or an index that fails ends the run with \<open>RunPanicked\<close>. \<open>rn_signed\<close> records, for the theorems
  only, the digests handed to the signer.
\<close>

definition ONE_BATCH_PER_BURN :: nat where "ONE_BATCH_PER_BURN = 1"
definition ONE_INTENT_PER_BURN :: nat where "ONE_INTENT_PER_BURN = 1"
definition ONLY_BATCH :: nat where "ONLY_BATCH = 0"
definition ONLY_INTENT :: nat where "ONLY_INTENT = 0"
definition PATH_PREPARE_WITHDRAWAL :: string where "PATH_PREPARE_WITHDRAWAL = ''/v1/prepare-withdrawal''"
definition STATUS_PREPARE_OK :: nat where "STATUS_PREPARE_OK = 200"

section \<open>Ports, events and outcomes\<close>

record discovered_note =
  dn_note_id :: note_id
  dn_record :: discovery_record

type_synonym signed_claims = "(address \<times> signature65) list list"

record listener_event =
  le_step :: string
  le_outcome :: string
  le_note_id :: string
  le_burn_tx_id :: "string option"

datatype run_error =
    RunDiscovery discovery_reject
  | RunRequest schema_error
  | RunCircle listener_error
  | RunValidation validation_mismatch
  | RunBatchCardinality nat
  | RunIntentCardinality nat
  | RunSign sign_error
  | RunSignerCardinality nat nat
  | RunQuorum quorum_error
  | RunEvidence evidence_error
  | RunGate submit_gate_error
  | RunSubmit withdraw_submit_error
  | RunPanicked

datatype reconciliation_reason = ConflictNamedNoWithdrawal | EchoMismatch string

datatype run_outcome =
    Withdrawn string string withdrawal_status
  | ConflictRecovered string string withdrawal_status
  | AlreadySubmitted string ledger_status
  | RunReconciliationRequired string reconciliation_reason

record run_env =
  re_ext :: listener_ext
  re_config :: listener_config
  re_circle :: submit_env
  re_signer :: "validated_withdrawal \<Rightarrow> sign_error + signed_claims"
  re_evidence :: evidence_reads
  re_note_hex :: "note_id \<Rightarrow> string"
  re_tx_hex :: "b256 \<Rightarrow> string"

record run_state =
  rn_submit :: submit_state
  rn_events :: "listener_event list"
  rn_signed :: "digest list list"

type_synonym 'a listener_run = "(run_state, run_error, 'a) run"

section \<open>The local signer\<close>

definition insert_signatures :: "address \<Rightarrow> signature65 list \<Rightarrow> signed_claims \<Rightarrow> signed_claims" where
  "insert_signatures a sigs per_batch = map2 (\<lambda>s claims. claims @ [(a, s)]) sigs per_batch"

fun sign_with_keys ::
  "listener_ext \<Rightarrow> validated_withdrawal \<Rightarrow> secret_key list \<Rightarrow> signed_claims \<Rightarrow> sign_error + signed_claims" where
  "sign_with_keys x validated [] per_batch = Inr per_batch"
| "sign_with_keys x validated (key # keys) per_batch =
     and_then (sign_validated x validated key) (\<lambda>sigs.
     sign_with_keys x validated keys (insert_signatures (address_of x key) sigs per_batch))"

definition sign_batches :: "listener_ext \<Rightarrow> secret_key list \<Rightarrow> validated_withdrawal \<Rightarrow> sign_error + signed_claims" where
  "sign_batches x keys validated =
     and_then (sign_with_keys x validated keys (replicate (batch_count validated) [])) (\<lambda>per_batch.
     Inr (map (sort_key fst) per_batch))"

section \<open>Steps\<close>

definition emit_event :: "run_env \<Rightarrow> string \<Rightarrow> string \<Rightarrow> note_id \<Rightarrow> string option \<Rightarrow> unit listener_run" where
  "emit_event env step outcome n burn s =
     (Inr (), s\<lparr>rn_events := rn_events s @
        [\<lparr>le_step = step, le_outcome = outcome, le_note_id = re_note_hex env n, le_burn_tx_id = burn\<rparr>]\<rparr>)"

text \<open>A result with its error converted, after the event for the error, if any.\<close>

definition lift_result :: "('e \<Rightarrow> run_error) \<Rightarrow> unit listener_run \<Rightarrow> 'e + 'a \<Rightarrow> 'a listener_run" where
  "lift_result wrap notice r =
     (case r of Inl e \<Rightarrow> bind_run notice (\<lambda>_. raise (wrap e)) | Inr v \<Rightarrow> ret v)"

definition or_panic :: "'a option \<Rightarrow> 'a listener_run" where
  "or_panic v = (case v of None \<Rightarrow> raise RunPanicked | Some a \<Rightarrow> ret a)"

definition at_index :: "'a list \<Rightarrow> nat \<Rightarrow> 'a listener_run" where
  "at_index xs i = or_panic (if i < length xs then Some (xs ! i) else None)"

definition on_submit_state :: "('e \<Rightarrow> run_error) \<Rightarrow> (submit_state, 'e, 'a) run \<Rightarrow> 'a listener_run" where
  "on_submit_state wrap m s =
     (case m (rn_submit s) of
        (Inl e, t) \<Rightarrow> (Inl (wrap e), s\<lparr>rn_submit := t\<rparr>)
      | (Inr v, t) \<Rightarrow> (Inr v, s\<lparr>rn_submit := t\<rparr>))"

definition prepare :: "submit_env \<Rightarrow> prepare_withdrawal_request \<Rightarrow> prepare_withdrawal_response circle_run" where
  "prepare env req =
     bind_run (build_request env PATH_PREPARE_WITHDRAWAL (PostPrepare req)) (\<lambda>call.
     bind_run (circle_execute env call) (\<lambda>response.
     if ra_status response \<noteq> STATUS_PREPARE_OK then raise (Http (ra_status response))
     else decode_body env (prepare_response_decode (se_codecs env)) ''prepare-withdrawal'' (ra_body response)))"

text \<open>Discovery, request, Circle's answer, validation and cardinality.\<close>

definition discover_and_validate ::
  "run_env \<Rightarrow> discovered_note \<Rightarrow> (prepare_withdrawal_request \<times> validated_withdrawal \<times> circle_burn_intent) listener_run" where
  "discover_and_validate env discovered =
     (let n = dn_note_id discovered; x = re_ext env; cfg = re_config env in
      bind_run (lift_result RunDiscovery (emit_event env ''B3'' ''discovery-rejected'' n None)
        (validate_discovery x cfg (dn_record discovered))) (\<lambda>burn.
      bind_run (emit_event env ''B3'' ''discovered'' n None) (\<lambda>_.
      bind_run (or_panic (build_prepare_request x burn cfg)) (\<lambda>built.
      bind_run (lift_result RunRequest (ret ()) built) (\<lambda>request.
      bind_run (emit_event env ''B4'' ''prepare-request-built'' n None) (\<lambda>_.
      bind_run (on_submit_state RunCircle (prepare (re_circle env) request)) (\<lambda>response.
      bind_run (lift_result RunValidation (emit_event env ''B5'' ''do-not-sign-abort'' n None)
        (validate_returned x response burn cfg)) (\<lambda>validated.
      if batch_count validated \<noteq> ONE_BATCH_PER_BURN then
        bind_run (emit_event env ''B5'' ''batch-cardinality-refused'' n None) (\<lambda>_.
        raise (RunBatchCardinality (batch_count validated)))
      else
        bind_run (at_index response ONLY_BATCH) (\<lambda>prepared.
        if length (pd_burn_intents prepared) \<noteq> ONE_INTENT_PER_BURN then
          bind_run (emit_event env ''B5'' ''intent-cardinality-refused'' n None) (\<lambda>_.
          raise (RunIntentCardinality (length (pd_burn_intents prepared))))
        else
          bind_run (at_index (pd_burn_intents prepared) ONLY_INTENT) (\<lambda>intent.
          bind_run (emit_event env ''B5'' ''validated'' n None) (\<lambda>_.
          ret (request, validated, intent))))))))))))"

definition call_signer :: "run_env \<Rightarrow> validated_withdrawal \<Rightarrow> signed_claims listener_run" where
  "call_signer env validated s =
     lift_result RunSign (ret ()) (re_signer env validated) (s\<lparr>rn_signed := rn_signed s @ [vw_digests validated]\<rparr>)"

definition sign_quorum :: "run_env \<Rightarrow> note_id \<Rightarrow> validated_withdrawal \<Rightarrow> quorum_bundle listener_run" where
  "sign_quorum env n validated =
     bind_run (call_signer env validated) (\<lambda>claims.
     if length claims \<noteq> batch_count validated then
       raise (RunSignerCardinality (batch_count validated) (length claims))
     else
       bind_run (at_index claims 0) (\<lambda>claims.
       bind_run (at_index (vw_digests validated) 0) (\<lambda>digest.
       bind_run (lift_result RunQuorum (ret ()) (assemble_quorum (re_ext env) digest claims)) (\<lambda>quorum.
       bind_run (emit_event env ''B6'' ''signed'' n None) (\<lambda>_.
       ret quorum)))))"

text \<open>Evidence, batch and authorization; the transaction ID is returned with the request.\<close>

definition evidence_and_authorize ::
  "run_env \<Rightarrow> note_id \<Rightarrow> prepare_withdrawal_request \<Rightarrow> validated_withdrawal \<Rightarrow> circle_burn_intent \<Rightarrow> quorum_bundle
     \<Rightarrow> (string \<times> withdraw_request) listener_run" where
  "evidence_and_authorize env n request validated intent quorum =
     (let x = re_ext env; cfg = re_config env in
      bind_run (lift_result RunEvidence (ret ())
        (assemble_evidence (re_tx_hex env) (re_evidence env) n (lc_faucet_id cfg))) (\<lambda>evidence.
      let burn_tx_id = ep_burn_tx_id evidence in
      bind_run (emit_event env ''B7'' ''evidence-assembled'' n (Some burn_tx_id)) (\<lambda>_.
      bind_run (at_index request ONLY_BATCH) (\<lambda>input.
      bind_run (or_panic (build_withdraw_batch x intent quorum burn_tx_id (pn_use_circle_forwarding input))) (\<lambda>built.
      bind_run (lift_result RunRequest (ret ()) built) (\<lambda>batch.
      bind_run (lift_result RunRequest (ret ()) (build_withdraw_request [batch])) (\<lambda>withdraw.
      bind_run (lift_result RunGate (emit_event env ''B7'' ''submit-gate-refused'' n (Some burn_tx_id))
        (authorize_submission x withdraw validated cfg)) (\<lambda>authorized.
      ret (burn_tx_id, aw_request authorized)))))))))"

section \<open>Settling and the whole run\<close>

definition settle_submitted ::
  "run_env \<Rightarrow> note_id \<Rightarrow> string \<Rightarrow> withdraw_submission_response \<Rightarrow> run_outcome listener_run" where
  "settle_submitted env n burn_tx_id statuses =
     bind_run (emit_event env ''B7'' ''submitted'' n (Some burn_tx_id)) (\<lambda>_.
     bind_run (at_index statuses 0) (\<lambda>created.
     bind_run (or_panic (expect (uuid_new (ws_withdrawal_id created)))) (\<lambda>withdrawal_id.
     bind_run (on_submit_state RunCircle (poll_status (re_circle env) withdrawal_id)) (\<lambda>status.
     if \<not> eq_ignore_ascii_case (ws_burn_tx_id status) burn_tx_id then
       bind_run (emit_event env ''B10'' ''echo-mismatch'' n (Some burn_tx_id)) (\<lambda>_.
       ret (RunReconciliationRequired burn_tx_id (EchoMismatch (ws_burn_tx_id status))))
     else
       bind_run
         (if ws_status status = StatusFinalized then
            bind_run (on_submit_state RunSubmit (ledger_tx (re_circle env) (\<lambda>f now.
              record_finalized f now (burn_key_new burn_tx_id) (Some (ws_withdrawal_id status))))) (\<lambda>_. ret ())
          else ret ()) (\<lambda>_.
       bind_run (emit_event env ''B10'' ''polled'' n (Some burn_tx_id)) (\<lambda>_.
       ret (Withdrawn burn_tx_id withdrawal_id status)))))))"

fun settle :: "run_env \<Rightarrow> note_id \<Rightarrow> string \<Rightarrow> submit_outcome \<Rightarrow> run_outcome listener_run" where
  "settle env n burn_tx_id (OutcomeSubmitted statuses) = settle_submitted env n burn_tx_id statuses"
| "settle env n burn_tx_id (OutcomeConflictRecovered withdrawal_id status) =
     bind_run (emit_event env ''B7'' ''conflict-recovered'' n (Some burn_tx_id)) (\<lambda>_.
     ret (ConflictRecovered burn_tx_id withdrawal_id status))"
| "settle env n burn_tx_id (OutcomeReconciliationRequired burn) =
     bind_run (emit_event env ''B7'' ''reconciliation-required'' n (Some burn)) (\<lambda>_.
     ret (RunReconciliationRequired burn ConflictNamedNoWithdrawal))"
| "settle env n burn_tx_id (OutcomeConflictEchoMismatch burns echoed) =
     bind_run (emit_event env ''B7'' ''echo-mismatch'' n (Some burn_tx_id)) (\<lambda>_.
     ret (RunReconciliationRequired burn_tx_id (EchoMismatch echoed)))"
| "settle env n burn_tx_id (OutcomeAlreadySubmitted burn status) =
     bind_run (emit_event env ''B7'' ''already-submitted'' n (Some burn)) (\<lambda>_.
     ret (AlreadySubmitted burn status))"

definition run_once :: "run_env \<Rightarrow> discovered_note \<Rightarrow> run_outcome listener_run" where
  "run_once env discovered =
     (let n = dn_note_id discovered in
      bind_run (discover_and_validate env discovered) (\<lambda>(request, validated, intent).
      bind_run (sign_quorum env n validated) (\<lambda>quorum.
      bind_run (evidence_and_authorize env n request validated intent quorum) (\<lambda>(burn_tx_id, withdraw).
      bind_run (on_submit_state RunSubmit (submit_withdraw (re_circle env) withdraw)) (\<lambda>outcome.
      settle env n burn_tx_id outcome)))))"

end
