(* ===== verification/Withdraw_Run_Props.thy ===== *)
theory Withdraw_Run_Props
  imports Withdraw_Run
begin

text \<open>
  What one run of the withdrawal listener guarantees: which requests it sends and what was signed for
  them, that it never panics, and what the ledger says of its burn afterwards.
\<close>

section \<open>Stages\<close>

text \<open>
  The steps of a run are built from events, results, indices and calls that act on the submission's state.
  A relation that holds when that state and the signer's record are kept, and that follows a relation \<open>Q\<close>
  of the calls, holds along all of them.
\<close>

locale listener_stage = run_order R for R :: "run_state \<Rightarrow> run_state \<Rightarrow> bool" +
  fixes Q :: "submit_state \<Rightarrow> submit_state \<Rightarrow> bool"
  assumes keeps: "rn_submit t = rn_submit s \<Longrightarrow> rn_signed t = rn_signed s \<Longrightarrow> R s t"
    and lifts: "Q (rn_submit s) u \<Longrightarrow> R s (s\<lparr>rn_submit := u\<rparr>)"
begin

lemma moves_emit: "moves R (emit_event env step outcome n burn)"
  by (simp add: moves_def emit_event_def keeps)

lemma moves_lift: "moves R notice \<Longrightarrow> moves R (lift_result wrap notice r)"
  unfolding lift_result_def by (cases r) (auto intro: moves_bind moves_ret)

lemma moves_panic: "moves R (or_panic v)"
  unfolding or_panic_def by (cases v) (auto intro: moves_ret)

lemma moves_index: "moves R (at_index xs i)"
  unfolding at_index_def by (rule moves_panic)

lemma moves_on_submit:
  assumes "moves Q m"
  shows "moves R (on_submit_state wrap m)"
  unfolding moves_def
proof
  fix s :: run_state
  obtain r u where r: "m (rn_submit s) = (r, u)" by fastforce
  then have "R s (s\<lparr>rn_submit := u\<rparr>)" using assms moves_run lifts by metis
  then show "R s (snd (on_submit_state wrap m s))" using r by (cases r) (simp_all add: on_submit_state_def)
qed

lemmas moves_stage = moves_bind moves_ret moves_emit moves_lift moves_panic moves_index moves_on_submit

end

text \<open>Steps that keep it all, steps that keep the ledger and send no withdrawal, and steps that only send none.\<close>

definition still :: "run_state \<Rightarrow> run_state \<Rightarrow> bool" where
  "still s t \<longleftrightarrow> rn_submit t = rn_submit s \<and> rn_signed t = rn_signed s"

definition gently :: "run_state \<Rightarrow> run_state \<Rightarrow> bool" where
  "gently s t \<longleftrightarrow> only_polls (rn_submit s) (rn_submit t) \<and> rn_signed t = rn_signed s"

definition quiet_run :: "submit_state \<Rightarrow> submit_state \<Rightarrow> bool" where
  "quiet_run s t \<longleftrightarrow> (\<exists>es. su_trace t = su_trace s @ es \<and> posts es = [])"

definition quietly :: "run_state \<Rightarrow> run_state \<Rightarrow> bool" where
  "quietly s t \<longleftrightarrow> quiet_run (rn_submit s) (rn_submit t) \<and> rn_signed t = rn_signed s"

lemma quiet_run_refl: "quiet_run s s"
  by (simp add: quiet_run_def posts_def)

lemma quiet_run_trans: "quiet_run s t \<Longrightarrow> quiet_run t u \<Longrightarrow> quiet_run s u"
  unfolding quiet_run_def by (auto simp: posts_append)

lemma only_polls_quiet: "only_polls s t \<Longrightarrow> quiet_run s t"
  by (auto simp: only_polls_def quiet_run_def)

interpretation holding: listener_stage still "\<lambda>s t. t = s"
  by unfold_locales (auto simp: still_def)

interpretation staging: listener_stage gently only_polls
  by unfold_locales (auto simp: gently_def polling.order_refl intro: polling.order_trans)

interpretation closing: listener_stage quietly quiet_run
  by unfold_locales (auto simp: quietly_def quiet_run_refl intro: quiet_run_trans)

lemma gently_quietly: "gently s t \<Longrightarrow> quietly s t"
  by (simp add: gently_def quietly_def only_polls_quiet)

lemma moves_prepare: "moves only_polls (prepare env req)"
proof -
  have send: "moves only_polls (circle_execute env (PostPrepare req))"
    unfolding moves_def only_polls_def circle_execute_def Let_def by (auto simp: posts_def is_post_def)
  have "moves only_polls (\<lambda>s. bind_run (circle_execute env (PostPrepare req)) (\<lambda>response.
      if ra_status response \<noteq> STATUS_PREPARE_OK then raise (Http (ra_status response))
      else decode_body env (prepare_response_decode (se_codecs env)) ''prepare-withdrawal'' (ra_body response)) s)"
    by (intro polling.moves_bind send) (auto intro: moves_decode_body polling.moves_ret)
  then show ?thesis unfolding prepare_def build_request_def using polling.moves_ret by auto
qed

lemma moves_discover: "moves gently (discover_and_validate env d)"
  unfolding discover_and_validate_def Let_def by (auto intro!: staging.moves_stage moves_prepare)

lemma moves_authorize: "moves still (evidence_and_authorize env n request validated intent quorum)"
  unfolding evidence_and_authorize_def Let_def by (auto intro!: holding.moves_stage)

section \<open>What a stage returns\<close>

lemma emit_event_run [simp]:
  "emit_event env step outcome n burn s = (Inr (), s\<lparr>rn_events := rn_events s @
     [\<lparr>le_step = step, le_outcome = outcome, le_note_id = re_note_hex env n, le_burn_tx_id = burn\<rparr>]\<rparr>)"
  by (simp add: emit_event_def)

lemma lift_result_Inr: "lift_result wrap notice r s = (Inr v, t) \<longleftrightarrow> r = Inr v \<and> t = s"
  by (cases r) (auto simp: lift_result_def bind_run_Inr)

lemma or_panic_Inr: "or_panic v s = (Inr a, t) \<longleftrightarrow> v = Some a \<and> t = s"
  by (cases v) (auto simp: or_panic_def)

lemma at_index_Inr: "at_index xs i s = (Inr a, t) \<longleftrightarrow> i < length xs \<and> a = xs ! i \<and> t = s"
  by (auto simp: at_index_def or_panic_Inr)

lemma on_submit_Inr: "on_submit_state wrap m s = (Inr v, t) \<longleftrightarrow> (\<exists>u. m (rn_submit s) = (Inr v, u) \<and> t = s\<lparr>rn_submit := u\<rparr>)"
  by (auto simp: on_submit_state_def split: prod.splits sum.splits)

lemmas stage_Inr = bind_run_Inr lift_result_Inr or_panic_Inr at_index_Inr on_submit_Inr

lemma prepare_Inr:
  assumes "prepare env req s = (Inr resp, t)"
  obtains r where "t = s\<lparr>su_tick := su_tick s + 1, su_trace := su_trace s @ [Exchanged (PostPrepare req) (Inr r)]\<rparr>"
    "Option.bind (wx_from_slice (se_codecs env) (ra_body r)) (prepare_response_decode (se_codecs env)) = Some resp"
proof -
  obtain c u r u' where c: "build_request env PATH_PREPARE_WITHDRAWAL (PostPrepare req) s = (Inr c, u)"
    and r: "circle_execute env c u = (Inr r, u')"
    and d: "decode_body env (prepare_response_decode (se_codecs env)) ''prepare-withdrawal'' (ra_body r) u' = (Inr resp, t)"
    using assms unfolding prepare_def bind_run_Inr by (auto split: if_splits)
  have "c = PostPrepare req" "u = s" using build_request_call [OF c] by auto
  moreover have "t = u'" "Option.bind (wx_from_slice (se_codecs env) (ra_body r)) (prepare_response_decode (se_codecs env)) = Some resp"
    using d by (auto simp: decode_body_def split: option.splits)
  ultimately show ?thesis using circle_execute_effect [OF r] that by auto
qed

text \<open>
  A digest cleared for a burn: the note passed discovery, Circle was asked to prepare this burn and
  answered with one batch of one intent, which releases exactly this burn, and this is the batch's digest.
\<close>

definition cleared :: "run_env \<Rightarrow> discovered_note \<Rightarrow> submit_event list \<Rightarrow> circle_burn_intent \<Rightarrow> digest \<Rightarrow> bool" where
  "cleared env d es intent digest \<longleftrightarrow>
     (\<exists>burn request r prepared.
        validate_discovery (re_ext env) (re_config env) (dn_record d) = Inr burn \<and>
        build_prepare_request (re_ext env) burn (re_config env) = Some (Inr request) \<and>
        Exchanged (PostPrepare request) (Inr r) \<in> set es \<and>
        Option.bind (wx_from_slice (se_codecs (re_circle env)) (ra_body r))
          (prepare_response_decode (se_codecs (re_circle env))) = Some [prepared] \<and>
        pd_burn_intents prepared = [intent] \<and>
        digest_of (re_ext env) (pd_message_hash_to_sign prepared) = Some digest \<and>
        releases_burn (re_ext env) (re_config env) burn intent)"

lemma discover_Inr:
  assumes "discover_and_validate env d s = (Inr (request, validated, intent), t)"
  obtains es digest where "su_trace (rn_submit t) = su_trace (rn_submit s) @ es" "posts es = []"
    "cleared env d es intent digest" "vw_digests validated = [digest]"
    "\<exists>burn. build_prepare_request (re_ext env) burn (re_config env) = Some (Inr request)"
proof -
  obtain burn resp u where burn: "validate_discovery (re_ext env) (re_config env) (dn_record d) = Inr burn"
    and req: "build_prepare_request (re_ext env) burn (re_config env) = Some (Inr request)"
    and resp: "prepare (re_circle env) request (rn_submit s) = (Inr resp, u)" and t: "rn_submit t = u"
    and valid: "validate_returned (re_ext env) resp burn (re_config env) = Inr validated"
    and one: "batch_count validated = 1" "length (pd_burn_intents (resp ! 0)) = 1" "intent = pd_burn_intents (resp ! 0) ! 0"
    using assms unfolding discover_and_validate_def Let_def
    by (auto simp: stage_Inr ONE_BATCH_PER_BURN_def ONE_INTENT_PER_BURN_def ONLY_BATCH_def ONLY_INTENT_def
        split: if_splits)
  obtain prepared digest where p: "resp = [prepared]" "vw_digests validated = [digest]"
    "clears (re_ext env) (re_config env) burn prepared digest"
    using valid one(1) unfolding validate_returned_Inr batch_count_def
    by (auto simp: list_all2_conv_all_nth length_Suc_conv)
  have i: "pd_burn_intents prepared = [intent]" using one(2,3) p(1) by (auto simp: length_Suc_conv)
  obtain r where r: "u = (rn_submit s)\<lparr>su_tick := su_tick (rn_submit s) + 1,
      su_trace := su_trace (rn_submit s) @ [Exchanged (PostPrepare request) (Inr r)]\<rparr>"
    "Option.bind (wx_from_slice (se_codecs (re_circle env)) (ra_body r)) (prepare_response_decode (se_codecs (re_circle env))) = Some resp"
    using prepare_Inr [OF resp] .
  have "cleared env d [Exchanged (PostPrepare request) (Inr r)] intent digest"
    unfolding cleared_def using burn req r(2) p i by (auto simp: clears_def)
  then show ?thesis using r(1) t p(2) req that [of "[Exchanged (PostPrepare request) (Inr r)]" digest]
    by (auto simp: posts_def is_post_def)
qed

lemma sign_quorum_state:
  assumes "sign_quorum env n validated s = (v, t)"
  shows "rn_submit t = rn_submit s \<and> rn_signed t = rn_signed s @ [vw_digests validated]"
proof -
  let ?handed = "s\<lparr>rn_signed := rn_signed s @ [vw_digests validated]\<rparr>"
  let ?rest = "\<lambda>claims. if length claims \<noteq> batch_count validated then
       raise (RunSignerCardinality (batch_count validated) (length claims))
     else
       bind_run (at_index claims 0) (\<lambda>claims.
       bind_run (at_index (vw_digests validated) 0) (\<lambda>digest.
       bind_run (lift_result RunQuorum (ret ()) (assemble_quorum (re_ext env) digest claims)) (\<lambda>quorum.
       bind_run (emit_event env ''B6'' ''signed'' n None) (\<lambda>_.
       ret quorum))))"
  have "moves still (bind_run (lift_result RunSign (ret ()) (re_signer env validated)) ?rest)"
    by (auto intro!: holding.moves_stage)
  moreover have "bind_run (lift_result RunSign (ret ()) (re_signer env validated)) ?rest ?handed = (v, t)"
    using assms by (simp add: sign_quorum_def call_signer_def bind_run_def)
  ultimately have "still ?handed t" by (rule moves_run)
  then show ?thesis by (simp add: still_def)
qed

lemma sign_quorum_Inr:
  assumes "sign_quorum env n validated s = (Inr q, t)" and "vw_digests validated = [digest]"
  shows "ordered_quorum (re_ext env) digest (qb_signatures q)"
  using assms unfolding sign_quorum_def ordered_quorum_def
  by (auto simp: stage_Inr assemble_quorum_Inr split: if_splits)

lemma expect_Some: "expect r = Some v \<longleftrightarrow> r = Inr v"
  by (cases r) (auto simp: expect_def)

lemma hex_bytes_new_Inr: "hex_bytes_new v = Inr w \<longleftrightarrow> is_hex v \<and> w = v"
  by (auto simp: hex_bytes_new_def wire_new_def)

lemma those_expect:
  "those (map (\<lambda>s. expect (hex_bytes_new (signature_to_hex x s))) sigs) = Some hexes \<Longrightarrow> hexes = map (signature_to_hex x) sigs"
  by (induction sigs arbitrary: hexes) (auto simp: expect_Some hex_bytes_new_Inr split: option.splits)

text \<open>
  The withdrawal request for a burn: one batch with the cleared intent, two signatures over its digest by
  increasing registered attesters, and the transaction ID that the evidence names.
\<close>

definition withdrawal_for :: "run_env \<Rightarrow> note_id \<Rightarrow> circle_burn_intent \<Rightarrow> digest \<Rightarrow> withdraw_request \<Rightarrow> bool" where
  "withdrawal_for env n intent digest request \<longleftrightarrow>
     (\<exists>p sigs.
        evidenced (re_tx_hex env) (re_evidence env) n (lc_faucet_id (re_config env)) p \<and>
        ordered_quorum (re_ext env) digest sigs \<and>
        list_all (signed_by_attester (re_ext env) (lc_attester_allowlist (re_config env)) digest)
          (map (signature_to_hex (re_ext env)) sigs) \<and>
        request = [\<lparr>wb_burn_intents = [intent], wb_burn_signatures = map (signature_to_hex (re_ext env)) sigs,
                    wb_burn_tx_id = ep_burn_tx_id p, wb_use_circle_forwarding = False\<rparr>])"

lemma built_not_forwarding:
  "build_prepare_request x burn cfg = Some (Inr request) \<Longrightarrow> \<exists>input. request = [input] \<and> \<not> pn_use_circle_forwarding input"
  by (auto simp: build_prepare_request_def bind_eq_Some_conv outcome_simps prepare_input_build_def)

lemma authorize_Inr:
  assumes run: "evidence_and_authorize env n request validated intent quorum s = (Inr (burn, withdraw), t)"
    and req: "\<exists>b. build_prepare_request (re_ext env) b (re_config env) = Some (Inr request)"
    and dig: "vw_digests validated = [digest]" "ordered_quorum (re_ext env) digest (qb_signatures quorum)"
  shows "withdrawal_for env n intent digest withdraw" and "\<exists>b. withdraw = [b] \<and> wb_burn_tx_id b = burn"
proof -
  obtain p batch input where p: "assemble_evidence (re_tx_hex env) (re_evidence env) n (lc_faucet_id (re_config env)) = Inr p"
    and burn: "burn = ep_burn_tx_id p" and input: "input = request ! 0"
    and batch: "build_withdraw_batch (re_ext env) intent quorum (ep_burn_tx_id p) (pn_use_circle_forwarding input) = Some (Inr batch)"
    and auth: "build_withdraw_request [batch] = Inr withdraw"
      "\<exists>a. authorize_submission (re_ext env) withdraw validated (re_config env) = Inr a"
    using run unfolding evidence_and_authorize_def Let_def
    by (auto simp: stage_Inr ONLY_BATCH_def authorize_submission_Inr)
  have "\<not> pn_use_circle_forwarding input" using built_not_forwarding req input by fastforce
  then have b: "batch = \<lparr>wb_burn_intents = [intent], wb_burn_signatures = map (signature_to_hex (re_ext env)) (qb_signatures quorum),
      wb_burn_tx_id = ep_burn_tx_id p, wb_use_circle_forwarding = False\<rparr>"
    using batch by (auto simp: build_withdraw_batch_def bind_eq_Some_conv withdraw_batch_new_def dest: those_expect split: if_splits)
  have w: "withdraw = [batch]" using auth(1) by (auto simp: build_withdraw_request_def withdraw_request_new_def split: if_splits)
  then have "list_all (signed_by_attester (re_ext env) (lc_attester_allowlist (re_config env)) digest)
      (map (signature_to_hex (re_ext env)) (qb_signatures quorum))"
    using auth(2) dig(1) b by (auto simp: authorize_submission_Inr)
  then show "withdrawal_for env n intent digest withdraw"
    using evidence_sound [OF p] dig(2) w b unfolding withdrawal_for_def by blast
  show "\<exists>b. withdraw = [b] \<and> wb_burn_tx_id b = burn" using w b burn by simp
qed

section \<open>The submission sends nothing else\<close>

definition only_posts :: "withdraw_request \<Rightarrow> submit_state \<Rightarrow> submit_state \<Rightarrow> bool" where
  "only_posts request s t \<longleftrightarrow> su_tick s \<le> su_tick t \<and>
     (\<exists>es. su_trace t = su_trace s @ es \<and> (\<forall>e \<in> set (posts es). \<exists>a. e = Exchanged (PostWithdraw request) a))"

interpretation posting: run_order "only_posts request" for request
proof
  show "only_posts request s s" for s by (auto simp: only_posts_def posts_def)
  show "only_posts request s t \<Longrightarrow> only_posts request t u \<Longrightarrow> only_posts request s u" for s t u
    unfolding only_posts_def by (force simp: posts_append)
qed

lemma only_polls_posts: "moves only_polls m \<Longrightarrow> moves (only_posts request) m"
  unfolding moves_def only_polls_def only_posts_def by (metis empty_iff list.set(1))

lemma ledger_tx_tick: "ledger_tx env tx s = (v, t) \<Longrightarrow> su_tick t = su_tick s + 1"
  by (auto simp: ledger_tx_def Let_def split: prod.splits sum.splits)

lemma moves_ledger_tx: "moves (only_posts request) (ledger_tx env tx)"
  unfolding moves_def
proof
  fix s
  obtain v t where r: "ledger_tx env tx s = (v, t)" by fastforce
  show "only_posts request s (snd (ledger_tx env tx s))"
    using r ledger_tx_trace [OF r] ledger_tx_tick [OF r] by (auto simp: only_posts_def posts_def)
qed

lemma moves_for_each: "(\<And>x. moves (only_posts request) (f x)) \<Longrightarrow> moves (only_posts request) (for_each f xs)"
  by (induction xs) (auto intro: posting.moves_bind posting.moves_ret)

lemma moves_attempts: "moves (only_posts request) (with_backoff env (attempt_withdraw env request))"
  unfolding moves_def
proof
  fix s
  obtain a u where a: "backoff_from (se_retry env) (attempt_withdraw env request) 1 s = (a, u)" by fastforce
  show "only_posts request s (snd (with_backoff env (attempt_withdraw env request) s))"
    using backoff_effect [OF a] a by (auto simp: with_backoff_def only_posts_def attempted_def)
qed

lemmas moves_submission = posting.moves_bind posting.moves_ret posting.moves_case moves_for_each moves_ledger_tx
  only_polls_posts [OF moves_poll_status] moves_attempts

lemma moves_mark_all: "moves (only_posts request) (mark_all_reconciliation env keys)"
  unfolding mark_all_reconciliation_def by (intro moves_submission)

lemma moves_block_others: "moves (only_posts request) (block_others env keys i)"
  unfolding block_others_plan settle_one_def by (rule moves_for_each) (auto intro: moves_submission)

lemma moves_settle_created: "moves (only_posts request) (settle_created env keys burns sts)"
  unfolding settle_created_def
  by (auto split: option.split sum.split intro!: moves_submission moves_mark_all)

lemma moves_recover_conflict: "moves (only_posts request) (recover_conflict env keys burns c)"
proof -
  have block: "moves (only_posts request) (block_binding_id_to env keys i w)" for i w
    unfolding block_binding_id_to_def by (intro moves_submission moves_block_others)
  have found: "moves (only_posts request) (\<lambda>s. case poll_status env w s of
      (Inl e, t) \<Rightarrow> bind_run (block_binding_id_to env keys i w) (\<lambda>_. raise (CircleRefused e)) t
    | (Inr status, t) \<Rightarrow>
        (if \<not> eq_ignore_ascii_case (ws_burn_tx_id status) (burns ! i) then
           bind_run (block_binding_id_to env keys i w) (\<lambda>_. ret (OutcomeConflictEchoMismatch burns (ws_burn_tx_id status)))
         else
           bind_run (ledger_tx env (\<lambda>f n.
             if ws_status status = StatusFinalized then record_finalized f n (keys ! i) (Some w)
             else record_reconciliation_required f n (keys ! i) (Some w))) (\<lambda>_.
           bind_run (block_others env keys i) (\<lambda>_. ret (OutcomeConflictRecovered w status)))) t)" for i w
    by (rule posting.moves_case) (auto intro!: moves_submission block moves_block_others)
  show ?thesis
    unfolding recover_conflict_def Let_def
    by (auto split: option.split intro!: moves_submission moves_mark_all found)
qed

definition after_claim ::
  "submit_env \<Rightarrow> withdraw_request \<Rightarrow> string list \<Rightarrow> string list \<Rightarrow> claim_outcome \<Rightarrow> submit_outcome submit_run" where
  "after_claim env request keys burns outcome =
     (case outcome of
        AlreadySeen rec \<Rightarrow> ret (OutcomeAlreadySubmitted (sr_burn_key rec) (sr_status rec))
      | Claimed _ \<Rightarrow> (\<lambda>s. post_and_settle env request keys burns (log_claim keys s)))"

lemma moves_after_claim: "moves (only_posts request) (after_claim env request keys burns outcome)"
proof -
  have fail: "moves (only_posts request) (settle_failure env keys e)" for keys e
    unfolding settle_failure_def by (auto intro!: moves_submission moves_mark_all)
  have post: "moves (only_posts request) (post_and_settle env request keys burns)" for keys burns
  proof -
    have "post_and_settle env request keys burns = (\<lambda>s. case with_backoff env (attempt_withdraw env request) s of
        (Inl e, t) \<Rightarrow> bind_run (settle_failure env keys e) (\<lambda>_. raise (CircleRefused e)) t
      | (Inr at, t) \<Rightarrow> (case at of AttemptCreated statuses \<Rightarrow> settle_created env keys burns statuses
          | AttemptConflict conflict \<Rightarrow> recover_conflict env keys burns conflict) t)"
      by (auto simp: post_and_settle_def fun_eq_iff split: prod.split sum.split submit_attempt.split)
    moreover have "moves (only_posts request) \<dots>"
      by (rule posting.moves_case)
        (auto split: submit_attempt.split intro!: moves_submission fail moves_settle_created moves_recover_conflict)
    ultimately show ?thesis by simp
  qed
  have "only_posts request s (log_claim keys s)" for keys s
    by (auto simp: only_posts_def log_claim_def posts_def is_post_def)
  then have claimed: "moves (only_posts request) (\<lambda>s. post_and_settle env request keys burns (log_claim keys s))" for keys burns
    by (rule posting.moves_after) (rule post)
  show ?thesis
    by (cases outcome) (auto simp: after_claim_def intro: posting.moves_ret claimed)
qed

lemma submit_as_claim:
  "submit_withdraw env request =
     (case duplicate_at (request_keys request) of
        Some i \<Rightarrow> raise (DuplicateBurnInRequest (map wb_burn_tx_id request ! i))
      | None \<Rightarrow>
          bind_run (ledger_tx env (\<lambda>f n. claim_burns f n (request_keys request)))
            (after_claim env request (request_keys request) (map wb_burn_tx_id request)))"
  unfolding submit_withdraw_def Let_def after_claim_def ..

lemma moves_submit_withdraw: "moves (only_posts request) (submit_withdraw env request)"
  unfolding submit_as_claim
  by (auto split: option.split intro!: moves_submission moves_after_claim)

lemma submit_tick:
  assumes "submit_withdraw env request s = (Inr out, t)"
  shows "su_tick s < su_tick t"
proof -
  obtain c u where c: "ledger_tx env (\<lambda>f n. claim_burns f n (request_keys request)) s = (Inr c, u)"
    and rest: "after_claim env request (request_keys request) (map wb_burn_tx_id request) c u = (Inr out, t)"
    using assms unfolding submit_as_claim by (auto simp: bind_run_Inr split: option.splits)
  show ?thesis using ledger_tx_tick [OF c] moves_run [OF moves_after_claim rest] by (simp add: only_posts_def)
qed

section \<open>Which withdrawals a run sends\<close>

lemma moves_settle: "moves quietly (settle env n burn outcome)"
proof -
  have poll: "moves quiet_run (poll_status c w)" for c w
    using moves_poll_status only_polls_quiet unfolding moves_def by blast
  have ledger: "moves quiet_run (ledger_tx c tx)" for c and tx :: "bool \<Rightarrow> nat \<Rightarrow> ledger \<Rightarrow> (ledger_error + submission_record) \<times> ledger"
    using ledger_tx_trace unfolding moves_def quiet_run_def posts_def
    by (metis append_Nil2 filter.simps(1) prod.collapse)
  show ?thesis
    by (cases outcome) (auto simp: settle_submitted_def intro!: closing.moves_stage poll ledger)
qed

definition lawful_run :: "run_env \<Rightarrow> discovered_note \<Rightarrow> run_state \<Rightarrow> run_state \<Rightarrow> bool" where
  "lawful_run env d s t \<longleftrightarrow>
     (\<exists>es. su_trace (rn_submit t) = su_trace (rn_submit s) @ es \<and>
        (\<forall>e \<in> set (posts es). \<exists>intent digest request a. e = Exchanged (PostWithdraw request) a \<and>
           cleared env d es intent digest \<and> withdrawal_for env (dn_note_id d) intent digest request) \<and>
        (rn_signed t = rn_signed s \<or>
         (\<exists>intent digest. rn_signed t = rn_signed s @ [[digest]] \<and> cleared env d es intent digest)))"

lemma cleared_append: "cleared env d es intent digest \<Longrightarrow> cleared env d (es @ fs) intent digest"
  unfolding cleared_def by auto

lemma quietly_lawful: "quietly s t \<Longrightarrow> lawful_run env d s t"
  by (auto simp: quietly_def quiet_run_def lawful_run_def)

lemma lawful_quietly:
  assumes "lawful_run env d s t" and "quietly t u"
  shows "lawful_run env d s u"
proof -
  obtain es where es: "su_trace (rn_submit t) = su_trace (rn_submit s) @ es"
    "\<forall>e \<in> set (posts es). \<exists>intent digest request a. e = Exchanged (PostWithdraw request) a \<and>
       cleared env d es intent digest \<and> withdrawal_for env (dn_note_id d) intent digest request"
    "rn_signed t = rn_signed s \<or> (\<exists>intent digest. rn_signed t = rn_signed s @ [[digest]] \<and> cleared env d es intent digest)"
    using assms(1) unfolding lawful_run_def by blast
  obtain fs where fs: "su_trace (rn_submit u) = su_trace (rn_submit t) @ fs" "posts fs = []" "rn_signed u = rn_signed t"
    using assms(2) unfolding quietly_def quiet_run_def by blast
  show ?thesis unfolding lawful_run_def
  proof (intro exI conjI)
    show "su_trace (rn_submit u) = su_trace (rn_submit s) @ es @ fs" using es(1) fs(1) by simp
    show "\<forall>e \<in> set (posts (es @ fs)). \<exists>intent digest request a. e = Exchanged (PostWithdraw request) a \<and>
       cleared env d (es @ fs) intent digest \<and> withdrawal_for env (dn_note_id d) intent digest request"
      using es(2) fs(2) cleared_append by (fastforce simp: posts_append)
    show "rn_signed u = rn_signed s \<or> (\<exists>intent digest. rn_signed u = rn_signed s @ [[digest]] \<and> cleared env d (es @ fs) intent digest)"
      using es(3) fs(3) cleared_append by fastforce
  qed
qed

lemma sign_and_authorize:
  assumes run: "bind_run (sign_quorum env n validated) (evidence_and_authorize env n request validated intent) u = (r, t)"
    and dig: "vw_digests validated = [digest]"
    and req: "\<exists>b. build_prepare_request (re_ext env) b (re_config env) = Some (Inr request)"
  shows "rn_submit t = rn_submit u" and "rn_signed t = rn_signed u @ [[digest]]"
    and "r = Inr (burn, withdraw) \<Longrightarrow> withdrawal_for env n intent digest withdraw \<and> (\<exists>b. withdraw = [b] \<and> wb_burn_tx_id b = burn)"
proof -
  obtain r1 u1 where r1: "sign_quorum env n validated u = (r1, u1)" by fastforce
  note u1 = sign_quorum_state [OF r1] dig
  have "still u1 t"
  proof (cases r1)
    case (Inl e)
    then show ?thesis using run r1 by (simp add: bind_run_def still_def)
  next
    case (Inr q)
    then show ?thesis using run r1 moves_run [OF moves_authorize] by (simp add: bind_run_def)
  qed
  then show "rn_submit t = rn_submit u" "rn_signed t = rn_signed u @ [[digest]]" using u1 by (auto simp: still_def)
  assume r: "r = Inr (burn, withdraw)"
  then obtain q where q: "r1 = Inr q" "evidence_and_authorize env n request validated intent q u1 = (Inr (burn, withdraw), t)"
    using run r1 by (auto simp: bind_run_Inr)
  show "withdrawal_for env n intent digest withdraw \<and> (\<exists>b. withdraw = [b] \<and> wb_burn_tx_id b = burn)"
    using authorize_Inr [OF q(2) req dig sign_quorum_Inr [OF r1 [unfolded q(1)] dig]] by blast
qed

text \<open>One run up to the submission, which is the last stage that may send a withdrawal.\<close>

lemma run_once_stages:
  assumes "run_once env d s = (v, t)"
  obtains
    (stopped) e where "v = Inl e" "gently s t"
  | (signed) u intent digest es t1 r where "gently s u" "su_trace (rn_submit u) = su_trace (rn_submit s) @ es"
      "posts es = []" "cleared env d es intent digest" "rn_submit t1 = rn_submit u" "rn_signed t1 = rn_signed s @ [[digest]]"
      "\<And>e. r = Inl e \<Longrightarrow> v = Inl e \<and> t = t1"
      "\<And>burn request. r = Inr (burn, request) \<Longrightarrow>
         withdrawal_for env (dn_note_id d) intent digest request \<and> (\<exists>b. request = [b] \<and> wb_burn_tx_id b = burn) \<and>
         bind_run (on_submit_state RunSubmit (submit_withdraw (re_circle env) request)) (settle env (dn_note_id d) burn) t1 = (v, t)"
proof -
  obtain r1 u where r1: "discover_and_validate env d s = (r1, u)" by fastforce
  have g: "gently s u" by (rule moves_run [OF moves_discover r1])
  show thesis
  proof (cases r1)
    case (Inl e)
    then have "v = Inl e" "t = u" using assms r1 by (simp_all add: run_once_def bind_run_def Let_def)
    then show thesis using g stopped by blast
  next
    case (Inr got)
    obtain request validated intent where got: "got = (request, validated, intent)" by (cases got) auto
    obtain es digest where es: "su_trace (rn_submit u) = su_trace (rn_submit s) @ es" "posts es = []"
      "cleared env d es intent digest" and dig: "vw_digests validated = [digest]"
      and req: "\<exists>b. build_prepare_request (re_ext env) b (re_config env) = Some (Inr request)"
      using discover_Inr r1 Inr got by metis
    obtain r t1 where r: "bind_run (sign_quorum env (dn_note_id d) validated)
        (evidence_and_authorize env (dn_note_id d) request validated intent) u = (r, t1)" by fastforce
    note eff = sign_and_authorize [OF r dig req]
    have rest: "(case r of Inl e \<Rightarrow> (Inl e, t1) | Inr (burn, withdraw) \<Rightarrow>
        bind_run (on_submit_state RunSubmit (submit_withdraw (re_circle env) withdraw)) (settle env (dn_note_id d) burn) t1) = (v, t)"
      using assms r1 Inr got r unfolding run_once_def Let_def bind_run_assoc [symmetric]
      by (auto simp: bind_run_def split: prod.splits sum.splits)
    have "rn_signed t1 = rn_signed s @ [[digest]]" using eff(2) g by (simp add: gently_def)
    then show thesis by (rule signed [OF g es eff(1), of r]) (use eff(3) rest in auto)
  qed
qed

lemma signed_lawful:
  assumes "gently s u" and "su_trace (rn_submit u) = su_trace (rn_submit s) @ es" and "posts es = []"
    and "cleared env d es intent digest" and "rn_submit t1 = rn_submit u" and "rn_signed t1 = rn_signed s @ [[digest]]"
  shows "lawful_run env d s t1"
  using assms unfolding lawful_run_def by auto

lemma run_once_lawful:
  assumes "run_once env d s = (v, t)"
  shows "lawful_run env d s t"
  using assms
proof (cases rule: run_once_stages)
  case (stopped e)
  then show ?thesis using gently_quietly quietly_lawful by blast
next
  case (signed u intent digest es t1 r)
  note t1 = signed_lawful [OF signed(1-6)]
  show ?thesis
  proof (cases r)
    case (Inl e)
    then show ?thesis using signed(7) t1 by simp
  next
    case (Inr both)
    obtain burn request where both: "r = Inr (burn, request)" using Inr by (cases both) auto
    note w = signed(8) [OF both]
    obtain r2 t2 where r2: "on_submit_state RunSubmit (submit_withdraw (re_circle env) request) t1 = (r2, t2)" by fastforce
    have "only_posts request (rn_submit t1) (rn_submit t2)" and same: "rn_signed t2 = rn_signed t1"
      using r2 moves_run [OF moves_submit_withdraw] by (auto simp: on_submit_state_def split: prod.splits sum.splits)
    then obtain fs where fs: "su_trace (rn_submit t2) = su_trace (rn_submit s) @ es @ fs"
      "\<forall>e \<in> set (posts fs). \<exists>a. e = Exchanged (PostWithdraw request) a"
      using signed(2,5) by (auto simp: only_posts_def)
    have c: "cleared env d (es @ fs) intent digest" by (rule cleared_append [OF signed(4)])
    have "lawful_run env d s t2"
      unfolding lawful_run_def using fs c w same signed(3,6) by (fastforce simp: posts_append)
    moreover have "quietly t2 t"
      using w r2 moves_run [OF moves_settle] closing.order_refl by (cases r2) (auto simp: bind_run_def)
    ultimately show ?thesis by (rule lawful_quietly)
  qed
qed

section \<open>No panic\<close>

text \<open>What \<^verbatim>\<open>hex::encode\<close> documents: two hexadecimal digits per byte.\<close>

definition encodes_hex :: "listener_ext \<Rightarrow> bool" where
  "encodes_hex x \<longleftrightarrow>
     (\<forall>bs. length (lx_hex_encode x bs) = 2 * length bs \<and> list_all is_ascii_hexdigit (lx_hex_encode x bs))"

lemma bind_run_Inl:
  "bind_run m f r = (Inl e, r') \<longleftrightarrow> m r = (Inl e, r') \<or> (\<exists>u s. m r = (Inr u, s) \<and> f u s = (Inl e, r'))"
  by (auto simp: bind_run_def split: prod.split sum.split)

lemma lift_result_quiet_Inl: "lift_result wrap (ret ()) r s = (Inl e, t) \<longleftrightarrow> (\<exists>e'. r = Inl e' \<and> e = wrap e') \<and> t = s"
  by (cases r) (auto simp: lift_result_def)

lemma lift_result_emit_Inl:
  "lift_result wrap (emit_event env step outcome n burn) r s = (Inl e, t) \<Longrightarrow> \<exists>e'. r = Inl e' \<and> e = wrap e'"
  by (cases r) (auto simp: lift_result_def bind_run_def)

lemma on_submit_Inl: "on_submit_state wrap m s = (Inl e, t) \<Longrightarrow> \<exists>e'. e = wrap e'"
  by (auto simp: on_submit_state_def split: prod.splits sum.splits)

lemma or_panic_Inl: "or_panic v s = (Inl e, t) \<longleftrightarrow> v = None \<and> e = RunPanicked \<and> t = s"
  by (cases v) (auto simp: or_panic_def)

lemma at_index_Inl: "at_index xs i s = (Inl e, t) \<longleftrightarrow> \<not> i < length xs \<and> e = RunPanicked \<and> t = s"
  by (auto simp: at_index_def or_panic_Inl)

lemma hex32_of_total: "encodes_hex x \<Longrightarrow> length bs = 32 \<Longrightarrow> \<exists>h. hex32_of x bs = Some h"
  by (auto simp: hex32_of_def expect_Some hex32_new_def wire_new_def hex_body_of_len_def hex_body_def is_some_and_def
      encodes_hex_def)

lemma decimal_amount_of_nat: "is_decimal_amount (show_nat n) None"
proof -
  have "c \<noteq> CHR ''.''" if "c \<in> set (show_nat n)" for c
    using show_nat_digits [of n] that by (auto simp: is_ascii_digit_def)
  then have whole: "dropWhile (\<lambda>c. c \<noteq> CHR ''.'') (show_nat n) = []" by auto
  show ?thesis
    unfolding is_decimal_amount_def whole is_decimal_digits_def using show_nat_digits [of n] by (simp add: list_all_iff)
qed

lemma build_prepare_total: "encodes_hex x \<Longrightarrow> build_prepare_request x burn cfg \<noteq> None"
  using hex32_of_total [of x "be_bytes 32 (lx_eth_bytes32 x (ob_depositor burn))"]
    hex32_of_total [of x "be_bytes 32 (dest_recipient (ob_payload burn))"]
  by (auto simp: build_prepare_request_def decimal_amount_new_def wire_new_def decimal_amount_of_nat expect_def)

lemma build_batch_total:
  "encodes_hex x \<Longrightarrow> build_withdraw_batch x intent quorum burn fwd =
     Some (withdraw_batch_new [intent] (map (signature_to_hex x) (qb_signatures quorum)) burn fwd)"
proof -
  assume x: "encodes_hex x"
  then have "expect (hex_bytes_new (signature_to_hex x sig)) = Some (signature_to_hex x sig)" for sig
    by (simp add: expect_Some hex_bytes_new_Inr signature_to_hex_def is_hex_def hex_body_def is_some_and_def encodes_hex_def)
  moreover have "those (map (\<lambda>s. Some (f s)) sigs) = Some (map f sigs)" for f :: "signature65 \<Rightarrow> string" and sigs
    by (induction sigs) auto
  ultimately show ?thesis by (simp add: build_withdraw_batch_def)
qed

lemma discover_no_panic:
  assumes "encodes_hex (re_ext env)"
  shows "discover_and_validate env d s \<noteq> (Inl RunPanicked, t)"
proof
  assume run: "discover_and_validate env d s = (Inl RunPanicked, t)"
  have len: "length resp = batch_count v" if "validate_returned x resp burn cfg = Inr v" for x resp burn cfg v
    using that by (auto simp: validate_returned_Inr batch_count_def list_all2_lengthD)
  show False
    using run build_prepare_total [OF assms]
    unfolding discover_and_validate_def Let_def
    by (auto simp: bind_run_Inl stage_Inr lift_result_quiet_Inl or_panic_Inl at_index_Inl ONLY_BATCH_def ONLY_INTENT_def
        ONE_BATCH_PER_BURN_def ONE_INTENT_PER_BURN_def dest!: lift_result_emit_Inl on_submit_Inl len split: if_splits)
qed

lemma sign_no_panic:
  assumes "vw_digests validated = [digest]"
  shows "sign_quorum env n validated s \<noteq> (Inl RunPanicked, t)"
  using assms unfolding sign_quorum_def call_signer_def
  by (auto simp: bind_run_Inl stage_Inr lift_result_quiet_Inl or_panic_Inl at_index_Inl batch_count_def split: if_splits)

lemma authorize_no_panic:
  assumes "encodes_hex (re_ext env)"
    and req: "\<exists>b. build_prepare_request (re_ext env) b (re_config env) = Some (Inr request)"
  shows "evidence_and_authorize env n request validated intent quorum s \<noteq> (Inl RunPanicked, t)"
proof -
  obtain input where "request = [input]" using req built_not_forwarding by blast
  then show ?thesis
    using build_batch_total [OF assms(1)] unfolding evidence_and_authorize_def Let_def
    by (auto simp: bind_run_Inl stage_Inr lift_result_quiet_Inl or_panic_Inl at_index_Inl ONLY_BATCH_def
        dest!: lift_result_emit_Inl)
qed

text \<open>A \<^verbatim>\<open>201\<close> that is reported as submitted has one status per batch, each with a well-formed ID.\<close>

lemma backoff_Inr: "backoff_from policy op n s = (Inr v, t) \<Longrightarrow> \<exists>s' t'. op s' = (Inr v, t')"
proof (induction policy op n s rule: backoff_from.induct)
  case (1 policy op n s)
  obtain r u where r: "op s = (r, u)" by fastforce
  show ?case
  proof (cases r)
    case (Inr w)
    then show ?thesis using 1(2) r by (subst (asm) backoff_from.simps) auto
  next
    case (Inl e)
    then have again: "\<not> (\<not> is_retryable e \<or> rp_max_attempts policy \<le> n)"
      "backoff_from policy op (n + 1) (sleep (backoff_for policy n) u) = (Inr v, t)"
      using 1(2) r by (subst (asm) backoff_from.simps, simp split: if_splits)+
    show ?thesis by (rule 1(1) [OF r [symmetric] _ again]) (use Inl in auto)
  qed
qed

lemma attempt_created:
  assumes "attempt_withdraw env request s = (Inr (AttemptCreated sts), t)"
  shows "length sts = length request \<and> (\<forall>st \<in> set sts. is_uuid (ws_withdrawal_id st))"
proof -
  obtain b u where "decode_withdraw_created env b (length request) u = (Inr sts, t)"
    using assms unfolding attempt_withdraw_def by (auto simp: bind_run_Inr split: if_splits)
  then obtain body where len: "length sts = length request"
    and dec: "Option.bind (wx_from_slice (se_codecs env) body) (json_as_list withdrawal_status_decode) = Some sts"
    unfolding decode_withdraw_created_def
    by (auto simp: bind_run_Inr decode_body_def split: if_splits option.splits)
  obtain vs where "those (map withdrawal_status_decode vs) = Some sts"
    using dec by (auto simp: bind_eq_Some_conv elim: json_as_list.elims)
  then have "map withdrawal_status_decode vs = map Some sts"
    by (induction vs arbitrary: sts) (auto split: option.splits)
  then have "\<exists>j. withdrawal_status_decode j = Some st" if "st \<in> set sts" for st
    using that by (metis (no_types, lifting) imageE image_eqI list.set_map)
  then show ?thesis using len withdrawal_status_decode_valid by blast
qed

lemma submitted_statuses:
  assumes "submit_withdraw env request s = (Inr (OutcomeSubmitted sts), t)"
  shows "length sts = length request \<and> (\<forall>st \<in> set sts. is_uuid (ws_withdrawal_id st))"
proof -
  obtain keys burns u where post: "post_and_settle env request keys burns u = (Inr (OutcomeSubmitted sts), t)"
    using assms unfolding submit_withdraw_def Let_def
    by (auto simp: bind_run_Inr split: option.splits claim_outcome.splits) (metis claim_outcome.exhaust)
  obtain a w where a: "with_backoff env (attempt_withdraw env request) u = (a, w)" by fastforce
  have "a = Inr (AttemptCreated sts)"
    using post a unfolding post_and_settle_def settle_created_def recover_conflict_def Let_def
    by (auto simp: bind_run_Inr split: sum.splits submit_attempt.splits option.splits prod.splits if_splits)
  then have "backoff_from (se_retry env) (attempt_withdraw env request) 1 u = (Inr (AttemptCreated sts), w)"
    using a by (simp add: with_backoff_def)
  from backoff_Inr [OF this] show ?thesis using attempt_created by blast
qed

lemma settle_no_panic:
  assumes "\<And>sts. out = OutcomeSubmitted sts \<Longrightarrow> sts \<noteq> [] \<and> (\<forall>st \<in> set sts. is_uuid (ws_withdrawal_id st))"
  shows "settle env n burn out s \<noteq> (Inl RunPanicked, t)"
proof (cases out)
  case (OutcomeSubmitted sts)
  have "expect (uuid_new (ws_withdrawal_id (sts ! 0))) \<noteq> None"
    using assms [OF OutcomeSubmitted] by (auto simp: uuid_new_def wire_new_def expect_def)
  then show ?thesis
    using assms [OF OutcomeSubmitted] OutcomeSubmitted
    by (auto simp: settle_submitted_def bind_run_Inl stage_Inr or_panic_Inl at_index_Inl dest!: on_submit_Inl split: if_splits)
qed (simp_all add: bind_run_Inl)

lemma run_once_no_panic:
  assumes x: "encodes_hex (re_ext env)"
  shows "run_once env d s \<noteq> (Inl RunPanicked, t)"
proof
  assume run: "run_once env d s = (Inl RunPanicked, t)"
  obtain request validated intent u where disc: "discover_and_validate env d s = (Inr (request, validated, intent), u)"
    and rest: "bind_run (sign_quorum env (dn_note_id d) validated) (\<lambda>quorum.
      bind_run (evidence_and_authorize env (dn_note_id d) request validated intent quorum) (\<lambda>(burn, withdraw).
      bind_run (on_submit_state RunSubmit (submit_withdraw (re_circle env) withdraw)) (settle env (dn_note_id d) burn))) u
      = (Inl RunPanicked, t)"
    using run discover_no_panic [OF x] unfolding run_once_def Let_def by (auto simp: bind_run_Inl)
  obtain digest where dig: "vw_digests validated = [digest]"
    and req: "\<exists>b. build_prepare_request (re_ext env) b (re_config env) = Some (Inr request)"
    using discover_Inr [OF disc] by metis
  obtain quorum u2 burn withdraw u3 where q: "sign_quorum env (dn_note_id d) validated u = (Inr quorum, u2)"
    and au: "evidence_and_authorize env (dn_note_id d) request validated intent quorum u2 = (Inr (burn, withdraw), u3)"
    and sub: "bind_run (on_submit_state RunSubmit (submit_withdraw (re_circle env) withdraw)) (settle env (dn_note_id d) burn) u3
      = (Inl RunPanicked, t)"
    using rest sign_no_panic [OF dig] authorize_no_panic [OF x req] by (auto simp: bind_run_Inl)
  have one: "\<exists>b. withdraw = [b]" using authorize_Inr(2) [OF au req dig sign_quorum_Inr [OF q dig]] by blast
  obtain out t2 t3 where out: "submit_withdraw (re_circle env) withdraw t2 = (Inr out, t3)"
    and panic: "\<exists>u4. settle env (dn_note_id d) burn out u4 = (Inl RunPanicked, t)"
    using sub by (auto simp: bind_run_Inl on_submit_Inr dest: on_submit_Inl)
  show False using settle_no_panic [of out env "dn_note_id d" burn] panic submitted_statuses out one by fastforce
qed

section \<open>What the ledger says after a run\<close>

text \<open>What an outcome says of the ledger's row for the burn \<open>key\<close>.\<close>

fun run_accounts :: "string \<Rightarrow> run_outcome \<Rightarrow> ledger \<Rightarrow> bool" where
  "run_accounts key (Withdrawn burn wid status) t \<longleftrightarrow>
     burn_key_new burn = key \<and> burn_key_new (ws_burn_tx_id status) = key \<and> ws_withdrawal_id status = wid \<and>
     held key (if ws_status status = StatusFinalized then ledger_status.Finalized else ledger_status.Submitted) (Some wid) t"
| "run_accounts key (ConflictRecovered burn wid status) t \<longleftrightarrow>
     burn_key_new burn = key \<and> burn_key_new (ws_burn_tx_id status) = key \<and> ws_withdrawal_id status = wid \<and>
     held key (if ws_status status = StatusFinalized then ledger_status.Finalized else ReconciliationRequired) (Some wid) t"
| "run_accounts key (RunReconciliationRequired burn ConflictNamedNoWithdrawal) t \<longleftrightarrow>
     burn_key_new burn = key \<and> (\<exists>w. held key ReconciliationRequired w t)"
| "run_accounts key (RunReconciliationRequired burn (EchoMismatch echoed)) t \<longleftrightarrow>
     burn_key_new burn = key \<and> ((\<exists>w. held key ReconciliationRequired w t) \<or> (\<exists>w. held key ledger_status.Submitted w t))"
| "run_accounts key (AlreadySubmitted burn st) t \<longleftrightarrow> burn = key \<and> (\<exists>w. held key st w t)"

lemma minds_own_later: "minds_own env k keys \<Longrightarrow> k \<le> k' \<Longrightarrow> minds_own env k' keys"
  unfolding minds_own_def using le_less_trans by blast

lemma finalize_effect:
  assumes "ledger_tx env (\<lambda>f now. record_finalized f now key (Some wid)) s = (v, t)"
    and own: "minds_own env k0 [key]" "k0 < su_tick s" and "held key st w (su_ledger s)"
  shows "\<And>rec. v = Inr rec \<Longrightarrow> held key ledger_status.Finalized (Some wid) (su_ledger t)"
proof -
  have "settle_one env (key, ledger_status.Finalized, Some wid) s = (v, t)"
    using assms(1) by (simp add: settle_one_def record_defs)
  from settle_one_effect [OF this own _ assms(4)] show "held key ledger_status.Finalized (Some wid) (su_ledger t)"
    if "v = Inr rec" for rec using that by (simp add: bound_id_def)
qed

lemma settle_submitted_accounts:
  assumes run: "settle_submitted env n burn [st] s = (Inr out, t)"
    and own: "minds_own (re_circle env) k0 [burn_key_new burn]" "k0 < su_tick (rn_submit s)"
    and held: "held (burn_key_new burn) ledger_status.Submitted (Some (ws_withdrawal_id st)) (su_ledger (rn_submit s))"
  shows "run_accounts (burn_key_new burn) out (su_ledger (rn_submit t))"
proof -
  let ?c = "re_circle env" and ?key = "burn_key_new burn" and ?wid = "ws_withdrawal_id st"
  obtain status u where poll: "poll_status ?c ?wid (rn_submit s) = (Inr status, u)"
    and rest: "(if \<not> eq_ignore_ascii_case (ws_burn_tx_id status) burn
        then out = RunReconciliationRequired burn (EchoMismatch (ws_burn_tx_id status)) \<and> rn_submit t = u
        else out = Withdrawn burn ?wid status \<and>
          (if ws_status status = StatusFinalized
           then \<exists>rec. ledger_tx ?c (\<lambda>f now. record_finalized f now ?key (Some (ws_withdrawal_id status))) u = (Inr rec, rn_submit t)
           else rn_submit t = u))"
    using run unfolding settle_submitted_def
    by (auto simp: stage_Inr expect_Some uuid_new_def wire_new_def split: if_splits)
  have "only_polls (rn_submit s) u" by (rule moves_run [OF moves_poll_status poll])
  then have u: "held ?key ledger_status.Submitted (Some ?wid) (su_ledger u)" "k0 < su_tick u"
    using held own(2) by (auto simp: only_polls_def)
  note id = poll_status_id [OF poll]
  show ?thesis
  proof (cases "eq_ignore_ascii_case (ws_burn_tx_id status) burn")
    case False
    then show ?thesis using rest u by auto
  next
    case True
    then show ?thesis
      using rest u id finalize_effect [OF _ own(1) u(2,1)] by (auto simp: same_burn split: if_splits)
  qed
qed

lemma already_submitted_held:
  assumes run: "submit_withdraw env request s = (Inr (OutcomeAlreadySubmitted burn st), t)"
    and wf: "well_formed (su_ledger s)" and keys: "request_keys request = [key]"
  shows "burn = key \<and> (\<exists>w. held key st w (su_ledger t))"
proof -
  obtain c u where c: "ledger_tx env (\<lambda>f n. claim_burns f n [key]) s = (Inr c, u)"
    and rest: "after_claim env request [key] (map wb_burn_tx_id request) c u = (Inr (OutcomeAlreadySubmitted burn st), t)"
    using run keys unfolding submit_as_claim by (auto simp: bind_run_Inr split: option.splits)
  have "post_and_settle env request ks bs u' \<noteq> (Inr (OutcomeAlreadySubmitted burn st), t)" for ks bs u'
    unfolding post_and_settle_def settle_created_def recover_conflict_def Let_def
    by (auto simp: bind_run_Inr split: sum.splits submit_attempt.splits option.splits prod.splits if_splits)
  then obtain rec where rec: "c = AlreadySeen rec" "burn = sr_burn_key rec" "st = sr_status rec" "t = u"
    using rest by (cases c) (auto simp: after_claim_def)
  define t0 where "t0 = snd (ledger_run (se_others env (su_tick s)) (su_ledger s))"
  have wf0: "well_formed t0" unfolding t0_def by (rule ledger_run_well_formed [OF wf])
  have "claim_burns (se_sql_fails env (su_tick s)) (se_now env (su_tick s)) [key] t0 = (Inr (AlreadySeen rec), su_ledger u)"
    using c rec(1) by (auto simp: ledger_tx_def Let_def t0_def split: prod.splits sum.splits)
  then have "read_record key t0 = Inr (Some rec)" "blocks_resubmission (sr_status rec)" "su_ledger u = t0"
    by (auto simp: claim_burns_def write_tx_def as_aborted_def outcome_simps
        split: if_splits sum.splits option.splits prod.splits claim_aborted.splits)
  moreover have "sr_burn_key rec = key" using read_record_cases [OF wf0, of key] calculation(1) by auto
  ultimately show ?thesis using rec wf0 by (auto simp: held_def status_of_def blocks_resubmission_def)
qed

lemma run_outcome_accounts:
  assumes run: "run_once env d s = (Inr out, t)" and wf: "well_formed (su_ledger (rn_submit s))"
    and own: "\<forall>p. evidenced (re_tx_hex env) (re_evidence env) (dn_note_id d) (lc_faucet_id (re_config env)) p \<longrightarrow>
      minds_own (re_circle env) (su_tick (rn_submit s)) [burn_key_new (ep_burn_tx_id p)]"
  shows "\<exists>p. evidenced (re_tx_hex env) (re_evidence env) (dn_note_id d) (lc_faucet_id (re_config env)) p \<and>
    run_accounts (burn_key_new (ep_burn_tx_id p)) out (su_ledger (rn_submit t))"
  using run
proof (cases rule: run_once_stages)
  case (signed u intent digest es t1 r)
  obtain burn request where r: "r = Inr (burn, request)" using signed(7) by (cases r) auto
  note w = signed(8) [OF r]
  obtain p where p: "evidenced (re_tx_hex env) (re_evidence env) (dn_note_id d) (lc_faucet_id (re_config env)) p"
    and keys: "request_keys request = [burn_key_new burn]" and burn: "burn = ep_burn_tx_id p" and one: "length request = 1"
    using w unfolding withdrawal_for_def by auto
  let ?key = "burn_key_new burn" and ?s1 = "rn_submit t1"
  have s1: "su_ledger ?s1 = su_ledger (rn_submit s)" "su_tick (rn_submit s) \<le> su_tick ?s1"
    using signed(1,5) by (auto simp: gently_def only_polls_def)
  have mo: "minds_own (re_circle env) (su_tick ?s1) (request_keys request)"
    using minds_own_later s1(2) own p unfolding keys burn by blast
  obtain sub u2 where sub: "submit_withdraw (re_circle env) request ?s1 = (Inr sub, u2)"
    and set: "settle env (dn_note_id d) burn sub (t1\<lparr>rn_submit := u2\<rparr>) = (Inr out, t)"
    using w by (auto simp: stage_Inr)
  note tick = submit_tick [OF sub]
  have "run_accounts ?key out (su_ledger (rn_submit t))"
  proof (cases "\<exists>b st. sub = OutcomeAlreadySubmitted b st")
    case True
    then show ?thesis
      using set already_submitted_held [of "re_circle env" request ?s1] sub wf s1(1) keys by (auto simp: bind_run_Inr)
  next
    case False
    then obtain w where acc: "accounts_for [?key] w sub (su_ledger u2)"
      using submit_effect [OF sub _ mo] wf s1(1) keys by auto
    show ?thesis
    proof (cases sub)
      case (OutcomeSubmitted sts)
      obtain st where st: "sts = [st]" using submitted_statuses [OF sub [unfolded OutcomeSubmitted]] one
        by (auto simp: length_Suc_conv)
      show ?thesis
        by (rule settle_submitted_accounts [of env "dn_note_id d" burn st "t1\<lparr>rn_submit := u2\<rparr>" out t "su_tick ?s1"])
          (use set acc OutcomeSubmitted st mo keys tick False in auto)
    qed (use set acc False in \<open>auto simp: bind_run_Inr\<close>)
  qed
  then show ?thesis using p burn by blast
qed simp

section \<open>The local signer\<close>

text \<open>
  What \<^verbatim>\<open>k256\<close> documents of a recoverable signature: its 64 bytes read back, and the key recovered from
  the digest with the recovery ID is the signer's.
\<close>

definition recoverable :: "listener_ext \<Rightarrow> bool" where
  "recoverable x \<longleftrightarrow>
     (\<forall>key digest sig rid. lx_sign_prehash x key digest = Some (sig, rid) \<longrightarrow>
        length sig = 64 \<and>
        (\<exists>sig'. lx_signature_from_slice x sig = Some sig' \<and>
           lx_recover_from_prehash x digest sig' rid = Some (lx_verifying_key x key)))"

lemma attester_sign_recovers:
  assumes "recoverable x" and "attester_sign x digest key = Inr sig"
  shows "recover_address x digest sig = Some (address_of x key)"
proof -
  obtain rs rid v where rs: "lx_sign_prehash x key digest = Some (rs, rid)" and v: "evm_v_from_recovery_id rid = Some v"
    and sig: "sig = rs @ [v]"
    using assms(2) by (auto simp: attester_sign_def outcome_simps split: if_splits)
  have law: "length rs = 64" "\<exists>sig'. lx_signature_from_slice x rs = Some sig' \<and>
      lx_recover_from_prehash x digest sig' rid = Some (lx_verifying_key x key)"
    using assms(1) rs unfolding recoverable_def by blast+
  have "rid = 0 \<and> v = 27 \<or> rid = 1 \<and> v = 28"
    using v by (auto simp: evm_v_from_recovery_id_def EVM_V_OFFSET_def split: if_splits)
  then show ?thesis
    using law sig
    by (auto simp: recover_address_def signature_v_def SIGNATURE_LEN_def nth_append EVM_V_OFFSET_def address_of_def)
qed

definition claims_of :: "listener_ext \<Rightarrow> secret_key list \<Rightarrow> digest \<Rightarrow> (address \<times> signature65) list" where
  "claims_of x keys d = map (\<lambda>k. (address_of x k, projr (attester_sign x d k))) keys"

lemma insert_signatures_map:
  assumes "list_all2 (\<lambda>d s. attester_sign x d key = Inr s) ds sigs"
  shows "insert_signatures (address_of x key) sigs (map (\<lambda>d. f d @ claims_of x ks d) ds) =
    map (\<lambda>d. f d @ claims_of x (ks @ [key]) d) ds"
  using assms by (induction rule: list_all2_induct) (auto simp: insert_signatures_def claims_of_def)

lemma sign_with_keys_Inr:
  assumes "sign_with_keys x v keys (map (claims_of x ks) (vw_digests v)) = Inr res"
  shows "(\<forall>k \<in> set keys. \<forall>d \<in> set (vw_digests v). \<exists>s. attester_sign x d k = Inr s) \<and>
    res = map (claims_of x (ks @ keys)) (vw_digests v)"
  using assms
proof (induction keys arbitrary: ks)
  case (Cons key keys)
  obtain sigs where sigs: "list_all2 (\<lambda>d s. attester_sign x d key = Inr s) (vw_digests v) sigs"
    and rest: "sign_with_keys x v keys (insert_signatures (address_of x key) sigs (map (claims_of x ks) (vw_digests v))) = Inr res"
    using Cons.prems by (auto simp: outcome_simps sign_validated_def collect_all_Inr_iff)
  have "\<exists>s. attester_sign x d key = Inr s" if "d \<in> set (vw_digests v)" for d
    using sigs that by (auto simp: in_set_conv_nth list_all2_conv_all_nth)
  then show ?case
    using Cons.IH [of "ks @ [key]"] rest insert_signatures_map [OF sigs, of "\<lambda>_. []" ks] by auto
qed simp

lemma sign_batches_Inr:
  assumes "sign_batches x keys v = Inr per_batch"
  shows "(\<forall>k \<in> set keys. \<forall>d \<in> set (vw_digests v). \<exists>s. attester_sign x d k = Inr s) \<and>
    per_batch = map (\<lambda>d. sort_key fst (claims_of x keys d)) (vw_digests v)"
proof -
  have "claims_of x [] = (\<lambda>d. [])" by (simp add: claims_of_def fun_eq_iff)
  then have "replicate (batch_count v) [] = map (claims_of x []) (vw_digests v)"
    by (simp add: batch_count_def map_replicate_const)
  then show ?thesis
    using assms sign_with_keys_Inr [of x v keys "[]"] by (auto simp: sign_batches_def outcome_simps)
qed

lemma sorted_pair: "sort_key fst [(a, s), (b, t)] = (if a \<le> b then [(a, s), (b, t)] else [(b, t), (a, s)])"
  for a b :: "'a::linorder"
  by simp

lemma local_claims_quorum:
  assumes "recoverable x" and "\<forall>k \<in> set keys. \<exists>s. attester_sign x d k = Inr s"
  shows "(\<exists>q. assemble_quorum x d (sort_key fst (claims_of x keys d)) = Inr q) \<longleftrightarrow>
    length keys = MIN_SIGNATURE_THRESHOLD \<and> distinct (map (address_of x) keys)"
proof (cases "length keys = 2")
  case True
  then obtain k1 k2 where k: "keys = [k1, k2]" by (auto simp: numeral_2_eq_2 length_two)
  have rec: "recover_address x d (projr (attester_sign x d k)) = Some (address_of x k)" if "k \<in> {k1, k2}" for k
    using attester_sign_recovers [OF assms(1)] assms(2) k that by fastforce
  have "\<exists>q :: quorum_bundle. qb_signatures q = sigs" for sigs by (rule exI [of _ "\<lparr>qb_signatures = sigs\<rparr>"]) simp
  then show ?thesis
    using rec [of k1] rec [of k2]
    by (cases "address_of x k1 \<le> address_of x k2")
      (auto simp: k claims_of_def assemble_quorum_Inr MIN_SIGNATURE_THRESHOLD_def)
next
  case False
  have "length (sort_key fst (claims_of x keys d)) = length keys" by (simp add: claims_of_def)
  then show ?thesis using False by (auto simp: assemble_quorum_def MIN_SIGNATURE_THRESHOLD_def)
qed

end
