(* ===== verification/Withdraw_Safety.thy ===== *)
theory Withdraw_Safety
  imports Withdraw_Run_Props
begin

text \<open>
  The guarantees of a run of the withdrawal listener, with a run in which a burn is withdrawn and
  finalized.
\<close>

section \<open>A sample run\<close>

text \<open>Hexadecimal text; keys are single bytes, a signature repeats the key's byte and its address is that byte.\<close>

definition sample_nibble :: "int \<Rightarrow> char" where
  "sample_nibble n = char_of (if n < 10 then 48 + n else 87 + n)"

definition sample_encode :: "bytes \<Rightarrow> string" where
  "sample_encode bs = concat (map (\<lambda>b. [sample_nibble (uint b div 16), sample_nibble (uint b mod 16)]) bs)"

definition sample_digit :: "char \<Rightarrow> int" where
  "sample_digit c = (let n = of_char c in if n < 58 then n - 48 else n - 87)"

fun sample_decode :: "string \<Rightarrow> bytes option" where
  "sample_decode [] = Some []"
| "sample_decode [_] = None"
| "sample_decode (c # d # s) =
     map_option (\<lambda>bs. of_int (16 * sample_digit c + sample_digit d) # bs) (sample_decode s)"

definition sample_listener_ext :: listener_ext where
  "sample_listener_ext =
     \<lparr>lx_hex_encode = sample_encode, lx_hex_decode = sample_decode,
      lx_url_parse = (\<lambda>_. Some \<lparr>ur_scheme = ''https'', ur_host = Some ''circle''\<rparr>), lx_header_name = Some,
      lx_header_value = Some, lx_http_builds = True, lx_u64 = (\<lambda>_. None), lx_account_from_hex = (\<lambda>_. None),
      lx_account_from_elements = (\<lambda>suffix prefix. Some (ucast prefix)), lx_asset_amount = Some,
      lx_burn_items = (\<lambda>_. Some \<lparr>dest_domain = 3, dest_recipient = 0\<rparr>), lx_eth_bytes32 = (\<lambda>_. 0),
      lx_signature_from_slice = Some, lx_recover_from_prehash = (\<lambda>_ s _. Some (take 1 s)),
      lx_sign_prehash = (\<lambda>key _. Some (replicate 64 (hd key), 0)), lx_verifying_key = (\<lambda>key. [hd key]),
      lx_encoded_point = (\<lambda>key. 4 # key), lx_keccak256 = (\<lambda>p. replicate 12 0 @ p)\<rparr>"

definition sample_listener_config :: listener_config where
  "sample_listener_config =
     \<lparr>lc_faucet_id = 9, lc_burn_tag = 77, lc_miden_domain = 10001, lc_max_withdrawal_fee = 5,
      lc_circle_base_url = ''https://circle'', lc_attester_key_handles = [], lc_attester_allowlist = {1, 2},
      lc_api_auth_token = None, lc_api_auth_header = None\<rparr>"

definition sample_zero32 :: json where
  "sample_zero32 = JString (''0x'' @ replicate 64 CHR ''0'')"

definition run_hook :: json where
  "run_hook = JArray [JNumber ''10001'', sample_zero32, sample_zero32, JString ZERO_HEX20, JString ''0x'']"

definition run_spec :: json where
  "run_spec = JArray [JNumber ''1'', JNumber ''0'', JNumber ''3'', sample_zero32, sample_zero32, sample_zero32,
     sample_zero32, sample_zero32, sample_zero32, sample_zero32, sample_zero32, JString ''97'', sample_zero32, run_hook]"

definition sample_prepared :: json where
  "sample_prepared = JArray [JArray [JArray [JArray [JArray [JString ''5'', JString ''3'', run_spec]],
     JString ''00'', JString (''0x'' @ replicate 64 CHR ''7'')]]]"

definition sample_burn_status :: "string \<Rightarrow> json" where
  "sample_burn_status st = JArray [JString sample_uuid, JString ''0x02'', JString st, JString ''0x'', JString ''0x'',
     JBool False, JString (''0x'' @ replicate 64 CHR ''0''), JString ''none'', JArray []]"

definition run_json :: "bytes \<Rightarrow> json option" where
  "run_json body =
     (if body = [1] then Some sample_prepared
      else if body = [2] then Some (JArray [sample_burn_status ''created''])
      else if body = [3] then Some (sample_burn_status ''finalized'')
      else None)"

definition sample_number :: "json \<Rightarrow> u32 option" where
  "sample_number j = (case j of JNumber s \<Rightarrow> map_option of_nat (parse_unsigned (2 ^ 32) s) | _ \<Rightarrow> None)"

definition run_circle :: submit_env where
  "run_circle =
     \<lparr>se_codecs = \<lparr>wx_from_slice = run_json, wx_u32 = sample_number, wx_domain = sample_number\<rparr>,
      se_retry = retry_policy_new 3 1, se_poll_max_attempts = 2, se_max_response_bytes = 8,
      se_base_url = ''https://circle'', se_joins = (\<lambda>_. True), se_builds = (\<lambda>_. True),
      se_http = (\<lambda>_ call. case call of
          PostPrepare _ \<Rightarrow> sample_http_reply 200 [1]
        | PostWithdraw _ \<Rightarrow> sample_http_reply 201 [2]
        | GetWithdrawal _ \<Rightarrow> sample_http_reply 200 [3]),
      se_sql_fails = (\<lambda>_. False), se_now = (\<lambda>k. k), se_others = (\<lambda>_. [])\<rparr>"

definition sample_run_env :: run_env where
  "sample_run_env =
     \<lparr>re_ext = sample_listener_ext, re_config = sample_listener_config, re_circle = run_circle,
      re_signer = sign_batches sample_listener_ext [[2], [1]], re_evidence = sample_reads sample_rows,
      re_note_hex = (\<lambda>_. ''0x05''), re_tx_hex = (\<lambda>_. ''0x02'')\<rparr>"

definition sample_discovered :: discovered_note where
  "sample_discovered = \<lparr>dn_note_id = 5, dn_record = \<lparr>dr_tag = 77, dr_details =
     Some \<lparr>dd_items = [], dd_amount = 100, dd_sender = from_raw_sender 4 0\<rparr>\<rparr>\<rparr>"

definition sample_run_state :: run_state where
  "sample_run_state = \<lparr>rn_submit = \<lparr>su_ledger = [], su_tick = 0, su_trace = []\<rparr>, rn_events = [], rn_signed = []\<rparr>"

section \<open>The sample run evaluated\<close>

lemma nibble_back: "0 \<le> n \<Longrightarrow> n < 16 \<Longrightarrow> sample_digit (sample_nibble n) = n"
  by (simp add: sample_digit_def sample_nibble_def Let_def)

lemma nibble_hexdigit: "0 \<le> n \<Longrightarrow> n < 16 \<Longrightarrow> is_ascii_hexdigit (sample_nibble n)"
  unfolding is_ascii_hexdigit_def of_char_between by (auto simp: sample_nibble_def)

lemma byte_nibbles: "0 \<le> uint b div 16" "uint b div 16 < 16" "0 \<le> uint b mod 16" "uint b mod 16 < 16" for b :: u8
  using uint_lt2p [of b] by (simp_all add: pos_imp_zdiv_nonneg_iff)

lemma sample_codec: "sample_decode (sample_encode bs) = Some bs"
proof (induction bs)
  case (Cons b bs)
  have "(of_int (16 * (uint b div 16) + uint b mod 16) :: u8) = b" by simp
  then show ?case using Cons by (simp add: sample_encode_def nibble_back byte_nibbles)
qed (simp add: sample_encode_def)

lemma sample_encodes_hex: "encodes_hex sample_listener_ext"
proof -
  have "length (sample_encode bs) = 2 * length bs \<and> list_all is_ascii_hexdigit (sample_encode bs)" for bs
    by (induction bs) (auto simp: sample_encode_def nibble_hexdigit byte_nibbles)
  then show ?thesis by (simp add: encodes_hex_def sample_listener_ext_def)
qed

lemma sample_recoverable: "recoverable sample_listener_ext"
  by (simp add: recoverable_def sample_listener_ext_def)

lemma sample_decode_repeat:
  "sample_decode (replicate (2 * n) c) = Some (replicate n (of_int (16 * sample_digit c + sample_digit c)))"
  by (induction n) simp_all

definition zero_text :: string where "zero_text = ''0x'' @ replicate 64 CHR ''0''"

definition sample_digest :: digest where "sample_digest = replicate 32 0x77"

definition run_intent :: circle_burn_intent where
  "run_intent = \<lparr>cb_max_block_height = ''5'', cb_max_fee = ''3'', cb_spec =
     \<lparr>cs_version = 1, cs_source_domain = 0, cs_destination_domain = 3, cs_source_contract = zero_text,
      cs_destination_contract = zero_text, cs_source_token = zero_text, cs_destination_token = zero_text,
      cs_source_depositor = zero_text, cs_destination_recipient = zero_text, cs_source_signer = zero_text,
      cs_destination_caller = zero_text, cs_value = ''97'', cs_salt = zero_text,
      cs_hook_data = \<lparr>ch_remote_domain = 10001, ch_remote_depositor = zero_text, ch_remote_token = zero_text,
        ch_forwarding_contract_address = ZERO_HEX20, ch_forwarding_calldata = ''0x''\<rparr>\<rparr>\<rparr>"

definition run_batch :: prepared_batch where
  "run_batch = \<lparr>pd_burn_intents = [run_intent], pd_encoded = ''00'',
     pd_message_hash_to_sign = ''0x'' @ replicate 64 CHR ''7''\<rparr>"

definition run_burn :: observed_burn where
  "run_burn = \<lparr>ob_payload = \<lparr>dest_domain = 3, dest_recipient = 0\<rparr>, ob_amount = 100, ob_depositor = 4\<rparr>"

lemma zero_text_reads:
  "hex32_string sample_zero32 = Some zero_text"
  "decode_hex32 sample_listener_ext zero_text = Some (replicate 32 0)"
  using sample_decode_repeat [of 32 "CHR ''0''"]
  by (simp_all add: hex32_string_def wire_string_def sample_zero32_def zero_text_def hex_body_of_len_def hex_body_def
      is_some_and_def list_all_iff is_ascii_hexdigit_code decode_hex32_def sample_listener_ext_def array32_def sample_digit_def)

lemma zero_bytes: "be_bytes n (0 :: 'a::len word) = replicate n 0"
proof -
  have "byte_at (0 :: 'a word) = (\<lambda>_. 0)" by (simp add: byte_at_def fun_eq_iff)
  then show ?thesis by (simp add: be_bytes_def map_replicate_const)
qed

lemma sample_digest_reads: "digest_of sample_listener_ext (''0x'' @ replicate 64 CHR ''7'') = Some sample_digest"
  using sample_decode_repeat [of 32 "CHR ''7''"]
  by (simp add: digest_of_def strip_hex_def hex_body_def sample_listener_ext_def array32_def sample_digit_def sample_digest_def)

lemma sample_decodes:
  "Option.bind (wx_from_slice (se_codecs run_circle) [1]) (prepare_response_decode (se_codecs run_circle)) = Some [run_batch]"
proof -
  have numbers: "sample_number (JNumber ''10001'') = Some 10001" "sample_number (JNumber ''0'') = Some 0"
    "sample_number (JNumber ''1'') = Some 1" "sample_number (JNumber ''3'') = Some 3" by code_simp+
  have texts: "wire_string (\<lambda>v. hex_body_of_len v 40) (JString ZERO_HEX20) = Some ZERO_HEX20"
    "wire_string is_calldata (JString ''0x'') = Some ''0x''" "wire_string is_decimal_digits (JString ''97'') = Some ''97''"
    "wire_string is_decimal_digits (JString ''5'') = Some ''5''" "wire_string is_decimal_digits (JString ''3'') = Some ''3''"
    by code_simp+
  have hook: "hook_data_decode (se_codecs run_circle) run_hook = Some (cs_hook_data (cb_spec run_intent))"
    by (simp add: hook_data_decode_def run_hook_def hook_data_fields_def hook_data_of_def required_def run_circle_def
        numbers texts zero_text_reads run_intent_def)
  have spec: "transfer_spec_decode (se_codecs run_circle) run_spec = Some (cb_spec run_intent)"
    unfolding transfer_spec_decode_def run_spec_def transfer_spec_fields_def transfer_spec_of_def required_def
    using hook by (simp add: numbers texts zero_text_reads run_circle_def run_intent_def)
  have "burn_intent_decode (se_codecs run_circle) (JArray [JString ''5'', JString ''3'', run_spec]) = Some run_intent"
    using spec by (simp add: burn_intent_decode_def burn_intent_of_def required_def texts run_intent_def)
  then show ?thesis
    by (simp add: run_circle_def run_json_def sample_prepared_def prepare_response_decode_def prepare_response_of_def
        required_def prepared_batch_decode_def prepared_batch_of_def run_batch_def)
qed

lemma sample_releases: "releases_burn sample_listener_ext sample_listener_config run_burn run_intent"
proof -
  have "parse_u128 ''3'' = Some 3" "parse_u128 ''97'' = Some 97" by code_simp+
  moreover have "lx_eth_bytes32 sample_listener_ext a = 0" for a by (simp add: sample_listener_ext_def)
  ultimately show ?thesis
    by (simp add: releases_burn_def hook_matches_def run_intent_def run_burn_def sample_listener_config_def
        zero_text_reads zero_bytes ZERO_BYTES32_def NO_FORWARDING_CALLDATA_def)
qed

lemma run_sample_validates:
  "validate_returned sample_listener_ext [run_batch] run_burn sample_listener_config = Inr \<lparr>vw_digests = [sample_digest]\<rparr>"
  unfolding validate_returned_Inr
  using sample_digest_reads by (simp add: clears_def run_batch_def sample_releases)

lemma sample_discovers:
  "validate_discovery sample_listener_ext sample_listener_config (dn_record sample_discovered) = Inr run_burn"
  by (simp add: validate_discovery_def sample_discovered_def sample_listener_config_def decode_burn_payload_def
      read_sender_def from_raw_sender_def sample_listener_ext_def run_burn_def)

definition sample_prepare :: prepare_withdrawal_request where
  "sample_prepare = [\<lparr>pn_token = Usdc, pn_value_excluding_fees = None, pn_value_including_fees = Some ''100'',
     pn_remote_domain = 10001, pn_remote_depositor = zero_text, pn_final_destination_domain = 3,
     pn_final_destination_recipient = zero_text, pn_final_destination_caller = None, pn_salt = None,
     pn_use_circle_forwarding = False, pn_forwarding_options = None\<rparr>]"

lemma sample_builds: "build_prepare_request sample_listener_ext run_burn sample_listener_config = Some (Inr sample_prepare)"
proof -
  have "sample_nibble 0 = CHR ''0''" by code_simp
  then have "sample_encode (replicate n 0) = replicate (2 * n) CHR ''0''" for n
    by (induction n) (simp_all add: sample_encode_def)
  from this [of 32] have enc: "lx_hex_encode sample_listener_ext (replicate 32 0) = replicate 64 CHR ''0''"
    by (simp add: sample_listener_ext_def)
  obtain h where "hex32_of sample_listener_ext (replicate 32 0) = Some h"
    using hex32_of_total [OF sample_encodes_hex, of "replicate 32 0"] by auto
  then have hex: "hex32_of sample_listener_ext (replicate 32 0) = Some zero_text"
    by (auto simp: hex32_of_def expect_Some hex32_new_def wire_new_def enc zero_text_def split: if_splits)
  have amount: "expect (decimal_amount_new (show_nat 100)) = Some ''100''" by code_simp
  have "lx_eth_bytes32 sample_listener_ext a = 0" for a by (simp add: sample_listener_ext_def)
  then show ?thesis
    using hex amount by (simp add: build_prepare_request_def run_burn_def zero_bytes sample_prepare_def
        prepare_input_build_def prepare_input_validate_def sample_listener_config_def)
qed

definition sample_signature :: "u8 \<Rightarrow> signature65" where
  "sample_signature k = replicate 64 k @ [27]"

lemma length_sample_signature: "length (sample_signature k) = SIGNATURE_LEN"
  by (simp add: sample_signature_def SIGNATURE_LEN_def)

lemma address_order: "\<not> (2 :: address) \<le> 1" "(1 :: address) < 2"
  by (simp_all add: word_le_nat_alt word_less_nat_alt)

lemma run_sample_signs: "attester_sign sample_listener_ext sample_digest [k] = Inr (sample_signature k)"
  by (simp add: attester_sign_def sample_digest_def DIGEST_LEN_def sample_listener_ext_def evm_v_from_recovery_id_def
      EVM_V_OFFSET_def sample_signature_def)

lemma sample_address: "address_of sample_listener_ext [k] = ucast k"
  by (simp add: address_of_def address_from_verifying_key_def sample_listener_ext_def of_be_bytes_def)

lemma run_sample_recovers: "recover_address sample_listener_ext sample_digest (sample_signature k) = Some (ucast k)"
  using attester_sign_recovers [OF sample_recoverable run_sample_signs] by (simp add: sample_address)

definition sample_claims :: signed_claims where
  "sample_claims = [[(1, sample_signature 1), (2, sample_signature 2)]]"

lemma sample_signer: "re_signer sample_run_env \<lparr>vw_digests = [sample_digest]\<rparr> = Inr sample_claims"
  by (simp add: sample_run_env_def sign_batches_def sign_validated_def run_sample_signs sample_address batch_count_def
      insert_signatures_def sample_claims_def address_order)

lemma sample_quorum:
  "assemble_quorum sample_listener_ext sample_digest (sample_claims ! 0) = Inr \<lparr>qb_signatures = map sample_signature [1, 2]\<rparr>"
  unfolding assemble_quorum_Inr by (simp add: sample_claims_def run_sample_recovers address_order)

definition sample_withdraw :: withdraw_request where
  "sample_withdraw = [\<lparr>wb_burn_intents = [run_intent],
     wb_burn_signatures = map (signature_to_hex sample_listener_ext) (map sample_signature [1, 2]),
     wb_burn_tx_id = ''0x02'', wb_use_circle_forwarding = False\<rparr>]"

lemma run_sample_authorizes:
  "authorize_submission sample_listener_ext sample_withdraw \<lparr>vw_digests = [sample_digest]\<rparr> sample_listener_config =
     Inr \<lparr>aw_request = sample_withdraw\<rparr>"
proof -
  have "decode_signature_hex sample_listener_ext (signature_to_hex sample_listener_ext sig) = Some sig" for sig
    by (simp add: decode_signature_hex_def strip_hex_def hex_body_def signature_to_hex_def sample_listener_ext_def sample_codec)
  then have "signed_by_attester sample_listener_ext {1, 2} sample_digest (signature_to_hex sample_listener_ext (sample_signature k))"
    if "k = 1 \<or> k = 2" for k :: u8
    using that by (auto simp: signed_by_attester_def run_sample_recovers length_sample_signature)
  then show ?thesis
    unfolding authorize_submission_Inr by (simp add: sample_listener_config_def sample_withdraw_def)
qed

lemma sample_evidence:
  "assemble_evidence (\<lambda>_. ''0x02'') (sample_reads sample_rows) 5 9 =
     Inr \<lparr>ep_burn_tx_id = ''0x02'', ep_note_id = be_bytes 32 (5 :: note_id), ep_nullifier = be_bytes 32 (7 :: nullifier), ep_block_num = 3\<rparr>"
  by (simp add: assemble_evidence_def sample_reads_def read_port_def Let_def link_spend_def burn_transaction_def
      sample_rows_def evidence_row_def consumes_def single_row_def)

lemma sample_batch_builds:
  "build_withdraw_batch sample_listener_ext run_intent \<lparr>qb_signatures = map sample_signature [1, 2]\<rparr> ''0x02'' False =
     Some (Inr (hd sample_withdraw))"
  unfolding build_batch_total [OF sample_encodes_hex]
  by (simp add: withdraw_batch_new_def BURN_INTENTS_MIN_def BURN_INTENTS_MAX_def BURN_SIGNATURES_MIN_def sample_withdraw_def)

text \<open>The state in which the sample withdrawal is submitted, and what follows.\<close>

definition run_event :: "string \<Rightarrow> string \<Rightarrow> string option \<Rightarrow> listener_event" where
  "run_event step outcome burn = \<lparr>le_step = step, le_outcome = outcome, le_note_id = ''0x05'', le_burn_tx_id = burn\<rparr>"

definition sample_mid :: run_state where
  "sample_mid =
     \<lparr>rn_submit = \<lparr>su_ledger = [], su_tick = 1,
        su_trace = [Exchanged (PostPrepare sample_prepare) (Inr \<lparr>ra_status = 200, ra_body = [1]\<rparr>)]\<rparr>,
      rn_events = [run_event ''B3'' ''discovered'' None, run_event ''B4'' ''prepare-request-built'' None,
        run_event ''B5'' ''validated'' None, run_event ''B6'' ''signed'' None,
        run_event ''B7'' ''evidence-assembled'' (Some ''0x02'')],
      rn_signed = [[sample_digest]]\<rparr>"

lemma sample_prepares:
  "prepare run_circle sample_prepare (rn_submit sample_run_state) = (Inr [run_batch], rn_submit sample_mid)"
proof -
  have "circle_execute run_circle (PostPrepare sample_prepare) (rn_submit sample_run_state) =
      (Inr \<lparr>ra_status = 200, ra_body = [1]\<rparr>, rn_submit sample_mid)"
    by (simp add: circle_execute_def Let_def run_circle_def sample_http_reply_def reqwest_execute_def collect_bounded_def
        check_content_length_def sample_run_state_def sample_mid_def)
  then show ?thesis
    using sample_decodes
    by (simp add: prepare_def build_request_def run_circle_def bind_run_def STATUS_PREPARE_OK_def decode_body_def)
qed

lemma sample_run_submits:
  "run_once sample_run_env sample_discovered sample_run_state =
     bind_run (on_submit_state RunSubmit (submit_withdraw run_circle sample_withdraw)) (settle sample_run_env 5 ''0x02'') sample_mid"
proof -
  note env = sample_run_env_def
  have disc: "discover_and_validate sample_run_env sample_discovered sample_run_state =
      (Inr (sample_prepare, \<lparr>vw_digests = [sample_digest]\<rparr>, run_intent),
       sample_mid\<lparr>rn_events := take 3 (rn_events sample_mid), rn_signed := []\<rparr>)"
    using sample_discovers sample_builds sample_prepares run_sample_validates
    by (simp add: discover_and_validate_def bind_run_def lift_result_def or_panic_def at_index_def on_submit_state_def env
        batch_count_def ONE_BATCH_PER_BURN_def ONE_INTENT_PER_BURN_def ONLY_BATCH_def ONLY_INTENT_def run_batch_def
        sample_mid_def run_event_def sample_run_state_def sample_discovered_def)
  have sign: "sign_quorum sample_run_env 5 \<lparr>vw_digests = [sample_digest]\<rparr>
        (sample_mid\<lparr>rn_events := take 3 (rn_events sample_mid), rn_signed := []\<rparr>) =
      (Inr \<lparr>qb_signatures = map sample_signature [1, 2]\<rparr>, sample_mid\<lparr>rn_events := take 4 (rn_events sample_mid)\<rparr>)"
    using sample_signer sample_quorum
    by (simp add: sign_quorum_def call_signer_def bind_run_def lift_result_def or_panic_def at_index_def env
        batch_count_def sample_claims_def sample_mid_def run_event_def)
  have auth: "evidence_and_authorize sample_run_env 5 sample_prepare \<lparr>vw_digests = [sample_digest]\<rparr> run_intent
        \<lparr>qb_signatures = map sample_signature [1, 2]\<rparr> (sample_mid\<lparr>rn_events := take 4 (rn_events sample_mid)\<rparr>) =
      (Inr (''0x02'', sample_withdraw), sample_mid)"
  proof -
    have "build_withdraw_request [hd sample_withdraw] = Inr sample_withdraw"
      by (simp add: build_withdraw_request_def withdraw_request_new_def BATCHES_MIN_def BATCHES_MAX_def sample_withdraw_def)
    moreover have "lc_faucet_id sample_listener_config = 9" by (simp add: sample_listener_config_def)
    ultimately show ?thesis
      using sample_evidence sample_batch_builds run_sample_authorizes
      by (simp add: evidence_and_authorize_def bind_run_def lift_result_def or_panic_def at_index_def env Let_def
          ONLY_BATCH_def sample_prepare_def sample_mid_def run_event_def)
  qed
  have "dn_note_id sample_discovered = 5" "re_circle sample_run_env = run_circle"
    by (simp_all add: sample_discovered_def env)
  then show ?thesis using disc sign auth by (simp add: run_once_def bind_run_def)
qed

lemma sample_tail:
  "case bind_run (on_submit_state RunSubmit (submit_withdraw run_circle sample_withdraw)) (settle sample_run_env 5 ''0x02'') sample_mid of
     (Inr (Withdrawn burn wid st), t) \<Rightarrow> burn = ''0x02'' \<and> wid = sample_uuid \<and> ws_status st = StatusFinalized \<and>
       length (posts (su_trace (rn_submit t))) = 1
   | _ \<Rightarrow> False"
  by code_simp

lemma run_sample_run:
  obtains st t where "run_once sample_run_env sample_discovered sample_run_state = (Inr (Withdrawn ''0x02'' sample_uuid st), t)"
    "ws_status st = StatusFinalized" "length (posts (su_trace (rn_submit t))) = 1"
  using sample_tail unfolding sample_run_submits [symmetric]
  by (auto split: prod.splits sum.splits run_outcome.splits)

section \<open>The properties\<close>

text \<open>
  C1: Whatever Circle, the node and the signer answer, a run of the listener asks Circle for money only in
  one way. Every withdrawal request it sends has one batch with one intent; the discovered note passed
  discovery, Circle was asked to prepare this burn and answered with exactly this intent, which pays out
  the burned amount less a fee within the configured limit to the recipient the note names; the batch
  carries two signatures over Circle's digest by two different registered attesters in increasing order,
  and the transaction ID that the node's evidence names for the note. The signer is handed at most one
  digest, and only one that was cleared in this way.
\<close>

theorem run_sends_only_lawful:
  assumes "run_once env d s = (v, t)"
  shows "\<exists>es. su_trace (rn_submit t) = su_trace (rn_submit s) @ es \<and>
    (\<forall>e \<in> set (posts es). \<exists>intent digest request a. e = Exchanged (PostWithdraw request) a \<and>
       cleared env d es intent digest \<and> withdrawal_for env (dn_note_id d) intent digest request) \<and>
    (rn_signed t = rn_signed s \<or>
     (\<exists>intent digest. rn_signed t = rn_signed s @ [[digest]] \<and> cleared env d es intent digest))"
  using run_once_lawful [OF assms] by (simp add: lawful_run_def)

theorem run_sends_only_lawful_witness:
  "\<exists>t es e intent digest request a. snd (run_once sample_run_env sample_discovered sample_run_state) = t \<and>
     su_trace (rn_submit t) = es \<and> posts es = [e] \<and> e = Exchanged (PostWithdraw request) a \<and>
     cleared sample_run_env sample_discovered es intent digest \<and>
     withdrawal_for sample_run_env (dn_note_id sample_discovered) intent digest request"
proof -
  obtain v t where run: "run_once sample_run_env sample_discovered sample_run_state = (v, t)"
    "length (posts (su_trace (rn_submit t))) = 1" using run_sample_run by metis
  have "su_trace (rn_submit sample_run_state) = []" by (simp add: sample_run_state_def)
  with run_sends_only_lawful [OF run(1)] obtain es where es: "su_trace (rn_submit t) = es"
    and all: "\<forall>e \<in> set (posts es). \<exists>intent digest request a. e = Exchanged (PostWithdraw request) a \<and>
       cleared sample_run_env sample_discovered es intent digest \<and>
       withdrawal_for sample_run_env (dn_note_id sample_discovered) intent digest request" by auto
  obtain e where e: "posts es = [e]" using run(2) es by (auto simp: length_Suc_conv)
  have "e \<in> set (posts es)" by (simp add: e)
  with all obtain intent digest request a where "e = Exchanged (PostWithdraw request) a"
    "cleared sample_run_env sample_discovered es intent digest"
    "withdrawal_for sample_run_env (dn_note_id sample_discovered) intent digest request" by blast
  moreover have "snd (run_once sample_run_env sample_discovered sample_run_state) = t" using run(1) by simp
  ultimately show ?thesis using es e by blast
qed

text \<open>
  C12: The gate before the signer lets exactly the answers through that release the burn. An answer of
  Circle is validated if and only if it has a batch, and every batch has an intent, a digest of 32 bytes,
  and only intents that pay out a positive value which together with the fee is exactly the burned amount,
  with a fee within the configured limit, to the domain and recipient of the note, with no caller, naming
  the depositor and the faucet, and with no forwarding; the digests cleared are Circle's, in order. No
  intermediate sum overflows and no check is skipped.
\<close>

theorem gate_clears_exactly:
  "validate_returned x resp burn cfg = Inr v \<longleftrightarrow> resp \<noteq> [] \<and> list_all2 (clears x cfg burn) resp (vw_digests v)"
  by (rule validate_returned_Inr)



text \<open>
  C11: The outcome of a run tells the truth about the ledger. A run that reports a withdrawal leaves the
  burn of the node's evidence recorded under the withdrawal ID it reports, as finalized if the polled
  status was finalized for this very burn and as submitted otherwise; a recovered conflict leaves it
  finalized or waiting for an operator under the ID; a reported reconciliation leaves it waiting or
  submitted; a burn reported as already submitted has the status that is reported. In no case is it free
  to be submitted again.
\<close>

theorem run_outcome_matches_ledger:
  assumes "run_once env d s = (Inr out, t)" and "well_formed (su_ledger (rn_submit s))"
    and "\<forall>p. evidenced (re_tx_hex env) (re_evidence env) (dn_note_id d) (lc_faucet_id (re_config env)) p \<longrightarrow>
      minds_own (re_circle env) (su_tick (rn_submit s)) [burn_key_new (ep_burn_tx_id p)]"
  shows "\<exists>p. evidenced (re_tx_hex env) (re_evidence env) (dn_note_id d) (lc_faucet_id (re_config env)) p \<and>
    run_accounts (burn_key_new (ep_burn_tx_id p)) out (su_ledger (rn_submit t))"
  by (rule run_outcome_accounts [OF assms])

theorem run_outcome_matches_ledger_witness:
  "\<exists>st t. run_once sample_run_env sample_discovered sample_run_state = (Inr (Withdrawn ''0x02'' sample_uuid st), t) \<and>
     held (burn_key_new ''0x02'') ledger_status.Finalized (Some sample_uuid) (su_ledger (rn_submit t))"
proof -
  obtain st t where run: "run_once sample_run_env sample_discovered sample_run_state = (Inr (Withdrawn ''0x02'' sample_uuid st), t)"
    and fin: "ws_status st = StatusFinalized" using run_sample_run by metis
  have "minds_own (re_circle sample_run_env) k keys" for k keys
    by (simp add: minds_own_def sample_run_env_def run_circle_def)
  moreover have "well_formed (su_ledger (rn_submit sample_run_state))" by (simp add: sample_run_state_def well_formed_def)
  ultimately obtain p :: evidence_package where "run_accounts (burn_key_new (ep_burn_tx_id p)) (Withdrawn ''0x02'' sample_uuid st) (su_ledger (rn_submit t))"
    using run_outcome_matches_ledger [OF run] by blast
  then show ?thesis using run fin by auto
qed

text \<open>
  The local signer and the quorum fit together. If a signature of the curve recovers to its signer and
  the keys sign the cleared digests, then for every digest the signatures form a quorum exactly when there
  are two keys with different addresses, in whatever order they are configured.
\<close>

theorem local_signer_makes_quorum:
  assumes "recoverable x" and "sign_batches x keys v = Inr per_batch" and "i < length (vw_digests v)"
  shows "(\<exists>q. assemble_quorum x (vw_digests v ! i) (per_batch ! i) = Inr q) \<longleftrightarrow>
    length keys = MIN_SIGNATURE_THRESHOLD \<and> distinct (map (address_of x) keys)"
proof -
  note signs = sign_batches_Inr [OF assms(2)]
  have "\<forall>k \<in> set keys. \<exists>s. attester_sign x (vw_digests v ! i) k = Inr s" using signs nth_mem [OF assms(3)] by blast
  from local_claims_quorum [OF assms(1) this] show ?thesis using signs assms(3) by simp
qed

theorem local_signer_makes_quorum_witness:
  "\<exists>q. assemble_quorum sample_listener_ext sample_digest (sample_claims ! 0) = Inr q"
proof -
  have "sign_batches sample_listener_ext [[2], [1]] \<lparr>vw_digests = [sample_digest]\<rparr> = Inr sample_claims"
    using sample_signer by (simp add: sample_run_env_def)
  from local_signer_makes_quorum [OF sample_recoverable this, of 0] show ?thesis
    by (simp add: MIN_SIGNATURE_THRESHOLD_def sample_address)
qed

end
