(* ===== verification/Bridge.thy ===== *)
theory Bridge
  imports Attester_Config Relayer_Feed
begin

text \<open>
  The bridge process (\<^verbatim>\<open>usdcx-bridge\<close>): its configuration, the start of both services, and their supervision
  under the shutdown deadline of \<^verbatim>\<open>usdcx-telemetry/src/shutdown.rs\<close>. Signals, the ends of the services and
  the clock are the steps of a machine; the services themselves are the other theories.
\<close>

section \<open>Configuration (\<^verbatim>\<open>config.rs\<close> of the bridge and of the relayer)\<close>

record relayer_config =
  rc_circle_url :: string
  rc_page_size :: u16
  rc_request_timeout :: nat
  rc_poll_interval :: nat
  rc_remote_domain :: u32
  rc_miden_node_url :: string
  rc_prover_url :: "string option"
  rc_prover_timeout :: nat
  rc_miden_data_dir :: string
  rc_expiration_delta :: u16
  rc_faucet_account_id :: account_id
  rc_relayer_account_id :: account_id
  rc_attester_public_key :: bytes
  rc_state_file :: string

record relayer_args =
  rg_page_size :: u16
  rg_prover_url :: "string option"
  rg_prover_timeout :: nat
  rg_request_timeout :: nat
  rg_poll_interval :: nat
  rg_miden_data_dir :: string
  rg_expiration_delta :: u16
  rg_account_id :: account_id
  rg_attester_public_key :: bytes
  rg_state_file :: string

record run_args =
  ru_attester :: cli
  ru_relayer :: relayer_args

record bridge_config =
  bc_relayer :: relayer_config
  bc_attester :: config

text \<open>\<open>node_url\<close> reads the attester's endpoint, printed, as a URL; \<open>domain\<close> is \<^verbatim>\<open>CircleDomain::MIDEN\<close>.\<close>

definition bridge_config_try_from ::
  "config_ext \<Rightarrow> (string \<Rightarrow> string option) \<Rightarrow> u32 \<Rightarrow> run_args \<Rightarrow> config_error + bridge_config" where
  "bridge_config_try_from x node_url domain args =
     (let r = ru_relayer args in
      and_then (config_try_from x (ru_attester args)) (\<lambda>attester.
      and_then (ok_or (node_url (cg_miden_rpc_url attester)) ''Miden RPC URL is invalid'') (\<lambda>url.
      Inr \<lparr>bc_relayer = \<lparr>rc_circle_url = cg_circle_api_base_url attester, rc_page_size = rg_page_size r,
             rc_request_timeout = rg_request_timeout r, rc_poll_interval = rg_poll_interval r, rc_remote_domain = domain,
             rc_miden_node_url = url, rc_prover_url = rg_prover_url r, rc_prover_timeout = rg_prover_timeout r,
             rc_miden_data_dir = rg_miden_data_dir r, rc_expiration_delta = rg_expiration_delta r,
             rc_faucet_account_id = cg_faucet_account_id attester, rc_relayer_account_id = rg_account_id r,
             rc_attester_public_key = rg_attester_public_key r, rc_state_file = rg_state_file r\<rparr>,
           bc_attester = attester\<rparr>)))"

text \<open>Both services work for the same faucet against the same Circle API, over https.\<close>

lemma bridge_config_shared:
  assumes "bridge_config_try_from x node_url domain args = Inr cfg"
  shows "rc_faucet_account_id (bc_relayer cfg) = cg_faucet_account_id (bc_attester cfg) \<and>
    rc_circle_url (bc_relayer cfg) = cg_circle_api_base_url (bc_attester cfg) \<and>
    node_url (cg_miden_rpc_url (bc_attester cfg)) = Some (rc_miden_node_url (bc_relayer cfg)) \<and>
    config_try_from x (ru_attester args) = Inr (bc_attester cfg)"
  using assms by (auto simp: bridge_config_try_from_def Let_def outcome_simps)

section \<open>Supervision\<close>

definition SHUTDOWN_TIMEOUT :: nat where "SHUTDOWN_TIMEOUT = 5 * 60 * nanos_per_sec"

datatype service = AttesterService | RelayerService

text \<open>How the future of a service ends; its task may also panic.\<close>

datatype service_end = EndedOk | EndedErr | Panicked

datatype bridge_error = StartupFailed service | ServiceFailed service | StoppedUnexpectedly service

text \<open>\<^verbatim>\<open>stop_peer_on_exit\<close>: the result of the service, given whether shutdown was requested when it ended.\<close>

definition stop_peer_on_exit :: "service \<Rightarrow> service_end \<Rightarrow> bool \<Rightarrow> bridge_error + unit" where
  "stop_peer_on_exit name ended shutdown_requested =
     (if ended \<noteq> EndedOk then Inl (ServiceFailed name)
      else if \<not> shutdown_requested then Inl (StoppedUnexpectedly name)
      else Inr ())"

datatype bridge_phase = StartingAttester | StartingRelayer | Supervising | Returned "bridge_error + unit" | ProcessExit

datatype bridge_event = Signalled | Started service | Ended service service_end

text \<open>
  \<open>bg_token\<close>: when shutdown was requested; \<open>bg_armed\<close>: since when the present \<^verbatim>\<open>stop_within\<close> counts, which is
  the later of the request and its own start; the results of the services once they have stopped.
\<close>

record bridge =
  bg_now :: nat
  bg_token :: "nat option"
  bg_armed :: "nat option"
  bg_phase :: bridge_phase
  bg_stopped :: "service \<Rightarrow> (bridge_error + unit) option"
  bg_log :: "bridge_event list"

definition bridge_initial :: "nat \<Rightarrow> bridge" where
  "bridge_initial now =
     \<lparr>bg_now = now, bg_token = None, bg_armed = None, bg_phase = StartingAttester, bg_stopped = (\<lambda>_. None), bg_log = []\<rparr>"

fun live :: "bridge_phase \<Rightarrow> bool" where
  "live (Returned _) \<longleftrightarrow> False"
| "live ProcessExit \<longleftrightarrow> False"
| "live _ \<longleftrightarrow> True"

text \<open>\<^verbatim>\<open>CancellationToken::cancel\<close>: only the first counts; the waiting deadline starts to count.\<close>

definition cancel :: "bridge \<Rightarrow> bridge" where
  "cancel b =
     (if bg_token b = None then b\<lparr>bg_token := Some (bg_now b), bg_armed := Some (bg_now b)\<rparr> else b)"

definition log_event :: "bridge_event \<Rightarrow> bridge \<Rightarrow> bridge" where
  "log_event e b = b\<lparr>bg_log := bg_log b @ [e]\<rparr>"

definition service_stops :: "service \<Rightarrow> service_end \<Rightarrow> bridge \<Rightarrow> bridge" where
  "service_stops name ended b =
     cancel (b\<lparr>bg_stopped := (bg_stopped b)(name \<mapsto> stop_peer_on_exit name ended (bg_token b \<noteq> None))\<rparr>)"

definition deadline_due :: "bridge \<Rightarrow> nat \<Rightarrow> bool" where
  "deadline_due b t \<longleftrightarrow> (case bg_armed b of None \<Rightarrow> False | Some c \<Rightarrow> c + SHUTDOWN_TIMEOUT \<le> t)"

text \<open>
  The steps: \<^verbatim>\<open>cancel_on_signal\<close>, \<^verbatim>\<open>start\<close>, \<^verbatim>\<open>supervise\<close> and \<^verbatim>\<open>stop_within\<close>. The clock does not pass a deadline that
  has not been acted on.
\<close>

inductive bridge_step :: "bridge \<Rightarrow> bridge \<Rightarrow> bool" where
  Signal: "bg_token b = None \<Longrightarrow> live (bg_phase b) \<Longrightarrow> bridge_step b (log_event Signalled (cancel b))"
| Attester_Starts: "bg_phase b = StartingAttester \<Longrightarrow>
    bridge_step b (log_event (Started AttesterService) (b\<lparr>bg_phase := StartingRelayer\<rparr>))"
| Attester_Refused: "bg_phase b = StartingAttester \<Longrightarrow>
    bridge_step b (b\<lparr>bg_phase := Returned (Inl (StartupFailed AttesterService))\<rparr>)"
| Relayer_Starts: "bg_phase b = StartingRelayer \<Longrightarrow>
    bridge_step b (log_event (Started RelayerService)
      (b\<lparr>bg_phase := Supervising, bg_armed := map_option (\<lambda>_. bg_now b) (bg_token b)\<rparr>))"
| Relayer_Refused: "bg_phase b = StartingRelayer \<Longrightarrow>
    bridge_step b (b\<lparr>bg_phase := Returned (Inl (StartupFailed RelayerService))\<rparr>)"
| Stops: "bg_phase b = Supervising \<Longrightarrow> bg_stopped b name = None \<Longrightarrow>
    bridge_step b (log_event (Ended name ended) (service_stops name ended b))"
| Joined: "bg_phase b = Supervising \<Longrightarrow> bg_stopped b AttesterService = Some a \<Longrightarrow> bg_stopped b RelayerService = Some r \<Longrightarrow>
    bridge_step b (b\<lparr>bg_phase := Returned (and_then a (\<lambda>_. r))\<rparr>)"
| Advance: "bg_now b \<le> t \<Longrightarrow> live (bg_phase b) \<Longrightarrow> (\<And>t'. t' < t \<Longrightarrow> \<not> deadline_due b t') \<Longrightarrow> bridge_step b (b\<lparr>bg_now := t\<rparr>)"
| Expire: "live (bg_phase b) \<Longrightarrow> deadline_due b (bg_now b) \<Longrightarrow> bridge_step b (b\<lparr>bg_phase := ProcessExit\<rparr>)"

section \<open>The invariant\<close>

fun is_end :: "bridge_event \<Rightarrow> bool" where
  "is_end (Ended _ _) \<longleftrightarrow> True"
| "is_end _ \<longleftrightarrow> False"

text \<open>A signal came before any service ended; the relayer started only after the attester.\<close>

definition signalled_first :: "bridge_event list \<Rightarrow> bool" where
  "signalled_first es \<longleftrightarrow> Signalled \<in> set (takeWhile (\<lambda>e. \<not> is_end e) es)"

definition attester_first :: "bridge_event list \<Rightarrow> bool" where
  "attester_first es \<longleftrightarrow>
     (Started RelayerService \<in> set es \<longrightarrow> Started AttesterService \<in> set (takeWhile (\<lambda>e. e \<noteq> Started RelayerService) es))"

text \<open>The first signal came when both services were up.\<close>

definition signalled_late :: "bridge_event list \<Rightarrow> bool" where
  "signalled_late es \<longleftrightarrow> Started RelayerService \<in> set (takeWhile (\<lambda>e. e \<noteq> Signalled) es)"

lemma takeWhile_snoc:
  "x \<in> set (takeWhile P (es @ [e])) \<longleftrightarrow> x \<in> set (takeWhile P es) \<or> (\<forall>y \<in> set es. P y) \<and> P e \<and> x = e"
  by (induction es) auto

lemma no_end: "(\<forall>y \<in> set es. \<not> is_end y) \<longleftrightarrow> (\<forall>n x. Ended n x \<notin> set es)"
  by (metis is_end.elims(2) is_end.simps(1))

lemma signalled_first_append:
  "signalled_first (es @ [e]) \<longleftrightarrow> signalled_first es \<or> e = Signalled \<and> (\<forall>n x. Ended n x \<notin> set es)"
  unfolding signalled_first_def takeWhile_snoc no_end by auto

lemma signalled_first_mem: "signalled_first es \<Longrightarrow> Signalled \<in> set es"
  by (auto simp: signalled_first_def dest: set_takeWhileD)

lemma attester_first_append:
  "attester_first (es @ [e]) \<longleftrightarrow>
     attester_first es \<and> (e = Started RelayerService \<and> Started RelayerService \<notin> set es \<longrightarrow> Started AttesterService \<in> set es)"
proof (cases "Started RelayerService \<in> set es")
  case False
  then have all: "takeWhile (\<lambda>e. e \<noteq> Started RelayerService) es = es" by (auto simp: takeWhile_eq_all_conv)
  show ?thesis unfolding attester_first_def takeWhile_snoc all using False by auto
qed (auto simp: attester_first_def takeWhile_snoc)

lemma signalled_late_append:
  "signalled_late (es @ [e]) \<longleftrightarrow> signalled_late es \<or> e = Started RelayerService \<and> Signalled \<notin> set es"
  unfolding signalled_late_def takeWhile_snoc by auto

lemmas event_order = signalled_first_append attester_first_append signalled_late_append

definition results_ok :: "bridge \<Rightarrow> bool" where
  "results_ok b \<longleftrightarrow>
     (\<forall>n. (bg_stopped b n \<noteq> None \<longleftrightarrow> (\<exists>x. Ended n x \<in> set (bg_log b)))) \<and>
     (\<forall>n x. Ended n x \<in> set (bg_log b) \<and> signalled_first (bg_log b) \<longrightarrow> bg_stopped b n = Some (stop_peer_on_exit n x True)) \<and>
     ((\<exists>n x. Ended n x \<in> set (bg_log b)) \<and> \<not> signalled_first (bg_log b) \<longrightarrow> (\<exists>n err. bg_stopped b n = Some (Inl err))) \<and>
     (bg_token b = None \<longleftrightarrow> Signalled \<notin> set (bg_log b) \<and> (\<forall>n x. Ended n x \<notin> set (bg_log b)))"

fun phase_log_ok :: "bridge_phase \<Rightarrow> bridge_event list \<Rightarrow> bool" where
  "phase_log_ok StartingAttester es \<longleftrightarrow> Started RelayerService \<notin> set es \<and> (\<forall>n x. Ended n x \<notin> set es)"
| "phase_log_ok StartingRelayer es \<longleftrightarrow>
     Started AttesterService \<in> set es \<and> Started RelayerService \<notin> set es \<and> (\<forall>n x. Ended n x \<notin> set es)"
| "phase_log_ok Supervising es \<longleftrightarrow> Started RelayerService \<in> set es"
| "phase_log_ok (Returned r) es \<longleftrightarrow> (\<exists>err. r = Inl (StartupFailed err)) \<and> (\<forall>n x. Ended n x \<notin> set es) \<or>
     Started RelayerService \<in> set es"
| "phase_log_ok ProcessExit es \<longleftrightarrow> True"

definition returned_ok :: "bridge \<Rightarrow> bool" where
  "returned_ok b \<longleftrightarrow> (\<forall>r. bg_phase b = Returned r \<longrightarrow>
     (\<exists>s. r = Inl (StartupFailed s) \<and> (\<forall>n x. Ended n x \<notin> set (bg_log b))) \<or>
     (\<exists>a c. bg_stopped b AttesterService = Some a \<and> bg_stopped b RelayerService = Some c \<and> r = and_then a (\<lambda>_. c)))"

text \<open>The deadline counts since \<open>a\<close>; while no second one was armed, that is when the stop was requested.\<close>

fun armed_ok :: "nat option \<Rightarrow> nat option \<Rightarrow> nat \<Rightarrow> bool \<Rightarrow> bool \<Rightarrow> bool" where
  "armed_ok None None now alive first \<longleftrightarrow> True"
| "armed_ok (Some c) (Some a) now alive first \<longleftrightarrow>
     c \<le> now \<and> a \<le> now \<and> (alive \<longrightarrow> now \<le> a + SHUTDOWN_TIMEOUT) \<and> a \<le> c + SHUTDOWN_TIMEOUT \<and> (first \<longrightarrow> a = c)"
| "armed_ok _ _ now alive first \<longleftrightarrow> False"

definition timely :: "bridge \<Rightarrow> bool" where
  "timely b \<longleftrightarrow> armed_ok (bg_token b) (bg_armed b) (bg_now b) (live (bg_phase b))
     (signalled_late (bg_log b) \<or> bg_phase b = StartingAttester \<or> bg_phase b = StartingRelayer)"

lemma armed_ok_cases:
  assumes "armed_ok token armed now alive first"
  obtains "token = None" "armed = None"
  | c a where "token = Some c" "armed = Some a" "c \<le> now" "a \<le> now" "alive \<Longrightarrow> now \<le> a + SHUTDOWN_TIMEOUT"
      "a \<le> c + SHUTDOWN_TIMEOUT" "first \<Longrightarrow> a = c"
  using assms by (cases "(token, armed, now, alive, first)" rule: armed_ok.cases) auto

definition bridge_inv :: "bridge \<Rightarrow> bool" where
  "bridge_inv b \<longleftrightarrow> results_ok b \<and> attester_first (bg_log b) \<and> phase_log_ok (bg_phase b) (bg_log b) \<and> returned_ok b \<and> timely b"

lemma bridge_initial_inv: "bridge_inv (bridge_initial now)"
  by (simp add: bridge_inv_def bridge_initial_def results_ok_def attester_first_def returned_ok_def timely_def signalled_first_def)

lemmas bridge_step_defs = cancel_def log_event_def service_stops_def

lemma results_step: "bridge_step b b' \<Longrightarrow> phase_log_ok (bg_phase b) (bg_log b) \<Longrightarrow> results_ok b \<Longrightarrow> results_ok b'"
proof (induction rule: bridge_step.induct)
  case (Stops b name ended)
  let ?b = "log_event (Ended name ended) (service_stops name ended b)"
  from Stops.prems(2) have old: "\<And>n. bg_stopped b n \<noteq> None \<longleftrightarrow> (\<exists>x. Ended n x \<in> set (bg_log b))"
    "\<And>n x. Ended n x \<in> set (bg_log b) \<Longrightarrow> signalled_first (bg_log b) \<Longrightarrow> bg_stopped b n = Some (stop_peer_on_exit n x True)"
    "\<And>n x. Ended n x \<in> set (bg_log b) \<Longrightarrow> \<not> signalled_first (bg_log b) \<Longrightarrow> \<exists>n err. bg_stopped b n = Some (Inl err)"
    "bg_token b = None \<longleftrightarrow> Signalled \<notin> set (bg_log b) \<and> (\<forall>n x. Ended n x \<notin> set (bg_log b))"
    by (auto simp: results_ok_def)
  have new: "bg_stopped ?b = (bg_stopped b)(name \<mapsto> stop_peer_on_exit name ended (bg_token b \<noteq> None))"
    "bg_log ?b = bg_log b @ [Ended name ended]" "bg_token ?b \<noteq> None" "signalled_first (bg_log ?b) \<longleftrightarrow> signalled_first (bg_log b)"
    by (simp_all add: bridge_step_defs event_order)
  have fresh: "Ended name x \<notin> set (bg_log b)" for x using old(1) [of name] Stops.hyps(2) by auto
  have "bg_token b \<noteq> None" if "signalled_first (bg_log b)" using signalled_first_mem [OF that] old(4) by simp
  moreover have "\<exists>n err. bg_stopped ?b n = Some (Inl err)" if first: "\<not> signalled_first (bg_log b)"
  proof (cases "\<exists>n x. Ended n x \<in> set (bg_log b)")
    case True
    then obtain n err where "bg_stopped b n = Some (Inl err)" using old(3) first by blast
    moreover from this have "n \<noteq> name" using Stops.hyps(2) by auto
    ultimately show ?thesis using new(1) by auto
  next
    case False
    then have "Signalled \<notin> set (bg_log b)" using first unfolding signalled_first_def by (metis no_end takeWhile_eq_all_conv)
    then have "bg_token b = None" using old(4) False by blast
    then show ?thesis using new(1) by (auto simp: stop_peer_on_exit_def)
  qed
  ultimately show ?case unfolding results_ok_def new(4) using old(1,2) new(1-3) fresh by auto
qed (auto simp: results_ok_def bridge_step_defs event_order dest: signalled_first_mem)

lemma order_step: "bridge_step b b' \<Longrightarrow> phase_log_ok (bg_phase b) (bg_log b) \<Longrightarrow> attester_first (bg_log b) \<Longrightarrow> attester_first (bg_log b')"
  by (induction rule: bridge_step.induct) (auto simp: bridge_step_defs event_order)

lemma phase_log_step: "bridge_step b b' \<Longrightarrow> phase_log_ok (bg_phase b) (bg_log b) \<Longrightarrow> phase_log_ok (bg_phase b') (bg_log b')"
proof (induction rule: bridge_step.induct)
  case (Signal b)
  then show ?case by (cases "bg_phase b") (auto simp: bridge_step_defs)
qed (auto simp: bridge_step_defs)

lemma returned_step: "bridge_step b b' \<Longrightarrow> phase_log_ok (bg_phase b) (bg_log b) \<Longrightarrow> returned_ok b \<Longrightarrow> returned_ok b'"
  by (induction rule: bridge_step.induct) (auto simp: bridge_step_defs returned_ok_def)

lemma signalled_late_mem: "signalled_late es \<Longrightarrow> Started RelayerService \<in> set es"
  by (auto simp: signalled_late_def dest: set_takeWhileD)

lemma deadline_pending: "(\<And>t'. t' < t \<Longrightarrow> \<not> deadline_due b t') \<Longrightarrow> bg_armed b = Some a \<Longrightarrow> t \<le> a + SHUTDOWN_TIMEOUT"
  by (metis deadline_due_def linorder_not_less option.simps(5) order_refl)

lemma timely_step:
  assumes "bridge_step b b'" and "phase_log_ok (bg_phase b) (bg_log b)" and "results_ok b" and "timely b"
  shows "timely b'"
  using assms(4) unfolding timely_def
proof (cases rule: armed_ok_cases)
  case 1
  from assms(1) show "armed_ok (bg_token b') (bg_armed b') (bg_now b') (live (bg_phase b'))
     (signalled_late (bg_log b') \<or> bg_phase b' = StartingAttester \<or> bg_phase b' = StartingRelayer)"
    by cases (simp_all add: 1 bridge_step_defs event_order)
next
  case (2 c a)
  from assms(1) show "armed_ok (bg_token b') (bg_armed b') (bg_now b') (live (bg_phase b'))
     (signalled_late (bg_log b') \<or> bg_phase b' = StartingAttester \<or> bg_phase b' = StartingRelayer)"
  proof cases
    case Relayer_Starts
    then have "Signalled \<in> set (bg_log b)" "\<not> signalled_late (bg_log b)"
      using assms(2,3) 2(1) signalled_late_mem by (auto simp: results_ok_def)
    with Relayer_Starts 2 show ?thesis by (simp add: bridge_step_defs event_order)
  next
    case (Advance t)
    then have "t \<le> a + SHUTDOWN_TIMEOUT" using deadline_pending 2(2) by blast
    with Advance(1-3) 2 show ?thesis by simp
  qed (use 2 in \<open>simp_all add: bridge_step_defs event_order\<close>)
qed

lemma bridge_inv_step: "bridge_step b b' \<Longrightarrow> bridge_inv b \<Longrightarrow> bridge_inv b'"
  unfolding bridge_inv_def using results_step order_step phase_log_step returned_step timely_step by blast

interpretation bridge: invariant_machine "\<lambda>b. \<exists>now. b = bridge_initial now" bridge_step bridge_inv
  by unfold_locales (auto intro: bridge_initial_inv bridge_inv_step)

section \<open>What the process promises\<close>

lemma all_services: "(\<forall>s. P s) \<longleftrightarrow> P AttesterService \<and> P RelayerService"
  by (metis service.exhaust)

lemma stopped_ok:
  assumes "results_ok b" and "signalled_first (bg_log b)" and "bg_stopped b n = Some v"
  shows "v = Inr () \<longleftrightarrow> Ended n EndedOk \<in> set (bg_log b)"
proof -
  have ended: "Ended n x \<in> set (bg_log b) \<Longrightarrow> v = stop_peer_on_exit n x True" for x
    using assms unfolding results_ok_def by (metis option.inject)
  obtain x where x: "Ended n x \<in> set (bg_log b)" using assms(1,3) unfolding results_ok_def by (metis option.simps(3))
  show ?thesis using ended [of EndedOk] ended [OF x] x by (auto simp: stop_peer_on_exit_def split: if_splits)
qed

lemma joined_ok:
  assumes "results_ok b" and "returned_ok b" and "bg_phase b = Returned r"
  shows "r = Inr () \<longleftrightarrow> signalled_first (bg_log b) \<and> (\<forall>s. Ended s EndedOk \<in> set (bg_log b))"
proof -
  from assms(2,3) consider
      (start) s where "r = Inl (StartupFailed s)" "\<forall>n x. Ended n x \<notin> set (bg_log b)"
    | (join) a c where "bg_stopped b AttesterService = Some a" "bg_stopped b RelayerService = Some c" "r = and_then a (\<lambda>_. c)"
    unfolding returned_ok_def by blast
  then show ?thesis
  proof cases
    case join
    have r: "r = Inr () \<longleftrightarrow> a = Inr () \<and> c = Inr ()" unfolding join(3) by (cases a) auto
    show ?thesis
    proof (cases "signalled_first (bg_log b)")
      case True
      then show ?thesis unfolding r all_services using stopped_ok [OF assms(1) True] join(1,2) by blast
    next
      case False
      obtain x where "Ended AttesterService x \<in> set (bg_log b)"
        using assms(1) join(1) unfolding results_ok_def by (metis option.simps(3))
      then obtain n err where "bg_stopped b n = Some (Inl err)" using assms(1) False unfolding results_ok_def by blast
      then have "a = Inl err \<or> c = Inl err" using join(1,2) by (cases n) auto
      then show ?thesis unfolding r using False by auto
    qed
  qed auto
qed

text \<open>
  C16: The bridge stops as a whole and in time, and says so truthfully. The process returns success
  exactly when a signal asked for the stop before any service had ended and both services then ended
  without an error; a service that ends on its own, fails or panics always makes it a failure, whatever
  the other does, and has the other asked to stop. The relayer never starts before the attester has
  passed its startup. Once a stop is requested the process is gone after one shutdown timeout if both
  services were up when the signal came or no signal came, and after two otherwise, by itself or by
  exiting with a failure; timers are taken to fire on time.
\<close>

theorem bridge_stops_truthfully:
  assumes "rtranclp bridge_step (bridge_initial t0) b"
  shows "(\<forall>r. bg_phase b = Returned r \<longrightarrow>
      (r = Inr () \<longleftrightarrow> signalled_first (bg_log b) \<and> (\<forall>s. Ended s EndedOk \<in> set (bg_log b)))) \<and>
    attester_first (bg_log b) \<and>
    (\<forall>s x. Ended s x \<in> set (bg_log b) \<longrightarrow> bg_token b \<noteq> None) \<and>
    (\<forall>c. bg_token b = Some c \<and> live (bg_phase b) \<longrightarrow> bg_now b \<le> c + 2 * SHUTDOWN_TIMEOUT \<and>
      (signalled_late (bg_log b) \<longrightarrow> bg_now b \<le> c + SHUTDOWN_TIMEOUT))"
proof -
  have inv: "results_ok b" "attester_first (bg_log b)" "returned_ok b" "timely b"
    using bridge.reachable_inv [OF _ assms] by (auto simp: bridge_inv_def)
  have "bg_now b \<le> c + 2 * SHUTDOWN_TIMEOUT \<and> (signalled_late (bg_log b) \<longrightarrow> bg_now b \<le> c + SHUTDOWN_TIMEOUT)"
    if "bg_token b = Some c" "live (bg_phase b)" for c
  proof -
    from inv(4) [unfolded timely_def] that obtain a where
      "bg_now b \<le> a + SHUTDOWN_TIMEOUT" "a \<le> c + SHUTDOWN_TIMEOUT" "signalled_late (bg_log b) \<Longrightarrow> a = c"
      by (cases rule: armed_ok_cases) auto
    then show ?thesis by auto
  qed
  moreover have "\<forall>s x. Ended s x \<in> set (bg_log b) \<longrightarrow> bg_token b \<noteq> None" using inv(1) unfolding results_ok_def by blast
  ultimately show ?thesis using inv(2) joined_ok [OF inv(1,3)] by blast
qed

lemma five_steps: "r a b \<Longrightarrow> r b c \<Longrightarrow> r c d \<Longrightarrow> r d e \<Longrightarrow> r e f \<Longrightarrow> rtranclp r a f"
  by (meson converse_rtranclp_into_rtranclp rtranclp.rtrancl_refl)

text \<open>A stop on a signal, with both services ending in order.\<close>

lemma clean_stop: "\<exists>b. rtranclp bridge_step (bridge_initial 0) b \<and> bg_phase b = Returned (Inr ())"
proof -
  let ?b1 = "log_event (Started AttesterService) ((bridge_initial 0)\<lparr>bg_phase := StartingRelayer\<rparr>)"
  let ?b2 = "log_event (Started RelayerService) (?b1\<lparr>bg_phase := Supervising, bg_armed := map_option (\<lambda>_. bg_now ?b1) (bg_token ?b1)\<rparr>)"
  let ?b3 = "log_event Signalled (cancel ?b2)"
  let ?b4 = "log_event (Ended AttesterService EndedOk) (service_stops AttesterService EndedOk ?b3)"
  let ?b5 = "log_event (Ended RelayerService EndedOk) (service_stops RelayerService EndedOk ?b4)"
  note defs = bridge_step_defs bridge_initial_def stop_peer_on_exit_def
  have "bridge_step (bridge_initial 0) ?b1" by (rule Attester_Starts) (simp add: defs)
  moreover have "bridge_step ?b1 ?b2" by (rule Relayer_Starts) (simp add: defs)
  moreover have "bridge_step ?b2 ?b3" by (rule Signal) (simp_all add: defs)
  moreover have "bridge_step ?b3 ?b4" by (rule Stops) (simp_all add: defs)
  moreover have "bridge_step ?b4 ?b5" by (rule Stops) (simp_all add: defs)
  ultimately have five: "rtranclp bridge_step (bridge_initial 0) ?b5" by (rule five_steps)
  have joined: "bridge_step ?b5 (?b5\<lparr>bg_phase := Returned (and_then (Inr ()) (\<lambda>_. Inr ()))\<rparr>)" by (rule Joined) (simp_all add: defs)
  show ?thesis
  proof (intro exI conjI)
    show "rtranclp bridge_step (bridge_initial 0) (?b5\<lparr>bg_phase := Returned (and_then (Inr ()) (\<lambda>_. Inr ()))\<rparr>)"
      by (rule rtranclp.rtrancl_into_rtrancl [OF five joined])
  qed simp
qed

theorem bridge_stops_truthfully_witness:
  "\<exists>b. rtranclp bridge_step (bridge_initial 0) b \<and> bg_phase b = Returned (Inr ()) \<and> signalled_first (bg_log b) \<and>
     Ended AttesterService EndedOk \<in> set (bg_log b) \<and> Ended RelayerService EndedOk \<in> set (bg_log b) \<and> attester_first (bg_log b)"
proof -
  obtain b where b: "rtranclp bridge_step (bridge_initial 0) b" "bg_phase b = Returned (Inr ())" using clean_stop by blast
  have "signalled_first (bg_log b) \<and> (\<forall>s. Ended s EndedOk \<in> set (bg_log b))" "attester_first (bg_log b)"
    using bridge_stops_truthfully [OF b(1)] b(2) by simp_all
  with b show ?thesis by blast
qed

text \<open>
  A second deadline is armed when startup ends: a signal during startup is followed by a wait of up to
  two shutdown timeouts, with the process still alive.
\<close>

lemma startup_signal_waits_twice:
  "\<exists>b. rtranclp bridge_step (bridge_initial 0) b \<and> bg_token b = Some 0 \<and> live (bg_phase b) \<and> bg_now b = 2 * SHUTDOWN_TIMEOUT"
proof -
  let ?T = SHUTDOWN_TIMEOUT
  let ?b1 = "log_event Signalled (cancel (bridge_initial 0))"
  let ?b2 = "?b1\<lparr>bg_now := ?T\<rparr>"
  let ?b3 = "log_event (Started AttesterService) (?b2\<lparr>bg_phase := StartingRelayer\<rparr>)"
  let ?b4 = "log_event (Started RelayerService) (?b3\<lparr>bg_phase := Supervising, bg_armed := map_option (\<lambda>_. bg_now ?b3) (bg_token ?b3)\<rparr>)"
  let ?b5 = "?b4\<lparr>bg_now := 2 * ?T\<rparr>"
  note defs = bridge_step_defs bridge_initial_def deadline_due_def
  have "bridge_step (bridge_initial 0) ?b1" by (rule Signal) (simp_all add: defs)
  moreover have "bridge_step ?b1 ?b2" by (rule Advance) (simp_all add: defs)
  moreover have "bridge_step ?b2 ?b3" by (rule Attester_Starts) (simp add: defs)
  moreover have "bridge_step ?b3 ?b4" by (rule Relayer_Starts) (simp add: defs)
  moreover have "bridge_step ?b4 ?b5" by (rule Advance) (simp_all add: defs)
  ultimately have "rtranclp bridge_step (bridge_initial 0) ?b5"
    by (rule five_steps)
  moreover have "bg_token ?b5 = Some 0" "live (bg_phase ?b5)" "bg_now ?b5 = 2 * ?T" by (simp_all add: defs)
  ultimately show ?thesis by blast
qed

end
