(* ===== verification/Harness_Rows.thy ===== *)
theory Harness_Rows
  imports Prelude
begin

text \<open>
  The judging half of the live-network validation matrix (\<^verbatim>\<open>crates/xusdc-validation/src\<close>): the
  observation records of \<^verbatim>\<open>observations.rs\<close>, \<^verbatim>\<open>observations_cf.rs\<close>, \<^verbatim>\<open>observations_de.rs\<close> and
  \<^verbatim>\<open>observations_gj.rs\<close>, and the assertion suites of rows A to J (\<^verbatim>\<open>assertions*.rs\<close>). The error of a
  failed assertion is the leading text of its message. An account is what the node answers for it: its
  identity, its nonce, its storage slots and its two allowlists.
\<close>

section \<open>Text search\<close>

text \<open>\<^verbatim>\<open>str::contains\<close>\<close>

fun contains :: "string \<Rightarrow> string \<Rightarrow> bool" where
  "contains hay needle \<longleftrightarrow>
     take (length needle) hay = needle \<or> (case hay of [] \<Rightarrow> False | _ # rest \<Rightarrow> contains rest needle)"

declare contains.simps [simp del]

lemma contains_iff: "contains hay needle \<longleftrightarrow> (\<exists>a b. hay = a @ needle @ b)"
proof (induction hay)
  case Nil
  then show ?case by (auto simp: contains.simps)
next
  case (Cons c rest)
  have step: "contains (c # rest) needle \<longleftrightarrow>
      take (length needle) (c # rest) = needle \<or> contains rest needle"
    by (simp add: contains.simps [of "c # rest"])
  have start: "take (length needle) (c # rest) = needle \<longleftrightarrow> (\<exists>b. c # rest = needle @ b)"
    by (metis append_eq_conv_conj append_take_drop_id)
  have "(\<exists>a b. c # rest = a @ needle @ b) \<longleftrightarrow>
      (\<exists>b. c # rest = needle @ b) \<or> (\<exists>a b. rest = a @ needle @ b)"
    by (metis append_Cons append_Nil list.exhaust list.inject)
  then show ?case unfolding step start Cons.IH by blast
qed

section \<open>Verdicts and stored words\<close>

datatype verdict = Accepted | Rejected string

fun from_execute :: "string + 'a \<Rightarrow> verdict" where
  "from_execute (Inr _) = Accepted"
| "from_execute (Inl e) = Rejected e"

fun is_accepted :: "verdict \<Rightarrow> bool" where
  "is_accepted Accepted = True"
| "is_accepted (Rejected _) = False"

fun verdict_error :: "verdict \<Rightarrow> string option" where
  "verdict_error (Rejected e) = Some e"
| "verdict_error Accepted = None"

type_synonym word4 = "u64 \<times> u64 \<times> u64 \<times> u64"

definition MARKER_SET :: word4 where "MARKER_SET = (1, 0, 0, 0)"
definition MARKER_CLEAR :: word4 where "MARKER_CLEAR = (0, 0, 0, 0)"

section \<open>What the harness takes from other repositories\<close>

text \<open>
  \<open>hx_err_code\<close> is \<^verbatim>\<open>MasmError::code\<close>, the code an assembler puts in place of a message;
  \<open>hx_note_scripts\<close> and \<open>hx_expiration_root\<close> are the frozen production allowlists;
  \<open>hx_identifier_for\<close> and \<open>hx_packed\<close> are encodings of \<^verbatim>\<open>xusdc-encoding\<close> (the eight packed elements as
  their two words); \<open>hx_burn_tag\<close> is its burn tag.
\<close>

record harness_ext =
  hx_err_code :: "string \<Rightarrow> u64"
  hx_is_public :: "account_id \<Rightarrow> bool"
  hx_note_scripts :: "b256 set"
  hx_expiration_root :: b256
  hx_identifier_for :: "account_id \<Rightarrow> word4"
  hx_packed :: "b256 \<Rightarrow> word4 \<times> word4"
  hx_burn_tag :: u32

text \<open>The value slots the harness reads, by the name it reads them with.\<close>

datatype slot = DomainSlot | IdentifierSlot | SourceDomainSlot | ContractHiSlot | ContractLoSlot
  | TokenConfigSlot | MinBurnSlot | PausedSlot | OwnerSlot

record account =
  ac_id :: account_id
  ac_nonce :: u64
  ac_item :: "slot \<Rightarrow> word4 option"
  ac_used_nonce :: "word4 \<Rightarrow> word4 option"
  ac_attester :: "word4 \<Rightarrow> word4 option"
  ac_note_allowlist :: "b256 set option"
  ac_tx_allowlist :: "b256 set option"

text \<open>\<^verbatim>\<open>storage_word\<close>\<close>

definition storage_word :: "account \<Rightarrow> slot \<Rightarrow> string + word4" where
  "storage_word a s = ok_or (ac_item a s) ''the deployed faucet does not carry the slot''"

section \<open>Rows A and B: deployment and one initialization\<close>

record domain_params =
  dp_domain :: u32
  dp_source_domain :: u32
  dp_xreserve_contract :: b256
  dp_identifier_bytes :: b256

record rows_ab =
  ab_main_commit :: string
  ab_faucet_id :: account_id
  ab_deployed :: "account option"
  ab_deploy_tx_id :: string
  ab_deploy_block :: u32
  ab_owner_id :: account_id
  ab_domain_params :: domain_params
  ab_reinit_params :: domain_params
  ab_first_note_id :: string
  ab_second_note_id :: string
  ab_reinit_error :: "string option"
  ab_after_reinit :: "account option"
  ab_second_note_consumed :: bool

definition ERR_IDENTIFIER_REINIT_TEXT :: string where
  "ERR_IDENTIFIER_REINIT_TEXT = ''identifier has already been initialized''"

definition assert_row_a :: "harness_ext \<Rightarrow> rows_ab \<Rightarrow> string + unit" where
  "assert_row_a x obs =
     and_then (ok_or (ab_deployed obs) ''row A: GetAccount returned no account'') (\<lambda>account.
     and_then (ensure_that (ac_id account = ab_faucet_id obs)
       ''row A: GetAccount returned a different account id'') (\<lambda>_.
     and_then (ensure_that (hx_is_public x (ac_id account)) ''row A: the faucet account must be PUBLIC'') (\<lambda>_.
     and_then (ensure_that (ac_nonce account = 1) ''row A: the nonce must be exactly 1'') (\<lambda>_.
     and_then (ok_or (ac_note_allowlist account) ''row A: no readable note allowlist'') (\<lambda>allowlist.
     and_then (ensure_that (allowlist \<noteq> {}) ''row A: the note-script allowlist must be non-empty'') (\<lambda>_.
     and_then (ensure_that (allowlist = hx_note_scripts x)
       ''row A: the note-script allowlist must equal the production set'') (\<lambda>_.
     and_then (ok_or (ac_tx_allowlist account) ''row A: no readable tx-script allowlist'') (\<lambda>tx_allowlist.
     ensure_that (tx_allowlist = {hx_expiration_root x})
       ''row A: the tx-script allowlist must equal the production set''))))))))"

definition low_word :: "u32 \<Rightarrow> word4" where
  "low_word v = (ucast v, 0, 0, 0)"

definition assert_domain_config_slots ::
    "harness_ext \<Rightarrow> account \<Rightarrow> domain_params \<Rightarrow> string \<Rightarrow> string + unit" where
  "assert_domain_config_slots x account params ctx =
     and_then (storage_word account DomainSlot) (\<lambda>domain.
     and_then (ensure_that (domain = low_word (dp_domain params))
       (ctx @ '': domain slot read-back mismatch'')) (\<lambda>_.
     and_then (storage_word account IdentifierSlot) (\<lambda>identifier.
     and_then (ensure_that (identifier = hx_identifier_for x (ac_id account))
       (ctx @ '': identifier slot read-back mismatch'')) (\<lambda>_.
     and_then (ensure_that (identifier \<noteq> MARKER_CLEAR)
       (ctx @ '': the stored identifier must be non-empty'')) (\<lambda>_.
     and_then (storage_word account SourceDomainSlot) (\<lambda>source_domain.
     and_then (ensure_that (source_domain = low_word (dp_source_domain params))
       (ctx @ '': source_domain slot read-back mismatch'')) (\<lambda>_.
     and_then (storage_word account ContractHiSlot) (\<lambda>xrc_hi.
     and_then (storage_word account ContractLoSlot) (\<lambda>xrc_lo.
     let packed = hx_packed x (dp_xreserve_contract params) in
     and_then (ensure_that (xrc_hi = fst packed) (ctx @ '': xreserve_contract_hi slot read-back mismatch'')) (\<lambda>_.
     ensure_that (xrc_lo = snd packed) (ctx @ '': xreserve_contract_lo slot read-back mismatch'')))))))))))"

definition assert_row_b :: "harness_ext \<Rightarrow> rows_ab \<Rightarrow> string + unit" where
  "assert_row_b x obs =
     and_then (ok_or (ab_deployed obs) ''row B: no deployed account'') (\<lambda>account.
     and_then (assert_domain_config_slots x account (ab_domain_params obs) ''row B (post-init read-back)'') (\<lambda>_.
     and_then (ok_or (ab_reinit_error obs) ''row B: the SECOND identifier_init did not fail'') (\<lambda>err.
     and_then (ensure_that (contains err ERR_IDENTIFIER_REINIT_TEXT)
       ''row B: the second identifier_init failed, but not with the init-once gate error'') (\<lambda>_.
     and_then (ok_or (ab_after_reinit obs) ''row B: no post-reinit-attempt account fetched'') (\<lambda>after.
     and_then (ensure_that (ac_nonce after = 1) ''row B: the faucet nonce changed'') (\<lambda>_.
     and_then (assert_domain_config_slots x after (ab_domain_params obs) ''row B (post-reinit-attempt)'') (\<lambda>_.
     if ab_second_note_consumed obs then Inl ''row B: the SECOND identifier_init note was consumed''
     else Inr ())))))))"

section \<open>Rows C and F: administration and the authorization boundary\<close>

record c1_set_attester =
  c1_a_marker_after_enable :: word4
  c1_a_marker_after_rotate :: word4
  c1_b_marker_after_rotate :: word4
  c1_mint_by_a :: verdict
  c1_mint_by_b :: verdict

record c2_min_burn =
  c2_raised_min :: u64
  c2_committed_after_raise :: u64
  c2_burn_below_raised :: verdict
  c2_lowered_min :: u64
  c2_committed_after_lower :: u64
  c2_burn_at_lowered :: verdict

record c3_max_supply =
  c3_committed_cap :: u64
  c3_max_supply_readback :: u64
  c3_over_cap_mint :: verdict
  c3_within_cap_mint :: verdict

record c4_pause =
  c4_is_paused_after_pause :: word4
  c4_mint_while_paused :: verdict
  c4_burn_while_paused :: verdict
  c4_owner_set_attester_while_paused_marker :: word4
  c4_owner_set_min_burn_while_paused :: u64
  c4_is_paused_after_unpause :: word4
  c4_mint_after_unpause :: verdict

record c5_role_rotation =
  c5_new_pauser_membership_after_grant :: word4
  c5_is_paused_after_new_pauser_pause :: word4
  c5_new_pauser_membership_after_revoke :: word4
  c5_revoked_pauser_pause :: verdict

record admin_gate_reject =
  ag_op :: string
  ag_sender :: string
  ag_expected_gate :: string
  ag_verdict :: verdict
  ag_note_unconsumed :: bool

record row_f =
  rf_non_allowlisted_note :: verdict
  rf_tx_script :: verdict

record rows_cf =
  cf_main_commit :: string
  cf_faucet_id :: string
  cf_c1 :: c1_set_attester
  cf_c2 :: c2_min_burn
  cf_c3 :: c3_max_supply
  cf_c4 :: c4_pause
  cf_c5 :: c5_role_rotation
  cf_c6 :: "admin_gate_reject list"
  cf_f :: row_f

definition ERR_ATTESTER_NOT_ALLOWLISTED :: string where
  "ERR_ATTESTER_NOT_ALLOWLISTED = ''deposit attester pubkey commitment is not allowlisted''"
definition ERR_BURN_BELOW_MIN :: string where
  "ERR_BURN_BELOW_MIN = ''amount to be burned must exceed specified minimum burn amount''"
definition ERR_SUPPLY_CAP :: string where
  "ERR_SUPPLY_CAP =
     ''token_supply plus the amount passed to distribute would exceed the maximum supply''"
definition ERR_PAUSED :: string where "ERR_PAUSED = ''the contract is paused''"
definition ERR_NOT_OWNER :: string where "ERR_NOT_OWNER = ''note sender is not the owner''"
definition ERR_LACKS_ROLE :: string where
  "ERR_LACKS_ROLE = ''note sender does not hold the required role''"
definition ERR_NOTE_NOT_ALLOWLISTED :: string where
  "ERR_NOTE_NOT_ALLOWLISTED = ''input note script root is not in the note script allowlist''"
definition ERR_TX_SCRIPT_NOT_ALLOWLISTED :: string where
  "ERR_TX_SCRIPT_NOT_ALLOWLISTED = ''transaction script root is not in the tx script allowlist''"

text \<open>The marker \<^verbatim>\<open>err_code: <n>\<close> of a gate, and whether a captured error is that gate's.\<close>

definition code_marker :: "harness_ext \<Rightarrow> string \<Rightarrow> string" where
  "code_marker x expected = ''err_code: '' @ show_nat (unat (hx_err_code x expected))"

definition carries_gate :: "harness_ext \<Rightarrow> string \<Rightarrow> string \<Rightarrow> bool" where
  "carries_gate x expected err \<longleftrightarrow> contains err expected \<or> contains err (code_marker x expected)"

fun assert_rejected_with :: "harness_ext \<Rightarrow> verdict \<Rightarrow> string \<Rightarrow> string \<Rightarrow> string + unit" where
  "assert_rejected_with x Accepted expected ctx =
     Inl (ctx @ '': expected a REJECT, but the consumption was ACCEPTED'')"
| "assert_rejected_with x (Rejected err) expected ctx =
     ensure_that (carries_gate x expected err)
       (ctx @ '': the consumption was rejected, but NOT with the expected gate error'')"

fun assert_accepted :: "verdict \<Rightarrow> string \<Rightarrow> string + unit" where
  "assert_accepted Accepted ctx = Inr ()"
| "assert_accepted (Rejected err) ctx =
     Inl (ctx @ '': expected the consumption to be ACCEPTED, but it was REJECTED'')"

definition assert_word :: "word4 \<Rightarrow> word4 \<Rightarrow> string \<Rightarrow> string + unit" where
  "assert_word actual expected ctx = ensure_that (actual = expected) (ctx @ '': read-back word mismatch'')"

definition assert_c1 :: "harness_ext \<Rightarrow> c1_set_attester \<Rightarrow> string + unit" where
  "assert_c1 x o1 =
     and_then (assert_word (c1_a_marker_after_enable o1) MARKER_SET ''C1: attester A after set_attester'') (\<lambda>_.
     and_then (assert_word (c1_a_marker_after_rotate o1) MARKER_CLEAR ''C1: attester A after rotation'') (\<lambda>_.
     and_then (assert_word (c1_b_marker_after_rotate o1) MARKER_SET ''C1: attester B after rotation'') (\<lambda>_.
     and_then (assert_rejected_with x (c1_mint_by_a o1) ERR_ATTESTER_NOT_ALLOWLISTED
       ''C1: mint attested by the rotated-out A'') (\<lambda>_.
     assert_accepted (c1_mint_by_b o1) ''C1: mint attested by the active B''))))"

definition assert_c2 :: "harness_ext \<Rightarrow> c2_min_burn \<Rightarrow> string + unit" where
  "assert_c2 x o2 =
     and_then (ensure_that (c2_committed_after_raise o2 = c2_raised_min o2)
       ''C2: min_burn_size after the raise'') (\<lambda>_.
     and_then (ensure_that (c2_raised_min o2 > c2_lowered_min o2)
       ''C2: the raised minimum must exceed the lowered minimum'') (\<lambda>_.
     and_then (assert_rejected_with x (c2_burn_below_raised o2) ERR_BURN_BELOW_MIN
       ''C2: a burn below the raised minimum'') (\<lambda>_.
     and_then (ensure_that (c2_committed_after_lower o2 = c2_lowered_min o2)
       ''C2: min_burn_size after the lower'') (\<lambda>_.
     assert_accepted (c2_burn_at_lowered o2) ''C2: a burn exactly at the lowered minimum''))))"

definition assert_c3 :: "harness_ext \<Rightarrow> c3_max_supply \<Rightarrow> string + unit" where
  "assert_c3 x o3 =
     and_then (ensure_that (c3_max_supply_readback o3 = c3_committed_cap o3) ''C3: max_supply read back'') (\<lambda>_.
     and_then (assert_rejected_with x (c3_over_cap_mint o3) ERR_SUPPLY_CAP
       ''C3: a mint exceeding the supply cap'') (\<lambda>_.
     assert_accepted (c3_within_cap_mint o3) ''C3: a mint within the supply cap (baseline)''))"

definition assert_c4 :: "harness_ext \<Rightarrow> c4_pause \<Rightarrow> string + unit" where
  "assert_c4 x o4 =
     and_then (assert_word (c4_is_paused_after_pause o4) MARKER_SET
       ''C4: is_paused after the DOM_PAUSER pause'') (\<lambda>_.
     and_then (assert_rejected_with x (c4_mint_while_paused o4) ERR_PAUSED ''C4: a mint while paused'') (\<lambda>_.
     and_then (assert_rejected_with x (c4_burn_while_paused o4) ERR_PAUSED ''C4: a burn while paused'') (\<lambda>_.
     and_then (assert_word (c4_owner_set_attester_while_paused_marker o4) MARKER_SET
       ''C4/F6: the set_attester committed WHILE PAUSED'') (\<lambda>_.
     and_then (ensure_that (c4_owner_set_min_burn_while_paused o4 > 0)
       ''C4/F6: the set_min_burn_size WHILE PAUSED must commit a non-zero value'') (\<lambda>_.
     and_then (assert_word (c4_is_paused_after_unpause o4) MARKER_CLEAR
       ''C4: is_paused after the DOM_PAUSER unpause'') (\<lambda>_.
     assert_accepted (c4_mint_after_unpause o4) ''C4: a mint after unpause''))))))"

definition assert_c5 :: "harness_ext \<Rightarrow> c5_role_rotation \<Rightarrow> string + unit" where
  "assert_c5 x o5 =
     and_then (assert_word (c5_new_pauser_membership_after_grant o5) MARKER_SET
       ''C5: membership after the DOM_MANAGER grant'') (\<lambda>_.
     and_then (assert_word (c5_is_paused_after_new_pauser_pause o5) MARKER_SET
       ''C5: is_paused after the NEW pauser pauses'') (\<lambda>_.
     and_then (assert_word (c5_new_pauser_membership_after_revoke o5) MARKER_CLEAR
       ''C5: membership after the DOM_MANAGER revoke'') (\<lambda>_.
     assert_rejected_with x (c5_revoked_pauser_pause o5) ERR_LACKS_ROLE ''C5: a pause by the revoked account'')))"

text \<open>One round of the loop of \<^verbatim>\<open>assert_c6\<close>, and the loop with its two flags.\<close>

definition assert_c6_entry :: "harness_ext \<Rightarrow> admin_gate_reject \<Rightarrow> string + unit" where
  "assert_c6_entry x r =
     (let ctx = ''C6: '' @ ag_op r @ '' from a '' @ ag_sender r in
      and_then (assert_rejected_with x (ag_verdict r) (ag_expected_gate r) ctx) (\<lambda>_.
      ensure_that (ag_note_unconsumed r) (ctx @ '': the rejected admin note was CONSUMED on-chain'')))"

fun assert_c6_loop ::
    "harness_ext \<Rightarrow> bool \<Rightarrow> bool \<Rightarrow> admin_gate_reject list \<Rightarrow> string + bool \<times> bool" where
  "assert_c6_loop x saw_owner_gate saw_role_gate [] = Inr (saw_owner_gate, saw_role_gate)"
| "assert_c6_loop x saw_owner_gate saw_role_gate (r # rs) =
     and_then (assert_c6_entry x r) (\<lambda>_.
     assert_c6_loop x (saw_owner_gate \<or> ag_expected_gate r = ERR_NOT_OWNER)
       (saw_role_gate \<or> ag_expected_gate r = ERR_LACKS_ROLE) rs)"

definition assert_c6 :: "harness_ext \<Rightarrow> admin_gate_reject list \<Rightarrow> string + unit" where
  "assert_c6 x rejects =
     and_then (ensure_that (rejects \<noteq> []) ''C6: the negative set must be non-empty'') (\<lambda>_.
     and_then (assert_c6_loop x False False rejects) (\<lambda>(saw_owner_gate, saw_role_gate).
     and_then (ensure_that saw_owner_gate ''C6: no authority-gated op rejected from an unauthorized owner'') (\<lambda>_.
     ensure_that saw_role_gate ''C6: no pause rejected from a non-DOM_PAUSER'')))"

definition assert_f :: "harness_ext \<Rightarrow> row_f \<Rightarrow> string + unit" where
  "assert_f x o6 =
     and_then (assert_rejected_with x (rf_non_allowlisted_note o6) ERR_NOTE_NOT_ALLOWLISTED
       ''F: the faucet consuming a non-allowlisted (P2ID) note'') (\<lambda>_.
     assert_rejected_with x (rf_tx_script o6) ERR_TX_SCRIPT_NOT_ALLOWLISTED
       ''F: a tx-script transaction against the faucet'')"

definition assert_all_cf :: "harness_ext \<Rightarrow> rows_cf \<Rightarrow> string + unit" where
  "assert_all_cf x obs =
     and_then (assert_c1 x (cf_c1 obs)) (\<lambda>_.
     and_then (assert_c2 x (cf_c2 obs)) (\<lambda>_.
     and_then (assert_c3 x (cf_c3 obs)) (\<lambda>_.
     and_then (assert_c4 x (cf_c4 obs)) (\<lambda>_.
     and_then (assert_c5 x (cf_c5 obs)) (\<lambda>_.
     and_then (assert_c6 x (cf_c6 obs)) (\<lambda>_.
     assert_f x (cf_f obs)))))))"

section \<open>Rows D and E: mints\<close>

text \<open>Sums of supplies and balances are of type \<^verbatim>\<open>u64\<close> and wrap as in the release profile.\<close>

record mint_happy =
  mh_label :: string
  mh_hook_data_len :: u32
  mh_amount_units :: u64
  mh_supply_before :: u64
  mh_supply_after :: u64
  mh_nonce_marker_after :: word4
  mh_note_serial :: word4
  mh_expected_serial :: word4
  mh_note_is_p2id :: bool
  mh_note_tag :: u32
  mh_expected_tag :: u32
  mh_note_asset_amount :: u64
  mh_note_asset_is_faucet :: bool
  mh_recipient_balance_before :: u64
  mh_recipient_balance_after :: u64
  mh_note_commit_block :: u32
  mh_recipient_consume_block :: u32

record mint_negative =
  mn_label :: string
  mn_expected_error :: string
  mn_verdict :: verdict
  mn_supply_before :: u64
  mn_supply_after :: u64
  mn_nonce_marker_after :: word4
  mn_expects_nonce_set :: bool

record rows_de =
  de_main_commit :: string
  de_faucet_id :: string
  de_recipient_id :: string
  de_d :: "mint_happy list"
  de_e :: "mint_negative list"

definition ERR_XRESERVE_NONCE_REPLAY :: string where
  "ERR_XRESERVE_NONCE_REPLAY = ''deposit intent nonce has already been used''"
definition ERR_XRESERVE_SIG_INVALID :: string where
  "ERR_XRESERVE_SIG_INVALID = ''deposit attestation signature verification failed''"
definition ERR_XRESERVE_DISALLOWED_PUB_KEY :: string where
  "ERR_XRESERVE_DISALLOWED_PUB_KEY = ''deposit attester pubkey commitment is not allowlisted''"
definition ERR_XRESERVE_FEE_NONZERO :: string where
  "ERR_XRESERVE_FEE_NONZERO = ''mint fee amount must be zero''"

text \<open>\<open>each\<close> is a \<^verbatim>\<open>for\<close> loop whose body may fail: the first failure ends it.\<close>

fun each :: "('a \<Rightarrow> 'e + unit) \<Rightarrow> 'a list \<Rightarrow> 'e + unit" where
  "each f [] = Inr ()"
| "each f (v # vs) = and_then (f v) (\<lambda>_. each f vs)"

lemma each_Inr_iff [outcome_simps]: "each f vs = Inr u \<longleftrightarrow> (\<forall>v \<in> set vs. f v = Inr ())"
  by (induction vs) (auto simp: outcome_simps)

lemma ex_unit [simp]: "(\<exists>u :: unit. P u) \<longleftrightarrow> P ()"
  by (metis old.unit.exhaust)

definition assert_d_variant :: "mint_happy \<Rightarrow> string + unit" where
  "assert_d_variant v =
     (let ctx = ''D['' @ mh_label v @ '']'' in
      and_then (ensure_that (mh_amount_units v > 0) (ctx @ '': must mint a non-zero amount'')) (\<lambda>_.
      and_then (ensure_that (mh_supply_after v = mh_supply_before v + mh_amount_units v)
        (ctx @ '': token_supply must rise by exactly the minted amount'')) (\<lambda>_.
      and_then (ensure_that (mh_nonce_marker_after v = MARKER_SET) (ctx @ '': usedNonces[nonce] must be set'')) (\<lambda>_.
      and_then (ensure_that (mh_note_serial v = mh_expected_serial v)
        (ctx @ '': the emitted note serial must equal the nonce-derived key'')) (\<lambda>_.
      and_then (ensure_that (mh_note_is_p2id v) (ctx @ '': must be a canonical P2ID note'')) (\<lambda>_.
      and_then (ensure_that (mh_note_tag v = mh_expected_tag v)
        (ctx @ '': the emitted note tag must equal the recipient tag'')) (\<lambda>_.
      and_then (ensure_that (mh_note_asset_amount v = mh_amount_units v)
        (ctx @ '': the emitted note asset amount must equal the minted amount'')) (\<lambda>_.
      and_then (ensure_that (mh_note_asset_is_faucet v) (ctx @ '': must be issued by THIS faucet'')) (\<lambda>_.
      and_then (ensure_that (mh_recipient_balance_after v = mh_recipient_balance_before v + mh_amount_units v)
        (ctx @ '': the recipient balance must be credited by the minted amount'')) (\<lambda>_.
      ensure_that (mh_recipient_consume_block v > mh_note_commit_block v)
        (ctx @ '': the recipient consume must commit in a strictly later block'')))))))))))"

definition assert_d :: "mint_happy list \<Rightarrow> string + unit" where
  "assert_d variants =
     and_then (ensure_that (list_ex (\<lambda>v. mh_hook_data_len v = 0) variants)
       ''D: the variants must include an empty-hookData mint'') (\<lambda>_.
     and_then (ensure_that (list_ex (\<lambda>v. mh_hook_data_len v > 0) variants)
       ''D: the variants must include a hookData-bearing mint'') (\<lambda>_.
     each assert_d_variant variants))"

definition REQUIRED_MINT_NEGATIVES :: "string list" where
  "REQUIRED_MINT_NEGATIVES =
     [''replayed-nonce'', ''forged-signature'', ''non-allowlisted-attester'', ''nonzero-fee'', ''tampered-payload'']"

definition assert_e_entry :: "harness_ext \<Rightarrow> mint_negative \<Rightarrow> string + unit" where
  "assert_e_entry x n =
     (let ctx = ''E['' @ mn_label n @ '']'' in
      and_then (assert_rejected_with x (mn_verdict n) (mn_expected_error n) ctx) (\<lambda>_.
      and_then (ensure_that (mn_supply_after n = mn_supply_before n)
        (ctx @ '': committed token_supply must be UNCHANGED'')) (\<lambda>_.
      ensure_that (mn_nonce_marker_after n = (if mn_expects_nonce_set n then MARKER_SET else MARKER_CLEAR))
        (ctx @ '': nonce marker''))))"

definition assert_e :: "harness_ext \<Rightarrow> mint_negative list \<Rightarrow> string + unit" where
  "assert_e x negatives =
     and_then (each (assert_e_entry x) negatives) (\<lambda>_.
     and_then (each (\<lambda>label. ensure_that (list_ex (\<lambda>n. mn_label n = label) negatives)
       (''E: the negatives must include '' @ label)) REQUIRED_MINT_NEGATIVES) (\<lambda>_.
     ensure_that (list_ex (\<lambda>n. mn_label n = ''replayed-nonce'' \<and> mn_expects_nonce_set n) negatives)
       ''E: the replayed-nonce negative must reuse an already-committed nonce''))"

definition assert_all_de :: "harness_ext \<Rightarrow> rows_de \<Rightarrow> string + unit" where
  "assert_all_de x obs = and_then (assert_d (de_d obs)) (\<lambda>_. assert_e x (de_e obs))"

section \<open>Rows G to J: burns and conservation\<close>

record burn_two_block =
  g_label :: string
  g_amount_units :: u64
  g_supply_before :: u64
  g_supply_after :: u64
  g_holder_balance_before :: u64
  g_holder_balance_after :: u64
  g_note_id :: string
  g_note_tag :: u32
  g_note_commit_block :: u32
  g_consume_block :: u32
  g_committed_before_consume :: bool
  g_discovered_by_syncnotes :: bool
  g_found_after_consume :: bool
  g_nullifier_recorded_after_consume :: bool
  g_note_asset_amount :: u64
  g_note_asset_is_faucet :: bool
  g_note_bytes_hex :: string
  g_inclusion_proof_bytes_hex :: string
  g_inclusion_block :: u32

record burn_same_block =
  h_label :: string
  h_amount_units :: u64
  h_mechanism :: string
  h_note_tag :: u32
  h_note_id :: string
  h_consume_accepted :: bool
  h_executed_supply_delta :: "u64 option"
  h_submit_via_user_rpc_rejected :: bool
  h_submit_rejection_error :: string
  h_onchain_supply_before :: u64
  h_onchain_supply_after :: u64
  h_committed_note_found :: bool
  h_nullifier_recorded :: bool
  h_discovered_by_syncnotes :: bool
  h_raw_getnotesbyid_response :: string

record burn_negative =
  bn_label :: string
  bn_expected_error :: string
  bn_verdict :: verdict
  bn_supply_before :: u64
  bn_supply_after :: u64

record supply_step =
  ss_label :: string
  ss_supply :: u64

record conservation_ledger =
  cl_total_minted :: u64
  cl_total_burned :: u64
  cl_final_supply :: u64
  cl_steps :: "supply_step list"
  cl_holder_final_balance :: u64

record rows_gj =
  gj_main_commit :: string
  gj_faucet_id :: string
  gj_holder_id :: string
  gj_g :: burn_two_block
  gj_h :: burn_same_block
  gj_i :: "burn_negative list"
  gj_j :: conservation_ledger

definition ERR_WRONG_ASSET_ORIGIN :: string where
  "ERR_WRONG_ASSET_ORIGIN = ''the faucet is not the origin of the asset''"

text \<open>\<^verbatim>\<open>u64::checked_sub\<close>\<close>

definition checked_sub :: "u64 \<Rightarrow> u64 \<Rightarrow> u64 option" where
  "checked_sub a b = (if b \<le> a then Some (a - b) else None)"

definition assert_g :: "harness_ext \<Rightarrow> burn_two_block \<Rightarrow> string + unit" where
  "assert_g x g =
     (let ctx = ''G['' @ g_label g @ '']'' in
      and_then (ensure_that (g_amount_units g > 0) (ctx @ '': a burn must move a non-zero amount'')) (\<lambda>_.
      and_then (ok_or (checked_sub (g_supply_before g) (g_amount_units g))
        (ctx @ '': supply_before is less than the burned amount'')) (\<lambda>expected_supply.
      and_then (ensure_that (g_supply_after g = expected_supply)
        (ctx @ '': token_supply must fall by exactly the burned amount'')) (\<lambda>_.
      and_then (ok_or (checked_sub (g_holder_balance_before g) (g_amount_units g))
        (ctx @ '': holder_balance_before is less than the burned amount'')) (\<lambda>expected_holder.
      and_then (ensure_that (g_holder_balance_after g = expected_holder)
        (ctx @ '': the holder balance must fall by the burned amount'')) (\<lambda>_.
      and_then (ensure_that (g_note_tag g = hx_burn_tag x) (ctx @ '': the fixed xUSDC burn tag'')) (\<lambda>_.
      and_then (ensure_that (g_note_asset_amount g = g_amount_units g)
        (ctx @ '': the burn note asset amount must equal the burned amount'')) (\<lambda>_.
      and_then (ensure_that (g_note_asset_is_faucet g) (ctx @ '': must be issued by THIS faucet'')) (\<lambda>_.
      and_then (ensure_that (g_committed_before_consume g) (ctx @ '': must be COMMITTED before consumption'')) (\<lambda>_.
      and_then (ensure_that (g_discovered_by_syncnotes g) (ctx @ '': SyncNotes must discover the note'')) (\<lambda>_.
      and_then (ensure_that (g_found_after_consume g) (ctx @ '': GetNotesById must STILL return the note'')) (\<lambda>_.
      and_then (ensure_that (g_nullifier_recorded_after_consume g) (ctx @ '': nullifier must be recorded'')) (\<lambda>_.
      and_then (ensure_that (g_consume_block g > g_note_commit_block g)
        (ctx @ '': the consume must commit in a strictly later block'')) (\<lambda>_.
      and_then (ensure_that (g_note_bytes_hex g \<noteq> []) (ctx @ '': the note capture must be non-empty'')) (\<lambda>_.
      and_then (ensure_that (g_inclusion_proof_bytes_hex g \<noteq> [])
        (ctx @ '': the INCLUSION-PROOF capture must be non-empty'')) (\<lambda>_.
      ensure_that (g_inclusion_block g = g_note_commit_block g)
        (ctx @ '': the inclusion-proof block must equal the note commit block'')))))))))))))))))"

definition assert_h :: "harness_ext \<Rightarrow> burn_same_block \<Rightarrow> string + unit" where
  "assert_h x h =
     (let ctx = ''H['' @ h_label h @ '']'' in
      and_then (ensure_that (h_consume_accepted h) (ctx @ '': the consume must be ACCEPTED'')) (\<lambda>_.
      and_then (ensure_that (h_note_tag h = hx_burn_tag x) (ctx @ '': the fixed xUSDC burn tag'')) (\<lambda>_.
      and_then (ensure_that (h_executed_supply_delta h = Some (h_amount_units h))
        (ctx @ '': supply delta of exactly the burned amount'')) (\<lambda>_.
      and_then (ensure_that (h_submit_via_user_rpc_rejected h) (ctx @ '': the submission must be REJECTED'')) (\<lambda>_.
      and_then (ensure_that (h_submit_rejection_error h \<noteq> []) (ctx @ '': rejection error must be captured'')) (\<lambda>_.
      and_then (ensure_that (h_onchain_supply_after h = h_onchain_supply_before h)
        (ctx @ '': on-chain token_supply must be UNCHANGED'')) (\<lambda>_.
      and_then (ensure_that (\<not> h_committed_note_found h) (ctx @ '': must NOT be a committed note'')) (\<lambda>_.
      and_then (ensure_that (\<not> h_nullifier_recorded h) (ctx @ '': must leave NO on-chain nullifier'')) (\<lambda>_.
      and_then (ensure_that (\<not> h_discovered_by_syncnotes h) (ctx @ '': SyncNotes must NOT discover it'')) (\<lambda>_.
      and_then (ensure_that (h_raw_getnotesbyid_response h \<noteq> []) (ctx @ '': the raw evidence must be captured'')) (\<lambda>_.
      ensure_that (h_mechanism h \<noteq> []) (ctx @ '': the mechanism must be recorded''))))))))))))"

definition REQUIRED_BURN_NEGATIVES :: "string list" where
  "REQUIRED_BURN_NEGATIVES = [''below-min'', ''while-paused'', ''wrong-asset'']"

definition assert_i_entry :: "harness_ext \<Rightarrow> burn_negative \<Rightarrow> string + unit" where
  "assert_i_entry x n =
     (let ctx = ''I['' @ bn_label n @ '']'' in
      and_then (assert_rejected_with x (bn_verdict n) (bn_expected_error n) ctx) (\<lambda>_.
      ensure_that (bn_supply_after n = bn_supply_before n)
        (ctx @ '': committed token_supply must be UNCHANGED'')))"

definition assert_i :: "harness_ext \<Rightarrow> burn_negative list \<Rightarrow> string + unit" where
  "assert_i x negatives =
     and_then (each (assert_i_entry x) negatives) (\<lambda>_.
     each (\<lambda>label. ensure_that (list_ex (\<lambda>n. bn_label n = label) negatives)
       (''I: the burn negatives must include '' @ label)) REQUIRED_BURN_NEGATIVES)"

definition assert_j :: "conservation_ledger \<Rightarrow> string + unit" where
  "assert_j j =
     and_then (ensure_that (cl_total_minted j \<ge> cl_total_burned j)
       ''J: total_minted must be >= total_burned'') (\<lambda>_.
     let expected = cl_total_minted j - cl_total_burned j in
     and_then (ensure_that (cl_final_supply j = expected) ''J: conservation broken'') (\<lambda>_.
     and_then (ensure_that (cl_steps j \<noteq> []) ''J: the per-step supply ledger must be recorded'') (\<lambda>_.
     and_then (ensure_that (ss_supply (last (cl_steps j)) = cl_final_supply j)
       ''J: the last recorded supply step must equal the final supply'') (\<lambda>_.
     ensure_that (cl_holder_final_balance j = expected)
       ''J: the holder's final balance must equal minted - burned''))))"

definition assert_all_gj :: "harness_ext \<Rightarrow> rows_gj \<Rightarrow> string + unit" where
  "assert_all_gj x obs =
     and_then (assert_g x (gj_g obs)) (\<lambda>_.
     and_then (assert_h x (gj_h obs)) (\<lambda>_.
     and_then (assert_i x (gj_i obs)) (\<lambda>_.
     assert_j (gj_j obs))))"

end
