(* ===== verification/Harness_Logs.thy ===== *)
theory Harness_Logs
  imports Harness_Rows "HOL-Library.List_Lexorder" "HOL-Library.Char_ord"
begin

text \<open>
  Rows K and L of the validation matrix (\<^verbatim>\<open>rows_kl.rs\<close>, \<^verbatim>\<open>observations_kl.rs\<close>, \<^verbatim>\<open>assertions_kl.rs\<close>), the
  service names of \<^verbatim>\<open>stack.rs\<close> and the verdict map of \<^verbatim>\<open>record.rs\<close>. Texts are byte strings; white space is that of
  the ASCII range. A dash or an arrow in a text of the source is its UTF-8 encoding.
\<close>

section \<open>Lines, file names and escape sequences\<close>

text \<open>\<^verbatim>\<open>str::lines\<close>: a line ends at a line feed, with one carriage return before it dropped.\<close>

definition line_feed :: char where "line_feed = CHR 0x0A"
definition carriage_return :: char where "carriage_return = CHR 0x0D"

fun drop_cr :: "string \<Rightarrow> string" where
  "drop_cr [] = []"
| "drop_cr (c # cs) = (if c = carriage_return then cs else c # cs)"

fun lines_from :: "string \<Rightarrow> string \<Rightarrow> string list" where
  "lines_from acc [] = (if acc = [] then [] else [rev acc])"
| "lines_from acc (c # cs) =
     (if c = line_feed then rev (drop_cr acc) # lines_from [] cs else lines_from (c # acc) cs)"

definition str_lines :: "string \<Rightarrow> string list" where
  "str_lines text = lines_from [] text"

text \<open>\<^verbatim>\<open>str::rsplit_once\<close> with a character, and the parts of a file name it gives.\<close>

definition rsplit_once :: "char \<Rightarrow> string \<Rightarrow> (string \<times> string) option" where
  "rsplit_once c s =
     (if c \<in> set s
      then let after = takeWhile (\<lambda>d. d \<noteq> c) (rev s) in
        Some (rev (drop (Suc (length after)) (rev s)), rev after)
      else None)"

definition extension :: "string \<Rightarrow> string option" where
  "extension name = (case rsplit_once CHR ''.'' name of
       Some (stem, ext) \<Rightarrow> if stem = [] then None else Some ext
     | None \<Rightarrow> None)"

definition file_stem :: "string \<Rightarrow> string" where
  "file_stem name = (case rsplit_once CHR ''.'' name of
       Some (stem, ext) \<Rightarrow> if stem = [] then name else stem
     | None \<Rightarrow> name)"

lemma rsplit_once_Some: "c \<notin> set after \<Longrightarrow> rsplit_once c (before @ c # after) = Some (before, after)"
proof -
  assume new: "c \<notin> set after"
  have "takeWhile (\<lambda>d. d \<noteq> c) (rev after @ c # rev before) = rev after"
    using new by (subst takeWhile_append2) auto
  then show ?thesis by (simp add: rsplit_once_def Let_def)
qed

definition escape :: char where "escape = CHR 0x1B"

definition csi_final :: "char \<Rightarrow> bool" where
  "csi_final c \<longleftrightarrow> of_char c \<in> {64..126 :: nat}"

lemma csi_final_code [code]: "csi_final c \<longleftrightarrow> (let n = of_char c :: int in 64 \<le> n \<and> n \<le> 126)"
  unfolding csi_final_def of_char_between by (simp add: Let_def)

fun skip_csi :: "string \<Rightarrow> string" where
  "skip_csi [] = []"
| "skip_csi (f # fs) = (if csi_final f then fs else skip_csi fs)"

lemma skip_csi_length: "length (skip_csi s) \<le> length s"
  by (induction s) auto

lemma skip_csi_set: "set (skip_csi s) \<subseteq> set s"
  by (induction s) auto

function strip_ansi :: "string \<Rightarrow> string" where
  "strip_ansi [] = []"
| "strip_ansi (c # cs) =
     (if c = escape
      then (case cs of
          [] \<Rightarrow> []
        | d # ds \<Rightarrow> if d = CHR ''['' then strip_ansi (skip_csi ds) else strip_ansi cs)
      else c # strip_ansi cs)"
  by pat_completeness auto
termination
  by (relation "measure length") (auto simp: less_Suc_eq_le intro: le_SucI skip_csi_length)

lemma strip_ansi_no_escape: "escape \<notin> set (strip_ansi s)"
  by (induction s rule: strip_ansi.induct) (auto split: list.splits)

lemma strip_ansi_plain: "escape \<notin> set s \<Longrightarrow> strip_ansi s = s"
  by (induction s) auto

lemma strip_ansi_idem [simp]: "strip_ansi (strip_ansi s) = strip_ansi s"
  by (rule strip_ansi_plain [OF strip_ansi_no_escape])

section \<open>Classifying a line\<close>

definition line_level :: "string \<Rightarrow> string option" where
  "line_level line =
     List.find (\<lambda>token. token = ''ERROR'' \<or> token = ''WARN'') (split_whitespace_from [] (strip_ansi line))"

definition is_panic_line :: "string \<Rightarrow> bool" where
  "is_panic_line line \<longleftrightarrow> contains (strip_ansi line) ''panicked''"

record expected_log_line =
  el_level :: string
  el_pattern :: string
  el_explanation :: string

record scanned_log =
  sl_service :: string
  sl_path :: string
  sl_bytes :: nat
  sl_lines :: nat
  sl_error_lines :: nat
  sl_warn_lines :: nat

record flagged_line =
  fl_service :: string
  fl_line :: string

record triaged_line =
  tl_service :: string
  tl_line :: string
  tl_pattern :: string
  tl_explanation :: string

record row_l =
  l_scanned :: "scanned_log list"
  l_unexpected_errors :: "flagged_line list"
  l_panics :: "flagged_line list"
  l_expected_errors :: "triaged_line list"
  l_triaged_warnings :: "triaged_line list"
  l_untriaged_warnings :: "flagged_line list"

definition row_l_default :: row_l where
  "row_l_default = \<lparr>l_scanned = [], l_unexpected_errors = [], l_panics = [], l_expected_errors = [],
     l_triaged_warnings = [], l_untriaged_warnings = []\<rparr>"

definition triaged :: "string \<Rightarrow> string \<Rightarrow> expected_log_line \<Rightarrow> triaged_line" where
  "triaged service line e = \<lparr>tl_service = service, tl_line = line, tl_pattern = el_pattern e,
     tl_explanation = el_explanation e\<rparr>"

definition matching :: "expected_log_line list \<Rightarrow> string \<Rightarrow> string \<Rightarrow> expected_log_line option" where
  "matching expected level line =
     List.find (\<lambda>e. el_level e = level \<and> contains line (el_pattern e)) expected"

definition scan_line :: "string \<Rightarrow> expected_log_line list \<Rightarrow> row_l \<Rightarrow> string \<Rightarrow> row_l" where
  "scan_line service expected out raw =
     (let line = strip_ansi raw; flagged = \<lparr>fl_service = service, fl_line = line\<rparr> in
      if is_panic_line line then out\<lparr>l_panics := l_panics out @ [flagged]\<rparr>
      else case line_level line of
        None \<Rightarrow> out
      | Some level \<Rightarrow>
          if level = ''ERROR'' then (case matching expected level line of
              Some e \<Rightarrow> out\<lparr>l_expected_errors := l_expected_errors out @ [triaged service line e]\<rparr>
            | None \<Rightarrow> out\<lparr>l_unexpected_errors := l_unexpected_errors out @ [flagged]\<rparr>)
          else if level = ''WARN'' then (case matching expected level line of
              Some e \<Rightarrow> out\<lparr>l_triaged_warnings := l_triaged_warnings out @ [triaged service line e]\<rparr>
            | None \<Rightarrow> out\<lparr>l_untriaged_warnings := l_untriaged_warnings out @ [flagged]\<rparr>)
          else out)"

definition scan_log_text :: "string \<Rightarrow> string \<Rightarrow> expected_log_line list \<Rightarrow> row_l \<Rightarrow> row_l" where
  "scan_log_text service text expected out = foldl (scan_line service expected) out (str_lines text)"

section \<open>Scanning a directory\<close>

text \<open>
  A file of the log directory: its name, what \<^verbatim>\<open>read_to_string\<close> gives (\<open>None\<close> is a failure) and what
  \<^verbatim>\<open>metadata\<close> says of its length. A directory that cannot be read is \<open>None\<close>; entries that cannot be
  read are left out, as \<^verbatim>\<open>flatten\<close> does.
\<close>

record log_file =
  lf_name :: string
  lf_text :: "string option"
  lf_len :: "nat option"

definition scan_file :: "log_file \<Rightarrow> expected_log_line list \<Rightarrow> row_l \<Rightarrow> string + row_l" where
  "scan_file f expected l =
     (let service = file_stem (lf_name f) in
      and_then (ok_or (lf_text f) ''reading the service log'') (\<lambda>text.
      let entry = \<lparr>sl_service = service, sl_path = lf_name f,
        sl_bytes = (case lf_len f of Some n \<Rightarrow> n | None \<Rightarrow> 0),
        sl_lines = length (str_lines text),
        sl_error_lines = length (filter (\<lambda>ln. line_level ln = Some ''ERROR'') (str_lines text)),
        sl_warn_lines = length (filter (\<lambda>ln. line_level ln = Some ''WARN'') (str_lines text))\<rparr> in
      Inr (scan_log_text service text expected (l\<lparr>l_scanned := l_scanned l @ [entry]\<rparr>))))"

fun scan_files :: "log_file list \<Rightarrow> expected_log_line list \<Rightarrow> row_l \<Rightarrow> string + row_l" where
  "scan_files [] expected l = Inr l"
| "scan_files (f # fs) expected l = and_then (scan_file f expected l) (\<lambda>l'. scan_files fs expected l')"

definition log_files :: "log_file list \<Rightarrow> log_file list" where
  "log_files entries = sort_key lf_name (filter (\<lambda>f. extension (lf_name f) = Some ''log'') entries)"

definition scan_logs :: "log_file list option \<Rightarrow> expected_log_line list \<Rightarrow> string + row_l" where
  "scan_logs dir expected =
     and_then (ok_or dir ''reading the log dir'') (\<lambda>entries.
     scan_files (log_files entries) expected row_l_default)"

section \<open>The expected lines and the judgement of row L\<close>

definition em_dash :: string where "em_dash = map char_of [226, 128, 148 :: nat]"
definition right_arrow :: string where "right_arrow = map char_of [226, 134, 146 :: nat]"

definition EXPECTED_LOG_LINES :: "expected_log_line list" where
  "EXPECTED_LOG_LINES =
    [\<lparr>el_level = ''ERROR'',
      el_pattern = ''Network transactions may not be submitted by users yet'',
      el_explanation = ''the Row-H F7 RIV deliberately SUBMITS the faucet's consume of a '' @
        ''never-committed burn note via user RPC and records the node's rejection as '' @
        ''evidence that a committed same-block create+consume is unreachable on this '' @
        ''stack; the sequencer logs that deliberate rejection here''\<rparr>,
     \<lparr>el_level = ''ERROR'',
      el_pattern = ''all notes failed to be executed'',
      el_explanation = ''the ntx-builder attempting a deliberately-unconsumable routed allowlisted '' @
        ''note '' @ em_dash @ '' the rows-A/B second identifier_init (init-once) and the rows-C6 '' @
        ''non-authorized-sender admin notes; the on-chain MASM gate rejecting them '' @
        ''NODE-SIDE is the negative's evidence (doomed notes are retried with '' @
        ''backoff, so the line recurs). A failing POSITIVE cannot hide here: every '' @
        ''positive commit is guarded by its row's bounded committed-effect poll''\<rparr>,
     \<lparr>el_level = ''ERROR'',
      el_pattern = ''network transaction failed'',
      el_explanation = ''the wrapper line of the same deliberately-unconsumable routed-note '' @
        ''attempts (see 'all notes failed to be executed'): rows-A/B second '' @
        ''identifier_init + rows-C6 non-authorized-sender admin notes, rejected by the '' @
        ''on-chain MASM gates node-side''\<rparr>,
     \<lparr>el_level = ''ERROR'',
      el_pattern = ''Graceful shutdown timed out; exiting process'',
      el_explanation = ''teardown: the harness SIGTERMs the four services in reverse start order '' @
        ''and a service exceeding the grace window logs this while exiting '' @ em_dash @ '' '' @
        ''shutdown lifecycle, not attributable to any transaction''\<rparr>,
     \<lparr>el_level = ''WARN'',
      el_pattern = ''RPC connection failed while opening block subscription, retrying'',
      el_explanation = ''startup ordering: the ntx-builder starts before the sequencer RPC listens '' @
        ''and retries its block subscription with backoff until the sequencer is up''\<rparr>,
     \<lparr>el_level = ''WARN'',
      el_pattern = ''block subscription failed, reconnecting'',
      el_explanation = ''teardown ordering: the sequencer stops first (reverse start order), '' @
        ''dropping the ntx-builder's block subscription''\<rparr>]"

definition REQUIRED_SERVICE_LOGS :: "string list" where
  "REQUIRED_SERVICE_LOGS = [''ntx-builder'', ''sequencer'', ''tx-prover'', ''validator'']"

text \<open>The names under which the services of the stack write their logs (\<^verbatim>\<open>stack.rs\<close>).\<close>

definition V16_SERVICES :: "string list" where
  "V16_SERVICES = [''validator'', ''sequencer'', ''ntx-builder'', ''prover'']"

definition assert_l_service :: "row_l \<Rightarrow> string \<Rightarrow> string + unit" where
  "assert_l_service l required =
     (case List.find (\<lambda>e. sl_service e = required) (l_scanned l) of
        None \<Rightarrow> Inl (''row L: the required service log was not archived: '' @ required)
      | Some e \<Rightarrow> ensure_that (sl_bytes e > 0) (''row L: the required service log is empty: '' @ required))"

definition assert_l :: "row_l \<Rightarrow> string + unit" where
  "assert_l l =
     and_then (each (assert_l_service l) REQUIRED_SERVICE_LOGS) (\<lambda>_.
     and_then (ensure_that (l_panics l = []) ''row L: panic line(s) in the service logs'') (\<lambda>_.
     and_then (ensure_that (l_unexpected_errors l = []) ''row L: ERROR line(s) match no expected pattern'') (\<lambda>_.
     and_then (ensure_that (l_untriaged_warnings l = []) ''row L: WARN line(s) are untriaged'') (\<lambda>_.
     each (\<lambda>t. ensure_that (trim (tl_explanation t) \<noteq> []) ''row L: a triaged line must carry its explanation'')
       (l_expected_errors l @ l_triaged_warnings l)))))"

section \<open>Row K\<close>

record path_n_commit =
  pn_op :: string
  pn_kind :: string
  pn_commit_block :: "u32 option"
  pn_effect :: string

record row_k =
  k_auto_executes :: bool
  k_commits :: "path_n_commit list"
  k_ntx_log_evidence :: "string list"
  k_no_cause :: "string option"
  k_posture :: string

definition NTX_EXECUTION_MARKER :: string where
  "NTX_EXECUTION_MARKER = ''executing network transaction''"

definition POSTURE_PATH_N_LIVE :: string where
  "POSTURE_PATH_N_LIVE =
     ''path N LIVE: the node's ntx-builder auto-executes routed+allowlisted consumptions against '' @
     ''the network-account faucet (mint, burn, and admin all observed committing on this run); '' @
     ''client-side execution (path C) remains open to any permissionless relayer and stays the '' @
     ''harness posture for probes/negatives''"

definition POSTURE_PATH_C_ONLY :: string where
  "POSTURE_PATH_C_ONLY = ''relayer executes client-side (path C)''"

definition ntx_execution_evidence :: "string \<Rightarrow> string list" where
  "ntx_execution_evidence text =
     filter (\<lambda>l. contains l NTX_EXECUTION_MARKER) (map strip_ansi (str_lines text))"

definition show_u64 :: "u64 \<Rightarrow> string" where "show_u64 w = show_nat (unat w)"

fun show_word4 :: "word4 \<Rightarrow> string" where
  "show_word4 (a, b, c, d) =
     ''['' @ show_u64 a @ '','' @ show_u64 b @ '','' @ show_u64 c @ '','' @ show_u64 d @ '']''"

definition show_bool :: "bool \<Rightarrow> string" where "show_bool b = (if b then ''true'' else ''false'')"

definition admin_commit :: "string \<Rightarrow> string \<Rightarrow> path_n_commit" where
  "admin_commit op effect = \<lparr>pn_op = op, pn_kind = ''admin'', pn_commit_block = None, pn_effect = effect\<rparr>"

definition mint_commit :: "mint_happy \<Rightarrow> path_n_commit" where
  "mint_commit v = \<lparr>pn_op = ''mint '' @ mh_label v, pn_kind = ''mint'',
     pn_commit_block = Some (mh_note_commit_block v),
     pn_effect = ''token_supply '' @ show_u64 (mh_supply_before v) @ '' '' @ right_arrow @ '' '' @
       show_u64 (mh_supply_after v) @ ''; usedNonces[nonce] set; recipient P2ID emitted''\<rparr>"

definition burn_commit :: "burn_two_block \<Rightarrow> path_n_commit" where
  "burn_commit g = \<lparr>pn_op = ''burn two-block'', pn_kind = ''burn'',
     pn_commit_block = Some (g_consume_block g),
     pn_effect = ''token_supply '' @ show_u64 (g_supply_before g) @ '' '' @ right_arrow @ '' '' @
       show_u64 (g_supply_after g) @ ''; nullifier recorded: '' @
       show_bool (g_nullifier_recorded_after_consume g)\<rparr>"

definition pathn_commits_from :: "rows_cf \<Rightarrow> rows_de \<Rightarrow> rows_gj \<Rightarrow> path_n_commit list" where
  "pathn_commits_from cf de gj =
    [admin_commit ''set_attester(A, enabled=1)''
       (''attester A allowlist marker '' @ show_word4 (c1_a_marker_after_enable (cf_c1 cf))),
     admin_commit ''set_attester(A, enabled=0) [C1 rotation]''
       (''attester A allowlist marker '' @ show_word4 (c1_a_marker_after_rotate (cf_c1 cf))),
     admin_commit ''set_attester(B, enabled=1) [C1 rotation]''
       (''attester B allowlist marker '' @ show_word4 (c1_b_marker_after_rotate (cf_c1 cf))),
     admin_commit ''set_min_burn_size (C2 raise)''
       (''min_burn_size '' @ show_u64 (c2_committed_after_raise (cf_c2 cf))),
     admin_commit ''set_min_burn_size (C2 lower)''
       (''min_burn_size '' @ show_u64 (c2_committed_after_lower (cf_c2 cf))),
     admin_commit ''set_max_supply (C3)''
       (''max_supply '' @ show_u64 (c3_max_supply_readback (cf_c3 cf))),
     admin_commit ''pause (C4, DOM_PAUSER)''
       (''is_paused '' @ show_word4 (c4_is_paused_after_pause (cf_c4 cf))),
     admin_commit ''set_attester while paused (C4/F6)''
       (''attester allowlist marker '' @ show_word4 (c4_owner_set_attester_while_paused_marker (cf_c4 cf))),
     admin_commit ''set_min_burn_size while paused (C4/F6)''
       (''min_burn_size '' @ show_u64 (c4_owner_set_min_burn_while_paused (cf_c4 cf))),
     admin_commit ''unpause (C4, DOM_PAUSER)''
       (''is_paused '' @ show_word4 (c4_is_paused_after_unpause (cf_c4 cf))),
     admin_commit ''role grant DOM_PAUSER (C5, DOM_MANAGER)''
       (''new-pauser membership '' @ show_word4 (c5_new_pauser_membership_after_grant (cf_c5 cf))),
     admin_commit ''pause (C5, new DOM_PAUSER)''
       (''is_paused '' @ show_word4 (c5_is_paused_after_new_pauser_pause (cf_c5 cf))),
     admin_commit ''role revoke DOM_PAUSER (C5, DOM_MANAGER)''
       (''new-pauser membership '' @ show_word4 (c5_new_pauser_membership_after_revoke (cf_c5 cf)))]
     @ map mint_commit (de_d de) @ [burn_commit (gj_g gj)]"

fun join_with :: "string \<Rightarrow> string list \<Rightarrow> string" where
  "join_with sep [] = []"
| "join_with sep [w] = w"
| "join_with sep (w # ws) = w @ sep @ join_with sep ws"

definition derive_row_k :: "path_n_commit list \<Rightarrow> string list \<Rightarrow> row_k" where
  "derive_row_k commits ntx_log_evidence =
     (let has_mint = list_ex (\<lambda>c. pn_kind c = ''mint'') commits;
          has_burn = list_ex (\<lambda>c. pn_kind c = ''burn'') commits;
          has_marker = ntx_log_evidence \<noteq> [];
          auto_executes = (has_mint \<and> has_burn \<and> has_marker);
          missing =
            (if has_mint then [] else [''no path-N mint commit was observed'']) @
            (if has_burn then [] else [''no path-N burn commit was observed'']) @
            (if has_marker then []
             else [''no 'executing network transaction' markers were found in ntx-builder.log'']) in
      \<lparr>k_auto_executes = auto_executes, k_commits = commits, k_ntx_log_evidence = ntx_log_evidence,
       k_no_cause = (if auto_executes then None else Some (join_with ''; '' missing @ '' '' @ em_dash @
         '' stack: the v0.16.0-alpha.2 four-service topology with the network-tx auth '' @
         ''token wired (sequencer --rpc.network-tx-auth-header-value / ntx-builder '' @
         ''--rpc.auth-header-value; see VALIDATION-RECORD.md '' @ map char_of [194, 167 :: nat] @ ''3)'')),
       k_posture = (if auto_executes then POSTURE_PATH_N_LIVE else POSTURE_PATH_C_ONLY)\<rparr>)"

definition assert_k_commit :: "path_n_commit \<Rightarrow> string + unit" where
  "assert_k_commit c =
     and_then (ensure_that (trim (pn_op c) \<noteq> [] \<and> trim (pn_effect c) \<noteq> [])
       ''row K: every path-N commit must carry its op + committed effect'') (\<lambda>_.
     ensure_that (pn_kind c \<in> {''mint'', ''burn'', ''admin''}) ''row K: unknown path-N commit kind'')"

definition count_kind :: "string \<Rightarrow> path_n_commit list \<Rightarrow> nat" where
  "count_kind kind cs = length (filter (\<lambda>c. pn_kind c = kind) cs)"

definition assert_k :: "row_k \<Rightarrow> string + unit" where
  "assert_k k =
     and_then (ensure_that (trim (k_posture k) \<noteq> []) ''row K: the posture statement must be recorded'') (\<lambda>_.
     and_then (each assert_k_commit (k_commits k)) (\<lambda>_.
     let mints = count_kind ''mint'' (k_commits k); burns = count_kind ''burn'' (k_commits k) in
     if k_auto_executes k then
       and_then (ensure_that (mints \<ge> 1) ''row K: a YES verdict requires a path-N MINT commit'') (\<lambda>_.
       and_then (ensure_that (burns \<ge> 1) ''row K: a YES verdict requires a path-N BURN commit'') (\<lambda>_.
       and_then (ensure_that (k_ntx_log_evidence k \<noteq> []) ''row K: a YES verdict requires node-side markers'') (\<lambda>_.
       ensure_that (k_no_cause k = None) ''row K: a YES verdict must not carry a no-cause'')))
     else
       and_then (case k_no_cause k of
           Some cause \<Rightarrow> ensure_that (trim cause \<noteq> []) ''row K: a NO verdict must record the exact cause''
         | None \<Rightarrow> Inl ''row K: a NO verdict must record the exact cause'') (\<lambda>_.
       and_then (ensure_that (contains (k_posture k) ''client-side (path C)'')
         ''row K: a NO verdict must record the posture statement'') (\<lambda>_.
       ensure_that (mints = 0 \<and> burns = 0) ''row K: a NO verdict contradicts the observed path-N evidence''))))"

section \<open>The matrix\<close>

record full_matrix =
  fm_ab :: rows_ab
  fm_cf :: rows_cf
  fm_de :: rows_de
  fm_gj :: rows_gj
  fm_k :: row_k
  fm_l :: row_l

text \<open>
  \<^verbatim>\<open>run_full_matrix\<close>: the results of starting the stack, of the four sub-runs and of stopping the stack
  are arguments, as is the log directory at the end; the first failure ends the run.
\<close>

definition read_file :: "log_file list option \<Rightarrow> string \<Rightarrow> string option" where
  "read_file dir name =
     Option.bind dir (\<lambda>entries. Option.bind (List.find (\<lambda>f. lf_name f = name) entries) lf_text)"

definition run_full_matrix ::
    "bool \<Rightarrow> string + unit \<Rightarrow> string + rows_ab \<Rightarrow> string + rows_cf \<Rightarrow> string + rows_de \<Rightarrow> string + rows_gj
     \<Rightarrow> string + unit \<Rightarrow> log_file list option \<Rightarrow> string + full_matrix" where
  "run_full_matrix keep_stack started ab_run cf_run de_run gj_run stopped dir =
     and_then started (\<lambda>_.
     and_then ab_run (\<lambda>ab.
     and_then cf_run (\<lambda>cf.
     and_then de_run (\<lambda>de.
     and_then gj_run (\<lambda>gj.
     and_then (if keep_stack then Inr () else stopped) (\<lambda>_.
     and_then (ok_or (read_file dir ''ntx-builder.log'') ''reading ntx-builder.log'') (\<lambda>ntx_text.
     let k = derive_row_k (pathn_commits_from cf de gj) (ntx_execution_evidence ntx_text) in
     and_then (scan_logs dir EXPECTED_LOG_LINES) (\<lambda>l.
     Inr \<lparr>fm_ab = ab, fm_cf = cf, fm_de = de, fm_gj = gj, fm_k = k, fm_l = l\<rparr>))))))))"

definition MATRIX_ROW_IDS :: "string list" where
  "MATRIX_ROW_IDS = [''A'', ''B'', ''C'', ''D'', ''E'', ''F'', ''G'', ''H'', ''I'', ''J'', ''K'', ''L'']"

text \<open>The dash in the title of row C is an en dash in UTF-8.\<close>

definition MATRIX_ROW_TITLES :: "(string \<times> string) list" where
  "MATRIX_ROW_TITLES =
    [(''A'', ''deploy + recognize''),
     (''B'', ''identifier_init init-once''),
     (''C'', ''admin suite (C1'' @ map char_of [226, 128, 147 :: nat] @ ''C6)''),
     (''D'', ''mint happy path''),
     (''E'', ''mint negatives''),
     (''F'', ''auth boundary (F5)''),
     (''G'', ''burn two-block (Circle read-path)''),
     (''H'', ''burn same-block (F7 RIV evidence)''),
     (''I'', ''burn negatives''),
     (''J'', ''conservation ledger''),
     (''K'', ''ntx-builder liveness (path N)''),
     (''L'', ''clean logs'')]"

definition title_of :: "string \<Rightarrow> string" where
  "title_of row = (case map_of MATRIX_ROW_TITLES row of Some title \<Rightarrow> title | None \<Rightarrow> [])"

record row_outcome =
  ro_row :: string
  ro_title :: string
  ro_pass :: bool
  ro_detail :: "string option"

definition row_c :: "harness_ext \<Rightarrow> rows_cf \<Rightarrow> string + unit" where
  "row_c x cf =
     and_then (assert_c1 x (cf_c1 cf)) (\<lambda>_.
     and_then (assert_c2 x (cf_c2 cf)) (\<lambda>_.
     and_then (assert_c3 x (cf_c3 cf)) (\<lambda>_.
     and_then (assert_c4 x (cf_c4 cf)) (\<lambda>_.
     and_then (assert_c5 x (cf_c5 cf)) (\<lambda>_.
     assert_c6 x (cf_c6 cf))))))"

definition outcome_of :: "string \<times> (string + unit) \<Rightarrow> row_outcome" where
  "outcome_of = (\<lambda>(row, r). \<lparr>ro_row = row, ro_title = title_of row, ro_pass = (case r of Inr _ \<Rightarrow> True | Inl _ \<Rightarrow> False),
     ro_detail = (case r of Inl e \<Rightarrow> Some e | Inr _ \<Rightarrow> None)\<rparr>)"

definition full_matrix_outcomes :: "harness_ext \<Rightarrow> full_matrix \<Rightarrow> row_outcome list" where
  "full_matrix_outcomes x m = map outcome_of
    [(''A'', assert_row_a x (fm_ab m)),
     (''B'', assert_row_b x (fm_ab m)),
     (''C'', row_c x (fm_cf m)),
     (''D'', assert_d (de_d (fm_de m))),
     (''E'', assert_e x (de_e (fm_de m))),
     (''F'', assert_f x (cf_f (fm_cf m))),
     (''G'', assert_g x (gj_g (fm_gj m))),
     (''H'', assert_h x (gj_h (fm_gj m))),
     (''I'', assert_i x (gj_i (fm_gj m))),
     (''J'', assert_j (gj_j (fm_gj m))),
     (''K'', assert_k (fm_k m)),
     (''L'', assert_l (fm_l m))]"

definition validate_row_outcomes :: "row_outcome list \<Rightarrow> string + unit" where
  "validate_row_outcomes outcomes =
     and_then (ensure_that (length outcomes = length MATRIX_ROW_IDS) ''the validation matrix has 12 rows'') (\<lambda>_.
     each (\<lambda>(outcome, expected). ensure_that (ro_row outcome = expected) ''matrix row order violated'')
       (zip outcomes MATRIX_ROW_IDS))"

definition any_failed :: "row_outcome list \<Rightarrow> bool" where
  "any_failed outcomes \<longleftrightarrow> list_ex (\<lambda>r. \<not> ro_pass r) outcomes"

end
