(* ===== verification/Harness_Matrix.thy ===== *)
theory Harness_Matrix
  imports Harness_Logs
begin

text \<open>
  What the verdicts of the validation matrix mean: the log scan agrees with a reading of the log texts
  themselves, a row K verdict is a statement about the mints and the markers, and a matrix without a
  failed row conserves the supply. The names of the logs that row L asks for and the names the stack
  writes do not agree, so that row L fails on every run of that stack.
\<close>

section \<open>Lines the log gate lets pass\<close>

definition benign :: "expected_log_line list \<Rightarrow> string \<Rightarrow> bool" where
  "benign expected raw \<longleftrightarrow> \<not> is_panic_line raw \<and>
     (case line_level raw of
        None \<Rightarrow> True
      | Some level \<Rightarrow> list_ex (\<lambda>e. el_level e = level \<and> contains (strip_ansi raw) (el_pattern e)) expected)"

definition unflagged :: "row_l \<Rightarrow> bool" where
  "unflagged l \<longleftrightarrow> l_panics l = [] \<and> l_unexpected_errors l = [] \<and> l_untriaged_warnings l = []"

definition explained :: "row_l \<Rightarrow> bool" where
  "explained l \<longleftrightarrow> (\<forall>t \<in> set (l_expected_errors l @ l_triaged_warnings l). trim (tl_explanation t) \<noteq> [])"

lemma line_level_cases: "line_level line = Some level \<Longrightarrow> level = ''ERROR'' \<or> level = ''WARN''"
  by (auto simp: line_level_def find_Some_iff)

lemma line_level_stripped [simp]: "line_level (strip_ansi raw) = line_level raw"
  by (simp add: line_level_def)

lemma is_panic_line_stripped [simp]: "is_panic_line (strip_ansi raw) = is_panic_line raw"
  by (simp add: is_panic_line_def)

lemma matching_None: "matching expected level line = None \<longleftrightarrow>
    \<not> list_ex (\<lambda>e. el_level e = level \<and> contains line (el_pattern e)) expected"
  by (auto simp: matching_def find_None_iff list_ex_iff)

lemma matching_Some: "matching expected level line = Some e \<Longrightarrow> e \<in> set expected"
  by (auto simp: matching_def find_Some_iff)

lemma benign_matching: "benign expected raw \<longleftrightarrow> \<not> is_panic_line raw \<and>
    (\<forall>level. line_level raw = Some level \<longrightarrow> matching expected level (strip_ansi raw) \<noteq> None)"
  unfolding benign_def matching_None by (auto split: option.splits)

lemma scan_line_scanned [simp]: "l_scanned (scan_line service expected out raw) = l_scanned out"
  by (simp add: scan_line_def Let_def split: option.split)

lemma scan_line_unflagged:
  "unflagged (scan_line service expected out raw) \<longleftrightarrow> unflagged out \<and> benign expected raw"
proof (cases "is_panic_line raw")
  case True
  then show ?thesis by (simp add: scan_line_def Let_def unflagged_def benign_def)
next
  case calm: False
  show ?thesis
  proof (cases "line_level raw")
    case None
    then show ?thesis using calm by (simp add: scan_line_def Let_def benign_def)
  next
    case (Some level)
    from line_level_cases [OF this] show ?thesis
      using calm Some unfolding benign_matching
      by (auto simp: scan_line_def Let_def unflagged_def split: option.split)
  qed
qed

lemma scan_line_explained:
  assumes "\<forall>e \<in> set expected. trim (el_explanation e) \<noteq> []" and "explained out"
  shows "explained (scan_line service expected out raw)"
  using assms
  by (auto simp: scan_line_def Let_def explained_def triaged_def ball_Un dest!: matching_Some split: option.split)

lemma scan_lines_scanned: "l_scanned (foldl (scan_line service expected) out raws) = l_scanned out"
  by (induction raws arbitrary: out) auto

lemma scan_lines_unflagged:
  "unflagged (foldl (scan_line service expected) out raws) \<longleftrightarrow>
     unflagged out \<and> (\<forall>raw \<in> set raws. benign expected raw)"
  by (induction raws arbitrary: out) (auto simp: scan_line_unflagged)

lemma scan_lines_explained:
  "\<forall>e \<in> set expected. trim (el_explanation e) \<noteq> [] \<Longrightarrow> explained out \<Longrightarrow>
     explained (foldl (scan_line service expected) out raws)"
  by (induction raws arbitrary: out) (auto simp: scan_line_explained)

section \<open>Scanning files\<close>

definition file_benign :: "expected_log_line list \<Rightarrow> log_file \<Rightarrow> bool" where
  "file_benign expected f \<longleftrightarrow>
     (case lf_text f of None \<Rightarrow> False | Some text \<Rightarrow> list_all (benign expected) (str_lines text))"

definition log_bytes :: "log_file \<Rightarrow> nat" where
  "log_bytes f = (case lf_len f of Some n \<Rightarrow> n | None \<Rightarrow> 0)"

lemma unflagged_scanned [simp]: "unflagged (l\<lparr>l_scanned := es\<rparr>) = unflagged l"
  "explained (l\<lparr>l_scanned := es\<rparr>) = explained l"
  by (simp_all add: unflagged_def explained_def)

lemma scan_file_effect:
  assumes "scan_file f expected l = Inr l'"
  shows "unflagged l' \<longleftrightarrow> unflagged l \<and> file_benign expected f"
    and "\<forall>e \<in> set expected. trim (el_explanation e) \<noteq> [] \<Longrightarrow> explained l \<Longrightarrow> explained l'"
    and "\<exists>e. l_scanned l' = l_scanned l @ [e] \<and> sl_service e = file_stem (lf_name f) \<and> sl_bytes e = log_bytes f"
  using assms
  by (auto simp: scan_file_def Let_def outcome_simps scan_log_text_def scan_lines_unflagged scan_lines_explained
      scan_lines_scanned file_benign_def log_bytes_def list_all_iff)

lemma scan_files_effect:
  assumes "scan_files fs expected l = Inr l'"
  shows "(unflagged l' \<longleftrightarrow> unflagged l \<and> (\<forall>f \<in> set fs. file_benign expected f)) \<and>
    ((\<forall>e \<in> set expected. trim (el_explanation e) \<noteq> []) \<longrightarrow> explained l \<longrightarrow> explained l') \<and>
    (\<exists>es. l_scanned l' = l_scanned l @ es \<and>
       list_all2 (\<lambda>f e. sl_service e = file_stem (lf_name f) \<and> sl_bytes e = log_bytes f) fs es)"
  using assms
proof (induction fs arbitrary: l)
  case Nil
  then show ?case by simp
next
  case (Cons f fs)
  from Cons.prems obtain l1 where one: "scan_file f expected l = Inr l1"
    and rest: "scan_files fs expected l1 = Inr l'"
    by (auto simp: outcome_simps)
  note step = scan_file_effect [OF one]
  obtain e where e: "l_scanned l1 = l_scanned l @ [e]" "sl_service e = file_stem (lf_name f)" "sl_bytes e = log_bytes f"
    using step(3) by blast
  obtain es where es: "l_scanned l' = l_scanned l1 @ es"
    "list_all2 (\<lambda>f e. sl_service e = file_stem (lf_name f) \<and> sl_bytes e = log_bytes f) fs es"
    using Cons.IH [OF rest] by blast
  have "l_scanned l' = l_scanned l @ (e # es) \<and>
      list_all2 (\<lambda>f e. sl_service e = file_stem (lf_name f) \<and> sl_bytes e = log_bytes f) (f # fs) (e # es)"
    using e es by simp
  moreover have "unflagged l' \<longleftrightarrow> unflagged l \<and> (\<forall>g \<in> set (f # fs). file_benign expected g)"
    using Cons.IH [OF rest] step(1) by auto
  moreover have "(\<forall>e \<in> set expected. trim (el_explanation e) \<noteq> []) \<longrightarrow> explained l \<longrightarrow> explained l'"
    using Cons.IH [OF rest] step(2) by blast
  ultimately show ?case by blast
qed

lemma scan_files_total:
  "(\<exists>l'. scan_files fs expected l = Inr l') \<longleftrightarrow> (\<forall>f \<in> set fs. lf_text f \<noteq> None)"
  by (induction fs arbitrary: l) (auto simp: outcome_simps scan_file_def Let_def)

section \<open>File names\<close>

lemma named_log:
  "extension name = Some ''log'' \<Longrightarrow> name = file_stem name @ ''.log''"
proof -
  assume ext: "extension name = Some ''log''"
  let ?r = "rev name" and ?after = "takeWhile (\<lambda>d. d \<noteq> CHR ''.'') (rev name)"
  from ext have dot: "CHR ''.'' \<in> set name"
    and parts: "rev ?after = ''log''" "rev (drop (Suc (length ?after)) ?r) \<noteq> []"
    by (auto simp: extension_def rsplit_once_def Let_def split: if_splits)
  have "dropWhile (\<lambda>d. d \<noteq> CHR ''.'') ?r \<noteq> []"
    using dot by (auto simp: dropWhile_eq_Nil_conv)
  then have "?r ! length ?after = CHR ''.''" and long: "length ?after < length ?r"
    using nth_length_takeWhile [of "\<lambda>d. d \<noteq> CHR ''.''" ?r] dot
    by (metis (full_types) length_append length_dropWhile_le length_greater_0_conv less_add_same_cancel1 takeWhile_dropWhile_id,
        metis length_append length_greater_0_conv less_add_same_cancel1 takeWhile_dropWhile_id)
  have "?r = ?after @ CHR ''.'' # drop (Suc (length ?after)) ?r"
    using long \<open>?r ! length ?after = CHR ''.''\<close> takeWhile_eq_take [of "\<lambda>d. d \<noteq> CHR ''.''" ?r]
    by (metis id_take_nth_drop)
  then have "name = rev (drop (Suc (length ?after)) ?r) @ CHR ''.'' # rev ?after"
    by (metis rev.simps(2) rev_append rev_rev_ident append.assoc append_Cons append_Nil)
  then show ?thesis
    using parts dot by (simp add: file_stem_def rsplit_once_def Let_def)
qed

lemma log_name_parts:
  assumes "svc \<noteq> []"
  shows "extension (svc @ ''.log'') = Some ''log''" and "file_stem (svc @ ''.log'') = svc"
proof -
  have "rsplit_once CHR ''.'' (svc @ CHR ''.'' # ''log'') = Some (svc, ''log'')"
    by (rule rsplit_once_Some) simp
  then show "extension (svc @ ''.log'') = Some ''log''" "file_stem (svc @ ''.log'') = svc"
    using assms by (simp_all add: extension_def file_stem_def)
qed

section \<open>Row L\<close>

definition archived :: "log_file list \<Rightarrow> string \<Rightarrow> bool" where
  "archived entries svc \<longleftrightarrow> list_ex (\<lambda>f. lf_name f = svc @ ''.log'' \<and> log_bytes f > 0) entries"

lemma in_log_files: "f \<in> set (log_files entries) \<longleftrightarrow> f \<in> set entries \<and> extension (lf_name f) = Some ''log''"
  by (auto simp: log_files_def)

lemma list_all2_member:
  "list_all2 P xs ys \<Longrightarrow> y \<in> set ys \<Longrightarrow> \<exists>x \<in> set xs. P x y"
  "list_all2 P xs ys \<Longrightarrow> x \<in> set xs \<Longrightarrow> \<exists>y \<in> set ys. P x y"
  by (induction rule: list_all2_induct) auto

lemma scanned_archived:
  assumes files: "list_all2 (\<lambda>f e. sl_service e = file_stem (lf_name f) \<and> sl_bytes e = log_bytes f)
      (log_files entries) (l_scanned l)"
    and judged: "assert_l_service l svc = Inr ()"
  shows "archived entries svc"
proof -
  obtain e where "List.find (\<lambda>e. sl_service e = svc) (l_scanned l) = Some e" and bytes: "sl_bytes e > 0"
    using judged by (auto simp: assert_l_service_def outcome_simps split: option.splits)
  then have e: "e \<in> set (l_scanned l)" "sl_service e = svc" by (auto simp: find_Some_iff)
  then obtain f where f: "f \<in> set (log_files entries)" "svc = file_stem (lf_name f)" "sl_bytes e = log_bytes f"
    using list_all2_member(1) [OF files e(1)] by auto
  then have "lf_name f = svc @ ''.log''"
    using named_log in_log_files by blast
  then show "archived entries svc"
    using f bytes in_log_files by (auto simp: archived_def list_ex_iff)
qed

lemma scanned_service:
  assumes files: "list_all2 (\<lambda>f e. sl_service e = file_stem (lf_name f) \<and> sl_bytes e = log_bytes f)
      (log_files entries) (l_scanned l)"
    and distinct: "distinct (map lf_name entries)" and svc: "svc \<noteq> []"
  shows "assert_l_service l svc = Inr () \<longleftrightarrow> archived entries svc"
proof
  assume "assert_l_service l svc = Inr ()"
  then show "archived entries svc" by (rule scanned_archived [OF files])
next
  assume "archived entries svc"
  then obtain f where f: "f \<in> set entries" "lf_name f = svc @ ''.log''" "log_bytes f > 0"
    by (auto simp: archived_def list_ex_iff)
  then have "f \<in> set (log_files entries)" using log_name_parts [OF svc] in_log_files by simp
  then obtain e0 where "e0 \<in> set (l_scanned l)" "sl_service e0 = svc"
    using list_all2_member(2) [OF files] f(2) log_name_parts [OF svc] by fastforce
  then obtain e where found: "List.find (\<lambda>e. sl_service e = svc) (l_scanned l) = Some e"
    by (cases "List.find (\<lambda>e. sl_service e = svc) (l_scanned l)") (auto simp: find_None_iff)
  then have e: "e \<in> set (l_scanned l)" "sl_service e = svc" by (auto simp: find_Some_iff)
  then obtain g where g: "g \<in> set (log_files entries)" "svc = file_stem (lf_name g)" "sl_bytes e = log_bytes g"
    using list_all2_member(1) [OF files e(1)] by auto
  then have "lf_name g = lf_name f" "g \<in> set entries" using f(2) named_log in_log_files by auto
  then have "g = f" using f(1) distinct by (metis distinct_map inj_onD)
  then show "assert_l_service l svc = Inr ()"
    using found g(3) f(3) by (simp add: assert_l_service_def)
qed

lemma trim_nonblank:
  assumes "c \<in> set s" and "\<not> is_ascii_space c"
  shows "trim s \<noteq> []"
proof
  assume "trim s = []"
  let ?t = "dropWhile is_ascii_space s"
  from \<open>trim s = []\<close> have blank: "\<forall>d \<in> set ?t. is_ascii_space d"
    by (simp add: trim_def dropWhile_eq_Nil_conv)
  have "?t = []" using blank hd_dropWhile [of is_ascii_space s] by (cases ?t) auto
  then show False using assms by (auto simp: dropWhile_eq_Nil_conv)
qed

lemma expected_lines_explained: "\<forall>e \<in> set EXPECTED_LOG_LINES. trim (el_explanation e) \<noteq> []"
proof -
  have "list_all (\<lambda>e. el_explanation e \<noteq> [] \<and> \<not> is_ascii_space (hd (el_explanation e))) EXPECTED_LOG_LINES"
    by (simp add: EXPECTED_LOG_LINES_def is_ascii_space_def)
  then show ?thesis
    unfolding list_all_iff by (metis hd_in_set trim_nonblank)
qed

lemma row_l_exact:
  assumes distinct: "distinct (map lf_name entries)"
  shows "(\<exists>l. scan_logs (Some entries) EXPECTED_LOG_LINES = Inr l \<and> assert_l l = Inr ()) \<longleftrightarrow>
    (\<forall>svc \<in> set REQUIRED_SERVICE_LOGS. archived entries svc) \<and>
    (\<forall>f \<in> set (log_files entries). file_benign EXPECTED_LOG_LINES f)"
proof -
  have judged: "assert_l l = Inr () \<longleftrightarrow> (\<forall>svc \<in> set REQUIRED_SERVICE_LOGS. archived entries svc) \<and>
      (\<forall>f \<in> set (log_files entries). file_benign EXPECTED_LOG_LINES f)"
    if scan: "scan_files (log_files entries) EXPECTED_LOG_LINES row_l_default = Inr l" for l
  proof -
    note effect = scan_files_effect [OF scan]
    have start: "unflagged row_l_default" "explained row_l_default" "l_scanned row_l_default = []"
      by (simp_all add: unflagged_def explained_def row_l_default_def)
    have flags: "unflagged l \<longleftrightarrow> (\<forall>f \<in> set (log_files entries). file_benign EXPECTED_LOG_LINES f)"
      and expl: "explained l"
      using effect start expected_lines_explained by blast+
    have files: "list_all2 (\<lambda>f e. sl_service e = file_stem (lf_name f) \<and> sl_bytes e = log_bytes f)
        (log_files entries) (l_scanned l)"
      using effect start(3) by auto
    have services: "(\<forall>svc \<in> set REQUIRED_SERVICE_LOGS. assert_l_service l svc = Inr ()) \<longleftrightarrow>
        (\<forall>svc \<in> set REQUIRED_SERVICE_LOGS. archived entries svc)"
      by (rule ball_cong [OF refl scanned_service [OF files distinct]]) (auto simp: REQUIRED_SERVICE_LOGS_def)
    show ?thesis
      using expl unfolding assert_l_def flags [symmetric] services [symmetric]
      by (auto simp: outcome_simps unflagged_def explained_def ball_Un)
  qed
  have readable: "\<exists>l. scan_files (log_files entries) EXPECTED_LOG_LINES row_l_default = Inr l"
    if "\<forall>f \<in> set (log_files entries). file_benign EXPECTED_LOG_LINES f"
    using that by (auto simp: scan_files_total file_benign_def split: option.splits)
  show ?thesis
    unfolding scan_logs_def using judged readable by auto
qed

section \<open>Row K\<close>

lemma trim_Cons [simp]: "\<not> is_ascii_space c \<Longrightarrow> trim (c # s) \<noteq> []"
  by (rule trim_nonblank [of c]) simp_all

lemma pathn_commits_judged: "each assert_k_commit (pathn_commits_from cf de gj) = Inr ()"
proof -
  have "assert_k_commit (mint_commit v) = Inr ()" for v
    by (simp add: assert_k_commit_def mint_commit_def is_ascii_space_def)
  moreover have "assert_k_commit (burn_commit g) = Inr ()" for g
    by (simp add: assert_k_commit_def burn_commit_def is_ascii_space_def)
  moreover have "\<not> is_ascii_space a \<Longrightarrow> \<not> is_ascii_space b \<Longrightarrow> assert_k_commit (admin_commit (a # op) (b # eff)) = Inr ()"
    for a b op eff
    by (simp add: assert_k_commit_def admin_commit_def)
  ultimately show ?thesis
    by (auto simp: pathn_commits_from_def outcome_simps is_ascii_space_def)
qed

lemma pathn_kinds:
  "count_kind ''burn'' (pathn_commits_from cf de gj) = 1"
  "count_kind ''mint'' (pathn_commits_from cf de gj) = length (de_d de)"
  by (simp_all add: count_kind_def pathn_commits_from_def admin_commit_def mint_commit_def burn_commit_def
      filter_map o_def)

lemma list_ex_count: "list_ex (\<lambda>c. pn_kind c = kind) cs \<longleftrightarrow> count_kind kind cs \<noteq> 0"
  by (auto simp: list_ex_iff count_kind_def filter_empty_conv)

lemma row_k_exact:
  "assert_k (derive_row_k (pathn_commits_from cf de gj) evidence) = Inr () \<longleftrightarrow> de_d de \<noteq> [] \<and> evidence \<noteq> []"
proof (cases "de_d de \<noteq> [] \<and> evidence \<noteq> []")
  case True
  then show ?thesis
    by (simp add: assert_k_def derive_row_k_def list_ex_count pathn_kinds pathn_commits_judged Let_def
        POSTURE_PATH_N_LIVE_def is_ascii_space_def Suc_le_eq)
next
  case False
  then have "\<not> k_auto_executes (derive_row_k (pathn_commits_from cf de gj) evidence)"
    by (simp add: derive_row_k_def list_ex_count pathn_kinds Let_def)
  moreover have "k_commits (derive_row_k (pathn_commits_from cf de gj) evidence) = pathn_commits_from cf de gj"
    by (simp add: derive_row_k_def Let_def)
  ultimately have "assert_k (derive_row_k (pathn_commits_from cf de gj) evidence) \<noteq> Inr ()"
    by (simp add: assert_k_def outcome_simps pathn_kinds Let_def)
  with False show ?thesis by blast
qed

section \<open>The whole matrix\<close>

lemma green_rows:
  assumes "\<not> any_failed (full_matrix_outcomes x m)"
  shows "assert_row_a x (fm_ab m) = Inr ()" "assert_row_b x (fm_ab m) = Inr ()" "row_c x (fm_cf m) = Inr ()"
    "assert_d (de_d (fm_de m)) = Inr ()" "assert_e x (de_e (fm_de m)) = Inr ()" "assert_f x (cf_f (fm_cf m)) = Inr ()"
    "assert_g x (gj_g (fm_gj m)) = Inr ()" "assert_h x (gj_h (fm_gj m)) = Inr ()" "assert_i x (gj_i (fm_gj m)) = Inr ()"
    "assert_j (gj_j (fm_gj m)) = Inr ()" "assert_k (fm_k m) = Inr ()" "assert_l (fm_l m) = Inr ()"
  using assms
  by (simp_all add: any_failed_def full_matrix_outcomes_def outcome_of_def split: sum.splits)

lemma matrix_rows_in_order: "validate_row_outcomes (full_matrix_outcomes x m) = Inr ()"
  by (simp add: validate_row_outcomes_def full_matrix_outcomes_def outcome_of_def MATRIX_ROW_IDS_def)

lemma run_full_matrix_parts:
  assumes "run_full_matrix keep_stack started ab_run cf_run de_run gj_run stopped dir = Inr m"
  shows "cf_run = Inr (fm_cf m)" "de_run = Inr (fm_de m)" "gj_run = Inr (fm_gj m)"
    "\<exists>text. read_file dir ''ntx-builder.log'' = Some text \<and>
       fm_k m = derive_row_k (pathn_commits_from (fm_cf m) (fm_de m) (fm_gj m)) (ntx_execution_evidence text)"
    "scan_logs dir EXPECTED_LOG_LINES = Inr (fm_l m)"
  using assms by (auto simp: run_full_matrix_def outcome_simps Let_def split: if_splits)

lemma rejected_with_gate:
  "assert_rejected_with x v expected ctx = Inr u \<longleftrightarrow> (\<exists>err. v = Rejected err \<and> carries_gate x expected err)"
  by (cases v) (auto simp: outcome_simps)

lemma word_difference: "(b :: 'a::len word) \<le> a \<Longrightarrow> unat a = unat b + unat (a - b)"
  by (simp add: unat_sub word_le_nat_alt)

lemma two_block_burn_exact:
  assumes "assert_g x g = Inr ()"
  shows "unat (g_supply_before g) = unat (g_supply_after g) + unat (g_amount_units g)"
    "unat (g_holder_balance_before g) = unat (g_holder_balance_after g) + unat (g_amount_units g)"
    "0 < unat (g_amount_units g)"
    "g_note_commit_block g < g_consume_block g"
  using assms word_difference [of "g_amount_units g" "g_supply_before g"]
    word_difference [of "g_amount_units g" "g_holder_balance_before g"]
  by (auto simp: assert_g_def Let_def outcome_simps checked_sub_def unat_gt_0 word_neq_0_conv split: if_splits)

lemma ledger_conserves:
  assumes "assert_j j = Inr ()"
  shows "unat (cl_total_minted j) = unat (cl_total_burned j) + unat (cl_final_supply j)"
    "cl_holder_final_balance j = cl_final_supply j"
    "cl_steps j \<noteq> [] \<and> ss_supply (last (cl_steps j)) = cl_final_supply j"
  using assms word_difference [of "cl_total_burned j" "cl_total_minted j"]
  by (auto simp: assert_j_def Let_def outcome_simps)

fun mint_refused :: "harness_ext \<Rightarrow> mint_negative \<Rightarrow> bool" where
  "mint_refused x n \<longleftrightarrow> (case mn_verdict n of
       Accepted \<Rightarrow> False
     | Rejected err \<Rightarrow> carries_gate x (mn_expected_error n) err) \<and>
     mn_supply_after n = mn_supply_before n \<and>
     mn_nonce_marker_after n = (if mn_expects_nonce_set n then MARKER_SET else MARKER_CLEAR)"

fun burn_refused :: "harness_ext \<Rightarrow> burn_negative \<Rightarrow> bool" where
  "burn_refused x n \<longleftrightarrow> (case bn_verdict n of
       Accepted \<Rightarrow> False
     | Rejected err \<Rightarrow> carries_gate x (bn_expected_error n) err) \<and>
     bn_supply_after n = bn_supply_before n"

lemma mint_negatives_refused:
  assumes "assert_e x ns = Inr ()"
  shows "\<forall>n \<in> set ns. mint_refused x n" "set REQUIRED_MINT_NEGATIVES \<subseteq> mn_label ` set ns"
    "\<exists>n \<in> set ns. mn_label n = ''replayed-nonce'' \<and> mn_nonce_marker_after n = MARKER_SET"
proof -
  from assms have entries: "\<forall>n \<in> set ns. assert_e_entry x n = Inr ()"
    and labels: "\<forall>label \<in> set REQUIRED_MINT_NEGATIVES. \<exists>n \<in> set ns. mn_label n = label"
    and replay: "\<exists>n \<in> set ns. mn_label n = ''replayed-nonce'' \<and> mn_expects_nonce_set n"
    by (auto simp: assert_e_def outcome_simps list_ex_iff)
  show refused: "\<forall>n \<in> set ns. mint_refused x n"
    using entries by (auto simp: assert_e_entry_def Let_def outcome_simps rejected_with_gate)
  show "set REQUIRED_MINT_NEGATIVES \<subseteq> mn_label ` set ns" using labels by (metis image_eqI subsetI)
  show "\<exists>n \<in> set ns. mn_label n = ''replayed-nonce'' \<and> mn_nonce_marker_after n = MARKER_SET"
    using replay refused by auto
qed

lemma burn_negatives_refused:
  assumes "assert_i x ns = Inr ()"
  shows "\<forall>n \<in> set ns. burn_refused x n" "set REQUIRED_BURN_NEGATIVES \<subseteq> bn_label ` set ns"
proof -
  from assms have entries: "\<forall>n \<in> set ns. assert_i_entry x n = Inr ()"
    and labels: "\<forall>label \<in> set REQUIRED_BURN_NEGATIVES. \<exists>n \<in> set ns. bn_label n = label"
    by (auto simp: assert_i_def outcome_simps list_ex_iff)
  show "\<forall>n \<in> set ns. burn_refused x n"
    using entries by (auto simp: assert_i_entry_def Let_def outcome_simps rejected_with_gate)
  show "set REQUIRED_BURN_NEGATIVES \<subseteq> bn_label ` set ns" using labels by (metis image_eqI subsetI)
qed


text \<open>
  C29: Row L asks for a log named \<^verbatim>\<open>tx-prover.log\<close>, while the stack writes the log of that service as
  \<^verbatim>\<open>prover.log\<close>: whatever the services log and whatever the sub-runs observe, a run of the matrix over
  the logs of this stack reports a failed row.
\<close>

theorem matrix_fails_on_stack_logs:
  assumes run: "run_full_matrix keep_stack started ab_run cf_run de_run gj_run stopped (Some entries) = Inr m"
    and stack: "lf_name ` set entries \<subseteq> (\<lambda>svc. svc @ ''.log'') ` set V16_SERVICES"
  shows "any_failed (full_matrix_outcomes x m)"
proof (rule ccontr)
  assume "\<not> any_failed (full_matrix_outcomes x m)"
  then have "assert_l (fm_l m) = Inr ()" by (rule green_rows(12))
  then have judged: "assert_l_service (fm_l m) ''tx-prover'' = Inr ()"
    by (simp add: assert_l_def outcome_simps REQUIRED_SERVICE_LOGS_def)
  have "scan_files (log_files entries) EXPECTED_LOG_LINES row_l_default = Inr (fm_l m)"
    using run_full_matrix_parts(5) [OF run] by (simp add: scan_logs_def)
  from scan_files_effect [OF this] have
    "list_all2 (\<lambda>f e. sl_service e = file_stem (lf_name f) \<and> sl_bytes e = log_bytes f)
       (log_files entries) (l_scanned (fm_l m))"
    by (auto simp: row_l_default_def)
  from scanned_archived [OF this judged] have "''tx-prover.log'' \<in> lf_name ` set entries"
    by (force simp: archived_def list_ex_iff)
  then show False using stack by (auto simp: V16_SERVICES_def)
qed

section \<open>Concrete runs\<close>

text \<open>A run in which every row passes, and the same run over the logs the stack writes.\<close>

definition sample_hx :: harness_ext where
  "sample_hx = \<lparr>hx_err_code = (\<lambda>s. of_nat (length s)), hx_is_public = (\<lambda>_. True), hx_note_scripts = {5},
     hx_expiration_root = 6, hx_identifier_for = (\<lambda>_. (9, 0, 0, 0)), hx_packed = (\<lambda>_. ((1, 2, 3, 4), (5, 6, 7, 8))),
     hx_burn_tag = 1112887886\<rparr>"

definition sample_faucet :: account where
  "sample_faucet = \<lparr>ac_id = 11, ac_nonce = 1,
     ac_item = (\<lambda>s. case s of DomainSlot \<Rightarrow> Some (7, 0, 0, 0) | IdentifierSlot \<Rightarrow> Some (9, 0, 0, 0)
       | SourceDomainSlot \<Rightarrow> Some (3, 0, 0, 0) | ContractHiSlot \<Rightarrow> Some (1, 2, 3, 4)
       | ContractLoSlot \<Rightarrow> Some (5, 6, 7, 8) | _ \<Rightarrow> None),
     ac_used_nonce = (\<lambda>_. None), ac_attester = (\<lambda>_. None),
     ac_note_allowlist = Some {5}, ac_tx_allowlist = Some {6}\<rparr>"

definition sample_params :: domain_params where
  "sample_params = \<lparr>dp_domain = 7, dp_source_domain = 3, dp_xreserve_contract = 4, dp_identifier_bytes = 0\<rparr>"

definition sample_ab :: rows_ab where
  "sample_ab = \<lparr>ab_main_commit = [], ab_faucet_id = 11, ab_deployed = Some sample_faucet, ab_deploy_tx_id = [],
     ab_deploy_block = 1, ab_owner_id = 2, ab_domain_params = sample_params, ab_reinit_params = sample_params,
     ab_first_note_id = [], ab_second_note_id = [], ab_reinit_error = Some ERR_IDENTIFIER_REINIT_TEXT,
     ab_after_reinit = Some sample_faucet, ab_second_note_consumed = False\<rparr>"

definition sample_cf :: rows_cf where
  "sample_cf = \<lparr>cf_main_commit = [], cf_faucet_id = [],
     cf_c1 = \<lparr>c1_a_marker_after_enable = MARKER_SET, c1_a_marker_after_rotate = MARKER_CLEAR,
       c1_b_marker_after_rotate = MARKER_SET, c1_mint_by_a = Rejected ERR_ATTESTER_NOT_ALLOWLISTED,
       c1_mint_by_b = Accepted\<rparr>,
     cf_c2 = \<lparr>c2_raised_min = 9, c2_committed_after_raise = 9, c2_burn_below_raised = Rejected ERR_BURN_BELOW_MIN,
       c2_lowered_min = 1, c2_committed_after_lower = 1, c2_burn_at_lowered = Accepted\<rparr>,
     cf_c3 = \<lparr>c3_committed_cap = 50, c3_max_supply_readback = 50, c3_over_cap_mint = Rejected ERR_SUPPLY_CAP,
       c3_within_cap_mint = Accepted\<rparr>,
     cf_c4 = \<lparr>c4_is_paused_after_pause = MARKER_SET, c4_mint_while_paused = Rejected ERR_PAUSED,
       c4_burn_while_paused = Rejected ERR_PAUSED, c4_owner_set_attester_while_paused_marker = MARKER_SET,
       c4_owner_set_min_burn_while_paused = 2, c4_is_paused_after_unpause = MARKER_CLEAR,
       c4_mint_after_unpause = Accepted\<rparr>,
     cf_c5 = \<lparr>c5_new_pauser_membership_after_grant = MARKER_SET, c5_is_paused_after_new_pauser_pause = MARKER_SET,
       c5_new_pauser_membership_after_revoke = MARKER_CLEAR, c5_revoked_pauser_pause = Rejected ERR_LACKS_ROLE\<rparr>,
     cf_c6 = [\<lparr>ag_op = ''set_attester'', ag_sender = ''non-owner'', ag_expected_gate = ERR_NOT_OWNER,
         ag_verdict = Rejected ERR_NOT_OWNER, ag_note_unconsumed = True\<rparr>,
       \<lparr>ag_op = ''pause'', ag_sender = ''non-DOM_PAUSER'', ag_expected_gate = ERR_LACKS_ROLE,
         ag_verdict = Rejected ERR_LACKS_ROLE, ag_note_unconsumed = True\<rparr>],
     cf_f = \<lparr>rf_non_allowlisted_note = Rejected ERR_NOTE_NOT_ALLOWLISTED,
       rf_tx_script = Rejected ERR_TX_SCRIPT_NOT_ALLOWLISTED\<rparr>\<rparr>"

definition sample_minted :: "u32 \<Rightarrow> u64 \<Rightarrow> mint_happy" where
  "sample_minted hook before = \<lparr>mh_label = ''mint'', mh_hook_data_len = hook, mh_amount_units = 10,
     mh_supply_before = before, mh_supply_after = before + 10, mh_nonce_marker_after = MARKER_SET,
     mh_note_serial = (1, 1, 1, 1), mh_expected_serial = (1, 1, 1, 1), mh_note_is_p2id = True, mh_note_tag = 4,
     mh_expected_tag = 4, mh_note_asset_amount = 10, mh_note_asset_is_faucet = True,
     mh_recipient_balance_before = 0, mh_recipient_balance_after = 10, mh_note_commit_block = 3,
     mh_recipient_consume_block = 5\<rparr>"

definition sample_refusal :: "string \<Rightarrow> string \<Rightarrow> bool \<Rightarrow> mint_negative" where
  "sample_refusal label gate used = \<lparr>mn_label = label, mn_expected_error = gate, mn_verdict = Rejected gate,
     mn_supply_before = 20, mn_supply_after = 20,
     mn_nonce_marker_after = (if used then MARKER_SET else MARKER_CLEAR), mn_expects_nonce_set = used\<rparr>"

definition sample_de :: rows_de where
  "sample_de = \<lparr>de_main_commit = [], de_faucet_id = [], de_recipient_id = [],
     de_d = [sample_minted 0 0, sample_minted 4 10],
     de_e = [sample_refusal ''replayed-nonce'' ERR_XRESERVE_NONCE_REPLAY True,
       sample_refusal ''forged-signature'' ERR_XRESERVE_SIG_INVALID False,
       sample_refusal ''non-allowlisted-attester'' ERR_XRESERVE_DISALLOWED_PUB_KEY False,
       sample_refusal ''nonzero-fee'' ERR_XRESERVE_FEE_NONZERO False,
       sample_refusal ''tampered-payload'' ERR_XRESERVE_SIG_INVALID False]\<rparr>"

definition sample_burn_refusal :: "string \<Rightarrow> string \<Rightarrow> burn_negative" where
  "sample_burn_refusal label gate = \<lparr>bn_label = label, bn_expected_error = gate, bn_verdict = Rejected gate,
     bn_supply_before = 30, bn_supply_after = 30\<rparr>"

definition sample_gj :: rows_gj where
  "sample_gj = \<lparr>gj_main_commit = [], gj_faucet_id = [], gj_holder_id = [],
     gj_g = \<lparr>g_label = ''burn'', g_amount_units = 20, g_supply_before = 50, g_supply_after = 30,
       g_holder_balance_before = 50, g_holder_balance_after = 30, g_note_id = [], g_note_tag = 1112887886,
       g_note_commit_block = 6, g_consume_block = 7, g_committed_before_consume = True,
       g_discovered_by_syncnotes = True, g_found_after_consume = True, g_nullifier_recorded_after_consume = True,
       g_note_asset_amount = 20, g_note_asset_is_faucet = True, g_note_bytes_hex = ''aa'',
       g_inclusion_proof_bytes_hex = ''bb'', g_inclusion_block = 6\<rparr>,
     gj_h = \<lparr>h_label = ''riv'', h_amount_units = 5, h_mechanism = ''same block'', h_note_tag = 1112887886,
       h_note_id = [], h_consume_accepted = True, h_executed_supply_delta = Some 5,
       h_submit_via_user_rpc_rejected = True, h_submit_rejection_error = ''refused'', h_onchain_supply_before = 30,
       h_onchain_supply_after = 30, h_committed_note_found = False, h_nullifier_recorded = False,
       h_discovered_by_syncnotes = False, h_raw_getnotesbyid_response = ''none''\<rparr>,
     gj_i = [sample_burn_refusal ''below-min'' ERR_BURN_BELOW_MIN, sample_burn_refusal ''while-paused'' ERR_PAUSED,
       sample_burn_refusal ''wrong-asset'' ERR_WRONG_ASSET_ORIGIN],
     gj_j = \<lparr>cl_total_minted = 50, cl_total_burned = 20, cl_final_supply = 30,
       cl_steps = [\<lparr>ss_label = ''after-mint'', ss_supply = 50\<rparr>, \<lparr>ss_label = ''after-burn'', ss_supply = 30\<rparr>],
       cl_holder_final_balance = 30\<rparr>\<rparr>"

definition sample_logs :: "string list \<Rightarrow> log_file list" where
  "sample_logs services = map (\<lambda>svc. \<lparr>lf_name = svc @ ''.log'',
     lf_text = Some ''INFO executing network transaction'', lf_len = Some 34\<rparr>) services"

definition sample_matrix :: "row_l \<Rightarrow> full_matrix" where
  "sample_matrix l = \<lparr>fm_ab = sample_ab, fm_cf = sample_cf, fm_de = sample_de, fm_gj = sample_gj,
     fm_k = derive_row_k (pathn_commits_from sample_cf sample_de sample_gj)
       (ntx_execution_evidence ''INFO executing network transaction''),
     fm_l = l\<rparr>"

definition sample_l :: "string list \<Rightarrow> row_l" where
  "sample_l services = row_l_default\<lparr>l_scanned := map (\<lambda>svc. \<lparr>sl_service = svc, sl_path = svc @ ''.log'',
     sl_bytes = 34, sl_lines = 1, sl_error_lines = 0, sl_warn_lines = 0\<rparr>) services\<rparr>"

lemma sample_scans:
  "scan_logs (Some (sample_logs REQUIRED_SERVICE_LOGS)) EXPECTED_LOG_LINES = Inr (sample_l REQUIRED_SERVICE_LOGS)"
  "scan_logs (Some (sample_logs V16_SERVICES)) EXPECTED_LOG_LINES =
     Inr (sample_l [''ntx-builder'', ''prover'', ''sequencer'', ''validator''])"
  by code_simp+

lemma sample_matrix_run:
  assumes "scan_logs (Some (sample_logs services)) EXPECTED_LOG_LINES = Inr l"
    and "''ntx-builder'' \<in> set services"
  shows "run_full_matrix False (Inr ()) (Inr sample_ab) (Inr sample_cf) (Inr sample_de) (Inr sample_gj) (Inr ())
    (Some (sample_logs services)) = Inr (sample_matrix l)"
proof -
  have "read_file (Some (sample_logs services)) ''ntx-builder.log'' = Some ''INFO executing network transaction''"
    using assms(2) by (induction services) (auto simp: read_file_def sample_logs_def)
  then show ?thesis using assms(1) by (simp add: run_full_matrix_def sample_matrix_def Let_def)
qed

lemma sample_green: "\<not> any_failed (full_matrix_outcomes sample_hx (sample_matrix (sample_l REQUIRED_SERVICE_LOGS)))"
  by code_simp



theorem matrix_fails_on_stack_logs_witness:
  "any_failed (full_matrix_outcomes sample_hx
     (sample_matrix (sample_l [''ntx-builder'', ''prover'', ''sequencer'', ''validator''])))"
proof -
  have "''ntx-builder'' \<in> set V16_SERVICES" by (simp add: V16_SERVICES_def)
  note run = sample_matrix_run [OF sample_scans(2) this]
  have "lf_name ` set (sample_logs V16_SERVICES) \<subseteq> (\<lambda>svc. svc @ ''.log'') ` set V16_SERVICES"
    by (auto simp: sample_logs_def)
  from matrix_fails_on_stack_logs [OF run this] show ?thesis .
qed

end
