(* ===== verification/Harness_Sanity.thy ===== *)
theory Harness_Sanity
  imports Harness_Logs
begin

text \<open>
  The pre-deploy sanity gate of the validation harness (\<^verbatim>\<open>crates/xusdc-validation/src/sanity\<close>): the reading
  of the RPC address (\<^verbatim>\<open>net.rs\<close>, \<^verbatim>\<open>mod.rs\<close>), the driver (\<^verbatim>\<open>driver.rs\<close>), the check families (\<^verbatim>\<open>checks.rs\<close>,
  \<^verbatim>\<open>admin.rs\<close>), the restore phase (\<^verbatim>\<open>admin_restore.rs\<close>) and the orchestrator. A note is what it is built
  from; the node's answers are fields of an environment, numbered by the ticks of the run. The trace
  records what was emitted, probed, deployed and observed of the owner; no definition reads it. A
  ledger entry keeps the identifier, the area and the verdict of a check, not its texts.
\<close>

section \<open>Addresses\<close>

text \<open>\<^verbatim>\<open>split_once\<close> with a text, and the part after its last occurrence (\<^verbatim>\<open>rsplit(..).next()\<close>).\<close>

fun split_once :: "string \<Rightarrow> string \<Rightarrow> (string \<times> string) option" where
  "split_once sep [] = (if sep = [] then Some ([], []) else None)"
| "split_once sep (c # cs) =
     (if take (length sep) (c # cs) = sep then Some ([], drop (length sep) (c # cs))
      else map_option (\<lambda>(a, b). (c # a, b)) (split_once sep cs))"

fun after_last :: "string \<Rightarrow> string \<Rightarrow> string option" where
  "after_last sep [] = (if sep = [] then Some [] else None)"
| "after_last sep (c # cs) = (case after_last sep cs of
       Some r \<Rightarrow> Some r
     | None \<Rightarrow> if take (length sep) (c # cs) = sep then Some (drop (length sep) (c # cs)) else None)"

definition is_loopback :: "string \<Rightarrow> bool" where
  "is_loopback rpc_url =
     (let after_scheme = (case after_last ''://'' rpc_url of Some r \<Rightarrow> r | None \<Rightarrow> rpc_url);
          authority = takeWhile (\<lambda>c. c \<noteq> CHR ''/'') after_scheme;
          host = (case authority of
              c # rest \<Rightarrow> if c = CHR ''['' then takeWhile (\<lambda>d. d \<noteq> CHR '']'') rest
                else (case rsplit_once CHR '':'' authority of Some (h, _) \<Rightarrow> h | None \<Rightarrow> authority)
            | [] \<Rightarrow> authority) in
      map to_ascii_lowercase host \<in> {''127.0.0.1'', ''localhost'', ''::1''})"

definition trim_end_slash :: "string \<Rightarrow> string" where
  "trim_end_slash s = rev (dropWhile (\<lambda>c. c = CHR ''/'') (rev s))"

definition parse_url_parts :: "string \<Rightarrow> string + string \<times> string \<times> nat option" where
  "parse_url_parts rpc_url =
     (let (scheme, rest0) = (case split_once ''://'' rpc_url of Some p \<Rightarrow> p | None \<Rightarrow> (''http'', rpc_url));
          rest = trim_end_slash rest0 in
      and_then (case rsplit_once CHR '':'' rest of
          Some (h, p) \<Rightarrow> and_then (ok_or (parse_unsigned (2 ^ 16) p) ''parsing the RPC port'') (\<lambda>port.
            Inr (h, Some port))
        | None \<Rightarrow> Inr (rest, None)) (\<lambda>(host, port).
      if host = [] then Inl ''could not parse a host from RPC URL'' else Inr (scheme, host, port)))"

record run_mode =
  rm_deployed_fresh :: bool
  rm_local_node :: bool
  rm_run_admin :: bool

definition decide_run_mode :: "account_id option \<Rightarrow> string \<Rightarrow> string + run_mode" where
  "decide_run_mode faucet_id rpc_url =
     (let deployed_fresh = (faucet_id = None); local_node = is_loopback rpc_url in
      if deployed_fresh \<and> \<not> local_node then Inl ''REFUSED''
      else Inr \<lparr>rm_deployed_fresh = deployed_fresh, rm_local_node = local_node, rm_run_admin = deployed_fresh\<rparr>)"

section \<open>Ledger, notes and the node\<close>

record check =
  ck_id :: string
  ck_area :: string
  ck_pass :: bool

record mint_config =
  mc_domain :: u32
  mc_remote_token :: b256

record mint_args =
  ma_attester :: word4
  ma_recipient :: account_id
  ma_amount :: u64
  ma_salt :: u8
  ma_config :: "mint_config option"
  ma_forged :: bool

datatype note_body =
    IdentifierInit
  | SetAttester word4 bool
  | PauseNote
  | UnpauseNote
  | SetMinBurn u64
  | SetMaxSupply u64
  | TransferOwnership account_id
  | AcceptOwnership
  | MintNote mint_args
  | BurnNote u64

record hnote =
  hn_sender :: account_id
  hn_body :: note_body

definition note_by :: "account_id \<Rightarrow> note_body \<Rightarrow> hnote" where
  "note_by sender body = \<lparr>hn_sender = sender, hn_body = body\<rparr>"

datatype sevent =
    Emitted hnote
  | Probed hnote
  | DeployedFaucet account_id
  | SawOwner account_id "account_id option"

record sanity =
  sn_tick :: nat
  sn_checks :: "check list"
  sn_trace :: "sevent list"

record actors =
  as_owner :: account_id
  as_pauser :: account_id
  as_manager :: account_id
  as_recipient :: account_id
  as_holder :: account_id
  as_new_pauser :: account_id
  as_attester :: word4
  as_attester_b :: word4

text \<open>
  \<open>se_emit\<close> is submitting a wallet's transaction and waiting for its commit, \<open>se_polls\<close> the number of
  polls before the deadline of a wait has passed; \<open>se_readiness\<close> are the four results of the readiness
  checks on the burn note. \<open>se_client\<close> answers for the client library and the disk: creating directories, assembling the client
  and its first sync, registering an account, submitting the deployment, writing the record.
\<close>

record sanity_env =
  se_fetch :: "nat \<Rightarrow> string + account"
  se_build :: "nat \<Rightarrow> hnote \<Rightarrow> string + unit"
  se_emit :: "nat \<Rightarrow> hnote \<Rightarrow> string + u32"
  se_probe :: "nat \<Rightarrow> hnote \<Rightarrow> string + verdict"
  se_spent :: "nat \<Rightarrow> hnote \<Rightarrow> string + u32 option"
  se_polls :: "nat \<Rightarrow> nat"
  se_target_note :: "nat \<Rightarrow> account_id \<Rightarrow> u64 \<Rightarrow> string + unit"
  se_target_consume :: "nat \<Rightarrow> account_id \<Rightarrow> string + u32"
  se_balance :: "nat \<Rightarrow> account_id \<Rightarrow> string + u64"
  se_readiness :: "nat \<Rightarrow> bool \<times> bool \<times> bool \<times> bool"
  se_nonce_key :: "mint_args \<Rightarrow> word4"
  se_account_of :: "u64 \<Rightarrow> u64 \<Rightarrow> string + account_id"
  se_token_bytes :: "account_id \<Rightarrow> b256"
  se_map_key :: "b256 \<Rightarrow> word4"
  se_client :: "nat \<Rightarrow> string + unit"
  se_secret :: "b256 \<Rightarrow> string + word4"
  se_actors :: "nat \<Rightarrow> string + actors"
  se_faucet :: "nat \<Rightarrow> string + account_id"
  se_logs :: "log_file list option"

type_synonym 'a sx = "(sanity, string, 'a) run"

definition ask :: "(nat \<Rightarrow> string + 'a) \<Rightarrow> 'a sx" where
  "ask f s = (f (sn_tick s), s\<lparr>sn_tick := Suc (sn_tick s)\<rparr>)"

definition remember :: "sevent \<Rightarrow> sanity \<Rightarrow> sanity" where
  "remember e s = s\<lparr>sn_trace := sn_trace s @ [e]\<rparr>"

definition record_check :: "string \<Rightarrow> string \<Rightarrow> bool \<Rightarrow> unit sx" where
  "record_check i area pass s =
     (Inr (), s\<lparr>sn_checks := sn_checks s @ [\<lparr>ck_id = i, ck_area = area, ck_pass = pass\<rparr>]\<rparr>)"

text \<open>A result of a pure step, and a sequence of steps whose first failure ends it.\<close>

definition pure_step :: "string + 'a \<Rightarrow> 'a sx" where
  "pure_step r s = (r, s)"

definition in_order :: "unit sx list \<Rightarrow> unit sx" where
  "in_order steps = foldr (\<lambda>step rest. bind_run step (\<lambda>_. rest)) steps (ret ())"

section \<open>Reading the faucet\<close>

definition is_zero_word :: "word4 \<Rightarrow> bool" where "is_zero_word w \<longleftrightarrow> w = (0, 0, 0, 0)"

definition value_slot :: "account \<Rightarrow> slot \<Rightarrow> string + word4" where
  "value_slot a s = ok_or (ac_item a s) ''reading value slot''"

definition token_supply :: "account \<Rightarrow> string + u64" where
  "token_supply a = and_then (value_slot a TokenConfigSlot) (\<lambda>(w0, w1, w2, w3). Inr w0)"

definition max_supply :: "account \<Rightarrow> string + u64" where
  "max_supply a = and_then (value_slot a TokenConfigSlot) (\<lambda>(w0, w1, w2, w3). Inr w1)"

definition min_burn :: "account \<Rightarrow> string + u64" where
  "min_burn a = and_then (ok_or (ac_item a MinBurnSlot) ''reading the stock MinBurnAmount floor slot'') (\<lambda>(w0, w1, w2, w3). Inr w0)"

definition domain_config :: "account \<Rightarrow> string + u32" where
  "domain_config a = and_then (value_slot a DomainSlot) (\<lambda>(w0, w1, w2, w3).
     if uint w0 < 2 ^ 32 then Inr (ucast w0) else Inl ''faucet domain-config slot does not fit a u32 domain id'')"

definition identifier_config :: "account \<Rightarrow> string + word4" where
  "identifier_config a = value_slot a IdentifierSlot"

definition is_paused :: "account \<Rightarrow> string + bool" where
  "is_paused a = and_then (value_slot a PausedSlot) (\<lambda>(w0, w1, w2, w3). Inr (w0 \<noteq> 0))"

definition used_nonce_marker :: "account \<Rightarrow> word4 \<Rightarrow> string + word4" where
  "used_nonce_marker a key = ok_or (ac_used_nonce a key) ''reading usedNonces''"

definition attester_marker :: "account \<Rightarrow> word4 \<Rightarrow> string + word4" where
  "attester_marker a commitment = ok_or (ac_attester a commitment) ''reading xReserveAttesters''"

definition owner_config :: "sanity_env \<Rightarrow> account \<Rightarrow> string + account_id \<times> account_id option" where
  "owner_config env a =
     and_then (value_slot a OwnerSlot) (\<lambda>(w0, w1, w2, w3).
     and_then (se_account_of env w0 w1) (\<lambda>owner.
     if w2 = 0 \<and> w3 = 0 then Inr (owner, None)
     else and_then (se_account_of env w2 w3) (\<lambda>nominated. Inr (owner, Some nominated))))"

text \<open>\<^verbatim>\<open>map(p).unwrap_or(d)\<close> on a reading\<close>

definition read_or :: "'b \<Rightarrow> string + 'a \<Rightarrow> ('a \<Rightarrow> 'b) \<Rightarrow> 'b" where
  "read_or d r p = (case r of Inr v \<Rightarrow> p v | Inl _ \<Rightarrow> d)"

section \<open>The driver\<close>

definition fetch_faucet :: "sanity_env \<Rightarrow> account sx" where
  "fetch_faucet env = ask (se_fetch env)"

definition emit :: "sanity_env \<Rightarrow> hnote \<Rightarrow> u32 sx" where
  "emit env n s = ask (\<lambda>t. se_emit env t n) (remember (Emitted n) s)"

definition build_sanity_note :: "sanity_env \<Rightarrow> hnote \<Rightarrow> unit sx" where
  "build_sanity_note env n = ask (\<lambda>t. se_build env t n)"

fun poll_account :: "sanity_env \<Rightarrow> (account \<Rightarrow> bool) \<Rightarrow> nat \<Rightarrow> account sx" where
  "poll_account env ready left s =
     (case fetch_faucet env s of
        (Inl e, t) \<Rightarrow> (Inl e, t)
      | (Inr a, t) \<Rightarrow> if ready a then (Inr a, t)
          else (case left of 0 \<Rightarrow> (Inl ''path-N commit timed out'', t) | Suc n \<Rightarrow> poll_account env ready n t))"

definition commit_via_ntx :: "sanity_env \<Rightarrow> hnote \<Rightarrow> (account \<Rightarrow> bool) \<Rightarrow> account sx" where
  "commit_via_ntx env n ready =
     bind_run (emit env n) (\<lambda>_ s. poll_account env ready (se_polls env (sn_tick s)) s)"

fun poll_spent :: "sanity_env \<Rightarrow> hnote \<Rightarrow> nat \<Rightarrow> u32 sx" where
  "poll_spent env n left s =
     (case ask (\<lambda>t. se_spent env t n) s of
        (Inl e, t) \<Rightarrow> (Inl e, t)
      | (Inr (Some block), t) \<Rightarrow> (Inr block, t)
      | (Inr None, t) \<Rightarrow> (case left of 0 \<Rightarrow> (Inl ''path-N consumption timed out'', t) | Suc k \<Rightarrow> poll_spent env n k t))"

definition commit_via_ntx_consumed :: "sanity_env \<Rightarrow> hnote \<Rightarrow> u32 sx" where
  "commit_via_ntx_consumed env n =
     bind_run (emit env n) (\<lambda>_ s. poll_spent env n (se_polls env (sn_tick s)) s)"

definition probe_consume :: "sanity_env \<Rightarrow> hnote \<Rightarrow> verdict sx" where
  "probe_consume env n s = ask (\<lambda>t. se_probe env t n) (remember (Probed n) s)"

text \<open>Building a note and then committing it, as every positive step does.\<close>

definition build_commit :: "sanity_env \<Rightarrow> hnote \<Rightarrow> (account \<Rightarrow> bool) \<Rightarrow> account sx" where
  "build_commit env n ready = bind_run (build_sanity_note env n) (\<lambda>_. commit_via_ntx env n ready)"

definition build_commit_consumed :: "sanity_env \<Rightarrow> hnote \<Rightarrow> u32 sx" where
  "build_commit_consumed env n = bind_run (build_sanity_note env n) (\<lambda>_. commit_via_ntx_consumed env n)"

section \<open>The check families\<close>

definition MINT_ROUND_UNITS :: u64 where "MINT_ROUND_UNITS = 100000000"
definition MINT_NONROUND_UNITS :: u64 where "MINT_NONROUND_UNITS = 123456789"
definition BURN_UNITS :: u64 where "BURN_UNITS = 50000000"
definition RAISED_MAX_SUPPLY :: u64 where "RAISED_MAX_SUPPLY = 3000000000000"
definition RAISED_MIN_BURN :: u64 where "RAISED_MIN_BURN = BURN_UNITS + 1"
definition LOWERED_MIN_BURN :: u64 where "LOWERED_MIN_BURN = 1"

definition ERR_MAX_SUPPLY_BELOW_SUPPLY :: string where
  "ERR_MAX_SUPPLY_BELOW_SUPPLY = ''new max supply is less than current token supply''"

text \<open>\<open>d_config\<close> of the driver is the mint configuration; sums of type \<^verbatim>\<open>u64\<close> wrap as in the release profile.\<close>

definition mint_note_for ::
    "account_id \<Rightarrow> word4 \<Rightarrow> account_id \<Rightarrow> u64 \<Rightarrow> u8 \<Rightarrow> mint_config option \<Rightarrow> hnote" where
  "mint_note_for sender attester recipient amount salt config = note_by sender
     (MintNote \<lparr>ma_attester = attester, ma_recipient = recipient, ma_amount = amount, ma_salt = salt,
       ma_config = config, ma_forged = False\<rparr>)"

definition mint_note_forged_sig ::
    "account_id \<Rightarrow> word4 \<Rightarrow> account_id \<Rightarrow> u64 \<Rightarrow> u8 \<Rightarrow> mint_config option \<Rightarrow> hnote" where
  "mint_note_forged_sig sender attester recipient amount salt config = note_by sender
     (MintNote \<lparr>ma_attester = attester, ma_recipient = recipient, ma_amount = amount, ma_salt = salt,
       ma_config = config, ma_forged = True\<rparr>)"

fun payload_key :: "sanity_env \<Rightarrow> note_body \<Rightarrow> word4" where
  "payload_key env (MintNote args) = se_nonce_key env args"
| "payload_key env _ = (0, 0, 0, 0)"

definition record_rejection :: "harness_ext \<Rightarrow> string \<Rightarrow> string \<Rightarrow> verdict \<Rightarrow> string \<Rightarrow> unit sx" where
  "record_rejection x i area v expected = (case v of
       Accepted \<Rightarrow> record_check i area False
     | Rejected msg \<Rightarrow> record_check i area (carries_gate x expected msg))"

text \<open>Building a note that must be refused, probing it and recording the verdict.\<close>

definition probe_rejection ::
    "sanity_env \<Rightarrow> harness_ext \<Rightarrow> hnote \<Rightarrow> string \<Rightarrow> string \<Rightarrow> string \<Rightarrow> unit sx" where
  "probe_rejection env x n i area expected =
     bind_run (build_sanity_note env n) (\<lambda>_.
     bind_run (probe_consume env n) (\<lambda>v. record_rejection x i area v expected))"

definition supply_now :: "sanity_env \<Rightarrow> u64 sx" where
  "supply_now env = bind_run (fetch_faucet env) (\<lambda>a. pure_step (token_supply a))"

definition is_ok :: "string + 'a \<Rightarrow> bool" where
  "is_ok r = (case r of Inr _ \<Rightarrow> True | Inl _ \<Rightarrow> False)"

definition mint_and_assert ::
    "sanity_env \<Rightarrow> mint_config option \<Rightarrow> account_id \<Rightarrow> word4 \<Rightarrow> account_id \<Rightarrow> u64 \<Rightarrow> u8 \<Rightarrow> string \<Rightarrow> unit sx" where
  "mint_and_assert env config relayer attester recipient amount salt i =
     bind_run (supply_now env) (\<lambda>supply_before.
     let n = mint_note_for relayer attester recipient amount salt config;
         key = payload_key env (hn_body n) in
     bind_run (build_commit env n
       (\<lambda>a. read_or False (token_supply a) (\<lambda>s. s \<ge> supply_before + amount))) (\<lambda>committed.
     bind_run (pure_step (token_supply committed)) (\<lambda>supply_after.
     bind_run (record_check i ''mint'' (supply_after = supply_before + amount)) (\<lambda>_.
     bind_run (pure_step (used_nonce_marker committed key)) (\<lambda>marker.
     bind_run (record_check (i @ ''-NONCE'') ''mint'' (\<not> is_zero_word marker)) (\<lambda>_.
     (\<lambda>s. case ask (\<lambda>t. se_target_note env t recipient amount) s of
        (r, t) \<Rightarrow> record_check (i @ ''-DEST'') ''mint'' (is_ok r) t)))))))"

definition saturating_sub :: "u64 \<Rightarrow> u64 \<Rightarrow> u64" where
  "saturating_sub a b = (if b \<le> a then a - b else 0)"

definition saturating_add :: "u64 \<Rightarrow> u64 \<Rightarrow> u64" where
  "saturating_add a b = (if uint a + uint b < 2 ^ 64 then a + b else - 1)"

definition negatives_suite ::
    "sanity_env \<Rightarrow> harness_ext \<Rightarrow> mint_config option \<Rightarrow> account_id \<Rightarrow> word4 \<Rightarrow> word4 \<Rightarrow> account_id \<Rightarrow> unit sx" where
  "negatives_suite env x config relayer mint_attester wrong_attester recipient =
     bind_run (supply_now env) (\<lambda>supply_before.
     in_order
      [probe_rejection env x (mint_note_for relayer wrong_attester recipient MINT_ROUND_UNITS 0x44 config)
         ''NEG-WRONG-ATTESTER'' ''attestation'' ERR_XRESERVE_DISALLOWED_PUB_KEY,
       probe_rejection env x (mint_note_forged_sig relayer mint_attester recipient MINT_ROUND_UNITS 0x55 config)
         ''NEG-FORGED-SIG'' ''attestation'' ERR_XRESERVE_SIG_INVALID,
       probe_rejection env x (mint_note_for relayer mint_attester recipient MINT_ROUND_UNITS 0x11 config)
         ''NEG-REPLAY'' ''fund-safety'' ERR_XRESERVE_NONCE_REPLAY,
       bind_run (fetch_faucet env) (\<lambda>faucet_now.
       bind_run (pure_step (max_supply faucet_now)) (\<lambda>cap_now.
       bind_run (pure_step (token_supply faucet_now)) (\<lambda>supply.
       probe_rejection env x
         (mint_note_for relayer mint_attester recipient (saturating_add (saturating_sub cap_now supply) 1) 0x66 config)
         ''NEG-OVER-CAP'' ''fund-safety'' ERR_SUPPLY_CAP))),
       bind_run (supply_now env) (\<lambda>supply_after.
       record_check ''NEG-NO-SUPPLY-MOVE'' ''fund-safety'' (supply_after = supply_before))])"

definition fund_and_burn ::
    "sanity_env \<Rightarrow> mint_config option \<Rightarrow> word4 \<Rightarrow> account_id \<Rightarrow> account_id \<Rightarrow> u64 \<Rightarrow> u8 \<Rightarrow> string \<Rightarrow> hnote sx" where
  "fund_and_burn env config mint_attester relayer holder amount mint_salt id_prefix =
     (let mint = mint_note_for relayer mint_attester holder amount mint_salt config; burn = note_by holder (BurnNote amount) in
      bind_run (build_sanity_note env mint) (\<lambda>_.
      bind_run (supply_now env) (\<lambda>supply_before_fund.
      bind_run (commit_via_ntx env mint
        (\<lambda>a. read_or False (token_supply a) (\<lambda>s. s \<ge> supply_before_fund + amount))) (\<lambda>_.
      bind_run (ask (\<lambda>t. se_target_note env t holder amount)) (\<lambda>_.
      bind_run (ask (\<lambda>t. se_target_consume env t holder)) (\<lambda>_.
      bind_run (ask (\<lambda>t. se_balance env t holder)) (\<lambda>holder_bal.
      bind_run (record_check (id_prefix @ ''-FUND'') ''burn'' (holder_bal \<ge> amount)) (\<lambda>_.
      bind_run (build_sanity_note env burn) (\<lambda>_.
      bind_run (supply_now env) (\<lambda>supply_before_burn.
      let target_supply = saturating_sub supply_before_burn amount in
      bind_run (commit_via_ntx env burn
        (\<lambda>a. read_or False (token_supply a) (\<lambda>s. s = target_supply))) (\<lambda>committed.
      bind_run (pure_step (token_supply committed)) (\<lambda>supply_after.
      bind_run (record_check (id_prefix @ ''-AMOUNT'') ''burn'' (supply_after = target_supply)) (\<lambda>_.
      ret burn)))))))))))))"

definition burn_and_assert ::
    "sanity_env \<Rightarrow> mint_config option \<Rightarrow> word4 \<Rightarrow> account_id \<Rightarrow> account_id \<Rightarrow> unit sx" where
  "burn_and_assert env config mint_attester relayer holder =
     bind_run (fund_and_burn env config mint_attester relayer holder BURN_UNITS 0x33 ''BURN'') (\<lambda>_.
     bind_run (ask (\<lambda>t. Inr (se_readiness env t))) (\<lambda>(struct, consumable, discovered, evidenced).
     in_order
      [record_check ''BURN-STRUCT'' ''burn'' struct,
       record_check ''BURN-ATTESTER'' ''burn'' consumable,
       record_check ''BURN-DISCOVER'' ''burn'' discovered,
       record_check ''BURN-EVIDENCE'' ''burn'' evidenced]))"

section \<open>The administrative checks\<close>

definition set_attester_enabled :: "sanity_env \<Rightarrow> account_id \<Rightarrow> word4 \<Rightarrow> bool \<Rightarrow> unit sx" where
  "set_attester_enabled env owner commitment enabled =
     bind_run (build_commit env (note_by owner (SetAttester commitment enabled))
       (\<lambda>a. read_or False (attester_marker a commitment) (\<lambda>m. is_zero_word m \<noteq> enabled))) (\<lambda>_. ret ())"

definition commit_then :: "sanity_env \<Rightarrow> hnote \<Rightarrow> (account \<Rightarrow> bool) \<Rightarrow> string \<Rightarrow> unit sx" where
  "commit_then env n ready i =
     bind_run (build_commit env n ready) (\<lambda>_. record_check i ''admin'' True)"

definition admin_pause_checks ::
    "sanity_env \<Rightarrow> harness_ext \<Rightarrow> mint_config option \<Rightarrow> actors \<Rightarrow> word4 \<Rightarrow> account_id \<Rightarrow> account_id \<Rightarrow> unit sx" where
  "admin_pause_checks env x config actors mint_attester relayer recipient =
     (let pauser = as_pauser actors; holder = as_holder actors in
      in_order
       [commit_then env (note_by pauser PauseNote) (\<lambda>a. read_or False (is_paused a) (\<lambda>p. p)) ''ADMIN-PAUSE'',
        probe_rejection env x (mint_note_for relayer mint_attester recipient MINT_ROUND_UNITS 0x77 config)
          ''ADMIN-PAUSE-MINT'' ''admin'' ERR_PAUSED,
        probe_rejection env x (note_by holder (BurnNote BURN_UNITS)) ''ADMIN-PAUSE-BURN'' ''admin'' ERR_PAUSED,
        commit_then env (note_by pauser UnpauseNote) (\<lambda>a. read_or False (is_paused a) (\<lambda>p. \<not> p)) ''ADMIN-UNPAUSE'',
        mint_and_assert env config relayer mint_attester recipient MINT_ROUND_UNITS 0x88 ''ADMIN-UNPAUSE-MINT''])"

definition admin_attester_checks ::
    "sanity_env \<Rightarrow> harness_ext \<Rightarrow> mint_config option \<Rightarrow> actors \<Rightarrow> word4 \<Rightarrow> account_id \<Rightarrow> account_id \<Rightarrow> unit sx" where
  "admin_attester_checks env x config actors mint_attester relayer recipient =
     (let owner = as_owner actors in
      in_order
       [set_attester_enabled env owner mint_attester False,
        record_check ''ADMIN-ATTESTER-DISABLE'' ''admin'' True,
        probe_rejection env x (mint_note_for relayer mint_attester recipient MINT_ROUND_UNITS 0x99 config)
          ''ADMIN-ATTESTER-ROTATED-OUT'' ''admin'' ERR_XRESERVE_DISALLOWED_PUB_KEY,
        set_attester_enabled env owner mint_attester True,
        record_check ''ADMIN-ATTESTER-REENABLE'' ''admin'' True])"

definition admin_min_burn_checks ::
    "sanity_env \<Rightarrow> harness_ext \<Rightarrow> mint_config option \<Rightarrow> actors \<Rightarrow> word4 \<Rightarrow> account_id \<Rightarrow> account_id \<Rightarrow> unit sx" where
  "admin_min_burn_checks env x config actors mint_attester relayer recipient =
     (let owner = as_owner actors; holder = as_holder actors in
      in_order
       [commit_then env (note_by owner (SetMinBurn RAISED_MIN_BURN))
          (\<lambda>a. read_or False (min_burn a) (\<lambda>m. m = RAISED_MIN_BURN)) ''ADMIN-MINBURN-RAISE'',
        probe_rejection env x (note_by holder (BurnNote BURN_UNITS)) ''ADMIN-MINBURN-REJECT'' ''admin'' ERR_BURN_BELOW_MIN,
        commit_then env (note_by owner (SetMinBurn LOWERED_MIN_BURN))
          (\<lambda>a. read_or False (min_burn a) (\<lambda>m. m = LOWERED_MIN_BURN)) ''ADMIN-MINBURN-LOWER'',
        bind_run (fund_and_burn env config mint_attester relayer holder BURN_UNITS 0xA1 ''ADMIN-BURN-OK'') (\<lambda>_. ret ())])"

definition admin_max_supply_checks ::
    "sanity_env \<Rightarrow> harness_ext \<Rightarrow> mint_config option \<Rightarrow> actors \<Rightarrow> word4 \<Rightarrow> account_id \<Rightarrow> account_id \<Rightarrow> unit sx" where
  "admin_max_supply_checks env x config actors mint_attester relayer recipient =
     (let owner = as_owner actors in
      in_order
       [bind_run (build_commit env (note_by owner (SetMaxSupply RAISED_MAX_SUPPLY))
          (\<lambda>a. read_or False (max_supply a) (\<lambda>m. m = RAISED_MAX_SUPPLY))) (\<lambda>acct.
        bind_run (pure_step (max_supply acct)) (\<lambda>m.
        record_check ''ADMIN-MAXSUPPLY-RAISE'' ''admin'' (m = RAISED_MAX_SUPPLY))),
        bind_run (supply_now env) (\<lambda>supply.
        let tight_cap = supply + BURN_UNITS in
        bind_run (build_commit env (note_by owner (SetMaxSupply tight_cap))
          (\<lambda>a. read_or False (max_supply a) (\<lambda>m. m = tight_cap))) (\<lambda>_. ret ())),
        probe_rejection env x (mint_note_for relayer mint_attester recipient (BURN_UNITS * 2) 0xB2 config)
          ''ADMIN-MAXSUPPLY-ENFORCE'' ''admin'' ERR_SUPPLY_CAP,
        bind_run (supply_now env) (\<lambda>supply_guard.
        probe_rejection env x (note_by owner (SetMaxSupply (saturating_sub supply_guard 1)))
          ''ADMIN-MAXSUPPLY-BELOW-SUPPLY'' ''admin'' ERR_MAX_SUPPLY_BELOW_SUPPLY)])"

definition admin_owner_checks ::
    "sanity_env \<Rightarrow> harness_ext \<Rightarrow> mint_config option \<Rightarrow> actors \<Rightarrow> word4 \<Rightarrow> account_id \<Rightarrow> account_id \<Rightarrow> unit sx" where
  "admin_owner_checks env x config actors mint_attester relayer recipient =
     (let owner = as_owner actors; holder = as_holder actors; new_owner = as_new_pauser actors in
      in_order
       [probe_rejection env x (note_by holder (SetAttester (as_attester_b actors) True))
          ''ADMIN-OWNER-GATE'' ''admin'' ERR_NOT_OWNER,
        bind_run (build_commit_consumed env (note_by owner (TransferOwnership new_owner))) (\<lambda>_.
        record_check ''ADMIN-OWNER-TRANSFER'' ''admin'' True),
        bind_run (build_sanity_note env (note_by new_owner AcceptOwnership)) (\<lambda>_.
        (\<lambda>s. case commit_via_ntx_consumed env (note_by new_owner AcceptOwnership) s of
          (r, t) \<Rightarrow> record_check ''ADMIN-OWNER-ACCEPT'' ''admin'' (is_ok r) t))])"

definition admin_checks ::
    "sanity_env \<Rightarrow> harness_ext \<Rightarrow> mint_config option \<Rightarrow> actors \<Rightarrow> word4 \<Rightarrow> account_id \<Rightarrow> account_id \<Rightarrow> unit sx" where
  "admin_checks env x config actors mint_attester relayer recipient = in_order
    (map (\<lambda>part. part env x config actors mint_attester relayer recipient)
      [admin_pause_checks, admin_attester_checks, admin_min_burn_checks, admin_max_supply_checks, admin_owner_checks])"

section \<open>Restoring the faucet\<close>

datatype ownership_restore = RestoreNone | TransferBack | CancelNomination | RestoreUnexpectedOwner account_id

definition plan_ownership_restore ::
    "account_id \<Rightarrow> account_id option \<Rightarrow> account_id \<Rightarrow> account_id \<Rightarrow> ownership_restore" where
  "plan_ownership_restore cur_owner nominated orig_owner ephemeral =
     (if cur_owner = ephemeral then TransferBack
      else if cur_owner = orig_owner then
        (if nominated = Some ephemeral then CancelNomination else RestoreNone)
      else RestoreUnexpectedOwner cur_owner)"

definition MAX_OWNERSHIP_RECONCILE_ATTEMPTS :: nat where "MAX_OWNERSHIP_RECONCILE_ATTEMPTS = 4"

datatype ownership_outcome = Restored | UnexpectedOwner account_id | Unresolved ownership_restore | ObserveFailed string

text \<open>
  The loop over the three operations of the trait \<^verbatim>\<open>OwnershipOps\<close>; \<open>left\<close> is what remains of the budget of
  actions, so that the last observation only verifies. The result of an action is not looked at.
\<close>

fun reconcile_loop ::
    "('s, string, account_id \<times> account_id option) run \<Rightarrow> ('s, string, unit) run \<Rightarrow> ('s, string, unit) run
     \<Rightarrow> account_id \<Rightarrow> account_id \<Rightarrow> nat \<Rightarrow> 's \<Rightarrow> ownership_outcome \<times> 's" where
  "reconcile_loop observe transfer_back cancel_nomination orig_owner ephemeral left s =
     (case observe s of
        (Inl e, t) \<Rightarrow> (ObserveFailed e, t)
      | (Inr (cur_owner, nominated), t) \<Rightarrow>
         (case plan_ownership_restore cur_owner nominated orig_owner ephemeral of
            RestoreNone \<Rightarrow> (Restored, t)
          | RestoreUnexpectedOwner other \<Rightarrow> (UnexpectedOwner other, t)
          | TransferBack \<Rightarrow> (case left of
                0 \<Rightarrow> (Unresolved TransferBack, t)
              | Suc n \<Rightarrow> reconcile_loop observe transfer_back cancel_nomination orig_owner ephemeral n
                  (snd (transfer_back t)))
          | CancelNomination \<Rightarrow> (case left of
                0 \<Rightarrow> (Unresolved CancelNomination, t)
              | Suc n \<Rightarrow> reconcile_loop observe transfer_back cancel_nomination orig_owner ephemeral n
                  (snd (cancel_nomination t)))))"

declare reconcile_loop.simps [simp del]

definition reconcile_ownership ::
    "('s, string, account_id \<times> account_id option) run \<Rightarrow> ('s, string, unit) run \<Rightarrow> ('s, string, unit) run
     \<Rightarrow> account_id \<Rightarrow> account_id \<Rightarrow> 's \<Rightarrow> ownership_outcome \<times> 's" where
  "reconcile_ownership observe transfer_back cancel_nomination orig_owner ephemeral =
     reconcile_loop observe transfer_back cancel_nomination orig_owner ephemeral MAX_OWNERSHIP_RECONCILE_ATTEMPTS"

text \<open>The operations of \<^verbatim>\<open>DriverOwnershipOps\<close>.\<close>

definition observe_owner :: "sanity_env \<Rightarrow> (account_id \<times> account_id option) sx" where
  "observe_owner env s = (case fetch_faucet env s of
       (Inl e, t) \<Rightarrow> (Inl e, t)
     | (Inr a, t) \<Rightarrow> (case owner_config env a of
           Inl e \<Rightarrow> (Inl e, t)
         | Inr (owner, nominated) \<Rightarrow> (Inr (owner, nominated), remember (SawOwner owner nominated) t)))"

definition restore_ownership :: "sanity_env \<Rightarrow> account_id \<Rightarrow> account_id \<Rightarrow> unit sx" where
  "restore_ownership env from_id to_id =
     bind_run (build_commit_consumed env (note_by from_id (TransferOwnership to_id))) (\<lambda>_.
     bind_run (build_commit_consumed env (note_by to_id AcceptOwnership)) (\<lambda>_. ret ()))"

definition cancel_nomination :: "sanity_env \<Rightarrow> account_id \<Rightarrow> unit sx" where
  "cancel_nomination env owner =
     bind_run (build_commit_consumed env (note_by owner (TransferOwnership owner))) (\<lambda>_. ret ())"

definition reconcile_driver :: "sanity_env \<Rightarrow> account_id \<Rightarrow> account_id \<Rightarrow> sanity \<Rightarrow> ownership_outcome \<times> sanity" where
  "reconcile_driver env orig_owner ephemeral =
     reconcile_ownership (observe_owner env) (restore_ownership env ephemeral orig_owner)
       (cancel_nomination env orig_owner) orig_owner ephemeral"

definition restore_ownership_to_original :: "sanity_env \<Rightarrow> account_id \<Rightarrow> account_id \<Rightarrow> unit sx" where
  "restore_ownership_to_original env orig_owner ephemeral s =
     (case reconcile_driver env orig_owner ephemeral s of
        (outcome, t) \<Rightarrow> record_check ''ADMIN-OWNER-RESTORE'' ''admin'' (outcome = Restored) t)"

text \<open>One policy setting: attempted only when \<open>needed\<close>; the flag becomes false when the attempt fails.\<close>

definition restore_step :: "bool \<Rightarrow> unit sx \<Rightarrow> bool \<Rightarrow> bool sx" where
  "restore_step needed action ok s =
     (if needed then (case action s of (r, t) \<Rightarrow> (Inr (ok \<and> is_ok r), t)) else (Inr ok, s))"

definition restore_unpause :: "sanity_env \<Rightarrow> account_id \<Rightarrow> unit sx" where
  "restore_unpause env pauser =
     bind_run (build_commit env (note_by pauser UnpauseNote) (\<lambda>a. read_or False (is_paused a) (\<lambda>p. \<not> p))) (\<lambda>_. ret ())"

definition restore_min_burn :: "sanity_env \<Rightarrow> account_id \<Rightarrow> u64 \<Rightarrow> unit sx" where
  "restore_min_burn env owner target =
     bind_run (build_commit env (note_by owner (SetMinBurn target)) (\<lambda>a. read_or False (min_burn a) (\<lambda>m. m = target))) (\<lambda>_. ret ())"

definition restore_max_supply :: "sanity_env \<Rightarrow> account_id \<Rightarrow> u64 \<Rightarrow> unit sx" where
  "restore_max_supply env owner target =
     bind_run (build_commit env (note_by owner (SetMaxSupply target)) (\<lambda>a. read_or False (max_supply a) (\<lambda>m. m = target))) (\<lambda>_. ret ())"

definition restore_policy :: "sanity_env \<Rightarrow> actors \<Rightarrow> word4 \<Rightarrow> u64 \<Rightarrow> u64 \<Rightarrow> account \<Rightarrow> unit sx" where
  "restore_policy env actors commitment orig_min_burn orig_max_supply acct =
     (let owner = as_owner actors;
          restored_max = max orig_max_supply (read_or 0 (token_supply acct) (\<lambda>s. s)) in
      bind_run (restore_step (read_or False (is_paused acct) (\<lambda>p. p)) (restore_unpause env (as_pauser actors)) True) (\<lambda>ok.
      bind_run (restore_step (read_or False (attester_marker acct commitment) is_zero_word)
        (set_attester_enabled env owner commitment True) ok) (\<lambda>ok.
      bind_run (restore_step (read_or True (min_burn acct) (\<lambda>m. m \<noteq> orig_min_burn))
        (restore_min_burn env owner orig_min_burn) ok) (\<lambda>ok.
      bind_run (restore_step (read_or True (max_supply acct) (\<lambda>m. m \<noteq> restored_max))
        (restore_max_supply env owner restored_max) ok) (\<lambda>ok.
      record_check ''ADMIN-POLICY-RESTORE'' ''admin'' ok)))))"

definition restore_faucet :: "sanity_env \<Rightarrow> actors \<Rightarrow> word4 \<Rightarrow> u64 \<Rightarrow> u64 \<Rightarrow> unit sx" where
  "restore_faucet env actors commitment orig_min_burn orig_max_supply =
     bind_run (restore_ownership_to_original env (as_owner actors) (as_new_pauser actors)) (\<lambda>_ s.
     case fetch_faucet env s of
       (Inl e, t) \<Rightarrow> record_check ''ADMIN-RESTORE'' ''admin'' False t
     | (Inr acct, t) \<Rightarrow> restore_policy env actors commitment orig_min_burn orig_max_supply acct t)"

definition admin_suite ::
    "sanity_env \<Rightarrow> harness_ext \<Rightarrow> mint_config option \<Rightarrow> actors \<Rightarrow> word4 \<Rightarrow> account_id \<Rightarrow> account_id \<Rightarrow> unit sx" where
  "admin_suite env x config actors mint_attester relayer recipient =
     bind_run (fetch_faucet env) (\<lambda>policy_before.
     bind_run (pure_step (min_burn policy_before)) (\<lambda>orig_min_burn.
     bind_run (pure_step (max_supply policy_before)) (\<lambda>orig_max_supply s.
     case admin_checks env x config actors mint_attester relayer recipient s of
       (result, t) \<Rightarrow> (result, snd (restore_faucet env actors mint_attester orig_min_burn orig_max_supply t)))))"

section \<open>The orchestrator\<close>

definition log_check :: "sanity_env \<Rightarrow> unit sx" where
  "log_check env = (case scan_logs (se_logs env) EXPECTED_LOG_LINES of
       Inr l \<Rightarrow> record_check ''NODE-LOGS-CLEAN'' ''logs''
         (list_all (\<lambda>svc. case List.find (\<lambda>e. sl_service e = svc) (l_scanned l) of
              None \<Rightarrow> False
            | Some e \<Rightarrow> \<not> (sl_bytes e = 0 \<or> sl_lines e = 0)) V16_SERVICES \<and>
          l_unexpected_errors l = [] \<and> l_panics l = [] \<and> l_untriaged_warnings l = [])
     | Inl e \<Rightarrow> record_check ''NODE-LOGS-CLEAN'' ''logs'' False)"

definition for_deployed_faucet :: "sanity_env \<Rightarrow> u32 \<Rightarrow> account_id \<Rightarrow> mint_config" where
  "for_deployed_faucet env domain faucet = \<lparr>mc_domain = domain, mc_remote_token = se_token_bytes env faucet\<rparr>"

definition resolve_deployed_mint_config :: "sanity_env \<Rightarrow> account_id \<Rightarrow> mint_config sx" where
  "resolve_deployed_mint_config env faucet_id =
     bind_run (fetch_faucet env) (\<lambda>faucet.
     bind_run (pure_step (domain_config faucet)) (\<lambda>domain.
     let config = for_deployed_faucet env domain faucet_id in
     bind_run (pure_step (identifier_config faucet)) (\<lambda>stored_identifier.
     if stored_identifier \<noteq> se_map_key env (mc_remote_token config)
     then raise ''the stored identifier key does not match''
     else ret config)))"

definition deploy_fresh_faucet :: "sanity_env \<Rightarrow> actors \<Rightarrow> account_id sx" where
  "deploy_fresh_faucet env actors =
     bind_run (ask (se_faucet env)) (\<lambda>faucet_id.
     let n = note_by (as_owner actors) IdentifierInit in
     bind_run (build_sanity_note env n) (\<lambda>_.
     bind_run (emit env n) (\<lambda>_.
     bind_run (ask (se_client env)) (\<lambda>_.
     bind_run (\<lambda>s. ask (se_client env) (remember (DeployedFaucet faucet_id) s)) (\<lambda>_.
     ret faucet_id)))))"

record sanity_config =
  sc_rpc_url :: string
  sc_faucet_id :: "account_id option"
  sc_attester_secret :: "b256 option"
  sc_scan_logs :: bool

record sanity_report =
  sr_deployed_fresh :: bool
  sr_local_node :: bool
  sr_faucet_id :: account_id
  sr_attester_supplied :: bool
  sr_checks :: "check list"

definition sanity_checks ::
    "sanity_env \<Rightarrow> harness_ext \<Rightarrow> run_mode \<Rightarrow> mint_config option \<Rightarrow> actors \<Rightarrow> word4 \<Rightarrow> bool \<Rightarrow> unit sx" where
  "sanity_checks env x mode config actors attester scan =
     (let relayer = as_manager actors; recipient = as_recipient actors in
      in_order
       [if rm_deployed_fresh mode then set_attester_enabled env (as_owner actors) attester True else ret (),
        mint_and_assert env config relayer attester recipient MINT_ROUND_UNITS 0x11 ''MINT-ROUND'',
        mint_and_assert env config relayer attester recipient MINT_NONROUND_UNITS 0x22 ''MINT-NONROUND'',
        negatives_suite env x config relayer attester (as_attester_b actors) recipient,
        burn_and_assert env config attester relayer (as_holder actors),
        if rm_run_admin mode then admin_suite env x config actors attester relayer recipient else ret (),
        if scan then log_check env else ret ()])"

text \<open>
  \<^verbatim>\<open>run_sanity\<close> in its four parts: the mode, the client with the attester key and the actors, the faucet,
  and the checks on it.
\<close>

definition prepare_run :: "sanity_env \<Rightarrow> sanity_config \<Rightarrow> run_mode \<Rightarrow> (word4 option \<times> actors) sx" where
  "prepare_run env cfg mode =
     bind_run (ask (se_client env)) (\<lambda>_.
     bind_run (pure_step (parse_url_parts (sc_rpc_url cfg))) (\<lambda>_.
     bind_run (ask (se_client env)) (\<lambda>_.
     bind_run (pure_step (case sc_attester_secret cfg of
         None \<Rightarrow> Inr None
       | Some scalar \<Rightarrow> and_then (se_secret env scalar) (\<lambda>k. Inr (Some k)))) (\<lambda>supplied.
     bind_run (if \<not> rm_deployed_fresh mode \<and> supplied = None
       then raise ''the existing-faucet re-check requires the attester secret'' else ret ()) (\<lambda>_.
     bind_run (ask (se_actors env)) (\<lambda>actors.
     ret (supplied, actors)))))))"

definition open_faucet :: "sanity_env \<Rightarrow> sanity_config \<Rightarrow> actors \<Rightarrow> account_id sx" where
  "open_faucet env cfg actors = (case sc_faucet_id cfg of
       Some f \<Rightarrow> bind_run (ask (se_client env)) (\<lambda>_. ret f)
     | None \<Rightarrow> deploy_fresh_faucet env actors)"

definition check_faucet ::
    "sanity_env \<Rightarrow> harness_ext \<Rightarrow> sanity_config \<Rightarrow> run_mode \<Rightarrow> word4 option \<Rightarrow> actors \<Rightarrow> account_id \<Rightarrow> sanity_report sx" where
  "check_faucet env x cfg mode supplied actors faucet_id =
     (let attester = (case supplied of Some k \<Rightarrow> k | None \<Rightarrow> as_attester actors) in
      bind_run (if rm_deployed_fresh mode then ret (for_deployed_faucet env 7 faucet_id)
        else resolve_deployed_mint_config env faucet_id) (\<lambda>config.
      bind_run (sanity_checks env x mode (Some config) actors attester (sc_scan_logs cfg)) (\<lambda>_ s.
      (Inr \<lparr>sr_deployed_fresh = rm_deployed_fresh mode, sr_local_node = rm_local_node mode, sr_faucet_id = faucet_id,
        sr_attester_supplied = (supplied \<noteq> None), sr_checks = sn_checks s\<rparr>, s))))"

definition run_sanity :: "sanity_env \<Rightarrow> harness_ext \<Rightarrow> sanity_config \<Rightarrow> sanity_report sx" where
  "run_sanity env x cfg s = (case decide_run_mode (sc_faucet_id cfg) (sc_rpc_url cfg) of
       Inl e \<Rightarrow> (Inl e, s)
     | Inr mode \<Rightarrow>
         bind_run (prepare_run env cfg mode) (\<lambda>(supplied, actors).
         bind_run (open_faucet env cfg actors) (\<lambda>faucet_id.
         check_faucet env x cfg mode supplied actors faucet_id)) s)"

definition failures :: "sanity_report \<Rightarrow> check list" where
  "failures r = filter (\<lambda>c. \<not> ck_pass c) (sr_checks r)"

definition all_passed :: "sanity_report \<Rightarrow> bool" where
  "all_passed r \<longleftrightarrow> failures r = []"

text \<open>\<^verbatim>\<open>main\<close> of \<^verbatim>\<open>bin/sanity_e2e.rs\<close> after the arguments are read\<close>

definition sanity_main :: "sanity_env \<Rightarrow> harness_ext \<Rightarrow> sanity_config \<Rightarrow> unit sx" where
  "sanity_main env x cfg =
     (if sc_faucet_id cfg = None \<and> \<not> is_loopback (sc_rpc_url cfg) then raise ''REFUSED''
      else bind_run (run_sanity env x cfg) (\<lambda>report.
        bind_run (ask (se_client env)) (\<lambda>_.
        if all_passed report then ret () else raise ''sanity gate: core assertion(s) FAILED'')))"

end
