(* ===== verification/Harness_Gate.thy ===== *)
theory Harness_Gate
  imports Harness_Sanity
begin

text \<open>
  What the sanity gate does to a faucet. Every administrative note of a run goes to a faucet that the same
  run has deployed on a loopback address; a run against an existing faucet emits mints and burns only. The
  restore phase acts on fresh observations of the owner, within its budget, and reports success exactly
  when its last observation shows the original owner in sole control.
\<close>

section \<open>Traces that grow by events of one kind\<close>

definition adds :: "(sevent \<Rightarrow> bool) \<Rightarrow> sanity \<Rightarrow> sanity \<Rightarrow> bool" where
  "adds ok s t \<longleftrightarrow> (\<exists>new. sn_trace t = sn_trace s @ new \<and> list_all ok new)"

lemma adds_refl: "adds ok s s" by (simp add: adds_def)

lemma adds_trans: "adds ok s t \<Longrightarrow> adds ok t u \<Longrightarrow> adds ok s u"
  unfolding adds_def by (metis append.assoc list_all_append)

interpretation grow: run_order "adds ok" for ok
  by unfold_locales (rule adds_refl, rule adds_trans)

lemma moves_ask [intro!]: "moves (adds ok) (ask f)"
  by (simp add: moves_def ask_def adds_def)

lemma moves_record [intro!]: "moves (adds ok) (record_check i area b)"
  by (simp add: moves_def record_check_def adds_def)

lemma moves_pure [intro!]: "moves (adds ok) (pure_step r)"
  by (simp add: moves_def pure_step_def adds_def)

lemma gate_ret [intro!]: "moves (adds ok) (ret v)" "moves (adds ok) (raise e)"
  by (rule grow.moves_ret)+

lemma moves_in_order: "(\<And>m. m \<in> set steps \<Longrightarrow> moves (adds ok) m) \<Longrightarrow> moves (adds ok) (in_order steps)"
  unfolding in_order_def by (induction steps) (auto intro: grow.moves_bind)

lemma moves_remembered: "ok e \<Longrightarrow> moves (adds ok) m \<Longrightarrow> moves (adds ok) (\<lambda>s. m (remember e s))"
  by (rule grow.moves_after) (simp add: adds_def remember_def)

lemma gate_fetch [intro!]: "moves (adds ok) (fetch_faucet env)" "moves (adds ok) (build_sanity_note env n)"
  by (auto simp: fetch_faucet_def build_sanity_note_def)

lemma gate_emit: "ok (Emitted n) \<Longrightarrow> moves (adds ok) (emit env n)"
  unfolding emit_def by (rule moves_remembered) auto

lemma moves_probe: "ok (Probed n) \<Longrightarrow> moves (adds ok) (probe_consume env n)"
  unfolding probe_consume_def by (rule moves_remembered) auto

lemma gate_poll: "moves (adds ok) (poll_account env ready left)"
proof (induction left)
  case 0
  have "moves (adds ok) (fetch_faucet env)" by auto
  then show ?case
    unfolding moves_def poll_account.simps [of env ready 0]
    by (auto split: prod.split sum.split dest: moves_run) (metis snd_conv)+
next
  case (Suc n)
  have one: "moves (adds ok) (fetch_faucet env)" by auto
  show ?case
    unfolding moves_def
  proof
    fix s
    obtain r t where f: "fetch_faucet env s = (r, t)" by fastforce
    then have st: "adds ok s t" using moves_run [OF one] by blast
    have "adds ok t (snd (poll_account env ready n t))" using Suc by (simp add: moves_def)
    then show "adds ok s (snd (poll_account env ready (Suc n) s))"
      using f st adds_trans by (cases r) (auto simp: poll_account.simps [of env ready "Suc n"])
  qed
qed

lemma moves_poll_spent: "moves (adds ok) (poll_spent env n left)"
proof (induction left)
  case 0
  have "moves (adds ok) (ask (\<lambda>t. se_spent env t n))" by auto
  then show ?case
    unfolding moves_def poll_spent.simps [of env n 0]
    by (auto split: prod.split sum.split option.split dest: moves_run) (metis snd_conv)+
next
  case (Suc k)
  have one: "moves (adds ok) (ask (\<lambda>t. se_spent env t n))" by auto
  show ?case
    unfolding moves_def
  proof
    fix s
    obtain r t where f: "ask (\<lambda>t. se_spent env t n) s = (r, t)" by fastforce
    then have st: "adds ok s t" using moves_run [OF one] by blast
    have "adds ok t (snd (poll_spent env n k t))" using Suc by (simp add: moves_def)
    then show "adds ok s (snd (poll_spent env n (Suc k) s))"
      using f st adds_trans
      by (cases r) (auto simp: poll_spent.simps [of env n "Suc k"] split: option.split)
  qed
qed

lemma moves_polls:
  "moves (adds ok) (\<lambda>s. poll_account env ready (se_polls env (sn_tick s)) s)"
  "moves (adds ok) (\<lambda>s. poll_spent env n (se_polls env (sn_tick s)) s)"
  using gate_poll moves_poll_spent by (simp_all add: moves_def)

lemma moves_commit:
  assumes "ok (Emitted n)"
  shows "moves (adds ok) (commit_via_ntx env n ready)" "moves (adds ok) (commit_via_ntx_consumed env n)"
    "moves (adds ok) (build_commit env n ready)" "moves (adds ok) (build_commit_consumed env n)"
proof -
  note sent = gate_emit [of ok n env, OF assms]
  show one: "moves (adds ok) (commit_via_ntx env n ready)" and two: "moves (adds ok) (commit_via_ntx_consumed env n)"
    unfolding commit_via_ntx_def commit_via_ntx_consumed_def
    by (rule grow.moves_bind [OF sent moves_polls(1)], rule grow.moves_bind [OF sent moves_polls(2)])
  show "moves (adds ok) (build_commit env n ready)" "moves (adds ok) (build_commit_consumed env n)"
    unfolding build_commit_def build_commit_consumed_def
    by (rule grow.moves_bind [OF gate_fetch(2) one], rule grow.moves_bind [OF gate_fetch(2) two])
qed

lemma moves_then:
  assumes m: "moves (adds ok) m" and g: "\<And>r. moves (adds ok) (g r)"
  shows "moves (adds ok) (\<lambda>s. case m s of (r, t) \<Rightarrow> g r t)"
  unfolding moves_def
proof
  fix s
  obtain r t where r: "m s = (r, t)" by fastforce
  then show "adds ok s (snd (case m s of (r, t) \<Rightarrow> g r t))"
    using moves_run [OF m r] g adds_trans by (auto simp: moves_def)
qed

lemma moves_rejection: "ok (Probed n) \<Longrightarrow> moves (adds ok) (probe_rejection env x n i area expected)"
  unfolding probe_rejection_def
  by (intro grow.moves_bind gate_fetch moves_probe) (auto simp: record_rejection_def split: verdict.split)

lemma moves_supply: "moves (adds ok) (supply_now env)"
  unfolding supply_now_def by (intro grow.moves_bind gate_fetch moves_pure)

lemmas grow_rules = grow.moves_bind moves_ask moves_record moves_pure gate_ret gate_fetch moves_commit
  moves_then moves_rejection moves_supply

section \<open>The check families\<close>

text \<open>The classes of events that a run may add: at least mints, burns and probes, or any event.\<close>

fun ordinary :: "note_body \<Rightarrow> bool" where
  "ordinary (MintNote _) = True"
| "ordinary (BurnNote _) = True"
| "ordinary _ = False"

locale event_class =
  fixes ok :: "sevent \<Rightarrow> bool"
  assumes ordinary_ok: "ordinary (hn_body n) \<Longrightarrow> ok (Emitted n)" and probed_ok: "ok (Probed n)"
begin

lemma mint_ok: "ok (Emitted (mint_note_for sender attester recipient amount salt config))"
  by (rule ordinary_ok) (simp add: mint_note_for_def note_by_def)

lemma burn_ok: "ok (Emitted (note_by sender (BurnNote amount)))"
  by (rule ordinary_ok) (simp add: note_by_def)

lemma mint_and_assert: "moves (adds ok) (mint_and_assert env config relayer attester recipient amount salt i)"
  unfolding mint_and_assert_def Let_def
  by (intro grow_rules mint_ok)

lemma negatives_suite: "moves (adds ok) (negatives_suite env x config relayer a b recipient)"
proof -
  have over: "moves (adds ok) (bind_run (fetch_faucet env) (\<lambda>faucet_now.
      bind_run (pure_step (max_supply faucet_now)) (\<lambda>cap. bind_run (pure_step (token_supply faucet_now)) (\<lambda>supply.
      probe_rejection env x (f cap supply) i area err))))" for f i area err
    by (intro grow_rules probed_ok)
  have last: "moves (adds ok) (bind_run (supply_now env) (\<lambda>v. record_check i area (v = w)))" for i area w
    by (intro grow_rules)
  show ?thesis
    unfolding negatives_suite_def
    by (intro grow.moves_bind moves_supply moves_in_order)
      (auto intro: over last moves_rejection probed_ok)
qed

lemma fund_and_burn: "moves (adds ok) (fund_and_burn env config attester relayer holder amount salt i)"
  unfolding fund_and_burn_def Let_def
  by (intro grow_rules mint_ok burn_ok)

lemma burn_and_assert: "moves (adds ok) (burn_and_assert env config attester relayer holder)"
  unfolding burn_and_assert_def
  by (intro grow.moves_bind fund_and_burn moves_ask) (auto intro!: moves_in_order split: prod.split)

lemma log_check: "moves (adds ok) (log_check env)"
  unfolding log_check_def by (auto split: sum.split)

lemma resolve_config: "moves (adds ok) (resolve_deployed_mint_config env faucet)"
  unfolding resolve_deployed_mint_config_def Let_def
  by (intro grow_rules) (auto split: if_split)

end

text \<open>A step of the policy restore, and the loop of the ownership restore, over any class that admits their notes.\<close>

lemma moves_restore_step: "moves (adds ok) action \<Longrightarrow> moves (adds ok) (restore_step needed action b)"
  unfolding restore_step_def moves_def by (auto simp: adds_refl split: prod.split) (metis snd_conv)

lemma moves_observe: "(\<And>p q. ok (SawOwner p q)) \<Longrightarrow> moves (adds ok) (observe_owner env)"
proof -
  assume saw: "\<And>p q. ok (SawOwner p q)"
  have f: "moves (adds ok) (fetch_faucet env)" by auto
  have "adds ok s (remember (SawOwner p q) t)" if "adds ok s t" for s t p q
    by (rule adds_trans [OF that]) (simp add: adds_def remember_def saw)
  then show ?thesis
    unfolding moves_def observe_owner_def using moves_run [OF f]
    by (auto split: prod.split sum.split)
qed

lemma moves_reconcile:
  assumes observe: "moves (adds ok) observe" and undo: "moves (adds ok) back_op"
    and cancel: "moves (adds ok) cancel_op"
  shows "adds ok s (snd (reconcile_loop observe back_op cancel_op orig eph left s))"
proof (induction left arbitrary: s)
  case (0 s)
  obtain r t where r: "observe s = (r, t)" by fastforce
  then have "adds ok s t" using moves_run [OF observe] by blast
  then show ?case using r
    by (cases r) (auto simp: reconcile_loop.simps [where left = 0] split: ownership_restore.split prod.split)
next
  case (Suc n s)
  obtain r t where r: "observe s = (r, t)" by fastforce
  then have st: "adds ok s t" using moves_run [OF observe] by blast
  have "adds ok s (snd (reconcile_loop observe back_op cancel_op orig eph n (snd (m t))))"
    if "moves (adds ok) m" for m :: "unit sx"
    using st moves_snd [OF that, of t] Suc [of "snd (m t)"] adds_trans by blast
  note after = this [OF undo] this [OF cancel]
  show ?case using r st after
    by (cases r) (auto simp: reconcile_loop.simps [where left = "Suc n"] split: ownership_restore.split prod.split)
qed

locale any_event = event_class +
  assumes anything: "ok e"
begin

lemma emitted: "moves (adds ok) (commit_via_ntx_consumed env n)" "moves (adds ok) (build_commit env n ready)"
    "moves (adds ok) (build_commit_consumed env n)" "moves (adds ok) (emit env n)"
    "moves (adds ok) (probe_rejection env x n i area expected)"
  by (intro moves_commit gate_emit moves_rejection anything)+

lemma set_attester: "moves (adds ok) (set_attester_enabled env owner commitment enabled)"
  unfolding set_attester_enabled_def by (intro grow.moves_bind emitted gate_ret)

lemma commit_then: "moves (adds ok) (commit_then env n ready i)"
  unfolding commit_then_def by (intro grow.moves_bind emitted moves_record)

lemma admin_checks: "moves (adds ok) (admin_checks env x config actors attester relayer recipient)"
proof -
  have cap: "moves (adds ok) (bind_run (build_commit env n ready) (\<lambda>acct.
      bind_run (pure_step (max_supply acct)) (\<lambda>m. record_check i area (m = v))))" for n ready i area v
    by (intro grow.moves_bind emitted moves_pure moves_record)
  have tight: "moves (adds ok) (bind_run (supply_now env) (\<lambda>supply.
      bind_run (build_commit env (f supply) (g supply)) (\<lambda>_. ret ())))" for f g
    by (intro grow.moves_bind moves_supply emitted gate_ret)
  have guard: "moves (adds ok) (bind_run (supply_now env) (\<lambda>supply.
      probe_rejection env x (f supply) i area err))" for f i area err
    by (intro grow.moves_bind moves_supply emitted)
  have burn: "moves (adds ok) (bind_run (fund_and_burn env config attester relayer holder amount salt i) (\<lambda>_. ret ()))"
    for holder amount salt i by (intro grow.moves_bind fund_and_burn gate_ret)
  have transfer: "moves (adds ok) (bind_run (build_commit_consumed env n) (\<lambda>_. record_check i area True))" for n i area
    by (intro grow.moves_bind emitted moves_record)
  have accept: "moves (adds ok) (bind_run (build_sanity_note env n) (\<lambda>_.
      (\<lambda>s. case commit_via_ntx_consumed env n s of (r, t) \<Rightarrow> record_check i area (is_ok r) t)))" for n i area
    by (intro grow.moves_bind gate_fetch moves_then emitted moves_record)
  show ?thesis
    unfolding admin_checks_def
    by (intro moves_in_order)
      (auto simp: admin_pause_checks_def admin_attester_checks_def admin_min_burn_checks_def
        admin_max_supply_checks_def admin_owner_checks_def Let_def intro!: moves_in_order
        intro: cap tight guard burn transfer accept emitted set_attester commit_then mint_and_assert)
qed

lemma restores: "moves (adds ok) (restore_ownership env a b)" "moves (adds ok) (cancel_nomination env a)"
    "moves (adds ok) (restore_unpause env a)" "moves (adds ok) (restore_min_burn env a v)"
    "moves (adds ok) (restore_max_supply env a v)"
  unfolding restore_ownership_def cancel_nomination_def restore_unpause_def restore_min_burn_def restore_max_supply_def
  by (intro grow.moves_bind emitted gate_ret)+

lemma restore_owner: "moves (adds ok) (restore_ownership_to_original env a b)"
proof -
  have "adds ok s (snd (reconcile_driver env a b s))" for s
    unfolding reconcile_driver_def reconcile_ownership_def
    by (rule moves_reconcile [OF moves_observe restores(1,2)]) (rule anything)
  then show ?thesis
    unfolding moves_def restore_ownership_to_original_def
    by (auto simp: record_check_def adds_def split: prod.split) (metis snd_conv)
qed

lemma restore_policy: "moves (adds ok) (restore_policy env actors c mb ms acct)"
  unfolding restore_policy_def Let_def
  by (intro grow.moves_bind moves_restore_step restores set_attester moves_record)

lemma restore_faucet: "moves (adds ok) (restore_faucet env actors c mb ms)"
  unfolding restore_faucet_def
  by (intro grow.moves_bind restore_owner grow.moves_case gate_fetch moves_record restore_policy)

lemma admin_suite: "moves (adds ok) (admin_suite env x config actors attester relayer recipient)"
proof -
  have "moves (adds ok) (\<lambda>s. case admin_checks env x config actors attester relayer recipient s of
      (result, t) \<Rightarrow> (result, snd (restore_faucet env actors c mb ms t)))" for c mb ms
    by (rule moves_then [OF admin_checks]) (use restore_faucet in \<open>simp add: moves_def\<close>)
  then show ?thesis
    unfolding admin_suite_def by (intro grow.moves_bind gate_fetch moves_pure)
qed

end

section \<open>Administrative notes\<close>

text \<open>The events of a run that does not administer a faucet.\<close>

fun plain :: "sevent \<Rightarrow> bool" where
  "plain (Emitted n) = ordinary (hn_body n)"
| "plain (Probed n) = True"
| "plain (DeployedFaucet f) = False"
| "plain (SawOwner p q) = True"

interpretation recheck: event_class plain
  by unfold_locales simp_all

interpretation full: any_event "\<lambda>_. True"
  by unfold_locales simp_all

lemma recheck_checks:
  assumes "\<not> rm_deployed_fresh mode" and "\<not> rm_run_admin mode"
  shows "moves (adds plain) (sanity_checks env x mode config actors attester scan)"
  using assms unfolding sanity_checks_def Let_def
  by (intro moves_in_order)
    (auto intro: recheck.mint_and_assert recheck.negatives_suite recheck.burn_and_assert recheck.log_check)

lemma full_checks: "moves (adds (\<lambda>_. True)) (sanity_checks env x mode config actors attester scan)"
  unfolding sanity_checks_def Let_def
  by (intro moves_in_order)
    (auto intro: full.mint_and_assert full.negatives_suite full.burn_and_assert full.log_check full.set_attester
      full.admin_suite)

text \<open>A run in three parts: what comes before the faucet, the faucet, and the checks on it.\<close>

lemma ask_trace [simp]: "sn_trace (snd (ask f s)) = sn_trace s"
  by (simp add: ask_def)

lemma decided_mode:
  assumes "decide_run_mode faucet url = Inr mode"
  shows "rm_deployed_fresh mode = (faucet = None)" "rm_run_admin mode = (faucet = None)"
    "faucet = None \<longrightarrow> is_loopback url"
  using assms by (auto simp: decide_run_mode_def Let_def split: if_splits)

lemma prepare_moves: "moves (adds ok) (prepare_run env cfg mode)"
  unfolding prepare_run_def by (auto intro!: grow.moves_bind)

lemma check_moves:
  assumes "moves (adds ok) (resolve_deployed_mint_config env faucet_id)"
    and "\<And>config. moves (adds ok) (sanity_checks env x mode config actors (case supplied of Some k \<Rightarrow> k | None \<Rightarrow> as_attester actors) (sc_scan_logs cfg))"
  shows "moves (adds ok) (check_faucet env x cfg mode supplied actors faucet_id)"
proof -
  have finish: "moves (adds ok) (\<lambda>s. (Inr (r s), s))" for r :: "sanity \<Rightarrow> sanity_report"
    by (simp add: moves_def adds_refl)
  show ?thesis
    unfolding check_faucet_def Let_def using assms by (auto intro!: grow.moves_bind finish)
qed

lemma run_sanity_existing:
  assumes some: "sc_faucet_id cfg = Some f"
  shows "adds plain s (snd (run_sanity env x cfg s))"
proof (cases "decide_run_mode (sc_faucet_id cfg) (sc_rpc_url cfg)")
  case (Inl e)
  then show ?thesis by (simp add: run_sanity_def adds_refl)
next
  case (Inr mode)
  then have mode: "\<not> rm_deployed_fresh mode" "\<not> rm_run_admin mode"
    using decided_mode [OF Inr] some by simp_all
  have "moves (adds plain) (open_faucet env cfg actors)" for actors
    unfolding open_faucet_def some by (auto intro!: grow.moves_bind)
  then have "moves (adds plain) (bind_run (prepare_run env cfg mode) (\<lambda>(supplied, actors).
      bind_run (open_faucet env cfg actors) (check_faucet env x cfg mode supplied actors)))"
    by (auto intro!: grow.moves_bind prepare_moves check_moves recheck.resolve_config recheck_checks [OF mode])
  then show ?thesis using Inr by (simp add: run_sanity_def moves_snd)
qed

text \<open>How a deployment begins, and how a run goes on after it.\<close>

fun own_faucet :: "sevent list \<Rightarrow> bool" where
  "own_faucet [] = True"
| "own_faucet [Emitted n] = (hn_body n = IdentifierInit)"
| "own_faucet (Emitted n # DeployedFaucet f # es) = (hn_body n = IdentifierInit)"
| "own_faucet _ = False"

lemma deploy_trace:
  assumes run: "deploy_fresh_faucet env actors s = (r, t)" and empty: "sn_trace s = []"
  shows "own_faucet (sn_trace t)" and "r = Inr f \<Longrightarrow> sn_trace t = [Emitted (note_by (as_owner actors) IdentifierInit), DeployedFaucet f]"
  using assms
  by (auto simp: deploy_fresh_faucet_def Let_def bind_run_def ask_def build_sanity_note_def emit_def remember_def note_by_def
      split: sum.splits prod.splits)

lemma own_faucet_extend: "own_faucet (Emitted n # DeployedFaucet f # es) \<Longrightarrow> own_faucet (Emitted n # DeployedFaucet f # es @ new)"
  by simp

lemma run_sanity_fresh:
  assumes none: "sc_faucet_id cfg = None" and empty: "sn_trace s = []"
  shows "own_faucet (sn_trace (snd (run_sanity env x cfg s)))"
proof (cases "decide_run_mode (sc_faucet_id cfg) (sc_rpc_url cfg)")
  case (Inl e)
  then show ?thesis by (simp add: run_sanity_def empty)
next
  case (Inr mode)
  obtain p t where p: "prepare_run env cfg mode s = (p, t)" by fastforce
  have t: "sn_trace t = []"
    using moves_run [OF prepare_moves p, of "\<lambda>_. False"] empty
    by (auto simp: adds_def list_all_iff)
  show ?thesis
  proof (cases p)
    case (Inl e)
    then show ?thesis using Inr p t by (simp add: run_sanity_def bind_run_def)
  next
    case prepared: (Inr pair)
    obtain supplied actors where pair: "pair = (supplied, actors)" by fastforce
    obtain r u where d: "deploy_fresh_faucet env actors t = (r, u)" by fastforce
    note deployed = deploy_trace [OF d t]
    show ?thesis
    proof (cases r)
      case (Inl e)
      then show ?thesis using \<open>decide_run_mode _ _ = _\<close> p prepared pair d none deployed(1)
        by (simp add: run_sanity_def bind_run_def open_faucet_def)
    next
      case faucet: (Inr f)
      have "adds (\<lambda>_. True) u (snd (check_faucet env x cfg mode supplied actors f u))"
        by (rule moves_snd [OF check_moves [OF full.resolve_config full_checks]])
      then show ?thesis using \<open>decide_run_mode _ _ = _\<close> p prepared pair d none deployed(2) [OF faucet] faucet
        by (auto simp: run_sanity_def bind_run_def open_faucet_def adds_def note_by_def)
    qed
  qed
qed


section \<open>Restoring ownership\<close>

text \<open>
  The contract of \<^verbatim>\<open>OwnershipOps\<close>: an observation that succeeds is logged and nothing else is; each of the two
  actions emits its own notes only. \<open>events\<close> is the log.
\<close>

locale ownership_ops =
  fixes observe :: "('s, string, account_id \<times> account_id option) run"
    and back_op cancel_op :: "('s, string, unit) run"
    and events :: "'s \<Rightarrow> sevent list"
    and orig_owner ephemeral :: account_id
  assumes observe_ok: "observe s = (Inr (p, q), t) \<Longrightarrow> events t = events s @ [SawOwner p q]"
    and observe_fails: "observe s = (Inl e, t) \<Longrightarrow> events t = events s"
    and back_sends: "\<exists>new. events (snd (back_op s)) = events s @ new \<and>
      set new \<subseteq> {Emitted (note_by ephemeral (TransferOwnership orig_owner)), Emitted (note_by orig_owner AcceptOwnership)}"
    and cancel_sends: "\<exists>new. events (snd (cancel_op s)) = events s @ new \<and>
      set new \<subseteq> {Emitted (note_by orig_owner (TransferOwnership orig_owner))}"

text \<open>
  Every note of a log follows from the latest observation before it: a transfer back needs the ephemeral
  wallet as the observed owner, a cancellation the original owner with the ephemeral wallet nominated.
\<close>

fun called_for :: "account_id \<Rightarrow> account_id \<Rightarrow> (account_id \<times> account_id option) option \<Rightarrow> hnote \<Rightarrow> bool" where
  "called_for orig eph None n = False"
| "called_for orig eph (Some (p, q)) n = (case plan_ownership_restore p q orig eph of
       TransferBack \<Rightarrow> n = note_by eph (TransferOwnership orig) \<or> n = note_by orig AcceptOwnership
     | CancelNomination \<Rightarrow> n = note_by orig (TransferOwnership orig)
     | _ \<Rightarrow> False)"

fun warranted :: "account_id \<Rightarrow> account_id \<Rightarrow> (account_id \<times> account_id option) option \<Rightarrow> sevent list \<Rightarrow> bool" where
  "warranted orig eph seen [] = True"
| "warranted orig eph seen (SawOwner p q # es) = warranted orig eph (Some (p, q)) es"
| "warranted orig eph seen (Emitted n # es) = (called_for orig eph seen n \<and> warranted orig eph seen es)"
| "warranted orig eph seen (_ # es) = False"

fun observations :: "sevent list \<Rightarrow> nat" where
  "observations [] = 0"
| "observations (SawOwner p q # es) = Suc (observations es)"
| "observations (_ # es) = observations es"

lemma warranted_notes:
  "\<forall>e \<in> set new. \<exists>n. e = Emitted n \<and> called_for orig eph seen n \<Longrightarrow>
     warranted orig eph seen (new @ es) \<longleftrightarrow> warranted orig eph seen es"
  by (induction new) auto

lemma observations_notes: "\<forall>e \<in> set new. \<exists>n. e = Emitted n \<Longrightarrow> observations (new @ es) = observations es"
  by (induction new) auto

text \<open>What the last event of the loop says, given how the loop ended.\<close>

fun told :: "account_id \<Rightarrow> account_id \<Rightarrow> ownership_outcome \<Rightarrow> sevent list \<Rightarrow> bool" where
  "told orig eph Restored new \<longleftrightarrow>
     new \<noteq> [] \<and> orig \<noteq> eph \<and> (\<exists>q. last new = SawOwner orig q \<and> q \<noteq> Some eph)"
| "told orig eph (UnexpectedOwner p) new \<longleftrightarrow>
     new \<noteq> [] \<and> p \<noteq> orig \<and> p \<noteq> eph \<and> (\<exists>q. last new = SawOwner p q)"
| "told orig eph (Unresolved plan) new \<longleftrightarrow>
     new \<noteq> [] \<and> (\<exists>p q. last new = SawOwner p q \<and> (p = eph \<or> q = Some eph))"
| "told orig eph (ObserveFailed e) new \<longleftrightarrow> True"

lemma told_append: "told orig eph out new \<Longrightarrow> told orig eph out (pre @ new)"
  by (cases out) auto

definition loop_account ::
    "account_id \<Rightarrow> account_id \<Rightarrow> (account_id \<times> account_id option) option \<Rightarrow> nat \<Rightarrow> sevent list \<Rightarrow> ownership_outcome
     \<Rightarrow> sevent list \<Rightarrow> bool" where
  "loop_account orig eph seen budget es out es' \<longleftrightarrow>
     (\<exists>new. es' = es @ new \<and> warranted orig eph seen new \<and> observations new \<le> Suc budget \<and> told orig eph out new)"

lemma loop_account_after_action:
  assumes saw: "es1 = es @ [SawOwner p q]"
    and sent: "es2 = es1 @ new" "\<forall>e \<in> set new. \<exists>k. e = Emitted k \<and> called_for orig eph (Some (p, q)) k"
    and rest: "loop_account orig eph (Some (p, q)) n es2 out es3"
  shows "loop_account orig eph seen (Suc n) es out es3"
proof -
  obtain more where more: "es3 = es2 @ more" "warranted orig eph (Some (p, q)) more" "observations more \<le> Suc n"
    "told orig eph out more"
    using rest unfolding loop_account_def by blast
  have "\<forall>e \<in> set new. \<exists>k. e = Emitted k" using sent(2) by blast
  note count = observations_notes [OF this] and just = warranted_notes [OF sent(2)]
  show ?thesis
    unfolding loop_account_def
  proof (intro exI conjI)
    let ?all = "SawOwner p q # new @ more"
    show "es3 = es @ ?all" using saw sent(1) more(1) by simp
    show "warranted orig eph seen ?all" using just more(2) by simp
    show "observations ?all \<le> Suc (Suc n)" using count more(3) by simp
    show "told orig eph out ?all" using told_append [OF more(4), of "SawOwner p q # new"] by simp
  qed
qed

context ownership_ops
begin

lemma loop_ends:
  assumes obs: "observe s = (r, t)"
    and stop: "case r of Inl _ \<Rightarrow> True | Inr (p, q) \<Rightarrow>
      left = 0 \<or> plan_ownership_restore p q orig_owner ephemeral \<notin> {TransferBack, CancelNomination}"
  shows "loop_account orig_owner ephemeral seen left (events s)
    (fst (reconcile_loop observe back_op cancel_op orig_owner ephemeral left s))
    (events (snd (reconcile_loop observe back_op cancel_op orig_owner ephemeral left s)))"
proof (cases r)
  case (Inl e)
  then show ?thesis using obs observe_fails [of s e t]
    by (simp add: loop_account_def reconcile_loop.simps [where s = s])
next
  case (Inr pq)
  obtain p q where pq: "pq = (p, q)" by fastforce
  have "events t = events s @ [SawOwner p q]" using obs Inr pq observe_ok by simp
  then show ?thesis using obs Inr pq stop
    by (auto simp: loop_account_def reconcile_loop.simps [where s = s] plan_ownership_restore_def split: if_splits)
qed

lemma loop_acts:
  assumes obs: "observe s = (Inr (p, q), t)"
    and plan: "plan_ownership_restore p q orig_owner ephemeral \<in> {TransferBack, CancelNomination}"
  obtains u new where
    "reconcile_loop observe back_op cancel_op orig_owner ephemeral (Suc n) s =
       reconcile_loop observe back_op cancel_op orig_owner ephemeral n u"
    "events u = events t @ new" "\<forall>e \<in> set new. \<exists>k. e = Emitted k \<and> called_for orig_owner ephemeral (Some (p, q)) k"
proof (cases "plan_ownership_restore p q orig_owner ephemeral = TransferBack")
  case True
  obtain new where "events (snd (back_op t)) = events t @ new"
    "set new \<subseteq> {Emitted (note_by ephemeral (TransferOwnership orig_owner)), Emitted (note_by orig_owner AcceptOwnership)}"
    using back_sends by blast
  then show thesis using obs True
    by (intro that [of "snd (back_op t)" new]) (auto simp: reconcile_loop.simps [where s = s])
next
  case False
  then have cancel: "plan_ownership_restore p q orig_owner ephemeral = CancelNomination" using plan by simp
  obtain new where "events (snd (cancel_op t)) = events t @ new"
    "set new \<subseteq> {Emitted (note_by orig_owner (TransferOwnership orig_owner))}"
    using cancel_sends by blast
  then show thesis using obs cancel
    by (intro that [of "snd (cancel_op t)" new]) (auto simp: reconcile_loop.simps [where s = s])
qed

lemma loop_kept:
  "loop_account orig_owner ephemeral seen left (events s)
     (fst (reconcile_loop observe back_op cancel_op orig_owner ephemeral left s))
     (events (snd (reconcile_loop observe back_op cancel_op orig_owner ephemeral left s)))"
proof (induction left arbitrary: s seen)
  case (0 s seen)
  show ?case by (rule loop_ends [OF prod.collapse [symmetric]]) (simp split: sum.split)
next
  case (Suc n s seen)
  obtain r t where obs: "observe s = (r, t)" by fastforce
  show ?case
  proof (cases "\<exists>p q. r = Inr (p, q) \<and> plan_ownership_restore p q orig_owner ephemeral \<in> {TransferBack, CancelNomination}")
    case True
    then obtain p q where pq: "r = Inr (p, q)"
      and plan: "plan_ownership_restore p q orig_owner ephemeral \<in> {TransferBack, CancelNomination}" by blast
    have saw: "events t = events s @ [SawOwner p q]" using obs pq observe_ok by simp
    obtain u new where "reconcile_loop observe back_op cancel_op orig_owner ephemeral (Suc n) s =
        reconcile_loop observe back_op cancel_op orig_owner ephemeral n u"
      and "events u = events t @ new" "\<forall>e \<in> set new. \<exists>k. e = Emitted k \<and> called_for orig_owner ephemeral (Some (p, q)) k"
      using loop_acts [OF obs [unfolded pq] plan] by blast
    then show ?thesis using loop_account_after_action [OF saw _ _ Suc.IH [of "Some (p, q)" u]] by simp
  next
    case False
    then show ?thesis by (intro loop_ends [OF obs]) (auto split: sum.split)
  qed
qed

end

text \<open>The driver keeps the contract; its log is the trace of the run.\<close>

lemma driver_back_sends:
  "\<exists>new. sn_trace (snd (restore_ownership env a b s)) = sn_trace s @ new \<and>
     set new \<subseteq> {Emitted (note_by a (TransferOwnership b)), Emitted (note_by b AcceptOwnership)}"
proof -
  let ?ok = "\<lambda>e. e = Emitted (note_by a (TransferOwnership b)) \<or> e = Emitted (note_by b AcceptOwnership)"
  have "moves (adds ?ok) (restore_ownership env a b)"
    unfolding restore_ownership_def by (intro grow.moves_bind moves_commit gate_ret) simp_all
  from moves_snd [OF this, of s] show ?thesis by (auto simp: adds_def list_all_iff subset_iff)
qed

lemma driver_cancel_sends:
  "\<exists>new. sn_trace (snd (cancel_nomination env a s)) = sn_trace s @ new \<and> set new \<subseteq> {Emitted (note_by a (TransferOwnership a))}"
proof -
  let ?ok = "\<lambda>e. e = Emitted (note_by a (TransferOwnership a))"
  have "moves (adds ?ok) (cancel_nomination env a)"
    unfolding cancel_nomination_def by (intro grow.moves_bind moves_commit gate_ret) simp_all
  from moves_snd [OF this, of s] show ?thesis by (auto simp: adds_def list_all_iff subset_iff)
qed

lemma driver_observes:
  "observe_owner env s = (Inr (p, q), t) \<Longrightarrow> sn_trace t = sn_trace s @ [SawOwner p q]"
  "observe_owner env s = (Inl e, t) \<Longrightarrow> sn_trace t = sn_trace s"
  by (auto simp: observe_owner_def fetch_faucet_def ask_def remember_def split: sum.splits prod.splits)

interpretation driver: ownership_ops "observe_owner env" "restore_ownership env ephemeral orig_owner"
    "cancel_nomination env orig_owner" sn_trace orig_owner ephemeral for env orig_owner ephemeral
  by unfold_locales (rule driver_observes, assumption, rule driver_observes, assumption, rule driver_back_sends, rule driver_cancel_sends)

text \<open>
  C18: The restore phase reconciles the ownership of the faucet within its budget: at most five observations
  of the owner, and between them only notes that the latest observation calls for, a transfer back only
  from an ephemeral wallet that was observed to own the faucet, a cancellation only for an owner whose
  faucet nominates that wallet. It reports the faucet as restored only when its last look at the chain, with
  nothing sent afterwards, showed the original owner and no nomination of the ephemeral wallet, and the
  ledger entry it leaves passes exactly then.
\<close>

theorem ownership_restored_truthfully:
  assumes run: "reconcile_driver env orig_owner ephemeral s = (out, t)"
  shows "\<exists>new. sn_trace t = sn_trace s @ new \<and> warranted orig_owner ephemeral None new \<and>
      observations new \<le> Suc MAX_OWNERSHIP_RECONCILE_ATTEMPTS \<and> told orig_owner ephemeral out new \<and>
      sn_checks (snd (restore_ownership_to_original env orig_owner ephemeral s)) =
        sn_checks t @ [\<lparr>ck_id = ''ADMIN-OWNER-RESTORE'', ck_area = ''admin'', ck_pass = (out = Restored)\<rparr>]"
proof -
  have "loop_account orig_owner ephemeral None MAX_OWNERSHIP_RECONCILE_ATTEMPTS (sn_trace s) out (sn_trace t)"
    using driver.loop_kept [of orig_owner ephemeral None MAX_OWNERSHIP_RECONCILE_ATTEMPTS s env] run
    by (simp add: reconcile_driver_def reconcile_ownership_def)
  moreover have "sn_checks (snd (restore_ownership_to_original env orig_owner ephemeral s)) =
      sn_checks t @ [\<lparr>ck_id = ''ADMIN-OWNER-RESTORE'', ck_area = ''admin'', ck_pass = (out = Restored)\<rparr>]"
    using run by (simp add: restore_ownership_to_original_def record_check_def)
  ultimately show ?thesis unfolding loop_account_def by blast
qed

section \<open>The policy restore and the address check\<close>

text \<open>
  Whatever the administrative checks did, the suite leaves the entry of the ownership restore and one of
  the two entries of the policy restore, and its result is that of the checks.
\<close>

lemma admin_suite_restores:
  assumes "fetch_faucet env s = (Inr a, s1)" and "min_burn a = Inr mb" and "max_supply a = Inr ms"
    and "admin_checks env x config actors attester relayer recipient s1 = (result, s2)"
  shows "admin_suite env x config actors attester relayer recipient s =
    (result, snd (restore_faucet env actors attester mb ms s2))"
  using assms by (simp add: admin_suite_def bind_run_def pure_step_def)

text \<open>
  A pause flag that cannot be read counts as not paused, while an unreadable limit is written again: with
  all else in place the policy restore passes without having unpaused anything.
\<close>

lemma unreadable_pause_passes:
  assumes "ac_item acct PausedSlot = None"
    and "attester_marker acct commitment = Inr m" "\<not> is_zero_word m"
    and "min_burn acct = Inr mb" "max_supply acct = Inr ms" "token_supply acct = Inr ts" "ts \<le> ms"
  shows "restore_policy env actors commitment mb ms acct s = record_check ''ADMIN-POLICY-RESTORE'' ''admin'' True s"
  using assms
  by (simp add: restore_policy_def restore_step_def read_or_def is_paused_def value_slot_def bind_run_def Let_def
      max_def)

text \<open>
  The two readings of an address part ways when the text \<^verbatim>\<open>://\<close> occurs twice: the mode is decided on the
  authority after the last occurrence, the client connects to what follows the first.
\<close>

lemma loopback_spoof:
  "is_loopback ''http://evil.com/x://localhost:80''"
  "parse_url_parts ''http://evil.com/x://localhost:80'' = Inr (''http'', ''evil.com/x://localhost'', Some 80)"
  by code_simp+

section \<open>Concrete runs\<close>

text \<open>
  A node whose supply grows with every answer and that becomes unreachable; the owner is the ephemeral wallet (account 8) for the first
  three answers and the original owner (account 1) afterwards.
\<close>

definition sample_node :: "nat \<Rightarrow> account" where
  "sample_node t = \<lparr>ac_id = 11, ac_nonce = 1,
     ac_item = (\<lambda>s. case s of
         TokenConfigSlot \<Rightarrow> Some (of_nat t * 1000000000, 1000000000000000, 0, 0)
       | DomainSlot \<Rightarrow> Some (7, 0, 0, 0) | IdentifierSlot \<Rightarrow> Some (9, 0, 0, 0)
       | OwnerSlot \<Rightarrow> Some (if t < 3 then 8 else 1, 0, 0, 0) | _ \<Rightarrow> None),
     ac_used_nonce = (\<lambda>_. Some (1, 0, 0, 0)), ac_attester = (\<lambda>_. Some (1, 0, 0, 0)),
     ac_note_allowlist = None, ac_tx_allowlist = None\<rparr>"

definition sample_sanity_env :: sanity_env where
  "sample_sanity_env = \<lparr>se_fetch = (\<lambda>t. if t < 9 then Inr (sample_node t) else Inl ''unreachable''), se_build = (\<lambda>_ _. Inr ()), se_emit = (\<lambda>_ _. Inr 5),
     se_probe = (\<lambda>_ _. Inr (Rejected [])), se_spent = (\<lambda>_ _. Inr (Some 6)), se_polls = (\<lambda>_. 1),
     se_target_note = (\<lambda>_ _ _. Inr ()), se_target_consume = (\<lambda>_ _. Inr 7), se_balance = (\<lambda>_ _. Inr 50000000),
     se_readiness = (\<lambda>_. (True, True, True, True)), se_nonce_key = (\<lambda>_. (1, 0, 0, 0)),
     se_account_of = (\<lambda>a _. Inr (ucast a)), se_token_bytes = (\<lambda>_. 4), se_map_key = (\<lambda>_. (9, 0, 0, 0)),
     se_client = (\<lambda>_. Inr ()), se_secret = (\<lambda>_. Inr (3, 0, 0, 0)),
     se_actors = (\<lambda>_. Inr \<lparr>as_owner = 1, as_pauser = 2, as_manager = 3, as_recipient = 4, as_holder = 5,
       as_new_pauser = 8, as_attester = (3, 0, 0, 0), as_attester_b = (4, 0, 0, 0)\<rparr>),
     se_faucet = (\<lambda>_. Inr 11), se_logs = None\<rparr>"

definition sample_gate_hx :: harness_ext where
  "sample_gate_hx = \<lparr>hx_err_code = (\<lambda>s. of_nat (length s)), hx_is_public = (\<lambda>_. True), hx_note_scripts = {},
     hx_expiration_root = 6, hx_identifier_for = (\<lambda>_. (9, 0, 0, 0)), hx_packed = (\<lambda>_. ((0, 0, 0, 0), (0, 0, 0, 0))),
     hx_burn_tag = 1112887886\<rparr>"

definition sample_recheck :: sanity_config where
  "sample_recheck = \<lparr>sc_rpc_url = ''https://rpc.devnet.miden.io'', sc_faucet_id = Some 11,
     sc_attester_secret = Some 1, sc_scan_logs = False\<rparr>"

definition sample_start :: sanity where
  "sample_start = \<lparr>sn_tick = 0, sn_checks = [], sn_trace = []\<rparr>"


theorem ownership_restored_truthfully_witness:
  "reconcile_driver sample_sanity_env 1 8 sample_start =
     (Restored, \<lparr>sn_tick = 8, sn_checks = [], sn_trace =
       [SawOwner 8 None, Emitted (note_by 8 (TransferOwnership 1)), Emitted (note_by 1 AcceptOwnership),
        SawOwner 1 None]\<rparr>) \<and>
   told 1 8 Restored [SawOwner 8 None, Emitted (note_by 8 (TransferOwnership 1)),
     Emitted (note_by 1 AcceptOwnership), SawOwner 1 None]"
proof -
  have run: "reconcile_driver sample_sanity_env 1 8 sample_start =
     (Restored, \<lparr>sn_tick = 8, sn_checks = [], sn_trace =
       [SawOwner 8 None, Emitted (note_by 8 (TransferOwnership 1)), Emitted (note_by 1 AcceptOwnership),
        SawOwner 1 None]\<rparr>)"
    by code_simp
  from ownership_restored_truthfully [OF this] run show ?thesis by (auto simp: sample_start_def)
qed

end
