(* ===== verification/Spec2Isabelle.thy ===== *)
theory Spec2Isabelle
  imports Attester_Props Admin_Props Relayer_Limits Withdraw_Safety Bridge Harness_Matrix Harness_Gate
begin

text \<open>
  A verification library for the services of the USDCx bridge, which moves USDC between Circle's
  xReserve contract and the Miden network (\<^verbatim>\<open>crates/\<close>).

  \<^bold>\<open>The program.\<close> A deposit on the Circle side becomes an attestation in Circle's feed; the
  \<^emph>\<open>deposit relayer\<close> (\<^verbatim>\<open>xreserve-deposit-relayer\<close>) walks the feed from the newest entry back to its
  watermark and submits one mint note per deposit to a Miden node. A withdrawal is a burn note that the
  USDCx faucet consumes; the \<^emph>\<open>light attester\<close> (\<^verbatim>\<open>xusdc-light-attester\<close>) follows the chain from a pinned
  anchor block, finds these burns, asks Circle to prepare each withdrawal, checks the reply field by
  field, signs it with two keys, saves the signed request and only then submits it; a SQLite store
  and an operator interface carry the state. The \<^emph>\<open>withdrawal listener\<close>
  (\<^verbatim>\<open>withdrawal-listener-attester\<close>) is a second withdrawal path for a partner with its own signers: one run
  takes a discovered burn note through discovery, Circle's preparation, a field-by-field gate, a quorum of
  signatures, evidence from the node and an allowlist gate to one submission, over a durable per-burn
  ledger and a rate governor. \<^verbatim>\<open>usdcx-bridge\<close> supervises
  attester and relayer in one process, \<^verbatim>\<open>usdcx-telemetry\<close> classifies failures and carries the shutdown
  signal, and \<^verbatim>\<open>xusdc-validation\<close> is the harness that runs the bridge against live networks, asserts the
  rows of a validation matrix over what it observed and gates the result.

  \<^bold>\<open>Conventions.\<close> A Rust \<^verbatim>\<open>Result\<close> is a sum, \<open>Inl\<close> the error; \<open>and_then\<close> is the question mark. A method
  that changes its receiver maps a state to a result and the state it leaves, also when it fails
  (type \<open>run\<close> of theory \<open>Prelude\<close>, sequenced by \<open>bind_run\<close>). Everything outside the process (Circle,
  the node, KMS, disk, database, clock, shutdown token, other processes) is a field of an environment
  record; each use is numbered by a tick of the state, so every call may answer anything, fail, and
  answer differently the next time. A theorem about a run therefore holds for every behaviour of the
  outside world, up to the hypotheses it states. Code of other repositories (\<^verbatim>\<open>alloy\<close>, \<^verbatim>\<open>k256\<close>,
  \<^verbatim>\<open>miden-*\<close>, \<^verbatim>\<open>serde_json\<close>, \<^verbatim>\<open>reqwest\<close>, \<^verbatim>\<open>xusdc-encoding\<close>) is a field of \<open>ext\<close>, \<open>secp\<close>, \<open>feed_ext\<close>,
  \<open>mint_ext\<close>, \<open>wire_codecs\<close>, \<open>listener_ext\<close>, \<open>admin_ext\<close>, \<open>harness_ext\<close> or \<open>sanity_env\<close>. The traces \<open>at_trace\<close>,
  \<open>rl_trace\<close>, \<open>su_trace\<close> and \<open>sn_trace\<close> record, for the theorems only, what was sent, fetched, included,
  claimed or saved, in order; no definition reads them.
  Machine integers keep their width where the code relies on it (amounts, fees, identifiers, SQL
  seconds); block numbers and counters are natural numbers.

  \<^bold>\<open>Light attester\<close> (\<^verbatim>\<open>crates/xusdc-light-attester/src\<close>).
  \<^item> \<open>Wire\<close>, \<open>Burn\<close>, \<open>Attester_Config\<close>, \<open>Telemetry\<close>: the data that crosses the boundaries, \<^verbatim>\<open>burn.rs\<close>,
    \<^verbatim>\<open>config.rs\<close> (what a command line must satisfy, retry deadlines) and the failure classes.
  \<^item> \<open>Circle\<close>, \<open>Submission\<close>: \<^verbatim>\<open>circle.rs\<close> (requests, bounded replies, pacing, decimal amounts) and
    \<^verbatim>\<open>submission.rs\<close> (what an answer does to a saved submission).
  \<^item> \<open>Verify\<close>: \<^verbatim>\<open>verify.rs\<close>; \<open>verify\<close> accepts exactly the replies that authorize the burn, a reply
    authorizes at most one burn, and the byte encodings are injective.
  \<^item> \<open>Signer\<close>: \<^verbatim>\<open>signer.rs\<close> and the KMS signer.
  \<^item> \<open>Store\<close> (every transaction and query of \<^verbatim>\<open>store.rs\<close>), \<open>Store_Effects\<close> (what each does to each row and
    to the history), \<open>Store_Inv\<close> (the invariant, the step relation \<open>store_step\<close> and its interpretation as
    a \<open>logged_machine\<close>), \<open>Store_Props\<close> (re-authorization only for cause, reopening, ready burns, stale
    releases, append-only history).
  \<^item> \<open>Attester\<close> (\<^verbatim>\<open>attester.rs\<close>, \<^verbatim>\<open>chain.rs\<close>, \<^verbatim>\<open>service.rs\<close>, the admin commands), \<open>Attester_Store\<close> and
    \<open>Attester_Cycle\<close> (every cycle is a sequence of guarded store transactions on a verified chain),
    \<open>Attester_Trace\<close> (what is sent to Circle and when), \<open>Attester_Sample\<close> (concrete runs for the
    witnesses), \<open>Attester_Props\<close> (completeness of a saved block, withdrawal limit, pauses, shutdown).
  \<^item> \<open>Admin_Socket\<close> (\<^verbatim>\<open>admin.rs\<close>, \<^verbatim>\<open>admin/client.rs\<close>: the line protocol of the operator socket, both ends),
    \<open>Admin_Machine\<close> (the listener as the step relation \<open>admin_step\<close> over connections and the store),
    \<open>Admin_Props\<close> (replies are truthful about the store, a command survives the round trip).

  \<^bold>\<open>Deposit relayer\<close> (\<^verbatim>\<open>crates/xreserve-deposit-relayer/src\<close>).
  \<^item> \<open>Relayer_Feed\<close>: \<^verbatim>\<open>circle.rs\<close>, \<^verbatim>\<open>config.rs\<close>, \<^verbatim>\<open>prover.rs\<close>; \<open>Relayer\<close>: \<^verbatim>\<open>store.rs\<close>, \<^verbatim>\<open>unminted.rs\<close>, \<^verbatim>\<open>mint.rs\<close>,
    \<^verbatim>\<open>miden.rs\<close>, \<^verbatim>\<open>lib.rs\<close>.
  \<^item> \<open>Relayer_Steps\<close>: the contract of the Miden client as the locale \<open>miden_client\<close>, interpreted on the
    node client; \<open>Relayer_Walk\<close>: the walk through the feed and what a saved position stands for;
    \<open>Relayer_Props\<close>: no deposit is skipped through any number of process lifetimes, a failed page keeps
    the progress, the progress file is replaced atomically; \<open>Relayer_Limits\<close>: submissions return,
    transactions stay within the proving limit, the end of the feed is explicit.

  \<^bold>\<open>Withdrawal listener\<close> (\<^verbatim>\<open>crates/withdrawal-listener-attester/src\<close>).
  \<^item> \<open>Ledger\<close>: \<^verbatim>\<open>idempotency/\<close>; between two claims of a burn a refusal was recorded, whatever callers
    interleave. \<open>Governor\<close>: \<^verbatim>\<open>circle/rate.rs\<close> and the backoff of \<^verbatim>\<open>circle/retry.rs\<close>; the ceilings hold in
    every window.
  \<^item> \<open>Withdraw_Wire\<close>: \<^verbatim>\<open>circle/wire.rs\<close>, \<^verbatim>\<open>circle/schema/\<close>; \<open>Withdraw_Submit\<close>: \<^verbatim>\<open>submit.rs\<close>, the retry loop,
    polling and bounded bodies; \<open>Withdraw_Props\<close>: a request is repeated only after a server error and
    frees a burn only after status 400, and the reported outcome is what the ledger records.
  \<^item> \<open>Listener_Config\<close>: \<^verbatim>\<open>config.rs\<close>, \<^verbatim>\<open>circle/auth.rs\<close>, \<^verbatim>\<open>circle/client.rs\<close>; a credential travels only over
    https and never through a redirect.
  \<^item> \<open>Withdraw_Gate\<close>: \<^verbatim>\<open>note_decode.rs\<close>, \<^verbatim>\<open>validate.rs\<close>, \<^verbatim>\<open>attester.rs\<close> and the builders and the allowlist gate
    of \<^verbatim>\<open>withdrawal_api.rs\<close>, with an exact characterisation of what each check accepts (\<open>clears\<close>,
    \<open>ordered_quorum\<close>, \<open>signed_by_attester\<close>).
  \<^item> \<open>Withdraw_Evidence\<close>: \<^verbatim>\<open>evidence.rs\<close>, \<^verbatim>\<open>types.rs\<close>; the assembler agrees with its declarative reading
    \<open>evidenced\<close> and does not depend on the order of the node's rows.
  \<^item> \<open>Withdraw_Run\<close>: \<^verbatim>\<open>listener/mod.rs\<close>; \<open>Withdraw_Run_Props\<close>: the contract of a stage of a run as the locale
    \<open>listener_stage\<close>, interpreted for the stages before the signer, at the signer and after it;
    \<open>Withdraw_Safety\<close>: every request that is sent is lawful for the discovered burn, a run never panics,
    and its outcome is what the ledger records. Hypotheses on code of other repositories are \<open>encodes_hex\<close>
    (\<^verbatim>\<open>hex::encode\<close> writes two digits per byte) and \<open>recoverable\<close> (a \<^verbatim>\<open>k256\<close> signature recovers to its signer);
    \<open>minds_own\<close> says that no other process changes the run's own burn meanwhile.

  \<^bold>\<open>Bridge supervisor.\<close> \<open>Bridge\<close>: the configuration and the supervisor of \<^verbatim>\<open>usdcx-bridge\<close> and the shutdown
  signal of \<^verbatim>\<open>usdcx-telemetry\<close> (\<^verbatim>\<open>shutdown.rs\<close>), with the step relation \<open>bridge_step\<close> over the two tasks.

  \<^bold>\<open>Validation harness\<close> (\<^verbatim>\<open>crates/xusdc-validation/src\<close>).
  \<^item> \<open>Harness_Rows\<close>: the observations of the rows A to J and the assertions over them; \<open>Harness_Logs\<close>: the
    scan of the service logs, the rows K and L, the order of the matrix and the verdicts;
    \<open>Harness_Matrix\<close>: what a green matrix is evidence for, and that the logs the stack script
    writes never satisfy row L (it asks for \<^verbatim>\<open>tx-prover.log\<close>, the script writes \<^verbatim>\<open>prover.log\<close>).
  \<^item> \<open>Harness_Sanity\<close>: the sanity gate (\<^verbatim>\<open>sanity/\<close>: addresses and run mode, the driver and its checks,
    the admin parts, the restore of the ownership); \<open>Harness_Gate\<close>: the locales \<open>event_class\<close> and
    \<open>any_event\<close> for classes of trace events and \<open>ownership_ops\<close> for the operations that move the
    ownership, interpreted on the recheck, the full restore and the driver; admin transactions are
    sent only to a faucet the run deployed itself, and the gate says that the ownership was restored
    only when the chain shows it. \<open>loopback_spoof\<close> shows that the test for a local node accepts remote
    hosts whose name starts like a loopback address.

  \<^bold>\<open>Bounds.\<close> Loops over data are structural recursion. The retry loop of the listener is a function with
  a proved measure; its polling loop and the retry of a sync count their attempts as the code does.
  Loops that the code runs until a shutdown take the number of rounds as an argument (\<open>service_run\<close>,
  \<open>run\<close>: cycles; \<open>run_until\<close>: polls; \<open>scan_pages\<close>: pages), and the theorems hold for every number.
  The polls of the sanity gate are bounded by \<open>se_polls\<close>, as the code bounds them by a deadline.
  Waiting for inclusion takes a number of rounds as well, and \<open>submission_returns\<close> states how many are
  enough once the chain has passed the expiration block.

  \<^bold>\<open>Not modelled.\<close> Log lines, spans and metrics; HTTP and gRPC transport below the answers; SQL
  migrations, file locks and column decoding; command-line parsing (\<^verbatim>\<open>clap\<close>); texts of error messages and
  serialization of requests below the record level; the node feed of the withdrawal listener, which the
  sources leave to a later version; tests. Of the harness: the drivers that build the test notes and keys
  and produce the observations of the rows (\<^verbatim>\<open>rows_ab.rs\<close>, \<^verbatim>\<open>rows_cf.rs\<close>, \<^verbatim>\<open>rows_de.rs\<close>, \<^verbatim>\<open>rows_gj.rs\<close>), which are
  sequences of calls into the node and the Miden client, the start of node processes, and the rendering
  of records and evidence files.
\<close>

end
